(* ===== verification/Prelude.thy ===== *)
theory Prelude
  imports Main "HOL-Library.Word" "HOL-Library.List_Lexorder"
begin

text \<open>
  Shared vocabulary of the development: JavaScript strings as lists of UTF-16 code units,
  the result type of code that may throw (\<open>Inl\<close> is the thrown message), the sequencing
  combinators \<open>bindR\<close>, \<open>thenR\<close> and \<open>mapR\<close> that render statement sequences and
  \<open>Array.prototype.map\<close> over throwing callbacks, and the lemma collections every later
  theory feeds and uses.
\<close>

section \<open>Lemma collections\<close>

named_theorems result_simps \<open>inversion of the sequencing combinators\<close>
named_theorems js_defs \<open>definitions that evaluate text predicates on literals\<close>

section \<open>JavaScript strings\<close>

type_synonym code_unit = "16 word"
type_synonym jsstr = "code_unit list"
type_synonym byte = "8 word"

definition js_char :: "char \<Rightarrow> code_unit" where
  "js_char c = of_nat (of_char c)"

definition js :: "string \<Rightarrow> jsstr" where
  "js s = map js_char s"

lemma of_char_less: "(of_char c :: nat) < 256"
  by (cases c) (simp add: of_char_def char_of_def horner_sum_of_bool_2_less [of "[_, _, _, _, _, _, _, _]", simplified])

lemma unat_js_char: "unat (js_char c) = of_char c"
proof -
  have "(of_char c :: nat) < 2 ^ 16"
    by (rule order.strict_trans [OF of_char_less]) simp
  then show ?thesis by (simp add: js_char_def unat_of_nat take_bit_nat_eq_self)
qed

lemma unat_of_nat_unit: "n < 65536 \<Longrightarrow> unat (of_nat n :: code_unit) = n"
  by (simp add: unat_of_nat take_bit_nat_eq_self)

lemma unat_of_nat_byte: "n < 256 \<Longrightarrow> unat (of_nat n :: byte) = n"
  by (simp add: unat_of_nat take_bit_nat_eq_self)

lemma unat_unit_less: "unat (c :: code_unit) < 65536"
proof -
  have "unat c < 2 ^ LENGTH(16)" by (rule unsigned_less)
  then show ?thesis by simp
qed

lemma unat_byte_less: "unat (b :: byte) < 256"
proof -
  have "unat b < 2 ^ LENGTH(8)" by (rule unsigned_less)
  then show ?thesis by simp
qed

lemma js_char_eq_iff [simp]: "js_char a = js_char b \<longleftrightarrow> a = b"
  by (metis unat_js_char of_char_eq_iff)

lemma js_eq_iff [simp]: "js s = js t \<longleftrightarrow> s = t"
  unfolding js_def by (rule inj_map_eq_map) (simp add: inj_def)

lemma js_Nil [simp]: "js [] = []"
  by (simp add: js_def)

lemma js_Cons: "js (c # s) = js_char c # js s"
  by (simp add: js_def)

lemma js_eq_Nil_iff [simp]: "js s = [] \<longleftrightarrow> s = []"
  by (simp add: js_def)

lemma js_append: "js (s @ t) = js s @ js t"
  by (simp add: js_def)

lemma length_js [simp]: "length (js s) = length s"
  by (simp add: js_def)

section \<open>Results of code that may throw\<close>

type_synonym 'a result = "jsstr + 'a"

definition throw :: "string \<Rightarrow> 'a result" where
  "throw m = Inl (js m)"

definition bindR :: "'e + 'a \<Rightarrow> ('a \<Rightarrow> 'e + 'b) \<Rightarrow> 'e + 'b" where
  "bindR m f = (case m of Inl e \<Rightarrow> Inl e | Inr x \<Rightarrow> f x)"

definition thenR :: "'e + unit \<Rightarrow> 'e + 'b \<Rightarrow> 'e + 'b" where
  "thenR m k = (case m of Inl e \<Rightarrow> Inl e | Inr _ \<Rightarrow> k)"

text \<open>\<open>if (bad) throw new Error(m)\<close>.\<close>

definition throw_if :: "bool \<Rightarrow> string \<Rightarrow> unit result" where
  "throw_if bad m = (if bad then throw m else Inr ())"

fun mapR :: "('a \<Rightarrow> 'e + 'b) \<Rightarrow> 'a list \<Rightarrow> 'e + 'b list" where
  "mapR f [] = Inr []"
| "mapR f (x # xs) = bindR (f x) (\<lambda>y. bindR (mapR f xs) (\<lambda>ys. Inr (y # ys)))"

definition is_ok :: "'e + 'a \<Rightarrow> bool" where
  "is_ok r = (case r of Inl _ \<Rightarrow> False | Inr _ \<Rightarrow> True)"

lemma bindR_simps [simp]:
  "bindR (Inl e) f = Inl e"
  "bindR (Inr x) f = f x"
  by (simp_all add: bindR_def)

lemma thenR_simps [simp]:
  "thenR (Inl e) k = Inl e"
  "thenR (Inr u) k = k"
  by (simp_all add: thenR_def)

lemma is_ok_simps [simp]: "is_ok (Inr x)" "\<not> is_ok (Inl e)"
  by (simp_all add: is_ok_def)

lemma is_ok_iff: "is_ok r \<longleftrightarrow> (\<exists>x. r = Inr x)"
  by (cases r) auto

lemma is_ok_bindR: "is_ok (bindR m f) \<longleftrightarrow> (\<exists>x. m = Inr x \<and> is_ok (f x))"
  by (cases m) (simp_all add: bindR_def)

lemma is_ok_bindR_Inr [simp]: "is_ok (bindR m (\<lambda>x. Inr (g x))) \<longleftrightarrow> is_ok m"
  by (cases m) (simp_all add: bindR_def)

lemma is_ok_thenR [simp]: "is_ok (thenR m k) \<longleftrightarrow> is_ok m \<and> is_ok k"
  by (cases m) (simp_all add: thenR_def)

lemma throw_neq_Inr [simp]: "throw m \<noteq> Inr x" "Inr x \<noteq> throw m"
  by (simp_all add: throw_def)

lemma is_ok_throw [simp]: "\<not> is_ok (throw m)"
  by (simp add: throw_def)

lemma bindR_throw [simp]: "bindR (throw m) f = throw m" "thenR (throw m) k = throw m"
  by (simp_all add: throw_def)

lemma throw_if_simps [simp]:
  "throw_if False m = Inr ()"
  "throw_if True m = throw m"
  by (simp_all add: throw_if_def)

lemma throw_if_eq_Inr [result_simps]: "throw_if bad m = Inr u \<longleftrightarrow> \<not> bad"
  by (simp add: throw_if_def)

lemma bindR_eq_Inr [result_simps]:
  "bindR m f = Inr y \<longleftrightarrow> (\<exists>x. m = Inr x \<and> f x = Inr y)"
  by (cases m) simp_all

lemma thenR_eq_Inr [result_simps]:
  "thenR m k = Inr y \<longleftrightarrow> m = Inr () \<and> k = Inr y"
  by (cases m) simp_all

lemma bindR_assoc: "bindR (bindR m f) g = bindR m (\<lambda>x. bindR (f x) g)"
  by (cases m) simp_all

lemma bindR_cong [fundef_cong]:
  "m = m' \<Longrightarrow> (\<And>x. m' = Inr x \<Longrightarrow> f x = f' x) \<Longrightarrow> bindR m f = bindR m' f'"
  by (cases m') simp_all

lemma thenR_cong [fundef_cong]:
  "m = m' \<Longrightarrow> (m' = Inr () \<Longrightarrow> k = k') \<Longrightarrow> thenR m k = thenR m' k'"
  by (cases m') simp_all

lemma mapR_cong [fundef_cong]:
  "xs = ys \<Longrightarrow> (\<And>x. x \<in> set ys \<Longrightarrow> f x = g x) \<Longrightarrow> mapR f xs = mapR g ys"
  by (induction ys arbitrary: xs) auto

lemma mapR_eq_Inr: "mapR f xs = Inr ys \<longleftrightarrow> list_all2 (\<lambda>x y. f x = Inr y) xs ys"
  by (induction xs arbitrary: ys) (auto simp: bindR_eq_Inr list_all2_Cons1)

lemma mapR_ok: "is_ok (mapR f xs) \<longleftrightarrow> (\<forall>x \<in> set xs. is_ok (f x))"
proof (induction xs)
  case (Cons x xs)
  then show ?case by (cases "f x") simp_all
qed simp

lemma mapR_Inr_map: "(\<And>x. x \<in> set xs \<Longrightarrow> f x = Inr (g x)) \<Longrightarrow> mapR f xs = Inr (map g xs)"
  by (induction xs) auto

lemma mapR_length: "mapR f xs = Inr ys \<Longrightarrow> length ys = length xs"
  by (simp add: mapR_eq_Inr list_all2_lengthD)

lemma mapR_eq_Inl: "mapR f xs = Inl e \<Longrightarrow> \<exists>x \<in> set xs. f x = Inl e"
proof (induction xs)
  case (Cons x xs)
  then show ?case by (cases "f x"; cases "mapR f xs") auto
qed simp

lemma mapR_id: "(\<And>x y. x \<in> set xs \<Longrightarrow> f x = Inr y \<Longrightarrow> y = g x) \<Longrightarrow> mapR f xs = Inr ys \<Longrightarrow> ys = map g xs"
  by (induction xs arbitrary: ys) (auto simp: bindR_eq_Inr)

lemma mapR_choose:
  assumes "mapR f xs = Inr ts"
    and "\<And>x t. x \<in> set xs \<Longrightarrow> f x = Inr t \<Longrightarrow> \<exists>j. R x j \<and> t = g j \<and> W j"
  shows "\<exists>zs. list_all2 R xs zs \<and> ts = map g zs \<and> (\<forall>j \<in> set zs. W j)"
  using assms
proof (induction xs arbitrary: ts)
  case (Cons x xs)
  from Cons.prems(1) obtain t us where t: "f x = Inr t" "mapR f xs = Inr us" "ts = t # us"
    by (auto simp: bindR_eq_Inr)
  from Cons.IH [OF t(2)] Cons.prems(2) obtain zs where zs: "list_all2 R xs zs" "us = map g zs" "\<forall>j \<in> set zs. W j"
    by auto
  from Cons.prems(2) [of x t] t obtain j where "R x j" "t = g j" "W j" by auto
  with zs t show ?case by (intro exI [of _ "j # zs"]) simp
qed simp

lemma mapR_transfer:
  "mapR f xs = Inr ys \<Longrightarrow> (\<And>x y. x \<in> set xs \<Longrightarrow> f x = Inr y \<Longrightarrow> g x = Inr y) \<Longrightarrow> mapR g xs = Inr ys"
  by (induction xs arbitrary: ys) (auto simp: bindR_eq_Inr)

lemma mapR_list_all:
  assumes "mapR f xs = Inr ys" and "\<And>x y. x \<in> set xs \<Longrightarrow> f x = Inr y \<Longrightarrow> P y"
  shows "list_all P ys"
  using assms
proof (induction xs arbitrary: ys)
  case (Cons x xs)
  from Cons.prems(1) obtain y us where u: "f x = Inr y" "mapR f xs = Inr us" "ys = y # us"
    by (auto simp: bindR_eq_Inr)
  have "list_all P us" by (rule Cons.IH [OF u(2)]) (rule Cons.prems(2), simp_all)
  with u Cons.prems(2) [of x y] show ?case by simp
qed simp

lemma mapR_list_all2: "list_all2 (\<lambda>x j. f x = Inr (g j)) xs zs \<Longrightarrow> mapR f xs = Inr (map g zs)"
  by (simp add: mapR_eq_Inr list.rel_map)

section \<open>Lists and options\<close>

lemma map_eq_nth: "map f xs = map g ys \<Longrightarrow> n < length xs \<Longrightarrow> f (xs ! n) = g (ys ! n)"
  by (metis length_map nth_map)

lemma filter_eq_single: "distinct xs \<Longrightarrow> x \<in> set xs \<Longrightarrow> filter (\<lambda>y. y = x) xs = [x]"
  by (induction xs) (auto simp: filter_empty_conv)

lemma map_of_map_fst_inj:
  "inj f \<Longrightarrow> map_of (map (\<lambda>(k, v). (f k, g v)) xs) (f k) = map_option g (map_of xs k)"
  by (induction xs) (auto dest: injD)

lemma sorted_distinct_set_eq: "sorted xs \<Longrightarrow> distinct xs \<Longrightarrow> sorted ys \<Longrightarrow> distinct ys \<Longrightarrow> set xs = set ys \<Longrightarrow> xs = ys"
  by (rule sorted_distinct_set_unique)

end
