(* ===== verification/JsText.thy ===== *)
theory JsText
  imports Prelude
begin

text \<open>
  The string operations and regular expressions the repository's validators use, over
  UTF-16 code units: character classes, \<open>trim\<close>, \<open>split\<close>, \<open>startsWith\<close>,
  \<open>endsWith\<close>, \<open>includes\<close>, \<open>toLowerCase\<close>, \<open>String(number)\<close>, the UTF-8 length and
  encoding of \<open>Buffer.byteLength\<close> and \<open>Buffer.from\<close>, and the surrogate check
  \<open>assertValidUnicode\<close> of canonical-json.ts.
\<close>

section \<open>Character classes\<close>

definition is_digit :: "code_unit \<Rightarrow> bool" where
  "is_digit c \<longleftrightarrow> 48 \<le> c \<and> c \<le> 57"

definition is_lower :: "code_unit \<Rightarrow> bool" where
  "is_lower c \<longleftrightarrow> 97 \<le> c \<and> c \<le> 122"

definition is_upper :: "code_unit \<Rightarrow> bool" where
  "is_upper c \<longleftrightarrow> 65 \<le> c \<and> c \<le> 90"

definition is_alnum :: "code_unit \<Rightarrow> bool" where
  "is_alnum c \<longleftrightarrow> is_digit c \<or> is_lower c \<or> is_upper c"

definition is_hex :: "code_unit \<Rightarrow> bool" where
  "is_hex c \<longleftrightarrow> is_digit c \<or> (97 \<le> c \<and> c \<le> 102)"

text \<open>Membership in a class written as a literal, as in \<open>[._:@+-]\<close>.\<close>

definition in_class :: "string \<Rightarrow> code_unit \<Rightarrow> bool" where
  "in_class cls c \<longleftrightarrow> c \<in> set (js cls)"

text \<open>
  The white space and line terminators that \<open>String.prototype.trim\<close> removes.
\<close>

definition is_space :: "code_unit \<Rightarrow> bool" where
  "is_space c \<longleftrightarrow> (9 \<le> c \<and> c \<le> 13) \<or> c \<in> {32, 160, 0x1680, 0x2028, 0x2029, 0x202F, 0x205F, 0x3000, 0xFEFF}
     \<or> (0x2000 \<le> c \<and> c \<le> 0x200A)"

lemmas class_defs = is_digit_def is_lower_def is_upper_def is_alnum_def is_hex_def is_space_def

section \<open>String operations\<close>

definition trim :: "jsstr \<Rightarrow> jsstr" where
  "trim s = rev (dropWhile is_space (rev (dropWhile is_space s)))"

definition starts_with :: "jsstr \<Rightarrow> jsstr \<Rightarrow> bool" where
  "starts_with p s \<longleftrightarrow> take (length p) s = p"

definition ends_with :: "jsstr \<Rightarrow> jsstr \<Rightarrow> bool" where
  "ends_with p s \<longleftrightarrow> length p \<le> length s \<and> drop (length s - length p) s = p"

fun has_sub :: "jsstr \<Rightarrow> jsstr \<Rightarrow> bool" where
  "has_sub p [] \<longleftrightarrow> p = []"
| "has_sub p (c # s) \<longleftrightarrow> starts_with p (c # s) \<or> has_sub p s"

text \<open>\<open>value.split(sep)\<close> for a one-character separator.\<close>

fun split_on :: "code_unit \<Rightarrow> jsstr \<Rightarrow> jsstr list" where
  "split_on d [] = [[]]"
| "split_on d (c # s) =
     (if c = d then [] # split_on d s
      else (case split_on d s of [] \<Rightarrow> [[c]] | p # ps \<Rightarrow> (c # p) # ps))"

fun join :: "jsstr \<Rightarrow> jsstr list \<Rightarrow> jsstr" where
  "join sep [] = []"
| "join sep [x] = x"
| "join sep (x # y # xs) = x @ sep @ join sep (y # xs)"

text \<open>
  \<open>toLowerCase\<close>. Outside ASCII only the two characters whose lower case contains an ASCII
  letter matter to the callers (which keep \<open>[a-z0-9]\<close> or have validated ASCII input):
  U+0130 and U+212A; every other character is left as it is.
\<close>

definition lower_unit :: "code_unit \<Rightarrow> jsstr" where
  "lower_unit c = (if is_upper c then [c + 32]
     else if c = 0x130 then [105, 0x307] else if c = 0x212A then [107] else [c])"

definition to_lower :: "jsstr \<Rightarrow> jsstr" where
  "to_lower s = concat (map lower_unit s)"

text \<open>\<open>String(n)\<close> for an integer.\<close>

definition digit_char :: "nat \<Rightarrow> code_unit" where
  "digit_char d = of_nat (48 + d)"

fun nat_text :: "nat \<Rightarrow> jsstr" where
  "nat_text n = (if n < 10 then [digit_char n] else nat_text (n div 10) @ [digit_char (n mod 10)])"

declare nat_text.simps [simp del]

definition int_text :: "int \<Rightarrow> jsstr" where
  "int_text i = (if i < 0 then js ''-'' @ nat_text (nat (- i)) else nat_text (nat i))"

section \<open>Regular expressions\<close>

text \<open>\<open>/^[a-f0-9]{n}$/\<close>; \<open>/^sha256:[a-f0-9]{64}$/\<close>; a Git object id of either format.\<close>

definition hex_n :: "nat \<Rightarrow> jsstr \<Rightarrow> bool" where
  "hex_n n s \<longleftrightarrow> length s = n \<and> list_all is_hex s"

definition is_digest :: "jsstr \<Rightarrow> bool" where
  "is_digest s \<longleftrightarrow> starts_with (js ''sha256:'') s \<and> hex_n 64 (drop 7 s)"

definition is_git_sha :: "jsstr \<Rightarrow> bool" where
  "is_git_sha s \<longleftrightarrow> hex_n 40 s \<or> hex_n 64 s"

definition is_preflight_id :: "jsstr \<Rightarrow> bool" where
  "is_preflight_id s \<longleftrightarrow> starts_with (js ''pf_'') s \<and> hex_n 64 (drop 3 s)"

text \<open>\<open>/^[A-Za-z0-9][A-Za-z0-9._:@+-]{0,127}$/\<close>.\<close>

definition is_identifier :: "jsstr \<Rightarrow> bool" where
  "is_identifier s \<longleftrightarrow> (case s of [] \<Rightarrow> False | c # cs \<Rightarrow>
     is_alnum c \<and> length cs \<le> 127 \<and> list_all (\<lambda>d. is_alnum d \<or> in_class ''._:@+-'' d) cs)"

section \<open>Unicode\<close>

definition is_high :: "code_unit \<Rightarrow> bool" where
  "is_high c \<longleftrightarrow> 0xD800 \<le> c \<and> c \<le> 0xDBFF"

definition is_low :: "code_unit \<Rightarrow> bool" where
  "is_low c \<longleftrightarrow> 0xDC00 \<le> c \<and> c \<le> 0xDFFF"

text \<open>
  \<open>assertValidUnicode\<close>: the index loop of the code, which skips the low half of a pair.
\<close>

fun assert_valid_unicode :: "jsstr \<Rightarrow> unit result" where
  "assert_valid_unicode [] = Inr ()"
| "assert_valid_unicode (c # s) =
     (if is_high c then
        (case s of
           [] \<Rightarrow> throw ''Canonical JSON rejected: unpaired high surrogate''
         | d # s' \<Rightarrow> (if \<not> is_low d then throw ''Canonical JSON rejected: unpaired high surrogate''
                    else assert_valid_unicode s'))
      else if is_low c then throw ''Canonical JSON rejected: unpaired low surrogate''
      else assert_valid_unicode s)"

text \<open>
  \<open>Buffer.from(s, "utf8")\<close>: surrogate pairs become four bytes and a lone surrogate the three
  bytes of U+FFFD.
\<close>

definition utf8_pair :: "code_unit \<Rightarrow> code_unit \<Rightarrow> byte list" where
  "utf8_pair h l = (let cp = 0x10000 + (unat h - 0xD800) * 0x400 + (unat l - 0xDC00) in
     [of_nat (0xF0 + cp div 0x40000), of_nat (0x80 + cp div 0x1000 mod 0x40),
      of_nat (0x80 + cp div 0x40 mod 0x40), of_nat (0x80 + cp mod 0x40)])"

definition utf8_unit :: "code_unit \<Rightarrow> byte list" where
  "utf8_unit c = (let n = unat c in
     if n < 0x80 then [of_nat n]
     else if n < 0x800 then [of_nat (0xC0 + n div 0x40), of_nat (0x80 + n mod 0x40)]
     else if is_high c \<or> is_low c then [0xEF, 0xBF, 0xBD]
     else [of_nat (0xE0 + n div 0x1000), of_nat (0x80 + n div 0x40 mod 0x40), of_nat (0x80 + n mod 0x40)])"

fun utf8 :: "jsstr \<Rightarrow> byte list" where
  "utf8 [] = []"
| "utf8 [c] = utf8_unit c"
| "utf8 (c # d # s) = (if is_high c \<and> is_low d then utf8_pair c d @ utf8 s else utf8_unit c @ utf8 (d # s))"

definition byte_length :: "jsstr \<Rightarrow> nat" where
  "byte_length s = length (utf8 s)"

end
