(* ===== verification/JsValue.thy ===== *)
theory JsValue
  imports JsText
begin

text \<open>
  JavaScript values as the validators see them. An object is its prototype kind and its own
  properties in order, each with a descriptor, so that the checks of canonical-json.ts on
  hidden, symbolic, accessor and inherited members can be written out; an array is its
  length and its own properties other than \<open>length\<close>. Numbers keep what the code can
  observe of them: a safe integer, negative zero, or any other Number.
\<close>

section \<open>Numbers\<close>

text \<open>
  \<open>JInt n\<close> is the Number \<open>n\<close>; \<open>JOtherNum\<close> is every Number that is not a safe integer
  (a fraction, NaN, an infinity, or an integer beyond \<open>2^53 - 1\<close>).
\<close>

datatype jsnum = JInt int | JNegZero | JOtherNum

definition max_safe :: int where
  "max_safe = 9007199254740991"

text \<open>\<open>Number.isSafeInteger\<close>; negative zero is a safe integer.\<close>

fun is_safe_integer :: "jsnum \<Rightarrow> bool" where
  "is_safe_integer (JInt n) \<longleftrightarrow> \<bar>n\<bar> \<le> max_safe"
| "is_safe_integer JNegZero \<longleftrightarrow> True"
| "is_safe_integer JOtherNum \<longleftrightarrow> False"

section \<open>Values\<close>

datatype propkey = PStr jsstr | PSym nat

datatype proto = ObjectProto | NullProto | OtherProto

text \<open>
  A property descriptor: a data property with its value, or an accessor with the value its
  getter returns; the flag is \<open>enumerable\<close>.
\<close>

datatype 'v desc = DData (desc_value: 'v) (desc_enumerable: bool) | DAcc (desc_value: 'v) (desc_enumerable: bool)

text \<open>
  \<open>JOther\<close> is a function, symbol or bigint; \<open>JAncestor\<close> is a reference back to an object
  that encloses it (the value is a graph, unfolded along its paths until one closes).
\<close>

datatype jsval =
    JUndef | JNull | JBool bool | JNum jsnum | JStr jsstr | JOther | JAncestor
  | JArr nat "(propkey \<times> jsval desc) list"
  | JObj proto "(propkey \<times> jsval desc) list"

text \<open>Plain objects and dense arrays, as literals and \<open>JSON.parse\<close> build them.\<close>

definition obj :: "(jsstr \<times> jsval) list \<Rightarrow> jsval" where
  "obj kvs = JObj ObjectProto (map (\<lambda>(k, v). (PStr k, DData v True)) kvs)"

fun index_props :: "nat \<Rightarrow> jsval list \<Rightarrow> (propkey \<times> jsval desc) list" where
  "index_props i [] = []"
| "index_props i (v # vs) = (PStr (nat_text i), DData v True) # index_props (Suc i) vs"

definition arr :: "jsval list \<Rightarrow> jsval" where
  "arr vs = JArr (length vs) (index_props 0 vs)"

abbreviation jint :: "int \<Rightarrow> jsval" where
  "jint n \<equiv> JNum (JInt n)"

section \<open>Reflection\<close>

text \<open>\<open>Object.keys\<close>: the enumerable own string keys, in property order.\<close>

fun object_keys :: "(propkey \<times> 'v desc) list \<Rightarrow> jsstr list" where
  "object_keys [] = []"
| "object_keys ((PStr k, d) # ps) = (if desc_enumerable d then k # object_keys ps else object_keys ps)"
| "object_keys ((PSym _, _) # ps) = object_keys ps"

text \<open>\<open>Reflect.ownKeys\<close>.\<close>

definition own_keys :: "(propkey \<times> 'v desc) list \<Rightarrow> propkey list" where
  "own_keys ps = map fst ps"

text \<open>Reading an own member; a missing one is \<open>undefined\<close>.\<close>

definition get_own :: "(propkey \<times> jsval desc) list \<Rightarrow> jsstr \<Rightarrow> jsval" where
  "get_own ps k = (case map_of ps (PStr k) of None \<Rightarrow> JUndef | Some d \<Rightarrow> desc_value d)"

fun get :: "jsval \<Rightarrow> jsstr \<Rightarrow> jsval" where
  "get (JObj _ ps) k = get_own ps k"
| "get _ k = JUndef"

text \<open>The elements of an array in index order, reading each index.\<close>

fun elements :: "jsval \<Rightarrow> jsval list" where
  "elements (JArr n ps) = map (\<lambda>i. get_own ps (nat_text i)) [0..<n]"
| "elements _ = []"

fun is_array :: "jsval \<Rightarrow> bool" where
  "is_array (JArr _ _) \<longleftrightarrow> True"
| "is_array _ \<longleftrightarrow> False"

section \<open>Decimal text\<close>

lemma nat_text_less_10: "n < 10 \<Longrightarrow> nat_text n = [digit_char n]"
  by (subst nat_text.simps) simp

lemma nat_text_ge_10: "\<not> n < 10 \<Longrightarrow> nat_text n = nat_text (n div 10) @ [digit_char (n mod 10)]"
  by (subst nat_text.simps) simp

lemma unat_digit_char: "d < 10 \<Longrightarrow> unat (digit_char d) = 48 + d"
  unfolding digit_char_def by (rule unat_of_nat_unit) simp

lemma is_digit_unat: "is_digit c \<longleftrightarrow> 48 \<le> unat c \<and> unat c \<le> 57"
  by (simp add: is_digit_def word_le_nat_alt)

definition digit_value :: "code_unit \<Rightarrow> nat" where
  "digit_value c = unat c - 48"

lemma digit_value_char [simp]: "d < 10 \<Longrightarrow> digit_value (digit_char d) = d"
  by (simp add: digit_value_def unat_digit_char)

lemma is_digit_char [simp]: "d < 10 \<Longrightarrow> is_digit (digit_char d)"
  by (simp add: is_digit_unat unat_digit_char)

definition digits_value :: "jsstr \<Rightarrow> nat" where
  "digits_value s = foldl (\<lambda>a c. 10 * a + digit_value c) 0 s"

lemma digits_value_nat_text [simp]: "digits_value (nat_text n) = n"
proof (induction n rule: nat_text.induct)
  case (1 n)
  show ?case
  proof (cases "n < 10")
    case True
    then show ?thesis by (simp add: nat_text_less_10 digits_value_def)
  next
    case False
    with 1 show ?thesis by (simp add: nat_text_ge_10 digits_value_def)
  qed
qed

lemma nat_text_inject [simp]: "nat_text m = nat_text n \<longleftrightarrow> m = n"
  by (metis digits_value_nat_text)

lemma nat_text_digits: "list_all is_digit (nat_text n)"
proof (induction n rule: nat_text.induct)
  case (1 n)
  show ?case
    by (cases "n < 10") (use 1 in \<open>simp_all add: nat_text_less_10 nat_text_ge_10\<close>)
qed

lemma nat_text_nonempty [simp]: "nat_text n \<noteq> []"
  by (subst nat_text.simps) simp

lemma digit_char_eq_zero: "d < 10 \<Longrightarrow> digit_char d = js_char CHR ''0'' \<longleftrightarrow> d = 0"
  by (simp add: word_unat_eq_iff unat_digit_char unat_js_char)

lemma nat_text_leading: "hd (nat_text n) = js_char CHR ''0'' \<Longrightarrow> n = 0"
proof (induction n rule: nat_text.induct)
  case (1 n)
  show ?case
  proof (cases "n < 10")
    case True
    with "1.prems" show ?thesis by (simp add: nat_text_less_10 digit_char_eq_zero)
  next
    case False
    then have "hd (nat_text n) = hd (nat_text (n div 10))"
      using nat_text_ge_10 [OF False] by simp
    then have "n div 10 = 0"
      using "1.IH" [OF False] "1.prems" by simp
    with False show ?thesis by simp
  qed
qed

section \<open>Reading plain values\<close>

lemma object_keys_plain [simp]:
  "object_keys (map (\<lambda>(k, v). (PStr k, DData v True)) kvs) = map fst kvs"
  by (induction kvs) auto

lemma own_keys_plain [simp]:
  "own_keys (map (\<lambda>(k, v). (PStr k, DData v True)) kvs) = map (PStr \<circ> fst) kvs"
  by (induction kvs) (auto simp: own_keys_def)

lemma map_of_plain [simp]:
  "map_of (map (\<lambda>(k, v). (PStr k, DData v True)) kvs) (PStr k) = map_option (\<lambda>v. DData v True) (map_of kvs k)"
  by (induction kvs) auto

lemma get_obj: "get (obj kvs) k = (case map_of kvs k of None \<Rightarrow> JUndef | Some v \<Rightarrow> v)"
  by (auto simp: obj_def get_own_def split: option.splits)

lemma map_of_index_props:
  "i < length vs \<Longrightarrow> map_of (index_props k vs) (PStr (nat_text (k + i))) = Some (DData (vs ! i) True)"
proof (induction vs arbitrary: i k)
  case (Cons v vs)
  show ?case
  proof (cases i)
    case (Suc j)
    with Cons.IH [of j "Suc k"] Cons.prems show ?thesis by simp
  qed simp
qed simp

lemma map_of_index_props_0:
  "i < length vs \<Longrightarrow> map_of (index_props 0 vs) (PStr (nat_text i)) = Some (DData (vs ! i) True)"
  using map_of_index_props [of i vs 0] by simp

lemma object_keys_index_props [simp]: "object_keys (index_props k vs) = map nat_text [k..<k + length vs]"
  by (induction vs arbitrary: k) (simp_all add: upt_rec)

lemma own_keys_index_props [simp]: "own_keys (index_props k vs) = map (PStr \<circ> nat_text) [k..<k + length vs]"
  by (induction vs arbitrary: k) (simp_all add: own_keys_def upt_rec)

lemma elements_arr [simp]: "elements (arr vs) = vs"
proof -
  have "map (\<lambda>i. get_own (index_props 0 vs) (nat_text i)) [0..<length vs] = map ((!) vs) [0..<length vs]"
    by (intro map_cong) (simp_all add: get_own_def map_of_index_props_0)
  also have "\<dots> = vs" by (rule map_nth)
  finally show ?thesis unfolding arr_def elements.simps .
qed

lemma is_array_arr [simp]: "is_array (arr vs)"
  by (simp add: arr_def)

lemma obj_neq [simp]: "\<not> is_array (obj kvs)"
  by (simp add: obj_def)

end
