(* ===== verification/Codec.thy ===== *)
theory Codec
  imports JsText
begin

text \<open>
  The byte codecs of Node's Buffer that the authorization code uses: the UTF-8 decoder of
  \<open>buffer.toString("utf8")\<close> (malformed input becomes U+FFFD, as the Encoding Standard
  says) and unpadded base64url. The encoder of UTF-8 is \<open>utf8\<close> in JsText.
\<close>

section \<open>Decoding UTF-8\<close>

definition fffd :: code_unit where
  "fffd = 0xFFFD"

definition units_of :: "nat \<Rightarrow> jsstr" where
  "units_of cp = (if cp < 0x10000 then [of_nat cp]
     else [of_nat (0xD800 + (cp - 0x10000) div 0x400), of_nat (0xDC00 + (cp - 0x10000) mod 0x400)])"

text \<open>
  The decoder's state: continuation bytes still needed, the code point so far, and the range
  the next byte must be in.
\<close>

type_synonym utf8_state = "nat \<times> nat \<times> nat \<times> nat"

definition ground :: utf8_state where
  "ground = (0, 0, 0x80, 0xBF)"

definition utf8_lead :: "nat \<Rightarrow> jsstr \<times> utf8_state" where
  "utf8_lead b =
     (if b < 0x80 then ([of_nat b], ground)
      else if 0xC2 \<le> b \<and> b \<le> 0xDF then ([], (1, b - 0xC0, 0x80, 0xBF))
      else if b = 0xE0 then ([], (2, 0, 0xA0, 0xBF))
      else if b = 0xED then ([], (2, 0xD, 0x80, 0x9F))
      else if 0xE1 \<le> b \<and> b \<le> 0xEF then ([], (2, b - 0xE0, 0x80, 0xBF))
      else if b = 0xF0 then ([], (3, 0, 0x90, 0xBF))
      else if b = 0xF4 then ([], (3, 4, 0x80, 0x8F))
      else if 0xF1 \<le> b \<and> b \<le> 0xF3 then ([], (3, b - 0xF0, 0x80, 0xBF))
      else ([fffd], ground))"

fun utf8_run :: "utf8_state \<Rightarrow> byte list \<Rightarrow> jsstr" where
  "utf8_run (n, cp, lo, hi) [] = (if n = 0 then [] else [fffd])"
| "utf8_run (n, cp, lo, hi) (b # bs) =
     (let x = unat b; (out, st) = utf8_lead x in
      if n = 0 then out @ utf8_run st bs
      else if lo \<le> x \<and> x \<le> hi then
        (let cp' = cp * 0x40 + (x - 0x80) in
         if n = 1 then units_of cp' @ utf8_run ground bs
         else utf8_run (n - 1, cp', 0x80, 0xBF) bs)
      else fffd # out @ utf8_run st bs)"

definition utf8_decode :: "byte list \<Rightarrow> jsstr" where
  "utf8_decode bs = utf8_run ground bs"

section \<open>UTF-8 round trip\<close>

definition valid_unicode :: "jsstr \<Rightarrow> bool" where
  "valid_unicode s \<longleftrightarrow> assert_valid_unicode s = Inr ()"

lemma run_ground [simp]:
  "utf8_run ground [] = []"
  "utf8_run ground (b # bs) = fst (utf8_lead (unat b)) @ utf8_run (snd (utf8_lead (unat b))) bs"
  by (simp_all add: ground_def case_prod_beta Let_def)

lemma run_cont:
  assumes "lo \<le> x" "x \<le> hi" "x < 256"
  shows "utf8_run (Suc n, cp, lo, hi) (of_nat x # bs) =
     (if n = 0 then units_of (cp * 0x40 + (x - 0x80)) @ utf8_run ground bs
      else utf8_run (n, cp * 0x40 + (x - 0x80), 0x80, 0xBF) bs)"
  using assms by (simp add: unat_of_nat_byte Let_def case_prod_beta)

lemma run_lead:
  assumes "x < 256"
  shows "utf8_run ground (of_nat x # bs) = fst (utf8_lead x) @ utf8_run (snd (utf8_lead x)) bs"
  using assms by (simp add: unat_of_nat_byte)

lemma run_lead_state:
  "utf8_lead x = ([], st) \<Longrightarrow> x < 256 \<Longrightarrow> utf8_run ground (of_nat x # bs) = utf8_run st bs"
  by (simp only: run_lead) simp

lemma high_unat: "is_high c \<longleftrightarrow> 0xD800 \<le> unat c \<and> unat c \<le> 0xDBFF"
  by (simp add: is_high_def word_le_nat_alt)

lemma low_unat: "is_low c \<longleftrightarrow> 0xDC00 \<le> unat c \<and> unat c \<le> 0xDFFF"
  by (simp add: is_low_def word_le_nat_alt)

lemma utf8_run_unit:
  assumes "\<not> is_high c" "\<not> is_low c"
  shows "utf8_run ground (utf8_unit c @ bs) = c # utf8_run ground bs"
proof -
  define n where "n = unat c"
  have n: "n < 65536" by (simp add: n_def unat_unit_less)
  have sur: "\<not> (0xD800 \<le> n \<and> n \<le> 0xDFFF)"
    using assms unfolding high_unat low_unat n_def by linarith
  have c: "of_nat n = c" by (simp add: n_def)
  consider "n < 0x80" | "0x80 \<le> n" "n < 0x800" | "0x800 \<le> n" by linarith
  then show ?thesis
  proof cases
    case 1
    then have "utf8_unit c = [of_nat n]" by (simp add: utf8_unit_def n_def Let_def)
    with 1 c show ?thesis by (simp add: run_lead utf8_lead_def del: run_ground)
  next
    case 2
    then have u: "utf8_unit c = [of_nat (0xC0 + n div 0x40), of_nat (0x80 + n mod 0x40)]"
      by (simp add: utf8_unit_def n_def [symmetric] Let_def)
    define a y where "a = n div 0x40" and "y = n mod 0x40"
    have nd: "a * 0x40 + y = n" by (simp add: a_def y_def)
    have y: "y < 0x40" by (simp add: y_def)
    have bounds: "2 \<le> a" "a \<le> 31" "y < 0x40" using nd y 2 by linarith+
    have lead: "utf8_lead (0xC0 + a) = ([], (1, a, 0x80, 0xBF))"
      using bounds by (simp add: utf8_lead_def)
    have st: "utf8_run ground (of_nat (0xC0 + a) # bs') = utf8_run (1, a, 0x80, 0xBF) bs'" for bs'
      by (rule run_lead_state [OF lead]) (use bounds in simp)
    have st2: "utf8_run (1, a, 0x80, 0xBF) (of_nat (0x80 + y) # bs') = c # utf8_run ground bs'" for bs'
      unfolding One_nat_def using bounds c nd n by (subst run_cont) (auto simp: units_of_def)
    show ?thesis
      unfolding u append.simps a_def [symmetric] y_def [symmetric] st st2 ..
  next
    case 3
    then have u: "utf8_unit c = [of_nat (0xE0 + n div 0x1000), of_nat (0x80 + n div 0x40 mod 0x40), of_nat (0x80 + n mod 0x40)]"
      using assms by (simp add: utf8_unit_def n_def [symmetric] Let_def)
    define a x y where "a = n div 0x1000" and "x = n div 0x40 mod 0x40" and "y = n mod 0x40"
    have "n div 0x40 div 0x40 = n div 0x1000"
      using div_mult2_eq [where m = n and n = 64 and q = 64] by simp
    then have "a * 0x40 + x = n div 0x40"
      using div_mult_mod_eq [of "n div 0x40" "0x40"] by (simp add: a_def x_def)
    then have nd: "(a * 0x40 + x) * 0x40 + y = n"
      by (simp add: y_def)
    have bounds: "x < 0x40" "y < 0x40" "a < 16"
      using n by (simp_all add: a_def x_def y_def less_mult_imp_div_less)
    from nd have nd': "a * 0x1000 + x * 0x40 + y = n" by simp
    have lo: "0xA0 \<le> 0x80 + x" if "a = 0" using that nd' bounds 3 by linarith
    have hi: "0x80 + x \<le> 0x9F" if "a = 0xD" using that nd' bounds sur by linarith
    have lead: "utf8_lead (0xE0 + a) = ([], (2, a, if a = 0 then 0xA0 else 0x80, if a = 0xD then 0x9F else 0xBF))"
      using bounds(3) by (auto simp: utf8_lead_def)
    have st: "utf8_run ground (of_nat (0xE0 + a) # bs') = utf8_run (2, a, if a = 0 then 0xA0 else 0x80, if a = 0xD then 0x9F else 0xBF) bs'" for bs'
      by (rule run_lead_state [OF lead]) (use bounds in simp)
    have st2: "utf8_run (2, a, if a = 0 then 0xA0 else 0x80, if a = 0xD then 0x9F else 0xBF) (of_nat (0x80 + x) # bs')
        = utf8_run (1, a * 0x40 + x, 0x80, 0xBF) bs'" for bs'
      unfolding numeral_2_eq_2 using bounds(1) lo hi by (subst run_cont) auto
    have st3: "utf8_run (1, a * 0x40 + x, 0x80, 0xBF) (of_nat (0x80 + y) # bs') = c # utf8_run ground bs'" for bs'
      unfolding One_nat_def using bounds(2) c nd n by (subst run_cont) (auto simp: units_of_def)
    show ?thesis
      unfolding u append.simps a_def [symmetric] x_def [symmetric] y_def [symmetric] st st2 st3 ..
  qed
qed

lemma utf8_run_pair:
  assumes h: "is_high h" and l: "is_low l"
  shows "utf8_run ground (utf8_pair h l @ bs) = h # l # utf8_run ground bs"
proof -
  define p q where "p = unat h - 0xD800" and "q = unat l - 0xDC00"
  have pq: "p < 0x400" "q < 0x400" "of_nat (0xD800 + p) = h" "of_nat (0xDC00 + q) = l"
    using h l unfolding high_unat low_unat by (auto simp: p_def q_def)
  define cp where "cp = 0x10000 + p * 0x400 + q"
  have cp: "0x10000 \<le> cp" "cp < 0x110000" using pq by (simp_all add: cp_def)
  define a x y z where "a = cp div 0x40000" and "x = cp div 0x1000 mod 0x40" and "y = cp div 0x40 mod 0x40" and "z = cp mod 0x40"
  have u: "utf8_pair h l = [of_nat (0xF0 + a), of_nat (0x80 + x), of_nat (0x80 + y), of_nat (0x80 + z)]"
    by (simp add: utf8_pair_def Let_def a_def x_def y_def z_def cp_def p_def q_def)
  have "cp div 0x1000 div 0x40 = cp div 0x40000" "cp div 0x40 div 0x40 = cp div 0x1000"
    using div_mult2_eq [where m = cp and n = 4096 and q = 64] div_mult2_eq [where m = cp and n = 64 and q = 64] by simp_all
  then have "a * 0x40 + x = cp div 0x1000" "cp div 0x1000 * 0x40 + y = cp div 0x40" "cp div 0x40 * 0x40 + z = cp"
    using div_mult_mod_eq [of "cp div 0x1000" "0x40"] div_mult_mod_eq [of "cp div 0x40" "0x40"]
    by (simp_all add: a_def x_def y_def z_def)
  then have whole: "((a * 0x40 + x) * 0x40 + y) * 0x40 + z = cp" by simp
  then have whole': "a * 0x40000 + x * 0x1000 + y * 0x40 + z = cp" by simp
  have bounds: "x < 0x40" "y < 0x40" "z < 0x40" "a < 5"
    using cp by (simp_all add: a_def x_def y_def z_def less_mult_imp_div_less)
  have lo: "0x90 \<le> 0x80 + x" if "a = 0" using that whole' bounds cp by linarith
  have hi: "0x80 + x \<le> 0x8F" if "a = 4" using that whole' bounds cp by linarith
  have lead: "utf8_lead (0xF0 + a) = ([], (3, a, if a = 0 then 0x90 else 0x80, if a = 4 then 0x8F else 0xBF))"
    using bounds(4) by (auto simp: utf8_lead_def)
  have s0: "utf8_run ground (of_nat (0xF0 + a) # bs') = utf8_run (3, a, if a = 0 then 0x90 else 0x80, if a = 4 then 0x8F else 0xBF) bs'" for bs'
    by (rule run_lead_state [OF lead]) (use bounds in simp)
  have s1: "utf8_run (3, a, if a = 0 then 0x90 else 0x80, if a = 4 then 0x8F else 0xBF) (of_nat (0x80 + x) # bs')
      = utf8_run (2, a * 0x40 + x, 0x80, 0xBF) bs'" for bs'
    unfolding numeral_3_eq_3 using bounds(1) lo hi by (subst run_cont) (auto simp: numeral_2_eq_2)
  have s2: "utf8_run (2, a * 0x40 + x, 0x80, 0xBF) (of_nat (0x80 + y) # bs') = utf8_run (1, (a * 0x40 + x) * 0x40 + y, 0x80, 0xBF) bs'" for bs'
    unfolding numeral_2_eq_2 using bounds(2) by (subst run_cont) auto
  have "units_of cp = [h, l]"
    using cp pq by (simp add: units_of_def cp_def)
  then have s3: "utf8_run (1, (a * 0x40 + x) * 0x40 + y, 0x80, 0xBF) (of_nat (0x80 + z) # bs') = h # l # utf8_run ground bs'" for bs'
    unfolding One_nat_def using bounds(3) whole by (subst run_cont) auto
  show ?thesis unfolding u append.simps s0 s1 s2 s3 ..
qed

lemma valid_unicode_Cons:
  "valid_unicode (c # s) \<longleftrightarrow>
     (if is_high c then (case s of [] \<Rightarrow> False | d # s' \<Rightarrow> is_low d \<and> valid_unicode s')
      else \<not> is_low c \<and> valid_unicode s)"
  by (auto simp: valid_unicode_def split: list.splits)

lemma utf8_run_valid: "valid_unicode s \<Longrightarrow> utf8_run ground (utf8 s @ bs) = s @ utf8_run ground bs"
proof (induction s rule: utf8.induct)
  case (3 c d s)
  then show ?case
    by (cases "is_high c") (auto simp: valid_unicode_Cons utf8_run_pair utf8_run_unit)
qed (auto simp: valid_unicode_Cons utf8_run_unit split: if_splits)

theorem utf8_decode_encode: "valid_unicode s \<Longrightarrow> utf8_decode (utf8 s) = s"
  using utf8_run_valid [of s "[]"] by (simp add: utf8_decode_def)

lemma utf8_inject: "valid_unicode s \<Longrightarrow> valid_unicode t \<Longrightarrow> utf8 s = utf8 t \<longleftrightarrow> s = t"
  by (metis utf8_decode_encode)

section \<open>base64url\<close>

definition b64_char :: "nat \<Rightarrow> code_unit" where
  "b64_char v = of_nat (if v < 26 then 65 + v else if v < 52 then 71 + v
     else if v < 62 then v - 4 else if v = 62 then 45 else 95)"

text \<open>The value of an alphabet character; the callers have matched the whole text against the alphabet.\<close>

definition b64_value :: "code_unit \<Rightarrow> nat" where
  "b64_value c = (if is_upper c then unat c - 65 else if is_lower c then unat c - 71
     else if is_digit c then unat c + 4 else if c = 45 then 62 else 63)"

fun b64_encode :: "byte list \<Rightarrow> jsstr" where
  "b64_encode [] = []"
| "b64_encode [a] = [b64_char (unat a div 4), b64_char (unat a mod 4 * 16)]"
| "b64_encode [a, b] = [b64_char (unat a div 4), b64_char (unat a mod 4 * 16 + unat b div 16), b64_char (unat b mod 16 * 4)]"
| "b64_encode (a # b # c # s) =
     [b64_char (unat a div 4), b64_char (unat a mod 4 * 16 + unat b div 16),
      b64_char (unat b mod 16 * 4 + unat c div 64), b64_char (unat c mod 64)] @ b64_encode s"

text \<open>A last group of two or three characters holds one or two bytes; spare bits are dropped.\<close>

fun b64_decode :: "jsstr \<Rightarrow> byte list" where
  "b64_decode [w, x] = [of_nat (b64_value w * 4 + b64_value x div 16)]"
| "b64_decode [w, x, y] =
     [of_nat (b64_value w * 4 + b64_value x div 16), of_nat (b64_value x mod 16 * 16 + b64_value y div 4)]"
| "b64_decode (w # x # y # z # s) =
     [of_nat (b64_value w * 4 + b64_value x div 16), of_nat (b64_value x mod 16 * 16 + b64_value y div 4),
      of_nat (b64_value y mod 4 * 64 + b64_value z)] @ b64_decode s"
| "b64_decode _ = []"

text \<open>\<open>/^[A-Za-z0-9_-]+$/\<close>.\<close>

definition b64_alphabet :: "code_unit \<Rightarrow> bool" where
  "b64_alphabet c \<longleftrightarrow> is_alnum c \<or> c = 95 \<or> c = 45"

definition is_b64_text :: "jsstr \<Rightarrow> bool" where
  "is_b64_text s \<longleftrightarrow> s \<noteq> [] \<and> list_all b64_alphabet s"

lemma unat_b64_char:
  "v < 64 \<Longrightarrow> unat (b64_char v) = (if v < 26 then 65 + v else if v < 52 then 71 + v
     else if v < 62 then v - 4 else if v = 62 then 45 else 95)"
  unfolding b64_char_def by (subst unat_of_nat_unit) auto

lemma class_unat:
  "is_upper c \<longleftrightarrow> 65 \<le> unat c \<and> unat c \<le> 90" "is_lower c \<longleftrightarrow> 97 \<le> unat c \<and> unat c \<le> 122"
  "is_digit c \<longleftrightarrow> 48 \<le> unat c \<and> unat c \<le> 57" "c = 45 \<longleftrightarrow> unat c = 45" "c = 95 \<longleftrightarrow> unat c = 95"
  by (simp_all add: is_upper_def is_lower_def is_digit_def word_le_nat_alt word_unat_eq_iff)

lemma b64_value_char [simp]:
  assumes "v < 64"
  shows "b64_value (b64_char v) = v"
proof -
  consider "v < 26" | "26 \<le> v" "v < 52" | "52 \<le> v" "v < 62" | "v = 62" | "v = 63"
    using assms by linarith
  then show ?thesis
    by cases (auto simp: b64_value_def class_unat unat_b64_char)
qed

lemma b64_alphabet_char [simp]:
  assumes "v < 64"
  shows "b64_alphabet (b64_char v)"
proof -
  consider "v < 26" | "26 \<le> v" "v < 52" | "52 \<le> v" "v < 62" | "v = 62" | "v = 63"
    using assms by linarith
  then show ?thesis
    by cases (auto simp: b64_alphabet_def is_alnum_def class_unat unat_b64_char)
qed

lemma sextets:
  "unat a div 4 < 64" "unat a mod 4 * 16 < 64" "unat a mod 4 * 16 + unat b div 16 < 64"
  "unat b mod 16 * 4 < 64" "unat b mod 16 * 4 + unat c div 64 < 64" "unat c mod 64 < 64"
  for a b c :: byte
proof -
  have "unat a < 256" "unat b < 256" "unat c < 256" by (rule unat_byte_less)+
  then have "unat a div 4 < 64" "unat b div 16 < 16" "unat c div 64 < 4"
    by (simp_all add: less_mult_imp_div_less)
  moreover have "unat a mod 4 \<le> 3" "unat b mod 16 \<le> 15"
    using mod_less_divisor [of 4 "unat a"] mod_less_divisor [of 16 "unat b"] by linarith+
  ultimately show "unat a div 4 < 64" "unat a mod 4 * 16 < 64" "unat a mod 4 * 16 + unat b div 16 < 64"
    "unat b mod 16 * 4 < 64" "unat b mod 16 * 4 + unat c div 64 < 64" "unat c mod 64 < 64"
    by (linarith | simp)+
qed

lemma octets:
  fixes a b c :: byte
  shows "of_nat (unat a div 4 * 4 + (unat a mod 4 * 16 + unat b div 16) div 16) = a"
    and "of_nat (unat a div 4 * 4 + unat a mod 4 * 16 div 16) = a"
    and "of_nat ((unat a mod 4 * 16 + unat b div 16) mod 16 * 16 + (unat b mod 16 * 4 + unat c div 64) div 4) = b"
    and "of_nat ((unat a mod 4 * 16 + unat b div 16) mod 16 * 16 + unat b mod 16 * 4 div 4) = b"
    and "of_nat ((unat b mod 16 * 4 + unat c div 64) mod 4 * 64 + unat c mod 64) = c"
proof -
  have "unat b < 256" "unat c < 256" by (rule unat_byte_less)+
  then have *: "unat b div 16 < 16" "unat c div 64 < 4"
    by (simp_all add: less_mult_imp_div_less)
  then have "(unat a mod 4 * 16 + unat b div 16) div 16 = unat a mod 4" "(unat a mod 4 * 16 + unat b div 16) mod 16 = unat b div 16"
    "(unat b mod 16 * 4 + unat c div 64) div 4 = unat b mod 16" "(unat b mod 16 * 4 + unat c div 64) mod 4 = unat c div 64"
    by simp_all
  then show "of_nat (unat a div 4 * 4 + (unat a mod 4 * 16 + unat b div 16) div 16) = a"
    "of_nat (unat a div 4 * 4 + unat a mod 4 * 16 div 16) = a"
    "of_nat ((unat a mod 4 * 16 + unat b div 16) mod 16 * 16 + (unat b mod 16 * 4 + unat c div 64) div 4) = b"
    "of_nat ((unat a mod 4 * 16 + unat b div 16) mod 16 * 16 + unat b mod 16 * 4 div 4) = b"
    "of_nat ((unat b mod 16 * 4 + unat c div 64) mod 4 * 64 + unat c mod 64) = c"
    by (simp_all only: div_mult_mod_eq nonzero_mult_div_cancel_right) simp_all
qed

lemma b64_decode_encode: "b64_decode (b64_encode bs) = bs"
  by (induction bs rule: b64_encode.induct) 
    (simp_all only: b64_encode.simps b64_decode.simps append.simps b64_value_char sextets octets)

lemma b64_encode_alphabet: "list_all b64_alphabet (b64_encode bs)"
  by (induction bs rule: b64_encode.induct) (simp_all add: sextets)

lemma b64_encode_length_mod: "length (b64_encode bs) mod 4 \<noteq> 1"
  by (induction bs rule: b64_encode.induct) simp_all

lemma b64_encode_length: "length (b64_encode bs) = (4 * length bs + 2) div 3"
  by (induction bs rule: b64_encode.induct) simp_all

end
