(* ===== verification/CanonicalJson.thy ===== *)
theory CanonicalJson
  imports JsValue Codec "HOL-Library.AList"
begin

text \<open>
  packages/app/src/canonical-json.ts: the strict canonical serializer \<open>canonicalJson\<close> and
  the parser \<open>parseCanonicalJson\<close> that accepts only its exact output, with the parts of
  \<open>JSON.stringify\<close> and \<open>JSON.parse\<close> they rest on. The JSON tree \<open>json\<close> with its
  printer \<open>print_json\<close> is the specification: \<open>canonical_json\<close> prints the tree its
  argument denotes, and parsing a printed tree gives that tree back.
\<close>

section \<open>JSON.stringify on strings\<close>

definition hex_char :: "nat \<Rightarrow> code_unit" where
  "hex_char d = of_nat (if d < 10 then 48 + d else 87 + d)"

definition u_escape :: "code_unit \<Rightarrow> jsstr" where
  "u_escape c = (let n = unat c in
     [92, 117, hex_char (n div 0x1000), hex_char (n div 0x100 mod 0x10), hex_char (n div 0x10 mod 0x10), hex_char (n mod 0x10)])"

definition quote_unit :: "code_unit \<Rightarrow> jsstr" where
  "quote_unit c =
     (if c = 8 then [92, 98] else if c = 9 then [92, 116] else if c = 10 then [92, 110]
      else if c = 12 then [92, 102] else if c = 13 then [92, 114]
      else if c = 34 then [92, 34] else if c = 92 then [92, 92]
      else if c < 32 then u_escape c else [c])"

fun quote_body :: "jsstr \<Rightarrow> jsstr" where
  "quote_body [] = []"
| "quote_body (c # s) =
     (if is_high c then
        (case s of
           [] \<Rightarrow> u_escape c
         | d # s' \<Rightarrow> (if is_low d then c # d # quote_body s' else u_escape c @ quote_body s))
      else if is_low c then u_escape c @ quote_body s
      else quote_unit c @ quote_body s)"

definition json_quote :: "jsstr \<Rightarrow> jsstr" where
  "json_quote s = 34 # quote_body s @ [34]"

section \<open>canonicalJson\<close>

lemma size_map_of [termination_simp]:
  "map_of ps k = Some d \<Longrightarrow> size (desc_value d) < Suc (size_list (\<lambda>x. Suc (size_desc size (snd x))) ps)"
proof (induction ps)
  case (Cons p ps)
  then show ?case by (cases p; cases d) (auto split: if_splits)
qed simp

definition has_all_keys :: "propkey list \<Rightarrow> jsstr list \<Rightarrow> bool" where
  "has_all_keys own keys \<longleftrightarrow> (\<forall>k \<in> set own. case k of PStr s \<Rightarrow> s \<in> set keys | PSym _ \<Rightarrow> False)"

text \<open>The sparse-or-extended test on an array of length \<open>n\<close>.\<close>

definition irregular_array :: "nat \<Rightarrow> (propkey \<times> jsval desc) list \<Rightarrow> bool" where
  "irregular_array n ps \<longleftrightarrow>
     (let keys = object_keys ps; own = own_keys ps @ [PStr (js ''length'')] in
      length keys \<noteq> n \<or> keys \<noteq> map nat_text [0..<length keys] \<or> length own \<noteq> n + 1
      \<or> (\<exists>k \<in> set own. case k of PStr s \<Rightarrow> s \<noteq> js ''length'' \<and> s \<notin> set keys | PSym _ \<Rightarrow> True))"

text \<open>The checks on the sorted keys of an object, in the order of the loop.\<close>

fun check_members :: "(propkey \<times> jsval desc) list \<Rightarrow> jsstr list \<Rightarrow> unit result" where
  "check_members ps [] = Inr ()"
| "check_members ps (k # ks) =
     thenR (assert_valid_unicode k)
       (case map_of ps (PStr k) of
          None \<Rightarrow> throw ''Canonical JSON rejected: accessor or hidden JSON member''
        | Some (DAcc _ _) \<Rightarrow> throw ''Canonical JSON rejected: accessor or hidden JSON member''
        | Some (DData v e) \<Rightarrow>
            (if \<not> e then throw ''Canonical JSON rejected: accessor or hidden JSON member''
             else if v = JUndef then throw ''Canonical JSON rejected: undefined JSON member''
             else check_members ps ks))"

fun canonical_json :: "jsval \<Rightarrow> jsstr result" where
  "canonical_json JNull = Inr (js ''null'')"
| "canonical_json (JStr s) = thenR (assert_valid_unicode s) (Inr (json_quote s))"
| "canonical_json (JBool b) = Inr (if b then js ''true'' else js ''false'')"
| "canonical_json (JNum x) =
     (case x of
        JInt n \<Rightarrow> (if \<not> is_safe_integer x then throw ''Canonical JSON rejected: unsafe JSON number'' else Inr (int_text n))
      | _ \<Rightarrow> throw ''Canonical JSON rejected: unsafe JSON number'')"
| "canonical_json JUndef = throw ''Canonical JSON rejected: unsupported JSON value''"
| "canonical_json JOther = throw ''Canonical JSON rejected: unsupported JSON value''"
| "canonical_json JAncestor = throw ''Canonical JSON rejected: cyclic JSON value''"
| "canonical_json (JArr n ps) =
     (if irregular_array n ps then throw ''Canonical JSON rejected: sparse or extended JSON array''
      else bindR (mapR (\<lambda>k. case map_of ps (PStr k) of
                              None \<Rightarrow> throw ''unreachable: an index of a dense array''
                            | Some d \<Rightarrow> canonical_json (desc_value d)) (map nat_text [0..<n]))
             (\<lambda>ts. Inr (91 # join [44] ts @ [93])))"
| "canonical_json (JObj p ps) =
     (if p = OtherProto then throw ''Canonical JSON rejected: non-plain JSON object''
      else let keys = sort (object_keys ps) in
        if length (own_keys ps) \<noteq> length keys \<or> \<not> has_all_keys (own_keys ps) keys
        then throw ''Canonical JSON rejected: hidden or symbolic JSON member''
        else thenR (check_members ps keys)
          (bindR (mapR (\<lambda>k. case map_of ps (PStr k) of
                              None \<Rightarrow> throw ''unreachable: a key of the object''
                            | Some d \<Rightarrow> bindR (canonical_json (desc_value d)) (\<lambda>t. Inr (json_quote k @ 58 # t))) keys)
             (\<lambda>ts. Inr (123 # join [44] ts @ [125]))))"

section \<open>JSON.parse\<close>

definition is_ws :: "code_unit \<Rightarrow> bool" where
  "is_ws c \<longleftrightarrow> c = 32 \<or> c = 9 \<or> c = 10 \<or> c = 13"

definition skip_ws :: "jsstr \<Rightarrow> jsstr" where
  "skip_ws s = dropWhile is_ws s"

definition hex_value :: "code_unit \<Rightarrow> nat option" where
  "hex_value c = (if is_digit c then Some (unat c - 48)
     else if 97 \<le> c \<and> c \<le> 102 then Some (unat c - 87)
     else if 65 \<le> c \<and> c \<le> 70 then Some (unat c - 55) else None)"

definition hex4 :: "code_unit \<Rightarrow> code_unit \<Rightarrow> code_unit \<Rightarrow> code_unit \<Rightarrow> code_unit option" where
  "hex4 a b c d = (case (hex_value a, hex_value b, hex_value c, hex_value d) of
     (Some w, Some x, Some y, Some z) \<Rightarrow> Some (of_nat (w * 0x1000 + x * 0x100 + y * 0x10 + z))
   | _ \<Rightarrow> None)"

definition simple_escape :: "code_unit \<Rightarrow> code_unit option" where
  "simple_escape e =
     (if e = 34 \<or> e = 92 \<or> e = 47 then Some e
      else if e = 98 then Some 8 else if e = 102 then Some 12 else if e = 110 then Some 10
      else if e = 114 then Some 13 else if e = 116 then Some 9 else None)"

definition push :: "'a \<Rightarrow> ('a list \<times> 'b) option \<Rightarrow> ('a list \<times> 'b) option" where
  "push x = map_option (\<lambda>(xs, r). (x # xs, r))"

text \<open>The rest of a string literal after its opening quote.\<close>

fun parse_str :: "jsstr \<Rightarrow> (jsstr \<times> jsstr) option" where
  "parse_str [] = None"
| "parse_str (c # s) =
     (if c = 34 then Some ([], s)
      else if c = 92 then
        (case s of
           [] \<Rightarrow> None
         | e # s1 \<Rightarrow>
             (if e = 117 then
                (case s1 of
                   h1 # h2 # h3 # h4 # s2 \<Rightarrow>
                     (case hex4 h1 h2 h3 h4 of None \<Rightarrow> None | Some u \<Rightarrow> push u (parse_str s2))
                 | _ \<Rightarrow> None)
              else (case simple_escape e of None \<Rightarrow> None | Some u \<Rightarrow> push u (parse_str s1))))
      else if c < 32 then None
      else push c (parse_str s))"

text \<open>
  The Number of a decimal literal. Without fraction and exponent the integer is exact up to
  \<open>2^53 - 1\<close>. Otherwise the literal is the rational \<open>p/q\<close>, rounded half-even to 53 bits
  (\<open>scale_bits\<close> is the number of fraction bits), and only an integral result is a
  \<open>JInt\<close>.
\<close>

definition int_number :: "bool \<Rightarrow> nat \<Rightarrow> jsnum" where
  "int_number neg n =
     (if n = 0 then (if neg then JNegZero else JInt 0)
      else if int n \<le> max_safe then JInt (if neg then - int n else int n) else JOtherNum)"

fun scale_bits :: "nat \<Rightarrow> nat \<Rightarrow> nat \<Rightarrow> nat \<Rightarrow> nat" where
  "scale_bits 0 p q s = s"
| "scale_bits (Suc f) p q s = (if p * 2 ^ s < 2 ^ 52 * q then scale_bits f p q (Suc s) else s)"

definition round_half_even :: "nat \<Rightarrow> nat \<Rightarrow> nat" where
  "round_half_even p q =
     (let m = p div q; r = p mod q in
      if 2 * r < q \<or> (2 * r = q \<and> even m) then m else m + 1)"

definition rational_number :: "bool \<Rightarrow> nat \<Rightarrow> nat \<Rightarrow> jsnum" where
  "rational_number neg p q =
     (let s = scale_bits 1074 p q 0; m = round_half_even (p * 2 ^ s) q in
      if m mod 2 ^ s = 0 then int_number neg (m div 2 ^ s) else JOtherNum)"

definition decimal_number :: "bool \<Rightarrow> nat \<Rightarrow> int \<Rightarrow> jsnum" where
  "decimal_number neg m e =
     (if m = 0 then int_number neg 0
      else if 0 \<le> e then rational_number neg (m * 10 ^ nat e) 1
      else rational_number neg m (10 ^ nat (- e)))"

definition parse_exponent :: "jsstr \<Rightarrow> (int \<times> jsstr) option" where
  "parse_exponent s =
     (let neg = starts_with (js ''-'') s;
          s1 = (if neg \<or> starts_with (js ''+'') s then tl s else s);
          ds = takeWhile is_digit s1 in
      if ds = [] then None
      else Some (if neg then - int (digits_value ds) else int (digits_value ds), dropWhile is_digit s1))"

definition parse_number :: "jsstr \<Rightarrow> (jsnum \<times> jsstr) option" where
  "parse_number s =
     (let neg = starts_with (js ''-'') s;
          s1 = (if neg then tl s else s);
          ds = takeWhile is_digit s1; s2 = dropWhile is_digit s1 in
      if ds = [] \<or> (1 < length ds \<and> hd ds = 48) then None
      else if starts_with (js ''.'') s2 then
        (let fs = takeWhile is_digit (tl s2); s3 = dropWhile is_digit (tl s2) in
         if fs = [] then None
         else if s3 \<noteq> [] \<and> (hd s3 = 101 \<or> hd s3 = 69) then
           map_option (\<lambda>(e, r). (decimal_number neg (digits_value (ds @ fs)) (e - int (length fs)), r)) (parse_exponent (tl s3))
         else Some (decimal_number neg (digits_value (ds @ fs)) (- int (length fs)), s3))
      else if s2 \<noteq> [] \<and> (hd s2 = 101 \<or> hd s2 = 69) then
        map_option (\<lambda>(e, r). (decimal_number neg (digits_value ds) e, r)) (parse_exponent (tl s2))
      else Some (int_number neg (digits_value ds), s2))"

text \<open>
  Duplicate members: the last value wins. (The member order that \<open>JSON.parse\<close> gives
  integer-like keys is not kept: every consumer sorts the keys.)
\<close>

definition merge_members :: "(jsstr \<times> jsval) list \<Rightarrow> (jsstr \<times> jsval) list" where
  "merge_members kvs = foldl (\<lambda>acc (k, v). AList.update k v acc) [] kvs"

text \<open>
  The recursive descent, on fuel: an element list and its first value each spend a unit
  before a character is consumed, so twice the length of the text is enough (\<open>parse_value_fuel\<close> below).
\<close>

fun parse_value :: "nat \<Rightarrow> jsstr \<Rightarrow> (jsval \<times> jsstr) option"
and parse_elements :: "nat \<Rightarrow> jsstr \<Rightarrow> (jsval list \<times> jsstr) option"
and parse_members :: "nat \<Rightarrow> jsstr \<Rightarrow> ((jsstr \<times> jsval) list \<times> jsstr) option" where
  "parse_value 0 s = None"
| "parse_value (Suc f) s =
     (case skip_ws s of
        [] \<Rightarrow> None
      | c # r \<Rightarrow>
          (if c = 123 then
             (case skip_ws r of
                [] \<Rightarrow> None
              | d # r1 \<Rightarrow> (if d = 125 then Some (obj [], r1)
                         else map_option (\<lambda>(kvs, r2). (obj (merge_members kvs), r2)) (parse_members f (d # r1))))
           else if c = 91 then
             (case skip_ws r of
                [] \<Rightarrow> None
              | d # r1 \<Rightarrow> (if d = 93 then Some (arr [], r1)
                         else map_option (\<lambda>(vs, r2). (arr vs, r2)) (parse_elements f (d # r1))))
           else if c = 34 then map_option (\<lambda>(t, r1). (JStr t, r1)) (parse_str r)
           else if starts_with (js ''true'') (c # r) then Some (JBool True, drop 4 (c # r))
           else if starts_with (js ''false'') (c # r) then Some (JBool False, drop 5 (c # r))
           else if starts_with (js ''null'') (c # r) then Some (JNull, drop 4 (c # r))
           else map_option (\<lambda>(x, r1). (JNum x, r1)) (parse_number (c # r))))"
| "parse_elements 0 s = None"
| "parse_elements (Suc f) s =
     (case parse_value f s of
        None \<Rightarrow> None
      | Some (v, r) \<Rightarrow>
          (case skip_ws r of
             [] \<Rightarrow> None
           | d # r1 \<Rightarrow> (if d = 44 then push v (parse_elements f r1)
                      else if d = 93 then Some ([v], r1) else None)))"
| "parse_members 0 s = None"
| "parse_members (Suc f) s =
     (case skip_ws s of
        [] \<Rightarrow> None
      | c # r \<Rightarrow>
          (if c \<noteq> 34 then None
           else case parse_str r of
             None \<Rightarrow> None
           | Some (k, r1) \<Rightarrow>
               (case skip_ws r1 of
                  [] \<Rightarrow> None
                | d # r2 \<Rightarrow>
                    (if d \<noteq> 58 then None
                     else case parse_value f r2 of
                       None \<Rightarrow> None
                     | Some (v, r3) \<Rightarrow>
                         (case skip_ws r3 of
                            [] \<Rightarrow> None
                          | e # r4 \<Rightarrow> (if e = 44 then push (k, v) (parse_members f r4)
                                     else if e = 125 then Some ([(k, v)], r4) else None))))))"

definition json_parse :: "jsstr \<Rightarrow> jsval option" where
  "json_parse s =
     (case parse_value (Suc (2 * length s)) s of
        None \<Rightarrow> None
      | Some (v, r) \<Rightarrow> (if skip_ws r = [] then Some v else None))"


section \<open>The specification: JSON trees and their printer\<close>

datatype json = Null | Bool bool | Num int | Str jsstr | Arr "json list" | Obj "(jsstr \<times> json) list"

fun print_json :: "json \<Rightarrow> jsstr" where
  "print_json Null = js ''null''"
| "print_json (Bool b) = (if b then js ''true'' else js ''false'')"
| "print_json (Num n) = int_text n"
| "print_json (Str s) = json_quote s"
| "print_json (Arr vs) = 91 # join [44] (map print_json vs) @ [93]"
| "print_json (Obj kjs) = 123 # join [44] (map (\<lambda>(k, j). json_quote k @ 58 # print_json j) kjs) @ [125]"

fun of_json :: "json \<Rightarrow> jsval" where
  "of_json Null = JNull"
| "of_json (Bool b) = JBool b"
| "of_json (Num n) = JNum (JInt n)"
| "of_json (Str s) = JStr s"
| "of_json (Arr vs) = arr (map of_json vs)"
| "of_json (Obj kjs) = obj (map (\<lambda>(k, j). (k, of_json j)) kjs)"

text \<open>Trees with safe integers and distinct member names.\<close>

fun wf_json :: "json \<Rightarrow> bool" where
  "wf_json (Num n) \<longleftrightarrow> \<bar>n\<bar> \<le> max_safe"
| "wf_json (Arr vs) \<longleftrightarrow> (\<forall>j \<in> set vs. wf_json j)"
| "wf_json (Obj kjs) \<longleftrightarrow> distinct (map fst kjs) \<and> (\<forall>(k, j) \<in> set kjs. wf_json j)"
| "wf_json _ \<longleftrightarrow> True"

section \<open>Parsing a printed string\<close>

lemma unat_hex_char: "d < 16 \<Longrightarrow> unat (hex_char d) = (if d < 10 then 48 + d else 87 + d)"
  unfolding hex_char_def by (subst unat_of_nat_unit) simp_all

lemma hex_value_char [simp]:
  assumes "d < 16"
  shows "hex_value (hex_char d) = Some d"
  using unat_hex_char [OF assms] assms
  by (auto simp: hex_value_def is_digit_unat word_le_nat_alt split: if_splits)

lemma hex4_u_escape:
  "hex4 (hex_char (unat c div 0x1000)) (hex_char (unat c div 0x100 mod 0x10))
     (hex_char (unat c div 0x10 mod 0x10)) (hex_char (unat c mod 0x10)) = Some c"
proof -
  define n where "n = unat c"
  have n: "n < 65536" by (simp add: n_def unat_unit_less)
  have "n div 16 = 16 * (n div 0x100) + n div 16 mod 16" "n div 0x100 = 16 * (n div 0x1000) + n div 0x100 mod 16"
    using div_mult2_eq [where m = n and n = 16 and q = 16] div_mult2_eq [where m = n and n = 256 and q = 16]
    by simp_all
  then have "n div 0x1000 * 0x1000 + n div 0x100 mod 0x10 * 0x100 + n div 0x10 mod 0x10 * 0x10 + n mod 0x10 = n"
    using div_mult_mod_eq [of n 16] by linarith
  moreover have "n div 0x1000 < 16" using n by (simp add: less_mult_imp_div_less)
  ultimately show ?thesis
    by (simp add: hex4_def n_def [symmetric]) (simp add: n_def)
qed

lemma parse_str_u_escape: "parse_str (u_escape c @ s) = push c (parse_str s)"
  using hex4_u_escape [of c] by (simp add: u_escape_def Let_def)

lemma parse_str_quote_unit: "parse_str (quote_unit c @ s) = push c (parse_str s)"
  by (auto simp: quote_unit_def parse_str_u_escape simple_escape_def)

lemma surrogate_not_special:
  assumes "is_high c \<or> is_low c"
  shows "c \<noteq> 34" "c \<noteq> 92" "\<not> c < 32"
  using assms by (auto simp: is_high_def is_low_def word_le_nat_alt word_less_nat_alt)

lemma parse_str_plain: "c \<noteq> 34 \<Longrightarrow> c \<noteq> 92 \<Longrightarrow> \<not> c < 32 \<Longrightarrow> parse_str (c # s) = push c (parse_str s)"
  by simp

lemma push_Some [simp]: "push x (Some (xs, r)) = Some (x # xs, r)"
  by (simp add: push_def)

lemma push_None [simp]: "push x None = None"
  by (simp add: push_def)

lemma push_eq_Some: "push x m = Some (ys, r) \<longleftrightarrow> (\<exists>xs. m = Some (xs, r) \<and> ys = x # xs)"
  by (auto simp: push_def)

lemma parse_str_quote_body: "parse_str (quote_body s @ 34 # r) = Some (s, r)"
proof (induction s rule: quote_body.induct)
  case (2 c s)
  show ?case
  proof (cases "is_high c")
    case high: True
    show ?thesis
    proof (cases s)
      case Nil
      with high show ?thesis
        using parse_str_u_escape [of c "34 # r"] by (simp del: parse_str.simps) simp
    next
      case (Cons d s')
      show ?thesis
      proof (cases "is_low d")
        case True
        with high Cons show ?thesis
          using "2.IH"(1) surrogate_not_special [of c] surrogate_not_special [of d]
          by (simp add: parse_str_plain del: parse_str.simps)
      next
        case False
        with high Cons show ?thesis
          using "2.IH"(2) by (simp add: parse_str_u_escape del: parse_str.simps quote_body.simps(2)) (simp add: quote_body.simps(2) parse_str_u_escape del: parse_str.simps)
      qed
    qed
  next
    case high: False
    then show ?thesis
      using "2.IH"(3,4)
      by (cases "is_low c") (simp_all add: parse_str_u_escape parse_str_quote_unit del: parse_str.simps)
  qed
qed simp

section \<open>Parsing a printed number\<close>

text \<open>What may follow a number: nothing that could extend the literal.\<close>

definition number_ends :: "jsstr \<Rightarrow> bool" where
  "number_ends r \<longleftrightarrow> (case r of [] \<Rightarrow> True | c # _ \<Rightarrow> \<not> is_digit c \<and> c \<noteq> 46 \<and> c \<noteq> 101 \<and> c \<noteq> 69)"

lemma js_char_code: "js_char c = of_nat (of_char c)"
  by (simp add: js_char_def)

lemma starts_with_js_Cons: "starts_with (js (a # t)) (c # r) \<Longrightarrow> c = js_char a"
  by (simp add: starts_with_def js_Cons)

lemma starts_with_append [simp]: "starts_with p (p @ s)"
  by (simp add: starts_with_def)

lemma take_digits:
  assumes "list_all is_digit ds" "number_ends r"
  shows "takeWhile is_digit (ds @ r) = ds" "dropWhile is_digit (ds @ r) = r"
proof -
  have ds: "\<forall>x \<in> set ds. is_digit x" using assms(1) by (simp add: list_all_iff)
  have "takeWhile is_digit r = []" "dropWhile is_digit r = r"
    using assms(2) by (cases r; simp add: number_ends_def)+
  with ds show "takeWhile is_digit (ds @ r) = ds" "dropWhile is_digit (ds @ r) = r"
    by (simp_all add: takeWhile_append2 dropWhile_append2)
qed

lemma number_ends_tests:
  assumes "number_ends r"
  shows "\<not> starts_with (js ''.'') r" "\<not> (r \<noteq> [] \<and> (hd r = 101 \<or> hd r = 69))"
  using assms by (cases r; auto simp: number_ends_def starts_with_def js_Cons js_char_code)+

lemma digit_not_minus: "is_digit c \<Longrightarrow> c \<noteq> 45"
  by (auto simp: is_digit_def)

lemma nat_text_hd_digit: "is_digit (hd (nat_text n))"
  using nat_text_digits [of n] nat_text_nonempty [of n] by (cases "nat_text n") auto

lemma nat_text_single_zero: "1 < length (nat_text n) \<Longrightarrow> hd (nat_text n) \<noteq> 48"
proof
  assume len: "1 < length (nat_text n)" and "hd (nat_text n) = 48"
  then have "n = 0" by (intro nat_text_leading) (simp add: js_char_code)
  with len show False by (simp add: nat_text_less_10)
qed

lemma nat_text_no_minus: "\<not> starts_with (js ''-'') (nat_text n @ r)"
  using nat_text_hd_digit [of n] nat_text_nonempty [of n]
  by (cases "nat_text n") (auto simp: starts_with_def js_Cons js_char_code dest: digit_not_minus)

lemma parse_number_nat_text:
  assumes "number_ends r"
  shows "parse_number (nat_text n @ r) = Some (int_number False n, r)"
    and "parse_number (js ''-'' @ nat_text n @ r) = Some (int_number True n, r)"
proof -
  note digits = take_digits [OF nat_text_digits [of n] assms] number_ends_tests [OF assms]
  have zero: "\<not> (nat_text n = [] \<or> 1 < length (nat_text n) \<and> hd (nat_text n) = 48)"
    using nat_text_single_zero [of n] by simp
  show "parse_number (nat_text n @ r) = Some (int_number False n, r)"
    unfolding parse_number_def Let_def using nat_text_no_minus [of n r] digits zero by auto
  have "tl (js ''-'' @ nat_text n @ r) = nat_text n @ r" by (simp add: js_Cons)
  then show "parse_number (js ''-'' @ nat_text n @ r) = Some (int_number True n, r)"
    unfolding parse_number_def Let_def using digits zero by auto
qed

lemma parse_number_int_text:
  assumes "\<bar>n\<bar> \<le> max_safe" "number_ends r"
  shows "parse_number (int_text n @ r) = Some (JInt n, r)"
  using assms parse_number_nat_text [OF assms(2)]
  by (auto simp: int_text_def int_number_def)

section \<open>Parsing a printed tree\<close>

lemma int_text_head: "\<exists>c r. int_text n = c # r \<and> (is_digit c \<or> c = 45)"
proof (cases "n < 0")
  case True
  then show ?thesis by (simp add: int_text_def js_Cons js_char_code)
next
  case False
  then show ?thesis
    using nat_text_hd_digit [of "nat n"] nat_text_nonempty [of "nat n"]
    by (cases "nat_text (nat n)") (auto simp: int_text_def)
qed

lemma number_head_facts:
  assumes "is_digit c \<or> c = 45"
  shows "c \<noteq> 123" "c \<noteq> 91" "c \<noteq> 34" "c \<noteq> 116" "c \<noteq> 102" "c \<noteq> 110" "\<not> is_ws c" "c \<noteq> 93" "c \<noteq> 125"
  using assms by (auto simp: is_digit_def is_ws_def)

lemma print_head: "\<exists>c r. print_json j = c # r \<and> \<not> is_ws c \<and> c \<noteq> 93 \<and> c \<noteq> 125"
proof (cases j)
  case (Num n)
  then show ?thesis
    using int_text_head [of n] number_head_facts by (metis print_json.simps(3))
qed (auto simp: js_Cons js_char_code is_ws_def json_quote_def)

lemma skip_ws_print [simp]: "skip_ws (print_json j @ r) = print_json j @ r"
  using print_head [of j] by (auto simp: skip_ws_def)

lemma skip_ws_nonws [simp]: "\<not> is_ws c \<Longrightarrow> skip_ws (c # r) = c # r"
  by (simp add: skip_ws_def)

lemma is_ws_punct [simp]:
  "\<not> is_ws 34" "\<not> is_ws 44" "\<not> is_ws 58" "\<not> is_ws 91" "\<not> is_ws 93" "\<not> is_ws 123" "\<not> is_ws 125"
  by (simp_all add: is_ws_def)

lemma number_ends_punct [simp]: "number_ends (44 # r)" "number_ends (93 # r)" "number_ends (125 # r)" "number_ends []"
  by (simp_all add: number_ends_def is_digit_def)

lemma update_fresh: "k \<notin> fst ` set acc \<Longrightarrow> AList.update k v acc = acc @ [(k, v)]"
  by (induction acc) auto

lemma foldl_update_fresh:
  "distinct (map fst acc @ map fst kvs) \<Longrightarrow> foldl (\<lambda>acc (k, v). AList.update k v acc) acc kvs = acc @ kvs"
proof (induction kvs arbitrary: acc)
  case (Cons kv kvs)
  obtain k v where kv: "kv = (k, v)" by force
  have "AList.update k v acc = acc @ [(k, v)]"
    using Cons.prems kv by (intro update_fresh) auto
  with Cons.IH [of "acc @ [(k, v)]"] Cons.prems kv show ?case by simp
qed simp

lemma merge_members_distinct: "distinct (map fst kvs) \<Longrightarrow> merge_members kvs = kvs"
  by (simp add: merge_members_def foldl_update_fresh)


lemma key_text_head: "skip_ws (json_quote k @ r) = 34 # quote_body k @ 34 # r"
  by (simp add: json_quote_def)

lemma join_head:
  "xs \<noteq> [] \<Longrightarrow> \<exists>t. join sep xs = hd xs @ t"
  by (cases xs; cases "tl xs") auto

abbreviation member_text :: "jsstr \<times> json \<Rightarrow> jsstr" where
  "member_text \<equiv> \<lambda>(k, j). json_quote k @ 58 # print_json j"

abbreviation member_of :: "jsstr \<times> json \<Rightarrow> jsstr \<times> jsval" where
  "member_of \<equiv> \<lambda>(k, j). (k, of_json j)"

definition reads_value :: "nat \<Rightarrow> bool" where
  "reads_value f \<longleftrightarrow> (\<forall>j r. wf_json j \<longrightarrow> number_ends r \<longrightarrow> 2 * length (print_json j @ r) < f \<longrightarrow>
     parse_value f (print_json j @ r) = Some (of_json j, r))"

definition reads_elements :: "nat \<Rightarrow> bool" where
  "reads_elements f \<longleftrightarrow> (\<forall>vs r. vs \<noteq> [] \<longrightarrow> (\<forall>j \<in> set vs. wf_json j) \<longrightarrow>
     2 * length (join [44] (map print_json vs) @ 93 # r) + 1 < f \<longrightarrow>
     parse_elements f (join [44] (map print_json vs) @ 93 # r) = Some (map of_json vs, r))"

definition reads_members :: "nat \<Rightarrow> bool" where
  "reads_members f \<longleftrightarrow> (\<forall>kjs r. kjs \<noteq> [] \<longrightarrow> (\<forall>(k, j) \<in> set kjs. wf_json j) \<longrightarrow>
     2 * length (join [44] (map member_text kjs) @ 125 # r) + 1 < f \<longrightarrow>
     parse_members f (join [44] (map member_text kjs) @ 125 # r) = Some (map member_of kjs, r))"

lemma skip_ws_join_print:
  "vs \<noteq> [] \<Longrightarrow> \<exists>c t. skip_ws (join [44] (map print_json vs) @ r) = c # t \<and> c # t = join [44] (map print_json vs) @ r \<and> c \<noteq> 93"
proof -
  assume "vs \<noteq> []"
  then obtain j t where t: "join [44] (map print_json vs) = print_json j @ t"
    using join_head [of "map print_json vs" "[44]"] by (cases vs) auto
  obtain c u where "print_json j = c # u" "c \<noteq> 93" using print_head [of j] by blast
  with t skip_ws_print [of j "t @ r"] show ?thesis by auto
qed

lemma skip_ws_join_members:
  "kjs \<noteq> [] \<Longrightarrow> \<exists>t. skip_ws (join [44] (map member_text kjs) @ r) = 34 # t \<and> 34 # t = join [44] (map member_text kjs) @ r"
proof -
  assume "kjs \<noteq> []"
  then obtain k t where "join [44] (map member_text kjs) = json_quote k @ t"
    using join_head [of "map member_text kjs" "[44]"] by (cases kjs) auto
  then show ?thesis by (auto simp: json_quote_def)
qed

lemma join_Cons: "join sep (x # xs) = x @ (if xs = [] then [] else sep @ join sep xs)"
  by (cases xs) simp_all

lemma reads_elements_Suc:
  assumes v: "reads_value f" and e: "reads_elements f"
  shows "reads_elements (Suc f)"
  unfolding reads_elements_def
proof (intro allI impI)
  fix vs r
  assume vs: "vs \<noteq> []" and wf: "\<forall>j \<in> set vs. wf_json j"
    and len: "2 * length (join [44] (map print_json vs) @ 93 # r) + 1 < Suc f"
  obtain j ks where c: "vs = j # ks" using vs by (cases vs) auto
  show "parse_elements (Suc f) (join [44] (map print_json vs) @ 93 # r) = Some (map of_json vs, r)"
  proof (cases "ks = []")
    case True
    with c len wf v have "parse_value f (print_json j @ 93 # r) = Some (of_json j, 93 # r)"
      by (simp add: reads_value_def)
    with c True show ?thesis by simp
  next
    case False
    let ?rest = "join [44] (map print_json ks) @ 93 # r"
    have t: "join [44] (map print_json vs) @ 93 # r = print_json j @ 44 # ?rest"
      using c False by (simp add: join_Cons)
    have "parse_value f (print_json j @ 44 # ?rest) = Some (of_json j, 44 # ?rest)"
      using c len wf v t by (simp add: reads_value_def)
    moreover have "parse_elements f ?rest = Some (map of_json ks, r)"
      using e False wf c len t by (simp add: reads_elements_def)
    ultimately show ?thesis unfolding t using c by simp
  qed
qed

lemma reads_members_Suc:
  assumes v: "reads_value f" and m: "reads_members f"
  shows "reads_members (Suc f)"
  unfolding reads_members_def
proof (intro allI impI)
  fix kjs r
  assume kjs: "kjs \<noteq> []" and wf: "\<forall>(k, j) \<in> set kjs. wf_json j"
    and len: "2 * length (join [44] (map member_text kjs) @ 125 # r) + 1 < Suc f"
  obtain k j ks where c: "kjs = (k, j) # ks" using kjs by (cases kjs) auto
  have read: "parse_value f (print_json j @ s) = Some (of_json j, s)"
    if "number_ends s" "2 * length (print_json j @ s) < f" for s
    using v wf c that by (simp add: reads_value_def)
  show "parse_members (Suc f) (join [44] (map member_text kjs) @ 125 # r) = Some (map member_of kjs, r)"
  proof (cases "ks = []")
    case True
    with c len read [of "125 # r"] show ?thesis
      by (simp add: json_quote_def parse_str_quote_body)
  next
    case False
    let ?rest = "join [44] (map member_text ks) @ 125 # r"
    have t: "join [44] (map member_text kjs) @ 125 # r = json_quote k @ 58 # print_json j @ 44 # ?rest"
      using c False by (simp add: join_Cons)
    have "parse_value f (print_json j @ 44 # ?rest) = Some (of_json j, 44 # ?rest)"
      using len t by (intro read) (simp_all add: json_quote_def)
    moreover have "parse_members f ?rest = Some (map member_of ks, r)"
      using m False wf c len t by (simp add: reads_members_def json_quote_def)
    ultimately show ?thesis unfolding t using c
      by (simp add: json_quote_def parse_str_quote_body)
  qed
qed

lemma reads_value_Suc:
  assumes e: "reads_elements f" and m: "reads_members f"
  shows "reads_value (Suc f)"
  unfolding reads_value_def
proof (intro allI impI)
  fix j r
  assume wf: "wf_json j" and r: "number_ends r" and len: "2 * length (print_json j @ r) < Suc f"
  show "parse_value (Suc f) (print_json j @ r) = Some (of_json j, r)"
  proof (cases j)
    case (Num n)
    obtain c t where ct: "int_text n = c # t" "is_digit c \<or> c = 45" using int_text_head by blast
    note facts = number_head_facts [OF ct(2)]
    have "\<not> starts_with (js ''true'') (c # t @ r)" "\<not> starts_with (js ''false'') (c # t @ r)"
      "\<not> starts_with (js ''null'') (c # t @ r)"
      using facts starts_with_js_Cons by (force simp: js_char_code)+
    moreover have "parse_number (c # t @ r) = Some (JInt n, r)"
      using parse_number_int_text [of n r] wf r Num ct(1) by simp
    ultimately show ?thesis
      using Num ct(1) facts by simp
  next
    case (Arr vs)
    show ?thesis
    proof (cases "vs = []")
      case True
      with Arr show ?thesis by simp
    next
      case False
      let ?s = "join [44] (map print_json vs) @ 93 # r"
      obtain c t where ct: "skip_ws ?s = c # t" "c # t = ?s" "c \<noteq> 93"
        using skip_ws_join_print [OF False, of "93 # r"] by auto
      have "parse_elements f (c # t) = Some (map of_json vs, r)"
        using e False wf Arr len ct(2) by (simp add: reads_elements_def)
      with Arr ct(1,3) show ?thesis by simp
    qed
  next
    case (Obj kjs)
    show ?thesis
    proof (cases "kjs = []")
      case True
      with Obj show ?thesis by simp
    next
      case False
      let ?s = "join [44] (map member_text kjs) @ 125 # r"
      obtain t where t: "skip_ws ?s = 34 # t" "34 # t = ?s"
        using skip_ws_join_members [OF False, of "125 # r"] by auto
      have "parse_members f (34 # t) = Some (map member_of kjs, r)"
        using m False wf Obj len t(2) by (auto simp: reads_members_def)
      moreover have "distinct (map fst (map member_of kjs))"
        using wf Obj by (simp add: comp_def case_prod_beta)
      ultimately show ?thesis using Obj t(1) by (simp add: merge_members_distinct)
    qed
  next
    case (Str s)
    then show ?thesis by (simp add: json_quote_def parse_str_quote_body)
  qed (auto simp: js_Cons js_char_code starts_with_def is_ws_def)
qed

lemma reads_all: "reads_value f \<and> reads_elements f \<and> reads_members f"
proof (induction f)
  case 0
  show ?case by (simp add: reads_value_def reads_elements_def reads_members_def)
next
  case (Suc f)
  then show ?case by (blast intro: reads_value_Suc reads_elements_Suc reads_members_Suc)
qed

lemma json_parse_print:
  assumes "wf_json j"
  shows "json_parse (print_json j) = Some (of_json j)"
proof -
  let ?f = "Suc (2 * length (print_json j))"
  have "reads_value ?f" using reads_all by blast
  then have "parse_value ?f (print_json j @ []) = Some (of_json j, [])"
    using assms unfolding reads_value_def by (elim allE [of _ j] allE [of _ "[]"] impE) simp_all
  then have "parse_value ?f (print_json j) = Some (of_json j, [])" by (simp only: append_Nil2)
  then show ?thesis unfolding json_parse_def by (simp only: option.case prod.case) (simp add: skip_ws_def)
qed


section \<open>What the serializer accepts, and what it prints\<close>

text \<open>
  The own properties of every object and array have distinct keys, as in any JavaScript
  heap.
\<close>

lemma size_desc_value [termination_simp]:
  "(k, d) \<in> set ps \<Longrightarrow> size (desc_value d) < Suc (size_list (\<lambda>x. Suc (size_desc size (snd x))) ps)"
proof (induction ps)
  case (Cons p ps)
  then show ?case by (cases p; cases d) auto
qed simp

fun wf_jsval :: "jsval \<Rightarrow> bool" where
  "wf_jsval (JArr n ps) \<longleftrightarrow> distinct (map fst ps) \<and> (\<forall>(k, d) \<in> set ps. wf_jsval (desc_value d))"
| "wf_jsval (JObj p ps) \<longleftrightarrow> distinct (map fst ps) \<and> (\<forall>(k, d) \<in> set ps. wf_jsval (desc_value d))"
| "wf_jsval _ \<longleftrightarrow> True"

text \<open>
  The values with a canonical form, and the tree each denotes: members are enumerable data
  properties under well-formed string keys, sorted by key.
\<close>

definition plain_member :: "propkey \<times> jsval desc \<Rightarrow> bool" where
  "plain_member p \<longleftrightarrow> (\<exists>s v. p = (PStr s, DData v True) \<and> v \<noteq> JUndef \<and> valid_unicode s)"

inductive denotes :: "jsval \<Rightarrow> json \<Rightarrow> bool" where
  denotes_null: "denotes JNull Null"
| denotes_bool: "denotes (JBool b) (Bool b)"
| denotes_num: "\<bar>n\<bar> \<le> max_safe \<Longrightarrow> denotes (JNum (JInt n)) (Num n)"
| denotes_str: "valid_unicode s \<Longrightarrow> denotes (JStr s) (Str s)"
| denotes_arr: "\<not> irregular_array n ps \<Longrightarrow>
    list_all2 (\<lambda>k j. \<exists>d. map_of ps (PStr k) = Some d \<and> denotes (desc_value d) j) (map nat_text [0..<n]) vs \<Longrightarrow>
    denotes (JArr n ps) (Arr vs)"
| denotes_obj: "p \<noteq> OtherProto \<Longrightarrow> list_all plain_member ps \<Longrightarrow>
    list_all2 (\<lambda>k kj. fst kj = k \<and> (\<exists>d. map_of ps (PStr k) = Some d \<and> denotes (desc_value d) (snd kj))) (sort (object_keys ps)) kjs \<Longrightarrow>
    denotes (JObj p ps) (Obj kjs)"

lemma check_members_iff:
  "check_members ps ks = Inr () \<longleftrightarrow>
     (\<forall>k \<in> set ks. valid_unicode k \<and> (\<exists>v. map_of ps (PStr k) = Some (DData v True) \<and> v \<noteq> JUndef))"
  by (induction ks) (auto simp: thenR_eq_Inr valid_unicode_def split: option.splits desc.splits if_splits)

lemma set_object_keys: "s \<in> set (object_keys ps) \<longleftrightarrow> (\<exists>d. (PStr s, d) \<in> set ps \<and> desc_enumerable d)"
  by (induction ps rule: object_keys.induct) auto

lemma distinct_object_keys: "distinct (map fst ps) \<Longrightarrow> distinct (object_keys ps)"
  by (induction ps rule: object_keys.induct) (auto simp: set_object_keys image_iff)

lemma object_keys_length_plain: "list_all plain_member ps \<Longrightarrow> length (object_keys ps) = length ps"
  by (induction ps rule: object_keys.induct) (auto simp: plain_member_def)

lemma plain_members_iff:
  assumes "distinct (map fst ps)"
  shows "list_all plain_member ps \<longleftrightarrow>
     length (own_keys ps) = length (sort (object_keys ps)) \<and> has_all_keys (own_keys ps) (sort (object_keys ps))
     \<and> check_members ps (sort (object_keys ps)) = Inr ()"
proof
  assume l: "list_all plain_member ps"
  have "has_all_keys (own_keys ps) (object_keys ps)"
    using l by (fastforce simp: has_all_keys_def own_keys_def list_all_iff plain_member_def set_object_keys)
  moreover have "check_members ps (sort (object_keys ps)) = Inr ()"
    unfolding check_members_iff
  proof
    fix k assume "k \<in> set (sort (object_keys ps))"
    then obtain d where d: "(PStr k, d) \<in> set ps" by (auto simp: set_object_keys)
    with l have "plain_member (PStr k, d)" by (simp add: list_all_iff)
    with d assms show "valid_unicode k \<and> (\<exists>v. map_of ps (PStr k) = Some (DData v True) \<and> v \<noteq> JUndef)"
      by (auto simp: plain_member_def map_of_eq_Some_iff)
  qed
  ultimately show "length (own_keys ps) = length (sort (object_keys ps)) \<and> has_all_keys (own_keys ps) (sort (object_keys ps))
     \<and> check_members ps (sort (object_keys ps)) = Inr ()"
    using object_keys_length_plain [OF l] by (simp add: own_keys_def has_all_keys_def cong: propkey.case_cong)
next
  assume r: "length (own_keys ps) = length (sort (object_keys ps)) \<and> has_all_keys (own_keys ps) (sort (object_keys ps))
     \<and> check_members ps (sort (object_keys ps)) = Inr ()"
  show "list_all plain_member ps"
    unfolding list_all_iff
  proof (intro ballI)
    fix p assume p: "p \<in> set ps"
    then obtain s where s: "fst p = PStr s" "s \<in> set (object_keys ps)"
      using r by (cases "fst p") (force simp: has_all_keys_def own_keys_def)+
    then obtain v where v: "valid_unicode s" "map_of ps (PStr s) = Some (DData v True)" "v \<noteq> JUndef"
      using r by (auto simp: check_members_iff)
    have "map_of ps (fst p) = Some (snd p)" using p assms by (simp add: map_of_eq_Some_iff)
    with s v show "plain_member p" by (cases p) (auto simp: plain_member_def)
  qed
qed

lemma map_of_wf: "map_of ps k = Some d \<Longrightarrow> \<forall>(k, d) \<in> set ps. wf_jsval (desc_value d) \<Longrightarrow> wf_jsval (desc_value d)"
  by (auto dest: map_of_SomeD)


lemma canonical_json_sound:
  "wf_jsval v \<Longrightarrow> canonical_json v = Inr s \<Longrightarrow> \<exists>j. denotes v j \<and> s = print_json j \<and> wf_json j"
proof (induction v arbitrary: s rule: canonical_json.induct)
  case (8 n ps)
  let ?ks = "map nat_text [0..<n]"
  let ?R = "\<lambda>k j. \<exists>d. map_of ps (PStr k) = Some d \<and> denotes (desc_value d) j"
  let ?get = "\<lambda>k. case map_of ps (PStr k) of None \<Rightarrow> throw ''unreachable: an index of a dense array'' | Some d \<Rightarrow> canonical_json (desc_value d)"
  from "8.prems"(2) obtain ts where reg: "\<not> irregular_array n ps" and ts: "mapR ?get ?ks = Inr ts" and s: "s = 91 # join [44] ts @ [93]"
    by (auto simp: bindR_eq_Inr split: if_splits)
  have step: "\<exists>j. ?R k j \<and> t = print_json j \<and> wf_json j" if "k \<in> set ?ks" "?get k = Inr t" for k t
  proof -
    from that(2) obtain d where d: "map_of ps (PStr k) = Some d" "canonical_json (desc_value d) = Inr t"
      by (auto split: option.splits)
    then have "wf_jsval (desc_value d)" using "8.prems"(1) by (intro map_of_wf) auto
    from "8.IH" [OF reg that(1) d(1) this d(2)] d(1) show ?thesis by auto
  qed
  from mapR_choose [where R = ?R and g = print_json and W = wf_json, OF ts step] obtain vs where "list_all2 ?R ?ks vs" "ts = map print_json vs" "\<forall>j \<in> set vs. wf_json j"
    by blast
  with reg s show ?case
    by (intro exI [of _ "Arr vs"]) (auto intro: denotes_arr)
next
  case (9 p ps)
  let ?ks = "sort (object_keys ps)"
  let ?R = "\<lambda>k kj. fst kj = k \<and> (\<exists>d. map_of ps (PStr k) = Some d \<and> denotes (desc_value d) (snd kj))"
  let ?get = "\<lambda>k. case map_of ps (PStr k) of None \<Rightarrow> throw ''unreachable: a key of the object''
                            | Some d \<Rightarrow> bindR (canonical_json (desc_value d)) (\<lambda>t. Inr (json_quote k @ 58 # t))"
  from "9.prems"(1) have dist: "distinct (map fst ps)" by simp
  from "9.prems"(2) obtain ts where proto: "p \<noteq> OtherProto"
    and len: "\<not> (length (own_keys ps) \<noteq> length ?ks \<or> \<not> has_all_keys (own_keys ps) ?ks)"
    and chk: "check_members ps ?ks = Inr ()" and ts: "mapR ?get ?ks = Inr ts" and s: "s = 123 # join [44] ts @ [125]"
    by (auto simp: bindR_eq_Inr thenR_eq_Inr Let_def split: if_splits)
  have plain: "list_all plain_member ps"
    using len chk plain_members_iff [OF dist] by blast
  have step: "\<exists>kj. ?R k kj \<and> t = member_text kj \<and> wf_json (snd kj)" if "k \<in> set ?ks" "?get k = Inr t" for k t
  proof -
    from that(2) obtain d u where d: "map_of ps (PStr k) = Some d" "canonical_json (desc_value d) = Inr u" "t = json_quote k @ 58 # u"
      by (auto simp: bindR_eq_Inr split: option.splits)
    then have "wf_jsval (desc_value d)" using "9.prems"(1) by (intro map_of_wf) auto
    from "9.IH" [OF proto refl len chk that(1) d(1) this d(2)] d(1,3) show ?thesis by auto
  qed
  from mapR_choose [where R = ?R and g = member_text and W = "\<lambda>kj. wf_json (snd kj)", OF ts step] obtain kjs where kjs: "list_all2 ?R ?ks kjs" "ts = map member_text kjs" "\<forall>kj \<in> set kjs. wf_json (snd kj)"
    by blast
  have "map fst kjs = ?ks"
    using kjs(1) by (auto simp: list_all2_conv_all_nth intro: nth_equalityI)
  then have "distinct (map fst kjs)"
    using distinct_object_keys [OF dist] by simp
  with proto plain kjs s show ?case
    by (intro exI [of _ "Obj kjs"]) (auto intro: denotes_obj)
next
  case (2 u)
  then show ?case
    by (intro exI [of _ "Str u"]) (auto simp: thenR_eq_Inr valid_unicode_def intro: denotes_str)
next
  case (4 x)
  then show ?case
  proof (cases x)
    case (JInt n)
    with "4.prems" have "\<bar>n\<bar> \<le> max_safe" by (simp split: if_splits)
    with JInt "4.prems" show ?thesis by (intro exI [of _ "Num n"]) (auto intro: denotes_num)
  qed simp_all
qed (auto intro: denotes.intros exI [of _ Null] exI [of _ "Bool b" for b])

lemma canonical_json_complete: "denotes v j \<Longrightarrow> wf_jsval v \<Longrightarrow> canonical_json v = Inr (print_json j)"
proof (induction rule: denotes.induct)
  case (denotes_arr n ps vs)
  let ?get = "\<lambda>k. case map_of ps (PStr k) of None \<Rightarrow> throw ''unreachable: an index of a dense array'' | Some d \<Rightarrow> canonical_json (desc_value d)"
  from denotes_arr.prems have "\<forall>(k, d) \<in> set ps. wf_jsval (desc_value d)" by simp
  then have "list_all2 (\<lambda>k j. ?get k = Inr (print_json j)) (map nat_text [0..<n]) vs"
    by (intro list_all2_mono [OF denotes_arr.IH]) (auto dest: map_of_wf)
  from mapR_list_all2 [OF this] denotes_arr.hyps show ?case by simp
next
  case (denotes_obj p ps kjs)
  let ?get = "\<lambda>k. case map_of ps (PStr k) of None \<Rightarrow> throw ''unreachable: a key of the object''
                            | Some d \<Rightarrow> bindR (canonical_json (desc_value d)) (\<lambda>t. Inr (json_quote k @ 58 # t))"
  from denotes_obj.prems have wf: "\<forall>(k, d) \<in> set ps. wf_jsval (desc_value d)" and dist: "distinct (map fst ps)" by simp_all
  have "list_all2 (\<lambda>k kj. ?get k = Inr (member_text kj)) (sort (object_keys ps)) kjs"
    using wf by (intro list_all2_mono [OF denotes_obj.IH]) (auto dest: map_of_wf)
  from mapR_list_all2 [OF this] denotes_obj.hyps(1,2) show ?case
    by (simp add: plain_members_iff [OF dist] Let_def)
qed (auto simp: valid_unicode_def)


section \<open>Values of trees and of parsed text\<close>

lemma wf_obj [simp]: "wf_jsval (obj kvs) \<longleftrightarrow> distinct (map fst kvs) \<and> (\<forall>(k, v) \<in> set kvs. wf_jsval v)"
proof -
  have "map fst (map (\<lambda>(k, v). (PStr k, DData v True)) kvs) = map PStr (map fst kvs)"
    by (induction kvs) auto
  then show ?thesis by (auto simp: obj_def distinct_map inj_on_def)
qed

lemma set_index_props: "(k, d) \<in> set (index_props i vs) \<Longrightarrow> \<exists>n v. k = PStr (nat_text n) \<and> i \<le> n \<and> d = DData v True \<and> v \<in> set vs"
  by (induction vs arbitrary: i) (auto intro: Suc_leD, metis Suc_leD)

lemma in_index_props: "v \<in> set vs \<Longrightarrow> \<exists>k. (k, DData v True) \<in> set (index_props i vs)"
  by (induction vs arbitrary: i) auto

lemma distinct_index_props: "distinct (map fst (index_props i vs))"
proof (induction vs arbitrary: i)
  case (Cons v vs)
  have "PStr (nat_text i) \<notin> fst ` set (index_props (Suc i) vs)"
    using set_index_props [of _ _ "Suc i" vs] by fastforce
  with Cons show ?case by simp
qed simp

lemma wf_arr [simp]: "wf_jsval (arr vs) \<longleftrightarrow> (\<forall>v \<in> set vs. wf_jsval v)"
proof -
  have "(\<forall>(k, d) \<in> set (index_props 0 vs). wf_jsval (desc_value d)) \<longleftrightarrow> (\<forall>v \<in> set vs. wf_jsval v)"
    using set_index_props [of _ _ 0 vs] in_index_props [of _ vs 0] by fastforce
  then show ?thesis by (simp add: arr_def distinct_index_props)
qed

lemma obj_inject [simp]: "obj a = obj b \<longleftrightarrow> a = b"
proof -
  have "inj (\<lambda>(k :: jsstr, v :: jsval). (PStr k, DData v True))" by (auto simp: inj_def)
  then show ?thesis by (auto simp: obj_def dest: map_injective)
qed

lemma arr_inject [simp]: "arr a = arr b \<longleftrightarrow> a = b"
  by (metis elements_arr)

lemma obj_neq_arr [simp]: "obj a \<noteq> arr b" "arr b \<noteq> obj a"
  by (simp_all add: obj_def arr_def)

lemma obj_arr_neq_base [simp]:
  "obj a \<noteq> JNull" "obj a \<noteq> JBool c" "obj a \<noteq> JNum x" "obj a \<noteq> JStr s"
  "arr b \<noteq> JNull" "arr b \<noteq> JBool c" "arr b \<noteq> JNum x" "arr b \<noteq> JStr s"
  "JNull \<noteq> obj a" "JBool c \<noteq> obj a" "JNum x \<noteq> obj a" "JStr s \<noteq> obj a"
  "JNull \<noteq> arr b" "JBool c \<noteq> arr b" "JNum x \<noteq> arr b" "JStr s \<noteq> arr b"
  by (simp_all add: obj_def arr_def)

lemma of_json_inject [simp]: "of_json i = of_json j \<longleftrightarrow> i = j"
proof
  show "of_json i = of_json j \<Longrightarrow> i = j"
  proof (induction i arbitrary: j)
    case (Arr vs)
    then obtain ws where ws: "j = Arr ws" "map of_json vs = map of_json ws" by (cases j) auto
    have "vs = ws"
    proof (rule nth_equalityI)
      show len: "length vs = length ws" using ws(2) by (rule map_eq_imp_length_eq)
      fix n assume n: "n < length vs"
      with ws(2) have "of_json (vs ! n) = of_json (ws ! n)" by (rule map_eq_nth)
      with n show "vs ! n = ws ! n" by (intro Arr.IH) simp_all
    qed
    with ws show ?case by simp
  next
    case (Obj kjs)
    then obtain ws where ws: "j = Obj ws" "map member_of kjs = map member_of ws" by (cases j) auto
    have "kjs = ws"
    proof (rule nth_equalityI)
      show len: "length kjs = length ws" using ws(2) by (rule map_eq_imp_length_eq)
      fix n assume n: "n < length kjs"
      with ws(2) have m: "member_of (kjs ! n) = member_of (ws ! n)" by (rule map_eq_nth)
      have "snd (kjs ! n) = snd (ws ! n)"
      proof (rule Obj.IH)
        show "kjs ! n \<in> set kjs" using n by simp
        show "snd (kjs ! n) \<in> Basic_BNFs.snds (kjs ! n)" by (cases "kjs ! n") simp
        show "of_json (snd (kjs ! n)) = of_json (snd (ws ! n))"
          using m by (metis (no_types, lifting) case_prod_beta snd_conv)
      qed
      moreover have "fst (kjs ! n) = fst (ws ! n)"
        using m by (metis (no_types, lifting) case_prod_beta fst_conv)
      ultimately show "kjs ! n = ws ! n" by (simp add: prod_eq_iff)
    qed
    with ws show ?case by simp
  qed (case_tac j; simp)+
qed simp

lemma print_inject: "wf_json i \<Longrightarrow> wf_json j \<Longrightarrow> print_json i = print_json j \<Longrightarrow> i = j"
  by (metis json_parse_print of_json_inject option.inject)

lemma merge_members_wf:
  "(\<forall>(k, v) \<in> set kvs. P v) \<Longrightarrow> distinct (map fst (merge_members kvs)) \<and> (\<forall>(k, v) \<in> set (merge_members kvs). P v)"
proof -
  assume P: "\<forall>(k, v) \<in> set kvs. P v"
  have "distinct (map fst (foldl (\<lambda>acc (k, v). AList.update k v acc) acc kvs))
      \<and> (\<forall>(k, v) \<in> set (foldl (\<lambda>acc (k, v). AList.update k v acc) acc kvs). P v)"
    if "distinct (map fst acc)" "\<forall>(k, v) \<in> set acc. P v" for acc
    using that P
  proof (induction kvs arbitrary: acc)
    case (Cons kv kvs)
    obtain k v where kv: "kv = (k, v)" by force
    have "set (AList.update k v acc) \<subseteq> insert (k, v) (set acc)" for acc :: "(jsstr \<times> jsval) list"
      by (induction acc) auto
    then have "\<forall>(k, v) \<in> set (AList.update k v acc). P v"
      using Cons.prems kv by fastforce
    moreover have "distinct (map fst (AList.update k v acc))"
      using Cons.prems(1) by (rule distinct_update)
    moreover have "\<forall>(k, v) \<in> set kvs. P v" using Cons.prems(3) by simp
    ultimately show ?case
      unfolding kv foldl_Cons prod.case by (intro Cons.IH)
  qed simp
  from this [of "[]"] show ?thesis unfolding merge_members_def by simp
qed

lemma wf_obj_merge: "\<forall>(k, v) \<in> set kvs. wf_jsval v \<Longrightarrow> wf_jsval (obj (merge_members kvs))"
  using merge_members_wf [of kvs wf_jsval] by simp

lemma parse_wf:
  "parse_value f s = Some (v, r) \<Longrightarrow> wf_jsval v"
  "parse_elements f s = Some (vs, r) \<Longrightarrow> \<forall>v \<in> set vs. wf_jsval v"
  "parse_members f s = Some (kvs, r) \<Longrightarrow> \<forall>(k, v) \<in> set kvs. wf_jsval v"
proof (induction f s and f s and f s arbitrary: v r and vs r and kvs r rule: parse_value_parse_elements_parse_members.induct)
  case (2 f s)
  then show ?case
    by (auto simp del: wf_obj simp: wf_obj [of "[]"] intro!: wf_obj_merge split: list.splits if_splits)
      fastforce
next
  case (4 f s)
  from "4.prems" obtain w r1 d r2 where w: "parse_value f s = Some (w, r1)" "skip_ws r1 = d # r2"
    and tail: "(if d = 44 then push w (parse_elements f r2) else if d = 93 then Some ([w], r2) else None) = Some (vs, r)"
    by (auto split: option.splits list.splits)
  have "wf_jsval w" using w(1) by (rule "4.IH"(1))
  with tail w "4.IH"(2) [OF w(1) refl w(2)] show ?case
    by (auto simp: push_eq_Some split: if_splits)
next
  case (6 f s)
  from "6.prems" obtain c r0 k r1 d r2 w r3 e r4 where c: "skip_ws s = c # r0" "\<not> c \<noteq> 34" and k: "parse_str r0 = Some (k, r1)"
    and d: "skip_ws r1 = d # r2" "\<not> d \<noteq> 58" and w: "parse_value f r2 = Some (w, r3)" and e: "skip_ws r3 = e # r4"
    and tail: "(if e = 44 then push (k, w) (parse_members f r4) else if e = 125 then Some ([(k, w)], r4) else None) = Some (kvs, r)"
    by (auto split: option.splits list.splits if_splits)
  have "wf_jsval w" using "6.IH"(1) [OF c k refl d w] .
  with tail "6.IH"(2) [OF c k refl d w refl e] show ?case
    by (auto simp: push_eq_Some split: if_splits)
qed simp_all

lemma json_parse_wf: "json_parse s = Some v \<Longrightarrow> wf_jsval v"
  by (auto simp: json_parse_def simp del: parse_value.simps split: option.splits if_splits intro: parse_wf(1))


section \<open>Equal canonical text\<close>

text \<open>Two values serialize to the same text.\<close>

definition same_json :: "jsval \<Rightarrow> jsval \<Rightarrow> bool" where
  "same_json v w \<longleftrightarrow> (\<exists>s. canonical_json v = Inr s \<and> canonical_json w = Inr s)"

lemma same_json_denotes:
  assumes "wf_jsval v" "wf_jsval w"
  shows "same_json v w \<longleftrightarrow> (\<exists>j. denotes v j \<and> denotes w j)"
proof
  assume "same_json v w"
  then obtain s where s: "canonical_json v = Inr s" "canonical_json w = Inr s" by (auto simp: same_json_def)
  from canonical_json_sound [OF assms(1) s(1)] canonical_json_sound [OF assms(2) s(2)]
  obtain i j where "denotes v i" "denotes w j" "print_json i = print_json j" "wf_json i" "wf_json j" by auto
  with print_inject [of i j] show "\<exists>j. denotes v j \<and> denotes w j" by auto
qed (use canonical_json_complete assms in \<open>auto simp: same_json_def\<close>)

lemma denotes_obj_lookup:
  assumes d: "denotes (obj kvs) (Obj kjs)" and wf: "distinct (map fst kvs)" and k: "map_of kvs k = Some v"
  shows "\<exists>j. map_of kjs k = Some j \<and> denotes v j"
proof -
  let ?ps = "map (\<lambda>(k, v). (PStr k, DData v True)) kvs"
  let ?ks = "sort (map fst kvs)"
  from d have l: "list_all2 (\<lambda>k kj. fst kj = k \<and> (\<exists>d. map_of ?ps (PStr k) = Some d \<and> denotes (desc_value d) (snd kj))) ?ks kjs"
    unfolding obj_def by (cases rule: denotes.cases) auto
  have keys: "map fst kjs = ?ks" using l by (auto simp: list_all2_conv_all_nth intro: nth_equalityI)
  have "k \<in> set ?ks" using k by (auto dest: map_of_SomeD intro: rev_image_eqI)
  then obtain n where n: "n < length ?ks" "?ks ! n = k" by (metis in_set_conv_nth)
  then have kj: "fst (kjs ! n) = k" "denotes v (snd (kjs ! n))" "n < length kjs"
    using l k by (auto simp: list_all2_conv_all_nth)
  have "distinct (map fst kjs)" using keys wf by simp
  moreover have "(k, snd (kjs ! n)) \<in> set kjs" using kj by (metis nth_mem prod.collapse)
  ultimately have "map_of kjs k = Some (snd (kjs ! n))" by simp
  with kj(2) show ?thesis by blast
qed

lemma denotes_obj_inv: "denotes (obj kvs) j \<Longrightarrow> \<exists>kjs. j = Obj kjs"
  unfolding obj_def by (cases rule: denotes.cases) auto

lemma same_json_obj:
  assumes "same_json (obj kvs) (obj kws)" "wf_jsval (obj kvs)" "wf_jsval (obj kws)"
    and v: "map_of kvs k = Some v" and w: "map_of kws k = Some w"
  shows "same_json v w"
proof -
  obtain kjs where d: "denotes (obj kvs) (Obj kjs)" "denotes (obj kws) (Obj kjs)"
    using assms(1) unfolding same_json_denotes [OF assms(2,3)] using denotes_obj_inv by blast
  from denotes_obj_lookup [OF d(1) _ v] denotes_obj_lookup [OF d(2) _ w] assms(2,3)
  obtain j where "denotes v j" "denotes w j" by auto
  moreover have "wf_jsval v" "wf_jsval w"
    using assms(2,3) v w by (auto dest!: map_of_SomeD)
  ultimately show ?thesis by (auto simp: same_json_denotes)
qed

lemma denotes_inv [simp]:
  "denotes JNull j \<longleftrightarrow> j = Null"
  "denotes (JStr s) j \<longleftrightarrow> valid_unicode s \<and> j = Str s"
  "denotes (JNum (JInt n)) j \<longleftrightarrow> \<bar>n\<bar> \<le> max_safe \<and> j = Num n"
  "denotes (JBool b) j \<longleftrightarrow> j = Bool b"
  by (auto elim: denotes.cases intro: denotes.intros)

lemma same_json_base [simp]:
  "same_json JNull JNull"
  "same_json (JStr s) (JStr t) \<longleftrightarrow> valid_unicode s \<and> s = t"
  "same_json (jint m) (jint n) \<longleftrightarrow> \<bar>m\<bar> \<le> max_safe \<and> m = n"
  "\<not> same_json JNull (jint n)" "\<not> same_json (jint n) JNull"
  "\<not> same_json JNull (JStr s)" "\<not> same_json (JStr s) JNull"
  by (auto simp: same_json_denotes)

lemma irregular_index_props [simp]: "\<not> irregular_array (length vs) (index_props 0 vs)"
  by (auto simp: irregular_array_def Let_def)

lemma denotes_arr_iff: "denotes (arr vs) j \<longleftrightarrow> (\<exists>zs. j = Arr zs \<and> list_all2 denotes vs zs)"
proof -
  have get: "(\<exists>d. map_of (index_props 0 vs) (PStr (nat_text n)) = Some d \<and> denotes (desc_value d) z) \<longleftrightarrow> denotes (vs ! n) z"
    if "n < length vs" for n z
    using map_of_index_props_0 [OF that] by simp
  have "list_all2 (\<lambda>k j. \<exists>d. map_of (index_props 0 vs) (PStr k) = Some d \<and> denotes (desc_value d) j) (map nat_text [0..<length vs]) zs
      \<longleftrightarrow> list_all2 denotes vs zs" for zs
    using get by (auto simp: list_all2_conv_all_nth)
  then show ?thesis
    unfolding arr_def by (auto elim: denotes.cases intro: denotes_arr)
qed

lemma same_json_arr:
  assumes "wf_jsval (arr vs)" "wf_jsval (arr ws)"
  shows "same_json (arr vs) (arr ws) \<longleftrightarrow> list_all2 same_json vs ws"
proof -
  have "(\<exists>zs. list_all2 denotes vs zs \<and> list_all2 denotes ws zs) \<longleftrightarrow> list_all2 same_json vs ws"
    using assms
  proof (induction vs arbitrary: ws)
    case Nil
    then show ?case by (cases ws) auto
  next
    case (Cons v vs)
    show ?case
    proof (cases ws)
      case (Cons w us)
      with Cons.IH [of us] Cons.prems show ?thesis
        by (auto simp: list_all2_Cons1 list_all2_Cons2 same_json_denotes)
    qed (auto simp: list_all2_Cons1)
  qed
  then show ?thesis by (auto simp: same_json_denotes [OF assms] denotes_arr_iff)
qed


section \<open>parseCanonicalJson\<close>

text \<open>What the untyped \<open>input\<close> can be: a Buffer, a string, or anything else.\<close>

datatype raw_input = RawBuffer "byte list" | RawString jsstr | RawOther

definition rejected :: "jsstr \<Rightarrow> string \<Rightarrow> 'a result" where
  "rejected label m = Inl (js ''Canonical JSON rejected: '' @ label @ js m)"

definition decode_input :: "raw_input \<Rightarrow> int \<Rightarrow> jsstr \<Rightarrow> jsstr result" where
  "decode_input input max_bytes label =
     bindR (case input of
        RawBuffer bs \<Rightarrow>
          (if bs = [] \<or> max_bytes < int (length bs) then rejected label '' is missing or exceeds the supported size''
           else (let text = utf8_decode bs in
                 if utf8 text \<noteq> bs then rejected label '' is not valid UTF-8'' else Inr text))
      | RawString s \<Rightarrow>
          (if s = [] \<or> max_bytes < int (byte_length s) then rejected label '' is missing or exceeds the supported size''
           else Inr s)
      | RawOther \<Rightarrow> rejected label '' is missing or exceeds the supported size'')
     (\<lambda>text. case assert_valid_unicode text of
                Inl _ \<Rightarrow> rejected label '' contains invalid Unicode''
              | Inr _ \<Rightarrow> Inr text)"

definition parse_canonical_json :: "raw_input \<Rightarrow> int \<Rightarrow> jsstr \<Rightarrow> jsval result" where
  "parse_canonical_json input max_bytes label =
     (if \<not> is_safe_integer (JInt max_bytes) \<or> max_bytes \<le> 0
      then throw ''Canonical JSON rejected: invalid parser byte limit''
      else bindR (decode_input input max_bytes label) (\<lambda>text.
        case json_parse text of
          None \<Rightarrow> rejected label '' is not valid JSON''
        | Some parsed \<Rightarrow>
            (case canonical_json parsed of
               Inl _ \<Rightarrow> rejected label '' contains unsupported JSON values''
             | Inr canonical \<Rightarrow>
                 (if canonical \<noteq> text then rejected label '' is not canonical JSON (including duplicate keys)''
                  else Inr parsed))))"

text \<open>The bytes an input stands for.\<close>

fun input_bytes :: "raw_input \<Rightarrow> byte list" where
  "input_bytes (RawBuffer bs) = bs"
| "input_bytes (RawString s) = utf8 s"
| "input_bytes RawOther = []"

lemma rejected_neq [simp]: "rejected l m \<noteq> Inr x"
  by (simp add: rejected_def)

lemma decode_input_sound:
  "decode_input input m l = Inr t \<Longrightarrow> valid_unicode t \<and> input_bytes input = utf8 t \<and> int (length (utf8 t)) \<le> m \<and> t \<noteq> []"
  by (auto simp: decode_input_def bindR_eq_Inr Let_def byte_length_def valid_unicode_def
      split: raw_input.splits if_splits sum.splits)

lemma decode_input_string:
  "valid_unicode t \<Longrightarrow> t \<noteq> [] \<Longrightarrow> int (byte_length t) \<le> m \<Longrightarrow> decode_input (RawString t) m l = Inr t"
  by (simp add: decode_input_def valid_unicode_def)

lemma utf8_eq_Nil [simp]: "utf8 t = [] \<longleftrightarrow> t = []"
  by (cases t rule: utf8.cases) (auto simp: utf8_unit_def utf8_pair_def Let_def)

lemma decode_input_buffer:
  "valid_unicode t \<Longrightarrow> t \<noteq> [] \<Longrightarrow> int (byte_length t) \<le> m \<Longrightarrow> decode_input (RawBuffer (utf8 t)) m l = Inr t"
  by (simp add: decode_input_def valid_unicode_def byte_length_def utf8_decode_encode [unfolded valid_unicode_def] Let_def)

section \<open>Printed trees are valid Unicode and canonical\<close>

lemma valid_unicode_append: "valid_unicode s \<Longrightarrow> valid_unicode (s @ t) \<longleftrightarrow> valid_unicode t"
proof (induction s rule: assert_valid_unicode.induct)
  case (2 c s)
  then show ?case by (cases s) (auto simp: valid_unicode_Cons split: if_splits)
qed simp

lemma valid_unicode_Nil [simp]: "valid_unicode []"
  by (simp add: valid_unicode_def)

definition is_basic :: "code_unit \<Rightarrow> bool" where
  "is_basic c \<longleftrightarrow> \<not> is_high c \<and> \<not> is_low c"

lemma valid_unicode_basic: "list_all is_basic s \<Longrightarrow> valid_unicode s"
  by (induction s) (auto simp: valid_unicode_Cons is_basic_def)

lemma valid_unicode_Cons_basic [simp]: "is_basic c \<Longrightarrow> valid_unicode (c # s) \<longleftrightarrow> valid_unicode s"
  by (simp add: valid_unicode_Cons is_basic_def)

lemma is_basic_less: "unat c < 0x80 \<Longrightarrow> is_basic c"
  by (simp add: is_basic_def high_unat low_unat)

lemma is_basic_js_char [simp]: "is_basic (js_char c)"
proof -
  have "unat (js_char c) < 256" unfolding unat_js_char by (rule of_char_less)
  then show ?thesis by (auto simp: is_basic_def high_unat low_unat)
qed

lemma is_basic_digit: "is_digit c \<Longrightarrow> is_basic c"
  by (rule is_basic_less) (simp add: is_digit_unat)

lemma valid_unicode_js [simp]: "valid_unicode (js s)"
  by (rule valid_unicode_basic) (simp add: js_def list_all_iff)

lemma valid_unicode_nat_text [simp]: "valid_unicode (nat_text n)"
  using nat_text_digits [of n]
  by (intro valid_unicode_basic) (auto simp: list_all_iff intro: is_basic_digit)

lemma valid_unicode_int_text [simp]: "valid_unicode (int_text n)"
  by (simp add: int_text_def valid_unicode_append)

lemma is_basic_punct [simp]:
  "is_basic 34" "is_basic 44" "is_basic 58" "is_basic 91" "is_basic 93" "is_basic 123" "is_basic 125" "is_basic 92"
  by (simp_all add: is_basic_def is_high_def is_low_def)

lemma is_basic_hex_char: "d < 16 \<Longrightarrow> is_basic (hex_char d)"
  by (rule is_basic_less) (simp add: unat_hex_char)

lemma valid_unicode_quote_unit:
  assumes "is_basic c"
  shows "list_all is_basic (quote_unit c)"
proof -
  have "unat c div 0x1000 < 16"
    using unat_unit_less [of c] by (simp add: less_mult_imp_div_less)
  then have "list_all is_basic (u_escape c)"
    by (simp add: u_escape_def Let_def is_basic_hex_char is_basic_less)
  with assms show ?thesis by (auto simp: quote_unit_def is_basic_less)
qed

lemma valid_unicode_quote_body: "valid_unicode s \<Longrightarrow> valid_unicode (quote_body s)"
proof (induction s rule: quote_body.induct)
  case (2 c s)
  show ?case
  proof (cases "is_high c")
    case True
    with "2.prems" obtain d u where "s = d # u" "is_low d" "valid_unicode u"
      by (auto simp: valid_unicode_Cons split: list.splits)
    with True "2.IH"(1) show ?thesis by (simp add: valid_unicode_Cons)
  next
    case False
    with "2.prems" have c: "\<not> is_low c" "valid_unicode s" by (auto simp: valid_unicode_Cons)
    with False have "valid_unicode (quote_unit c)"
      by (intro valid_unicode_basic valid_unicode_quote_unit) (simp add: is_basic_def)
    with False c "2.IH"(4) show ?thesis by (simp add: valid_unicode_append)
  qed
qed simp

lemma valid_unicode_quote [simp]: "valid_unicode s \<Longrightarrow> valid_unicode (json_quote s @ t) \<longleftrightarrow> valid_unicode t"
  by (simp add: json_quote_def valid_unicode_append valid_unicode_quote_body)

lemma valid_unicode_join:
  "valid_unicode sep \<Longrightarrow> \<forall>t \<in> set ts. valid_unicode t \<Longrightarrow> valid_unicode (join sep ts)"
  by (induction sep ts rule: join.induct) (simp_all add: valid_unicode_append)

lemma denotes_valid_print: "denotes v j \<Longrightarrow> valid_unicode (print_json j)"
proof (induction rule: denotes.induct)
  case (denotes_arr n ps vs)
  have "valid_unicode (join [44] (map print_json vs))"
  proof (rule valid_unicode_join)
    show "\<forall>t \<in> set (map print_json vs). valid_unicode t"
      using denotes_arr.IH by (auto simp: list_all2_conv_all_nth in_set_conv_nth)
  qed simp
  then show ?case by (simp add: valid_unicode_append)
next
  case (denotes_obj p ps kjs)
  have key: "valid_unicode (fst kj)" "valid_unicode (print_json (snd kj))" if kj: "kj \<in> set kjs" for kj
  proof -
    from kj obtain n where n: "n < length kjs" "kjs ! n = kj" by (auto simp: in_set_conv_nth)
    with denotes_obj.IH obtain d where d: "map_of ps (PStr (fst kj)) = Some d" "valid_unicode (print_json (snd kj))"
      by (auto simp: list_all2_conv_all_nth)
    with denotes_obj.hyps(2) show "valid_unicode (fst kj)" "valid_unicode (print_json (snd kj))"
      by (auto simp: list_all_iff plain_member_def dest!: map_of_SomeD)
  qed
  have "valid_unicode (join [44] (map member_text kjs))"
    by (rule valid_unicode_join) (use key in \<open>auto simp: case_prod_beta\<close>)
  then show ?case by (simp add: valid_unicode_append)
next
  case (denotes_str s)
  then show ?case using valid_unicode_quote [of s "[]"] by simp
qed simp_all

lemma print_json_nonempty [simp]: "print_json j \<noteq> []"
  using print_head [of j] by auto

lemma denotes_of_json: "denotes v j \<Longrightarrow> wf_jsval v \<Longrightarrow> denotes (of_json j) j"
proof (induction rule: denotes.induct)
  case (denotes_arr n ps vs)
  have "list_all2 denotes (map of_json vs) vs"
    using denotes_arr by (force simp: list_all2_conv_all_nth dest: map_of_wf)
  then show ?case by (simp add: denotes_arr_iff)
next
  case (denotes_obj p ps kjs)
  have keys: "map fst kjs = sort (object_keys ps)"
    using denotes_obj.IH by (auto simp: list_all2_conv_all_nth intro: nth_equalityI)
  have dist: "distinct (map fst kjs)" using keys denotes_obj.prems by (simp add: distinct_object_keys)
  have each: "valid_unicode (fst kj) \<and> denotes (of_json (snd kj)) (snd kj) \<and> of_json (snd kj) \<noteq> JUndef" if kj: "kj \<in> set kjs" for kj
  proof -
    from kj obtain n where n: "n < length kjs" "kjs ! n = kj" by (auto simp: in_set_conv_nth)
    with denotes_obj.IH obtain d where d: "map_of ps (PStr (fst kj)) = Some d"
      "wf_jsval (desc_value d) \<Longrightarrow> denotes (of_json (snd kj)) (snd kj)"
      by (auto simp: list_all2_conv_all_nth)
    moreover have "wf_jsval (desc_value d)" using d(1) denotes_obj.prems by (intro map_of_wf) auto
    moreover have "valid_unicode (fst kj)"
      using d(1) denotes_obj.hyps(2) by (auto simp: list_all_iff plain_member_def dest!: map_of_SomeD)
    moreover have "of_json (snd kj) \<noteq> JUndef" by (cases "snd kj") (simp_all add: obj_def arr_def)
    ultimately show ?thesis by simp
  qed
  let ?ms = "map member_of kjs"
  let ?ps = "map (\<lambda>(k, v). (PStr k, DData v True)) ?ms"
  have "object_keys ?ps = map fst ?ms" by (rule object_keys_plain)
  then have ok: "object_keys ?ps = map fst kjs" by (simp add: comp_def case_prod_beta del: map_map) (simp add: comp_def case_prod_beta)
  have look: "map_of ?ps (PStr (fst kj)) = Some (DData (of_json (snd kj)) True)" if "kj \<in> set kjs" for kj
  proof -
    have "map_of ?ms (fst kj) = Some (of_json (snd kj))"
      using that dist by (intro map_of_is_SomeI) (auto simp: comp_def case_prod_beta intro: rev_image_eqI)
    then show ?thesis by (simp del: map_map)
  qed
  have "denotes (JObj ObjectProto ?ps) (Obj kjs)"
  proof (rule denotes.denotes_obj)
    show "list_all plain_member ?ps"
      using each by (auto simp: list_all_iff plain_member_def)
    have "sort (object_keys ?ps) = map fst kjs"
      unfolding ok keys by (simp add: sorted_sort_id)
    then show "list_all2 (\<lambda>k kj. fst kj = k \<and> (\<exists>d. map_of ?ps (PStr k) = Some d \<and> denotes (desc_value d) (snd kj)))
        (sort (object_keys ?ps)) kjs"
      using each look by (auto simp: list_all2_conv_all_nth simp del: map_map)
  qed simp
  then show ?case by (simp add: obj_def)
qed (auto intro: denotes.intros)

lemma canonical_text_valid:
  "wf_jsval v \<Longrightarrow> canonical_json v = Inr s \<Longrightarrow> valid_unicode s"
  using canonical_json_sound [of v s] denotes_valid_print by auto

end
