(* ===== verification/Digest.thy ===== *)
theory Digest
  imports CanonicalJson
begin

text \<open>
  Digests. The hash function of \<open>node:crypto\<close> is an argument, a function from bytes to
  bytes; what the code relies on is that a SHA-256 value has 32 bytes (\<open>hash32\<close>). The
  hexadecimal text and the \<open>sha256:\<close> prefix are the code's own, as is the digest of a
  canonical value (\<open>canonicalSha256\<close> of owner-authorization.ts).
\<close>

type_synonym hash = "byte list \<Rightarrow> byte list"

definition hash32 :: "hash \<Rightarrow> bool" where
  "hash32 h \<longleftrightarrow> (\<forall>bs. length (h bs) = 32)"

definition hex_byte :: "byte \<Rightarrow> jsstr" where
  "hex_byte b = [hex_char (unat b div 16), hex_char (unat b mod 16)]"

definition hex_of :: "byte list \<Rightarrow> jsstr" where
  "hex_of bs = concat (map hex_byte bs)"

text \<open>\<open>createHash("sha256").update(bytes).digest("hex")\<close>, and the prefixed form.\<close>

definition sha256_hex :: "hash \<Rightarrow> byte list \<Rightarrow> jsstr" where
  "sha256_hex h bs = hex_of (h bs)"

definition sha256 :: "hash \<Rightarrow> byte list \<Rightarrow> jsstr" where
  "sha256 h bs = js ''sha256:'' @ sha256_hex h bs"

definition canonical_sha256 :: "hash \<Rightarrow> jsval \<Rightarrow> jsstr result" where
  "canonical_sha256 h v = bindR (canonical_json v) (\<lambda>t. Inr (sha256 h (utf8 t)))"

section \<open>Lemmas\<close>

lemma is_hex_hex_char: "d < 16 \<Longrightarrow> is_hex (hex_char d)"
  using unat_hex_char [of d] by (auto simp: is_hex_def is_digit_unat word_le_nat_alt split: if_splits)

lemma hex_byte_hex: "c \<in> set (hex_byte b) \<Longrightarrow> is_hex c"
  using unat_byte_less [of b] by (auto simp: hex_byte_def intro!: is_hex_hex_char)

lemma hex_of_hex: "c \<in> set (hex_of bs) \<Longrightarrow> is_hex c"
  by (auto simp: hex_of_def dest: hex_byte_hex)

lemma length_hex_of [simp]: "length (hex_of bs) = 2 * length bs"
  by (induction bs) (auto simp: hex_of_def hex_byte_def)

lemma sha256_hex_n: "hash32 h \<Longrightarrow> hex_n 64 (sha256_hex h bs)"
  by (auto simp: hex_n_def sha256_hex_def hash32_def list_all_iff intro: hex_of_hex)

lemma sha256_is_digest: "hash32 h \<Longrightarrow> is_digest (sha256 h bs)"
  using sha256_hex_n [of h bs] by (simp add: is_digest_def sha256_def starts_with_def)

lemma hex_char_inject: "d < 16 \<Longrightarrow> e < 16 \<Longrightarrow> hex_char d = hex_char e \<longleftrightarrow> d = e"
  using hex_value_char by (metis option.inject)

lemma hex_byte_inject [simp]: "hex_byte a = hex_byte b \<longleftrightarrow> a = b"
proof
  assume "hex_byte a = hex_byte b"
  then have "unat a div 16 = unat b div 16" "unat a mod 16 = unat b mod 16"
    using unat_byte_less [of a] unat_byte_less [of b] by (auto simp: hex_byte_def hex_char_inject)
  then have "unat a = unat b" by (metis div_mult_mod_eq)
  then show "a = b" by (rule word_unat_eq_iff [THEN iffD2])
qed simp

lemma hex_of_inject [simp]: "hex_of a = hex_of b \<longleftrightarrow> a = b"
proof (induction a arbitrary: b)
  case Nil
  then show ?case by (cases b) (auto simp: hex_of_def hex_byte_def)
next
  case (Cons x a)
  then show ?case
    by (cases b) (auto simp: hex_of_def hex_byte_def simp flip: hex_byte_inject)
qed

lemma sha256_inject: "sha256 h a = sha256 h b \<longleftrightarrow> h a = h b"
  by (simp add: sha256_def sha256_hex_def)

text \<open>A concrete hash for evaluation: the first 32 bytes, padded with the length.\<close>

definition sample_hash :: hash where
  "sample_hash bs = take 32 (bs @ replicate 32 (of_nat (length bs)))"

lemma hash32_sample: "hash32 sample_hash"
  by (auto simp: hash32_def sample_hash_def min_def)

end
