(* ===== verification/Repository.thy ===== *)
theory Repository
  imports Digest
begin

text \<open>
  packages/app/src/repository-validation.ts and repository.ts: the validators of repository
  slugs and branch names, the clone arguments built from them, and the content-addressed
  migration branch (\<open>defaultMigrationBranch\<close>, \<open>resolveMigrationBranch\<close>). The lemmas show
  what an accepted slug or branch cannot contain, and that the generated branch is always
  acceptable.
\<close>

section \<open>repository-validation.ts\<close>

record slug_parts =
  sl_owner :: jsstr
  sl_repo :: jsstr
  sl_slug :: jsstr

text \<open>\<open>OWNER\<close> and \<open>REPOSITORY\<close>.\<close>

definition owner_re :: "jsstr \<Rightarrow> bool" where
  "owner_re s \<longleftrightarrow> (case s of [] \<Rightarrow> False | c # cs \<Rightarrow>
     is_alnum c \<and> (cs = [] \<or> (length cs \<le> 38 \<and> list_all (\<lambda>d. is_alnum d \<or> d = 45) (butlast cs) \<and> is_alnum (last cs))))"

definition repository_re :: "jsstr \<Rightarrow> bool" where
  "repository_re s \<longleftrightarrow> 1 \<le> length s \<and> length s \<le> 100 \<and> list_all (\<lambda>c. is_alnum c \<or> in_class ''_.-'' c) s"

definition validate_repository_slug :: "jsval \<Rightarrow> slug_parts result" where
  "validate_repository_slug value =
     (case value of
        JStr v \<Rightarrow>
          (if length v = 0 \<or> v \<noteq> trim v then throw ''Repository must be an exact owner/repo slug''
           else (case split_on 47 v of
             [owner, repo] \<Rightarrow>
               (if \<not> owner_re owner \<or> has_sub (js ''--'') owner
                then throw ''Repository owner contains unsupported characters''
                else if \<not> repository_re repo \<or> repo = js ''.'' \<or> repo = js ''..'' \<or> ends_with (js ''.git'') repo
                then throw ''Repository name contains unsupported characters''
                else Inr \<lparr>sl_owner = owner, sl_repo = repo, sl_slug = owner @ js ''/'' @ repo\<rparr>)
           | _ \<Rightarrow> throw ''Repository must be an exact owner/repo slug''))
      | _ \<Rightarrow> throw ''Repository must be an exact owner/repo slug'')"

definition canonical_github_repository_slug :: "jsval \<Rightarrow> jsstr result" where
  "canonical_github_repository_slug value =
     bindR (validate_repository_slug value) (\<lambda>p. Inr (to_lower (sl_slug p)))"

text \<open>The class \<open>[\x00-\x20\x7f~^:?*[\\]\<close>.\<close>

definition branch_forbidden :: "code_unit \<Rightarrow> bool" where
  "branch_forbidden c \<longleftrightarrow> c \<le> 0x20 \<or> c = 0x7F \<or> in_class (CHR 0x5C # ''~^:?*['') c"

definition validate_repository_branch :: "jsval \<Rightarrow> jsstr result" where
  "validate_repository_branch value =
     (case value of
        JStr v \<Rightarrow>
          (if length v = 0 \<or> 240 < length v \<or> v \<noteq> trim v \<or> v = js ''@''
              \<or> starts_with (js ''-'') v \<or> starts_with (js ''/'') v \<or> ends_with (js ''/'') v
              \<or> ends_with (js ''.'') v \<or> ends_with (js ''.lock'') v
              \<or> has_sub (js ''..'') v \<or> has_sub (js [CHR 0x40, CHR 0x7B]) v \<or> list_ex branch_forbidden v
              \<or> list_ex (\<lambda>part. length part = 0 \<or> starts_with (js ''.'') part \<or> ends_with (js ''.'') part) (split_on 47 v)
           then throw ''Invalid git branch name'' else Inr v)
      | _ \<Rightarrow> throw ''Invalid git branch name'')"

section \<open>repository.ts\<close>

definition parse_repository_slug :: "jsstr \<Rightarrow> slug_parts result" where
  "parse_repository_slug v = validate_repository_slug (JStr v)"

definition validate_branch_name :: "jsstr \<Rightarrow> jsstr result" where
  "validate_branch_name v = validate_repository_branch (JStr v)"

definition github_clone_url :: "slug_parts \<Rightarrow> jsstr" where
  "github_clone_url r = js ''https://github.com/'' @ sl_owner r @ js ''/'' @ sl_repo r @ js ''.git''"

definition github_clone_args :: "slug_parts \<Rightarrow> jsstr \<Rightarrow> jsstr list result" where
  "github_clone_args r base =
     bindR (validate_branch_name base) (\<lambda>b.
       Inr [js ''clone'', js ''--depth'', js ''1'', js ''--single-branch'', js ''--branch'', b, github_clone_url r, js ''repo''])"

definition github_default_clone_args :: "slug_parts \<Rightarrow> jsstr list" where
  "github_default_clone_args r =
     [js ''clone'', js ''--depth'', js ''1'', js ''--single-branch'', github_clone_url r, js ''repo'']"

text \<open>
  \<open>stableStringify\<close>. \<open>other_number\<close> is the text of a Number that is not a safe integer
  (\<open>JOtherNum\<close> does not say which), and a cyclic value exhausts the stack. Holes of an array
  are skipped by \<open>map\<close> and joined as empty text.
\<close>

fun stable_stringify :: "jsstr \<Rightarrow> jsval \<Rightarrow> jsstr result" where
  "stable_stringify on (JArr n ps) =
     bindR (mapR (\<lambda>k. case map_of ps (PStr k) of None \<Rightarrow> Inr [] | Some d \<Rightarrow> stable_stringify on (desc_value d))
              (map nat_text [0..<n]))
       (\<lambda>ts. Inr (91 # join [44] ts @ [93]))"
| "stable_stringify on (JObj p ps) =
     bindR (mapR (\<lambda>k. case map_of ps (PStr k) of
                        None \<Rightarrow> throw ''unreachable: a key of the object''
                      | Some d \<Rightarrow> bindR (stable_stringify on (desc_value d)) (\<lambda>t. Inr (json_quote k @ 58 # t)))
              (sort (object_keys ps)))
       (\<lambda>ts. Inr (123 # join [44] ts @ [125]))"
| "stable_stringify on (JStr s) = Inr (json_quote s)"
| "stable_stringify on (JBool b) = Inr (if b then js ''true'' else js ''false'')"
| "stable_stringify on JNull = Inr (js ''null'')"
| "stable_stringify on JUndef = Inr (js ''null'')"
| "stable_stringify on JOther = Inr (js ''null'')"
| "stable_stringify on (JNum x) = Inr (case x of JInt n \<Rightarrow> int_text n | JNegZero \<Rightarrow> js ''0'' | JOtherNum \<Rightarrow> on)"
| "stable_stringify on JAncestor = throw ''Maximum call stack size exceeded''"

definition is_slug_char :: "code_unit \<Rightarrow> bool" where
  "is_slug_char c \<longleftrightarrow> is_lower c \<or> is_digit c"

lemma dropWhile_shorter [termination_simp]: "length (dropWhile P s) < Suc (length s)"
  by (simp add: le_imp_less_Suc length_dropWhile_le)

text \<open>\<open>replace(/[^a-z0-9]+/g, "-")\<close>.\<close>

fun squeeze :: "jsstr \<Rightarrow> jsstr" where
  "squeeze [] = []"
| "squeeze (c # s) = (if is_slug_char c then c # squeeze s else 45 # squeeze (dropWhile (\<lambda>d. \<not> is_slug_char d) s))"

definition trim_dashes :: "jsstr \<Rightarrow> jsstr" where
  "trim_dashes s = rev (dropWhile (\<lambda>c. c = 45) (rev (dropWhile (\<lambda>c. c = 45) s)))"

definition slugify :: "jsstr \<Rightarrow> jsstr" where
  "slugify v = (let normalized = take 80 (trim_dashes (squeeze (to_lower v))) in
     if normalized = [] then js ''migration'' else normalized)"

text \<open>The manifest: its validated JSON value, with the two strings the label uses.\<close>

record manifest =
  mf_value :: jsval
  mf_provider :: jsstr
  mf_transform_set :: jsstr

definition branch_subject :: "manifest \<Rightarrow> jsstr \<Rightarrow> jsstr \<Rightarrow> jsstr \<Rightarrow> jsval" where
  "branch_subject m base base_sha artifact =
     obj [(js ''manifest'', mf_value m), (js ''baseBranch'', JStr base), (js ''baseSha'', JStr base_sha),
          (js ''artifactDigest'', JStr artifact)]"

definition default_migration_branch :: "hash \<Rightarrow> jsstr \<Rightarrow> manifest \<Rightarrow> jsstr \<Rightarrow> jsstr \<Rightarrow> jsstr \<Rightarrow> jsstr result" where
  "default_migration_branch h on m base base_sha artifact =
     (if \<not> is_git_sha base_sha then throw ''Invalid base commit id for migration branch''
      else if \<not> hex_n 64 artifact then throw ''Invalid artifact digest for migration branch''
      else bindR (validate_branch_name base) (\<lambda>b.
        bindR (stable_stringify on (branch_subject m b base_sha artifact)) (\<lambda>t.
          validate_branch_name (js ''codex/api-migrator/'' @ slugify (mf_provider m @ js ''-'' @ mf_transform_set m)
            @ js ''-'' @ sha256_hex h (utf8 t)))))"

definition resolve_migration_branch ::
  "hash \<Rightarrow> jsstr \<Rightarrow> manifest \<Rightarrow> jsstr \<Rightarrow> jsstr \<Rightarrow> jsstr \<Rightarrow> jsstr option \<Rightarrow> jsstr result" where
  "resolve_migration_branch h on m base_branch base_sha artifact override =
     bindR (validate_branch_name base_branch) (\<lambda>base.
     bindR (default_migration_branch h on m base base_sha artifact) (\<lambda>expected.
     thenR (case override of
              None \<Rightarrow> Inr ()
            | Some v \<Rightarrow> bindR (validate_branch_name v) (\<lambda>w.
                if w \<noteq> expected then Inl (js ''Migration branch override must equal the owned branch '' @ expected) else Inr ()))
     (if expected = base then throw ''Migration branch must not equal the base branch''
      else Inr expected)))"

section \<open>Substrings, prefixes and parts\<close>

lemma starts_with_set: "starts_with p s \<Longrightarrow> set p \<subseteq> set s"
  unfolding starts_with_def by (metis set_take_subset)

lemma ends_with_set: "ends_with p s \<Longrightarrow> set p \<subseteq> set s"
  unfolding ends_with_def by (metis set_drop_subset)

lemma ends_with_single: "ends_with [c] s \<longleftrightarrow> s \<noteq> [] \<and> last s = c"
  by (cases s rule: rev_cases) (auto simp: ends_with_def)

lemma has_sub_set: "has_sub p s \<Longrightarrow> set p \<subseteq> set s"
  by (induction s) (use starts_with_set in fastforce)+

lemma split_on_not_Nil [simp]: "split_on d s \<noteq> []"
  by (cases s) (auto split: list.splits)

lemma split_on_join: "join [d] (split_on d s) = s"
proof (induction s)
  case (Cons c s)
  then show ?case
    by (cases "split_on d s") (auto simp: join_Cons split: list.splits)
qed simp

lemma split_on_no_sep: "p \<in> set (split_on d s) \<Longrightarrow> d \<notin> set p"
  by (induction s arbitrary: p) (auto split: list.splits if_splits)

lemma split_on_absent: "d \<notin> set s \<Longrightarrow> split_on d s = [s]"
  by (induction s) auto

lemma split_on_append: "d \<notin> set p \<Longrightarrow> split_on d (p @ d # s) = p # split_on d s"
  by (induction p) auto

lemma trim_id: "s \<noteq> [] \<Longrightarrow> \<not> is_space (hd s) \<Longrightarrow> \<not> is_space (last s) \<Longrightarrow> trim s = s"
  by (simp add: trim_def dropWhile_eq_self_iff [THEN iffD2] hd_rev)

lemma trim_no_space: "list_all (\<lambda>c. \<not> is_space c) s \<Longrightarrow> trim s = s"
  by (cases "s = []") (simp add: trim_def, simp add: trim_id list_all_iff)

section \<open>Accepted slugs and branches\<close>

lemma validate_slug_eq:
  "validate_repository_slug (JStr v) = Inr p \<longleftrightarrow>
     v \<noteq> [] \<and> v = trim v \<and> (\<exists>owner repo. split_on 47 v = [owner, repo] \<and> owner_re owner \<and> \<not> has_sub (js ''--'') owner
       \<and> repository_re repo \<and> repo \<noteq> js ''.'' \<and> repo \<noteq> js ''..'' \<and> \<not> ends_with (js ''.git'') repo
       \<and> p = \<lparr>sl_owner = owner, sl_repo = repo, sl_slug = v\<rparr>)"
proof -
  have slug: "owner @ js ''/'' @ repo = v" if "split_on 47 v = [owner, repo]" for owner repo
    using split_on_join [of 47 v] that by (simp add: js_def js_char_def)
  show ?thesis
    unfolding validate_repository_slug_def
    by (auto simp: slug throw_def split: list.splits)
qed

lemma validate_slug_string: "validate_repository_slug value = Inr p \<Longrightarrow> value = JStr (sl_slug p)"
proof (cases "value")
  case (JStr v)
  then show "validate_repository_slug value = Inr p \<Longrightarrow> value = JStr (sl_slug p)"
    by (auto simp: validate_slug_eq)
qed (simp_all add: validate_repository_slug_def throw_def)

lemma validate_branch_eq:
  "validate_branch_name v = Inr w \<longleftrightarrow> w = v \<and> is_ok (validate_branch_name v)"
  by (auto simp: validate_branch_name_def validate_repository_branch_def throw_def is_ok_def)

lemma validate_branch_allowed:
  assumes "is_ok (validate_branch_name v)" "c \<in> set v"
  shows "\<not> branch_forbidden c"
proof -
  have "\<not> list_ex branch_forbidden v"
    using assms(1) by (auto simp: validate_branch_name_def validate_repository_branch_def throw_def is_ok_def split: if_splits)
  with assms(2) show ?thesis by (auto simp: list_ex_iff)
qed

lemma branch_forbidden_code [simp]:
  "branch_forbidden 0" "branch_forbidden 10" "branch_forbidden 13" "branch_forbidden 32" "branch_forbidden 58" "branch_forbidden 92"
  by (simp_all add: branch_forbidden_def in_class_def js_def js_char_def)

text \<open>Text over the alphabet of the generated branch.\<close>

definition branch_char :: "code_unit \<Rightarrow> bool" where
  "branch_char c \<longleftrightarrow> is_slug_char c \<or> c = 45 \<or> c = 47"

lemma branch_char_unat: "branch_char c \<Longrightarrow> unat c \<in> {45, 47} \<union> {48..57} \<union> {97..122}"
  by (auto simp: branch_char_def is_slug_char_def is_lower_def is_digit_def word_le_nat_alt)

lemma branch_char_plain:
  assumes "branch_char c"
  shows "\<not> is_space c" "\<not> branch_forbidden c" "c \<noteq> 46" "c \<noteq> 64"
  using branch_char_unat [OF assms]
  by (auto simp: is_space_def branch_forbidden_def in_class_def js_def js_char_def word_le_nat_alt word_unat_eq_iff)

lemma is_hex_slug: "is_hex c \<Longrightarrow> is_slug_char c"
  by (auto simp: is_hex_def is_slug_char_def is_lower_def word_le_nat_alt)

lemma squeeze_chars: "c \<in> set (squeeze s) \<Longrightarrow> is_slug_char c \<or> c = 45"
  by (induction s rule: squeeze.induct) (auto split: if_splits)

lemma slugify_chars: "c \<in> set (slugify v) \<Longrightarrow> is_slug_char c \<or> c = 45"
proof -
  have "is_slug_char c \<or> c = 45" if "c \<in> set (js ''migration'')"
    using that by (auto simp: js_def js_char_def is_slug_char_def is_lower_def word_le_nat_alt)
  moreover have "set (trim_dashes (squeeze t)) \<subseteq> set (squeeze t)" for t
    by (auto simp: trim_dashes_def dest!: set_dropWhileD)
  ultimately show "c \<in> set (slugify v) \<Longrightarrow> is_slug_char c \<or> c = 45"
    using squeeze_chars by (auto simp: slugify_def Let_def dest!: in_set_takeD split: if_splits)
qed

lemma slugify_bounds: "slugify v \<noteq> []" "length (slugify v) \<le> 80"
  by (simp_all add: slugify_def Let_def)

section \<open>The migration branch\<close>

text \<open>On values the canonical serializer accepts, \<open>stableStringify\<close> prints the same text.\<close>

lemma stable_canonical: "canonical_json v = Inr t \<Longrightarrow> stable_stringify on v = Inr t"
proof (induction v arbitrary: t rule: canonical_json.induct)
  case (8 n ps)
  then obtain ts where ts: "\<not> irregular_array n ps"
    "mapR (\<lambda>k. case map_of ps (PStr k) of None \<Rightarrow> throw ''unreachable: an index of a dense array''
                            | Some d \<Rightarrow> canonical_json (desc_value d)) (map nat_text [0..<n]) = Inr ts"
    "t = 91 # join [44] ts @ [93]"
    by (auto simp: bindR_eq_Inr split: if_splits)
  have "mapR (\<lambda>k. case map_of ps (PStr k) of None \<Rightarrow> Inr [] | Some d \<Rightarrow> stable_stringify on (desc_value d))
      (map nat_text [0..<n]) = Inr ts"
    using ts(2) by (rule mapR_transfer) (use 8(1) ts(1) in \<open>auto split: option.splits\<close>)
  with ts(3) show ?case by simp
next
  case (9 p ps)
  let ?keys = "sort (object_keys ps)"
  from 9(2) obtain ts where ts: "p \<noteq> OtherProto" "\<not> (length (own_keys ps) \<noteq> length ?keys \<or> \<not> has_all_keys (own_keys ps) ?keys)"
    "check_members ps ?keys = Inr ()"
    "mapR (\<lambda>k. case map_of ps (PStr k) of None \<Rightarrow> throw ''unreachable: a key of the object''
      | Some d \<Rightarrow> bindR (canonical_json (desc_value d)) (\<lambda>t. Inr (json_quote k @ 58 # t))) ?keys = Inr ts"
    "t = 123 # join [44] ts @ [125]"
    by (auto simp: bindR_eq_Inr thenR_eq_Inr Let_def split: if_splits)
  have "mapR (\<lambda>k. case map_of ps (PStr k) of None \<Rightarrow> throw ''unreachable: a key of the object''
      | Some d \<Rightarrow> bindR (stable_stringify on (desc_value d)) (\<lambda>t. Inr (json_quote k @ 58 # t))) ?keys = Inr ts"
    using ts(4) by (rule mapR_transfer)
      (use 9(1) [OF ts(1) refl ts(2)] ts(3) in \<open>auto simp: bindR_eq_Inr split: option.splits\<close>)
  with ts(5) show ?case by simp
qed (auto simp: thenR_eq_Inr split: jsnum.splits if_splits)

definition branch_prefix :: jsstr where
  "branch_prefix = js ''codex/api-migrator/''"

definition branch_label :: "manifest \<Rightarrow> jsstr" where
  "branch_label m = slugify (mf_provider m @ js ''-'' @ mf_transform_set m)"

lemma generated_branch_ok:
  assumes "label \<noteq> []" "length label \<le> 80" "\<And>c. c \<in> set label \<Longrightarrow> is_slug_char c \<or> c = 45" "hex_n 64 digest"
  shows "validate_branch_name (branch_prefix @ label @ js ''-'' @ digest) = Inr (branch_prefix @ label @ js ''-'' @ digest)"
proof -
  let ?v = "branch_prefix @ label @ js ''-'' @ digest"
  let ?tail = "label @ js ''-'' @ digest"
  have prefix: "branch_prefix = js ''codex'' @ 47 # js ''api-migrator'' @ [47]"
    by (simp add: branch_prefix_def js_def js_char_def)
  have tail: "is_slug_char c \<or> c = 45" if "c \<in> set ?tail" for c
    using that assms(3,4) by (auto simp: hex_n_def list_all_iff js_def js_char_def intro: is_hex_slug)
  have chars: "branch_char c" if "c \<in> set ?v" for c
    using that tail [of c] by (auto simp: branch_char_def prefix js_def js_char_def is_slug_char_def is_lower_def word_le_nat_alt)
  note plain = branch_char_plain [OF chars]
  have tail47: "47 \<notin> set ?tail"
    using tail [of 47] by (auto simp: is_slug_char_def is_lower_def is_digit_def)
  have split: "split_on 47 ?v = [js ''codex'', js ''api-migrator'', ?tail]"
  proof -
    have v: "?v = js ''codex'' @ 47 # (js ''api-migrator'' @ 47 # ?tail)" by (simp add: prefix)
    have "47 \<notin> set (js ''codex'')" "47 \<notin> set (js ''api-migrator'')" by (simp_all add: js_def js_char_def)
    note parts = this [THEN split_on_append]
    show ?thesis unfolding v parts split_on_absent [OF tail47] ..
  qed
  have dot: "46 \<notin> set ?v" "64 \<notin> set ?v" using plain by blast+
  have len: "length ?v \<le> 240" using assms(2,4) by (simp add: prefix hex_n_def)
  have "trim ?v = ?v" using plain by (intro trim_no_space) (auto simp: list_all_iff)
  moreover have "\<not> list_ex branch_forbidden ?v" using plain by (auto simp: list_ex_iff)
  moreover have "\<not> starts_with (js ''-'') ?v" "\<not> starts_with (js ''/'') ?v"
    by (simp_all add: prefix starts_with_def js_def js_char_def)
  moreover have "\<not> ends_with (js ''/'') ?v"
  proof
    assume "ends_with (js ''/'') ?v"
    then have "last ?v = 47" by (simp add: js_def js_char_def ends_with_single)
    moreover have "last ?v \<in> set digest" using assms(4) by (auto simp: hex_n_def last_append)
    ultimately show False using tail47 by simp
  qed
  moreover have "\<not> ends_with (js ''.'') ?v" "\<not> ends_with (js ''.lock'') ?v" "\<not> has_sub (js ''..'') ?v" "\<not> has_sub (js [CHR 0x40, CHR 0x7B]) ?v"
    using dot by (auto dest!: ends_with_set has_sub_set simp: js_def js_char_def)
  moreover have "\<not> list_ex (\<lambda>part. length part = 0 \<or> starts_with (js ''.'') part \<or> ends_with (js ''.'') part) (split_on 47 ?v)"
  proof -
    have "46 \<notin> set part \<and> part \<noteq> []" if "part \<in> set (split_on 47 ?v)" for part
      using that dot assms(1) unfolding split by (auto simp: js_def js_char_def)
    then show ?thesis by (auto simp: list_ex_iff js_def js_char_def dest!: starts_with_set ends_with_set)
  qed
  ultimately show ?thesis
    using len assms(1) unfolding validate_branch_name_def validate_repository_branch_def by (simp add: prefix js_def)
qed

lemma default_branch_value:
  assumes "hash32 h" "is_git_sha base_sha" "hex_n 64 artifact" "is_ok (validate_branch_name base)"
    and "stable_stringify on (branch_subject m base base_sha artifact) = Inr t"
  shows "default_migration_branch h on m base base_sha artifact =
    Inr (branch_prefix @ branch_label m @ js ''-'' @ sha256_hex h (utf8 t))"
proof -
  have "validate_branch_name base = Inr base" using assms(4) by (simp add: validate_branch_eq)
  moreover have "validate_branch_name (branch_prefix @ branch_label m @ js ''-'' @ sha256_hex h (utf8 t)) =
      Inr (branch_prefix @ branch_label m @ js ''-'' @ sha256_hex h (utf8 t))"
    unfolding branch_label_def
    by (rule generated_branch_ok) (use assms(1) in \<open>auto simp: slugify_bounds sha256_hex_n dest: slugify_chars\<close>)
  ultimately show ?thesis
    using assms by (simp add: default_migration_branch_def branch_prefix_def branch_label_def)
qed

lemma default_branch_ok:
  assumes "default_migration_branch h on m base base_sha artifact = Inr b"
  shows "is_ok (validate_branch_name base)" "is_ok (validate_branch_name b)"
proof -
  from assms obtain b0 t s where "validate_branch_name base = Inr b0" "validate_branch_name s = Inr b"
    unfolding default_migration_branch_def by (auto simp: bindR_eq_Inr split: if_splits)
  then show "is_ok (validate_branch_name base)" "is_ok (validate_branch_name b)"
    using validate_branch_eq [of s b] by auto
qed

lemma branch_subject_wf: "wf_jsval (mf_value m) \<Longrightarrow> wf_jsval (branch_subject m base base_sha artifact)"
  by (simp add: branch_subject_def)

lemma branch_subject_inject:
  assumes "wf_jsval (mf_value m)" "wf_jsval (mf_value m')"
    and "canonical_json (branch_subject m b s a) = Inr t" "canonical_json (branch_subject m' b' s' a') = Inr t"
  shows "same_json (mf_value m) (mf_value m') \<and> b = b' \<and> s = s' \<and> a = a'"
proof -
  have same: "same_json (branch_subject m b s a) (branch_subject m' b' s' a')"
    using assms(3,4) by (auto simp: same_json_def)
  note field = same_json_obj [OF same [unfolded branch_subject_def] branch_subject_wf [OF assms(1), unfolded branch_subject_def]
      branch_subject_wf [OF assms(2), unfolded branch_subject_def]]
  have "same_json (mf_value m) (mf_value m')" by (rule field [of "js ''manifest''"]) simp_all
  moreover have "same_json (JStr b) (JStr b')" by (rule field [of "js ''baseBranch''"]) simp_all
  moreover have "same_json (JStr s) (JStr s')" by (rule field [of "js ''baseSha''"]) simp_all
  moreover have "same_json (JStr a) (JStr a')" by (rule field [of "js ''artifactDigest''"]) simp_all
  ultimately show ?thesis by simp
qed

section \<open>Properties\<close>

definition sample_manifest :: manifest where
  "sample_manifest = \<lparr>mf_value = obj [(js ''version'', jint 1)], mf_provider = js ''Inngest'', mf_transform_set = js ''v3 to v4''\<rparr>"

definition sample_sha :: jsstr where "sample_sha = replicate 40 97"
definition sample_artifact :: jsstr where "sample_artifact = replicate 64 98"

text \<open>C40: \<open>defaultMigrationBranch\<close> never fails on checked inputs: for a valid base branch, commit id and
  artifact digest, whatever the provider and transform-set names of the manifest are, it returns
  \<open>codex/api-migrator/<label>-<digest>\<close>, and this name passes the branch validation.\<close>

theorem default_branch_total:
  assumes "hash32 h" "is_git_sha base_sha" "hex_n 64 artifact" "is_ok (validate_branch_name base)"
    and "stable_stringify on (branch_subject m base base_sha artifact) = Inr t"
  shows "\<exists>b. default_migration_branch h on m base base_sha artifact = Inr b \<and> validate_branch_name b = Inr b \<and>
    b = branch_prefix @ branch_label m @ js ''-'' @ sha256_hex h (utf8 t) \<and> length b \<le> 164"
proof -
  let ?b = "branch_prefix @ branch_label m @ js ''-'' @ sha256_hex h (utf8 t)"
  have "validate_branch_name ?b = Inr ?b" unfolding branch_label_def
    by (rule generated_branch_ok) (use assms(1) in \<open>auto simp: slugify_bounds sha256_hex_n dest: slugify_chars\<close>)
  moreover have "length ?b \<le> 164"
    using assms(1) slugify_bounds(2) by (simp add: branch_prefix_def branch_label_def sha256_hex_def hash32_def)
  ultimately show ?thesis using default_branch_value [OF assms] by blast
qed

lemma default_branch_total_witness:
  "\<exists>t b. default_migration_branch sample_hash [] sample_manifest (js ''main'') sample_sha sample_artifact = Inr b \<and>
    validate_branch_name b = Inr b \<and>
    b = branch_prefix @ branch_label sample_manifest @ js ''-'' @ sha256_hex sample_hash (utf8 t) \<and> length b \<le> 164"
proof -
  have "is_git_sha sample_sha" "hex_n 64 sample_artifact" "is_ok (validate_branch_name (js ''main''))" by code_simp+
  moreover have "is_ok (stable_stringify [] (branch_subject sample_manifest (js ''main'') sample_sha sample_artifact))"
    by code_simp
  then obtain t where "stable_stringify [] (branch_subject sample_manifest (js ''main'') sample_sha sample_artifact) = Inr t"
    by (auto simp: is_ok_iff)
  ultimately show ?thesis using default_branch_total [OF hash32_sample] by blast
qed

text \<open>C18: the branch is content-addressed: two approved inputs that get the same migration branch have colliding
  hashes, or are the same manifest, base branch, base commit and artifact digest.\<close>

theorem migration_branch_content_addressed:
  assumes "hash32 h" "wf_jsval (mf_value m)" "wf_jsval (mf_value m')"
    and "canonical_json (branch_subject m base base_sha artifact) = Inr t"
    and "canonical_json (branch_subject m' base' base_sha' artifact') = Inr t'"
    and "default_migration_branch h on m base base_sha artifact = Inr b"
    and "default_migration_branch h on m' base' base_sha' artifact' = Inr b"
  shows "h (utf8 t) = h (utf8 t') \<and>
    (utf8 t = utf8 t' \<longrightarrow> same_json (mf_value m) (mf_value m') \<and> base = base' \<and> base_sha = base_sha' \<and> artifact = artifact')"
proof -
  have form: "b = branch_prefix @ branch_label n @ js ''-'' @ sha256_hex h (utf8 u)"
    if "default_migration_branch h on n bs sha art = Inr b" "canonical_json (branch_subject n bs sha art) = Inr u" for n bs sha art u
  proof -
    from that(1) have "is_git_sha sha" "hex_n 64 art"
      by (auto simp: default_migration_branch_def split: if_splits)
    from default_branch_value [OF assms(1) this default_branch_ok(1) [OF that(1)] stable_canonical [OF that(2)]] that(1) show ?thesis by simp
  qed
  from form [OF assms(6,4)] form [OF assms(7,5)]
  have "(branch_prefix @ branch_label m @ js ''-'') @ sha256_hex h (utf8 t) =
      (branch_prefix @ branch_label m' @ js ''-'') @ sha256_hex h (utf8 t')" by simp
  moreover have "length (sha256_hex h (utf8 t)) = length (sha256_hex h (utf8 t'))"
    using sha256_hex_n [OF assms(1)] by (simp add: hex_n_def)
  ultimately have "h (utf8 t) = h (utf8 t')" by (simp add: append_eq_append_conv sha256_hex_def)
  moreover have "same_json (mf_value m) (mf_value m') \<and> base = base' \<and> base_sha = base_sha' \<and> artifact = artifact'"
    if "utf8 t = utf8 t'"
  proof (rule branch_subject_inject [OF assms(2,3,4)])
    have "valid_unicode t" "valid_unicode t'"
      using canonical_text_valid [OF branch_subject_wf [OF assms(2)] assms(4)] canonical_text_valid [OF branch_subject_wf [OF assms(3)] assms(5)]
      by simp_all
    with that have "t = t'" by (simp add: utf8_inject)
    with assms(5) show "canonical_json (branch_subject m' base' base_sha' artifact') = Inr t" by simp
  qed
  ultimately show ?thesis by simp
qed

lemma migration_branch_content_addressed_witness:
  "\<exists>t b. canonical_json (branch_subject sample_manifest (js ''main'') sample_sha sample_artifact) = Inr t \<and>
    default_migration_branch sample_hash [] sample_manifest (js ''main'') sample_sha sample_artifact = Inr b \<and>
    (utf8 t = utf8 t \<longrightarrow> same_json (mf_value sample_manifest) (mf_value sample_manifest))"
proof -
  have wf: "wf_jsval (mf_value sample_manifest)" by (simp add: sample_manifest_def)
  have "is_ok (canonical_json (branch_subject sample_manifest (js ''main'') sample_sha sample_artifact))" by code_simp
  then obtain t where t: "canonical_json (branch_subject sample_manifest (js ''main'') sample_sha sample_artifact) = Inr t"
    by (auto simp: is_ok_iff)
  have "is_git_sha sample_sha" "hex_n 64 sample_artifact" "is_ok (validate_branch_name (js ''main''))" by code_simp+
  from default_branch_value [OF hash32_sample this stable_canonical [OF t]]
  obtain b where b: "default_migration_branch sample_hash [] sample_manifest (js ''main'') sample_sha sample_artifact = Inr b" by blast
  from migration_branch_content_addressed [OF hash32_sample wf wf t t b b] t b show ?thesis by blast
qed

text \<open>\<open>resolveMigrationBranch\<close> returns exactly the content-addressed branch, never the base branch, and
  accepts an override only when it names that branch.\<close>

theorem resolve_branch_iff:
  "resolve_migration_branch h on m base base_sha artifact override = Inr b \<longleftrightarrow>
     default_migration_branch h on m base base_sha artifact = Inr b \<and> b \<noteq> base \<and>
     (override = None \<or> override = Some b)"
proof (cases "is_ok (validate_branch_name base)")
  case True
  then have base: "validate_branch_name base = Inr base" by (simp add: validate_branch_eq)
  show ?thesis
  proof (cases "default_migration_branch h on m base base_sha artifact")
    case (Inr d)
    note d = validate_branch_eq [of d d] default_branch_ok [OF Inr]
    show ?thesis
    proof (cases override)
      case None
      then show ?thesis by (auto simp: resolve_migration_branch_def base Inr)
    next
      case (Some v)
      have "bindR (validate_branch_name v) (\<lambda>w. if w \<noteq> d then Inl e else Inr ()) = Inr () \<longleftrightarrow> v = d" for e
        using d by (auto simp: bindR_eq_Inr validate_branch_eq [of v] split: if_splits)
      then show ?thesis
        unfolding resolve_migration_branch_def by (auto simp: base Inr Some thenR_eq_Inr)
    qed
  qed (simp add: resolve_migration_branch_def base)
next
  case False
  then have "default_migration_branch h on m base base_sha artifact \<noteq> Inr b"
    using default_branch_ok by blast
  moreover have "resolve_migration_branch h on m base base_sha artifact override \<noteq> Inr b"
    using False by (auto simp: resolve_migration_branch_def bindR_eq_Inr is_ok_iff)
  ultimately show ?thesis by blast
qed

text \<open>The canonical repository slug is the lower-case owner/repo pair and canonical again, except when
  lowering exposes a \<open>.git\<close> suffix: the suffix check of \<open>validateRepositorySlug\<close> is case-sensitive, so
  \<open>a/b.GIT\<close> is accepted and its canonical slug \<open>a/b.git\<close> is one the same validator rejects.\<close>

theorem canonical_slug_git_suffix:
  "canonical_github_repository_slug (JStr (js ''a/b.GIT'')) = Inr (js ''a/b.git'') \<and>
   \<not> is_ok (canonical_github_repository_slug (JStr (js ''a/b.git''))) \<and>
   canonical_github_repository_slug (JStr (js ''a/B.js'')) = Inr (js ''a/b.js'')"
  by code_simp

end
