(* ===== verification/CanonicalContract.thy ===== *)
theory CanonicalContract
  imports CanonicalJson
begin

text \<open>
  The contract of canonical-json.ts: the fuel of the \<open>JSON.parse\<close> model never runs out, the
  serializer and the strict parser invert each other, and the canonical text determines the
  value. The interface \<open>canonical_codec\<close> is what the modules that hash or sign
  canonical text rely on.
\<close>

section \<open>The parser consumes its input, so its fuel suffices\<close>

lemma skip_ws_length: "length (skip_ws s) \<le> length s"
  by (simp add: skip_ws_def length_dropWhile_le)

lemma skip_ws_Cons_length: "skip_ws s = c # r \<Longrightarrow> length r < length s"
  using skip_ws_length [of s] by simp

lemma parse_str_length: "parse_str s = Some (t, r) \<Longrightarrow> length r < length s"
proof (induction s arbitrary: t rule: parse_str.induct)
  case (2 c s)
  show ?case
  proof (cases "c = 34 \<or> c \<noteq> 92")
    case True
    with 2 show ?thesis by (fastforce simp: push_eq_Some split: if_splits)
  next
    case False
    then obtain e s1 where s: "s = e # s1" "c = 92" using 2 by (cases s) auto
    show ?thesis
    proof (cases "e = 117")
      case True
      with 2(4) s obtain h1 h2 h3 h4 s2 u v where p: "s1 = h1 # h2 # h3 # h4 # s2" "hex4 h1 h2 h3 h4 = Some u"
        "parse_str s2 = Some (v, r)"
        by (auto simp: push_eq_Some split: list.splits option.splits)
      from 2(1) [of e s1] p s True show ?thesis by fastforce
    next
      case e: False
      with 2(4) s obtain u v where p: "simple_escape e = Some u" "parse_str s1 = Some (v, r)"
        by (auto simp: push_eq_Some split: list.splits option.splits)
      from 2(2) [of e s1] p s e show ?thesis by fastforce
    qed
  qed
qed simp

lemma digits_shorter: "takeWhile is_digit s \<noteq> [] \<Longrightarrow> length (dropWhile is_digit s) < length s"
  by (cases s) (auto simp: length_dropWhile_le le_imp_less_Suc split: if_splits)

lemma parse_exponent_length: "parse_exponent s = Some (e, r) \<Longrightarrow> length r \<le> length s"
  using length_dropWhile_le [of is_digit s] length_dropWhile_le [of is_digit "tl s"]
  by (auto simp: parse_exponent_def Let_def split: if_splits)

lemma parse_number_length:
  assumes "parse_number s = Some (n, r)"
  shows "length r < length s"
proof -
  define s1 where "s1 = (if starts_with (js ''-'') s then tl s else s)"
  define s2 where "s2 = dropWhile is_digit s1"
  define s3 where "s3 = dropWhile is_digit (tl s2)"
  have ds: "takeWhile is_digit s1 \<noteq> []"
    using assms by (auto simp: parse_number_def Let_def s1_def [symmetric] split: if_splits)
  have s2: "length s2 < length s"
    using digits_shorter [OF ds] by (auto simp: s2_def s1_def split: if_splits)
  have s3: "length s3 \<le> length s2"
    using length_dropWhile_le [of is_digit "tl s2"] by (simp add: s3_def)
  have "r = s2 \<or> r = s3 \<or> (\<exists>e. parse_exponent (tl s3) = Some (e, r)) \<or> (\<exists>e. parse_exponent (tl s2) = Some (e, r))"
    using assms ds by (auto simp: parse_number_def Let_def s1_def [symmetric] s2_def [symmetric] s3_def [symmetric] split: if_splits)
  with s2 s3 show ?thesis by (auto dest!: parse_exponent_length)
qed

lemma parse_shorter:
  "parse_value f s = Some (v, r) \<Longrightarrow> length r < length s"
  "parse_elements f s = Some (vs, r) \<Longrightarrow> length r < length s"
  "parse_members f s = Some (kvs, r) \<Longrightarrow> length r < length s"
proof (induction f s and f s and f s arbitrary: v r and vs r and kvs r rule: parse_value_parse_elements_parse_members.induct)
  case (2 f s)
  from "2.prems" obtain c r0 where c: "skip_ws s = c # r0" by (auto split: list.splits)
  have len: "length r0 < length s" using c by (rule skip_ws_Cons_length)
  consider (obj) "c = 123" | (array) "c = 91" | (other) "c \<noteq> 123" "c \<noteq> 91" by blast
  then show ?case
  proof cases
    case obj
    with "2.prems" c obtain d r1 where d: "skip_ws r0 = d # r1" by (auto split: list.splits)
    have "length r1 < length r0" using d by (rule skip_ws_Cons_length)
    with "2.prems" "2.IH"(1) [OF c obj d] c d obj len show ?thesis by (auto split: if_splits)
  next
    case array
    with "2.prems" c obtain d r1 where d: "skip_ws r0 = d # r1" by (auto split: list.splits)
    have "length r1 < length r0" using d by (rule skip_ws_Cons_length)
    with "2.prems" "2.IH"(2) [OF c _ array d] c d array len show ?thesis by (auto split: if_splits)
  next
    case other
    with "2.prems" c len skip_ws_length [of s] show ?thesis
      by (auto split: if_splits dest!: parse_str_length parse_number_length)
  qed
next
  case (4 f s)
  from "4.prems" obtain w r1 d r2 where w: "parse_value f s = Some (w, r1)" "skip_ws r1 = d # r2"
    and tail: "(if d = 44 then push w (parse_elements f r2) else if d = 93 then Some ([w], r2) else None) = Some (vs, r)"
    by (auto split: option.splits list.splits)
  have "length r1 < length s" using w(1) by (rule "4.IH"(1))
  moreover have "length r2 < length r1" using w(2) by (rule skip_ws_Cons_length)
  ultimately show ?case
    using tail "4.IH"(2) [OF w(1) refl w(2)] by (auto simp: push_eq_Some split: if_splits)
next
  case (6 f s)
  from "6.prems" obtain c r0 k r1 d r2 w r3 e r4 where c: "skip_ws s = c # r0" "\<not> c \<noteq> 34" and k: "parse_str r0 = Some (k, r1)"
    and d: "skip_ws r1 = d # r2" "\<not> d \<noteq> 58" and w: "parse_value f r2 = Some (w, r3)" and e: "skip_ws r3 = e # r4"
    and tail: "(if e = 44 then push (k, w) (parse_members f r4) else if e = 125 then Some ([(k, w)], r4) else None) = Some (kvs, r)"
    by (auto split: option.splits list.splits if_splits)
  have "length r4 < length s"
    using skip_ws_Cons_length [OF c(1)] parse_str_length [OF k] skip_ws_Cons_length [OF d(1)]
      "6.IH"(1) [OF c k refl d w] skip_ws_Cons_length [OF e] by linarith
  with tail "6.IH"(2) [OF c k refl d w refl e] show ?case
    by (auto simp: push_eq_Some split: if_splits)
qed simp_all

lemma parse_fuel_Suc:
  "2 * length s < f \<Longrightarrow> parse_value (Suc f) s = parse_value f s"
  "2 * length s + 1 < f \<Longrightarrow> parse_elements (Suc f) s = parse_elements f s"
  "2 * length s < f \<Longrightarrow> parse_members (Suc f) s = parse_members f s"
proof (induction f s and f s and f s rule: parse_value_parse_elements_parse_members.induct)
  case (2 f s)
  show ?case
  proof (cases "skip_ws s")
    case (Cons c r0)
    note c = skip_ws_Cons_length [OF Cons]
    show ?thesis
    proof (cases "skip_ws r0")
      case Nil
      then show ?thesis by (simp add: Cons)
    next
      case d: (Cons d r1)
      have "length (d # r1) < length s" using skip_ws_length [of r0] c unfolding d by simp
      then have fuel: "2 * length (d # r1) < f" "2 * length (d # r1) + 1 < f" using "2.prems" by simp_all
      with "2.IH"(1) [OF Cons _ d] "2.IH"(2) [OF Cons _ _ d]
      show ?thesis
        by (subst (1 2) parse_value.simps) (auto simp: Cons d simp del: parse_value.simps parse_elements.simps parse_members.simps)
    qed
  qed simp
next
  case (4 f s)
  have f: "2 * length s < f" using "4.prems" by simp
  note v = "4.IH"(1) [OF f]
  show ?case
  proof (cases "parse_value f s")
    case (Some p)
    obtain w r where p: "p = (w, r)" by force
    note r = parse_shorter(1) [OF Some [unfolded p]]
    show ?thesis
    proof (cases "skip_ws r")
      case Nil
      then show ?thesis using v Some p by (simp del: parse_value.simps)
    next
      case d: (Cons d r1)
      have "2 * length r1 + 1 < f" using skip_ws_Cons_length [OF d] r f by simp
      from "4.IH"(2) [OF Some p [symmetric] d _ this] show ?thesis
        using v Some p d by (subst (1 2) parse_elements.simps) (simp del: parse_value.simps parse_elements.simps)
    qed
  qed (use v in \<open>simp del: parse_value.simps\<close>)
next
  case (6 f s)
  show ?case
  proof (cases "\<exists>c r0 k r1 d r2. skip_ws s = c # r0 \<and> c = 34 \<and> parse_str r0 = Some (k, r1) \<and> skip_ws r1 = d # r2 \<and> d = 58")
    case True
    then obtain c r0 k r1 d r2 where c: "skip_ws s = c # r0" "\<not> c \<noteq> 34" and k: "parse_str r0 = Some (k, r1)"
      and d: "skip_ws r1 = d # r2" "\<not> d \<noteq> 58" by blast
    have r2: "length r2 < length s"
      using skip_ws_Cons_length [OF c(1)] parse_str_length [OF k] skip_ws_Cons_length [OF d(1)] by linarith
    then have f: "2 * length r2 < f" using "6.prems" by simp
    note v = "6.IH"(1) [OF c k refl d f]
    show ?thesis
    proof (cases "parse_value f r2")
      case None
      then show ?thesis using v c d k by (simp del: parse_value.simps)
    next
      case (Some p)
      obtain w r3 where p: "p = (w, r3)" by force
      note r3 = parse_shorter(1) [OF Some [unfolded p]]
      show ?thesis
      proof (cases "skip_ws r3")
        case Nil
        then show ?thesis using v Some p c d k by (simp del: parse_value.simps)
      next
        case e: (Cons e r4)
        have "2 * length r4 < f" using skip_ws_Cons_length [OF e] r3 f by simp
        from "6.IH"(2) [OF c k refl d Some p [symmetric] e _ this] show ?thesis
          using v Some p c d k e by (subst (1 2) parse_members.simps) (simp del: parse_value.simps parse_members.simps)
      qed
    qed
  next
    case False
    then show ?thesis
      by (subst (1 2) parse_members.simps) (auto simp del: parse_value.simps parse_members.simps split: list.splits option.splits)
  qed
qed simp_all

lemma parse_value_fuel:
  assumes "2 * length s < f"
  shows "parse_value f s = parse_value (Suc (2 * length s)) s"
  using Suc_leI [OF assms]
proof (induction rule: dec_induct)
  case (step n)
  then have "parse_value (Suc n) s = parse_value n s" by (intro parse_fuel_Suc(1)) simp
  with step.IH show ?case by simp
qed simp


section \<open>The interface\<close>

text \<open>
  A canonical codec: \<open>decode\<close> accepts exactly the texts \<open>encode\<close> prints (within a size limit),
  and hands back a value that prints as the text it was read from.
\<close>

locale canonical_codec =
  fixes encode :: "'v \<Rightarrow> jsstr result"
    and decode :: "jsstr \<Rightarrow> 'v result"
    and wf :: "'v \<Rightarrow> bool"
    and fits :: "jsstr \<Rightarrow> bool"
  assumes decode_encode: "decode s = Inr v \<Longrightarrow> encode v = Inr s"
    and decode_wf: "decode s = Inr v \<Longrightarrow> wf v"
    and decode_fits: "decode s = Inr v \<Longrightarrow> fits s"
    and encode_decode: "wf v \<Longrightarrow> encode v = Inr s \<Longrightarrow> fits s \<Longrightarrow> \<exists>w. decode s = Inr w \<and> encode w = Inr s"
begin

lemma decode_inject: "decode s = Inr v \<Longrightarrow> decode t = Inr v \<Longrightarrow> s = t"
  using decode_encode [of s v] decode_encode [of t v] by simp

lemma decode_iff: "(\<exists>v. decode s = Inr v) \<longleftrightarrow> fits s \<and> (\<exists>v. wf v \<and> encode v = Inr s)"
  using decode_encode decode_wf decode_fits encode_decode by blast

lemma equal_text:
  "decode s = Inr v \<Longrightarrow> decode t = Inr w \<Longrightarrow> encode v = encode w \<longleftrightarrow> s = t"
  by (auto dest!: decode_encode)

end

lemma parse_canonical_parses:
  assumes "wf_jsval v" "canonical_json v = Inr s"
  shows "\<exists>w. json_parse s = Some w \<and> wf_jsval w \<and> canonical_json w = Inr s \<and> valid_unicode s \<and> s \<noteq> []"
proof -
  from canonical_json_sound [OF assms] obtain j where j: "denotes v j" "s = print_json j" "wf_json j" by auto
  have parse: "json_parse s = Some (of_json j)" using j json_parse_print by simp
  moreover have wf: "wf_jsval (of_json j)" using parse by (rule json_parse_wf)
  moreover have "canonical_json (of_json j) = Inr s"
    using canonical_json_complete [OF denotes_of_json [OF j(1) assms(1)] wf] j by simp
  moreover have "valid_unicode s" "s \<noteq> []" using j denotes_valid_print by auto
  ultimately show ?thesis by blast
qed

lemma parse_canonical_eq:
  "parse_canonical_json input m label = Inr v \<longleftrightarrow>
     is_safe_integer (JInt m) \<and> 0 < m \<and>
     (\<exists>t. decode_input input m label = Inr t \<and> json_parse t = Some v \<and> canonical_json v = Inr t)"
proof -
  have *: "(case json_parse t of None \<Rightarrow> rejected label '' is not valid JSON''
      | Some parsed \<Rightarrow> (case canonical_json parsed of
           Inl _ \<Rightarrow> rejected label '' contains unsupported JSON values''
         | Inr canonical \<Rightarrow> (if canonical \<noteq> t then rejected label '' is not canonical JSON (including duplicate keys)''
             else Inr parsed))) = Inr v \<longleftrightarrow> json_parse t = Some v \<and> canonical_json v = Inr t" for t
    by (cases "json_parse t") (auto split: sum.splits)
  show ?thesis
    unfolding parse_canonical_json_def by (auto simp: bindR_eq_Inr *)
qed

definition limit_ok :: "int \<Rightarrow> bool" where
  "limit_ok m \<longleftrightarrow> is_safe_integer (JInt m) \<and> 0 < m"

definition text_fits :: "int \<Rightarrow> jsstr \<Rightarrow> bool" where
  "text_fits m s \<longleftrightarrow> limit_ok m \<and> int (byte_length s) \<le> m"

lemma parse_canonical_accepts:
  assumes "wf_jsval v" "canonical_json v = Inr s" "limit_ok m" "int (byte_length s) \<le> m"
    and "input = RawString s \<or> input = RawBuffer (utf8 s)"
  shows "\<exists>w. parse_canonical_json input m label = Inr w \<and> canonical_json w = Inr s"
proof -
  from parse_canonical_parses [OF assms(1,2)] obtain w where w: "json_parse s = Some w" "canonical_json w = Inr s"
    "valid_unicode s" "s \<noteq> []" by blast
  with assms(4,5) have "decode_input input m label = Inr s"
    using decode_input_string decode_input_buffer by blast
  with w assms(3) show ?thesis by (auto simp: parse_canonical_eq limit_ok_def)
qed

lemma parse_canonical_sound:
  assumes "parse_canonical_json input m label = Inr v"
  shows "\<exists>t. canonical_json v = Inr t \<and> input_bytes input = utf8 t \<and> int (byte_length t) \<le> m \<and> wf_jsval v \<and> limit_ok m"
  using assms by (auto simp: parse_canonical_eq limit_ok_def byte_length_def dest: decode_input_sound intro: json_parse_wf)

text \<open>The inputs that are accepted are the printed trees.\<close>

lemma decode_input_cases:
  "decode_input input m label = Inr t \<Longrightarrow> input = RawString t \<or> input = RawBuffer (utf8 t)"
  by (auto simp: decode_input_def bindR_eq_Inr Let_def split: raw_input.splits if_splits sum.splits)

lemma accepted_printed:
  assumes "parse_canonical_json input m label = Inr v"
  shows "limit_ok m \<and> (\<exists>j. wf_json j \<and> denotes (of_json j) j \<and> v = of_json j \<and> int (byte_length (print_json j)) \<le> m
    \<and> (input = RawString (print_json j) \<or> input = RawBuffer (utf8 (print_json j))))"
proof -
  from assms obtain t where t: "decode_input input m label = Inr t" "json_parse t = Some v" "canonical_json v = Inr t" "limit_ok m"
    unfolding parse_canonical_eq limit_ok_def by blast
  have wf: "wf_jsval v" by (rule json_parse_wf [OF t(2)])
  from canonical_json_sound [OF wf t(3)] obtain j where j: "denotes v j" "t = print_json j" "wf_json j" by blast
  have "v = of_json j" using t(2) json_parse_print [OF j(3)] j(2) by simp
  moreover have "int (byte_length t) \<le> m" using decode_input_sound [OF t(1)] by (simp add: byte_length_def)
  ultimately show ?thesis using denotes_of_json [OF j(1) wf] j decode_input_cases [OF t(1)] t(4) by auto
qed

lemma printed_parsed:
  assumes "denotes (of_json j) j" "wf_json j" "limit_ok m" "int (byte_length (print_json j)) \<le> m"
    and "input = RawString (print_json j) \<or> input = RawBuffer (utf8 (print_json j))"
  shows "parse_canonical_json input m label = Inr (of_json j)"
proof -
  have parse: "json_parse (print_json j) = Some (of_json j)" by (rule json_parse_print [OF assms(2)])
  have print: "canonical_json (of_json j) = Inr (print_json j)" by (rule canonical_json_complete [OF assms(1) json_parse_wf [OF parse]])
  have printed: "valid_unicode (print_json j)" "print_json j \<noteq> []" using denotes_valid_print [OF assms(1)] by simp_all
  have "decode_input input m label = Inr (print_json j)" using assms(4,5) printed decode_input_string decode_input_buffer by blast
  with parse print assms(3) show ?thesis unfolding parse_canonical_eq limit_ok_def by blast
qed

lemma parse_canonical_string_sound:
  "parse_canonical_json (RawString s) m label = Inr v \<Longrightarrow> canonical_json v = Inr s"
  by (auto simp: parse_canonical_eq decode_input_def bindR_eq_Inr split: if_splits sum.splits)

interpretation canonical: canonical_codec canonical_json "\<lambda>s. parse_canonical_json (RawString s) m label" wf_jsval "text_fits m"
  for m label
proof
  show "canonical_json v = Inr s" if "parse_canonical_json (RawString s) m label = Inr v" for s v
    using that by (rule parse_canonical_string_sound)
  show "wf_jsval v" if "parse_canonical_json (RawString s) m label = Inr v" for s v
    using parse_canonical_sound [OF that] by blast
  show "text_fits m s" if "parse_canonical_json (RawString s) m label = Inr v" for s v
    using parse_canonical_sound [OF that] parse_canonical_string_sound [OF that] by (auto simp: text_fits_def)
  show "\<exists>w. parse_canonical_json (RawString s) m label = Inr w \<and> canonical_json w = Inr s"
    if "wf_jsval v" "canonical_json v = Inr s" "text_fits m s" for v s
    using parse_canonical_accepts [OF that(1,2)] that(3) by (auto simp: text_fits_def)
qed

section \<open>Object and array literals\<close>

text \<open>How an object literal with distinct, valid member names serializes.\<close>

definition literal_keys :: "(jsstr \<times> jsval) list \<Rightarrow> bool" where
  "literal_keys kvs \<longleftrightarrow> distinct (map fst kvs) \<and> list_all valid_unicode (map fst kvs)"

lemma map_of_literal: "distinct (map fst kvs) \<Longrightarrow> k \<in> set (map fst kvs) \<Longrightarrow> \<exists>v. map_of kvs k = Some v \<and> (k, v) \<in> set kvs"
  by (auto simp: map_of_eq_Some_iff)

lemma check_members_obj:
  assumes "list_all valid_unicode ks" "\<forall>k \<in> set ks. \<exists>v. map_of kvs k = Some v \<and> v \<noteq> JUndef"
  shows "check_members (map (\<lambda>(k, v). (PStr k, DData v True)) kvs) ks = Inr ()"
  using assms by (induction ks) (auto simp: valid_unicode_def)

lemma canonical_obj:
  assumes "literal_keys kvs" "list_all (\<lambda>v. v \<noteq> JUndef) (map snd kvs)"
  shows "canonical_json (obj kvs) =
    bindR (mapR (\<lambda>k. bindR (canonical_json (the (map_of kvs k))) (\<lambda>t. Inr (json_quote k @ 58 # t))) (sort (map fst kvs)))
      (\<lambda>ts. Inr (123 # join [44] ts @ [125]))"
proof -
  let ?ps = "map (\<lambda>(k, v). (PStr k, DData v True)) kvs"
  have dist: "distinct (map fst kvs)" using assms(1) by (simp add: literal_keys_def)
  have look: "\<exists>v. map_of kvs k = Some v \<and> v \<noteq> JUndef" if "k \<in> set (sort (map fst kvs))" for k
  proof -
    from that obtain v where v: "map_of kvs k = Some v" "(k, v) \<in> set kvs" using map_of_literal [OF dist, of k] by auto
    then show ?thesis using assms(2) by (auto simp: list_all_iff)
  qed
  have members: "check_members ?ps (sort (map fst kvs)) = Inr ()"
    using assms(1) look by (intro check_members_obj) (auto simp: literal_keys_def list_all_iff)
  have keys: "\<not> (length (own_keys ?ps) \<noteq> length (sort (object_keys ?ps)) \<or> \<not> has_all_keys (own_keys ?ps) (sort (object_keys ?ps)))"
    by (auto simp: has_all_keys_def)
  have "mapR (\<lambda>k. case map_of ?ps (PStr k) of None \<Rightarrow> throw ''unreachable: a key of the object''
      | Some d \<Rightarrow> bindR (canonical_json (desc_value d)) (\<lambda>t. Inr (json_quote k @ 58 # t))) (sort (map fst kvs))
    = mapR (\<lambda>k. bindR (canonical_json (the (map_of kvs k))) (\<lambda>t. Inr (json_quote k @ 58 # t))) (sort (map fst kvs))"
  proof (rule mapR_cong [OF refl])
    fix k assume "k \<in> set (sort (map fst kvs))"
    then obtain v where "map_of kvs k = Some v" using look by blast
    then show "(case map_of ?ps (PStr k) of None \<Rightarrow> throw ''unreachable: a key of the object''
      | Some d \<Rightarrow> bindR (canonical_json (desc_value d)) (\<lambda>t. Inr (json_quote k @ 58 # t)))
      = bindR (canonical_json (the (map_of kvs k))) (\<lambda>t. Inr (json_quote k @ 58 # t))" by simp
  qed
  with members keys show ?thesis
    by (simp add: obj_def Let_def)
qed

lemma canonical_obj_ok:
  assumes "literal_keys kvs" "list_all (\<lambda>v. is_ok (canonical_json v)) (map snd kvs)"
  shows "is_ok (canonical_json (obj kvs))"
proof -
  have "list_all (\<lambda>v. v \<noteq> JUndef) (map snd kvs)" using assms(2) by (auto simp: list_all_iff)
  note eq = canonical_obj [OF assms(1) this]
  have "is_ok (canonical_json (the (map_of kvs k)))" if "k \<in> set (map fst kvs)" for k
    using map_of_literal [of kvs k] that assms by (auto simp: literal_keys_def list_all_iff)
  then have "is_ok (mapR (\<lambda>k. bindR (canonical_json (the (map_of kvs k))) (\<lambda>t. Inr (json_quote k @ 58 # t))) (sort (map fst kvs)))"
    by (simp add: mapR_ok)
  then show ?thesis unfolding eq by simp
qed

lemma same_json_ok: "same_json v w \<Longrightarrow> is_ok (canonical_json v) \<and> is_ok (canonical_json w)"
  by (auto simp: same_json_def)

lemma same_json_refl: "same_json v v \<longleftrightarrow> is_ok (canonical_json v)"
  by (auto simp: same_json_def is_ok_iff)

lemma same_json_obj_iff:
  assumes "literal_keys kvs" "map fst kvs = map fst kws" "wf_jsval (obj kvs)" "wf_jsval (obj kws)"
  shows "same_json (obj kvs) (obj kws) \<longleftrightarrow> list_all2 same_json (map snd kvs) (map snd kws)"
proof
  assume same: "same_json (obj kvs) (obj kws)"
  have len: "length kvs = length kws" using assms(2) by (metis length_map)
  have "same_json (snd (kvs ! i)) (snd (kws ! i))" if i: "i < length kvs" for i
  proof (rule same_json_obj [OF same assms(3,4)])
    show "map_of kvs (fst (kvs ! i)) = Some (snd (kvs ! i))"
      using assms(1) i by (simp add: literal_keys_def)
    have "fst (kvs ! i) = fst (kws ! i)" using assms(2) i len by (metis nth_map)
    then show "map_of kws (fst (kvs ! i)) = Some (snd (kws ! i))"
      using assms(1,2) i len by (simp add: literal_keys_def)
  qed
  then show "list_all2 same_json (map snd kvs) (map snd kws)"
    using len by (simp add: list_all2_conv_all_nth)
next
  assume all: "list_all2 same_json (map snd kvs) (map snd kws)"
  have keys: "literal_keys kws" using assms(1,2) by (simp add: literal_keys_def)
  have ok: "list_all (\<lambda>v. is_ok (canonical_json v)) (map snd kvs)" "list_all (\<lambda>v. is_ok (canonical_json v)) (map snd kws)"
    using all same_json_ok by (auto simp: list_all2_conv_all_nth list_all_length)
  then have undef: "list_all (\<lambda>v. v \<noteq> JUndef) (map snd kvs)" "list_all (\<lambda>v. v \<noteq> JUndef) (map snd kws)"
    by (auto simp: list_all_iff)
  have "canonical_json (the (map_of kvs k)) = canonical_json (the (map_of kws k))" if "k \<in> set (map fst kvs)" for k
  proof -
    from that obtain i where i: "i < length kvs" "fst (kvs ! i) = k" by (auto simp: in_set_conv_nth)
    then have "i < length kws" "fst (kws ! i) = k" using assms(2) by (metis length_map, metis length_map nth_map)
    with i have "(k, snd (kvs ! i)) \<in> set kvs" "(k, snd (kws ! i)) \<in> set kws"
      by (metis nth_mem prod.collapse)+
    with keys assms(1) have "map_of kvs k = Some (snd (kvs ! i))" "map_of kws k = Some (snd (kws ! i))"
      by (simp_all add: literal_keys_def)
    moreover have "same_json (snd (kvs ! i)) (snd (kws ! i))"
      using all i(1) by (auto simp: list_all2_conv_all_nth)
    ultimately show ?thesis by (auto simp: same_json_def)
  qed
  then have "canonical_json (obj kvs) = canonical_json (obj kws)"
    unfolding canonical_obj [OF assms(1) undef(1)] canonical_obj [OF keys undef(2)] assms(2) [symmetric]
    by (intro arg_cong [where f = "\<lambda>m. bindR m _"] mapR_cong) simp_all
  moreover have "is_ok (canonical_json (obj kvs))" using assms(1) ok(1) by (rule canonical_obj_ok)
  ultimately show "same_json (obj kvs) (obj kws)" by (auto simp: same_json_def is_ok_iff)
qed

lemma canonical_arr_ok: "wf_jsval (arr vs) \<Longrightarrow> list_all (\<lambda>v. is_ok (canonical_json v)) vs \<Longrightarrow> is_ok (canonical_json (arr vs))"
  using same_json_arr [of vs vs] by (simp add: same_json_refl [symmetric] list_all_length list_all2_conv_all_nth)

section \<open>Properties\<close>

definition sample_value :: jsval where
  "sample_value = obj [(js ''b'', arr [jint 7, JNull]), (js ''a'', JStr (js ''x''))]"

definition sample_text :: jsstr where
  "sample_text = js (CHR 0x7B # CHR 0x22 # ''a'' @ CHR 0x22 # CHR 0x3A # CHR 0x22 # ''x'' @ CHR 0x22 # CHR 0x2C
     # CHR 0x22 # ''b'' @ CHR 0x22 # CHR 0x3A # ''[7,null]}'')"

lemma sample_prints: "canonical_json sample_value = Inr sample_text"
  by code_simp

lemma sample_wf: "wf_jsval sample_value"
  by code_simp

text \<open>C13: the text that \<open>canonicalJson\<close> prints for a value is parsed by \<open>JSON.parse\<close> back into the same value: the
  plain form of the JSON tree that the value denotes, with every member, element, number and string as they were;
  and \<open>parseCanonicalJson\<close> returns it, from the text or from its UTF-8 bytes, whenever it is within the byte limit.\<close>

theorem canonical_json_roundtrip:
  assumes "wf_jsval v" "canonical_json v = Inr s"
  shows "\<exists>j. denotes v j \<and> denotes (of_json j) j \<and> json_parse s = Some (of_json j) \<and>
    (limit_ok m \<and> int (byte_length s) \<le> m \<longrightarrow>
      parse_canonical_json (RawString s) m label = Inr (of_json j) \<and> parse_canonical_json (RawBuffer (utf8 s)) m label = Inr (of_json j))"
proof -
  from canonical_json_sound [OF assms] obtain j where j: "denotes v j" "s = print_json j" "wf_json j" by auto
  have tree: "denotes (of_json j) j" by (rule denotes_of_json [OF j(1) assms(1)])
  with j show ?thesis using printed_parsed [OF tree j(3)] by (intro exI [of _ j]) (simp add: json_parse_print)
qed

lemma canonical_json_roundtrip_witness:
  "\<exists>j. denotes sample_value j \<and> denotes (of_json j) j \<and> json_parse sample_text = Some (of_json j) \<and>
    (limit_ok 1000 \<and> int (byte_length sample_text) \<le> 1000 \<longrightarrow>
      parse_canonical_json (RawString sample_text) 1000 (js ''payload'') = Inr (of_json j) \<and>
      parse_canonical_json (RawBuffer (utf8 sample_text)) 1000 (js ''payload'') = Inr (of_json j))"
  by (rule canonical_json_roundtrip [OF sample_wf sample_prints])

text \<open>C14: the canonical text determines the value: two values print as the same text exactly when they denote
  one and the same JSON tree, so a digest or signature of the text binds every member of the value.\<close>

theorem canonical_json_injective:
  assumes "wf_jsval v" "wf_jsval w"
  shows "(\<exists>s. canonical_json v = Inr s \<and> canonical_json w = Inr s) \<longleftrightarrow> (\<exists>j. denotes v j \<and> denotes w j)"
  using same_json_denotes [OF assms] by (simp add: same_json_def)

lemma canonical_json_injective_witness:
  "(\<exists>s. canonical_json sample_value = Inr s \<and> canonical_json (jint 7) = Inr s) \<longleftrightarrow>
   (\<exists>j. denotes sample_value j \<and> denotes (jint 7) j)"
  by (rule canonical_json_injective) (rule sample_wf, simp)

text \<open>C15: \<open>parseCanonicalJson\<close> accepts an input exactly when it is the printed text of a JSON tree with safe integers, valid Unicode and
  distinct member names in order, as a string or as its UTF-8 bytes, within a valid byte limit, and it returns that tree; and
  no second input yields the same value (no other spelling, duplicate key or encoding).\<close>

theorem parse_canonical_json_exact:
  "(parse_canonical_json input m label = Inr v \<longleftrightarrow>
     limit_ok m \<and> (\<exists>j. wf_json j \<and> denotes (of_json j) j \<and> v = of_json j \<and> int (byte_length (print_json j)) \<le> m
       \<and> (input = RawString (print_json j) \<or> input = RawBuffer (utf8 (print_json j))))) \<and>
   (parse_canonical_json input m label = Inr v \<and> parse_canonical_json other n label' = Inr v \<longrightarrow> input_bytes other = input_bytes input)"
proof (intro conjI iffI)
  assume "parse_canonical_json input m label = Inr v"
  then show "limit_ok m" "\<exists>j. wf_json j \<and> denotes (of_json j) j \<and> v = of_json j \<and> int (byte_length (print_json j)) \<le> m
       \<and> (input = RawString (print_json j) \<or> input = RawBuffer (utf8 (print_json j)))"
    using accepted_printed by blast+
next
  assume "limit_ok m \<and> (\<exists>j. wf_json j \<and> denotes (of_json j) j \<and> v = of_json j \<and> int (byte_length (print_json j)) \<le> m
       \<and> (input = RawString (print_json j) \<or> input = RawBuffer (utf8 (print_json j))))"
  then show "parse_canonical_json input m label = Inr v" using printed_parsed by blast
next
  show "parse_canonical_json input m label = Inr v \<and> parse_canonical_json other n label' = Inr v \<longrightarrow> input_bytes other = input_bytes input"
    by (auto dest!: parse_canonical_sound)
qed

lemma parse_canonical_json_exact_witness:
  "(\<exists>j. jint 12 = of_json j \<and> (RawString (js ''12'') = RawString (print_json j) \<or> RawString (js ''12'') = RawBuffer (utf8 (print_json j)))) \<and>
    parse_canonical_json (RawBuffer [49, 50]) 5 [] = Inr (jint 12) \<and>
    input_bytes (RawBuffer [49, 50]) = input_bytes (RawString (js ''12''))"
proof -
  have parsed: "parse_canonical_json (RawString (js ''12'')) 10 (js ''n'') = Inr (jint 12)"
    "parse_canonical_json (RawBuffer [49, 50]) 5 [] = Inr (jint 12)" by code_simp+
  with parse_canonical_json_exact [of "RawString (js ''12'')" 10 "js ''n''" "jint 12" "RawBuffer [49, 50]" 5 "[]"] show ?thesis by blast
qed

end
