(* ===== verification/OwnerPayload.thy ===== *)
theory OwnerPayload
  imports Repository CanonicalContract
begin

text \<open>
  packages/app/src/owner-authorization.ts, the data: the signed payload, the runtime
  bindings it must equal, and the validators that turn an untyped JSON value into them
  (\<open>validatePayload\<close>, \<open>validateExpectedBindings\<close> and the helpers \<open>asRecord\<close>,
  \<open>assertExactKeys\<close>, \<open>valid*\<close>), with the time rules \<open>assertPayloadTimes\<close> and the
  comparison \<open>assertExpectedBindings\<close>. The literal fields \<open>version: 1\<close> and \<open>audience\<close> are
  checked and not stored. Object values are read as data; a getter counts by the value it
  returns.
\<close>

section \<open>Data\<close>

datatype action = CreateBranch | CreatePullRequest | UpdatePullRequest

record repository_scope =
  rs_slug :: jsstr
  rs_id :: int
  rs_owner_id :: int

record github_scope =
  gh_app_id :: int
  gh_installation_id :: int

record base_scope =
  bs_branch :: jsstr
  bs_sha :: jsstr

record engine_scope =
  en_tag :: jsstr
  en_commit :: jsstr

record manifest_scope =
  mn_byte_length :: int
  mn_digest :: jsstr

record preview_scope =
  pv_preflight_id :: jsstr
  pv_artifact_digest :: jsstr
  pv_candidate_branch :: jsstr
  pv_candidate_tree_sha :: jsstr
  pv_findings_digest :: jsstr
  pv_resolutions_digest :: jsstr
  pv_command_scope_digest :: jsstr
  pv_runner_attestation_digest :: jsstr
  pv_ruleset_digest :: jsstr
  pv_required_ci_digest :: jsstr

record bindings =
  eb_pilot_id :: jsstr
  eb_approval_evidence_digest :: jsstr
  eb_pre_run_authorization_digest :: jsstr
  eb_preview_completed_at :: int
  eb_authorization_expires_at :: int
  eb_repository :: repository_scope
  eb_github :: github_scope
  eb_base :: base_scope
  eb_engine :: engine_scope
  eb_manifest :: manifest_scope
  eb_preview :: preview_scope
  eb_allowed_actions :: "action list"
  eb_pull_request_number :: "int option"

record payload =
  pl_envelope_id :: jsstr
  pl_authorization_id :: jsstr
  pl_signer_id :: jsstr
  pl_key_id :: jsstr
  pl_challenge_digest :: jsstr
  pl_issued_at :: int
  pl_not_before :: int
  pl_expires_at :: int
  pl_nonce :: jsstr
  pl_pilot_id :: jsstr
  pl_approval_evidence_digest :: jsstr
  pl_pre_run_authorization_digest :: jsstr
  pl_preview_completed_at :: int
  pl_authorization_expires_at :: int
  pl_repository :: repository_scope
  pl_github :: github_scope
  pl_base :: base_scope
  pl_engine :: engine_scope
  pl_manifest :: manifest_scope
  pl_preview :: preview_scope
  pl_allowed_actions :: "action list"
  pl_pull_request_number :: "int option"

section \<open>Constants\<close>

definition owner_audience :: jsstr where
  "owner_audience = js ''api-migrator:owner-publication:v1''"

definition signature_domain :: jsstr where
  "signature_domain = owner_audience @ [0]"

definition max_ttl_ms :: int where "max_ttl_ms = 30 * 60 * 1000"
definition max_envelope_bytes :: nat where "max_envelope_bytes = 64 * 1024"
definition max_payload_bytes :: nat where "max_payload_bytes = 32 * 1024"
definition max_registry_bytes :: nat where "max_registry_bytes = 256 * 1024"
definition max_public_key_bytes :: nat where "max_public_key_bytes = 16 * 1024"
definition max_timestamp :: int where "max_timestamp = 8640000000000000"

section \<open>Elementary validators\<close>

definition ow_reject :: "jsstr \<Rightarrow> 'a result" where
  "ow_reject m = Inl (js ''Owner authorization rejected: '' @ m)"

definition ow :: "string \<Rightarrow> 'a result" where
  "ow m = ow_reject (js m)"

definition ow_if :: "bool \<Rightarrow> string \<Rightarrow> unit result" where
  "ow_if bad m = (if bad then ow m else Inr ())"

text \<open>\<open>asRecord\<close> and \<open>assertExactKeys\<close>; the result is the object itself.\<close>

definition as_record :: "jsval \<Rightarrow> string \<Rightarrow> jsval result" where
  "as_record v label = (case v of JObj _ _ \<Rightarrow> Inr v | _ \<Rightarrow> ow (label @ '' must be an object''))"

definition keys_of :: "jsval \<Rightarrow> jsstr list" where
  "keys_of v = (case v of JObj _ ps \<Rightarrow> object_keys ps | _ \<Rightarrow> [])"

definition assert_exact_keys :: "jsval \<Rightarrow> string list \<Rightarrow> string \<Rightarrow> unit result" where
  "assert_exact_keys v keys label =
     ow_if (sort (keys_of v) \<noteq> sort (map js keys)) (label @ '' has unknown or missing fields'')"

definition record_with :: "jsval \<Rightarrow> string list \<Rightarrow> string \<Rightarrow> (jsval \<Rightarrow> 'a result) \<Rightarrow> 'a result" where
  "record_with v keys label k =
     bindR (as_record v label) (\<lambda>obj. thenR (assert_exact_keys obj keys label) (k obj))"

definition valid_bounded_string :: "jsval \<Rightarrow> string \<Rightarrow> nat \<Rightarrow> jsstr result" where
  "valid_bounded_string v label max_bytes =
     (case v of
        JStr s \<Rightarrow>
          (if length s = 0 \<or> max_bytes < byte_length s then ow (label @ '' is missing or exceeds the supported size'')
           else (case assert_valid_unicode s of
                   Inl _ \<Rightarrow> ow (label @ '' contains invalid Unicode'')
                 | Inr _ \<Rightarrow> Inr s))
      | _ \<Rightarrow> ow (label @ '' is missing or exceeds the supported size''))"

definition valid_identifier :: "jsval \<Rightarrow> string \<Rightarrow> jsstr result" where
  "valid_identifier v label =
     bindR (valid_bounded_string v label 128) (\<lambda>s.
       if \<not> is_identifier s then ow (label @ '' is not a canonical identifier'') else Inr s)"

definition valid_digest :: "jsval \<Rightarrow> string \<Rightarrow> jsstr result" where
  "valid_digest v label =
     (case v of
        JStr s \<Rightarrow> (if \<not> is_digest s then ow (label @ '' must be lowercase sha256:<64hex>'') else Inr s)
      | _ \<Rightarrow> ow (label @ '' must be lowercase sha256:<64hex>''))"

definition normalize_digest :: "jsval \<Rightarrow> string \<Rightarrow> jsstr result" where
  "normalize_digest v label =
     (case v of
        JStr s \<Rightarrow> valid_digest (JStr (if starts_with (js ''sha256:'') s then s else js ''sha256:'' @ s)) label
      | _ \<Rightarrow> ow (label @ '' is invalid''))"

definition valid_git_sha :: "jsval \<Rightarrow> string \<Rightarrow> jsstr result" where
  "valid_git_sha v label =
     (case v of
        JStr s \<Rightarrow> (if \<not> is_git_sha s then ow (label @ '' is invalid'') else Inr s)
      | _ \<Rightarrow> ow (label @ '' is invalid''))"

definition valid_positive_integer :: "jsval \<Rightarrow> string \<Rightarrow> int result" where
  "valid_positive_integer v label =
     (case v of
        JNum (JInt n) \<Rightarrow>
          (if \<not> is_safe_integer (JInt n) \<or> n \<le> 0 then ow (label @ '' must be a positive safe integer'') else Inr n)
      | _ \<Rightarrow> ow (label @ '' must be a positive safe integer''))"

definition valid_timestamp :: "jsval \<Rightarrow> string \<Rightarrow> int result" where
  "valid_timestamp v label =
     bindR (valid_positive_integer v label) (\<lambda>t.
       if max_timestamp < t then ow (label @ '' exceeds the supported timestamp range'') else Inr t)"

text \<open>\<open>decodeCanonicalBase64Url\<close>.\<close>

definition decode_canonical_base64url :: "jsstr \<Rightarrow> string \<Rightarrow> byte list result" where
  "decode_canonical_base64url v label =
     (if \<not> is_b64_text v \<or> 61 \<in> set v \<or> length v mod 4 = 1
      then ow (label @ '' is not unpadded base64url'')
      else (let decoded = b64_decode v in
        if b64_encode decoded \<noteq> v then ow (label @ '' is not canonical base64url'') else Inr decoded))"

text \<open>\<open>decodeUtf8Exactly\<close>: here the module's own copy of the Unicode check throws (the message has no prefix).\<close>

definition decode_utf8_exactly :: "byte list \<Rightarrow> string \<Rightarrow> jsstr result" where
  "decode_utf8_exactly bs label =
     (let decoded = utf8_decode bs in
      if utf8 decoded \<noteq> bs then ow (label @ '' is not valid UTF-8'')
      else (case assert_valid_unicode decoded of
              Inl e \<Rightarrow> Inl (drop (length ''Canonical JSON rejected: '') e)
            | Inr _ \<Rightarrow> Inr decoded))"

text \<open>\<open>parseCanonicalJson\<close> of this module: the strict parser with its message prefix replaced.\<close>

definition ow_parse_canonical :: "raw_input \<Rightarrow> nat \<Rightarrow> string \<Rightarrow> jsval result" where
  "ow_parse_canonical input max_bytes label =
     (case parse_canonical_json input (int max_bytes) (js label) of
        Inl e \<Rightarrow>
          ow_reject (if starts_with (js ''Canonical JSON rejected:'') e
                     then dropWhile is_space (drop (length ''Canonical JSON rejected:'') e) else e)
      | Inr v \<Rightarrow> Inr v)"

section \<open>The sections of the payload\<close>

definition validate_repository :: "jsval \<Rightarrow> repository_scope result" where
  "validate_repository v =
     record_with v [''slug'', ''id'', ''ownerId''] ''repository'' (\<lambda>obj.
     bindR (valid_bounded_string (get obj (js ''slug'')) ''repository slug'' 140) (\<lambda>slug.
     bindR (parse_repository_slug slug) (\<lambda>_.
     thenR (ow_if (slug \<noteq> to_lower slug) ''repository slug must be lowercase canonical owner/repo'')
     (bindR (valid_positive_integer (get obj (js ''id'')) ''repository id'') (\<lambda>id.
      bindR (valid_positive_integer (get obj (js ''ownerId'')) ''repository owner id'') (\<lambda>owner_id.
      Inr \<lparr>rs_slug = slug, rs_id = id, rs_owner_id = owner_id\<rparr>))))))"

definition validate_github :: "jsval \<Rightarrow> github_scope result" where
  "validate_github v =
     record_with v [''appId'', ''installationId''] ''github'' (\<lambda>obj.
     bindR (valid_positive_integer (get obj (js ''appId'')) ''GitHub App id'') (\<lambda>app.
     bindR (valid_positive_integer (get obj (js ''installationId'')) ''GitHub installation id'') (\<lambda>inst.
     Inr \<lparr>gh_app_id = app, gh_installation_id = inst\<rparr>)))"

definition validate_base :: "jsval \<Rightarrow> base_scope result" where
  "validate_base v =
     record_with v [''branch'', ''sha''] ''base'' (\<lambda>obj.
     bindR (valid_bounded_string (get obj (js ''branch'')) ''base branch'' 240) (\<lambda>branch.
     bindR (validate_branch_name branch) (\<lambda>_.
     bindR (valid_git_sha (get obj (js ''sha'')) ''base sha'') (\<lambda>sha.
     Inr \<lparr>bs_branch = branch, bs_sha = sha\<rparr>))))"

definition validate_engine :: "jsval \<Rightarrow> engine_scope result" where
  "validate_engine v =
     record_with v [''tag'', ''commit''] ''engine'' (\<lambda>obj.
     bindR (valid_bounded_string (get obj (js ''tag'')) ''engine tag'' 128) (\<lambda>tag.
     thenR (ow_if (tag \<noteq> trim tag \<or> list_ex (\<lambda>c. c \<le> 0x20 \<or> c = 0x7F) tag) ''invalid engine tag'')
     (bindR (valid_git_sha (get obj (js ''commit'')) ''engine commit'') (\<lambda>commit.
     Inr \<lparr>en_tag = tag, en_commit = commit\<rparr>))))"

definition validate_manifest :: "jsval \<Rightarrow> manifest_scope result" where
  "validate_manifest v =
     record_with v [''byteLength'', ''digest''] ''manifest'' (\<lambda>obj.
     bindR (valid_positive_integer (get obj (js ''byteLength'')) ''manifest byteLength'') (\<lambda>len.
     bindR (valid_digest (get obj (js ''digest'')) ''manifest digest'') (\<lambda>digest.
     Inr \<lparr>mn_byte_length = len, mn_digest = digest\<rparr>)))"

definition validate_preview :: "jsval \<Rightarrow> preview_scope result" where
  "validate_preview v =
     record_with v [''preflightId'', ''artifactDigest'', ''candidateBranch'', ''candidateTreeSha'', ''findingsDigest'',
         ''resolutionsDigest'', ''commandScopeDigest'', ''runnerAttestationDigest'', ''rulesetDigest'', ''requiredCiDigest'']
       ''preview'' (\<lambda>obj.
     bindR (valid_bounded_string (get obj (js ''candidateBranch'')) ''candidate branch'' 240) (\<lambda>branch.
     bindR (validate_branch_name branch) (\<lambda>_.
     bindR (valid_bounded_string (get obj (js ''preflightId'')) ''preflightId'' 67) (\<lambda>preflight.
     thenR (ow_if (\<not> is_preflight_id preflight) ''invalid preflightId'')
     (bindR (valid_digest (get obj (js ''artifactDigest'')) ''artifact digest'') (\<lambda>artifact.
      bindR (valid_git_sha (get obj (js ''candidateTreeSha'')) ''candidate tree sha'') (\<lambda>tree.
      bindR (valid_digest (get obj (js ''findingsDigest'')) ''findings digest'') (\<lambda>findings.
      bindR (valid_digest (get obj (js ''resolutionsDigest'')) ''resolutions digest'') (\<lambda>resolutions.
      bindR (valid_digest (get obj (js ''commandScopeDigest'')) ''command scope digest'') (\<lambda>commands.
      bindR (valid_digest (get obj (js ''runnerAttestationDigest'')) ''runner attestation digest'') (\<lambda>attestation.
      bindR (valid_digest (get obj (js ''rulesetDigest'')) ''ruleset digest'') (\<lambda>ruleset.
      bindR (valid_digest (get obj (js ''requiredCiDigest'')) ''required CI digest'') (\<lambda>ci.
      Inr \<lparr>pv_preflight_id = preflight, pv_artifact_digest = artifact, pv_candidate_branch = branch,
           pv_candidate_tree_sha = tree, pv_findings_digest = findings, pv_resolutions_digest = resolutions,
           pv_command_scope_digest = commands, pv_runner_attestation_digest = attestation,
           pv_ruleset_digest = ruleset, pv_required_ci_digest = ci\<rparr>)))))))))))))"

definition action_text :: "action \<Rightarrow> jsstr" where
  "action_text a = (case a of CreateBranch \<Rightarrow> js ''create_branch'' | CreatePullRequest \<Rightarrow> js ''create_pull_request''
     | UpdatePullRequest \<Rightarrow> js ''update_pull_request'')"

definition action_of :: "jsstr \<Rightarrow> action option" where
  "action_of s = (if s = js ''create_branch'' then Some CreateBranch
     else if s = js ''create_pull_request'' then Some CreatePullRequest
     else if s = js ''update_pull_request'' then Some UpdatePullRequest else None)"

text \<open>\<open>map\<close> skips a hole and \<open>join\<close> writes it as empty text, so no permitted state has one.\<close>

definition action_slot :: "(propkey \<times> jsval desc) list \<Rightarrow> nat \<Rightarrow> action option result" where
  "action_slot ps i =
     (case map_of ps (PStr (nat_text i)) of
        None \<Rightarrow> Inr None
      | Some d \<Rightarrow>
          (case desc_value d of
             JStr s \<Rightarrow> (case action_of s of None \<Rightarrow> ow ''allowedActions contains an unsupported action'' | Some a \<Rightarrow> Inr (Some a))
           | _ \<Rightarrow> ow ''allowedActions contains an unsupported action''))"

definition permitted_actions :: "jsstr list" where
  "permitted_actions = [js ''create_branch'' @ [0] @ js ''create_pull_request'', js ''create_pull_request'', js ''update_pull_request'']"

definition validate_allowed_actions :: "jsval \<Rightarrow> action list result" where
  "validate_allowed_actions v =
     (case v of
        JArr n ps \<Rightarrow>
          (if n < 1 \<or> 2 < n then ow ''allowedActions must contain the exact bounded publication actions''
           else bindR (mapR (action_slot ps) [0..<n]) (\<lambda>slots.
             if join [0] (map (case_option [] action_text) slots) \<notin> set permitted_actions
             then ow ''allowedActions is not an exact canonical publication state''
             else Inr (List.map_filter (\<lambda>a. a) slots)))
      | _ \<Rightarrow> ow ''allowedActions must contain the exact bounded publication actions'')"

definition valid_pull_request_number :: "jsval \<Rightarrow> int option result" where
  "valid_pull_request_number v =
     (if v = JNull then Inr None else bindR (valid_positive_integer v ''pullRequestNumber'') (\<lambda>n. Inr (Some n)))"

section \<open>The payload and the expected bindings\<close>

definition binding_keys :: "string list" where
  "binding_keys = [''pilotId'', ''approvalEvidenceDigest'', ''preRunAuthorizationDigest'', ''previewCompletedAt'',
     ''authorizationExpiresAt'', ''repository'', ''github'', ''base'', ''engine'', ''manifest'', ''preview'',
     ''allowedActions'', ''pullRequestNumber'']"

definition payload_keys :: "string list" where
  "payload_keys = [''version'', ''audience'', ''envelopeId'', ''authorizationId'', ''pilotId'', ''signerId'', ''keyId'',
     ''approvalEvidenceDigest'', ''preRunAuthorizationDigest'', ''challengeDigest'', ''previewCompletedAt'', ''issuedAt'',
     ''notBefore'', ''expiresAt'', ''authorizationExpiresAt'', ''nonce'', ''repository'', ''github'', ''base'', ''engine'',
     ''manifest'', ''preview'', ''allowedActions'', ''pullRequestNumber'']"

definition validate_payload :: "jsval \<Rightarrow> payload result" where
  "validate_payload v =
     record_with v payload_keys ''payload'' (\<lambda>obj.
     thenR (ow_if (get obj (js ''version'') \<noteq> jint 1) ''unsupported payload version'')
     (thenR (ow_if (get obj (js ''audience'') \<noteq> JStr owner_audience) ''invalid payload audience'')
     (bindR (valid_bounded_string (get obj (js ''nonce'')) ''nonce'' 64) (\<lambda>nonce.
      bindR (decode_canonical_base64url nonce ''nonce'') (\<lambda>nonce_bytes.
      thenR (ow_if (length nonce_bytes \<noteq> 32) ''nonce must contain exactly 32 bytes'')
     (bindR (valid_identifier (get obj (js ''envelopeId'')) ''envelopeId'') (\<lambda>envelope_id.
      bindR (valid_identifier (get obj (js ''authorizationId'')) ''authorizationId'') (\<lambda>authorization_id.
      bindR (valid_identifier (get obj (js ''pilotId'')) ''pilotId'') (\<lambda>pilot_id.
      bindR (valid_identifier (get obj (js ''signerId'')) ''signerId'') (\<lambda>signer_id.
      bindR (valid_identifier (get obj (js ''keyId'')) ''keyId'') (\<lambda>key_id.
      bindR (valid_digest (get obj (js ''approvalEvidenceDigest'')) ''approvalEvidenceDigest'') (\<lambda>approval.
      bindR (valid_digest (get obj (js ''preRunAuthorizationDigest'')) ''preRunAuthorizationDigest'') (\<lambda>prerun.
      bindR (valid_digest (get obj (js ''challengeDigest'')) ''challengeDigest'') (\<lambda>challenge.
      bindR (valid_timestamp (get obj (js ''previewCompletedAt'')) ''previewCompletedAt'') (\<lambda>completed.
      bindR (valid_timestamp (get obj (js ''issuedAt'')) ''issuedAt'') (\<lambda>issued.
      bindR (valid_timestamp (get obj (js ''notBefore'')) ''notBefore'') (\<lambda>not_before.
      bindR (valid_timestamp (get obj (js ''expiresAt'')) ''expiresAt'') (\<lambda>expires.
      bindR (valid_timestamp (get obj (js ''authorizationExpiresAt'')) ''authorizationExpiresAt'') (\<lambda>auth_expires.
      bindR (validate_repository (get obj (js ''repository''))) (\<lambda>repository.
      bindR (validate_github (get obj (js ''github''))) (\<lambda>github.
      bindR (validate_base (get obj (js ''base''))) (\<lambda>base.
      bindR (validate_engine (get obj (js ''engine''))) (\<lambda>engine.
      bindR (validate_manifest (get obj (js ''manifest''))) (\<lambda>manifest.
      bindR (validate_preview (get obj (js ''preview''))) (\<lambda>preview.
      bindR (validate_allowed_actions (get obj (js ''allowedActions''))) (\<lambda>actions.
      bindR (valid_pull_request_number (get obj (js ''pullRequestNumber''))) (\<lambda>pr.
      Inr \<lparr>pl_envelope_id = envelope_id, pl_authorization_id = authorization_id, pl_signer_id = signer_id,
           pl_key_id = key_id, pl_challenge_digest = challenge, pl_issued_at = issued, pl_not_before = not_before,
           pl_expires_at = expires, pl_nonce = nonce, pl_pilot_id = pilot_id, pl_approval_evidence_digest = approval,
           pl_pre_run_authorization_digest = prerun, pl_preview_completed_at = completed,
           pl_authorization_expires_at = auth_expires, pl_repository = repository, pl_github = github,
           pl_base = base, pl_engine = engine, pl_manifest = manifest, pl_preview = preview,
           pl_allowed_actions = actions, pl_pull_request_number = pr\<rparr>)))))))))))))))))))))))))))"

definition validate_expected_bindings :: "jsval \<Rightarrow> bindings result" where
  "validate_expected_bindings v =
     record_with v binding_keys ''expected bindings'' (\<lambda>obj.
     bindR (valid_identifier (get obj (js ''pilotId'')) ''expected pilotId'') (\<lambda>pilot_id.
     bindR (valid_digest (get obj (js ''approvalEvidenceDigest'')) ''expected approvalEvidenceDigest'') (\<lambda>approval.
     bindR (valid_digest (get obj (js ''preRunAuthorizationDigest'')) ''expected preRunAuthorizationDigest'') (\<lambda>prerun.
     bindR (valid_timestamp (get obj (js ''previewCompletedAt'')) ''expected previewCompletedAt'') (\<lambda>completed.
     bindR (valid_timestamp (get obj (js ''authorizationExpiresAt'')) ''expected authorizationExpiresAt'') (\<lambda>auth_expires.
     bindR (validate_repository (get obj (js ''repository''))) (\<lambda>repository.
     bindR (validate_github (get obj (js ''github''))) (\<lambda>github.
     bindR (validate_base (get obj (js ''base''))) (\<lambda>base.
     bindR (validate_engine (get obj (js ''engine''))) (\<lambda>engine.
     bindR (validate_manifest (get obj (js ''manifest''))) (\<lambda>manifest.
     bindR (validate_preview (get obj (js ''preview''))) (\<lambda>preview.
     bindR (validate_allowed_actions (get obj (js ''allowedActions''))) (\<lambda>actions.
     bindR (valid_pull_request_number (get obj (js ''pullRequestNumber''))) (\<lambda>pr.
     Inr \<lparr>eb_pilot_id = pilot_id, eb_approval_evidence_digest = approval, eb_pre_run_authorization_digest = prerun,
          eb_preview_completed_at = completed, eb_authorization_expires_at = auth_expires, eb_repository = repository,
          eb_github = github, eb_base = base, eb_engine = engine, eb_manifest = manifest, eb_preview = preview,
          eb_allowed_actions = actions, eb_pull_request_number = pr\<rparr>))))))))))))))"

definition expected_bindings :: "payload \<Rightarrow> bindings" where
  "expected_bindings p =
     \<lparr>eb_pilot_id = pl_pilot_id p, eb_approval_evidence_digest = pl_approval_evidence_digest p,
      eb_pre_run_authorization_digest = pl_pre_run_authorization_digest p,
      eb_preview_completed_at = pl_preview_completed_at p,
      eb_authorization_expires_at = pl_authorization_expires_at p, eb_repository = pl_repository p,
      eb_github = pl_github p, eb_base = pl_base p, eb_engine = pl_engine p, eb_manifest = pl_manifest p,
      eb_preview = pl_preview p, eb_allowed_actions = pl_allowed_actions p,
      eb_pull_request_number = pl_pull_request_number p\<rparr>"

section \<open>The values as JSON\<close>

definition repository_value :: "repository_scope \<Rightarrow> jsval" where
  "repository_value r = obj [(js ''slug'', JStr (rs_slug r)), (js ''id'', jint (rs_id r)), (js ''ownerId'', jint (rs_owner_id r))]"

definition github_value :: "github_scope \<Rightarrow> jsval" where
  "github_value g = obj [(js ''appId'', jint (gh_app_id g)), (js ''installationId'', jint (gh_installation_id g))]"

definition base_value :: "base_scope \<Rightarrow> jsval" where
  "base_value b = obj [(js ''branch'', JStr (bs_branch b)), (js ''sha'', JStr (bs_sha b))]"

definition engine_value :: "engine_scope \<Rightarrow> jsval" where
  "engine_value e = obj [(js ''tag'', JStr (en_tag e)), (js ''commit'', JStr (en_commit e))]"

definition manifest_value :: "manifest_scope \<Rightarrow> jsval" where
  "manifest_value m = obj [(js ''byteLength'', jint (mn_byte_length m)), (js ''digest'', JStr (mn_digest m))]"

definition preview_value :: "preview_scope \<Rightarrow> jsval" where
  "preview_value p = obj
     [(js ''preflightId'', JStr (pv_preflight_id p)), (js ''artifactDigest'', JStr (pv_artifact_digest p)),
      (js ''candidateBranch'', JStr (pv_candidate_branch p)), (js ''candidateTreeSha'', JStr (pv_candidate_tree_sha p)),
      (js ''findingsDigest'', JStr (pv_findings_digest p)), (js ''resolutionsDigest'', JStr (pv_resolutions_digest p)),
      (js ''commandScopeDigest'', JStr (pv_command_scope_digest p)),
      (js ''runnerAttestationDigest'', JStr (pv_runner_attestation_digest p)),
      (js ''rulesetDigest'', JStr (pv_ruleset_digest p)), (js ''requiredCiDigest'', JStr (pv_required_ci_digest p))]"

definition actions_value :: "action list \<Rightarrow> jsval" where
  "actions_value as = arr (map (\<lambda>a. JStr (action_text a)) as)"

definition optional_int :: "int option \<Rightarrow> jsval" where
  "optional_int n = (case n of None \<Rightarrow> JNull | Some i \<Rightarrow> jint i)"

definition bindings_value :: "bindings \<Rightarrow> jsval" where
  "bindings_value b = obj
     [(js ''pilotId'', JStr (eb_pilot_id b)), (js ''approvalEvidenceDigest'', JStr (eb_approval_evidence_digest b)),
      (js ''preRunAuthorizationDigest'', JStr (eb_pre_run_authorization_digest b)),
      (js ''previewCompletedAt'', jint (eb_preview_completed_at b)),
      (js ''authorizationExpiresAt'', jint (eb_authorization_expires_at b)),
      (js ''repository'', repository_value (eb_repository b)), (js ''github'', github_value (eb_github b)),
      (js ''base'', base_value (eb_base b)), (js ''engine'', engine_value (eb_engine b)),
      (js ''manifest'', manifest_value (eb_manifest b)), (js ''preview'', preview_value (eb_preview b)),
      (js ''allowedActions'', actions_value (eb_allowed_actions b)),
      (js ''pullRequestNumber'', optional_int (eb_pull_request_number b))]"

text \<open>\<open>canonicalJson(a) !== canonicalJson(b)\<close> as a guard.\<close>

definition unless_same_json :: "jsval \<Rightarrow> jsval \<Rightarrow> string \<Rightarrow> unit result" where
  "unless_same_json a b m =
     bindR (canonical_json a) (\<lambda>s. bindR (canonical_json b) (\<lambda>t. ow_if (s \<noteq> t) m))"

definition assert_expected_bindings :: "payload \<Rightarrow> bindings \<Rightarrow> unit result" where
  "assert_expected_bindings p expected =
     unless_same_json (bindings_value (expected_bindings p)) (bindings_value expected)
       ''signed payload does not match the exact runtime bindings''"

definition assert_payload_times :: "payload \<Rightarrow> int \<Rightarrow> unit result" where
  "assert_payload_times p now =
     thenR (ow_if (pl_issued_at p < pl_preview_completed_at p) ''previewCompletedAt must not be after issuedAt'')
     (thenR (ow_if (pl_not_before p < pl_issued_at p) ''issuedAt must not be after notBefore'')
     (thenR (ow_if (pl_expires_at p \<le> pl_not_before p) ''authorization window is empty'')
     (thenR (ow_if (pl_expires_at p \<le> pl_issued_at p \<or> max_ttl_ms < pl_expires_at p - pl_issued_at p)
        ''owner envelope lifetime must be at most 30 minutes'')
     (thenR (ow_if (pl_authorization_expires_at p < pl_expires_at p) ''envelope outlives the underlying owner authorization'')
     (thenR (ow_if (now < pl_not_before p) ''owner authorization is not yet valid'')
     (thenR (ow_if (pl_expires_at p \<le> now \<or> pl_authorization_expires_at p \<le> now) ''owner authorization has expired'')
     (let creates = CreatePullRequest \<in> set (pl_allowed_actions p) in
      thenR (ow_if (creates \<and> pl_pull_request_number p \<noteq> None)
        ''new pull-request authorization cannot bind an existing pull request'')
      (ow_if (\<not> creates \<and> pl_pull_request_number p = None)
        ''pull-request update authorization must bind its exact pull request number''))))))))"

section \<open>What the validators accept\<close>

lemma ow_neq_Inr [simp]: "ow m \<noteq> Inr x" "ow_reject r \<noteq> Inr x"
  by (simp_all add: ow_def ow_reject_def)

lemma ow_if_eq_Inr [result_simps]: "ow_if bad m = Inr u \<longleftrightarrow> \<not> bad"
  by (simp add: ow_if_def)

lemma ow_unless [result_simps]:
  "(if bad then ow m else Inr x) = Inr y \<longleftrightarrow> \<not> bad \<and> x = y"
  "(if bad then ow m else k) = Inr y \<longleftrightarrow> \<not> bad \<and> k = Inr y"
  by auto

lemma record_with_eq [result_simps]:
  "record_with v keys label k = Inr x \<longleftrightarrow>
     (\<exists>p ps. v = JObj p ps) \<and> sort (keys_of v) = sort (map js keys) \<and> k v = Inr x"
  by (cases v) (auto simp: record_with_def as_record_def assert_exact_keys_def result_simps)

lemma valid_bounded_string_eq [result_simps]:
  "valid_bounded_string v label n = Inr s \<longleftrightarrow> v = JStr s \<and> s \<noteq> [] \<and> byte_length s \<le> n \<and> valid_unicode s"
  by (auto simp: valid_bounded_string_def valid_unicode_def split: jsval.splits sum.splits)

lemma valid_identifier_eq [result_simps]:
  "valid_identifier v label = Inr s \<longleftrightarrow> v = JStr s \<and> is_identifier s \<and> byte_length s \<le> 128 \<and> valid_unicode s"
proof -
  have "is_identifier s \<Longrightarrow> s \<noteq> []" by (auto simp: is_identifier_def)
  then show ?thesis unfolding valid_identifier_def result_simps by blast
qed

lemma valid_digest_eq [result_simps]: "valid_digest v label = Inr s \<longleftrightarrow> v = JStr s \<and> is_digest s"
  by (auto simp: valid_digest_def split: jsval.splits)

lemma valid_git_sha_eq [result_simps]: "valid_git_sha v label = Inr s \<longleftrightarrow> v = JStr s \<and> is_git_sha s"
  by (auto simp: valid_git_sha_def split: jsval.splits)

lemma valid_positive_integer_eq [result_simps]:
  "valid_positive_integer v label = Inr n \<longleftrightarrow> v = jint n \<and> 0 < n \<and> n \<le> max_safe"
  by (auto simp: valid_positive_integer_def split: jsval.splits jsnum.splits)

lemma valid_timestamp_eq [result_simps]:
  "valid_timestamp v label = Inr n \<longleftrightarrow> v = jint n \<and> 0 < n \<and> n \<le> max_timestamp"
proof -
  have "n \<le> max_timestamp \<Longrightarrow> n \<le> max_safe" by (simp add: max_timestamp_def max_safe_def)
  then show ?thesis unfolding valid_timestamp_def result_simps not_less by blast
qed

lemma decode_canonical_base64url_eq [result_simps]:
  "decode_canonical_base64url s label = Inr bs \<longleftrightarrow> s \<noteq> [] \<and> s = b64_encode bs"
proof -
  have alphabet: "is_b64_text (b64_encode bs)" "61 \<notin> set (b64_encode bs)" "length (b64_encode bs) mod 4 \<noteq> 1" if "b64_encode bs \<noteq> []" for bs
  proof -
    have all: "list_all b64_alphabet (b64_encode bs)" by (rule b64_encode_alphabet)
    then show "is_b64_text (b64_encode bs)" using that by (simp add: is_b64_text_def)
    show "61 \<notin> set (b64_encode bs)"
      using all by (auto simp: list_all_iff b64_alphabet_def is_alnum_def is_digit_def is_lower_def is_upper_def)
    show "length (b64_encode bs) mod 4 \<noteq> 1" using b64_encode_length_mod [of bs] by simp
  qed
  show ?thesis
  proof
    assume "decode_canonical_base64url s label = Inr bs"
    then show "s \<noteq> [] \<and> s = b64_encode bs"
      unfolding decode_canonical_base64url_def Let_def ow_unless is_b64_text_def by auto
  next
    assume s: "s \<noteq> [] \<and> s = b64_encode bs"
    then have "b64_encode bs \<noteq> []" by metis
    from alphabet [OF this] s show "decode_canonical_base64url s label = Inr bs"
      unfolding decode_canonical_base64url_def Let_def ow_unless by (simp add: b64_decode_encode)
  qed
qed

lemma starts_with_split: "starts_with p s \<Longrightarrow> s = p @ drop (length p) s"
  unfolding starts_with_def by (metis append_take_drop_id)

lemma digest_unicode: "is_digest s \<Longrightarrow> valid_unicode s"
proof -
  assume "is_digest s"
  then have s: "s = js ''sha256:'' @ drop 7 s" and hex: "list_all is_hex (drop 7 s)"
    using starts_with_split [of "js ''sha256:''" s] by (simp_all add: is_digest_def hex_n_def eval_nat_numeral)
  have "is_basic c" if "is_hex c" for c
    using that by (intro is_basic_less) (auto simp: is_hex_def is_digit_def word_le_nat_alt)
  with hex have "valid_unicode (drop 7 s)" by (intro valid_unicode_basic) (auto simp: list_all_iff)
  then show ?thesis by (subst s) (simp add: valid_unicode_append)
qed

lemma git_sha_unicode: "is_git_sha s \<Longrightarrow> valid_unicode s"
proof -
  have "is_basic c" if "is_hex c" for c
    using that by (intro is_basic_less) (auto simp: is_hex_def is_digit_def word_le_nat_alt)
  then show "is_git_sha s \<Longrightarrow> valid_unicode s"
    by (intro valid_unicode_basic) (auto simp: list_all_iff is_git_sha_def hex_n_def)
qed

section \<open>Well-formed bindings\<close>

definition safe_int :: "int \<Rightarrow> bool" where
  "safe_int n \<longleftrightarrow> \<bar>n\<bar> \<le> max_safe"

definition ok_repository :: "repository_scope \<Rightarrow> bool" where
  "ok_repository r \<longleftrightarrow> valid_unicode (rs_slug r) \<and> safe_int (rs_id r) \<and> safe_int (rs_owner_id r)"

definition ok_github :: "github_scope \<Rightarrow> bool" where
  "ok_github g \<longleftrightarrow> safe_int (gh_app_id g) \<and> safe_int (gh_installation_id g)"

definition ok_base :: "base_scope \<Rightarrow> bool" where
  "ok_base b \<longleftrightarrow> valid_unicode (bs_branch b) \<and> valid_unicode (bs_sha b)"

definition ok_engine :: "engine_scope \<Rightarrow> bool" where
  "ok_engine e \<longleftrightarrow> valid_unicode (en_tag e) \<and> valid_unicode (en_commit e)"

definition ok_manifest :: "manifest_scope \<Rightarrow> bool" where
  "ok_manifest m \<longleftrightarrow> safe_int (mn_byte_length m) \<and> valid_unicode (mn_digest m)"

definition ok_preview :: "preview_scope \<Rightarrow> bool" where
  "ok_preview p \<longleftrightarrow> list_all valid_unicode
     [pv_preflight_id p, pv_artifact_digest p, pv_candidate_branch p, pv_candidate_tree_sha p, pv_findings_digest p,
      pv_resolutions_digest p, pv_command_scope_digest p, pv_runner_attestation_digest p, pv_ruleset_digest p, pv_required_ci_digest p]"

definition ok_bindings :: "bindings \<Rightarrow> bool" where
  "ok_bindings b \<longleftrightarrow> valid_unicode (eb_pilot_id b) \<and> valid_unicode (eb_approval_evidence_digest b)
     \<and> valid_unicode (eb_pre_run_authorization_digest b) \<and> safe_int (eb_preview_completed_at b)
     \<and> safe_int (eb_authorization_expires_at b) \<and> ok_repository (eb_repository b) \<and> ok_github (eb_github b)
     \<and> ok_base (eb_base b) \<and> ok_engine (eb_engine b) \<and> ok_manifest (eb_manifest b) \<and> ok_preview (eb_preview b)
     \<and> (case eb_pull_request_number b of None \<Rightarrow> True | Some n \<Rightarrow> safe_int n)"

named_theorems ok_defs
lemmas ok_scope_defs [ok_defs] = safe_int_def ok_repository_def ok_github_def ok_base_def ok_engine_def ok_manifest_def ok_preview_def

lemma positive_safe: "0 < n \<Longrightarrow> n \<le> max_safe \<Longrightarrow> safe_int n"
  by (simp add: safe_int_def)

lemma timestamp_safe: "0 < n \<Longrightarrow> n \<le> max_timestamp \<Longrightarrow> safe_int n"
  by (simp add: safe_int_def max_timestamp_def max_safe_def)

lemma validate_repository_ok: "validate_repository v = Inr r \<Longrightarrow> ok_repository r"
  by (auto simp: validate_repository_def result_simps ok_repository_def positive_safe)

lemma validate_github_ok: "validate_github v = Inr r \<Longrightarrow> ok_github r"
  by (auto simp: validate_github_def result_simps ok_github_def positive_safe)

lemma validate_base_ok: "validate_base v = Inr r \<Longrightarrow> ok_base r"
  by (auto simp: validate_base_def result_simps ok_base_def git_sha_unicode)

lemma validate_engine_ok: "validate_engine v = Inr r \<Longrightarrow> ok_engine r"
  by (auto simp: validate_engine_def result_simps ok_engine_def git_sha_unicode)

lemma validate_manifest_ok: "validate_manifest v = Inr r \<Longrightarrow> ok_manifest r"
  by (auto simp: validate_manifest_def result_simps ok_manifest_def positive_safe digest_unicode)

lemma validate_preview_ok: "validate_preview v = Inr r \<Longrightarrow> ok_preview r"
  by (auto simp: validate_preview_def result_simps ok_preview_def digest_unicode git_sha_unicode)

lemma valid_pull_request_number_ok: "valid_pull_request_number v = Inr n \<Longrightarrow> case n of None \<Rightarrow> True | Some i \<Rightarrow> safe_int i"
  by (auto simp: valid_pull_request_number_def result_simps positive_safe split: if_splits)

lemmas validate_section_ok = validate_repository_ok validate_github_ok validate_base_ok validate_engine_ok
  validate_manifest_ok validate_preview_ok valid_pull_request_number_ok

section \<open>Equal bindings\<close>

lemma literal_keys_Nil [simp]: "literal_keys []"
  by (simp add: literal_keys_def)

lemma literal_keys_Cons [simp]:
  "literal_keys (kv # kvs) \<longleftrightarrow> valid_unicode (fst kv) \<and> fst kv \<notin> set (map fst kvs) \<and> literal_keys kvs"
  by (auto simp: literal_keys_def)

lemmas value_defs = repository_value_def github_value_def base_value_def engine_value_def manifest_value_def
  preview_value_def

lemma same_repository: "ok_repository r \<Longrightarrow> ok_repository q \<Longrightarrow> same_json (repository_value r) (repository_value q) \<longleftrightarrow> r = q"
  unfolding repository_value_def by (subst same_json_obj_iff) (auto simp: ok_repository_def safe_int_def)

lemma same_github: "ok_github r \<Longrightarrow> ok_github q \<Longrightarrow> same_json (github_value r) (github_value q) \<longleftrightarrow> r = q"
  unfolding github_value_def by (subst same_json_obj_iff) (auto simp: ok_github_def safe_int_def)

lemma same_base: "ok_base r \<Longrightarrow> ok_base q \<Longrightarrow> same_json (base_value r) (base_value q) \<longleftrightarrow> r = q"
  unfolding base_value_def by (subst same_json_obj_iff) (auto simp: ok_base_def safe_int_def)

lemma same_engine: "ok_engine r \<Longrightarrow> ok_engine q \<Longrightarrow> same_json (engine_value r) (engine_value q) \<longleftrightarrow> r = q"
  unfolding engine_value_def by (subst same_json_obj_iff) (auto simp: ok_engine_def safe_int_def)

lemma same_manifest: "ok_manifest r \<Longrightarrow> ok_manifest q \<Longrightarrow> same_json (manifest_value r) (manifest_value q) \<longleftrightarrow> r = q"
  unfolding manifest_value_def by (subst same_json_obj_iff) (auto simp: ok_manifest_def safe_int_def)

lemma same_preview: "ok_preview r \<Longrightarrow> ok_preview q \<Longrightarrow> same_json (preview_value r) (preview_value q) \<longleftrightarrow> r = q"
  unfolding preview_value_def by (subst same_json_obj_iff) (auto simp: ok_preview_def)

lemma action_text_inject [simp]: "action_text a = action_text b \<longleftrightarrow> a = b"
  by (cases a; cases b) (simp_all add: action_text_def)

lemma action_text_unicode [simp]: "valid_unicode (action_text a)"
  by (cases a) (simp_all add: action_text_def)

lemma same_actions: "same_json (actions_value as) (actions_value bs) \<longleftrightarrow> as = bs"
proof -
  have "same_json (actions_value as) (actions_value bs) \<longleftrightarrow> list_all2 (\<lambda>a b. a = b) as bs"
    unfolding actions_value_def by (subst same_json_arr) (auto simp: list.rel_map)
  then show ?thesis by (simp add: list.rel_eq)
qed

lemma same_optional_int:
  "(case m of None \<Rightarrow> True | Some i \<Rightarrow> safe_int i) \<Longrightarrow> same_json (optional_int m) (optional_int n) \<longleftrightarrow> m = n"
  by (cases m; cases n) (auto simp: optional_int_def safe_int_def)

lemma wf_scope_values [simp]:
  "wf_jsval (repository_value r)" "wf_jsval (github_value g)" "wf_jsval (base_value b)" "wf_jsval (engine_value e)"
  "wf_jsval (manifest_value m)" "wf_jsval (preview_value p)" "wf_jsval (actions_value as)" "wf_jsval (optional_int n)"
  by (simp_all add: value_defs actions_value_def optional_int_def split: option.splits)

lemma wf_bindings_value [simp]: "wf_jsval (bindings_value b)"
  by (simp add: bindings_value_def)

lemma same_bindings:
  assumes "ok_bindings a" "ok_bindings b"
  shows "same_json (bindings_value a) (bindings_value b) \<longleftrightarrow> a = b"
proof -
  have "same_json (bindings_value a) (bindings_value b) \<longleftrightarrow>
    eb_pilot_id a = eb_pilot_id b \<and> eb_approval_evidence_digest a = eb_approval_evidence_digest b
    \<and> eb_pre_run_authorization_digest a = eb_pre_run_authorization_digest b
    \<and> eb_preview_completed_at a = eb_preview_completed_at b \<and> eb_authorization_expires_at a = eb_authorization_expires_at b
    \<and> eb_repository a = eb_repository b \<and> eb_github a = eb_github b \<and> eb_base a = eb_base b \<and> eb_engine a = eb_engine b
    \<and> eb_manifest a = eb_manifest b \<and> eb_preview a = eb_preview b \<and> eb_allowed_actions a = eb_allowed_actions b
    \<and> eb_pull_request_number a = eb_pull_request_number b"
    using assms unfolding bindings_value_def ok_bindings_def
    by (subst same_json_obj_iff)
      (simp_all add: same_repository same_github same_base same_engine same_manifest same_preview same_actions
        same_optional_int safe_int_def)
  then show ?thesis by auto
qed

lemma same_json_self_ok: "same_json v v \<Longrightarrow> \<exists>t. canonical_json v = Inr t"
  by (auto simp: same_json_def)

lemma unless_same_json_eq:
  assumes "same_json a a" "same_json b b"
  shows "unless_same_json a b m = Inr () \<longleftrightarrow> same_json a b"
  using assms [THEN same_json_self_ok] by (auto simp: unless_same_json_def same_json_def result_simps)

text \<open>The comparison of canonical texts is equality of the bindings.\<close>

lemma assert_expected_bindings_eq:
  assumes "ok_bindings (expected_bindings p)" "ok_bindings e"
  shows "assert_expected_bindings p e = Inr () \<longleftrightarrow> expected_bindings p = e"
  using assms by (simp add: assert_expected_bindings_def unless_same_json_eq same_bindings)

lemma assert_payload_times_eq:
  "assert_payload_times p now = Inr () \<longleftrightarrow>
     pl_preview_completed_at p \<le> pl_issued_at p \<and> pl_issued_at p \<le> pl_not_before p \<and> pl_not_before p < pl_expires_at p
     \<and> pl_expires_at p - pl_issued_at p \<le> max_ttl_ms \<and> pl_expires_at p \<le> pl_authorization_expires_at p
     \<and> pl_not_before p \<le> now \<and> now < pl_expires_at p
     \<and> (CreatePullRequest \<in> set (pl_allowed_actions p) \<longleftrightarrow> pl_pull_request_number p = None)"
  unfolding assert_payload_times_def Let_def result_simps by auto

text \<open>The three states of \<open>allowedActions\<close>.\<close>

lemma action_of_text: "action_of s = Some a \<longleftrightarrow> s = action_text a"
  by (cases a) (auto simp: action_of_def action_text_def)

lemma permitted_cases:
  assumes "join [0] (map (case_option [] action_text) slots) \<in> set permitted_actions" "length slots = 1 \<or> length slots = 2"
  shows "slots = [Some CreateBranch, Some CreatePullRequest] \<or> slots = [Some CreatePullRequest] \<or> slots = [Some UpdatePullRequest]"
proof -
  have all: "slot = None \<or> slot = Some CreateBranch \<or> slot = Some CreatePullRequest \<or> slot = Some UpdatePullRequest" for slot
    by (metis action.exhaust option.exhaust)
  note texts = action_text_def permitted_actions_def js_def js_char_def
  from assms(2) obtain a b where "slots = [a] \<or> slots = [a, b]"
    by (auto simp: length_Suc_conv numeral_2_eq_2)
  then show ?thesis
  proof
    assume "slots = [a]"
    with assms(1) all [of a] show ?thesis by (auto simp: texts)
  next
    assume "slots = [a, b]"
    with assms(1) all [of a] all [of b] show ?thesis by (elim disjE) (simp_all add: texts)
  qed
qed

lemma validate_allowed_actions_cases:
  assumes "validate_allowed_actions v = Inr as"
  shows "as = [CreateBranch, CreatePullRequest] \<or> as = [CreatePullRequest] \<or> as = [UpdatePullRequest]"
proof -
  from assms obtain n ps slots where n: "0 < n" "\<not> 2 < n" "mapR (action_slot ps) [0..<n] = Inr slots"
    "join [0] (map (case_option [] action_text) slots) \<in> set permitted_actions" "as = List.map_filter (\<lambda>a. a) slots"
    by (auto simp: validate_allowed_actions_def result_simps split: jsval.splits)
  have "length slots = 1 \<or> length slots = 2" using mapR_length [OF n(3)] n(1,2) by simp linarith
  from permitted_cases [OF n(4) this] n(5) show ?thesis by (auto simp: map_filter_def)
qed

section \<open>Validating a validated value again\<close>

definition payload_value :: "payload \<Rightarrow> jsval" where
  "payload_value p = obj
     [(js ''version'', jint 1), (js ''audience'', JStr owner_audience), (js ''envelopeId'', JStr (pl_envelope_id p)),
      (js ''authorizationId'', JStr (pl_authorization_id p)), (js ''pilotId'', JStr (pl_pilot_id p)),
      (js ''signerId'', JStr (pl_signer_id p)), (js ''keyId'', JStr (pl_key_id p)),
      (js ''approvalEvidenceDigest'', JStr (pl_approval_evidence_digest p)),
      (js ''preRunAuthorizationDigest'', JStr (pl_pre_run_authorization_digest p)),
      (js ''challengeDigest'', JStr (pl_challenge_digest p)), (js ''previewCompletedAt'', jint (pl_preview_completed_at p)),
      (js ''issuedAt'', jint (pl_issued_at p)), (js ''notBefore'', jint (pl_not_before p)),
      (js ''expiresAt'', jint (pl_expires_at p)), (js ''authorizationExpiresAt'', jint (pl_authorization_expires_at p)),
      (js ''nonce'', JStr (pl_nonce p)), (js ''repository'', repository_value (pl_repository p)),
      (js ''github'', github_value (pl_github p)), (js ''base'', base_value (pl_base p)),
      (js ''engine'', engine_value (pl_engine p)), (js ''manifest'', manifest_value (pl_manifest p)),
      (js ''preview'', preview_value (pl_preview p)), (js ''allowedActions'', actions_value (pl_allowed_actions p)),
      (js ''pullRequestNumber'', optional_int (pl_pull_request_number p))]"

lemma keys_of_obj [simp]: "keys_of (obj kvs) = map fst kvs"
  by (simp add: keys_of_def obj_def)

lemma record_with_obj [simp]:
  "map fst kvs = map js keys \<Longrightarrow> record_with (obj kvs) keys label k = k (obj kvs)"
  using keys_of_obj [of kvs] by (simp add: record_with_def as_record_def assert_exact_keys_def ow_if_def obj_def del: keys_of_obj)

lemmas revalidate_simps = result_simps get_obj

text \<open>The records the validators return.\<close>

definition valid_name :: "jsstr \<Rightarrow> bool" where
  "valid_name s \<longleftrightarrow> is_identifier s \<and> byte_length s \<le> 128 \<and> valid_unicode s"

definition valid_time :: "int \<Rightarrow> bool" where
  "valid_time n \<longleftrightarrow> 0 < n \<and> n \<le> max_timestamp"

definition valid_nonce :: "jsstr \<Rightarrow> bool" where
  "valid_nonce s \<longleftrightarrow> s \<noteq> [] \<and> byte_length s \<le> 64 \<and> valid_unicode s \<and> (\<exists>bs. s = b64_encode bs \<and> length bs = 32)"

definition valid_bindings :: "bindings \<Rightarrow> bool" where
  "valid_bindings b \<longleftrightarrow> valid_name (eb_pilot_id b) \<and> is_digest (eb_approval_evidence_digest b)
     \<and> is_digest (eb_pre_run_authorization_digest b) \<and> valid_time (eb_preview_completed_at b)
     \<and> valid_time (eb_authorization_expires_at b)
     \<and> validate_repository (repository_value (eb_repository b)) = Inr (eb_repository b)
     \<and> validate_github (github_value (eb_github b)) = Inr (eb_github b)
     \<and> validate_base (base_value (eb_base b)) = Inr (eb_base b)
     \<and> validate_engine (engine_value (eb_engine b)) = Inr (eb_engine b)
     \<and> validate_manifest (manifest_value (eb_manifest b)) = Inr (eb_manifest b)
     \<and> validate_preview (preview_value (eb_preview b)) = Inr (eb_preview b)
     \<and> validate_allowed_actions (actions_value (eb_allowed_actions b)) = Inr (eb_allowed_actions b)
     \<and> valid_pull_request_number (optional_int (eb_pull_request_number b)) = Inr (eb_pull_request_number b)"

definition valid_payload :: "payload \<Rightarrow> bool" where
  "valid_payload p \<longleftrightarrow> valid_bindings (expected_bindings p) \<and> valid_nonce (pl_nonce p)
     \<and> valid_name (pl_envelope_id p) \<and> valid_name (pl_authorization_id p) \<and> valid_name (pl_signer_id p)
     \<and> valid_name (pl_key_id p) \<and> is_digest (pl_challenge_digest p) \<and> valid_time (pl_issued_at p)
     \<and> valid_time (pl_not_before p) \<and> valid_time (pl_expires_at p)"

lemma revalidate_repository: "validate_repository v = Inr r \<Longrightarrow> validate_repository (repository_value r) = Inr r"
  by (auto simp: validate_repository_def repository_value_def revalidate_simps)

lemma revalidate_github: "validate_github v = Inr r \<Longrightarrow> validate_github (github_value r) = Inr r"
  by (auto simp: validate_github_def github_value_def revalidate_simps)

lemma revalidate_base: "validate_base v = Inr r \<Longrightarrow> validate_base (base_value r) = Inr r"
  by (auto simp: validate_base_def base_value_def revalidate_simps)

lemma revalidate_engine: "validate_engine v = Inr r \<Longrightarrow> validate_engine (engine_value r) = Inr r"
  by (auto simp: validate_engine_def engine_value_def revalidate_simps)

lemma revalidate_manifest: "validate_manifest v = Inr r \<Longrightarrow> validate_manifest (manifest_value r) = Inr r"
  by (auto simp: validate_manifest_def manifest_value_def revalidate_simps)

lemma revalidate_preview: "validate_preview v = Inr r \<Longrightarrow> validate_preview (preview_value r) = Inr r"
  by (auto simp: validate_preview_def preview_value_def revalidate_simps)

lemma actions_states:
  "validate_allowed_actions (actions_value [CreateBranch, CreatePullRequest]) = Inr [CreateBranch, CreatePullRequest]"
  "validate_allowed_actions (actions_value [CreatePullRequest]) = Inr [CreatePullRequest]"
  "validate_allowed_actions (actions_value [UpdatePullRequest]) = Inr [UpdatePullRequest]"
  by code_simp+

lemma revalidate_actions: "validate_allowed_actions v = Inr as \<Longrightarrow> validate_allowed_actions (actions_value as) = Inr as"
  using validate_allowed_actions_cases [of v as] actions_states by metis

lemma revalidate_pull_request: "valid_pull_request_number v = Inr n \<Longrightarrow> valid_pull_request_number (optional_int n) = Inr n"
  by (auto simp: valid_pull_request_number_def optional_int_def revalidate_simps split: if_splits)

lemma validate_expected_valid:
  assumes "validate_expected_bindings v = Inr b"
  shows "valid_bindings b"
  using assms unfolding validate_expected_bindings_def result_simps sum.inject
  apply (elim exE conjE)
  apply (drule revalidate_repository, drule revalidate_github, drule revalidate_base, drule revalidate_engine,
      drule revalidate_manifest, drule revalidate_preview, drule revalidate_actions, drule revalidate_pull_request)
  apply hypsubst
  apply (unfold valid_bindings_def valid_name_def valid_time_def bindings.simps)
  apply (intro conjI)
  apply assumption+
  done

lemma validate_payload_valid:
  assumes "validate_payload v = Inr p"
  shows "valid_payload p"
  using assms unfolding validate_payload_def result_simps sum.inject not_not
  apply (elim exE conjE)
  apply (drule revalidate_repository, drule revalidate_github, drule revalidate_base, drule revalidate_engine,
      drule revalidate_manifest, drule revalidate_preview, drule revalidate_actions, drule revalidate_pull_request)
  apply hypsubst
  apply (unfold valid_payload_def expected_bindings_def valid_bindings_def valid_name_def valid_time_def valid_nonce_def
      bindings.simps payload.simps)
  apply (intro conjI)
  apply (assumption | (rule exI, rule conjI, rule refl, assumption))+
  done

lemma valid_bindings_accepted:
  assumes "valid_bindings b"
  shows "validate_expected_bindings (bindings_value b) = Inr b"
proof -
  have keys: "record_with (bindings_value b) binding_keys l k = k (bindings_value b)" for l and k :: "jsval \<Rightarrow> bindings result"
    unfolding bindings_value_def by (rule record_with_obj) (simp add: binding_keys_def)
  have fields: "get (bindings_value b) (js ''pilotId'') = JStr (eb_pilot_id b)"
    "get (bindings_value b) (js ''approvalEvidenceDigest'') = JStr (eb_approval_evidence_digest b)"
    "get (bindings_value b) (js ''preRunAuthorizationDigest'') = JStr (eb_pre_run_authorization_digest b)"
    "get (bindings_value b) (js ''previewCompletedAt'') = jint (eb_preview_completed_at b)"
    "get (bindings_value b) (js ''authorizationExpiresAt'') = jint (eb_authorization_expires_at b)"
    "get (bindings_value b) (js ''repository'') = repository_value (eb_repository b)"
    "get (bindings_value b) (js ''github'') = github_value (eb_github b)"
    "get (bindings_value b) (js ''base'') = base_value (eb_base b)"
    "get (bindings_value b) (js ''engine'') = engine_value (eb_engine b)"
    "get (bindings_value b) (js ''manifest'') = manifest_value (eb_manifest b)"
    "get (bindings_value b) (js ''preview'') = preview_value (eb_preview b)"
    "get (bindings_value b) (js ''allowedActions'') = actions_value (eb_allowed_actions b)"
    "get (bindings_value b) (js ''pullRequestNumber'') = optional_int (eb_pull_request_number b)"
    by (simp_all add: bindings_value_def get_obj)
  show ?thesis
    using assms unfolding validate_expected_bindings_def keys fields valid_bindings_def valid_name_def valid_time_def
    by (simp add: result_simps)
qed

lemma valid_payload_accepted:
  assumes "valid_payload p"
  shows "validate_payload (payload_value p) = Inr p"
proof -
  have keys: "record_with (payload_value p) payload_keys l k = k (payload_value p)" for l and k :: "jsval \<Rightarrow> payload result"
    unfolding payload_value_def by (rule record_with_obj) (simp add: payload_keys_def)
  have fields: "get (payload_value p) (js ''version'') = jint 1"
    "get (payload_value p) (js ''audience'') = JStr owner_audience"
    "get (payload_value p) (js ''envelopeId'') = JStr (pl_envelope_id p)"
    "get (payload_value p) (js ''authorizationId'') = JStr (pl_authorization_id p)"
    "get (payload_value p) (js ''pilotId'') = JStr (pl_pilot_id p)"
    "get (payload_value p) (js ''signerId'') = JStr (pl_signer_id p)"
    "get (payload_value p) (js ''keyId'') = JStr (pl_key_id p)"
    "get (payload_value p) (js ''approvalEvidenceDigest'') = JStr (pl_approval_evidence_digest p)"
    "get (payload_value p) (js ''preRunAuthorizationDigest'') = JStr (pl_pre_run_authorization_digest p)"
    "get (payload_value p) (js ''challengeDigest'') = JStr (pl_challenge_digest p)"
    "get (payload_value p) (js ''previewCompletedAt'') = jint (pl_preview_completed_at p)"
    "get (payload_value p) (js ''issuedAt'') = jint (pl_issued_at p)"
    "get (payload_value p) (js ''notBefore'') = jint (pl_not_before p)"
    "get (payload_value p) (js ''expiresAt'') = jint (pl_expires_at p)"
    "get (payload_value p) (js ''authorizationExpiresAt'') = jint (pl_authorization_expires_at p)"
    "get (payload_value p) (js ''nonce'') = JStr (pl_nonce p)"
    "get (payload_value p) (js ''repository'') = repository_value (pl_repository p)"
    "get (payload_value p) (js ''github'') = github_value (pl_github p)"
    "get (payload_value p) (js ''base'') = base_value (pl_base p)"
    "get (payload_value p) (js ''engine'') = engine_value (pl_engine p)"
    "get (payload_value p) (js ''manifest'') = manifest_value (pl_manifest p)"
    "get (payload_value p) (js ''preview'') = preview_value (pl_preview p)"
    "get (payload_value p) (js ''allowedActions'') = actions_value (pl_allowed_actions p)"
    "get (payload_value p) (js ''pullRequestNumber'') = optional_int (pl_pull_request_number p)"
    by (simp_all add: payload_value_def get_obj)
  from assms obtain bs where "pl_nonce p = b64_encode bs" "length bs = 32" "pl_nonce p \<noteq> []" by (auto simp: valid_payload_def valid_nonce_def)
  then have "decode_canonical_base64url (pl_nonce p) l = Inr bs" for l by (simp add: decode_canonical_base64url_eq)
  moreover note \<open>length bs = 32\<close>
  ultimately show ?thesis
    using assms unfolding validate_payload_def keys fields valid_payload_def valid_bindings_def valid_name_def valid_time_def
      valid_nonce_def expected_bindings_def
    by (simp add: result_simps)
qed

lemma valid_bindings_ok: "valid_bindings b \<Longrightarrow> ok_bindings b"
  unfolding valid_bindings_def ok_bindings_def valid_name_def valid_time_def
  by (simp add: digest_unicode timestamp_safe validate_repository_ok [where v = "repository_value (eb_repository b)"]
      validate_github_ok [where v = "github_value (eb_github b)"] validate_base_ok [where v = "base_value (eb_base b)"]
      validate_engine_ok [where v = "engine_value (eb_engine b)"] validate_manifest_ok [where v = "manifest_value (eb_manifest b)"]
      validate_preview_ok [where v = "preview_value (eb_preview b)"]
      valid_pull_request_number_ok [where v = "optional_int (eb_pull_request_number b)"])

section \<open>A sample payload\<close>

definition sample_digest :: "code_unit \<Rightarrow> jsstr" where
  "sample_digest c = js ''sha256:'' @ replicate 64 c"

definition sample_repository :: repository_scope where
  "sample_repository = \<lparr>rs_slug = js ''acme/app'', rs_id = 11, rs_owner_id = 12\<rparr>"

definition sample_bindings :: bindings where
  "sample_bindings =
     \<lparr>eb_pilot_id = js ''pilot-1'', eb_approval_evidence_digest = sample_digest 97,
      eb_pre_run_authorization_digest = sample_digest 98, eb_preview_completed_at = 1000,
      eb_authorization_expires_at = 900000, eb_repository = sample_repository,
      eb_github = \<lparr>gh_app_id = 21, gh_installation_id = 22\<rparr>,
      eb_base = \<lparr>bs_branch = js ''main'', bs_sha = sample_sha\<rparr>,
      eb_engine = \<lparr>en_tag = js ''v1.0.0'', en_commit = sample_sha\<rparr>,
      eb_manifest = \<lparr>mn_byte_length = 512, mn_digest = sample_digest 99\<rparr>,
      eb_preview =
        \<lparr>pv_preflight_id = js ''pf_'' @ replicate 64 97, pv_artifact_digest = sample_digest 100,
         pv_candidate_branch = js ''codex/api-migrator/x'', pv_candidate_tree_sha = sample_sha,
         pv_findings_digest = sample_digest 97, pv_resolutions_digest = sample_digest 97,
         pv_command_scope_digest = sample_digest 97, pv_runner_attestation_digest = sample_digest 97,
         pv_ruleset_digest = sample_digest 97, pv_required_ci_digest = sample_digest 97\<rparr>,
      eb_allowed_actions = [CreateBranch, CreatePullRequest], eb_pull_request_number = None\<rparr>"

definition sample_nonce :: jsstr where
  "sample_nonce = b64_encode (replicate 32 7)"

definition sample_payload :: payload where
  "sample_payload =
     (let b = sample_bindings in
     \<lparr>pl_envelope_id = js ''env-1'', pl_authorization_id = js ''auth-1'', pl_signer_id = js ''signer-1'',
      pl_key_id = js ''key-1'', pl_challenge_digest = sample_digest 102, pl_issued_at = 2000, pl_not_before = 2000,
      pl_expires_at = 500000, pl_nonce = sample_nonce, pl_pilot_id = eb_pilot_id b,
      pl_approval_evidence_digest = eb_approval_evidence_digest b,
      pl_pre_run_authorization_digest = eb_pre_run_authorization_digest b, pl_preview_completed_at = 1000,
      pl_authorization_expires_at = 900000, pl_repository = eb_repository b, pl_github = eb_github b,
      pl_base = eb_base b, pl_engine = eb_engine b, pl_manifest = eb_manifest b, pl_preview = eb_preview b,
      pl_allowed_actions = eb_allowed_actions b, pl_pull_request_number = eb_pull_request_number b\<rparr>)"

lemma sample_digest_ok: "is_hex c \<Longrightarrow> is_digest (sample_digest c)"
  by (simp add: sample_digest_def is_digest_def hex_n_def starts_with_def list_all_iff)

lemma sample_git_sha: "is_git_sha sample_sha"
  by code_simp

lemma sample_repository_valid: "validate_repository (repository_value sample_repository) = Inr sample_repository"
  by code_simp

lemma sample_sections_valid:
  "validate_github (github_value (eb_github sample_bindings)) = Inr (eb_github sample_bindings)"
  "validate_base (base_value (eb_base sample_bindings)) = Inr (eb_base sample_bindings)"
  "validate_engine (engine_value (eb_engine sample_bindings)) = Inr (eb_engine sample_bindings)"
  by code_simp+

lemma sample_manifest_valid: "validate_manifest (manifest_value (eb_manifest sample_bindings)) = Inr (eb_manifest sample_bindings)"
  by code_simp

lemma sample_preview_valid: "validate_preview (preview_value (eb_preview sample_bindings)) = Inr (eb_preview sample_bindings)"
  by code_simp

lemma sample_scalars_valid:
  "valid_name (js ''pilot-1'')" "valid_name (js ''env-1'')" "valid_name (js ''auth-1'')" "valid_name (js ''signer-1'')"
  "valid_name (js ''key-1'')"
  "is_digest (sample_digest 97)" "is_digest (sample_digest 98)" "is_digest (sample_digest 102)"
  "valid_time 1000" "valid_time 2000" "valid_time 500000" "valid_time 900000"
  "valid_pull_request_number (optional_int None) = Inr None"
  by code_simp+

lemma sample_bindings_valid: "valid_bindings sample_bindings"
proof -
  note sections = sample_sections_valid sample_manifest_valid sample_preview_valid
  note actions = actions_states(1)
  show ?thesis
    using sections [unfolded sample_bindings_def bindings.simps] sample_repository_valid actions sample_scalars_valid
    unfolding valid_bindings_def sample_bindings_def bindings.simps by blast
qed

lemma sample_nonce_valid: "valid_nonce sample_nonce"
proof -
  have "sample_nonce \<noteq> []" "byte_length sample_nonce \<le> 64" "valid_unicode sample_nonce" by code_simp+
  moreover have "sample_nonce = b64_encode (replicate 32 7)" "length (replicate 32 (7 :: byte)) = 32" by (simp_all add: sample_nonce_def)
  ultimately show ?thesis unfolding valid_nonce_def by blast
qed

lemma sample_expected: "expected_bindings sample_payload = sample_bindings"
  by (simp add: expected_bindings_def sample_payload_def sample_bindings_def Let_def)

lemma sample_payload_valid: "valid_payload sample_payload"
  using sample_bindings_valid sample_nonce_valid sample_scalars_valid
  unfolding valid_payload_def sample_expected unfolding sample_payload_def Let_def payload.simps by blast

lemma expected_bindings_agree:
  assumes "validate_payload v = Inr p" "validate_expected_bindings w = Inr e"
  shows "assert_expected_bindings p e = Inr () \<longleftrightarrow> expected_bindings p = e"
  using validate_payload_valid [OF assms(1)] validate_expected_valid [OF assms(2)]
  by (intro assert_expected_bindings_eq valid_bindings_ok) (simp_all add: valid_payload_def)

section \<open>Properties\<close>

text \<open>The binding check compares canonical JSON texts and is exactly equality: a validated payload passes
  \<open>assertExpectedBindings\<close> if and only if every one of its bound fields (pilot, evidence digests, repository,
  GitHub ids, base, engine, manifest, preview, actions, pull request) equals the expected one.\<close>

theorem expected_bindings_exact:
  assumes "validate_payload v = Inr p" "validate_expected_bindings w = Inr e"
  shows "assert_expected_bindings p e = Inr () \<longleftrightarrow> expected_bindings p = e"
  using assms by (rule expected_bindings_agree)

lemma expected_bindings_exact_witness:
  "assert_expected_bindings sample_payload sample_bindings = Inr () \<longleftrightarrow> expected_bindings sample_payload = sample_bindings"
  by (rule expected_bindings_exact [OF valid_payload_accepted [OF sample_payload_valid] valid_bindings_accepted [OF sample_bindings_valid]])

text \<open>C16: \<open>validatePayload\<close> accepts a value exactly as far as its record is valid: what it returns is well-formed
  (identifiers, digests, timestamps, a 32-byte nonce, valid sections, one of the three action states), and the
  record written back as JSON is accepted with the same result, so validating twice changes nothing.\<close>

theorem validate_payload_revalidates:
  assumes "validate_payload v = Inr p"
  shows "valid_payload p \<and> validate_payload (payload_value p) = Inr p \<and>
    pl_allowed_actions p \<in> {[CreateBranch, CreatePullRequest], [CreatePullRequest], [UpdatePullRequest]}"
proof -
  have valid: "valid_payload p" using assms by (rule validate_payload_valid)
  then have "validate_allowed_actions (actions_value (pl_allowed_actions p)) = Inr (pl_allowed_actions p)"
    by (simp add: valid_payload_def valid_bindings_def expected_bindings_def)
  then have "pl_allowed_actions p \<in> {[CreateBranch, CreatePullRequest], [CreatePullRequest], [UpdatePullRequest]}"
    using validate_allowed_actions_cases by blast
  with valid valid_payload_accepted show ?thesis by blast
qed

lemma validate_payload_revalidates_witness:
  "valid_payload sample_payload \<and> validate_payload (payload_value sample_payload) = Inr sample_payload \<and>
    pl_allowed_actions sample_payload \<in> {[CreateBranch, CreatePullRequest], [CreatePullRequest], [UpdatePullRequest]}"
  by (rule validate_payload_revalidates [OF valid_payload_accepted [OF sample_payload_valid]])

end
