(* ===== verification/OwnerRegistry.thy ===== *)
theory OwnerRegistry
  imports OwnerPayload
begin

unbundle bit_operations_syntax

text \<open>
  packages/app/src/owner-authorization.ts, the owner key registry: the path and file checks
  (\<open>resolveRegistryPath\<close>, \<open>readOwnerOnlyFile\<close>), the registry document
  (\<open>validateRegistry\<close>, \<open>validateRegistryKey\<close>, \<open>parseRegistryPublicKey\<close>) and the selection of
  the key that may sign a payload (\<open>readAndSelectRegistryKey\<close>). What the operating system and
  \<open>node:crypto\<close> answer are arguments: a \<open>host\<close> holds the result of each system call the code
  makes (\<open>None\<close> when it throws), a \<open>crypto\<close> the key and signature functions. Paths are POSIX paths.
\<close>

section \<open>node:path\<close>

definition is_absolute :: "jsstr \<Rightarrow> bool" where
  "is_absolute p \<longleftrightarrow> starts_with [47] p"

text \<open>The segments of an absolute path after resolving \<open>.\<close>, \<open>..\<close> and repeated slashes.\<close>

definition push_segment :: "jsstr list \<Rightarrow> jsstr \<Rightarrow> jsstr list" where
  "push_segment acc s = (if s = [] \<or> s = js ''.'' then acc else if s = js ''..'' then butlast acc else acc @ [s])"

definition segments :: "jsstr \<Rightarrow> jsstr list" where
  "segments p = foldl push_segment [] (split_on 47 p)"

definition resolve_path :: "jsstr \<Rightarrow> jsstr" where
  "resolve_path p = 47 # join [47] (segments p)"

fun drop_common :: "jsstr list \<Rightarrow> jsstr list \<Rightarrow> jsstr list \<times> jsstr list" where
  "drop_common (a # as) (b # bs) = (if a = b then drop_common as bs else (a # as, b # bs))"
| "drop_common as bs = (as, bs)"

definition relative_path :: "jsstr \<Rightarrow> jsstr \<Rightarrow> jsstr" where
  "relative_path from to =
     (case drop_common (segments from) (segments to) of
        (up, down) \<Rightarrow> join [47] (replicate (length up) (js ''..'') @ down))"

text \<open>The condition under which \<open>readOwnerOnlyFile\<close> throws \<open>registry inside workspace\<close>.\<close>

definition inside_workspace :: "jsstr \<Rightarrow> jsstr \<Rightarrow> bool" where
  "inside_workspace workspace path \<longleftrightarrow>
     (let rel = relative_path workspace path in
      rel = [] \<or> (rel \<noteq> js ''..'' \<and> \<not> starts_with (js ''../'') rel \<and> \<not> is_absolute rel))"

section \<open>The host\<close>

record file_stat =
  st_symlink :: bool
  st_file :: bool
  st_dev :: int
  st_ino :: int
  st_size :: int
  st_mode :: "32 word"
  st_uid :: int

record host =
  ho_win32 :: bool
  ho_uid :: "int option"
  ho_workspace_root :: jsstr
  ho_registry_env :: "jsstr option"
  ho_lstat :: "jsstr \<Rightarrow> file_stat option"
  ho_realpath :: "jsstr \<Rightarrow> jsstr option"
  ho_open :: "jsstr \<Rightarrow> file_stat option"
  ho_read :: "jsstr \<Rightarrow> jsstr option"

record registry_file =
  rf_canonical_path :: jsstr
  rf_contents :: jsstr

text \<open>The body of the \<open>try\<close>: \<open>None\<close> is any throw, which the \<open>catch\<close> turns into one message (\<open>0x3F\<close> is octal 77, the group and other permissions).\<close>

definition read_registry_file :: "host \<Rightarrow> jsstr \<Rightarrow> registry_file option" where
  "read_registry_file h path =
     Option.bind (ho_lstat h path) (\<lambda>before.
     if st_symlink before \<or> \<not> st_file before then None
     else Option.bind (ho_realpath h path) (\<lambda>canonical.
     Option.bind (ho_realpath h (ho_workspace_root h)) (\<lambda>workspace.
     if inside_workspace workspace canonical then None
     else Option.bind (ho_open h path) (\<lambda>after.
       if \<not> st_file after \<or> st_dev before \<noteq> st_dev after \<or> st_ino before \<noteq> st_ino after then None
       else if st_size after \<le> 0 \<or> int max_registry_bytes < st_size after then None
       else if \<not> ho_win32 h \<and> st_mode after AND 0x3F \<noteq> 0 then None
       else if \<not> ho_win32 h \<and> ho_uid h \<noteq> None \<and> Some (st_uid after) \<noteq> ho_uid h then None
       else map_option (\<lambda>contents. \<lparr>rf_canonical_path = canonical, rf_contents = contents\<rparr>) (ho_read h path)))))"

definition read_owner_only_file :: "host \<Rightarrow> jsstr \<Rightarrow> registry_file result" where
  "read_owner_only_file h path =
     (if \<not> is_absolute path then ow ''owner key registry path must be absolute''
      else case read_registry_file h path of
        None \<Rightarrow> ow ''owner key registry must be an owner-only regular non-symlink file outside the workspace''
      | Some f \<Rightarrow> Inr f)"

definition resolve_registry_path :: "host \<Rightarrow> jsval \<Rightarrow> jsstr result" where
  "resolve_registry_path h v =
     (let path = (if v = JUndef \<or> v = JNull then (case ho_registry_env h of None \<Rightarrow> JUndef | Some s \<Rightarrow> JStr s) else v) in
      case path of
        JStr p \<Rightarrow>
          (if length p = 0 \<or> 4096 < byte_length p then ow ''owner key registry path is required''
           else if \<not> is_absolute p then ow ''owner key registry path must be absolute''
           else Inr (resolve_path p))
      | _ \<Rightarrow> ow ''owner key registry path is required'')"

section \<open>Keys\<close>

record 'k crypto =
  cr_hash :: hash
  cr_import :: "jsstr \<Rightarrow> 'k option"
  cr_pem :: "'k \<Rightarrow> jsstr option"
  cr_type :: "'k \<Rightarrow> jsstr"
  cr_der :: "'k \<Rightarrow> byte list"
  cr_verify :: "'k \<Rightarrow> byte list \<Rightarrow> byte list \<Rightarrow> bool"

record registry_key =
  rk_key_id :: jsstr
  rk_signer_id :: jsstr
  rk_public_key_pem :: jsstr
  rk_fingerprint :: jsstr
  rk_repository :: repository_scope
  rk_valid_from :: int
  rk_valid_until :: int
  rk_revoked_at :: "int option"

record registry =
  rg_keys :: "registry_key list"
  rg_revoked_authorization_ids :: "jsstr list"

definition validate_registry_key :: "jsval \<Rightarrow> registry_key result" where
  "validate_registry_key v =
     record_with v [''keyId'', ''signerId'', ''algorithm'', ''publicKeyPem'', ''fingerprint'', ''repository'', ''validFrom'',
         ''validUntil'', ''revokedAt''] ''owner key registry entry'' (\<lambda>obj.
     thenR (ow_if (get obj (js ''algorithm'') \<noteq> JStr (js ''Ed25519'')) ''owner key algorithm must be Ed25519'')
     (bindR (valid_timestamp (get obj (js ''validFrom'')) ''key validFrom'') (\<lambda>from.
      bindR (valid_timestamp (get obj (js ''validUntil'')) ''key validUntil'') (\<lambda>until.
      thenR (ow_if (until \<le> from) ''owner key validity window is empty'')
     (bindR (if get obj (js ''revokedAt'') = JNull then Inr None
             else bindR (valid_timestamp (get obj (js ''revokedAt'')) ''key revokedAt'') (\<lambda>at.
               if at < from \<or> until < at then ow ''owner key revocation is outside key validity'' else Inr (Some at))) (\<lambda>revoked.
      bindR (valid_identifier (get obj (js ''keyId'')) ''registry keyId'') (\<lambda>key_id.
      bindR (valid_identifier (get obj (js ''signerId'')) ''registry signerId'') (\<lambda>signer_id.
      bindR (valid_bounded_string (get obj (js ''publicKeyPem'')) ''registry publicKeyPem'' max_public_key_bytes) (\<lambda>pem.
      bindR (valid_digest (get obj (js ''fingerprint'')) ''registry fingerprint'') (\<lambda>fingerprint.
      bindR (validate_repository (get obj (js ''repository''))) (\<lambda>repository.
      Inr \<lparr>rk_key_id = key_id, rk_signer_id = signer_id, rk_public_key_pem = pem, rk_fingerprint = fingerprint,
           rk_repository = repository, rk_valid_from = from, rk_valid_until = until, rk_revoked_at = revoked\<rparr>)))))))))))"

definition parse_registry_public_key :: "'k crypto \<Rightarrow> registry_key \<Rightarrow> 'k result" where
  "parse_registry_public_key cr entry =
     (case cr_import cr (rk_public_key_pem entry) of
        None \<Rightarrow> ow ''owner key registry publicKeyPem must be canonical SPKI PUBLIC KEY PEM''
      | Some key \<Rightarrow>
          (case cr_pem cr key of
             None \<Rightarrow> ow ''owner key registry publicKeyPem must be canonical SPKI PUBLIC KEY PEM''
           | Some canonical_pem \<Rightarrow>
               (if rk_public_key_pem entry \<noteq> canonical_pem
                then ow ''owner key registry publicKeyPem must be canonical SPKI PUBLIC KEY PEM''
                else if cr_type cr key \<noteq> js ''ed25519'' then ow ''owner key registry public key is not Ed25519''
                else if sha256 (cr_hash cr) (cr_der cr key) \<noteq> rk_fingerprint entry
                then ow ''owner key fingerprint does not match SPKI DER''
                else Inr key)))"

definition registry_scope :: "registry_key \<Rightarrow> jsstr result" where
  "registry_scope k = canonical_json (obj [(js ''signerId'', JStr (rk_signer_id k)), (js ''repository'', repository_value (rk_repository k))])"

text \<open>The loop over the keys, with the three sets it accumulates.\<close>

fun check_registry_keys :: "'k crypto \<Rightarrow> jsstr list \<Rightarrow> jsstr list \<Rightarrow> jsstr list \<Rightarrow> registry_key list \<Rightarrow> unit result" where
  "check_registry_keys cr ids prints scopes [] = Inr ()"
| "check_registry_keys cr ids prints scopes (k # ks) =
     bindR (parse_registry_public_key cr k) (\<lambda>_.
     bindR (registry_scope k) (\<lambda>scope.
     if rk_key_id k \<in> set ids \<or> rk_fingerprint k \<in> set prints then ow ''owner key registry contains a duplicate key''
     else if scope \<in> set scopes then ow ''owner key registry contains a duplicate signer scope''
     else check_registry_keys cr (rk_key_id k # ids) (rk_fingerprint k # prints) (scope # scopes) ks))"

text \<open>\<open>Array.prototype.map\<close> on an array of parsed JSON, which has no holes.\<close>

definition validate_registry :: "'k crypto \<Rightarrow> jsval \<Rightarrow> registry result" where
  "validate_registry cr v =
     record_with v [''version'', ''keys'', ''revokedAuthorizationIds''] ''owner key registry'' (\<lambda>obj.
     thenR (ow_if (get obj (js ''version'') \<noteq> jint 1) ''unsupported owner key registry version'')
     (let keys_value = get obj (js ''keys''); revoked_value = get obj (js ''revokedAuthorizationIds'') in
      thenR (ow_if (\<not> is_array keys_value \<or> length (elements keys_value) < 1 \<or> 128 < length (elements keys_value))
        ''owner key registry keys are missing or excessive'')
     (thenR (ow_if (\<not> is_array revoked_value \<or> 10000 < length (elements revoked_value))
        ''owner key registry revocation list is invalid or excessive'')
     (bindR (mapR validate_registry_key (elements keys_value)) (\<lambda>keys.
      thenR (check_registry_keys cr [] [] [] keys)
     (bindR (mapR (\<lambda>v. valid_identifier v ''revoked authorization id'') (elements revoked_value)) (\<lambda>revoked.
      if \<not> distinct revoked then ow ''owner key registry contains duplicate revoked authorization ids''
      else Inr \<lparr>rg_keys = keys, rg_revoked_authorization_ids = revoked\<rparr>)))))))"

record 'k verified_key =
  vk_entry :: registry_key
  vk_public_key :: 'k
  vk_canonical_path :: jsstr

definition read_registry :: "'k crypto \<Rightarrow> host \<Rightarrow> jsstr \<Rightarrow> (jsstr \<times> registry) result" where
  "read_registry cr h path =
     bindR (read_owner_only_file h path) (\<lambda>file.
     bindR (ow_parse_canonical (RawString (rf_contents file)) max_registry_bytes ''owner key registry'') (\<lambda>v.
     bindR (validate_registry cr v) (\<lambda>registry. Inr (rf_canonical_path file, registry))))"

definition select_registry_key :: "'k crypto \<Rightarrow> registry \<Rightarrow> payload \<Rightarrow> int \<Rightarrow> (registry_key \<times> 'k) result" where
  "select_registry_key cr registry p now =
     thenR (ow_if (pl_authorization_id p \<in> set (rg_revoked_authorization_ids registry)) ''owner authorization has been revoked'')
     (case find (\<lambda>k. rk_key_id k = pl_key_id p) (rg_keys registry) of
        None \<Rightarrow> ow ''owner signing key is not registered''
      | Some entry \<Rightarrow>
          thenR (ow_if (rk_signer_id entry \<noteq> pl_signer_id p) ''owner signer scope does not match'')
          (thenR (unless_same_json (repository_value (rk_repository entry)) (repository_value (pl_repository p))
             ''owner repository scope does not match'')
          (thenR (ow_if (rk_revoked_at entry \<noteq> None) ''owner signing key is revoked'')
          (thenR (ow_if (now < rk_valid_from entry \<or> pl_issued_at p < rk_valid_from entry) ''owner signing key is not yet valid'')
          (thenR (ow_if (rk_valid_until entry \<le> now \<or> rk_valid_until entry < pl_expires_at p) ''owner signing key has expired'')
          (bindR (parse_registry_public_key cr entry) (\<lambda>key. Inr (entry, key))))))))"

definition read_and_select_registry_key ::
  "'k crypto \<Rightarrow> host \<Rightarrow> jsstr \<Rightarrow> payload \<Rightarrow> int \<Rightarrow> 'k verified_key result" where
  "read_and_select_registry_key cr h path p now =
     bindR (read_registry cr h path) (\<lambda>(canonical, registry).
     bindR (select_registry_key cr registry p now) (\<lambda>(entry, key).
     Inr \<lparr>vk_entry = entry, vk_public_key = key, vk_canonical_path = canonical\<rparr>))"

section \<open>Paths\<close>

definition plain_segment :: "jsstr \<Rightarrow> bool" where
  "plain_segment s \<longleftrightarrow> s \<noteq> [] \<and> 47 \<notin> set s \<and> s \<noteq> js ''.'' \<and> s \<noteq> js ''..''"

lemma push_segment_plain:
  "\<forall>s \<in> set acc. plain_segment s \<Longrightarrow> 47 \<notin> set t \<Longrightarrow> \<forall>s \<in> set (push_segment acc t). plain_segment s"
  by (auto simp: push_segment_def plain_segment_def dest: in_set_butlastD)

lemma segments_plain: "s \<in> set (segments p) \<Longrightarrow> plain_segment s"
proof -
  have "\<forall>s \<in> set (foldl push_segment acc ts). plain_segment s"
    if "\<forall>s \<in> set acc. plain_segment s" "\<forall>t \<in> set ts. 47 \<notin> set t" for acc ts
    using that
  proof (induction ts arbitrary: acc)
    case (Cons t ts)
    then have "\<forall>s \<in> set (push_segment acc t). plain_segment s" by (intro push_segment_plain) simp_all
    then show ?case using Cons.IH [of "push_segment acc t"] Cons.prems(2) by simp
  qed simp
  from this [of "[]" "split_on 47 p"] have "\<forall>s \<in> set (segments p). plain_segment s"
    using split_on_no_sep [of _ 47 p] unfolding segments_def by simp
  then show "s \<in> set (segments p) \<Longrightarrow> plain_segment s" by blast
qed

lemma drop_common_split:
  "drop_common as bs = (u, d) \<Longrightarrow>
     (\<exists>c. as = c @ u \<and> bs = c @ d) \<and> (u = [] \<or> d = [] \<or> hd u \<noteq> hd d)"
proof (induction as bs rule: drop_common.induct)
  case (1 a as b bs)
  show ?case
  proof (cases "a = b")
    case True
    with 1 obtain c where "as = c @ u" "bs = c @ d" "u = [] \<or> d = [] \<or> hd u \<noteq> hd d" by auto
    with True show ?thesis by (intro conjI exI [of _ "a # c"]) simp_all
  qed (use 1 in auto)
qed auto

lemma join_not_Nil: "ss \<noteq> [] \<Longrightarrow> hd ss \<noteq> [] \<Longrightarrow> join sep ss \<noteq> []"
  by (cases ss) (auto simp: join_Cons)

lemma split_on_join_hd: "d \<notin> set s \<Longrightarrow> hd (split_on d (join [d] (s # ss))) = s"
  by (cases ss) (simp_all add: split_on_absent split_on_append)

lemma starts_with_parent:
  assumes "47 \<notin> set s" "starts_with (js ''../'') (join [47] (s # ss))"
  shows "s = js ''..''"
proof -
  from starts_with_split [OF assms(2)] obtain t where t: "join [47] (s # ss) = js ''..'' @ 47 # t"
    by (auto simp: js_def js_char_def)
  have "47 \<notin> set (js ''..'')" by (simp add: js_def js_char_def)
  from split_on_append [OF this, of t] split_on_join_hd [OF assms(1), of ss] t show ?thesis by simp
qed

text \<open>A relative path points inside exactly when the workspace segments are a prefix.\<close>

lemma inside_workspace_iff: "inside_workspace w p \<longleftrightarrow> (\<exists>rest. segments p = segments w @ rest)"
proof -
  obtain u d where ud: "drop_common (segments w) (segments p) = (u, d)" by force
  then obtain c where c: "segments w = c @ u" "segments p = c @ d" and diff: "u = [] \<or> d = [] \<or> hd u \<noteq> hd d"
    using drop_common_split by blast
  show ?thesis
  proof (cases u)
    case Nil
    have "inside_workspace w p"
    proof (cases d)
      case Nil
      with ud \<open>u = []\<close> show ?thesis by (simp add: inside_workspace_def relative_path_def)
    next
      case (Cons s ss)
      have s: "plain_segment s" using c Cons by (intro segments_plain [of s p]) simp
      have rel: "relative_path w p = join [47] (s # ss)" using ud Cons \<open>u = []\<close> by (simp add: relative_path_def)
      have "\<not> starts_with (js ''../'') (join [47] (s # ss))"
        using starts_with_parent [of s ss] s by (auto simp: plain_segment_def)
      moreover have "join [47] (s # ss) \<noteq> js ''..''"
      proof
        assume eq: "join [47] (s # ss) = js ''..''"
        have "47 \<notin> set (js ''..'')" by (simp add: js_def js_char_def)
        moreover have "ss \<noteq> [] \<Longrightarrow> 47 \<in> set (join [47] (s # ss))" by (simp add: join_Cons)
        ultimately have "ss = []" unfolding eq by blast
        with eq s show False by (simp add: plain_segment_def)
      qed
      moreover have "\<not> is_absolute (join [47] (s # ss))"
        using s by (cases s) (auto simp: is_absolute_def starts_with_def join_Cons plain_segment_def)
      ultimately show ?thesis unfolding inside_workspace_def rel Let_def by blast
    qed
    with c Nil show ?thesis by simp
  next
    case (Cons a as)
    have "relative_path w p = js ''..'' \<or> starts_with (js ''../'') (relative_path w p)"
      using ud Cons by (auto simp: relative_path_def join_Cons starts_with_def js_def js_char_def)
    moreover have "relative_path w p \<noteq> []"
      using ud Cons by (auto simp: relative_path_def join_Cons)
    ultimately have "\<not> inside_workspace w p" by (auto simp: inside_workspace_def Let_def)
    moreover have "\<nexists>rest. segments p = segments w @ rest"
      using c Cons diff by (cases d) auto
    ultimately show ?thesis by blast
  qed
qed

section \<open>What an accepted registry is\<close>

lemma read_owner_only_file_eq:
  "read_owner_only_file h path = Inr f \<longleftrightarrow> is_absolute path \<and> read_registry_file h path = Some f"
  by (auto simp: read_owner_only_file_def split: option.splits)

lemma registry_key_repository: "validate_registry_key v = Inr k \<Longrightarrow> ok_repository (rk_repository k) \<and> valid_unicode (rk_signer_id k)"
  unfolding validate_registry_key_def result_simps by (auto dest: validate_repository_ok)

lemma check_registry_keys_sound:
  "check_registry_keys cr ids prints scopes ks = Inr () \<Longrightarrow>
     distinct (map rk_key_id ks) \<and> set ids \<inter> rk_key_id ` set ks = {} \<and>
     distinct (map rk_fingerprint ks) \<and> set prints \<inter> rk_fingerprint ` set ks = {} \<and>
     (\<forall>k \<in> set ks. is_ok (parse_registry_public_key cr k)) \<and>
     distinct (map registry_scope ks) \<and> Inr ` set scopes \<inter> registry_scope ` set ks = {}"
proof (induction ks arbitrary: ids prints scopes)
  case (Cons k ks)
  then obtain key scope where k: "parse_registry_public_key cr k = Inr key" "registry_scope k = Inr scope"
    "rk_key_id k \<notin> set ids" "rk_fingerprint k \<notin> set prints" "scope \<notin> set scopes"
    and rest: "check_registry_keys cr (rk_key_id k # ids) (rk_fingerprint k # prints) (scope # scopes) ks = Inr ()"
    by (auto simp: bindR_eq_Inr split: if_splits)
  from Cons.IH [OF rest] k show ?case by auto
qed simp

lemma validate_registry_sound:
  assumes "validate_registry cr v = Inr reg"
  shows "distinct (map rk_key_id (rg_keys reg)) \<and> distinct (map rk_fingerprint (rg_keys reg)) \<and>
    distinct (map registry_scope (rg_keys reg)) \<and>
    (\<forall>k \<in> set (rg_keys reg). is_ok (parse_registry_public_key cr k) \<and> ok_repository (rk_repository k))"
proof -
  from assms obtain vs keys revoked where
    keys: "mapR validate_registry_key vs = Inr keys" "check_registry_keys cr [] [] [] keys = Inr ()" "reg = \<lparr>rg_keys = keys, rg_revoked_authorization_ids = revoked\<rparr>"
    unfolding validate_registry_def Let_def result_simps by blast
  have "ok_repository (rk_repository k)" if "k \<in> set keys" for k
    using that keys(1) registry_key_repository by (auto simp: mapR_eq_Inr list_all2_conv_all_nth in_set_conv_nth)
  with check_registry_keys_sound [OF keys(2)] keys(3) show ?thesis by simp
qed

lemma find_key: "distinct (map rk_key_id ks) \<Longrightarrow> k \<in> set ks \<Longrightarrow> find (\<lambda>j. rk_key_id j = rk_key_id k) ks = Some k"
  by (induction ks) (auto simp: rev_image_eqI)

text \<open>The conditions under which a key may sign a payload.\<close>

definition key_authorizes :: "registry_key \<Rightarrow> payload \<Rightarrow> int \<Rightarrow> bool" where
  "key_authorizes k p now \<longleftrightarrow>
     rk_key_id k = pl_key_id p \<and> rk_signer_id k = pl_signer_id p \<and> rk_repository k = pl_repository p
     \<and> rk_revoked_at k = None \<and> rk_valid_from k \<le> now \<and> rk_valid_from k \<le> pl_issued_at p
     \<and> now < rk_valid_until k \<and> pl_expires_at p \<le> rk_valid_until k"

lemma same_repository_eq:
  "ok_repository r \<Longrightarrow> ok_repository q \<Longrightarrow> unless_same_json (repository_value r) (repository_value q) m = Inr () \<longleftrightarrow> r = q"
  by (simp add: unless_same_json_eq same_repository)

lemma select_registry_key_eq:
  assumes "validate_registry cr v = Inr reg" "ok_repository (pl_repository p)"
  shows "select_registry_key cr reg p now = Inr (k, key) \<longleftrightarrow>
    pl_authorization_id p \<notin> set (rg_revoked_authorization_ids reg) \<and> k \<in> set (rg_keys reg) \<and>
    key_authorizes k p now \<and> parse_registry_public_key cr k = Inr key"
proof -
  note reg = validate_registry_sound [OF assms(1)]
  show ?thesis
  proof (cases "find (\<lambda>k. rk_key_id k = pl_key_id p) (rg_keys reg)")
    case None
    then have "\<forall>k \<in> set (rg_keys reg). rk_key_id k \<noteq> pl_key_id p" by (simp add: find_None_iff)
    with None show ?thesis by (auto simp: select_registry_key_def result_simps key_authorizes_def)
  next
    case (Some e)
    then have e: "e \<in> set (rg_keys reg)" "rk_key_id e = pl_key_id p" by (auto simp: find_Some_iff)
    then have "k = e" if "k \<in> set (rg_keys reg)" "rk_key_id k = pl_key_id p"
      using that reg by (auto simp: distinct_map inj_on_def)
    moreover have "ok_repository (rk_repository e)" using reg e by blast
    ultimately show ?thesis
      using e assms(2) by (auto simp: select_registry_key_def Some result_simps same_repository_eq key_authorizes_def)
  qed
qed

end
