(* ===== verification/CanonicalSize.thy ===== *)
theory CanonicalSize
  imports CanonicalContract
begin

text \<open>
  How long canonical text can get: a bound on the text of a value, computed from the value,
  for the byte limits that the parsers of envelopes, payloads and registries impose.
\<close>

section \<open>The size of a canonical text\<close>

lemma length_utf8: "length (utf8 s) \<le> 3 * length s"
  by (induction s rule: utf8.induct) (auto simp: utf8_unit_def utf8_pair_def Let_def)

lemma length_quote_unit: "length (quote_unit c) \<le> 6"
  by (simp add: quote_unit_def u_escape_def Let_def)

lemma length_json_quote: "length (json_quote s) \<le> 6 * length s + 2"
proof -
  have "length (quote_body s) \<le> 6 * length s"
  proof (induction s rule: quote_body.induct)
    case (2 c s)
    then show ?case
      using length_quote_unit [of c] by (cases s) (auto simp: u_escape_def Let_def)
  qed simp
  then show ?thesis by (simp add: json_quote_def)
qed

text \<open>Printable ASCII other than the quote and the backslash is written as it is.\<close>

definition plain_unit :: "code_unit \<Rightarrow> bool" where
  "plain_unit c \<longleftrightarrow> 32 \<le> c \<and> c < 127 \<and> c \<noteq> 34 \<and> c \<noteq> 92"

definition quote_width :: "jsstr \<Rightarrow> nat" where
  "quote_width s = (if list_all plain_unit s then length s else 6 * length s)"

lemma plain_unit_basic: "plain_unit c \<Longrightarrow> \<not> is_high c \<and> \<not> is_low c \<and> unat c < 0x80"
  by (auto simp: plain_unit_def is_high_def is_low_def word_le_nat_alt word_less_nat_alt)

lemma quote_body_plain: "list_all plain_unit s \<Longrightarrow> quote_body s = s"
proof (induction s rule: quote_body.induct)
  case (2 c s)
  then have c: "plain_unit c" by simp
  then have "quote_unit c = [c]"
    unfolding plain_unit_def quote_unit_def by (auto simp: word_le_nat_alt word_less_nat_alt)
  with 2 plain_unit_basic [OF c] show ?case by simp
qed simp

lemma length_json_quote_width: "length (json_quote s) \<le> quote_width s + 2"
  using length_json_quote [of s] by (simp add: quote_width_def json_quote_def quote_body_plain)

lemma quote_width_le: "quote_width s \<le> 6 * length s"
  by (simp add: quote_width_def)

lemma quote_width_js: "list_all plain_unit (js s) \<Longrightarrow> quote_width (js s) = length s"
  by (simp add: quote_width_def)

lemma plain_js: "list_all plain_unit (js s) \<longleftrightarrow> list_all (\<lambda>c. plain_unit (js_char c)) s"
  by (simp add: js_def list_all_iff)

lemmas plain_text = plain_js js_char_def plain_unit_def

fun text_bound :: "jsval \<Rightarrow> nat" where
  "text_bound (JStr s) = quote_width s + 2"
| "text_bound (JNum (JInt n)) = length (int_text n)"
| "text_bound (JArr n ps) = 2 + sum_list (map (\<lambda>(k, d). text_bound (desc_value d) + 1) ps)"
| "text_bound (JObj p ps) =
     2 + sum_list (map (\<lambda>(k, d). (case k of PStr s \<Rightarrow> quote_width s | PSym _ \<Rightarrow> 0) + text_bound (desc_value d) + 4) ps)"
| "text_bound _ = 5"

lemma sum_list_keys:
  fixes f :: "jsstr \<Rightarrow> nat"
  assumes "distinct ks" "set (map PStr ks) \<subseteq> set (map fst ps)" "distinct (map fst ps)"
    and "\<And>k d. (PStr k, d) \<in> set ps \<Longrightarrow> f k \<le> g (PStr k, d)"
  shows "sum_list (map f ks) \<le> sum_list (map g ps)"
proof -
  have "sum_list (map f ks) = (\<Sum>k \<in> set ks. f k)" using assms(1) by (simp add: sum_list_distinct_conv_sum_set)
  also have "\<dots> \<le> (\<Sum>k \<in> set ks. g (PStr k, the (map_of ps (PStr k))))"
  proof (rule sum_mono)
    fix k assume "k \<in> set ks"
    then have "PStr k \<in> fst ` set ps" using assms(2) by auto
    then obtain d where "map_of ps (PStr k) = Some d" using assms(3) by (auto simp: map_of_eq_Some_iff)
    then show "f k \<le> g (PStr k, the (map_of ps (PStr k)))" using assms(4) map_of_SomeD by fastforce
  qed
  also have "\<dots> = (\<Sum>p \<in> (\<lambda>k. (PStr k, the (map_of ps (PStr k)))) ` set ks. g p)"
    by (subst sum.reindex) (auto intro: inj_onI simp: comp_def)
  also have "\<dots> \<le> (\<Sum>p \<in> set ps. g p)"
  proof (rule sum_mono2)
    show "(\<lambda>k. (PStr k, the (map_of ps (PStr k)))) ` set ks \<subseteq> set ps"
      using assms(2,3) by (auto simp: map_of_eq_Some_iff)
  qed simp_all
  also have "\<dots> = sum_list (map g ps)"
    using assms(3) by (simp add: sum_list_distinct_conv_sum_set distinct_map)
  finally show ?thesis .
qed

lemma length_join: "length (join [d] ts) \<le> sum_list (map length ts) + length ts"
  by (induction "[d]" ts rule: join.induct) simp_all

lemma sum_list_all2: "list_all2 (\<lambda>k u. length u \<le> f k) ks ts \<Longrightarrow> sum_list (map length ts) \<le> sum_list (map f ks)"
  by (induction rule: list_all2_induct) simp_all

lemma sum_list_add1: "sum_list (map (\<lambda>x. f x + 1) xs) = sum_list (map f xs) + length xs" for f :: "'a \<Rightarrow> nat"
  by (induction xs) simp_all

lemma canonical_text_bound: "canonical_json v = Inr t \<Longrightarrow> wf_jsval v \<Longrightarrow> length t \<le> text_bound v"
proof (induction v arbitrary: t rule: canonical_json.induct)
  case (2 s)
  then show ?case using length_json_quote_width [of s] by (simp add: thenR_eq_Inr)
next
  case (4 x)
  then show ?case by (cases x) (auto split: if_splits)
next
  case (8 n ps)
  then obtain ts where irr: "\<not> irregular_array n ps" and ts: "mapR (\<lambda>k. case map_of ps (PStr k) of
      None \<Rightarrow> throw ''unreachable: an index of a dense array'' | Some d \<Rightarrow> canonical_json (desc_value d)) (map nat_text [0..<n]) = Inr ts"
    and t: "t = 91 # join [44] ts @ [93]" by (auto simp: bindR_eq_Inr split: if_splits)
  have each: "list_all2 (\<lambda>k u. \<exists>d. map_of ps (PStr k) = Some d \<and> canonical_json (desc_value d) = Inr u) (map nat_text [0..<n]) ts"
    using ts unfolding mapR_eq_Inr by (rule list_all2_mono) (auto split: option.splits)
  define f where "f k = (case map_of ps (PStr k) of None \<Rightarrow> 0 | Some d \<Rightarrow> text_bound (desc_value d))" for k
  have bound: "length u \<le> f k" if "k \<in> set (map nat_text [0..<n])" "map_of ps (PStr k) = Some d" "canonical_json (desc_value d) = Inr u" for k d u
    using 8(1) [OF irr that(1,2)] that 8(3) map_of_wf by (fastforce simp: f_def)
  have "sum_list (map length ts) \<le> sum_list (map f (map nat_text [0..<n]))"
    by (rule sum_list_all2, rule list.rel_mono_strong [OF each]) (use bound in blast)
  moreover have "sum_list (map (\<lambda>k. f k + 1) (map nat_text [0..<n])) \<le> sum_list (map (\<lambda>(k, d). text_bound (desc_value d) + 1) ps)"
  proof (rule sum_list_keys)
    show "distinct (map nat_text [0..<n])" by (simp add: distinct_map inj_on_def)
    show "distinct (map fst ps)" using 8(3) by simp
    show "set (map PStr (map nat_text [0..<n])) \<subseteq> set (map fst ps)"
    proof
      fix x assume "x \<in> set (map PStr (map nat_text [0..<n]))"
      then obtain i where i: "i < n" "x = PStr (nat_text i)" by auto
      with each obtain d where "map_of ps x = Some d" by (auto simp: list_all2_conv_all_nth)
      then show "x \<in> set (map fst ps)" by (force dest: map_of_SomeD)
    qed
    show "f k + 1 \<le> (case (PStr k, d) of (k, d) \<Rightarrow> text_bound (desc_value d) + 1)" if "(PStr k, d) \<in> set ps" for k d
      using that 8(3) by (simp add: f_def)
  qed
  moreover have "length ts = n" using mapR_length [OF ts] by simp
  ultimately have "length (join [44] ts) \<le> sum_list (map (\<lambda>(k, d). text_bound (desc_value d) + 1) ps)"
    using length_join [of 44 ts] unfolding sum_list_add1 by simp
  then show ?case by (simp add: t)
next
  case (9 p ps)
  let ?keys = "sort (object_keys ps)"
  from 9(2) obtain ts where guards: "p \<noteq> OtherProto" "\<not> (length (own_keys ps) \<noteq> length ?keys \<or> \<not> has_all_keys (own_keys ps) ?keys)"
    and ts: "mapR (\<lambda>k. case map_of ps (PStr k) of None \<Rightarrow> throw ''unreachable: a key of the object''
      | Some d \<Rightarrow> bindR (canonical_json (desc_value d)) (\<lambda>t. Inr (json_quote k @ 58 # t))) ?keys = Inr ts"
    and members: "check_members ps ?keys = Inr ()" and t: "t = 123 # join [44] ts @ [125]"
    by (auto simp: bindR_eq_Inr thenR_eq_Inr Let_def split: if_splits)
  have each: "list_all2 (\<lambda>k u. \<exists>d w. map_of ps (PStr k) = Some d \<and> canonical_json (desc_value d) = Inr w \<and> u = json_quote k @ 58 # w) ?keys ts"
    using ts unfolding mapR_eq_Inr by (rule list_all2_mono) (auto simp: bindR_eq_Inr split: option.splits)
  define f where "f k = quote_width k + 3 + (case map_of ps (PStr k) of None \<Rightarrow> 0 | Some d \<Rightarrow> text_bound (desc_value d))" for k
  have bound: "length (json_quote k @ 58 # w) \<le> f k"
    if "k \<in> set ?keys" "map_of ps (PStr k) = Some d" "canonical_json (desc_value d) = Inr w" for k d w
    using 9(1) [OF guards(1) refl guards(2) members that(1,2)] that 9(3) map_of_wf length_json_quote_width [of k] by (fastforce simp: f_def)
  have "sum_list (map length ts) \<le> sum_list (map f ?keys)"
    by (rule sum_list_all2, rule list.rel_mono_strong [OF each]) (use bound in blast)
  moreover have "sum_list (map (\<lambda>k. f k + 1) ?keys)
      \<le> sum_list (map (\<lambda>(k, d). (case k of PStr s \<Rightarrow> quote_width s | PSym _ \<Rightarrow> 0) + text_bound (desc_value d) + 4) ps)"
  proof (rule sum_list_keys)
    show "distinct ?keys" using 9(3) by (simp add: distinct_object_keys)
    show "distinct (map fst ps)" using 9(3) by simp
    show "set (map PStr ?keys) \<subseteq> set (map fst ps)" by (force simp: set_object_keys)
    show "f k + 1 \<le> (case (PStr k, d) of (k, d) \<Rightarrow> (case k of PStr s \<Rightarrow> quote_width s | PSym _ \<Rightarrow> 0) + text_bound (desc_value d) + 4)"
      if "(PStr k, d) \<in> set ps" for k d
      using that 9(3) by (simp add: f_def)
  qed
  moreover have "length ts = length ?keys" using mapR_length [OF ts] .
  ultimately have "length (join [44] ts)
      \<le> sum_list (map (\<lambda>(k, d). (case k of PStr s \<Rightarrow> quote_width s | PSym _ \<Rightarrow> 0) + text_bound (desc_value d) + 4) ps)"
    using length_join [of 44 ts] unfolding sum_list_add1 by simp
  then show ?case by (simp add: t)
qed simp_all

lemma text_bound_obj [simp]:
  "text_bound (obj kvs) = 2 + sum_list (map (\<lambda>(k, v). quote_width k + text_bound v + 4) kvs)"
  unfolding obj_def text_bound.simps by (induction kvs) auto

lemma text_bound_arr [simp]: "text_bound (arr vs) = 2 + sum_list (map (\<lambda>v. text_bound v + 1) vs)"
proof -
  have "sum_list (map (\<lambda>(k, d). text_bound (desc_value d) + 1) (index_props i vs)) = sum_list (map (\<lambda>v. text_bound v + 1) vs)" for i
    by (induction vs arbitrary: i) simp_all
  then show ?thesis by (simp add: arr_def)
qed

lemma canonical_byte_bound: "canonical_json v = Inr t \<Longrightarrow> wf_jsval v \<Longrightarrow> byte_length t \<le> 3 * text_bound v"
  using canonical_text_bound [of v t] length_utf8 [of t] by (simp add: byte_length_def)

section \<open>ASCII text\<close>

definition is_ascii :: "code_unit \<Rightarrow> bool" where
  "is_ascii c \<longleftrightarrow> unat c < 0x80"

fun plain_value :: "jsval \<Rightarrow> bool" where
  "plain_value (JStr s) \<longleftrightarrow> list_all plain_unit s"
| "plain_value (JArr n ps) \<longleftrightarrow> (\<forall>(k, d) \<in> set ps. plain_value (desc_value d))"
| "plain_value (JObj p ps) \<longleftrightarrow> (\<forall>(k, d) \<in> set ps. (case k of PStr s \<Rightarrow> list_all plain_unit s | PSym _ \<Rightarrow> True) \<and> plain_value (desc_value d))"
| "plain_value _ \<longleftrightarrow> True"

lemma is_ascii_numeral [simp]: "is_ascii 34" "is_ascii 44" "is_ascii 58" "is_ascii 91" "is_ascii 93" "is_ascii 123" "is_ascii 125"
  by (simp_all add: is_ascii_def)

lemma ascii_digits: "list_all is_ascii (nat_text n)"
  using nat_text_digits [of n] by (auto simp: list_all_iff is_ascii_def is_digit_def word_le_nat_alt)

lemma ascii_int: "list_all is_ascii (int_text n)"
  by (simp add: int_text_def ascii_digits js_def js_char_def is_ascii_def)

lemma ascii_quote: "list_all plain_unit s \<Longrightarrow> list_all is_ascii (json_quote s)"
  using plain_unit_basic by (auto simp: json_quote_def quote_body_plain list_all_iff is_ascii_def)

lemma ascii_join: "is_ascii d \<Longrightarrow> list_all (list_all is_ascii) ts \<Longrightarrow> list_all is_ascii (join [d] ts)"
  by (induction "[d]" ts rule: join.induct) simp_all

lemma canonical_ascii: "canonical_json v = Inr t \<Longrightarrow> plain_value v \<Longrightarrow> list_all is_ascii t"
proof (induction v arbitrary: t rule: canonical_json.induct)
  case (2 s)
  then show ?case by (auto simp: thenR_eq_Inr ascii_quote)
next
  case (4 x)
  then show ?case by (cases x) (auto simp: ascii_int split: if_splits)
next
  case (8 n ps)
  then obtain ts where irr: "\<not> irregular_array n ps" and ts: "mapR (\<lambda>k. case map_of ps (PStr k) of
      None \<Rightarrow> throw ''unreachable: an index of a dense array'' | Some d \<Rightarrow> canonical_json (desc_value d)) (map nat_text [0..<n]) = Inr ts"
    and t: "t = 91 # join [44] ts @ [93]" by (auto simp: bindR_eq_Inr split: if_splits)
  have "list_all is_ascii u" if "k \<in> set (map nat_text [0..<n])" "(case map_of ps (PStr k) of
      None \<Rightarrow> throw ''unreachable: an index of a dense array'' | Some d \<Rightarrow> canonical_json (desc_value d)) = Inr u" for k u
    using that 8(1) [OF irr that(1)] 8(3) by (auto split: option.splits dest!: map_of_SomeD)
  with ts have "list_all (list_all is_ascii) ts" by (rule mapR_list_all)
  then show ?case by (simp add: t ascii_join)
next
  case (9 p ps)
  let ?keys = "sort (object_keys ps)"
  from 9(2) obtain ts where guards: "p \<noteq> OtherProto" "\<not> (length (own_keys ps) \<noteq> length ?keys \<or> \<not> has_all_keys (own_keys ps) ?keys)"
    and ts: "mapR (\<lambda>k. case map_of ps (PStr k) of None \<Rightarrow> throw ''unreachable: a key of the object''
      | Some d \<Rightarrow> bindR (canonical_json (desc_value d)) (\<lambda>t. Inr (json_quote k @ 58 # t))) ?keys = Inr ts"
    and members: "check_members ps ?keys = Inr ()" and t: "t = 123 # join [44] ts @ [125]"
    by (auto simp: bindR_eq_Inr thenR_eq_Inr Let_def split: if_splits)
  have "list_all is_ascii u" if "k \<in> set ?keys" "(case map_of ps (PStr k) of None \<Rightarrow> throw ''unreachable: a key of the object''
      | Some d \<Rightarrow> bindR (canonical_json (desc_value d)) (\<lambda>t. Inr (json_quote k @ 58 # t))) = Inr u" for k u
  proof -
    from that(2) obtain d w where d: "map_of ps (PStr k) = Some d" "canonical_json (desc_value d) = Inr w" "u = json_quote k @ 58 # w"
      by (auto simp: bindR_eq_Inr split: option.splits)
    have "list_all plain_unit k" "plain_value (desc_value d)" using 9(3) map_of_SomeD [OF d(1)] by auto
    with 9(1) [OF guards(1) refl guards(2) members that(1) d(1,2)] d(3) ascii_quote show ?thesis by simp
  qed
  with ts have "list_all (list_all is_ascii) ts" by (rule mapR_list_all)
  then show ?case by (simp add: t ascii_join)
qed (simp_all add: js_def js_char_def is_ascii_def)

lemma ascii_utf8: "list_all is_ascii s \<Longrightarrow> length (utf8 s) = length s"
proof -
  have "\<not> is_high c" if "is_ascii c" for c using is_basic_less [of c] that by (simp add: is_basic_def is_ascii_def)
  then show "list_all is_ascii s \<Longrightarrow> length (utf8 s) = length s"
    by (induction s rule: utf8.induct) (auto simp: utf8_unit_def is_ascii_def)
qed

lemma plain_value_obj [simp]:
  "plain_value (obj kvs) \<longleftrightarrow> (\<forall>(k, v) \<in> set kvs. list_all plain_unit k \<and> plain_value v)"
  by (auto simp: obj_def)

lemma plain_value_arr [simp]: "plain_value (arr vs) \<longleftrightarrow> (\<forall>v \<in> set vs. plain_value v)"
  using in_index_props [of _ vs 0] by (force simp: arr_def dest: set_index_props)

lemma canonical_plain_bound:
  "canonical_json v = Inr t \<Longrightarrow> wf_jsval v \<Longrightarrow> plain_value v \<Longrightarrow> byte_length t \<le> text_bound v"
  using canonical_text_bound [of v t] canonical_ascii [of v t] by (simp add: byte_length_def ascii_utf8)

end
