(* ===== verification/OwnerWire.thy ===== *)
theory OwnerWire
  imports OwnerRegistry CanonicalSize
begin

text \<open>
  The wire format of the owner payload and the key registry: a well-formed record, printed
  by the canonical serializer and parsed back, is accepted by its validator as the same
  record. This is what a signer relies on, and it gives the completeness half of the
  verification theorems.
\<close>

section \<open>Reading a parsed object\<close>

lemma denotes_get:
  assumes "denotes (obj kvs) j" "distinct (map fst kvs)" "map_of kvs k = Some v"
  shows "\<exists>i. denotes v i \<and> get (of_json j) k = of_json i"
proof -
  obtain kjs where j: "j = Obj kjs" using denotes_obj_inv [OF assms(1)] by blast
  from denotes_obj_lookup [OF assms(1) [unfolded j] assms(2,3)] obtain i where i: "map_of kjs k = Some i" "denotes v i" by blast
  have "map_of (map (\<lambda>(k, j). (k, of_json j)) kjs) k = Some (of_json i)"
    using i(1) by (induction kjs) (auto split: if_splits)
  with i(2) j show ?thesis by (auto simp: get_obj)
qed

text \<open>Every member at once: scalars are read back unchanged.\<close>

definition reads_back :: "jsval \<Rightarrow> jsval \<Rightarrow> bool" where
  "reads_back v w \<longleftrightarrow> (\<exists>i. denotes v i \<and> w = of_json i)"

lemma reads_back_scalar [simp]:
  "reads_back (JStr s) w \<longleftrightarrow> valid_unicode s \<and> w = JStr s"
  "reads_back (jint n) w \<longleftrightarrow> \<bar>n\<bar> \<le> max_safe \<and> w = jint n"
  "reads_back JNull w \<longleftrightarrow> w = JNull"
  by (auto simp: reads_back_def)

lemma denotes_fields:
  assumes "denotes (obj kvs) j" "distinct (map fst kvs)"
  shows "list_all (\<lambda>(k, v). reads_back v (get (of_json j) k)) kvs"
proof -
  have "reads_back v (get (of_json j) k)" if "(k, v) \<in> set kvs" for k v
  proof -
    have "map_of kvs k = Some v" using that assms(2) by simp
    from denotes_get [OF assms this] show ?thesis by (auto simp: reads_back_def)
  qed
  then show ?thesis by (auto simp: list_all_iff)
qed

lemma denotes_keys:
  assumes "denotes (obj kvs) j"
  shows "\<exists>kws. of_json j = obj kws \<and> map fst kws = sort (map fst kvs)"
proof -
  obtain kjs where j: "j = Obj kjs" using denotes_obj_inv [OF assms(1)] by blast
  let ?ps = "map (\<lambda>(k, v). (PStr k, DData v True)) kvs"
  from assms have l: "list_all2 (\<lambda>k kj. fst kj = k \<and> (\<exists>d. map_of ?ps (PStr k) = Some d \<and> denotes (desc_value d) (snd kj)))
      (sort (map fst kvs)) kjs"
    unfolding obj_def j by (cases rule: denotes.cases) auto
  then have "map fst kjs = sort (map fst kvs)"
    by (auto simp: list_all2_conv_all_nth intro: nth_equalityI)
  with j show ?thesis by (simp add: comp_def case_prod_beta)
qed

lemma denotes_record_with:
  assumes "denotes (obj kvs) j" "map fst kvs = map js keys"
  shows "record_with (of_json j) keys label k = k (of_json j)"
proof -
  from denotes_keys [OF assms(1)] obtain kws where kws: "of_json j = obj kws" "map fst kws = sort (map fst kvs)" by blast
  have "sort (map fst kws) = sort (map js keys)" unfolding kws assms(2) by (simp add: sorted_sort_id)
  then show ?thesis
    using keys_of_obj [of kws] unfolding kws(1) record_with_def as_record_def assert_exact_keys_def ow_if_def
    by (simp add: obj_def)
qed

lemma denotes_actions: "denotes (actions_value as) j \<Longrightarrow> of_json j = actions_value as"
proof -
  assume "denotes (actions_value as) j"
  then obtain zs where j: "j = Arr zs" and zs: "list_all2 denotes (map (\<lambda>a. JStr (action_text a)) as) zs"
    by (auto simp: actions_value_def denotes_arr_iff)
  then have "map of_json zs = map (\<lambda>a. JStr (action_text a)) as"
    by (intro nth_equalityI) (auto simp: list_all2_conv_all_nth)
  with j show ?thesis by (simp add: actions_value_def)
qed

lemma denotes_optional_int: "denotes (optional_int n) j \<Longrightarrow> of_json j = optional_int n"
  by (cases n) (auto simp: optional_int_def)

section \<open>The sections\<close>

lemma wire_repository:
  assumes "denotes (repository_value r) j"
  shows "validate_repository (of_json j) = validate_repository (repository_value r)"
  using denotes_fields [OF assms [unfolded repository_value_def]] assms
  unfolding repository_value_def validate_repository_def
  by (simp add: denotes_record_with get_obj)+

lemma wire_github:
  assumes "denotes (github_value r) j"
  shows "validate_github (of_json j) = validate_github (github_value r)"
  using denotes_fields [OF assms [unfolded github_value_def]] assms
  unfolding github_value_def validate_github_def
  by (simp add: denotes_record_with get_obj)+

lemma wire_base:
  assumes "denotes (base_value r) j"
  shows "validate_base (of_json j) = validate_base (base_value r)"
  using denotes_fields [OF assms [unfolded base_value_def]] assms
  unfolding base_value_def validate_base_def
  by (simp add: denotes_record_with get_obj)+

lemma wire_engine:
  assumes "denotes (engine_value r) j"
  shows "validate_engine (of_json j) = validate_engine (engine_value r)"
  using denotes_fields [OF assms [unfolded engine_value_def]] assms
  unfolding engine_value_def validate_engine_def
  by (simp add: denotes_record_with get_obj)+

lemma wire_manifest:
  assumes "denotes (manifest_value r) j"
  shows "validate_manifest (of_json j) = validate_manifest (manifest_value r)"
  using denotes_fields [OF assms [unfolded manifest_value_def]] assms
  unfolding manifest_value_def validate_manifest_def
  by (simp add: denotes_record_with get_obj)+

lemma wire_preview:
  assumes "denotes (preview_value r) j"
  shows "validate_preview (of_json j) = validate_preview (preview_value r)"
  using denotes_fields [OF assms [unfolded preview_value_def]] assms
  unfolding preview_value_def validate_preview_def
  by (simp add: denotes_record_with get_obj)+

lemma reads_back_sections:
  "reads_back (repository_value r) w \<Longrightarrow> validate_repository w = validate_repository (repository_value r)"
  "reads_back (github_value g) w \<Longrightarrow> validate_github w = validate_github (github_value g)"
  "reads_back (base_value b) w \<Longrightarrow> validate_base w = validate_base (base_value b)"
  "reads_back (engine_value e) w \<Longrightarrow> validate_engine w = validate_engine (engine_value e)"
  "reads_back (manifest_value m) w \<Longrightarrow> validate_manifest w = validate_manifest (manifest_value m)"
  "reads_back (preview_value p) w \<Longrightarrow> validate_preview w = validate_preview (preview_value p)"
  "reads_back (actions_value as) w \<Longrightarrow> w = actions_value as"
  "reads_back (optional_int n) w \<Longrightarrow> w = optional_int n"
  by (auto simp: reads_back_def wire_repository wire_github wire_base wire_engine wire_manifest wire_preview
      dest: denotes_actions denotes_optional_int)

section \<open>The payload\<close>

lemma wire_payload:
  assumes "valid_payload p" "denotes (payload_value p) j"
  shows "validate_payload (of_json j) = Inr p"
proof -
  have keys: "record_with (of_json j) payload_keys l k = k (of_json j)" for l and k :: "jsval \<Rightarrow> payload result"
    by (rule denotes_record_with [OF assms(2) [unfolded payload_value_def]]) (simp add: payload_keys_def)
  have fields: "list_all (\<lambda>(k, v). reads_back v (get (of_json j) k))
     [(js ''version'', jint 1), (js ''audience'', JStr owner_audience), (js ''envelopeId'', JStr (pl_envelope_id p)),
      (js ''authorizationId'', JStr (pl_authorization_id p)), (js ''pilotId'', JStr (pl_pilot_id p)),
      (js ''signerId'', JStr (pl_signer_id p)), (js ''keyId'', JStr (pl_key_id p)),
      (js ''approvalEvidenceDigest'', JStr (pl_approval_evidence_digest p)),
      (js ''preRunAuthorizationDigest'', JStr (pl_pre_run_authorization_digest p)),
      (js ''challengeDigest'', JStr (pl_challenge_digest p)), (js ''previewCompletedAt'', jint (pl_preview_completed_at p)),
      (js ''issuedAt'', jint (pl_issued_at p)), (js ''notBefore'', jint (pl_not_before p)),
      (js ''expiresAt'', jint (pl_expires_at p)), (js ''authorizationExpiresAt'', jint (pl_authorization_expires_at p)),
      (js ''nonce'', JStr (pl_nonce p)), (js ''repository'', repository_value (pl_repository p)),
      (js ''github'', github_value (pl_github p)), (js ''base'', base_value (pl_base p)),
      (js ''engine'', engine_value (pl_engine p)), (js ''manifest'', manifest_value (pl_manifest p)),
      (js ''preview'', preview_value (pl_preview p)), (js ''allowedActions'', actions_value (pl_allowed_actions p)),
      (js ''pullRequestNumber'', optional_int (pl_pull_request_number p))]"
    by (rule denotes_fields [OF assms(2) [unfolded payload_value_def]]) simp
  note fields = fields [simplified list.pred_inject prod.case reads_back_scalar]
  obtain bs where "pl_nonce p = b64_encode bs" "length bs = 32" "pl_nonce p \<noteq> []"
    using assms(1) by (auto simp: valid_payload_def valid_nonce_def)
  then have nonce: "decode_canonical_base64url (pl_nonce p) l = Inr bs" for l by (simp add: decode_canonical_base64url_eq)
  have parts: "reads_back (repository_value (pl_repository p)) (get (of_json j) (js ''repository''))"
    "reads_back (github_value (pl_github p)) (get (of_json j) (js ''github''))"
    "reads_back (base_value (pl_base p)) (get (of_json j) (js ''base''))"
    "reads_back (engine_value (pl_engine p)) (get (of_json j) (js ''engine''))"
    "reads_back (manifest_value (pl_manifest p)) (get (of_json j) (js ''manifest''))"
    "reads_back (preview_value (pl_preview p)) (get (of_json j) (js ''preview''))"
    "reads_back (actions_value (pl_allowed_actions p)) (get (of_json j) (js ''allowedActions''))"
    "reads_back (optional_int (pl_pull_request_number p)) (get (of_json j) (js ''pullRequestNumber''))"
    using fields by blast+
  have valid: "valid_bindings (expected_bindings p)" using assms(1) by (simp add: valid_payload_def)
  have sections: "validate_repository (get (of_json j) (js ''repository'')) = Inr (pl_repository p)"
    "validate_github (get (of_json j) (js ''github'')) = Inr (pl_github p)"
    "validate_base (get (of_json j) (js ''base'')) = Inr (pl_base p)"
    "validate_engine (get (of_json j) (js ''engine'')) = Inr (pl_engine p)"
    "validate_manifest (get (of_json j) (js ''manifest'')) = Inr (pl_manifest p)"
    "validate_preview (get (of_json j) (js ''preview'')) = Inr (pl_preview p)"
    "validate_allowed_actions (get (of_json j) (js ''allowedActions'')) = Inr (pl_allowed_actions p)"
    "valid_pull_request_number (get (of_json j) (js ''pullRequestNumber'')) = Inr (pl_pull_request_number p)"
    using valid
    by (simp_all add: reads_back_sections(1) [OF parts(1)] reads_back_sections(2) [OF parts(2)] reads_back_sections(3) [OF parts(3)]
        reads_back_sections(4) [OF parts(4)] reads_back_sections(5) [OF parts(5)] reads_back_sections(6) [OF parts(6)]
        reads_back_sections(7) [OF parts(7)] reads_back_sections(8) [OF parts(8)] valid_bindings_def expected_bindings_def)
  show ?thesis
    using assms(1) fields nonce \<open>length bs = 32\<close> unfolding validate_payload_def keys valid_payload_def valid_bindings_def
      valid_name_def valid_time_def valid_nonce_def expected_bindings_def
    by (simp add: result_simps sections)
qed

lemma canonical_parse_denotes:
  assumes "wf_jsval v" "canonical_json v = Inr s"
  shows "\<exists>j. denotes v j \<and> (\<forall>m l input. limit_ok m \<longrightarrow> int (byte_length s) \<le> m \<longrightarrow>
    (input = RawString s \<or> input = RawBuffer (utf8 s)) \<longrightarrow> parse_canonical_json input m l = Inr (of_json j))"
proof -
  from canonical_json_sound [OF assms] obtain j where j: "denotes v j" "s = print_json j" "wf_json j" by auto
  have parse: "json_parse s = Some (of_json j)" using j json_parse_print by simp
  moreover have "canonical_json (of_json j) = Inr s"
    using canonical_json_complete [OF denotes_of_json [OF j(1) assms(1)] json_parse_wf [OF parse]] j by simp
  moreover have "valid_unicode s" "s \<noteq> []" using j denotes_valid_print by auto
  ultimately show ?thesis
    using j(1) decode_input_string decode_input_buffer
    by (intro exI [of _ j]) (auto simp: parse_canonical_eq limit_ok_def)
qed

lemma scope_value_ok:
  "ok_repository r \<Longrightarrow> is_ok (canonical_json (repository_value r))"
  "ok_github g \<Longrightarrow> is_ok (canonical_json (github_value g))"
  "ok_base b \<Longrightarrow> is_ok (canonical_json (base_value b))"
  "ok_engine e \<Longrightarrow> is_ok (canonical_json (engine_value e))"
  "ok_manifest m \<Longrightarrow> is_ok (canonical_json (manifest_value m))"
  "ok_preview p \<Longrightarrow> is_ok (canonical_json (preview_value p))"
  "is_ok (canonical_json (actions_value as))"
  "(case n of None \<Rightarrow> True | Some i \<Rightarrow> safe_int i) \<Longrightarrow> is_ok (canonical_json (optional_int n))"
  by (simp_all add: same_repository same_github same_base same_engine same_manifest same_preview same_actions
      same_optional_int flip: same_json_refl)

lemma is_ok_valid_unicode [simp]: "is_ok (assert_valid_unicode s) \<longleftrightarrow> valid_unicode s"
  by (auto simp: valid_unicode_def is_ok_iff)

lemma canonical_str_ok: "is_ok (canonical_json (JStr s)) \<longleftrightarrow> valid_unicode s"
  using same_json_refl [of "JStr s"] by simp

lemma canonical_int_ok: "is_ok (canonical_json (jint n)) \<longleftrightarrow> \<bar>n\<bar> \<le> max_safe"
  using same_json_refl [of "jint n"] by simp

lemma valid_unicode_b64: "valid_unicode (b64_encode bs)"
proof (rule valid_unicode_basic)
  have "is_basic c" if "b64_alphabet c" for c
    using that by (intro is_basic_less) (auto simp: b64_alphabet_def is_alnum_def is_digit_def is_lower_def is_upper_def word_le_nat_alt)
  then show "list_all is_basic (b64_encode bs)"
    using b64_encode_alphabet [of bs] by (auto simp: list_all_iff)
qed

lemma wf_payload_value [simp]: "wf_jsval (payload_value p)"
  by (simp add: payload_value_def)

lemma payload_prints:
  assumes "valid_payload p"
  shows "is_ok (canonical_json (payload_value p))"
proof -
  have "ok_bindings (expected_bindings p)" using assms by (intro valid_bindings_ok) (simp add: valid_payload_def)
  then have ok: "ok_repository (pl_repository p)" "ok_github (pl_github p)" "ok_base (pl_base p)" "ok_engine (pl_engine p)"
    "ok_manifest (pl_manifest p)" "ok_preview (pl_preview p)"
    "case pl_pull_request_number p of None \<Rightarrow> True | Some n \<Rightarrow> safe_int n"
    by (simp_all add: ok_bindings_def expected_bindings_def)
  have times: "n \<le> max_safe \<and> - n \<le> max_safe" if "valid_time n" for n
    using that by (simp add: valid_time_def max_timestamp_def max_safe_def)
  have "valid_unicode owner_audience" by (simp add: owner_audience_def)
  moreover have "1 \<le> max_safe" by (simp add: max_safe_def)
  ultimately show ?thesis
    unfolding payload_value_def using assms
    by (intro canonical_obj_ok)
      (simp_all add: scope_value_ok ok valid_payload_def valid_bindings_def expected_bindings_def valid_name_def valid_nonce_def
        digest_unicode times abs_le_iff)
qed

section \<open>The registry\<close>

definition registry_key_value :: "registry_key \<Rightarrow> jsval" where
  "registry_key_value k = obj
     [(js ''keyId'', JStr (rk_key_id k)), (js ''signerId'', JStr (rk_signer_id k)), (js ''algorithm'', JStr (js ''Ed25519'')),
      (js ''publicKeyPem'', JStr (rk_public_key_pem k)), (js ''fingerprint'', JStr (rk_fingerprint k)),
      (js ''repository'', repository_value (rk_repository k)), (js ''validFrom'', jint (rk_valid_from k)),
      (js ''validUntil'', jint (rk_valid_until k)), (js ''revokedAt'', optional_int (rk_revoked_at k))]"

definition registry_value :: "registry \<Rightarrow> jsval" where
  "registry_value r = obj
     [(js ''version'', jint 1), (js ''keys'', arr (map registry_key_value (rg_keys r))),
      (js ''revokedAuthorizationIds'', arr (map JStr (rg_revoked_authorization_ids r)))]"

definition valid_registry_key :: "registry_key \<Rightarrow> bool" where
  "valid_registry_key k \<longleftrightarrow> valid_name (rk_key_id k) \<and> valid_name (rk_signer_id k)
     \<and> rk_public_key_pem k \<noteq> [] \<and> byte_length (rk_public_key_pem k) \<le> max_public_key_bytes \<and> valid_unicode (rk_public_key_pem k)
     \<and> is_digest (rk_fingerprint k) \<and> validate_repository (repository_value (rk_repository k)) = Inr (rk_repository k)
     \<and> valid_time (rk_valid_from k) \<and> valid_time (rk_valid_until k) \<and> rk_valid_from k < rk_valid_until k
     \<and> (case rk_revoked_at k of None \<Rightarrow> True | Some t \<Rightarrow> rk_valid_from k \<le> t \<and> t \<le> rk_valid_until k)"

definition valid_registry :: "'k crypto \<Rightarrow> registry \<Rightarrow> bool" where
  "valid_registry cr r \<longleftrightarrow> rg_keys r \<noteq> [] \<and> length (rg_keys r) \<le> 128 \<and> length (rg_revoked_authorization_ids r) \<le> 10000
     \<and> (\<forall>k \<in> set (rg_keys r). valid_registry_key k) \<and> check_registry_keys cr [] [] [] (rg_keys r) = Inr ()
     \<and> (\<forall>s \<in> set (rg_revoked_authorization_ids r). valid_name s) \<and> distinct (rg_revoked_authorization_ids r)"

lemma wire_registry_key:
  assumes "valid_registry_key k" "denotes (registry_key_value k) j"
  shows "validate_registry_key (of_json j) = Inr k"
proof -
  have keys: "record_with (of_json j) [''keyId'', ''signerId'', ''algorithm'', ''publicKeyPem'', ''fingerprint'', ''repository'',
      ''validFrom'', ''validUntil'', ''revokedAt''] l f = f (of_json j)" for l and f :: "jsval \<Rightarrow> registry_key result"
    by (rule denotes_record_with [OF assms(2) [unfolded registry_key_value_def]]) simp
  have fields: "list_all (\<lambda>(k, v). reads_back v (get (of_json j) k))
     [(js ''keyId'', JStr (rk_key_id k)), (js ''signerId'', JStr (rk_signer_id k)), (js ''algorithm'', JStr (js ''Ed25519'')),
      (js ''publicKeyPem'', JStr (rk_public_key_pem k)), (js ''fingerprint'', JStr (rk_fingerprint k)),
      (js ''repository'', repository_value (rk_repository k)), (js ''validFrom'', jint (rk_valid_from k)),
      (js ''validUntil'', jint (rk_valid_until k)), (js ''revokedAt'', optional_int (rk_revoked_at k))]"
    by (rule denotes_fields [OF assms(2) [unfolded registry_key_value_def]]) simp
  note fields = fields [simplified list.pred_inject prod.case reads_back_scalar]
  have parts: "reads_back (repository_value (rk_repository k)) (get (of_json j) (js ''repository''))"
    "reads_back (optional_int (rk_revoked_at k)) (get (of_json j) (js ''revokedAt''))"
    using fields by blast+
  have repository: "validate_repository (get (of_json j) (js ''repository'')) = Inr (rk_repository k)"
    using assms(1) by (simp add: reads_back_sections(1) [OF parts(1)] valid_registry_key_def)
  have revoked: "get (of_json j) (js ''revokedAt'') = optional_int (rk_revoked_at k)"
    by (rule reads_back_sections(8) [OF parts(2)])
  have rk: "k = \<lparr>rk_key_id = rk_key_id k, rk_signer_id = rk_signer_id k, rk_public_key_pem = rk_public_key_pem k,
      rk_fingerprint = rk_fingerprint k, rk_repository = rk_repository k, rk_valid_from = rk_valid_from k,
      rk_valid_until = rk_valid_until k, rk_revoked_at = rk_revoked_at k\<rparr>" by simp
  show ?thesis
    using assms(1) fields unfolding validate_registry_key_def keys valid_registry_key_def valid_name_def valid_time_def revoked
    by (cases "rk_revoked_at k") (simp_all add: result_simps repository optional_int_def)
qed

lemma wire_registry:
  assumes "valid_registry cr r" "denotes (registry_value r) j"
  shows "validate_registry cr (of_json j) = Inr r"
proof -
  have keys: "record_with (of_json j) [''version'', ''keys'', ''revokedAuthorizationIds''] l f = f (of_json j)"
    for l and f :: "jsval \<Rightarrow> registry result"
    by (rule denotes_record_with [OF assms(2) [unfolded registry_value_def]]) simp
  have fields: "list_all (\<lambda>(k, v). reads_back v (get (of_json j) k))
     [(js ''version'', jint 1), (js ''keys'', arr (map registry_key_value (rg_keys r))),
      (js ''revokedAuthorizationIds'', arr (map JStr (rg_revoked_authorization_ids r)))]"
    by (rule denotes_fields [OF assms(2) [unfolded registry_value_def]]) simp
  note fields = fields [simplified list.pred_inject prod.case reads_back_scalar]
  from fields obtain zs where zs: "list_all2 denotes (map registry_key_value (rg_keys r)) zs"
    "get (of_json j) (js ''keys'') = arr (map of_json zs)"
    by (auto simp: reads_back_def denotes_arr_iff)
  from fields obtain us where us: "list_all2 denotes (map JStr (rg_revoked_authorization_ids r)) us"
    "get (of_json j) (js ''revokedAuthorizationIds'') = arr (map of_json us)"
    by (auto simp: reads_back_def denotes_arr_iff)
  have len: "length zs = length (rg_keys r)" "length us = length (rg_revoked_authorization_ids r)"
    using list_all2_lengthD [OF zs(1)] list_all2_lengthD [OF us(1)] by simp_all
  have "list_all2 (\<lambda>v k. validate_registry_key v = Inr k) (map of_json zs) (rg_keys r)"
    using zs(1) assms(1) wire_registry_key by (auto simp: list_all2_conv_all_nth valid_registry_def)
  then have ks: "mapR validate_registry_key (map of_json zs) = Inr (rg_keys r)" by (simp add: mapR_eq_Inr)
  have "list_all2 (\<lambda>v s. valid_identifier v ''revoked authorization id'' = Inr s) (map of_json us) (rg_revoked_authorization_ids r)"
    using us(1) assms(1) by (auto simp: list_all2_conv_all_nth valid_registry_def valid_name_def valid_identifier_eq)
  then have revoked: "mapR (\<lambda>v. valid_identifier v ''revoked authorization id'') (map of_json us) = Inr (rg_revoked_authorization_ids r)"
    by (simp add: mapR_eq_Inr)
  show ?thesis
    using assms(1) fields len unfolding validate_registry_def keys Let_def zs(2) us(2) elements_arr ks revoked valid_registry_def
    by (simp add: ow_if_def)
qed

lemma valid_name_unicode [simp]: "valid_name s \<Longrightarrow> valid_unicode s"
  by (simp add: valid_name_def)

lemma valid_time_safe: "valid_time n \<Longrightarrow> n \<le> max_safe \<and> - n \<le> max_safe"
  by (simp add: valid_time_def max_timestamp_def max_safe_def)

lemma wf_registry_value [simp]: "wf_jsval (registry_key_value k)" "wf_jsval (registry_value r)"
  by (auto simp: registry_key_value_def registry_value_def)

lemma registry_key_prints:
  assumes "valid_registry_key k"
  shows "is_ok (canonical_json (registry_key_value k))"
proof -
  have repository: "ok_repository (rk_repository k)"
    using assms by (auto simp: valid_registry_key_def dest: validate_repository_ok)
  have revoked: "is_ok (canonical_json (optional_int (rk_revoked_at k)))"
    using assms valid_time_safe [of "rk_valid_from k"] valid_time_safe [of "rk_valid_until k"]
    by (intro scope_value_ok(8)) (auto simp: valid_registry_key_def safe_int_def abs_le_iff split: option.splits)
  show ?thesis
    unfolding registry_key_value_def using assms
    by (intro canonical_obj_ok)
      (simp_all add: scope_value_ok repository revoked valid_registry_key_def digest_unicode valid_time_safe abs_le_iff)
qed

lemma registry_prints:
  assumes "valid_registry cr r"
  shows "is_ok (canonical_json (registry_value r))"
proof -
  have "is_ok (canonical_json (arr (map registry_key_value (rg_keys r))))"
    using assms registry_key_prints by (intro canonical_arr_ok) (auto simp: valid_registry_def list_all_iff)
  moreover have "is_ok (canonical_json (arr (map JStr (rg_revoked_authorization_ids r))))"
    using assms by (intro canonical_arr_ok) (auto simp: valid_registry_def list_all_iff valid_name_def simp flip: same_json_refl)
  moreover have "1 \<le> max_safe" by (simp add: max_safe_def)
  ultimately show ?thesis
    unfolding registry_value_def by (intro canonical_obj_ok) simp_all
qed

section \<open>A sample registry on a sample host\<close>

text \<open>A stand-in for the key functions: a key is its PEM text, and a signature is the first 64 bytes of the message padded with zeros.\<close>

definition sample_crypto :: "jsstr crypto" where
  "sample_crypto = \<lparr>cr_hash = sample_hash, cr_import = Some, cr_pem = Some, cr_type = (\<lambda>_. js ''ed25519''), cr_der = utf8,
     cr_verify = (\<lambda>_ m sig. sig = take 64 (m @ replicate 64 0))\<rparr>"

definition sample_key :: registry_key where
  "sample_key = \<lparr>rk_key_id = js ''key-1'', rk_signer_id = js ''signer-1'', rk_public_key_pem = js ''pem'',
     rk_fingerprint = sha256 sample_hash (utf8 (js ''pem'')), rk_repository = sample_repository, rk_valid_from = 1000,
     rk_valid_until = 900000, rk_revoked_at = None\<rparr>"

definition sample_registry :: registry where
  "sample_registry = \<lparr>rg_keys = [sample_key], rg_revoked_authorization_ids = []\<rparr>"

definition registry_text :: "registry \<Rightarrow> jsstr" where
  "registry_text r = (case canonical_json (registry_value r) of Inl _ \<Rightarrow> [] | Inr t \<Rightarrow> t)"

definition sample_stat :: file_stat where
  "sample_stat = \<lparr>st_symlink = False, st_file = True, st_dev = 1, st_ino = 2, st_size = 600, st_mode = 0x8180, st_uid = 1000\<rparr>"

definition host_with :: "jsstr \<Rightarrow> host" where
  "host_with contents = \<lparr>ho_win32 = False, ho_uid = Some 1000, ho_workspace_root = js ''/srv/app'',
     ho_registry_env = Some (js ''/etc/owner/keys.json''), ho_lstat = (\<lambda>_. Some sample_stat), ho_realpath = Some,
     ho_open = (\<lambda>_. Some sample_stat), ho_read = (\<lambda>_. Some contents)\<rparr>"

definition sample_host :: host where
  "sample_host = host_with (registry_text sample_registry)"

definition sample_path :: jsstr where
  "sample_path = js ''/etc/owner/keys.json''"

lemma sample_registry_valid: "valid_registry sample_crypto sample_registry"
proof -
  have key: "valid_registry_key sample_key"
  proof -
    have "is_digest (rk_fingerprint sample_key)" by (simp add: sample_key_def sha256_is_digest hash32_sample)
    moreover have "byte_length (js ''pem'') \<le> max_public_key_bytes" by code_simp
    ultimately show ?thesis
      using sample_scalars_valid sample_repository_valid by (simp add: valid_registry_key_def sample_key_def)
  qed
  have "parse_registry_public_key sample_crypto sample_key = Inr (js ''pem'')"
    by (simp add: parse_registry_public_key_def sample_crypto_def sample_key_def)
  moreover have "is_ok (registry_scope sample_key)"
    unfolding registry_scope_def using key
    by (intro canonical_obj_ok)
      (auto simp: scope_value_ok valid_registry_key_def valid_name_def dest: validate_repository_ok)
  ultimately have "check_registry_keys sample_crypto [] [] [] [sample_key] = Inr ()"
    by (auto simp: is_ok_iff)
  with key show ?thesis by (simp add: valid_registry_def sample_registry_def)
qed

lemma sample_read_file:
  "read_registry_file (host_with contents) sample_path = Some \<lparr>rf_canonical_path = sample_path, rf_contents = contents\<rparr>"
proof -
  have "\<not> inside_workspace (js ''/srv/app'') sample_path" by code_simp
  moreover have "(0x8180 :: 32 word) AND 0x3F = 0" by simp
  ultimately show ?thesis
    by (simp add: read_registry_file_def host_with_def sample_stat_def max_registry_bytes_def)
qed

lemma sample_path_absolute: "is_absolute sample_path"
  by code_simp

lemma read_registry_text:
  assumes "valid_registry cr r" "byte_length (registry_text r) \<le> max_registry_bytes"
  shows "read_registry cr (host_with (registry_text r)) sample_path = Inr (sample_path, r)"
proof -
  have printed: "canonical_json (registry_value r) = Inr (registry_text r)"
    using registry_prints [OF assms(1)] by (auto simp: registry_text_def is_ok_iff)
  from canonical_parse_denotes [OF wf_registry_value(2) printed] obtain j where j: "denotes (registry_value r) j"
    and parse: "\<And>m l. limit_ok m \<Longrightarrow> int (byte_length (registry_text r)) \<le> m \<Longrightarrow>
      parse_canonical_json (RawString (registry_text r)) m l = Inr (of_json j)" by auto
  have "limit_ok (int max_registry_bytes)" by (simp add: limit_ok_def max_registry_bytes_def max_safe_def)
  then have text_ok: "ow_parse_canonical (RawString (registry_text r)) max_registry_bytes ''owner key registry'' = Inr (of_json j)"
    using parse assms(2) by (simp add: ow_parse_canonical_def)
  have "read_owner_only_file (host_with (registry_text r)) sample_path = Inr \<lparr>rf_canonical_path = sample_path, rf_contents = registry_text r\<rparr>"
    unfolding read_owner_only_file_eq using sample_path_absolute sample_read_file by blast
  then show ?thesis
    unfolding read_registry_def by (simp only: bindR_simps registry_file.simps text_ok wire_registry [OF assms(1) j])
qed

lemma sample_registry_size: "byte_length (registry_text sample_registry) \<le> max_registry_bytes"
proof -
  have "canonical_json (registry_value sample_registry) = Inr (registry_text sample_registry)"
    using registry_prints [OF sample_registry_valid] by (auto simp: registry_text_def is_ok_iff)
  from canonical_byte_bound [OF this] have "byte_length (registry_text sample_registry) \<le> 3 * text_bound (registry_value sample_registry)"
    by simp
  also have "\<dots> \<le> max_registry_bytes"
  proof -
    have "length (rk_fingerprint sample_key) = 71"
      using sha256_hex_n [OF hash32_sample] by (simp add: sample_key_def sha256_def hex_n_def)
    then have fingerprint: "quote_width (rk_fingerprint sample_key) \<le> 426"
      using quote_width_le [of "rk_fingerprint sample_key"] by simp
    have names: "quote_width (js s) \<le> 6 * length s" for s using quote_width_le [of "js s"] by simp
    have "text_bound (registry_key_value sample_key) \<le> 3000"
      using fingerprint names [of "''keyId''"] names [of "''signerId''"] names [of "''algorithm''"] names [of "''publicKeyPem''"]
        names [of "''fingerprint''"] names [of "''repository''"] names [of "''validFrom''"] names [of "''validUntil''"]
        names [of "''revokedAt''"] names [of "''key-1''"] names [of "''signer-1''"] names [of "''Ed25519''"] names [of "''pem''"]
        names [of "''slug''"] names [of "''id''"] names [of "''ownerId''"] names [of "''acme/app''"]
      by (simp add: registry_key_value_def sample_key_def repository_value_def sample_repository_def optional_int_def
          int_text_def nat_text.simps)
    then show ?thesis
      using names [of "''version''"] names [of "''keys''"] names [of "''revokedAuthorizationIds''"]
      by (simp add: registry_value_def sample_registry_def int_text_def nat_text.simps max_registry_bytes_def)
  qed
  finally show ?thesis .
qed

lemma sample_read_registry: "read_registry sample_crypto sample_host sample_path = Inr (sample_path, sample_registry)"
  unfolding sample_host_def by (rule read_registry_text [OF sample_registry_valid sample_registry_size])

lemma registry_selected:
  assumes "ok_repository (pl_repository p)"
  shows "read_and_select_registry_key cr h path p now = Inr vk \<longleftrightarrow>
    (\<exists>reg. read_registry cr h path = Inr (vk_canonical_path vk, reg) \<and>
      pl_authorization_id p \<notin> set (rg_revoked_authorization_ids reg) \<and> vk_entry vk \<in> set (rg_keys reg) \<and>
      key_authorizes (vk_entry vk) p now \<and> parse_registry_public_key cr (vk_entry vk) = Inr (vk_public_key vk))"
proof -
  have reg: "\<exists>v. validate_registry cr v = Inr reg" if "read_registry cr h path = Inr (c, reg)" for c reg
    using that by (auto simp: read_registry_def bindR_eq_Inr)
  have "select_registry_key cr reg p now = Inr (k, key) \<longleftrightarrow>
      pl_authorization_id p \<notin> set (rg_revoked_authorization_ids reg) \<and> k \<in> set (rg_keys reg) \<and>
      key_authorizes k p now \<and> parse_registry_public_key cr k = Inr key"
    if "read_registry cr h path = Inr (c, reg)" for c reg k key
    using reg [OF that] select_registry_key_eq [OF _ assms] by metis
  then show ?thesis
    by (cases vk) (fastforce simp: read_and_select_registry_key_def bindR_eq_Inr)
qed

section \<open>Properties\<close>

text \<open>The wire format round-trips: the canonical JSON of a well-formed payload exists, and parsing and
  validating it (as \<open>verifyOwnerAuthorizationEnvelope\<close> does with the decoded payload bytes) gives the payload back.\<close>

theorem payload_wire_roundtrip:
  assumes "valid_payload p"
  shows "\<exists>t. canonical_json (payload_value p) = Inr t \<and>
    (byte_length t \<le> max_payload_bytes \<longrightarrow>
      bindR (ow_parse_canonical (RawString t) max_payload_bytes label) validate_payload = Inr p)"
proof -
  from payload_prints [OF assms] obtain t where t: "canonical_json (payload_value p) = Inr t" by (auto simp: is_ok_iff)
  from canonical_parse_denotes [OF wf_payload_value t] obtain j where j: "denotes (payload_value p) j"
    and parse: "\<And>m l. limit_ok m \<Longrightarrow> int (byte_length t) \<le> m \<Longrightarrow> parse_canonical_json (RawString t) m l = Inr (of_json j)" by auto
  have "limit_ok (int max_payload_bytes)" by code_simp
  with parse t wire_payload [OF assms j] show ?thesis
    by (intro exI [of _ t]) (simp add: ow_parse_canonical_def)
qed

lemma payload_wire_roundtrip_witness:
  "\<exists>t. canonical_json (payload_value sample_payload) = Inr t \<and>
    (byte_length t \<le> max_payload_bytes \<longrightarrow>
      bindR (ow_parse_canonical (RawString t) max_payload_bytes ''payload'') validate_payload = Inr sample_payload)"
  by (rule payload_wire_roundtrip [OF sample_payload_valid])

text \<open>The registry file is confined: whatever the file system answers, an accepted registry is an absolute path
  to a regular non-symlink file, opened as the same inode it was checked as, within the size limit, whose canonical
  path does not extend the workspace's, and (except on Windows) private to the current user.\<close>

theorem registry_file_confined:
  assumes "read_owner_only_file h path = Inr f"
  shows "is_absolute path \<and> (\<exists>before after workspace.
     ho_lstat h path = Some before \<and> st_file before \<and> \<not> st_symlink before \<and>
     ho_open h path = Some after \<and> st_file after \<and> (st_dev after, st_ino after) = (st_dev before, st_ino before) \<and>
     0 < st_size after \<and> st_size after \<le> int max_registry_bytes \<and>
     ho_realpath h path = Some (rf_canonical_path f) \<and> ho_realpath h (ho_workspace_root h) = Some workspace \<and>
     (\<nexists>rest. segments (rf_canonical_path f) = segments workspace @ rest) \<and>
     (ho_win32 h \<or> (st_mode after AND 0x3F = 0 \<and> (ho_uid h = None \<or> ho_uid h = Some (st_uid after)))))"
  using assms unfolding read_owner_only_file_eq read_registry_file_def
  by (auto simp: bind_eq_Some_conv inside_workspace_iff split: if_splits)

lemma registry_file_confined_witness:
  "is_absolute sample_path \<and> (\<exists>before after workspace.
     ho_lstat sample_host sample_path = Some before \<and> st_file before \<and> \<not> st_symlink before \<and>
     ho_open sample_host sample_path = Some after \<and> st_file after \<and> (st_dev after, st_ino after) = (st_dev before, st_ino before) \<and>
     0 < st_size after \<and> st_size after \<le> int max_registry_bytes \<and>
     ho_realpath sample_host sample_path = Some sample_path \<and>
     ho_realpath sample_host (ho_workspace_root sample_host) = Some workspace \<and>
     (\<nexists>rest. segments sample_path = segments workspace @ rest) \<and>
     (ho_win32 sample_host \<or> (st_mode after AND 0x3F = 0 \<and> (ho_uid sample_host = None \<or> ho_uid sample_host = Some (st_uid after)))))"
  using registry_file_confined [OF read_owner_only_file_eq [THEN iffD2, OF conjI [OF sample_path_absolute sample_read_file]],
      of "registry_text sample_registry"]
  by (simp add: sample_host_def)

text \<open>C17: key selection: a key is returned exactly when the registry file is accepted, the authorization id is not
  on its revocation list, and one of its keys has the payload's key id, signer and repository, is unrevoked, covers
  issue time, expiry and the current time, and parses as the canonical Ed25519 key of its fingerprint.\<close>

theorem registry_selection:
  assumes "ok_repository (pl_repository p)"
  shows "read_and_select_registry_key cr h path p now = Inr vk \<longleftrightarrow>
    (\<exists>reg. read_registry cr h path = Inr (vk_canonical_path vk, reg) \<and>
      pl_authorization_id p \<notin> set (rg_revoked_authorization_ids reg) \<and> vk_entry vk \<in> set (rg_keys reg) \<and>
      key_authorizes (vk_entry vk) p now \<and> parse_registry_public_key cr (vk_entry vk) = Inr (vk_public_key vk))"
  using assms by (rule registry_selected)

lemma registry_selection_witness:
  "read_and_select_registry_key sample_crypto sample_host sample_path sample_payload 3000 =
     Inr \<lparr>vk_entry = sample_key, vk_public_key = js ''pem'', vk_canonical_path = sample_path\<rparr>"
proof -
  have p: "ok_repository (pl_repository sample_payload)"
    using valid_bindings_ok [OF sample_bindings_valid] by (simp add: ok_bindings_def sample_payload_def Let_def)
  have "pl_authorization_id sample_payload \<notin> set (rg_revoked_authorization_ids sample_registry)"
    "sample_key \<in> set (rg_keys sample_registry)" by (simp_all add: sample_registry_def)
  moreover have "key_authorizes sample_key sample_payload 3000"
    by (simp add: key_authorizes_def sample_key_def sample_payload_def sample_bindings_def Let_def)
  moreover have "parse_registry_public_key sample_crypto sample_key = Inr (js ''pem'')"
    by (simp add: parse_registry_public_key_def sample_crypto_def sample_key_def)
  ultimately show ?thesis
    unfolding registry_selection [OF p] using sample_read_registry by auto
qed

end
