(* ===== verification/Evolution.thy ===== *)
theory Evolution
  imports Prelude
begin

text \<open>
  The contract shared by the components that hold authority in a store that many callers
  touch: entries are found under a key, every operation keeps the store's invariant, an entry
  only grows, and a spent entry never changes again. The clients prove their facts about
  arbitrary sequences of operations here, once; each component interprets the contract on its
  own step relation.
\<close>

locale evolving =
  fixes step :: "'s \<Rightarrow> 's \<Rightarrow> bool"
    and inv :: "'s \<Rightarrow> bool"
    and look :: "'s \<Rightarrow> 'i \<Rightarrow> 'v option"
    and grows :: "'v \<Rightarrow> 'v \<Rightarrow> bool"
  assumes step_inv: "inv s \<Longrightarrow> step s s' \<Longrightarrow> inv s'"
    and grows_refl: "grows a a"
    and grows_trans: "grows a b \<Longrightarrow> grows b c \<Longrightarrow> grows a c"
    and step_grows: "inv s \<Longrightarrow> step s s' \<Longrightarrow> look s i = Some a \<Longrightarrow> \<exists>b. look s' i = Some b \<and> grows a b"
begin

lemma steps_inv: "step\<^sup>*\<^sup>* s s' \<Longrightarrow> inv s \<Longrightarrow> inv s'"
  by (induction rule: rtranclp_induct) (auto intro: step_inv)

lemma steps_grow:
  assumes "step\<^sup>*\<^sup>* s s'" "inv s" "look s i = Some a"
  shows "\<exists>b. look s' i = Some b \<and> grows a b"
  using assms(1)
proof (induction rule: rtranclp_induct)
  case base
  show ?case using assms(3) grows_refl by blast
next
  case (step u w)
  then obtain b where b: "look u i = Some b" "grows a b" by blast
  have "inv u" using steps_inv [OF step.hyps(1) assms(2)] .
  from step_grows [OF this step.hyps(2) b(1)] b(2) show ?case using grows_trans by blast
qed

end

text \<open>A store whose entries can be spent, once.\<close>

locale one_shot = evolving step inv look grows
  for step :: "'s \<Rightarrow> 's \<Rightarrow> bool" and inv :: "'s \<Rightarrow> bool" and look :: "'s \<Rightarrow> 'i \<Rightarrow> 'v option"
    and grows :: "'v \<Rightarrow> 'v \<Rightarrow> bool" +
  fixes spent :: "'v \<Rightarrow> bool"
  assumes spent_final: "spent a \<Longrightarrow> grows a b \<Longrightarrow> b = a"
begin

lemma spent_forever:
  assumes "step\<^sup>*\<^sup>* s s'" "inv s" "look s i = Some a" "spent a"
  shows "look s' i = Some a"
  using steps_grow [OF assms(1-3)] spent_final [OF assms(4)] by blast

end

end
