(* ===== verification/OwnerGrant.thy ===== *)
theory OwnerGrant
  imports OwnerWire Evolution
begin

text \<open>
  packages/app/src/owner-authorization.ts, the operations: verifying an owner envelope
  (\<open>verifyOwnerAuthorizationEnvelope\<close>), re-checking a grant (\<open>assertCurrentOwnerGrant\<close>,
  \<open>ownerAuthorizationConsumption\<close>, \<open>assertCurrentConsumedOwnerGrant\<close>) and its one-way
  transition to consumed (\<open>markGrantConsumed\<close>). The module's \<open>WeakSet\<close> and \<open>WeakMap\<close> are the
  \<open>vault\<close>, a map from object identities to grant states; every operation is a function of the
  host it reads, the clock and the vault. The state machine of a vault under any sequence of
  these operations is \<open>vault_step\<close>.
\<close>

section \<open>State\<close>

record consumption =
  cn_authorization_id :: jsstr
  cn_envelope_id :: jsstr
  cn_envelope_digest :: jsstr
  cn_nonce_digest :: jsstr
  cn_signer_id :: jsstr
  cn_key_id :: jsstr
  cn_repository_slug :: jsstr
  cn_repository_id :: int
  cn_base_sha :: jsstr
  cn_preflight_id :: jsstr
  cn_artifact_digest :: jsstr
  cn_manifest_digest :: jsstr
  cn_candidate_branch :: jsstr
  cn_candidate_tree_sha :: jsstr
  cn_expires_at :: int

record receipt = consumption +
  cn_consumed_at :: int

datatype grant_status = Verified | Consumed

record grant_state =
  gs_status :: grant_status
  gs_payload :: payload
  gs_expected :: bindings
  gs_registry_path :: jsstr
  gs_key_fingerprint :: jsstr
  gs_payload_bytes :: "byte list"
  gs_signature_bytes :: "byte list"
  gs_consumption :: consumption
  gs_receipt :: "receipt option"

text \<open>A caller may hand in an object (with its identity) or something else.\<close>

datatype handle = HObject nat | HOther

record vault =
  va_next :: nat
  va_verified :: "nat \<Rightarrow> bool"
  va_states :: "nat \<Rightarrow> grant_state option"

definition empty_vault :: vault where
  "empty_vault = \<lparr>va_next = 0, va_verified = (\<lambda>_. False), va_states = (\<lambda>_. None)\<rparr>"

record verify_input =
  vi_expected :: jsval
  vi_challenge_digest :: jsval
  vi_registry_path :: jsval
  vi_now :: jsval

text \<open>\<open>input.now ?? Date.now()\<close>, where the clock is the argument.\<close>

definition input_now :: "jsval \<Rightarrow> int \<Rightarrow> jsval" where
  "input_now v clock = (if v = JUndef \<or> v = JNull then jint clock else v)"

section \<open>verifyOwnerAuthorizationEnvelope\<close>

definition signed_bytes :: "byte list \<Rightarrow> byte list" where
  "signed_bytes payload_bytes = utf8 signature_domain @ payload_bytes"

definition make_consumption :: "payload \<Rightarrow> jsstr \<Rightarrow> jsstr \<Rightarrow> consumption" where
  "make_consumption p envelope_digest nonce_digest =
     \<lparr>cn_authorization_id = pl_authorization_id p, cn_envelope_id = pl_envelope_id p,
      cn_envelope_digest = envelope_digest, cn_nonce_digest = nonce_digest, cn_signer_id = pl_signer_id p,
      cn_key_id = pl_key_id p, cn_repository_slug = rs_slug (pl_repository p), cn_repository_id = rs_id (pl_repository p),
      cn_base_sha = bs_sha (pl_base p), cn_preflight_id = pv_preflight_id (pl_preview p),
      cn_artifact_digest = pv_artifact_digest (pl_preview p), cn_manifest_digest = mn_digest (pl_manifest p),
      cn_candidate_branch = pv_candidate_branch (pl_preview p),
      cn_candidate_tree_sha = pv_candidate_tree_sha (pl_preview p), cn_expires_at = pl_expires_at p\<rparr>"

definition add_grant :: "vault \<Rightarrow> grant_state \<Rightarrow> nat \<times> vault" where
  "add_grant v st = (va_next v,
     \<lparr>va_next = Suc (va_next v), va_verified = (va_verified v)(va_next v := True),
      va_states = (va_states v)(va_next v := Some st)\<rparr>)"

definition verify_owner_authorization_envelope ::
  "'k crypto \<Rightarrow> host \<Rightarrow> int \<Rightarrow> jsstr \<Rightarrow> verify_input \<Rightarrow> vault \<Rightarrow> (nat \<times> vault) result" where
  "verify_owner_authorization_envelope cr h clock envelope_json input v =
     bindR (valid_timestamp (input_now (vi_now input) clock) ''verification clock'') (\<lambda>now.
     bindR (validate_expected_bindings (vi_expected input)) (\<lambda>expected.
     bindR (valid_digest (vi_challenge_digest input) ''expected challengeDigest'') (\<lambda>challenge.
     bindR (ow_parse_canonical (RawString envelope_json) max_envelope_bytes ''owner authorization envelope'') (\<lambda>raw.
     bindR (as_record raw ''owner authorization envelope'') (\<lambda>envelope.
     thenR (assert_exact_keys envelope [''version'', ''keyId'', ''payload'', ''signature''] ''envelope'')
     (thenR (ow_if (get envelope (js ''version'') \<noteq> jint 1) ''unsupported envelope version'')
     (bindR (valid_identifier (get envelope (js ''keyId'')) ''envelope keyId'') (\<lambda>key_id.
      bindR (valid_bounded_string (get envelope (js ''payload'')) ''payload'' max_envelope_bytes) (\<lambda>encoded_payload.
      bindR (valid_bounded_string (get envelope (js ''signature'')) ''signature'' 256) (\<lambda>encoded_signature.
      bindR (decode_canonical_base64url encoded_payload ''payload'') (\<lambda>payload_bytes.
      thenR (ow_if (length payload_bytes = 0 \<or> max_payload_bytes < length payload_bytes) ''payload exceeds the supported size'')
     (bindR (decode_utf8_exactly payload_bytes ''payload'') (\<lambda>payload_json.
      bindR (ow_parse_canonical (RawString payload_json) max_payload_bytes ''owner authorization payload'') (\<lambda>pv.
      bindR (validate_payload pv) (\<lambda>p.
      thenR (ow_if (pl_key_id p \<noteq> key_id) ''envelope keyId does not match payload keyId'')
     (thenR (ow_if (pl_challenge_digest p \<noteq> challenge) ''signed payload does not bind the exact issued owner challenge'')
     (bindR (decode_canonical_base64url encoded_signature ''signature'') (\<lambda>signature_bytes.
      thenR (ow_if (length signature_bytes \<noteq> 64) ''Ed25519 signature must be exactly 64 bytes'')
     (thenR (assert_payload_times p now)
     (thenR (assert_expected_bindings p expected)
     (bindR (resolve_registry_path h (vi_registry_path input)) (\<lambda>registry_path.
      bindR (read_and_select_registry_key cr h registry_path p now) (\<lambda>registry_key.
      thenR (ow_if (\<not> cr_verify cr (vk_public_key registry_key) (signed_bytes payload_bytes) signature_bytes)
        ''Ed25519 signature verification failed'')
     (bindR (decode_canonical_base64url (pl_nonce p) ''nonce'') (\<lambda>nonce_bytes.
      Inr (add_grant v
        \<lparr>gs_status = Verified, gs_payload = p, gs_expected = expected, gs_registry_path = vk_canonical_path registry_key,
         gs_key_fingerprint = rk_fingerprint (vk_entry registry_key), gs_payload_bytes = payload_bytes,
         gs_signature_bytes = signature_bytes,
         gs_consumption = make_consumption p (sha256 (cr_hash cr) (utf8 envelope_json)) (sha256 (cr_hash cr) nonce_bytes),
         gs_receipt = None\<rparr>))))))))))))))))))))))))))"

section \<open>Grants\<close>

definition grant_state_of :: "vault \<Rightarrow> handle \<Rightarrow> grant_state result" where
  "grant_state_of v g =
     (case g of
        HOther \<Rightarrow> ow ''invalid owner authorization grant''
      | HObject i \<Rightarrow>
          (if \<not> va_verified v i then ow ''invalid owner authorization grant''
           else case va_states v i of None \<Rightarrow> ow ''invalid owner authorization grant'' | Some st \<Rightarrow> Inr st))"

definition active_grant_state :: "vault \<Rightarrow> handle \<Rightarrow> grant_state result" where
  "active_grant_state v g =
     bindR (grant_state_of v g) (\<lambda>st.
       if gs_status st \<noteq> Verified then ow ''owner authorization grant has already been consumed'' else Inr st)"

definition assert_registry_still_authorizes :: "'k crypto \<Rightarrow> host \<Rightarrow> grant_state \<Rightarrow> jsstr \<Rightarrow> int \<Rightarrow> unit result" where
  "assert_registry_still_authorizes cr h st path now =
     bindR (read_and_select_registry_key cr h path (gs_payload st) now) (\<lambda>registry_key.
     thenR (ow_if (vk_canonical_path registry_key \<noteq> gs_registry_path st) ''owner key registry changed'')
     (thenR (ow_if (rk_fingerprint (vk_entry registry_key) \<noteq> gs_key_fingerprint st) ''owner signing key changed'')
     (ow_if (\<not> cr_verify cr (vk_public_key registry_key) (signed_bytes (gs_payload_bytes st)) (gs_signature_bytes st))
        ''owner signature is no longer valid'')))"

definition requested_path :: "host \<Rightarrow> grant_state \<Rightarrow> jsval \<Rightarrow> jsstr result" where
  "requested_path h st v = (if v = JUndef then Inr (gs_registry_path st) else resolve_registry_path h v)"

definition assert_current_owner_grant ::
  "'k crypto \<Rightarrow> host \<Rightarrow> int \<Rightarrow> vault \<Rightarrow> handle \<Rightarrow> verify_input \<Rightarrow> handle result" where
  "assert_current_owner_grant cr h clock v g input =
     bindR (active_grant_state v g) (\<lambda>st.
     bindR (valid_timestamp (input_now (vi_now input) clock) ''verification clock'') (\<lambda>now.
     bindR (validate_expected_bindings (vi_expected input)) (\<lambda>expected.
     thenR (assert_expected_bindings (gs_payload st) expected)
     (thenR (assert_payload_times (gs_payload st) now)
     (bindR (requested_path h st (vi_registry_path input)) (\<lambda>path.
      thenR (assert_registry_still_authorizes cr h st path now) (Inr g)))))))"

text \<open>
  The optional members of \<open>input\<close>: an absent \<open>expected\<close> is replaced by the grant's own
  bindings, and absent members are not passed on.
\<close>

definition owner_authorization_consumption ::
  "'k crypto \<Rightarrow> host \<Rightarrow> int \<Rightarrow> vault \<Rightarrow> handle \<Rightarrow> verify_input \<Rightarrow> consumption result" where
  "owner_authorization_consumption cr h clock v g input =
     bindR (active_grant_state v g) (\<lambda>st.
     bindR (assert_current_owner_grant cr h clock v g
       (input\<lparr>vi_expected := (if vi_expected input = JUndef \<or> vi_expected input = JNull
          then bindings_value (gs_expected st) else vi_expected input)\<rparr>)) (\<lambda>_.
     Inr (gs_consumption st)))"

section \<open>Receipts\<close>

definition receipt_keys :: "string list" where
  "receipt_keys = [''authorizationId'', ''envelopeId'', ''envelopeDigest'', ''nonceDigest'', ''signerId'', ''keyId'',
     ''repositorySlug'', ''repositoryId'', ''baseSha'', ''preflightId'', ''artifactDigest'', ''manifestDigest'',
     ''candidateBranch'', ''candidateTreeSha'', ''expiresAt'', ''consumedAt'']"

definition validate_receipt :: "jsval \<Rightarrow> receipt result" where
  "validate_receipt v =
     record_with v receipt_keys ''durable consumption receipt'' (\<lambda>obj.
     bindR (valid_bounded_string (get obj (js ''repositorySlug'')) ''receipt repositorySlug'' 140) (\<lambda>slug.
     bindR (parse_repository_slug slug) (\<lambda>_.
     bindR (valid_bounded_string (get obj (js ''preflightId'')) ''receipt preflightId'' 67) (\<lambda>preflight.
     thenR (ow_if (\<not> is_preflight_id preflight) ''invalid receipt preflightId'')
     (bindR (valid_bounded_string (get obj (js ''candidateBranch'')) ''receipt candidateBranch'' 240) (\<lambda>branch.
      bindR (validate_branch_name branch) (\<lambda>_.
      bindR (valid_identifier (get obj (js ''authorizationId'')) ''receipt authorizationId'') (\<lambda>authorization_id.
      bindR (valid_identifier (get obj (js ''envelopeId'')) ''receipt envelopeId'') (\<lambda>envelope_id.
      bindR (normalize_digest (get obj (js ''envelopeDigest'')) ''receipt envelopeDigest'') (\<lambda>envelope_digest.
      bindR (normalize_digest (get obj (js ''nonceDigest'')) ''receipt nonceDigest'') (\<lambda>nonce_digest.
      bindR (valid_identifier (get obj (js ''signerId'')) ''receipt signerId'') (\<lambda>signer_id.
      bindR (valid_identifier (get obj (js ''keyId'')) ''receipt keyId'') (\<lambda>key_id.
      bindR (valid_positive_integer (get obj (js ''repositoryId'')) ''receipt repositoryId'') (\<lambda>repository_id.
      bindR (valid_git_sha (get obj (js ''baseSha'')) ''receipt baseSha'') (\<lambda>base_sha.
      bindR (normalize_digest (get obj (js ''artifactDigest'')) ''receipt artifactDigest'') (\<lambda>artifact.
      bindR (normalize_digest (get obj (js ''manifestDigest'')) ''receipt manifestDigest'') (\<lambda>manifest.
      bindR (valid_git_sha (get obj (js ''candidateTreeSha'')) ''receipt candidateTreeSha'') (\<lambda>tree.
      bindR (valid_timestamp (get obj (js ''expiresAt'')) ''receipt expiresAt'') (\<lambda>expires.
      bindR (valid_timestamp (get obj (js ''consumedAt'')) ''receipt consumedAt'') (\<lambda>consumed.
      Inr \<lparr>cn_authorization_id = authorization_id, cn_envelope_id = envelope_id, cn_envelope_digest = envelope_digest,
           cn_nonce_digest = nonce_digest, cn_signer_id = signer_id, cn_key_id = key_id,
           cn_repository_slug = to_lower slug, cn_repository_id = repository_id, cn_base_sha = base_sha,
           cn_preflight_id = preflight, cn_artifact_digest = artifact, cn_manifest_digest = manifest,
           cn_candidate_branch = branch, cn_candidate_tree_sha = tree, cn_expires_at = expires,
           cn_consumed_at = consumed\<rparr>))))))))))))))))))))"

definition consumption_value :: "consumption \<Rightarrow> jsval" where
  "consumption_value c = obj
     [(js ''authorizationId'', JStr (cn_authorization_id c)), (js ''envelopeId'', JStr (cn_envelope_id c)),
      (js ''envelopeDigest'', JStr (cn_envelope_digest c)), (js ''nonceDigest'', JStr (cn_nonce_digest c)),
      (js ''signerId'', JStr (cn_signer_id c)), (js ''keyId'', JStr (cn_key_id c)),
      (js ''repositorySlug'', JStr (cn_repository_slug c)), (js ''repositoryId'', jint (cn_repository_id c)),
      (js ''baseSha'', JStr (cn_base_sha c)), (js ''preflightId'', JStr (cn_preflight_id c)),
      (js ''artifactDigest'', JStr (cn_artifact_digest c)), (js ''manifestDigest'', JStr (cn_manifest_digest c)),
      (js ''candidateBranch'', JStr (cn_candidate_branch c)), (js ''candidateTreeSha'', JStr (cn_candidate_tree_sha c)),
      (js ''expiresAt'', jint (cn_expires_at c))]"

section \<open>markGrantConsumed and the consumed grant\<close>

definition mark_grant_consumed ::
  "'k crypto \<Rightarrow> host \<Rightarrow> int \<Rightarrow> vault \<Rightarrow> handle \<Rightarrow> jsval \<Rightarrow> (receipt \<times> vault) result" where
  "mark_grant_consumed cr h clock v g receipt =
     bindR (active_grant_state v g) (\<lambda>st.
     bindR (validate_receipt receipt) (\<lambda>normalized.
     thenR (unless_same_json (consumption_value (consumption.truncate normalized)) (consumption_value (gs_consumption st))
        ''durable consumption receipt does not match the verified grant'')
     (thenR (ow_if (cn_consumed_at normalized < pl_not_before (gs_payload st) \<or> cn_consumed_at normalized < pl_issued_at (gs_payload st)
          \<or> pl_expires_at (gs_payload st) \<le> cn_consumed_at normalized)
        ''durable consumption receipt is outside the authorization window'')
     (bindR (valid_timestamp (jint clock) ''post-consumption clock'') (\<lambda>now.
      thenR (assert_payload_times (gs_payload st) now)
     (thenR (assert_registry_still_authorizes cr h st (gs_registry_path st) now)
     (case g of
        HOther \<Rightarrow> ow ''unreachable: an active grant is an object''
      | HObject i \<Rightarrow> Inr (normalized,
          v\<lparr>va_states := (va_states v)(i := Some (st\<lparr>gs_status := Consumed, gs_receipt := Some normalized\<rparr>))\<rparr>))))))))"

definition consumed_receipt :: "grant_state \<Rightarrow> receipt result" where
  "consumed_receipt st =
     (if gs_status st \<noteq> Consumed then ow ''owner authorization grant has not been durably consumed''
      else case gs_receipt st of
        None \<Rightarrow> ow ''owner authorization grant has not been durably consumed''
      | Some r \<Rightarrow> Inr r)"

definition assert_consumed_owner_grant :: "vault \<Rightarrow> handle \<Rightarrow> receipt result" where
  "assert_consumed_owner_grant v g = bindR (grant_state_of v g) consumed_receipt"

definition owner_authorization_receipt :: "vault \<Rightarrow> handle \<Rightarrow> receipt result" where
  "owner_authorization_receipt v g = assert_consumed_owner_grant v g"

definition assert_current_consumed_owner_grant ::
  "'k crypto \<Rightarrow> host \<Rightarrow> int \<Rightarrow> vault \<Rightarrow> handle \<Rightarrow> verify_input \<Rightarrow> receipt result" where
  "assert_current_consumed_owner_grant cr h clock v g input =
     bindR (grant_state_of v g) (\<lambda>st.
     bindR (consumed_receipt st) (\<lambda>receipt.
     bindR (valid_timestamp (input_now (vi_now input) clock) ''verification clock'') (\<lambda>now.
     bindR (validate_expected_bindings (vi_expected input)) (\<lambda>expected.
     thenR (assert_expected_bindings (gs_payload st) expected)
     (thenR (assert_payload_times (gs_payload st) now)
     (bindR (requested_path h st (vi_registry_path input)) (\<lambda>path.
      thenR (assert_registry_still_authorizes cr h st path now) (Inr receipt))))))))"

section \<open>What a successful check means\<close>

text \<open>The registry, as the host shows it at this moment, lets the grant's key sign its payload.\<close>

definition authorized_now :: "'k crypto \<Rightarrow> host \<Rightarrow> jsstr \<Rightarrow> grant_state \<Rightarrow> int \<Rightarrow> bool" where
  "authorized_now cr h path st now \<longleftrightarrow>
     (\<exists>reg k key. read_registry cr h path = Inr (gs_registry_path st, reg)
        \<and> pl_authorization_id (gs_payload st) \<notin> set (rg_revoked_authorization_ids reg) \<and> k \<in> set (rg_keys reg)
        \<and> key_authorizes k (gs_payload st) now \<and> rk_fingerprint k = gs_key_fingerprint st
        \<and> parse_registry_public_key cr k = Inr key
        \<and> cr_verify cr key (signed_bytes (gs_payload_bytes st)) (gs_signature_bytes st))"

text \<open>The moment lies in the signed window, which is at most thirty minutes long.\<close>

definition in_window :: "payload \<Rightarrow> int \<Rightarrow> bool" where
  "in_window p now \<longleftrightarrow> pl_preview_completed_at p \<le> pl_issued_at p \<and> pl_issued_at p \<le> pl_not_before p
     \<and> pl_not_before p \<le> now \<and> now < pl_expires_at p \<and> pl_expires_at p \<le> pl_authorization_expires_at p
     \<and> pl_expires_at p - pl_issued_at p \<le> max_ttl_ms
     \<and> (CreatePullRequest \<in> set (pl_allowed_actions p) \<longleftrightarrow> pl_pull_request_number p = None)"

lemma assert_payload_times_window: "assert_payload_times p now = Inr () \<longleftrightarrow> in_window p now"
  unfolding assert_payload_times_eq in_window_def by auto

lemma valid_payload_repository: "valid_payload p \<Longrightarrow> ok_repository (pl_repository p)"
  using valid_bindings_ok [of "expected_bindings p"] by (simp add: valid_payload_def ok_bindings_def expected_bindings_def)

lemma assert_registry_still_authorizes_eq:
  assumes "valid_payload (gs_payload st)"
  shows "assert_registry_still_authorizes cr h st path now = Inr () \<longleftrightarrow> authorized_now cr h path st now"
proof -
  note sel = registry_selected [OF valid_payload_repository [OF assms]]
  show ?thesis
  proof
    assume "assert_registry_still_authorizes cr h st path now = Inr ()"
    then obtain vk where "read_and_select_registry_key cr h path (gs_payload st) now = Inr vk"
      "vk_canonical_path vk = gs_registry_path st" "rk_fingerprint (vk_entry vk) = gs_key_fingerprint st"
      "cr_verify cr (vk_public_key vk) (signed_bytes (gs_payload_bytes st)) (gs_signature_bytes st)"
      unfolding assert_registry_still_authorizes_def result_simps by blast
    then show "authorized_now cr h path st now" unfolding sel authorized_now_def by metis
  next
    assume "authorized_now cr h path st now"
    then obtain reg k key where a: "read_registry cr h path = Inr (gs_registry_path st, reg)"
      "pl_authorization_id (gs_payload st) \<notin> set (rg_revoked_authorization_ids reg)" "k \<in> set (rg_keys reg)"
      "key_authorizes k (gs_payload st) now" "rk_fingerprint k = gs_key_fingerprint st" "parse_registry_public_key cr k = Inr key"
      "cr_verify cr key (signed_bytes (gs_payload_bytes st)) (gs_signature_bytes st)" unfolding authorized_now_def by blast
    have "read_and_select_registry_key cr h path (gs_payload st) now =
        Inr \<lparr>vk_entry = k, vk_public_key = key, vk_canonical_path = gs_registry_path st\<rparr>"
      unfolding sel using a by auto
    then show "assert_registry_still_authorizes cr h st path now = Inr ()"
      using a by (simp add: assert_registry_still_authorizes_def ow_if_def)
  qed
qed

section \<open>The invariant of the vault\<close>

text \<open>What every stored grant is: a validated payload whose bytes carry the signature, with its own bindings as
  the expected ones, and a receipt exactly when it is consumed.\<close>

definition genuine :: "grant_state \<Rightarrow> bool" where
  "genuine st \<longleftrightarrow> valid_payload (gs_payload st) \<and> gs_expected st = expected_bindings (gs_payload st)
     \<and> (\<exists>pv t. canonical_json pv = Inr t \<and> gs_payload_bytes st = utf8 t \<and> validate_payload pv = Inr (gs_payload st))
     \<and> length (gs_signature_bytes st) = 64
     \<and> (\<exists>e n. gs_consumption st = make_consumption (gs_payload st) e n \<and> is_digest e \<and> is_digest n)
     \<and> (gs_status st = Consumed \<longleftrightarrow> gs_receipt st \<noteq> None)
     \<and> (\<forall>r. gs_receipt st = Some r \<longrightarrow> consumption.truncate r = gs_consumption st
          \<and> pl_not_before (gs_payload st) \<le> cn_consumed_at r \<and> cn_consumed_at r < pl_expires_at (gs_payload st))"

definition vault_ok :: "vault \<Rightarrow> bool" where
  "vault_ok v \<longleftrightarrow> (\<forall>i. va_verified v i \<longleftrightarrow> va_states v i \<noteq> None) \<and> (\<forall>i \<ge> va_next v. va_states v i = None)
     \<and> (\<forall>i st. va_states v i = Some st \<longrightarrow> genuine st)"

lemma grant_state_of_eq: "vault_ok v \<Longrightarrow> grant_state_of v g = Inr st \<longleftrightarrow> (\<exists>i. g = HObject i \<and> va_states v i = Some st)"
  by (auto simp: grant_state_of_def vault_ok_def split: handle.splits option.splits)

lemma active_grant_state_eq:
  "vault_ok v \<Longrightarrow> active_grant_state v g = Inr st \<longleftrightarrow> (\<exists>i. g = HObject i \<and> va_states v i = Some st) \<and> gs_status st = Verified"
  unfolding active_grant_state_def result_simps using grant_state_of_eq by auto

lemma ow_parse_canonical_eq: "ow_parse_canonical input m label = Inr v \<longleftrightarrow> parse_canonical_json input (int m) (js label) = Inr v"
  by (auto simp: ow_parse_canonical_def split: sum.splits)

lemma decode_utf8_exactly_eq: "decode_utf8_exactly bs label = Inr t \<longleftrightarrow> bs = utf8 t \<and> valid_unicode t"
  using utf8_decode_encode [of t]
  by (auto simp: decode_utf8_exactly_def Let_def valid_unicode_def split: sum.splits)

text \<open>Everything a successful verification has checked.\<close>

lemma verify_checks:
  assumes "verify_owner_authorization_envelope cr h clock envelope_json input v = Inr gv"
  obtains now expected challenge raw envelope key_id sig payload_bytes t pv p path vk nonce_bytes where
    "valid_timestamp (input_now (vi_now input) clock) ''verification clock'' = Inr now"
    "validate_expected_bindings (vi_expected input) = Inr expected"
    "valid_digest (vi_challenge_digest input) ''expected challengeDigest'' = Inr challenge"
    "parse_canonical_json (RawString envelope_json) (int max_envelope_bytes) (js ''owner authorization envelope'') = Inr raw"
    "as_record raw ''owner authorization envelope'' = Inr envelope"
    "get envelope (js ''keyId'') = JStr key_id" "get envelope (js ''payload'') = JStr (b64_encode payload_bytes)"
    "get envelope (js ''signature'') = JStr (b64_encode sig)"
    "payload_bytes = utf8 t" "valid_unicode t" "\<not> (length payload_bytes = 0 \<or> max_payload_bytes < length payload_bytes)"
    "parse_canonical_json (RawString t) (int max_payload_bytes) (js ''owner authorization payload'') = Inr pv" "validate_payload pv = Inr p"
    "pl_key_id p = key_id" "pl_challenge_digest p = challenge" "length sig = 64"
    "assert_payload_times p now = Inr ()" "assert_expected_bindings p expected = Inr ()"
    "resolve_registry_path h (vi_registry_path input) = Inr path"
    "read_and_select_registry_key cr h path p now = Inr vk"
    "cr_verify cr (vk_public_key vk) (signed_bytes payload_bytes) sig"
    "gv = add_grant v
        \<lparr>gs_status = Verified, gs_payload = p, gs_expected = expected, gs_registry_path = vk_canonical_path vk,
         gs_key_fingerprint = rk_fingerprint (vk_entry vk), gs_payload_bytes = payload_bytes, gs_signature_bytes = sig,
         gs_consumption = make_consumption p (sha256 (cr_hash cr) (utf8 envelope_json)) (sha256 (cr_hash cr) nonce_bytes),
         gs_receipt = None\<rparr>"
  using assms
  unfolding verify_owner_authorization_envelope_def bindR_eq_Inr thenR_eq_Inr ow_if_eq_Inr ow_parse_canonical_eq
    valid_identifier_eq valid_bounded_string_eq decode_canonical_base64url_eq decode_utf8_exactly_eq not_not sum.inject
  apply (elim exE conjE)
  apply hypsubst
  apply (rule that)
  apply (assumption | rule refl)+
  done

text \<open>The state a successful verification adds to the vault.\<close>

definition accepts :: "'k crypto \<Rightarrow> host \<Rightarrow> int \<Rightarrow> verify_input \<Rightarrow> grant_state \<Rightarrow> bool" where
  "accepts cr h clock input st \<longleftrightarrow>
     gs_status st = Verified \<and> gs_receipt st = None \<and> genuine st \<and>
     validate_expected_bindings (vi_expected input) = Inr (expected_bindings (gs_payload st)) \<and>
     vi_challenge_digest input = JStr (pl_challenge_digest (gs_payload st)) \<and>
     (\<exists>now path. valid_timestamp (input_now (vi_now input) clock) ''verification clock'' = Inr now \<and>
        in_window (gs_payload st) now \<and> resolve_registry_path h (vi_registry_path input) = Inr path \<and>
        authorized_now cr h path st now)"

lemma verify_accepts:
  assumes "hash32 (cr_hash cr)" "verify_owner_authorization_envelope cr h clock envelope_json input v = Inr gv"
  shows "\<exists>st. gv = add_grant v st \<and> accepts cr h clock input st"
proof -
  from assms(2) show ?thesis
  proof (rule verify_checks)
    fix now expected challenge raw envelope key_id sig payload_bytes t pv p path vk nonce_bytes
    assume facts: "valid_timestamp (input_now (vi_now input) clock) ''verification clock'' = Inr now"
      "validate_expected_bindings (vi_expected input) = Inr expected"
      "valid_digest (vi_challenge_digest input) ''expected challengeDigest'' = Inr challenge"
      "payload_bytes = utf8 t" "validate_payload pv = Inr p" "pl_challenge_digest p = challenge" "length sig = 64"
      "assert_payload_times p now = Inr ()" "assert_expected_bindings p expected = Inr ()"
      "resolve_registry_path h (vi_registry_path input) = Inr path"
      "read_and_select_registry_key cr h path p now = Inr vk"
      "cr_verify cr (vk_public_key vk) (signed_bytes payload_bytes) sig"
      and parse: "parse_canonical_json (RawString t) (int max_payload_bytes) (js ''owner authorization payload'') = Inr pv"
    let ?st = "\<lparr>gs_status = Verified, gs_payload = p, gs_expected = expected, gs_registry_path = vk_canonical_path vk,
         gs_key_fingerprint = rk_fingerprint (vk_entry vk), gs_payload_bytes = payload_bytes, gs_signature_bytes = sig,
         gs_consumption = make_consumption p (sha256 (cr_hash cr) (utf8 envelope_json)) (sha256 (cr_hash cr) nonce_bytes),
         gs_receipt = None\<rparr>"
    assume gv: "gv = add_grant v ?st"
    have p: "valid_payload p" using facts(5) by (rule validate_payload_valid)
    have expected: "expected = expected_bindings p"
      using facts(9) expected_bindings_agree [OF facts(5,2)] by simp
    have canonical: "canonical_json pv = Inr t" using parse by (rule parse_canonical_string_sound)
    have "genuine ?st"
      using p expected canonical facts(4,5,7) sha256_is_digest [OF assms(1)]
      by (auto simp: genuine_def)
    moreover have "authorized_now cr h path ?st now"
      using facts(11,12) unfolding registry_selected [OF valid_payload_repository [OF p]] authorized_now_def
      by auto
    ultimately have "accepts cr h clock input ?st"
      using facts expected by (auto simp: accepts_def assert_payload_times_window valid_digest_eq)
    with gv show ?thesis by blast
  qed
qed

section \<open>The consumption and receipt as values\<close>

definition ok_consumption :: "consumption \<Rightarrow> bool" where
  "ok_consumption c \<longleftrightarrow> list_all valid_unicode
     [cn_authorization_id c, cn_envelope_id c, cn_envelope_digest c, cn_nonce_digest c, cn_signer_id c, cn_key_id c,
      cn_repository_slug c, cn_base_sha c, cn_preflight_id c, cn_artifact_digest c, cn_manifest_digest c,
      cn_candidate_branch c, cn_candidate_tree_sha c] \<and> safe_int (cn_repository_id c) \<and> safe_int (cn_expires_at c)"

lemma same_consumption:
  assumes "ok_consumption c" "ok_consumption d"
  shows "same_json (consumption_value c) (consumption_value d) \<longleftrightarrow> c = d"
proof -
  have "same_json (consumption_value c) (consumption_value d) \<longleftrightarrow>
    cn_authorization_id c = cn_authorization_id d \<and> cn_envelope_id c = cn_envelope_id d
    \<and> cn_envelope_digest c = cn_envelope_digest d \<and> cn_nonce_digest c = cn_nonce_digest d \<and> cn_signer_id c = cn_signer_id d
    \<and> cn_key_id c = cn_key_id d \<and> cn_repository_slug c = cn_repository_slug d \<and> cn_repository_id c = cn_repository_id d
    \<and> cn_base_sha c = cn_base_sha d \<and> cn_preflight_id c = cn_preflight_id d \<and> cn_artifact_digest c = cn_artifact_digest d
    \<and> cn_manifest_digest c = cn_manifest_digest d \<and> cn_candidate_branch c = cn_candidate_branch d
    \<and> cn_candidate_tree_sha c = cn_candidate_tree_sha d \<and> cn_expires_at c = cn_expires_at d"
    using assms unfolding consumption_value_def ok_consumption_def
    by (subst same_json_obj_iff) (simp_all add: safe_int_def)
  then show ?thesis by auto
qed

lemma valid_unicode_lower:
  assumes "valid_unicode s" "is_ok (parse_repository_slug s)"
  shows "valid_unicode (to_lower s)"
proof (rule valid_unicode_basic)
  from assms(2) obtain owner repo where parts: "split_on 47 s = [owner, repo]" "owner_re owner" "repository_re repo"
    by (auto simp: parse_repository_slug_def is_ok_iff validate_slug_eq)
  have owner: "is_alnum c \<or> c = 45" if "c \<in> set owner" for c
  proof (cases owner)
    case (Cons a as)
    show ?thesis
    proof (cases "as = []")
      case False
      then have "set as = insert (last as) (set (butlast as))" by (metis append_butlast_last_id list.simps(15) rotate1.simps(2) set_rotate1)
      with parts(2) that Cons False show ?thesis by (auto simp: owner_re_def list_all_iff)
    qed (use parts(2) that Cons in \<open>auto simp: owner_re_def\<close>)
  qed (use that in simp)
  have repo: "is_alnum c \<or> c \<in> {45, 46, 95}" if "c \<in> set repo" for c
    using parts(3) that by (auto simp: repository_re_def list_all_iff in_class_def js_def js_char_def)
  have "s = owner @ 47 # repo" using split_on_join [of 47 s] parts(1) by simp
  then have chars: "is_alnum c \<or> c \<in> {45, 46, 47, 95}" if "c \<in> set s" for c
    using that owner repo by auto
  have "list_all is_basic (lower_unit c)" if "is_alnum c \<or> c \<in> {45, 46, 47, 95}" for c
    using that
    by (auto simp: lower_unit_def is_alnum_def is_digit_def is_lower_def is_upper_def word_le_nat_alt intro!: is_basic_less)
      (auto simp: unat_plus_if' intro!: is_basic_less)
  with chars show "list_all is_basic (to_lower s)" by (auto simp: to_lower_def list_all_iff)
qed

lemma normalize_digest_eq: "normalize_digest v label = Inr d \<Longrightarrow> is_digest d"
  by (auto simp: normalize_digest_def valid_digest_eq split: jsval.splits)

lemma validate_receipt_ok:
  assumes "validate_receipt v = Inr r"
  shows "ok_consumption (consumption.truncate r)"
proof -
  from assms obtain slug where slug: "valid_unicode slug" "is_ok (parse_repository_slug slug)" "cn_repository_slug r = to_lower slug"
    and rest: "valid_unicode (cn_preflight_id r)" "valid_unicode (cn_candidate_branch r)" "valid_unicode (cn_authorization_id r)"
      "valid_unicode (cn_envelope_id r)" "is_digest (cn_envelope_digest r)" "is_digest (cn_nonce_digest r)"
      "valid_unicode (cn_signer_id r)" "valid_unicode (cn_key_id r)" "is_git_sha (cn_base_sha r)" "is_digest (cn_artifact_digest r)"
      "is_digest (cn_manifest_digest r)" "is_git_sha (cn_candidate_tree_sha r)" "safe_int (cn_repository_id r)" "safe_int (cn_expires_at r)"
    unfolding validate_receipt_def result_simps is_ok_iff
    by (auto simp: positive_safe timestamp_safe dest!: normalize_digest_eq)
  then show ?thesis
    using valid_unicode_lower [OF slug(1,2)]
    by (simp add: ok_consumption_def consumption.defs digest_unicode git_sha_unicode)
qed

lemma make_consumption_ok:
  assumes "valid_payload p" "is_digest e" "is_digest n"
  shows "ok_consumption (make_consumption p e n)"
proof -
  have "ok_bindings (expected_bindings p)" using assms(1) by (intro valid_bindings_ok) (simp add: valid_payload_def)
  moreover have "safe_int (pl_expires_at p)" using assms(1) by (simp add: valid_payload_def valid_time_def timestamp_safe)
  ultimately show ?thesis
    using assms by (simp add: ok_consumption_def make_consumption_def ok_bindings_def expected_bindings_def ok_defs
        valid_payload_def digest_unicode)
qed

section \<open>The operations on a sound vault\<close>

definition consumes :: "grant_state \<Rightarrow> receipt \<Rightarrow> grant_state" where
  "consumes st r = st\<lparr>gs_status := Consumed, gs_receipt := Some r\<rparr>"

text \<open>The receipt is the one of this grant, taken inside the signed window.\<close>

definition receipt_matches :: "grant_state \<Rightarrow> receipt \<Rightarrow> bool" where
  "receipt_matches st r \<longleftrightarrow> consumption.truncate r = gs_consumption st
     \<and> pl_not_before (gs_payload st) \<le> cn_consumed_at r \<and> pl_issued_at (gs_payload st) \<le> cn_consumed_at r
     \<and> cn_consumed_at r < pl_expires_at (gs_payload st)"

lemma genuine_consumption_ok: "genuine st \<Longrightarrow> ok_consumption (gs_consumption st)"
  using make_consumption_ok by (auto simp: genuine_def)

lemma mark_grant_consumed_eq:
  assumes "vault_ok v"
  shows "mark_grant_consumed cr h clock v g rv = Inr (r, v') \<longleftrightarrow>
    (\<exists>i st. g = HObject i \<and> va_states v i = Some st \<and> gs_status st = Verified \<and> validate_receipt rv = Inr r
       \<and> receipt_matches st r \<and> valid_time clock \<and> in_window (gs_payload st) clock
       \<and> authorized_now cr h (gs_registry_path st) st clock
       \<and> v' = v\<lparr>va_states := (va_states v)(i := Some (consumes st r))\<rparr>)"
proof -
  have genuine: "genuine st" if "va_states v i = Some st" for i st using assms that by (simp add: vault_ok_def)
  have match: "unless_same_json (consumption_value (consumption.truncate r)) (consumption_value (gs_consumption st)) m = Inr ()
      \<longleftrightarrow> consumption.truncate r = gs_consumption st"
    if "genuine st" "validate_receipt rv = Inr r" for st r m
    using validate_receipt_ok [OF that(2)] genuine_consumption_ok [OF that(1)]
    by (simp add: unless_same_json_eq same_consumption)
  have clock: "valid_timestamp (jint clock) l = Inr now \<longleftrightarrow> valid_time clock \<and> now = clock" for l now
    by (auto simp: valid_timestamp_eq valid_time_def)
  have payload: "valid_payload (gs_payload st)" if "genuine st" for st using that by (simp add: genuine_def)
  show ?thesis
  proof
    assume "mark_grant_consumed cr h clock v g rv = Inr (r, v')"
    then obtain i st where m: "g = HObject i" "va_states v i = Some st" "gs_status st = Verified" "validate_receipt rv = Inr r"
      "unless_same_json (consumption_value (consumption.truncate r)) (consumption_value (gs_consumption st))
        ''durable consumption receipt does not match the verified grant'' = Inr ()"
      "\<not> (cn_consumed_at r < pl_not_before (gs_payload st) \<or> cn_consumed_at r < pl_issued_at (gs_payload st)
          \<or> pl_expires_at (gs_payload st) \<le> cn_consumed_at r)" "valid_time clock" "in_window (gs_payload st) clock"
      "assert_registry_still_authorizes cr h st (gs_registry_path st) clock = Inr ()"
      "v' = v\<lparr>va_states := (va_states v)(i := Some (consumes st r))\<rparr>"
      unfolding mark_grant_consumed_def bindR_eq_Inr thenR_eq_Inr ow_if_eq_Inr active_grant_state_eq [OF assms] clock
        assert_payload_times_window consumes_def by auto
    note gen = genuine [OF m(2)]
    have "receipt_matches st r" using m(6) match [OF gen m(4)] m(5) by (auto simp: receipt_matches_def)
    moreover have "authorized_now cr h (gs_registry_path st) st clock"
      using m(9) assert_registry_still_authorizes_eq [OF payload [OF gen]] by blast
    ultimately show "\<exists>i st. g = HObject i \<and> va_states v i = Some st \<and> gs_status st = Verified \<and> validate_receipt rv = Inr r
       \<and> receipt_matches st r \<and> valid_time clock \<and> in_window (gs_payload st) clock
       \<and> authorized_now cr h (gs_registry_path st) st clock
       \<and> v' = v\<lparr>va_states := (va_states v)(i := Some (consumes st r))\<rparr>" using m by blast
  next
    assume "\<exists>i st. g = HObject i \<and> va_states v i = Some st \<and> gs_status st = Verified \<and> validate_receipt rv = Inr r
       \<and> receipt_matches st r \<and> valid_time clock \<and> in_window (gs_payload st) clock
       \<and> authorized_now cr h (gs_registry_path st) st clock
       \<and> v' = v\<lparr>va_states := (va_states v)(i := Some (consumes st r))\<rparr>"
    then obtain i st where m: "g = HObject i" "va_states v i = Some st" "gs_status st = Verified" "validate_receipt rv = Inr r"
      "receipt_matches st r" "valid_time clock" "in_window (gs_payload st) clock"
      "authorized_now cr h (gs_registry_path st) st clock" "v' = v\<lparr>va_states := (va_states v)(i := Some (consumes st r))\<rparr>" by blast
    note gen = genuine [OF m(2)]
    have "active_grant_state v g = Inr st" using m active_grant_state_eq [OF assms] by blast
    moreover have "unless_same_json (consumption_value (consumption.truncate r)) (consumption_value (gs_consumption st)) l = Inr ()" for l
      using match [OF gen m(4)] m(5) by (simp add: receipt_matches_def)
    moreover have "assert_registry_still_authorizes cr h st (gs_registry_path st) clock = Inr ()"
      using m(8) assert_registry_still_authorizes_eq [OF payload [OF gen]] by blast
    moreover have "valid_timestamp (jint clock) l = Inr clock" for l using m(6) clock by blast
    moreover have "assert_payload_times (gs_payload st) clock = Inr ()" using m(7) assert_payload_times_window by blast
    ultimately show "mark_grant_consumed cr h clock v g rv = Inr (r, v')"
      using m by (auto simp: mark_grant_consumed_def ow_if_def receipt_matches_def consumes_def)
  qed
qed

lemma verify_new_grant:
  assumes "hash32 (cr_hash cr)" "verify_owner_authorization_envelope cr h clock envelope_json input v = Inr (i, v')"
  shows "i = va_next v \<and> (\<exists>st. v' = snd (add_grant v st) \<and> accepts cr h clock input st)"
  using verify_accepts [OF assms] by (auto simp: add_grant_def)

lemma add_grant_ok: "vault_ok v \<Longrightarrow> genuine st \<Longrightarrow> vault_ok (snd (add_grant v st))"
  by (auto simp: vault_ok_def add_grant_def)

lemma consumes_genuine: "genuine st \<Longrightarrow> receipt_matches st r \<Longrightarrow> genuine (consumes st r)"
  by (auto simp: genuine_def consumes_def receipt_matches_def)

section \<open>The state machine\<close>

text \<open>
  One operation that changes the vault, with whatever the host and the clock show at that
  moment; the other operations only read it.
\<close>

inductive vault_step :: "'k crypto \<Rightarrow> vault \<Rightarrow> vault \<Rightarrow> bool" for cr where
  step_verify: "verify_owner_authorization_envelope cr h clock envelope_json input v = Inr (i, v') \<Longrightarrow> vault_step cr v v'"
| step_mark: "mark_grant_consumed cr h clock v g rv = Inr (r, v') \<Longrightarrow> vault_step cr v v'"

inductive_cases vault_stepE: "vault_step cr v v'"

definition reachable :: "'k crypto \<Rightarrow> vault \<Rightarrow> bool" where
  "reachable cr v \<longleftrightarrow> (vault_step cr)\<^sup>*\<^sup>* empty_vault v"

lemma vault_step_ok: "hash32 (cr_hash cr) \<Longrightarrow> vault_step cr v v' \<Longrightarrow> vault_ok v \<Longrightarrow> vault_ok v'"
proof (erule vault_stepE)
  fix h clock e input i
  assume "hash32 (cr_hash cr)" "vault_ok v" "verify_owner_authorization_envelope cr h clock e input v = Inr (i, v')"
  then show "vault_ok v'" using verify_new_grant add_grant_ok by (metis accepts_def)
next
  fix h clock g rv r
  assume ok: "vault_ok v" and "mark_grant_consumed cr h clock v g rv = Inr (r, v')"
  then obtain i st where i: "va_states v i = Some st" "receipt_matches st r"
    "v' = v\<lparr>va_states := (va_states v)(i := Some (consumes st r))\<rparr>"
    unfolding mark_grant_consumed_eq [OF ok] by blast
  then have "genuine (consumes st r)" using ok consumes_genuine by (auto simp: vault_ok_def)
  with ok i show "vault_ok v'" by (auto simp: vault_ok_def)
qed

lemma empty_vault_ok: "vault_ok empty_vault"
  by (simp add: vault_ok_def empty_vault_def)

text \<open>A consumed grant never changes again, and no grant loses its payload.\<close>

definition grant_grows :: "grant_state \<Rightarrow> grant_state \<Rightarrow> bool" where
  "grant_grows a b \<longleftrightarrow> b = a \<or> (gs_status a = Verified \<and> (\<exists>r. b = consumes a r))"

lemma grant_grows_trans: "grant_grows a b \<Longrightarrow> grant_grows b c \<Longrightarrow> grant_grows a c"
  by (auto simp: grant_grows_def consumes_def)

lemma vault_step_grows:
  assumes "hash32 (cr_hash cr)" "vault_step cr v v'" "vault_ok v" "va_states v i = Some a"
  shows "\<exists>b. va_states v' i = Some b \<and> grant_grows a b"
  using assms(2)
proof (cases rule: vault_step.cases)
  case (step_verify h clock e input j)
  then obtain st where "v' = snd (add_grant v st)" using verify_new_grant [OF assms(1)] by blast
  moreover have "i \<noteq> va_next v" using assms(3,4) by (auto simp: vault_ok_def)
  ultimately show ?thesis using assms(4) by (simp add: add_grant_def grant_grows_def)
next
  case (step_mark h clock g rv r)
  with mark_grant_consumed_eq [OF assms(3)] obtain j st where
    "va_states v j = Some st" "gs_status st = Verified" "v' = v\<lparr>va_states := (va_states v)(j := Some (consumes st r))\<rparr>" by metis
  with assms(4) show ?thesis by (auto simp: grant_grows_def)
qed

text \<open>The vault is a one-shot store: a grant is spent when it is consumed.\<close>

interpretation grants: one_shot "vault_step cr" "\<lambda>v. hash32 (cr_hash cr) \<and> vault_ok v" va_states grant_grows
    "\<lambda>st. gs_status st = Consumed"
  for cr :: "'k crypto"
proof unfold_locales
  show "hash32 (cr_hash cr) \<and> vault_ok v \<Longrightarrow> vault_step cr v v' \<Longrightarrow> hash32 (cr_hash cr) \<and> vault_ok v'" for v v'
    using vault_step_ok by blast
  show "grant_grows a a" for a by (simp add: grant_grows_def)
  show "grant_grows a b \<Longrightarrow> grant_grows b c \<Longrightarrow> grant_grows a c" for a b c by (rule grant_grows_trans)
  show "hash32 (cr_hash cr) \<and> vault_ok v \<Longrightarrow> vault_step cr v v' \<Longrightarrow> va_states v i = Some a
      \<Longrightarrow> \<exists>b. va_states v' i = Some b \<and> grant_grows a b" for v v' i a
    using vault_step_grows by blast
  show "gs_status a = Consumed \<Longrightarrow> grant_grows a b \<Longrightarrow> b = a" for a b by (auto simp: grant_grows_def)
qed

lemma reachable_ok: "hash32 (cr_hash cr) \<Longrightarrow> reachable cr v \<Longrightarrow> vault_ok v"
  unfolding reachable_def using grants.steps_inv [of cr empty_vault v] empty_vault_ok by blast

section \<open>What a signer has to send\<close>

definition envelope_value :: "jsstr \<Rightarrow> byte list \<Rightarrow> byte list \<Rightarrow> jsval" where
  "envelope_value key_id payload_bytes sig = obj
     [(js ''version'', jint 1), (js ''keyId'', JStr key_id), (js ''payload'', JStr (b64_encode payload_bytes)),
      (js ''signature'', JStr (b64_encode sig))]"

lemma ascii_byte_length: "list_all (\<lambda>c. unat c < 0x80) s \<Longrightarrow> byte_length s = length s"
proof -
  have "\<not> is_high c" if "unat c < 0x80" for c using is_basic_less [OF that] by (simp add: is_basic_def)
  then show "list_all (\<lambda>c. unat c < 0x80) s \<Longrightarrow> byte_length s = length s"
    unfolding byte_length_def by (induction s rule: utf8.induct) (auto simp: utf8_unit_def)
qed

lemma b64_byte_length: "byte_length (b64_encode bs) = (4 * length bs + 2) div 3"
proof -
  have "unat c < 0x80" if "b64_alphabet c" for c
    using that by (auto simp: b64_alphabet_def is_alnum_def is_digit_def is_lower_def is_upper_def word_le_nat_alt)
  then have "list_all (\<lambda>c. unat c < 0x80) (b64_encode bs)"
    using b64_encode_alphabet [of bs] by (auto simp: list_all_iff)
  then show ?thesis by (simp add: ascii_byte_length b64_encode_length)
qed

lemma denotes_as_record: "denotes (obj kvs) j \<Longrightarrow> as_record (of_json j) l = Inr (of_json j)"
  using denotes_keys [of kvs j] by (auto simp: as_record_def obj_def)

lemma denotes_exact_keys:
  assumes "denotes (obj kvs) j" "map fst kvs = map js keys"
  shows "assert_exact_keys (of_json j) keys l = Inr ()"
proof -
  from denotes_keys [OF assms(1)] obtain kws where kws: "of_json j = obj kws" "map fst kws = sort (map fst kvs)" by blast
  show ?thesis unfolding assert_exact_keys_def kws(1) keys_of_obj kws(2) assms(2) ow_if_def by (simp add: sorted_sort_id)
qed

lemma wire_envelope:
  assumes "canonical_json (envelope_value key_id bs sig) = Inr env" "byte_length env \<le> max_envelope_bytes"
  shows "\<exists>w. ow_parse_canonical (RawString env) max_envelope_bytes l = Inr w \<and> as_record w l = Inr w \<and>
    assert_exact_keys w [''version'', ''keyId'', ''payload'', ''signature''] l' = Inr () \<and>
    get w (js ''version'') = jint 1 \<and> get w (js ''keyId'') = JStr key_id \<and>
    get w (js ''payload'') = JStr (b64_encode bs) \<and> get w (js ''signature'') = JStr (b64_encode sig)"
proof -
  have wf: "wf_jsval (envelope_value key_id bs sig)" by (simp add: envelope_value_def)
  from canonical_parse_denotes [OF wf assms(1)] obtain j where j: "denotes (envelope_value key_id bs sig) j"
    and parse: "\<And>m l. limit_ok m \<Longrightarrow> int (byte_length env) \<le> m \<Longrightarrow> parse_canonical_json (RawString env) m l = Inr (of_json j)" by auto
  have "limit_ok (int max_envelope_bytes)" by (simp add: limit_ok_def max_envelope_bytes_def max_safe_def)
  then have "ow_parse_canonical (RawString env) max_envelope_bytes l = Inr (of_json j)"
    using parse assms(2) by (simp add: ow_parse_canonical_eq)
  moreover have "as_record (of_json j) l = Inr (of_json j)" using denotes_as_record [OF j [unfolded envelope_value_def]] .
  moreover have "assert_exact_keys (of_json j) [''version'', ''keyId'', ''payload'', ''signature''] l' = Inr ()"
    by (rule denotes_exact_keys [OF j [unfolded envelope_value_def]]) simp
  moreover have "list_all (\<lambda>(k, v). reads_back v (get (of_json j) k))
     [(js ''version'', jint 1), (js ''keyId'', JStr key_id), (js ''payload'', JStr (b64_encode bs)), (js ''signature'', JStr (b64_encode sig))]"
    by (rule denotes_fields [OF j [unfolded envelope_value_def]]) simp
  ultimately show ?thesis by (intro exI [of _ "of_json j"]) simp
qed

lemma verify_accepts_signed:
  assumes p: "valid_payload p" and t: "canonical_json (payload_value p) = Inr t" "byte_length t \<le> max_payload_bytes"
    and sig: "length sig = 64"
    and env: "canonical_json (envelope_value (pl_key_id p) (utf8 t) sig) = Inr env" "byte_length env \<le> max_envelope_bytes"
    and input: "vi_expected input = bindings_value (expected_bindings p)" "vi_challenge_digest input = JStr (pl_challenge_digest p)"
      "input_now (vi_now input) clock = jint now" "resolve_registry_path h (vi_registry_path input) = Inr path"
    and now: "valid_time now" "in_window p now"
    and key: "read_and_select_registry_key cr h path p now = Inr vk" "cr_verify cr (vk_public_key vk) (signed_bytes (utf8 t)) sig"
  shows "\<exists>st. verify_owner_authorization_envelope cr h clock env input v = Inr (add_grant v st) \<and>
    gs_payload st = p \<and> gs_payload_bytes st = utf8 t \<and> gs_signature_bytes st = sig"
proof -
  from wire_envelope [OF env] obtain w where w: "ow_parse_canonical (RawString env) max_envelope_bytes ''owner authorization envelope'' = Inr w"
    "as_record w ''owner authorization envelope'' = Inr w"
    "assert_exact_keys w [''version'', ''keyId'', ''payload'', ''signature''] ''envelope'' = Inr ()"
    "get w (js ''version'') = jint 1" "get w (js ''keyId'') = JStr (pl_key_id p)" "get w (js ''payload'') = JStr (b64_encode (utf8 t))"
    "get w (js ''signature'') = JStr (b64_encode sig)"
    using wire_envelope [OF env, of "''owner authorization envelope''" "''envelope''"] by blast
  from canonical_parse_denotes [OF wf_payload_value t(1)] obtain j where j: "denotes (payload_value p) j"
    and parse: "\<And>m l. limit_ok m \<Longrightarrow> int (byte_length t) \<le> m \<Longrightarrow> parse_canonical_json (RawString t) m l = Inr (of_json j)" by auto
  have "limit_ok (int max_payload_bytes)" by (simp add: limit_ok_def max_payload_bytes_def max_safe_def)
  then have pj: "ow_parse_canonical (RawString t) max_payload_bytes ''owner authorization payload'' = Inr (of_json j)"
    using parse t(2) by (simp add: ow_parse_canonical_eq)
  have len: "length (utf8 t) \<le> max_payload_bytes" using t(2) by (simp add: byte_length_def)
  have nonempty: "t \<noteq> []" using parse_canonical_parses [OF wf_payload_value t(1)] by blast
  have unicode: "valid_unicode t" using canonical_text_valid [OF wf_payload_value t(1)] .
  have enc: "valid_bounded_string (JStr (b64_encode (utf8 t))) ''payload'' max_envelope_bytes = Inr (b64_encode (utf8 t))"
    "valid_bounded_string (JStr (b64_encode sig)) ''signature'' 256 = Inr (b64_encode sig)"
  proof -
    have "utf8 t \<noteq> []" "sig \<noteq> []" using nonempty sig by auto
    then have some: "b64_encode (utf8 t) \<noteq> []" "b64_encode sig \<noteq> []" by (auto elim!: b64_encode.elims)
    have "(4 * length (utf8 t) + 2) div 3 \<le> max_envelope_bytes"
      using len unfolding max_payload_bytes_def max_envelope_bytes_def by linarith
    then show "valid_bounded_string (JStr (b64_encode (utf8 t))) ''payload'' max_envelope_bytes = Inr (b64_encode (utf8 t))"
      unfolding valid_bounded_string_eq b64_byte_length using some valid_unicode_b64 by blast
    have "(4 * length sig + 2) div 3 \<le> 256" using sig by simp
    then show "valid_bounded_string (JStr (b64_encode sig)) ''signature'' 256 = Inr (b64_encode sig)"
      unfolding valid_bounded_string_eq b64_byte_length using some valid_unicode_b64 by blast
  qed
  have dec: "decode_canonical_base64url (b64_encode (utf8 t)) ''payload'' = Inr (utf8 t)"
    "decode_canonical_base64url (b64_encode sig) ''signature'' = Inr sig"
    using enc unfolding decode_canonical_base64url_eq valid_bounded_string_eq by blast+
  obtain nb where nb: "decode_canonical_base64url (pl_nonce p) ''nonce'' = Inr nb"
    using p by (auto simp: valid_payload_def valid_nonce_def decode_canonical_base64url_eq)
  have name: "valid_identifier (JStr (pl_key_id p)) ''envelope keyId'' = Inr (pl_key_id p)"
    using p by (simp add: valid_identifier_eq valid_payload_def valid_name_def)
  have digest: "valid_digest (JStr (pl_challenge_digest p)) ''expected challengeDigest'' = Inr (pl_challenge_digest p)"
    using p by (simp add: valid_digest_eq valid_payload_def)
  have expected: "validate_expected_bindings (bindings_value (expected_bindings p)) = Inr (expected_bindings p)"
    using p by (intro valid_bindings_accepted) (simp add: valid_payload_def)
  have same: "assert_expected_bindings p (expected_bindings p) = Inr ()"
    using p valid_bindings_ok by (subst assert_expected_bindings_eq) (auto simp: valid_payload_def)
  have time: "valid_timestamp (jint now) ''verification clock'' = Inr now"
    using now(1) by (simp add: valid_timestamp_eq valid_time_def)
  have window: "assert_payload_times p now = Inr ()" using now(2) assert_payload_times_window by blast
  have utf8: "decode_utf8_exactly (utf8 t) ''payload'' = Inr t" using unicode by (simp add: decode_utf8_exactly_eq)
  have no: "ow_if False m = Inr ()" for m by (simp add: ow_if_def)
  have size: "(length (utf8 t) = 0 \<or> max_payload_bytes < length (utf8 t)) = False" using len nonempty by simp
  show ?thesis
    unfolding verify_owner_authorization_envelope_def input time bindR_simps expected digest w pj name enc dec utf8 size
      wire_payload [OF p j] same window key(1) nb thenR_simps
    using sig key(2) by (simp add: ow_if_def) (rule exI, rule conjI, rule refl, simp)
qed

end
