(* ===== verification/OwnerSample.thy ===== *)
theory OwnerSample
  imports OwnerGrant
begin

text \<open>
  A sample owner envelope, signed for the sample registry and printed as canonical JSON, with
  the byte bounds it keeps: the concrete input on which the properties of the grant are shown
  to apply.
\<close>

section \<open>A sample envelope\<close>

definition text_of :: "jsval \<Rightarrow> jsstr" where
  "text_of v = (case canonical_json v of Inl _ \<Rightarrow> [] | Inr t \<Rightarrow> t)"

lemma text_of: "is_ok (canonical_json v) \<Longrightarrow> canonical_json v = Inr (text_of v)"
  by (auto simp: text_of_def is_ok_iff)

definition sample_payload_bytes :: "byte list" where
  "sample_payload_bytes = utf8 (text_of (payload_value sample_payload))"

definition sample_signature :: "byte list" where
  "sample_signature = take 64 (signed_bytes sample_payload_bytes @ replicate 64 0)"

definition sample_envelope :: jsstr where
  "sample_envelope = text_of (envelope_value (js ''key-1'') sample_payload_bytes sample_signature)"

definition sample_input :: verify_input where
  "sample_input = \<lparr>vi_expected = bindings_value sample_bindings, vi_challenge_digest = JStr (sample_digest 102),
     vi_registry_path = JUndef, vi_now = JUndef\<rparr>"

lemma sample_payload_text: "canonical_json (payload_value sample_payload) = Inr (text_of (payload_value sample_payload))"
  by (rule text_of [OF payload_prints [OF sample_payload_valid]])

lemma plain_literals: "plain_unit 97" "plain_unit 98" "plain_unit 99" "plain_unit 100" "plain_unit 102"
  by (simp_all add: plain_unit_def)

lemma plain_replicate [simp]: "list_all P (replicate n c) \<longleftrightarrow> n = 0 \<or> P c"
  by (auto simp: list_all_iff)

lemma sample_digest_plain: "plain_unit c \<Longrightarrow> list_all plain_unit (sample_digest c)" "length (sample_digest c) = 71"
  by (simp_all add: sample_digest_def plain_text)

lemma sample_nonce_plain: "list_all plain_unit sample_nonce" "length sample_nonce = 43"
  by code_simp+

lemma sample_sha_plain: "list_all plain_unit sample_sha" "length sample_sha = 40"
  by code_simp+

lemma sample_preflight_width: "quote_width (js ''pf_'' @ replicate 64 97) = 67"
  by code_simp

lemma quote_width_plain: "list_all plain_unit s \<Longrightarrow> quote_width s = length s"
  by (simp add: quote_width_def)

lemmas sample_plain = sample_digest_plain sample_nonce_plain sample_sha_plain plain_literals

lemma sample_payload_plain: "plain_value (payload_value sample_payload)"
  unfolding payload_value_def plain_value_obj
  by (simp add: sample_payload_def sample_bindings_def Let_def sample_plain repository_value_def sample_repository_def github_value_def
      base_value_def engine_value_def manifest_value_def preview_value_def actions_value_def optional_int_def action_text_def
      plain_text owner_audience_def)

lemma sample_payload_bound: "text_bound (payload_value sample_payload) \<le> 20000"
  unfolding payload_value_def text_bound_obj
  by (simp add: sample_payload_def sample_bindings_def Let_def sample_plain repository_value_def sample_repository_def github_value_def
      base_value_def engine_value_def manifest_value_def preview_value_def actions_value_def optional_int_def action_text_def
      plain_text owner_audience_def quote_width_plain sample_preflight_width int_text_def nat_text.simps)

lemma sample_payload_size: "byte_length (text_of (payload_value sample_payload)) \<le> max_payload_bytes"
proof -
  have "byte_length (text_of (payload_value sample_payload)) \<le> text_bound (payload_value sample_payload)"
    by (rule canonical_plain_bound [OF sample_payload_text wf_payload_value sample_payload_plain])
  also have "\<dots> \<le> max_payload_bytes" using sample_payload_bound by (simp add: max_payload_bytes_def)
  finally show ?thesis .
qed

lemma b64_plain: "list_all plain_unit (b64_encode bs)"
proof -
  have "plain_unit c" if "b64_alphabet c" for c
    using that by (auto simp: b64_alphabet_def is_alnum_def is_digit_def is_lower_def is_upper_def plain_unit_def word_le_nat_alt word_less_nat_alt)
  then show ?thesis using b64_encode_alphabet [of bs] by (auto simp: list_all_iff)
qed

lemma b64_width: "quote_width (b64_encode bs) = (4 * length bs + 2) div 3"
  by (simp add: quote_width_plain b64_plain b64_encode_length)

lemma envelope_prints:
  assumes "valid_unicode key_id"
  shows "canonical_json (envelope_value key_id bs sig) = Inr (text_of (envelope_value key_id bs sig))"
proof (rule text_of)
  have "1 \<le> max_safe" by (simp add: max_safe_def)
  then show "is_ok (canonical_json (envelope_value key_id bs sig))"
    unfolding envelope_value_def using assms valid_unicode_b64 by (intro canonical_obj_ok) simp_all
qed

lemma sample_envelope_text: "canonical_json (envelope_value (js ''key-1'') sample_payload_bytes sample_signature) = Inr sample_envelope"
  unfolding sample_envelope_def by (rule envelope_prints) code_simp

lemma sample_signature_length: "length sample_signature = 64"
  by (simp add: sample_signature_def)

lemma sample_envelope_size: "byte_length sample_envelope \<le> max_envelope_bytes"
proof -
  have plain: "plain_value (envelope_value (js ''key-1'') sample_payload_bytes sample_signature)"
    by (simp add: envelope_value_def b64_plain plain_text)
  have "length sample_payload_bytes \<le> max_payload_bytes"
    using sample_payload_size by (simp add: sample_payload_bytes_def byte_length_def)
  then have "text_bound (envelope_value (js ''key-1'') sample_payload_bytes sample_signature) \<le> max_envelope_bytes"
    by (simp add: envelope_value_def b64_width sample_signature_length quote_width_plain plain_text int_text_def nat_text.simps
        max_payload_bytes_def max_envelope_bytes_def)
  moreover have "wf_jsval (envelope_value (js ''key-1'') sample_payload_bytes sample_signature)" by (simp add: envelope_value_def)
  ultimately show ?thesis using canonical_plain_bound [OF sample_envelope_text _ plain] by simp
qed

lemma sample_selected:
  "read_and_select_registry_key sample_crypto sample_host sample_path sample_payload 3000 =
     Inr \<lparr>vk_entry = sample_key, vk_public_key = js ''pem'', vk_canonical_path = sample_path\<rparr>"
proof -
  have p: "ok_repository (pl_repository sample_payload)" by (rule valid_payload_repository [OF sample_payload_valid])
  have "pl_authorization_id sample_payload \<notin> set (rg_revoked_authorization_ids sample_registry)"
    "sample_key \<in> set (rg_keys sample_registry)" by (simp_all add: sample_registry_def)
  moreover have "key_authorizes sample_key sample_payload 3000"
    by (simp add: key_authorizes_def sample_key_def sample_payload_def sample_bindings_def Let_def)
  moreover have "parse_registry_public_key sample_crypto sample_key = Inr (js ''pem'')"
    by (simp add: parse_registry_public_key_def sample_crypto_def sample_key_def)
  ultimately show ?thesis unfolding registry_selected [OF p] using sample_read_registry by auto
qed

lemma sample_resolved: "resolve_registry_path sample_host JUndef = Inr sample_path"
proof -
  have "resolve_path (js ''/etc/owner/keys.json'') = sample_path" "is_absolute (js ''/etc/owner/keys.json'')"
    "byte_length (js ''/etc/owner/keys.json'') \<le> 4096" by code_simp+
  then show ?thesis by (simp add: resolve_registry_path_def sample_host_def host_with_def)
qed

lemma sample_hypotheses:
  "vi_expected sample_input = bindings_value (expected_bindings sample_payload)"
  "vi_challenge_digest sample_input = JStr (pl_challenge_digest sample_payload)"
  "input_now (vi_now sample_input) 3000 = jint 3000"
  "resolve_registry_path sample_host (vi_registry_path sample_input) = Inr sample_path"
  "valid_time 3000" "in_window sample_payload 3000"
  "canonical_json (envelope_value (pl_key_id sample_payload) (utf8 (text_of (payload_value sample_payload))) sample_signature) = Inr sample_envelope"
  "cr_verify sample_crypto (js ''pem'') (signed_bytes (utf8 (text_of (payload_value sample_payload)))) sample_signature"
proof -
  have fields: "pl_challenge_digest sample_payload = sample_digest 102" "pl_key_id sample_payload = js ''key-1''"
    by (simp_all add: sample_payload_def Let_def)
  show "canonical_json (envelope_value (pl_key_id sample_payload) (utf8 (text_of (payload_value sample_payload))) sample_signature) = Inr sample_envelope"
    using sample_envelope_text by (simp add: fields sample_payload_bytes_def)
  show "cr_verify sample_crypto (js ''pem'') (signed_bytes (utf8 (text_of (payload_value sample_payload)))) sample_signature"
    by (simp add: sample_crypto_def sample_signature_def sample_payload_bytes_def)
  show "in_window sample_payload 3000"
    by (simp add: in_window_def max_ttl_ms_def sample_payload_def sample_bindings_def Let_def)
  show "vi_expected sample_input = bindings_value (expected_bindings sample_payload)"
    unfolding sample_expected by (simp add: sample_input_def)
qed (simp_all add: sample_input_def input_now_def valid_time_def max_timestamp_def sample_resolved
    sample_payload_def Let_def)

end
