(* ===== verification/OwnerLifecycle.thy ===== *)
theory OwnerLifecycle
  imports OwnerSample
begin

text \<open>
  The properties of the owner grant as its callers see it: what a verified envelope proves,
  that a signed payload is accepted, when a grant is consumed, and that a consumed grant is
  spent for good.
\<close>

section \<open>The durable receipt of a grant\<close>

definition receipt_value :: "receipt \<Rightarrow> jsval" where
  "receipt_value r = obj
     [(js ''authorizationId'', JStr (cn_authorization_id r)), (js ''envelopeId'', JStr (cn_envelope_id r)),
      (js ''envelopeDigest'', JStr (cn_envelope_digest r)), (js ''nonceDigest'', JStr (cn_nonce_digest r)),
      (js ''signerId'', JStr (cn_signer_id r)), (js ''keyId'', JStr (cn_key_id r)),
      (js ''repositorySlug'', JStr (cn_repository_slug r)), (js ''repositoryId'', jint (cn_repository_id r)),
      (js ''baseSha'', JStr (cn_base_sha r)), (js ''preflightId'', JStr (cn_preflight_id r)),
      (js ''artifactDigest'', JStr (cn_artifact_digest r)), (js ''manifestDigest'', JStr (cn_manifest_digest r)),
      (js ''candidateBranch'', JStr (cn_candidate_branch r)), (js ''candidateTreeSha'', JStr (cn_candidate_tree_sha r)),
      (js ''expiresAt'', jint (cn_expires_at r)), (js ''consumedAt'', jint (cn_consumed_at r))]"

definition receipt_of :: "consumption \<Rightarrow> int \<Rightarrow> receipt" where
  "receipt_of c at = consumption.extend c (receipt.fields at)"

lemma receipt_of_truncate [simp]: "consumption.truncate (receipt_of c at) = c" "cn_consumed_at (receipt_of c at) = at"
  by (simp_all add: receipt_of_def consumption.defs receipt.defs)

lemma consumption_fields [simp]:
  "cn_authorization_id (receipt_of c at) = cn_authorization_id c" "cn_envelope_id (receipt_of c at) = cn_envelope_id c"
  "cn_envelope_digest (receipt_of c at) = cn_envelope_digest c" "cn_nonce_digest (receipt_of c at) = cn_nonce_digest c"
  "cn_signer_id (receipt_of c at) = cn_signer_id c" "cn_key_id (receipt_of c at) = cn_key_id c"
  "cn_repository_slug (receipt_of c at) = cn_repository_slug c" "cn_repository_id (receipt_of c at) = cn_repository_id c"
  "cn_base_sha (receipt_of c at) = cn_base_sha c" "cn_preflight_id (receipt_of c at) = cn_preflight_id c"
  "cn_artifact_digest (receipt_of c at) = cn_artifact_digest c" "cn_manifest_digest (receipt_of c at) = cn_manifest_digest c"
  "cn_candidate_branch (receipt_of c at) = cn_candidate_branch c" "cn_candidate_tree_sha (receipt_of c at) = cn_candidate_tree_sha c"
  "cn_expires_at (receipt_of c at) = cn_expires_at c"
  by (simp_all add: receipt_of_def consumption.defs)

lemma digest_unprefixed: "is_digest d \<Longrightarrow> normalize_digest (JStr d) l = Inr d"
  by (simp add: normalize_digest_def valid_digest_eq is_digest_def)

lemma section_fields:
  "validate_repository (repository_value r) = Inr r \<Longrightarrow> valid_bounded_string (JStr (rs_slug r)) l 140 = Inr (rs_slug r)
     \<and> is_ok (parse_repository_slug (rs_slug r)) \<and> to_lower (rs_slug r) = rs_slug r \<and> 0 < rs_id r \<and> rs_id r \<le> max_safe"
  "validate_base (base_value b) = Inr b \<Longrightarrow> is_git_sha (bs_sha b)"
  "validate_manifest (manifest_value m) = Inr m \<Longrightarrow> is_digest (mn_digest m)"
  "validate_preview (preview_value p) = Inr p \<Longrightarrow> is_digest (pv_artifact_digest p)
     \<and> valid_bounded_string (JStr (pv_preflight_id p)) l 67 = Inr (pv_preflight_id p) \<and> is_preflight_id (pv_preflight_id p)
     \<and> valid_bounded_string (JStr (pv_candidate_branch p)) l 240 = Inr (pv_candidate_branch p)
     \<and> is_ok (validate_branch_name (pv_candidate_branch p)) \<and> is_git_sha (pv_candidate_tree_sha p)"
proof -
  show "validate_repository (repository_value r) = Inr r \<Longrightarrow> valid_bounded_string (JStr (rs_slug r)) l 140 = Inr (rs_slug r)
     \<and> is_ok (parse_repository_slug (rs_slug r)) \<and> to_lower (rs_slug r) = rs_slug r \<and> 0 < rs_id r \<and> rs_id r \<le> max_safe"
    by (auto simp: validate_repository_def repository_value_def revalidate_simps is_ok_iff)
  show "validate_base (base_value b) = Inr b \<Longrightarrow> is_git_sha (bs_sha b)"
    by (auto simp: validate_base_def base_value_def revalidate_simps)
  show "validate_manifest (manifest_value m) = Inr m \<Longrightarrow> is_digest (mn_digest m)"
    by (auto simp: validate_manifest_def manifest_value_def revalidate_simps)
  show "validate_preview (preview_value p) = Inr p \<Longrightarrow> is_digest (pv_artifact_digest p)
     \<and> valid_bounded_string (JStr (pv_preflight_id p)) l 67 = Inr (pv_preflight_id p) \<and> is_preflight_id (pv_preflight_id p)
     \<and> valid_bounded_string (JStr (pv_candidate_branch p)) l 240 = Inr (pv_candidate_branch p)
     \<and> is_ok (validate_branch_name (pv_candidate_branch p)) \<and> is_git_sha (pv_candidate_tree_sha p)"
    by (auto simp: validate_preview_def preview_value_def revalidate_simps is_ok_iff)
qed

text \<open>The store's receipt for a grant is one \<open>validateReceipt\<close> returns unchanged.\<close>

lemma receipt_accepted:
  assumes "genuine st" "valid_time at"
  shows "validate_receipt (receipt_value (receipt_of (gs_consumption st) at)) = Inr (receipt_of (gs_consumption st) at)"
proof -
  define p where "p = gs_payload st"
  from assms(1) obtain e n where c: "gs_consumption st = make_consumption p e n" and digests: "is_digest e" "is_digest n"
    and p: "valid_payload p" by (auto simp: genuine_def p_def)
  have bound: "valid_bindings (expected_bindings p)" using p by (simp add: valid_payload_def)
  have sections: "validate_repository (repository_value (pl_repository p)) = Inr (pl_repository p)"
    "validate_base (base_value (pl_base p)) = Inr (pl_base p)" "validate_manifest (manifest_value (pl_manifest p)) = Inr (pl_manifest p)"
    "validate_preview (preview_value (pl_preview p)) = Inr (pl_preview p)"
    using bound by (simp_all add: valid_bindings_def expected_bindings_def)
  have branch: "validate_branch_name (pv_candidate_branch (pl_preview p)) = Inr (pv_candidate_branch (pl_preview p))"
    using section_fields(4) [OF sections(4)] unfolding validate_branch_eq [of "pv_candidate_branch (pl_preview p)"] by blast
  obtain slug where slug: "parse_repository_slug (rs_slug (pl_repository p)) = Inr slug"
    using section_fields(1) [OF sections(1)] by (auto simp: is_ok_iff)
  have times: "0 < at \<and> at \<le> max_timestamp" "0 < pl_expires_at p \<and> pl_expires_at p \<le> max_timestamp"
    using assms(2) p by (simp_all add: valid_time_def valid_payload_def)
  have names: "valid_identifier (JStr (pl_authorization_id p)) l = Inr (pl_authorization_id p)"
    "valid_identifier (JStr (pl_envelope_id p)) l = Inr (pl_envelope_id p)" "valid_identifier (JStr (pl_signer_id p)) l = Inr (pl_signer_id p)"
    "valid_identifier (JStr (pl_key_id p)) l = Inr (pl_key_id p)" for l
    using p by (simp_all add: valid_identifier_eq valid_payload_def valid_name_def)
  have ids: "valid_positive_integer (jint (rs_id (pl_repository p))) l = Inr (rs_id (pl_repository p))"
    "valid_git_sha (JStr (bs_sha (pl_base p))) l = Inr (bs_sha (pl_base p))"
    "valid_git_sha (JStr (pv_candidate_tree_sha (pl_preview p))) l = Inr (pv_candidate_tree_sha (pl_preview p))"
    "valid_timestamp (jint (pl_expires_at p)) l = Inr (pl_expires_at p)" "valid_timestamp (jint at) l = Inr at" for l
    using section_fields(1) [OF sections(1)] section_fields(2) [OF sections(2)] section_fields(4) [OF sections(4)] times
    by (simp_all add: valid_positive_integer_eq valid_git_sha_eq valid_timestamp_eq)
  have no: "ow_if False m = Inr ()" for m by (simp add: ow_if_def)
  have fields: "\<And>l. valid_bounded_string (JStr (rs_slug (pl_repository p))) l 140 = Inr (rs_slug (pl_repository p))"
    "to_lower (rs_slug (pl_repository p)) = rs_slug (pl_repository p)"
    "\<And>l. valid_bounded_string (JStr (pv_preflight_id (pl_preview p))) l 67 = Inr (pv_preflight_id (pl_preview p))"
    "is_preflight_id (pv_preflight_id (pl_preview p))"
    "\<And>l. valid_bounded_string (JStr (pv_candidate_branch (pl_preview p))) l 240 = Inr (pv_candidate_branch (pl_preview p))"
    using section_fields(1) [OF sections(1)] section_fields(4) [OF sections(4)] by blast+
  show ?thesis
    unfolding validate_receipt_def receipt_value_def c
    by (subst record_with_obj)
      (simp_all add: receipt_keys_def get_obj make_consumption_def receipt_of_def consumption.defs receipt.defs fields slug branch names ids no
        digest_unprefixed digests section_fields(3) [OF sections(3)] section_fields(4) [OF sections(4)])
qed

lemma mark_completes:
  assumes "vault_ok v" "va_states v i = Some st" "gs_status st = Verified" "valid_time at" "in_window (gs_payload st) at"
    and "valid_time clock" "in_window (gs_payload st) clock" "authorized_now cr h (gs_registry_path st) st clock"
  shows "mark_grant_consumed cr h clock v (HObject i) (receipt_value (receipt_of (gs_consumption st) at)) =
    Inr (receipt_of (gs_consumption st) at, v\<lparr>va_states := (va_states v)(i := Some (consumes st (receipt_of (gs_consumption st) at)))\<rparr>)"
proof -
  have genuine: "genuine st" using assms(1,2) by (simp add: vault_ok_def)
  have "receipt_matches st (receipt_of (gs_consumption st) at)"
    using assms(5) by (simp add: receipt_matches_def in_window_def)
  with assms receipt_accepted [OF genuine assms(4)] show ?thesis
    unfolding mark_grant_consumed_eq [OF assms(1)] by blast
qed

lemma sample_verified:
  "\<exists>st. verify_owner_authorization_envelope sample_crypto sample_host 3000 sample_envelope sample_input empty_vault =
      Inr (add_grant empty_vault st) \<and> gs_payload st = sample_payload"
  using verify_accepts_signed [OF sample_payload_valid sample_payload_text sample_payload_size sample_signature_length
      sample_hypotheses(7) sample_envelope_size sample_hypotheses(1-6) sample_selected, of empty_vault] sample_hypotheses(8) by auto

lemma hash32_sample_crypto: "hash32 (cr_hash sample_crypto)"
  by (simp add: sample_crypto_def hash32_sample)

text \<open>The sample grant, before and after it is consumed.\<close>

lemma sample_grant:
  obtains st where "reachable sample_crypto (snd (add_grant empty_vault st))" "genuine st" "gs_status st = Verified"
    "gs_payload st = sample_payload" "authorized_now sample_crypto sample_host (gs_registry_path st) st 3000"
    "va_states (snd (add_grant empty_vault st)) 0 = Some st" "gs_registry_path st = sample_path"
proof -
  from sample_verified obtain st where st: "verify_owner_authorization_envelope sample_crypto sample_host 3000 sample_envelope sample_input empty_vault =
      Inr (add_grant empty_vault st)" "gs_payload st = sample_payload" by blast
  have grant: "add_grant empty_vault st = (0, snd (add_grant empty_vault st))" by (simp add: add_grant_def empty_vault_def)
  have step: "vault_step sample_crypto empty_vault (snd (add_grant empty_vault st))"
    using st(1) grant by (metis step_verify)
  obtain st' where "add_grant empty_vault st = add_grant empty_vault st'" "accepts sample_crypto sample_host 3000 sample_input st'"
    using verify_accepts [OF hash32_sample_crypto st(1)] by blast
  then have accepted: "accepts sample_crypto sample_host 3000 sample_input st"
    by (auto simp: add_grant_def empty_vault_def dest: fun_upd_eqD)
  then obtain now path where auth: "valid_timestamp (input_now (vi_now sample_input) 3000) ''verification clock'' = Inr now"
    "resolve_registry_path sample_host (vi_registry_path sample_input) = Inr path" "authorized_now sample_crypto sample_host path st now"
    by (auto simp: accepts_def)
  have "now = 3000" "path = sample_path" using auth(1,2) sample_hypotheses(3,4) by (simp_all add: valid_timestamp_eq)
  moreover have "gs_registry_path st = sample_path"
    using auth(3) sample_read_registry by (simp add: authorized_now_def \<open>path = sample_path\<close>)
  moreover have "reachable sample_crypto (snd (add_grant empty_vault st))"
    unfolding reachable_def using step by (rule r_into_rtranclp)
  moreover have "va_states (snd (add_grant empty_vault st)) 0 = Some st" by (simp add: add_grant_def empty_vault_def)
  ultimately show thesis
    using that accepted st(2) auth(3) by (simp add: accepts_def)
qed

lemma sample_times: "valid_time 3000" "in_window sample_payload 3000"
  by (rule sample_hypotheses)+

lemma sample_consumed:
  obtains v st r where "reachable sample_crypto v" "va_states v 0 = Some st" "gs_status st = Consumed" "gs_receipt st = Some r"
    "genuine st" "gs_payload st = sample_payload" "authorized_now sample_crypto sample_host (gs_registry_path st) st 3000"
proof -
  obtain st where st: "reachable sample_crypto (snd (add_grant empty_vault st))" "genuine st" "gs_status st = Verified"
    "gs_payload st = sample_payload" "authorized_now sample_crypto sample_host (gs_registry_path st) st 3000"
    "va_states (snd (add_grant empty_vault st)) 0 = Some st" by (rule sample_grant)
  let ?v = "snd (add_grant empty_vault st)" and ?r = "receipt_of (gs_consumption st) 3000"
  let ?w = "?v\<lparr>va_states := (va_states ?v)(0 := Some (consumes st ?r))\<rparr>"
  have "mark_grant_consumed sample_crypto sample_host 3000 ?v (HObject 0) (receipt_value ?r) = Inr (?r, ?w)"
    using st sample_times reachable_ok [OF hash32_sample_crypto st(1)] by (intro mark_completes) simp_all
  then have "vault_step sample_crypto ?v ?w" by (rule step_mark)
  with st(1) have "reachable sample_crypto ?w" unfolding reachable_def by simp
  moreover have "genuine (consumes st ?r)"
    using st sample_times(2) by (intro consumes_genuine) (auto simp: receipt_matches_def in_window_def)
  ultimately show thesis
    using that [of ?w "consumes st ?r" ?r] st by (simp add: consumes_def authorized_now_def)
qed

section \<open>Properties\<close>

text \<open>C1: a verified envelope proves its authority: the grant it creates is new and unconsumed, holds a validated payload
  whose canonical bytes carry the signature, binds exactly the expected run and challenge, lies inside its signed
  window of at most thirty minutes, and is authorized by an unrevoked key of the registry read at that moment.\<close>

theorem verified_envelope_sound:
  assumes "hash32 (cr_hash cr)" "verify_owner_authorization_envelope cr h clock envelope_json input v = Inr (i, v')"
  shows "i = va_next v \<and> (\<exists>st. v' = snd (add_grant v st) \<and> gs_status st = Verified \<and> genuine st \<and>
    validate_expected_bindings (vi_expected input) = Inr (expected_bindings (gs_payload st)) \<and>
    vi_challenge_digest input = JStr (pl_challenge_digest (gs_payload st)) \<and>
    (\<exists>now path. valid_timestamp (input_now (vi_now input) clock) ''verification clock'' = Inr now \<and>
       in_window (gs_payload st) now \<and> resolve_registry_path h (vi_registry_path input) = Inr path \<and>
       authorized_now cr h path st now))"
  using verify_new_grant [OF assms] by (auto simp: accepts_def)

text \<open>C2: verification is complete: for every well-formed payload, the envelope built from its canonical JSON and an
  accepted 64-byte signature is verified whenever the challenge and bindings are its own, the clock is in its window
  and the registry lets its key sign.\<close>

theorem signed_payload_verified:
  assumes "valid_payload p" "canonical_json (payload_value p) = Inr t" "byte_length t \<le> max_payload_bytes" "length sig = 64"
    and "canonical_json (envelope_value (pl_key_id p) (utf8 t) sig) = Inr env" "byte_length env \<le> max_envelope_bytes"
    and "vi_expected input = bindings_value (expected_bindings p)" "vi_challenge_digest input = JStr (pl_challenge_digest p)"
    and "input_now (vi_now input) clock = jint now" "resolve_registry_path h (vi_registry_path input) = Inr path"
    and "valid_time now" "in_window p now" "read_and_select_registry_key cr h path p now = Inr vk"
    and "cr_verify cr (vk_public_key vk) (signed_bytes (utf8 t)) sig"
  shows "\<exists>st. verify_owner_authorization_envelope cr h clock env input v = Inr (add_grant v st) \<and>
    gs_payload st = p \<and> gs_payload_bytes st = utf8 t \<and> gs_signature_bytes st = sig"
  using assms by (rule verify_accepts_signed)

lemma signed_payload_verified_witness:
  "\<exists>st. verify_owner_authorization_envelope sample_crypto sample_host 3000 sample_envelope sample_input empty_vault =
      Inr (add_grant empty_vault st) \<and> gs_payload st = sample_payload \<and>
      gs_payload_bytes st = utf8 (text_of (payload_value sample_payload)) \<and> gs_signature_bytes st = sample_signature"
  by (rule signed_payload_verified [OF sample_payload_valid sample_payload_text sample_payload_size sample_signature_length
        sample_hypotheses(7) sample_envelope_size sample_hypotheses(1-6) sample_selected])
    (use sample_hypotheses(8) in simp)

lemma verified_envelope_sound_witness:
  "\<exists>v'. verify_owner_authorization_envelope sample_crypto sample_host 3000 sample_envelope sample_input empty_vault = Inr (0, v') \<and>
     (\<exists>st. v' = snd (add_grant empty_vault st) \<and> genuine st)"
proof -
  obtain st where st: "verify_owner_authorization_envelope sample_crypto sample_host 3000 sample_envelope sample_input empty_vault =
      Inr (0, snd (add_grant empty_vault st))"
    using sample_verified by (auto simp: add_grant_def empty_vault_def)
  from verified_envelope_sound [OF hash32_sample_crypto this] st show ?thesis by blast
qed

text \<open>C5: the vault's invariant: in every state reached by verifying and consuming, whatever the host, clock and
  inputs were, each registered grant holds a validated payload in canonical bytes with its own bindings and a 64-byte
  signature, and has a receipt (for that very consumption, inside the window) exactly when it is consumed.\<close>

theorem reachable_vault_genuine:
  assumes "hash32 (cr_hash cr)" "reachable cr v" "va_states v i = Some st"
  shows "va_verified v i \<and> i < va_next v \<and> genuine st \<and> (gs_status st = Consumed \<longleftrightarrow> gs_receipt st \<noteq> None)"
proof -
  note ok = reachable_ok [OF assms(1,2)]
  have "genuine st" using ok assms(3) by (simp add: vault_ok_def)
  moreover have "gs_status st = Consumed \<longleftrightarrow> gs_receipt st \<noteq> None" using \<open>genuine st\<close> by (simp add: genuine_def)
  moreover have "va_verified v i" using ok assms(3) by (simp add: vault_ok_def)
  moreover have "i < va_next v" using ok assms(3) by (rule_tac ccontr) (simp add: vault_ok_def)
  ultimately show ?thesis by blast
qed

lemma reachable_vault_genuine_witness:
  "\<exists>v st. reachable sample_crypto v \<and> va_states v 0 = Some st \<and> gs_status st = Consumed \<and> va_verified v 0 \<and> genuine st"
proof -
  obtain v st r where "reachable sample_crypto v" "va_states v 0 = Some st" "gs_status st = Consumed" "gs_receipt st = Some r"
    by (rule sample_consumed)
  with reachable_vault_genuine [OF hash32_sample_crypto this(1,2)] show ?thesis by blast
qed

text \<open>C4: \<open>markGrantConsumed\<close> succeeds exactly on an unconsumed grant of this process, with a receipt that validates,
  equals the grant's consumption and was taken inside the signed window, when the clock is still in the window and
  the registry still authorizes the key; it then changes only this grant, to consumed with that receipt.\<close>

theorem mark_grant_consumed_iff:
  assumes "hash32 (cr_hash cr)" "reachable cr v"
  shows "mark_grant_consumed cr h clock v g rv = Inr (r, v') \<longleftrightarrow>
    (\<exists>i st. g = HObject i \<and> va_states v i = Some st \<and> gs_status st = Verified \<and> validate_receipt rv = Inr r
       \<and> consumption.truncate r = gs_consumption st \<and> pl_not_before (gs_payload st) \<le> cn_consumed_at r
       \<and> pl_issued_at (gs_payload st) \<le> cn_consumed_at r \<and> cn_consumed_at r < pl_expires_at (gs_payload st)
       \<and> valid_time clock \<and> in_window (gs_payload st) clock \<and> authorized_now cr h (gs_registry_path st) st clock
       \<and> v' = v\<lparr>va_states := (va_states v)(i := Some (st\<lparr>gs_status := Consumed, gs_receipt := Some r\<rparr>))\<rparr>)"
  unfolding mark_grant_consumed_eq [OF reachable_ok [OF assms]] receipt_matches_def consumes_def by blast

lemma mark_grant_consumed_iff_witness:
  "\<exists>v st. reachable sample_crypto v \<and> va_states v 0 = Some st \<and>
    (\<exists>r v'. mark_grant_consumed sample_crypto sample_host 3000 v (HObject 0) (receipt_value (receipt_of (gs_consumption st) 3000)) = Inr (r, v'))"
proof -
  obtain st where st: "reachable sample_crypto (snd (add_grant empty_vault st))" "genuine st" "gs_status st = Verified"
    "gs_payload st = sample_payload" "authorized_now sample_crypto sample_host (gs_registry_path st) st 3000"
    "va_states (snd (add_grant empty_vault st)) 0 = Some st" by (rule sample_grant)
  have "validate_receipt (receipt_value (receipt_of (gs_consumption st) 3000)) = Inr (receipt_of (gs_consumption st) 3000)"
    by (rule receipt_accepted [OF st(2) sample_times(1)])
  moreover have "pl_not_before sample_payload \<le> 3000" "pl_issued_at sample_payload \<le> 3000" "3000 < pl_expires_at sample_payload"
    using sample_times(2) by (simp_all add: in_window_def)
  ultimately have "mark_grant_consumed sample_crypto sample_host 3000 (snd (add_grant empty_vault st)) (HObject 0)
      (receipt_value (receipt_of (gs_consumption st) 3000)) = Inr (receipt_of (gs_consumption st) 3000,
        (snd (add_grant empty_vault st))\<lparr>va_states := (va_states (snd (add_grant empty_vault st)))
          (0 := Some (st\<lparr>gs_status := Consumed, gs_receipt := Some (receipt_of (gs_consumption st) 3000)\<rparr>))\<rparr>)"
    using st sample_times
    by (intro mark_grant_consumed_iff [OF hash32_sample_crypto st(1), THEN iffD2] exI [of _ 0] exI [of _ st]) simp
  with st show ?thesis by blast
qed

text \<open>C3: a grant is spent once: after it is consumed, no sequence of verifications and consumptions changes it, its
  receipt stays readable, and every operation that needs an unconsumed grant rejects it.\<close>

theorem consumed_grant_is_spent:
  assumes "hash32 (cr_hash cr)" "reachable cr v" "va_states v i = Some st" "gs_status st = Consumed" "(vault_step cr)\<^sup>*\<^sup>* v w"
  shows "va_states w i = Some st \<and> (\<exists>r. gs_receipt st = Some r \<and> owner_authorization_receipt w (HObject i) = Inr r) \<and>
    \<not> is_ok (mark_grant_consumed cr h clock w (HObject i) rv) \<and>
    \<not> is_ok (assert_current_owner_grant cr h clock w (HObject i) input) \<and>
    \<not> is_ok (owner_authorization_consumption cr h clock w (HObject i) input)"
proof -
  note ok = reachable_ok [OF assms(1,2)]
  have w: "va_states w i = Some st"
    by (rule grants.spent_forever [OF assms(5) _ assms(3)]) (use assms(1,4) ok in simp_all)
  have "vault_ok w" using grants.steps_inv [OF assms(5)] assms(1) ok by blast
  then have state: "grant_state_of w (HObject i) = Inr st" using w grant_state_of_eq by blast
  obtain r where r: "gs_receipt st = Some r" using ok assms(3,4) by (auto simp: vault_ok_def genuine_def)
  have "\<not> is_ok (active_grant_state w (HObject i))"
    using assms(4) by (simp add: active_grant_state_def state is_ok_iff)
  then obtain e where "active_grant_state w (HObject i) = Inl e" by (cases "active_grant_state w (HObject i)") simp_all
  with w r state assms(4) show ?thesis
    by (simp add: mark_grant_consumed_def assert_current_owner_grant_def owner_authorization_consumption_def
        owner_authorization_receipt_def assert_consumed_owner_grant_def consumed_receipt_def)
qed

lemma consumed_grant_is_spent_witness:
  "\<exists>v r. reachable sample_crypto v \<and> owner_authorization_receipt v (HObject 0) = Inr r \<and>
    \<not> is_ok (mark_grant_consumed sample_crypto sample_host 3000 v (HObject 0) (receipt_value r))"
proof -
  obtain v st r where "reachable sample_crypto v" "va_states v 0 = Some st" "gs_status st = Consumed" "gs_receipt st = Some r"
    by (rule sample_consumed)
  with consumed_grant_is_spent [OF hash32_sample_crypto this(1-3) rtranclp.rtrancl_refl] show ?thesis by blast
qed

text \<open>The write boundary: \<open>assertCurrentConsumedOwnerGrant\<close> returns a receipt exactly when the grant is consumed
  with that receipt, the expected bindings are the grant's own, the clock is in its window and the registry, read
  again, still authorizes the key; before consumption, and for a forged handle, it always rejects.\<close>

theorem write_boundary_iff:
  assumes "hash32 (cr_hash cr)" "reachable cr v"
  shows "assert_current_consumed_owner_grant cr h clock v g input = Inr r \<longleftrightarrow>
    (\<exists>i st now path. g = HObject i \<and> va_states v i = Some st \<and> gs_status st = Consumed \<and> gs_receipt st = Some r \<and>
       valid_timestamp (input_now (vi_now input) clock) ''verification clock'' = Inr now \<and>
       validate_expected_bindings (vi_expected input) = Inr (expected_bindings (gs_payload st)) \<and>
       in_window (gs_payload st) now \<and> requested_path h st (vi_registry_path input) = Inr path \<and> authorized_now cr h path st now)"
proof -
  note ok = reachable_ok [OF assms]
  have genuine: "genuine st" if "va_states v i = Some st" for i st using ok that by (simp add: vault_ok_def)
  have receipt: "consumed_receipt st = Inr r' \<longleftrightarrow> gs_status st = Consumed \<and> gs_receipt st = Some r'" for st r'
    by (auto simp: consumed_receipt_def split: option.splits)
  have same: "assert_expected_bindings (gs_payload st) e = Inr () \<longleftrightarrow> expected_bindings (gs_payload st) = e"
    if "genuine st" "validate_expected_bindings (vi_expected input) = Inr e" for st e
    using that expected_bindings_agree by (auto simp: genuine_def)
  have authorizes: "assert_registry_still_authorizes cr h st path now = Inr () \<longleftrightarrow> authorized_now cr h path st now"
    if "genuine st" for st path now using that by (intro assert_registry_still_authorizes_eq) (simp add: genuine_def)
  show ?thesis (is "?returns \<longleftrightarrow> ?boundary")
  proof
    assume ?returns
    then obtain i st now e path where c: "g = HObject i" "va_states v i = Some st" "gs_status st = Consumed" "gs_receipt st = Some r"
      "valid_timestamp (input_now (vi_now input) clock) ''verification clock'' = Inr now"
      "validate_expected_bindings (vi_expected input) = Inr e" "assert_expected_bindings (gs_payload st) e = Inr ()"
      "in_window (gs_payload st) now" "requested_path h st (vi_registry_path input) = Inr path"
      "assert_registry_still_authorizes cr h st path now = Inr ()"
      unfolding assert_current_consumed_owner_grant_def bindR_eq_Inr thenR_eq_Inr grant_state_of_eq [OF ok] receipt
        assert_payload_times_window by blast
    with same [OF genuine [OF c(2)]] authorizes [OF genuine [OF c(2)]] show ?boundary by blast
  next
    assume ?boundary
    then obtain i st now path where c: "g = HObject i" "va_states v i = Some st" "gs_status st = Consumed" "gs_receipt st = Some r"
      "valid_timestamp (input_now (vi_now input) clock) ''verification clock'' = Inr now"
      "validate_expected_bindings (vi_expected input) = Inr (expected_bindings (gs_payload st))"
      "in_window (gs_payload st) now" "requested_path h st (vi_registry_path input) = Inr path" "authorized_now cr h path st now" by blast
    with same [OF genuine [OF c(2)] c(6)] authorizes [OF genuine [OF c(2)]] show ?returns
      unfolding assert_current_consumed_owner_grant_def bindR_eq_Inr thenR_eq_Inr grant_state_of_eq [OF ok] receipt
        assert_payload_times_window by blast
  qed
qed

lemma write_boundary_iff_witness:
  "\<exists>v r. reachable sample_crypto v \<and> assert_current_consumed_owner_grant sample_crypto sample_host 3000 v (HObject 0) sample_input = Inr r"
proof -
  obtain v st r where v: "reachable sample_crypto v" "va_states v 0 = Some st" "gs_status st = Consumed" "gs_receipt st = Some r"
    "genuine st" "gs_payload st = sample_payload" "authorized_now sample_crypto sample_host (gs_registry_path st) st 3000"
    by (rule sample_consumed)
  have "requested_path sample_host st (vi_registry_path sample_input) = Inr (gs_registry_path st)"
    by (simp add: requested_path_def sample_input_def)
  moreover have "validate_expected_bindings (vi_expected sample_input) = Inr (expected_bindings (gs_payload st))"
    using valid_bindings_accepted [OF sample_bindings_valid] unfolding v(6) sample_expected by (simp add: sample_input_def)
  moreover have "valid_timestamp (input_now (vi_now sample_input) 3000) ''verification clock'' = Inr 3000"
    using sample_hypotheses(3) sample_times(1) by (simp add: valid_timestamp_eq valid_time_def)
  ultimately have "assert_current_consumed_owner_grant sample_crypto sample_host 3000 v (HObject 0) sample_input = Inr r"
    using v sample_times
    by (intro write_boundary_iff [OF hash32_sample_crypto v(1), THEN iffD2] exI [of _ 0] exI [of _ st] exI [of _ 3000]
        exI [of _ "gs_registry_path st"]) simp
  with v(1) show ?thesis by blast
qed

end
