(* ===== verification/SqliteSchema.thy ===== *)
theory SqliteSchema
  imports OwnerGrant
begin

text \<open>
  packages/db/src/client.ts, the schema of the SQLite database: the statements of
  \<open>SCHEMA_SQL\<close>, the inspection of an opened database (\<open>assertSupportedSchemaVersion\<close>,
  \<open>verifyOwnerAuthorizationSchema\<close>) and the operations that change the schema (\<open>migrate\<close>,
  \<open>resetDb\<close>). A database is what the code can see of it: the version, the statements of its
  tables, its triggers, the indexes of the replay ledger and its rows. SQLite itself is modelled
  only as far as the code relies on it: \<open>CREATE ... IF NOT EXISTS\<close> leaves an existing object
  alone, a \<open>CHECK\<close> or \<open>UNIQUE\<close> violation rejects the row, and an exception inside
  \<open>transaction(...).immediate()\<close> rolls the database back.
\<close>

section \<open>The statements\<close>

definition sql_lines :: "string list \<Rightarrow> jsstr" where
  "sql_lines ls = join [10] (map js ls)"

definition owner_authorization_table_sql :: jsstr where
  "owner_authorization_table_sql = sql_lines
    [''CREATE TABLE IF NOT EXISTS owner_authorization_consumptions ('',
     ''  authorization_id  TEXT PRIMARY KEY CHECK(length(authorization_id) BETWEEN 1 AND 128),'',
     ''  envelope_id       TEXT NOT NULL UNIQUE CHECK(length(envelope_id) BETWEEN 1 AND 128),'',
     ''  envelope_digest   TEXT NOT NULL UNIQUE CHECK(length(envelope_digest) = 64 AND envelope_digest NOT GLOB '*[^0-9a-f]*'),'',
     ''  nonce_digest      TEXT NOT NULL UNIQUE CHECK(length(nonce_digest) = 64 AND nonce_digest NOT GLOB '*[^0-9a-f]*'),'',
     ''  signer_id         TEXT NOT NULL CHECK(length(signer_id) BETWEEN 1 AND 128),'',
     ''  key_id            TEXT NOT NULL CHECK(length(key_id) BETWEEN 1 AND 128),'',
     ''  repository_slug   TEXT NOT NULL CHECK(length(repository_slug) BETWEEN 3 AND 140),'',
     ''  repository_id     INTEGER NOT NULL CHECK(repository_id > 0),'',
     ''  base_sha          TEXT NOT NULL CHECK(length(base_sha) IN (40, 64) AND base_sha NOT GLOB '*[^0-9a-f]*'),'',
     ''  preflight_id      TEXT NOT NULL CHECK(length(preflight_id) = 67 AND substr(preflight_id, 1, 3) = 'pf_' AND substr(preflight_id, 4) NOT GLOB '*[^0-9a-f]*'),'',
     ''  artifact_digest   TEXT NOT NULL CHECK(length(artifact_digest) = 64 AND artifact_digest NOT GLOB '*[^0-9a-f]*'),'',
     ''  manifest_digest   TEXT NOT NULL CHECK(length(manifest_digest) = 64 AND manifest_digest NOT GLOB '*[^0-9a-f]*'),'',
     ''  candidate_branch  TEXT NOT NULL CHECK(length(candidate_branch) BETWEEN 1 AND 240),'',
     ''  candidate_tree_sha TEXT NOT NULL CHECK(length(candidate_tree_sha) IN (40, 64) AND candidate_tree_sha NOT GLOB '*[^0-9a-f]*'),'',
     ''  expires_at        INTEGER NOT NULL,'',
     ''  consumed_at       INTEGER NOT NULL,'',
     ''  CHECK(consumed_at > 0 AND expires_at > consumed_at)'',
     '');'']"

definition owner_authorization_store_identity_table_sql :: jsstr where
  "owner_authorization_store_identity_table_sql = sql_lines
    [''CREATE TABLE IF NOT EXISTS owner_authorization_store_identity ('',
     ''  singleton      INTEGER PRIMARY KEY CHECK(singleton = 1),'',
     ''  store_id       TEXT NOT NULL UNIQUE CHECK(length(store_id) BETWEEN 16 AND 128),'',
     ''  database_path  TEXT NOT NULL CHECK(length(database_path) BETWEEN 1 AND 4096),'',
     ''  device         TEXT NOT NULL CHECK(length(device) BETWEEN 1 AND 32 AND device NOT GLOB '*[^0-9]*'),'',
     ''  inode          TEXT NOT NULL CHECK(length(inode) BETWEEN 1 AND 32 AND inode NOT GLOB '*[^0-9]*'),'',
     ''  link_count     INTEGER NOT NULL CHECK(link_count > 0),'',
     ''  anchor_path    TEXT NOT NULL CHECK(length(anchor_path) BETWEEN 1 AND 4096),'',
     ''  anchor_device  TEXT NOT NULL CHECK(length(anchor_device) BETWEEN 1 AND 32 AND anchor_device NOT GLOB '*[^0-9]*'),'',
     ''  anchor_inode   TEXT NOT NULL CHECK(length(anchor_inode) BETWEEN 1 AND 32 AND anchor_inode NOT GLOB '*[^0-9]*'),'',
     ''  anchor_digest  TEXT NOT NULL CHECK(length(anchor_digest) = 64 AND anchor_digest NOT GLOB '*[^0-9a-f]*'),'',
     ''  initialized_at INTEGER NOT NULL CHECK(initialized_at > 0)'',
     '');'']"

definition providers_table_sql :: jsstr where
  "providers_table_sql = sql_lines
    [''CREATE TABLE IF NOT EXISTS providers ('',
     ''  id         TEXT PRIMARY KEY,'',
     ''  name       TEXT NOT NULL CHECK(length(trim(name)) > 0),'',
     ''  slug       TEXT NOT NULL UNIQUE CHECK(length(trim(slug)) > 0),'',
     ''  created_at INTEGER NOT NULL'',
     '');'']"

definition campaigns_table_sql :: jsstr where
  "campaigns_table_sql = sql_lines
    [''CREATE TABLE IF NOT EXISTS campaigns ('',
     ''  id          TEXT PRIMARY KEY,'',
     ''  provider_id TEXT NOT NULL REFERENCES providers(id) ON UPDATE CASCADE ON DELETE RESTRICT,'',
     ''  name        TEXT NOT NULL CHECK(length(trim(name)) > 0),'',
     ''  manifest    TEXT NOT NULL,'',
     ''  status      TEXT NOT NULL DEFAULT 'draft' CHECK(status IN ('draft', 'active', 'completed', 'archived')),'',
     ''  created_at  INTEGER NOT NULL'',
     '');'']"

definition repos_table_sql :: jsstr where
  "repos_table_sql = sql_lines
    [''CREATE TABLE IF NOT EXISTS repos ('',
     ''  id              TEXT PRIMARY KEY,'',
     ''  slug            TEXT NOT NULL UNIQUE CHECK(length(trim(slug)) > 0),'',
     ''  default_branch  TEXT,'',
     ''  installation_id INTEGER CHECK(installation_id IS NULL OR installation_id > 0),'',
     ''  created_at      INTEGER NOT NULL'',
     '');'']"

definition migration_runs_table_sql :: jsstr where
  "migration_runs_table_sql = sql_lines
    [''CREATE TABLE IF NOT EXISTS migration_runs ('',
     ''  id          TEXT PRIMARY KEY,'',
     ''  campaign_id TEXT NOT NULL REFERENCES campaigns(id) ON UPDATE CASCADE ON DELETE CASCADE,'',
     ''  repo_id     TEXT NOT NULL REFERENCES repos(id) ON UPDATE CASCADE ON DELETE RESTRICT,'',
     ''  status      TEXT NOT NULL DEFAULT 'queued' CHECK(status IN ('queued', 'scanning', 'transforming', 'verifying', 'preview_ready', 'blocked', 'pr_opened', 'merged', 'failed', 'no_changes')),'',
     ''  branch      TEXT,'',
     ''  pr_url      TEXT,'',
     ''  summary     TEXT,'',
     ''  report      TEXT,'',
     ''  error       TEXT,'',
     ''  publication_mode TEXT CHECK(publication_mode IS NULL OR publication_mode IN ('preview', 'publish')),'',
     ''  preflight_id TEXT,'',
     ''  artifact_digest TEXT,'',
     ''  base_sha TEXT,'',
     ''  base_branch TEXT,'',
     ''  head_sha TEXT,'',
     ''  publication_blockers TEXT,'',
     ''  approved_by TEXT,'',
     ''  override_unsafe INTEGER NOT NULL DEFAULT 0 CHECK(override_unsafe IN (0, 1)),'',
     ''  override_reason TEXT,'',
     ''  started_at  INTEGER NOT NULL,'',
     ''  finished_at INTEGER'',
     '');'']"

section \<open>The database\<close>

text \<open>An index of the replay ledger, as \<open>index_list\<close> and \<open>index_info\<close> report it.\<close>

record sql_index =
  ix_name :: jsstr
  ix_unique :: bool
  ix_partial :: bool
  ix_columns :: "jsstr list"

record store_identity =
  si_singleton :: int
  si_store_id :: jsstr
  si_database_path :: jsstr
  si_device :: jsstr
  si_inode :: jsstr
  si_link_count :: int
  si_anchor_path :: jsstr
  si_anchor_device :: jsstr
  si_anchor_inode :: jsstr
  si_anchor_digest :: jsstr
  si_initialized_at :: int

text \<open>The rows of the campaign tables (packages/db/src/schema.ts); a missing value is SQL's \<open>NULL\<close>.\<close>

record provider_row =
  pr_id :: jsstr
  pr_name :: jsstr
  pr_slug :: jsstr
  pr_created_at :: int

datatype campaign_status = Draft | Active | Completed | Archived

record campaign_row =
  cp_id :: jsstr
  cp_provider_id :: jsstr
  cp_name :: jsstr
  cp_manifest :: jsstr
  cp_status :: campaign_status
  cp_created_at :: int

record repo_row =
  rp_id :: jsstr
  rp_slug :: jsstr
  rp_default_branch :: "jsstr option"
  rp_installation_id :: "int option"
  rp_created_at :: int

datatype run_status = Queued | Scanning | Transforming | Verifying | PreviewReady | Blocked | PrOpened | Merged | Failed | NoChanges

datatype publication_mode = PreviewMode | PublishMode

record run_row =
  rn_id :: jsstr
  rn_campaign_id :: jsstr
  rn_repo_id :: jsstr
  rn_status :: run_status
  rn_branch :: "jsstr option"
  rn_pr_url :: "jsstr option"
  rn_summary :: "jsstr option"
  rn_report :: "jsstr option"
  rn_error :: "jsstr option"
  rn_publication_mode :: "publication_mode option"
  rn_preflight_id :: "jsstr option"
  rn_artifact_digest :: "jsstr option"
  rn_base_sha :: "jsstr option"
  rn_base_branch :: "jsstr option"
  rn_head_sha :: "jsstr option"
  rn_publication_blockers :: "jsstr option"
  rn_approved_by :: "jsstr option"
  rn_override_unsafe :: bool
  rn_override_reason :: "jsstr option"
  rn_started_at :: int
  rn_finished_at :: "int option"

text \<open>
  Tables are pairs of a name and the statement SQLite keeps, triggers of a name and their table; \<open>sq_declared\<close> holds
  the statement that created each table, from which SQLite has its constraints. The ledger's rows are the receipts themselves.
\<close>

record sqlite =
  sq_version :: int
  sq_tables :: "(jsstr \<times> jsstr) list"
  sq_declared :: "(jsstr \<times> jsstr) list"
  sq_triggers :: "(jsstr \<times> jsstr) list"
  sq_indexes :: "sql_index list"
  sq_run_columns :: "jsstr list"
  sq_providers :: "provider_row list"
  sq_campaigns :: "campaign_row list"
  sq_repos :: "repo_row list"
  sq_runs :: "run_row list"
  sq_consumptions :: "receipt list"
  sq_identity :: "store_identity option"
  sq_journal_mode :: jsstr
  sq_synchronous :: int
  sq_fullfsync :: int

section \<open>Comparing statements\<close>

definition word_unit :: "code_unit \<Rightarrow> bool" where
  "word_unit c \<longleftrightarrow> is_alnum c \<or> c = 95"

definition boundary_after :: "jsstr \<Rightarrow> bool" where
  "boundary_after s \<longleftrightarrow> (case s of [] \<Rightarrow> True | c # _ \<Rightarrow> \<not> word_unit c)"

text \<open>A word of the pattern, in either case, and \<open>\s+\<close>.\<close>

definition eat_word :: "string \<Rightarrow> jsstr \<Rightarrow> jsstr option" where
  "eat_word w s = (if map (\<lambda>c. if is_upper c then c + 32 else c) (take (length w) s) = js w then Some (drop (length w) s) else None)"

definition eat_spaces :: "jsstr \<Rightarrow> jsstr option" where
  "eat_spaces s = (case s of [] \<Rightarrow> None | c # _ \<Rightarrow> if is_space c then Some (dropWhile is_space s) else None)"

text \<open>\<open>\bif\s+not\s+exists\b\<close> at the start of the text, after a boundary: the text behind the match.\<close>

definition eat_if_not_exists :: "jsstr \<Rightarrow> jsstr option" where
  "eat_if_not_exists s =
     Option.bind (eat_word ''if'' s) (\<lambda>a. Option.bind (eat_spaces a) (\<lambda>b. Option.bind (eat_word ''not'' b) (\<lambda>c.
     Option.bind (eat_spaces c) (\<lambda>d. Option.bind (eat_word ''exists'' d) (\<lambda>e. if boundary_after e then Some e else None)))))"

lemma eat_word_shorter: "eat_word w s = Some r \<Longrightarrow> length r \<le> length s"
  by (auto simp: eat_word_def split: if_splits)

lemma eat_spaces_shorter: "eat_spaces s = Some r \<Longrightarrow> length r \<le> length s"
  by (auto simp: eat_spaces_def le_SucI length_dropWhile_le split: list.splits if_splits)

lemma eat_if_not_exists_shorter: "eat_if_not_exists (c # s) = Some r \<Longrightarrow> length r < Suc (length s)"
proof -
  assume "eat_if_not_exists (c # s) = Some r"
  then obtain a b d e where "eat_word ''if'' (c # s) = Some a" "eat_spaces a = Some b" "eat_word ''not'' b = Some d"
    "eat_spaces d = Some e" "eat_word ''exists'' e = Some r"
    by (auto simp: eat_if_not_exists_def bind_eq_Some_conv split: if_splits)
  moreover from this have "length a \<le> length s" by (auto simp: eat_word_def js_Cons split: if_splits)
  ultimately show ?thesis using eat_word_shorter eat_spaces_shorter by (meson le_imp_less_Suc order.trans)
qed

function strip_if_not_exists :: "bool \<Rightarrow> jsstr \<Rightarrow> jsstr" where
  "strip_if_not_exists after_word [] = []"
| "strip_if_not_exists after_word (c # s) =
     (case (if after_word then None else eat_if_not_exists (c # s)) of
        Some r \<Rightarrow> strip_if_not_exists True r
      | None \<Rightarrow> c # strip_if_not_exists (word_unit c) s)"
  by pat_completeness auto
termination
  by (relation "measure (\<lambda>(_, s). length s)") (auto dest: eat_if_not_exists_shorter split: if_splits)

text \<open>\<open>replace(/\s+/g, " ")\<close>.\<close>

fun collapse_spaces :: "jsstr \<Rightarrow> jsstr" where
  "collapse_spaces [] = []"
| "collapse_spaces (c # s) = (if is_space c then 32 # collapse_spaces (dropWhile is_space s) else c # collapse_spaces s)"

text \<open>\<open>replace(/\s*([(),])\s*/g, "$1")\<close>.\<close>

definition sql_punct :: "code_unit \<Rightarrow> bool" where
  "sql_punct c \<longleftrightarrow> c = 40 \<or> c = 41 \<or> c = 44"

function tighten :: "jsstr \<Rightarrow> jsstr" where
  "tighten [] = []"
| "tighten (c # s) =
     (if sql_punct c then c # tighten (dropWhile is_space s)
      else if is_space c then
        (let spaces = takeWhile is_space (c # s); rest = dropWhile is_space s in
         (if rest \<noteq> [] \<and> sql_punct (hd rest) then [] else spaces) @ tighten rest)
      else c # tighten s)"
  by pat_completeness auto
termination
  by (relation "measure length") (auto simp: le_imp_less_Suc length_dropWhile_le)

text \<open>\<open>replace(/;\s*$/, "")\<close>.\<close>

definition drop_semicolon :: "jsstr \<Rightarrow> jsstr" where
  "drop_semicolon s = (case dropWhile is_space (rev s) of c # r \<Rightarrow> (if c = 59 then rev r else s) | [] \<Rightarrow> s)"

definition normalize_schema_sql :: "jsstr \<Rightarrow> jsstr" where
  "normalize_schema_sql s = to_lower (trim (drop_semicolon (tighten (collapse_spaces (strip_if_not_exists False s)))))"

definition matches_table_sql :: "sqlite \<Rightarrow> string \<Rightarrow> jsstr \<Rightarrow> bool" where
  "matches_table_sql db name expected =
     (case map_of (sq_tables db) (js name) of
        None \<Rightarrow> False
      | Some sql \<Rightarrow> normalize_schema_sql sql = normalize_schema_sql expected)"

section \<open>Inspecting the schema\<close>

definition schema_version :: int where
  "schema_version = 5"

text \<open>\<open>Number.isSafeInteger\<close> of the pragma's value.\<close>

definition assert_supported_schema_version :: "sqlite \<Rightarrow> int result" where
  "assert_supported_schema_version db =
     (if max_safe < \<bar>sq_version db\<bar> \<or> sq_version db < 0 then throw ''database schema version is invalid''
      else if schema_version < sq_version db then throw ''database schema version is newer than supported''
      else Inr (sq_version db))"

definition assert_index_columns :: "sqlite \<Rightarrow> string \<Rightarrow> string list \<Rightarrow> unit result" where
  "assert_index_columns db name columns =
     (case find (\<lambda>i. ix_name i = js name) (sq_indexes db) of
        None \<Rightarrow> throw ''owner authorization replay index is missing or invalid''
      | Some i \<Rightarrow> throw_if (ix_unique i \<or> ix_partial i \<or> ix_columns i \<noteq> map js columns)
          ''owner authorization replay index is missing or invalid'')"

definition required_unique_columns :: "jsstr list" where
  "required_unique_columns = map js [''authorization_id'', ''envelope_id'', ''envelope_digest'', ''nonce_digest'']"

definition missing_unique_columns :: "sqlite \<Rightarrow> jsstr list" where
  "missing_unique_columns db =
     filter (\<lambda>c. \<not> list_ex (\<lambda>i. ix_unique i \<and> \<not> ix_partial i \<and> ix_columns i = [c]) (sq_indexes db)) required_unique_columns"

definition verify_owner_authorization_schema :: "sqlite \<Rightarrow> unit result" where
  "verify_owner_authorization_schema db =
     thenR (throw_if (\<not> matches_table_sql db ''owner_authorization_consumptions'' owner_authorization_table_sql)
       ''owner authorization replay schema is missing or invalid'')
    (thenR (throw_if (\<not> matches_table_sql db ''owner_authorization_store_identity'' owner_authorization_store_identity_table_sql)
       ''owner authorization store identity schema is missing or invalid'')
    (thenR (throw_if (sq_triggers db \<noteq> []) ''owner authorization database must not contain triggers'')
    (thenR (throw_if (missing_unique_columns db \<noteq> []) ''owner authorization replay uniqueness constraints are missing'')
    (thenR (assert_index_columns db ''owner_authorization_consumptions_repository_idx'' [''repository_id'', ''consumed_at''])
       (assert_index_columns db ''owner_authorization_consumptions_preflight_idx'' [''preflight_id''])))))"

section \<open>Changing the schema\<close>

definition schema_tables :: "(jsstr \<times> jsstr) list" where
  "schema_tables =
     [(js ''providers'', providers_table_sql), (js ''campaigns'', campaigns_table_sql), (js ''repos'', repos_table_sql),
      (js ''migration_runs'', migration_runs_table_sql),
      (js ''owner_authorization_consumptions'', owner_authorization_table_sql),
      (js ''owner_authorization_store_identity'', owner_authorization_store_identity_table_sql)]"

text \<open>
  The indexes SQLite makes for the \<open>PRIMARY KEY\<close> and \<open>UNIQUE\<close> columns of the ledger when it
  creates the table, and the two \<open>CREATE INDEX\<close> statements.
\<close>

definition ledger_auto_indexes :: "sql_index list" where
  "ledger_auto_indexes = map (\<lambda>c. \<lparr>ix_name = js ''sqlite_autoindex_'' @ c, ix_unique = True, ix_partial = False, ix_columns = [c]\<rparr>)
     required_unique_columns"

definition ledger_indexes :: "sql_index list" where
  "ledger_indexes =
     [\<lparr>ix_name = js ''owner_authorization_consumptions_repository_idx'', ix_unique = False, ix_partial = False,
       ix_columns = map js [''repository_id'', ''consumed_at'']\<rparr>,
      \<lparr>ix_name = js ''owner_authorization_consumptions_preflight_idx'', ix_unique = False, ix_partial = False,
       ix_columns = [js ''preflight_id'']\<rparr>]"

definition has_table :: "sqlite \<Rightarrow> jsstr \<Rightarrow> bool" where
  "has_table db name \<longleftrightarrow> map_of (sq_tables db) name \<noteq> None"

definition run_columns :: "jsstr list" where
  "run_columns = map js [''id'', ''campaign_id'', ''repo_id'', ''status'', ''branch'', ''pr_url'', ''summary'', ''report'', ''error'',
     ''publication_mode'', ''preflight_id'', ''artifact_digest'', ''base_sha'', ''base_branch'', ''head_sha'', ''publication_blockers'',
     ''approved_by'', ''override_unsafe'', ''override_reason'', ''started_at'', ''finished_at'']"

text \<open>\<open>keep\<close> is the text SQLite keeps of a \<open>CREATE TABLE\<close> statement.\<close>

definition create_table :: "(jsstr \<Rightarrow> jsstr) \<Rightarrow> jsstr \<times> jsstr \<Rightarrow> sqlite \<Rightarrow> sqlite" where
  "create_table keep t db =
     (if has_table db (fst t) then db
      else db\<lparr>sq_tables := sq_tables db @ [(fst t, keep (snd t))],
              sq_declared := sq_declared db @ [t],
              sq_run_columns := (if fst t = js ''migration_runs'' then run_columns else sq_run_columns db),
              sq_indexes := (if fst t = js ''owner_authorization_consumptions'' then sq_indexes db @ ledger_auto_indexes else sq_indexes db)\<rparr>)"

definition create_index :: "sql_index \<Rightarrow> sqlite \<Rightarrow> sqlite" where
  "create_index i db = (if i \<in> set (sq_indexes db) \<or> list_ex (\<lambda>j. ix_name j = ix_name i) (sq_indexes db) then db
     else db\<lparr>sq_indexes := sq_indexes db @ [i]\<rparr>)"

definition exec_schema :: "(jsstr \<Rightarrow> jsstr) \<Rightarrow> sqlite \<Rightarrow> sqlite" where
  "exec_schema keep db = fold create_index ledger_indexes (fold (create_table keep) schema_tables db)"

definition pilot_audit_columns :: "jsstr list" where
  "pilot_audit_columns = map js [''publication_mode'', ''preflight_id'', ''artifact_digest'', ''base_sha'', ''base_branch'', ''head_sha'',
     ''publication_blockers'', ''approved_by'', ''override_unsafe'', ''override_reason'']"

text \<open>The loop tests the columns that existed before it.\<close>

definition ensure_pilot_audit_columns :: "sqlite \<Rightarrow> sqlite" where
  "ensure_pilot_audit_columns db =
     db\<lparr>sq_run_columns := sq_run_columns db @ filter (\<lambda>c. c \<notin> set (sq_run_columns db)) pilot_audit_columns\<rparr>"

definition apply_schema :: "(jsstr \<Rightarrow> jsstr) \<Rightarrow> sqlite \<Rightarrow> sqlite result" where
  "apply_schema keep db =
     (let db' = ensure_pilot_audit_columns (exec_schema keep db) in
      thenR (verify_owner_authorization_schema db') (Inr (db'\<lparr>sq_version := schema_version\<rparr>)))"

text \<open>\<open>transaction(...).immediate()\<close>: the new database, or the old one with the error.\<close>

definition transact :: "(sqlite \<Rightarrow> ('a \<times> sqlite) result) \<Rightarrow> sqlite \<Rightarrow> 'a result \<times> sqlite" where
  "transact body db = (case body db of Inl e \<Rightarrow> (Inl e, db) | Inr (a, db') \<Rightarrow> (Inr a, db'))"

definition migrate :: "(jsstr \<Rightarrow> jsstr) \<Rightarrow> sqlite \<Rightarrow> unit result \<times> sqlite" where
  "migrate keep = transact (\<lambda>db.
     bindR (assert_supported_schema_version db) (\<lambda>current.
     thenR (if current = schema_version then verify_owner_authorization_schema db else Inr ())
     (bindR (apply_schema keep db) (\<lambda>db'. Inr ((), db')))))"

text \<open>Dropping a table drops its rows, its triggers and, for the ledger, its indexes.\<close>

definition drop_table :: "jsstr \<Rightarrow> sqlite \<Rightarrow> sqlite" where
  "drop_table name db =
     db\<lparr>sq_tables := filter (\<lambda>t. fst t \<noteq> name) (sq_tables db),
        sq_declared := filter (\<lambda>t. fst t \<noteq> name) (sq_declared db),
        sq_triggers := filter (\<lambda>t. snd t \<noteq> name) (sq_triggers db),
        sq_providers := (if name = js ''providers'' then [] else sq_providers db),
        sq_campaigns := (if name = js ''campaigns'' then [] else sq_campaigns db),
        sq_repos := (if name = js ''repos'' then [] else sq_repos db),
        sq_runs := (if name = js ''migration_runs'' then [] else sq_runs db),
        sq_indexes := (if name = js ''owner_authorization_consumptions'' then [] else sq_indexes db),
        sq_consumptions := (if name = js ''owner_authorization_consumptions'' then [] else sq_consumptions db),
        sq_identity := (if name = js ''owner_authorization_store_identity'' then None else sq_identity db)\<rparr>"

definition reset_db :: "(jsstr \<Rightarrow> jsstr) \<Rightarrow> sqlite \<Rightarrow> unit result \<times> sqlite" where
  "reset_db keep = transact (\<lambda>db.
     bindR (apply_schema keep (fold drop_table (map js [''migration_runs'', ''repos'', ''campaigns'', ''providers'']) db)) (\<lambda>db'.
       Inr ((), db')))"

section \<open>Constraints\<close>

text \<open>
  What SQLite enforces on a table is what its statement declares. A column's clauses are read off its line of the
  statement: \<open>SCHEMA_SQL\<close> gives every column a line of its own.
\<close>

definition column_clause :: "jsstr \<Rightarrow> string \<Rightarrow> string \<Rightarrow> bool" where
  "column_clause sql column clause \<longleftrightarrow>
     list_ex (\<lambda>line. starts_with (js column @ [32]) (dropWhile (\<lambda>c. c = 32) line) \<and> has_sub (js clause) line) (split_on 10 sql)"

definition declares :: "sqlite \<Rightarrow> string \<Rightarrow> string \<Rightarrow> string \<Rightarrow> bool" where
  "declares db table column clause \<longleftrightarrow>
     (case map_of (sq_declared db) (js table) of None \<Rightarrow> False | Some sql \<Rightarrow> column_clause sql column clause)"

definition unique_column :: "sqlite \<Rightarrow> string \<Rightarrow> string \<Rightarrow> bool" where
  "unique_column db table column \<longleftrightarrow> declares db table column ''PRIMARY KEY'' \<or> declares db table column ''UNIQUE''"

definition table_exists :: "sqlite \<Rightarrow> string \<Rightarrow> unit result" where
  "table_exists db table = throw_if (\<not> has_table db (js table)) (''no such table: '' @ table)"

section \<open>A fresh database\<close>

definition fresh_sqlite :: sqlite where
  "fresh_sqlite = \<lparr>sq_version = 0, sq_tables = [], sq_declared = [], sq_triggers = [], sq_indexes = [], sq_run_columns = [],
     sq_providers = [], sq_campaigns = [], sq_repos = [], sq_runs = [], sq_consumptions = [], sq_identity = None, sq_journal_mode = js ''delete'', sq_synchronous = 2,
     sq_fullfsync = 1\<rparr>"

section \<open>What the schema operations keep\<close>

lemma create_table_keeps [simp]:
  "sq_consumptions (create_table keep t db) = sq_consumptions db" "sq_identity (create_table keep t db) = sq_identity db"
  "sq_version (create_table keep t db) = sq_version db" "sq_triggers (create_table keep t db) = sq_triggers db"
  by (simp_all add: create_table_def)

lemma create_index_keeps [simp]:
  "sq_consumptions (create_index i db) = sq_consumptions db" "sq_identity (create_index i db) = sq_identity db"
  "sq_version (create_index i db) = sq_version db" "sq_tables (create_index i db) = sq_tables db"
  by (simp_all add: create_index_def)

lemma exec_schema_keeps [simp]:
  "sq_consumptions (exec_schema keep db) = sq_consumptions db" "sq_identity (exec_schema keep db) = sq_identity db"
  by (simp_all add: exec_schema_def schema_tables_def ledger_indexes_def)

lemma ensure_columns_keeps [simp]:
  "sq_consumptions (ensure_pilot_audit_columns db) = sq_consumptions db" "sq_identity (ensure_pilot_audit_columns db) = sq_identity db"
  by (simp_all add: ensure_pilot_audit_columns_def)

lemma verify_schema_cong:
  "sq_tables db = sq_tables db' \<Longrightarrow> sq_triggers db = sq_triggers db' \<Longrightarrow> sq_indexes db = sq_indexes db'
    \<Longrightarrow> verify_owner_authorization_schema db = verify_owner_authorization_schema db'"
  by (simp add: verify_owner_authorization_schema_def matches_table_sql_def missing_unique_columns_def assert_index_columns_def)

lemma apply_schema_ok:
  assumes "apply_schema keep db = Inr db'"
  shows "sq_consumptions db' = sq_consumptions db \<and> sq_identity db' = sq_identity db \<and> sq_version db' = schema_version
    \<and> verify_owner_authorization_schema db' = Inr ()"
proof -
  let ?db = "ensure_pilot_audit_columns (exec_schema keep db)"
  from assms have "verify_owner_authorization_schema ?db = Inr ()" and db': "db' = ?db\<lparr>sq_version := schema_version\<rparr>"
    by (auto simp: apply_schema_def Let_def result_simps)
  moreover have "verify_owner_authorization_schema db' = verify_owner_authorization_schema ?db"
    by (rule verify_schema_cong) (simp_all add: db')
  ultimately show ?thesis by simp
qed

lemma transact_Inr: "transact body db = (Inr a, db') \<longleftrightarrow> body db = Inr (a, db')"
  by (auto simp: transact_def split: sum.splits)

lemma transact_Inl: "transact body db = (Inl e, db') \<longleftrightarrow> body db = Inl e \<and> db' = db"
  by (auto simp: transact_def split: sum.splits)

lemma drop_table_keeps [simp]:
  "name \<noteq> js ''owner_authorization_consumptions'' \<Longrightarrow> sq_consumptions (drop_table name db) = sq_consumptions db"
  "name \<noteq> js ''owner_authorization_store_identity'' \<Longrightarrow> sq_identity (drop_table name db) = sq_identity db"
  by (simp_all add: drop_table_def)

lemma migrate_keeps:
  assumes "migrate keep db = (r, db')"
  shows "sq_consumptions db' = sq_consumptions db \<and> sq_identity db' = sq_identity db"
proof (cases r)
  case (Inl e)
  with assms show ?thesis by (simp add: migrate_def transact_Inl)
next
  case (Inr a)
  with assms apply_schema_ok show ?thesis by (fastforce simp: migrate_def transact_Inr result_simps)
qed

lemma reset_keeps:
  assumes "reset_db keep db = (r, db')"
  shows "sq_consumptions db' = sq_consumptions db \<and> sq_identity db' = sq_identity db"
proof (cases r)
  case (Inl e)
  with assms show ?thesis by (simp add: reset_db_def transact_Inl)
next
  case (Inr a)
  with assms apply_schema_ok show ?thesis by (fastforce simp: reset_db_def transact_Inr result_simps)
qed

lemma fresh_verified:
  assumes "\<And>s. normalize_schema_sql (keep s) = normalize_schema_sql s"
  shows "\<exists>db. apply_schema keep fresh_sqlite = Inr db"
proof -
  let ?db = "ensure_pilot_audit_columns (exec_schema keep fresh_sqlite)"
  have tables: "sq_tables ?db = map (\<lambda>(n, s). (n, keep s)) schema_tables"
    by (simp add: ensure_pilot_audit_columns_def exec_schema_def schema_tables_def ledger_indexes_def create_table_def fresh_sqlite_def
        has_table_def create_index_def)
  have rest: "sq_triggers ?db = []" "sq_indexes ?db = ledger_auto_indexes @ ledger_indexes"
    by (simp_all add: ensure_pilot_audit_columns_def exec_schema_def schema_tables_def ledger_indexes_def create_table_def fresh_sqlite_def
        has_table_def create_index_def ledger_auto_indexes_def required_unique_columns_def list_ex_iff flip: js_append)
  have "verify_owner_authorization_schema ?db = Inr ()"
    unfolding verify_owner_authorization_schema_def matches_table_sql_def missing_unique_columns_def assert_index_columns_def tables rest
    by (simp add: schema_tables_def assms ledger_auto_indexes_def ledger_indexes_def required_unique_columns_def flip: js_append)
  then show ?thesis by (simp add: apply_schema_def Let_def)
qed

end
