(* ===== verification/ReplayStore.thy ===== *)
theory ReplayStore
  imports SqliteSchema
begin

unbundle bit_operations_syntax

text \<open>
  packages/db/src/client.ts, the durable replay ledger: the identity of the database file
  (\<open>readDurableFileIdentity\<close>), the anchor file outside the database directory
  (\<open>createDurableReplayAnchor\<close>, \<open>readDurableReplayAnchor\<close>), the one-time ceremony that pins them
  to each other (\<open>initializeOwnerAuthorizationStore\<close>) and the consumption of an authorization
  (\<open>persistOwnerAuthorizationConsumption\<close>). A \<open>disk\<close> holds what the file system answers during
  one operation (\<open>None\<close> when the call throws); creating the anchor changes it. The SQLite clock is
  an argument for each time it is read.
\<close>

section \<open>The file system\<close>

record big_stat =
  bg_file :: bool
  bg_directory :: bool
  bg_dev :: nat
  bg_ino :: nat
  bg_nlink :: nat
  bg_size :: nat
  bg_mode :: "32 word"
  bg_uid :: nat

text \<open>
  \<open>dk_create\<close> is what an exclusive creation with these bytes leaves when nothing is at the path:
  the file's bytes and status, and whether writing and syncing it succeeded; \<open>dk_sync\<close> says whether
  opening and syncing a file or directory succeeds.
\<close>

record disk =
  dk_uid :: "nat option"
  dk_cwd :: jsstr
  dk_realpath :: "jsstr \<Rightarrow> jsstr option"
  dk_stat :: "jsstr \<Rightarrow> big_stat option"
  dk_lstat :: "jsstr \<Rightarrow> big_stat option"
  dk_open :: "jsstr \<Rightarrow> big_stat option"
  dk_read :: "jsstr \<Rightarrow> byte list option"
  dk_lstat_after :: "jsstr \<Rightarrow> big_stat option"
  dk_create :: "jsstr \<Rightarrow> byte list \<Rightarrow> (byte list \<times> big_stat \<times> bool) option"
  dk_sync :: "jsstr \<Rightarrow> bool"

record db_env =
  ev_db_path :: "jsstr option"
  ev_workspace_root :: "jsstr option"
  ev_store_id :: "jsstr option"
  ev_anchor_path :: "jsstr option"

definition os :: "'a option \<Rightarrow> 'a result" where
  "os r = (case r of None \<Rightarrow> throw ''file system error'' | Some x \<Rightarrow> Inr x)"

text \<open>\<open>dirname\<close> and \<open>basename\<close> of node:path, on POSIX paths.\<close>

definition strip_slashes :: "jsstr \<Rightarrow> jsstr" where
  "strip_slashes p = rev (dropWhile (\<lambda>c. c = 47) (rev p))"

definition base_name :: "jsstr \<Rightarrow> jsstr" where
  "base_name p = rev (takeWhile (\<lambda>c. c \<noteq> 47) (rev (strip_slashes p)))"

definition dir_name :: "jsstr \<Rightarrow> jsstr" where
  "dir_name p = (let parent = rev (dropWhile (\<lambda>c. c \<noteq> 47) (rev (strip_slashes p))) in
     if parent = [] then (if is_absolute p then [47] else js ''.'')
     else if parent = [47] then [47]
     else if parent = [47, 47] then parent
     else butlast parent)"

definition join_path :: "jsstr \<Rightarrow> jsstr \<Rightarrow> jsstr" where
  "join_path parent name = resolve_path (parent @ 47 # name)"

section \<open>Opening the database\<close>

definition resolve_database_path :: "db_env \<Rightarrow> jsstr \<Rightarrow> jsstr option \<Rightarrow> jsstr" where
  "resolve_database_path env cwd path =
     (let configured = (case path of Some p \<Rightarrow> p
        | None \<Rightarrow> (case ev_db_path env of Some p \<Rightarrow> p | None \<Rightarrow> js ''data/api-migrator.db'')) in
      if configured = js '':memory:'' \<or> is_absolute configured then configured
      else (let root = (case ev_workspace_root env of Some r \<Rightarrow> (if path = None \<and> r \<noteq> [] then r else cwd) | None \<Rightarrow> cwd);
                base = (if is_absolute root then root else cwd @ 47 # root) in
            resolve_path (base @ 47 # configured)))"

record file_identity =
  fi_database_path :: jsstr
  fi_device :: jsstr
  fi_inode :: jsstr
  fi_link_count :: int

text \<open>\<open>main\<close> is the file of the \<open>main\<close> entry of \<open>database_list\<close>; the octal masks are 022, 600 and 700.\<close>

definition read_durable_file_identity :: "disk \<Rightarrow> jsstr option \<Rightarrow> file_identity result" where
  "read_durable_file_identity d main =
     (case main of
        None \<Rightarrow> throw ''owner authorization requires a file-backed database''
      | Some file \<Rightarrow>
          (if file = [] \<or> \<not> is_absolute file then throw ''owner authorization requires a file-backed database''
           else
             bindR (os (dk_realpath d file)) (\<lambda>path.
             bindR (os (dk_stat d path)) (\<lambda>stats.
             bindR (os (dk_stat d (dir_name path))) (\<lambda>dir.
             if \<not> bg_file stats \<or> bg_nlink stats \<noteq> 1 \<or> (dk_uid d \<noteq> None \<and> Some (bg_uid stats) \<noteq> dk_uid d)
                \<or> bg_mode stats AND 0x12 \<noteq> 0 \<or> bg_mode stats AND 0x180 \<noteq> 0x180
                \<or> \<not> bg_directory dir \<or> (dk_uid d \<noteq> None \<and> Some (bg_uid dir) \<noteq> dk_uid d)
                \<or> bg_mode dir AND 0x12 \<noteq> 0 \<or> bg_mode dir AND 0x1C0 \<noteq> 0x1C0
             then throw ''owner authorization database and directory must be owner-controlled''
             else Inr \<lparr>fi_database_path = path, fi_device = nat_text (bg_dev stats), fi_inode = nat_text (bg_ino stats),
                        fi_link_count = int (bg_nlink stats)\<rparr>)))))"

definition same_file_identity :: "file_identity \<Rightarrow> file_identity \<Rightarrow> bool" where
  "same_file_identity a b \<longleftrightarrow> fi_database_path a = fi_database_path b \<and> fi_device a = fi_device b \<and> fi_inode a = fi_inode b
     \<and> fi_link_count a = fi_link_count b"

text \<open>
  The module's connection: \<open>cl_path\<close> is \<open>_dbPath\<close>, \<open>cl_identity\<close> is \<open>_openFileIdentity\<close>; \<open>cl_main\<close> is
  the file of the open database, and \<open>cl_foreign_keys\<close> says whether the connection enforces references.
\<close>

record client =
  cl_open :: bool
  cl_path :: "jsstr option"
  cl_main :: "jsstr option"
  cl_identity :: "file_identity option"
  cl_foreign_keys :: bool

definition closed_client :: client where
  "closed_client = \<lparr>cl_open = False, cl_path = None, cl_main = None, cl_identity = None, cl_foreign_keys = False\<rparr>"

definition close_db :: "client \<Rightarrow> client" where
  "close_db c = closed_client"

definition configure_durable_journal :: "(sqlite \<Rightarrow> sqlite) \<Rightarrow> sqlite \<Rightarrow> sqlite result" where
  "configure_durable_journal set_pragmas db =
     (let db' = set_pragmas db in
      if sq_journal_mode db' \<noteq> js ''delete'' then throw ''owner authorization database requires DELETE journal mode''
      else if sq_synchronous db' \<noteq> 2 \<or> sq_fullfsync db' \<noteq> 1
      then throw ''owner authorization database durability settings were not applied''
      else Inr db')"

text \<open>
  \<open>getDb\<close>: the connection, opened when there is none. \<open>opened\<close> is the database that SQLite opens at
  the path and \<open>set_pragmas\<close> what the three durability pragmas do to it; the pragma \<open>foreign_keys = ON\<close> belongs to
  the connection.
\<close>

definition get_db ::
  "db_env \<Rightarrow> disk \<Rightarrow> (sqlite \<Rightarrow> sqlite) \<Rightarrow> (jsstr \<Rightarrow> sqlite) \<Rightarrow> jsstr option \<Rightarrow> client \<Rightarrow> (client \<times> sqlite option) result" where
  "get_db env d set_pragmas opened path c =
     (if cl_open c \<and> path = None then Inr (c, None)
      else let normalized = resolve_database_path env (dk_cwd d) path in
        if cl_open c then
          (if cl_path c \<noteq> Some normalized then throw ''database already open'' else Inr (c, None))
        else
          (let db = opened normalized; main = (if normalized = js '':memory:'' then None else Some normalized) in
           bindR (assert_supported_schema_version db) (\<lambda>_.
           bindR (if main = None then Inr None else bindR (read_durable_file_identity d main) (\<lambda>i. Inr (Some i))) (\<lambda>identity.
           bindR (if main = None then Inr db else configure_durable_journal set_pragmas db) (\<lambda>db'.
             Inr (\<lparr>cl_open = True, cl_path = Some normalized, cl_main = main, cl_identity = identity, cl_foreign_keys = True\<rparr>, Some db'))))))"

definition assert_stable_open_file_identity :: "client \<Rightarrow> disk \<Rightarrow> file_identity result" where
  "assert_stable_open_file_identity c d =
     (case (cl_open c, cl_identity c) of
        (True, Some opened) \<Rightarrow>
          bindR (read_durable_file_identity d (cl_main c)) (\<lambda>current.
          if \<not> same_file_identity current opened then throw ''owner authorization database file identity changed after open''
          else Inr current)
      | _ \<Rightarrow> throw ''owner authorization requires an initialized file-backed database'')"

section \<open>The anchor\<close>

record anchor_document =
  ad_version :: int
  ad_store_id :: jsstr
  ad_database_path :: jsstr
  ad_database_device :: jsstr
  ad_database_inode :: jsstr
  ad_initialized_at :: int
  ad_nonce :: jsstr

record anchor =
  an_path :: jsstr
  an_device :: jsstr
  an_inode :: jsstr
  an_digest :: jsstr
  an_document :: anchor_document

definition max_replay_anchor_bytes :: nat where
  "max_replay_anchor_bytes = 8192"

text \<open>\<open>/^[A-Za-z0-9][A-Za-z0-9._:@+-]{15,127}$/\<close>.\<close>

definition is_replay_store_id :: "jsstr \<Rightarrow> bool" where
  "is_replay_store_id s \<longleftrightarrow> (case s of [] \<Rightarrow> False | c # cs \<Rightarrow>
     is_alnum c \<and> 15 \<le> length cs \<and> length cs \<le> 127 \<and> list_all (\<lambda>d. is_alnum d \<or> in_class ''._:@+-'' d) cs)"

definition configured_replay_store_id :: "db_env \<Rightarrow> jsstr result" where
  "configured_replay_store_id env =
     (case ev_store_id env of
        None \<Rightarrow> throw ''API_MIGRATOR_REPLAY_STORE_ID must be a 16-128 character stable identifier''
      | Some v \<Rightarrow>
          (if \<not> is_replay_store_id v then throw ''API_MIGRATOR_REPLAY_STORE_ID must be a 16-128 character stable identifier''
           else Inr v))"

definition configured_replay_anchor_path :: "db_env \<Rightarrow> disk \<Rightarrow> file_identity \<Rightarrow> jsstr result" where
  "configured_replay_anchor_path env d file =
     (case ev_anchor_path env of
        None \<Rightarrow> throw ''API_MIGRATOR_REPLAY_ANCHOR_PATH must be an absolute secure anchor path''
      | Some configured \<Rightarrow>
          thenR (throw_if (length configured < 1 \<or> 4096 < length configured \<or> \<not> is_absolute configured)
            ''API_MIGRATOR_REPLAY_ANCHOR_PATH must be an absolute secure anchor path'')
          (let name = base_name configured in
           thenR (throw_if (name = [] \<or> name = js ''.'' \<or> name = js ''..'') ''API_MIGRATOR_REPLAY_ANCHOR_PATH must name an anchor file'')
          (bindR (os (dk_realpath d (dir_name configured))) (\<lambda>parent.
           bindR (os (dk_stat d parent)) (\<lambda>stats.
           thenR (throw_if (\<not> bg_directory stats \<or> (dk_uid d \<noteq> None \<and> Some (bg_uid stats) \<noteq> dk_uid d)
               \<or> bg_mode stats AND 0x12 \<noteq> 0 \<or> bg_mode stats AND 0x80 = 0)
             ''owner authorization anchor directory must be owner-controlled and writable'')
          (let anchor_path = join_path parent name; rel = relative_path (dir_name (fi_database_path file)) anchor_path in
           if anchor_path = fi_database_path file \<or> rel = [] \<or> (\<not> starts_with (js ''..'') rel \<and> \<not> is_absolute rel)
           then throw ''owner authorization anchor must be outside the database directory''
           else Inr anchor_path))))))"

definition assert_secure_replay_anchor_file :: "disk \<Rightarrow> big_stat \<Rightarrow> unit result" where
  "assert_secure_replay_anchor_file d stats =
     throw_if (\<not> bg_file stats \<or> bg_nlink stats \<noteq> 1 \<or> bg_size stats < 1 \<or> max_replay_anchor_bytes < bg_size stats
         \<or> (dk_uid d \<noteq> None \<and> Some (bg_uid stats) \<noteq> dk_uid d) \<or> bg_mode stats AND 0x3F \<noteq> 0 \<or> bg_mode stats AND 0x100 = 0)
       ''owner authorization anchor file is not owner-only and durable''"

definition decimal_identity :: "jsval \<Rightarrow> bool" where
  "decimal_identity v \<longleftrightarrow> (case v of JStr s \<Rightarrow> 1 \<le> length s \<and> length s \<le> 32 \<and> list_all is_digit s | _ \<Rightarrow> False)"

definition anchor_keys :: "jsstr list" where
  "anchor_keys = map js [''databaseDevice'', ''databaseInode'', ''databasePath'', ''initializedAt'', ''nonce'', ''storeId'', ''version'']"

definition text_value :: "jsval \<Rightarrow> jsstr" where
  "text_value v = (case v of JStr s \<Rightarrow> s | _ \<Rightarrow> [])"

definition int_value :: "jsval \<Rightarrow> int" where
  "int_value v = (case v of JNum (JInt n) \<Rightarrow> n | _ \<Rightarrow> 0)"

definition is_text :: "(jsstr \<Rightarrow> bool) \<Rightarrow> jsval \<Rightarrow> bool" where
  "is_text P v \<longleftrightarrow> (case v of JStr s \<Rightarrow> P s | _ \<Rightarrow> False)"

definition is_positive_safe :: "jsval \<Rightarrow> bool" where
  "is_positive_safe v \<longleftrightarrow> (case v of JNum (JInt n) \<Rightarrow> 0 < n \<and> n \<le> max_safe | _ \<Rightarrow> False)"

definition parse_replay_anchor_document :: "jsval \<Rightarrow> anchor_document result" where
  "parse_replay_anchor_document v =
     (case v of
        JObj p ps \<Rightarrow>
          (if join [0] (sort (object_keys ps)) \<noteq> join [0] anchor_keys
              \<or> get v (js ''version'') \<noteq> jint 1
              \<or> \<not> is_text is_replay_store_id (get v (js ''storeId''))
              \<or> \<not> is_text is_absolute (get v (js ''databasePath''))
              \<or> \<not> decimal_identity (get v (js ''databaseDevice'')) \<or> \<not> decimal_identity (get v (js ''databaseInode''))
              \<or> \<not> is_positive_safe (get v (js ''initializedAt''))
              \<or> \<not> is_text (hex_n 64) (get v (js ''nonce''))
           then throw ''owner authorization anchor document is invalid''
           else Inr \<lparr>ad_version = int_value (get v (js ''version'')), ad_store_id = text_value (get v (js ''storeId'')),
                     ad_database_path = text_value (get v (js ''databasePath'')),
                     ad_database_device = text_value (get v (js ''databaseDevice'')),
                     ad_database_inode = text_value (get v (js ''databaseInode'')),
                     ad_initialized_at = int_value (get v (js ''initializedAt'')), ad_nonce = text_value (get v (js ''nonce''))\<rparr>)
      | _ \<Rightarrow> throw ''owner authorization anchor document is invalid'')"

text \<open>\<open>JSON.parse(bytes.toString("utf8"))\<close>, read from a file that must not change meanwhile.\<close>

definition read_durable_replay_anchor :: "hash \<Rightarrow> disk \<Rightarrow> jsstr \<Rightarrow> anchor result" where
  "read_durable_replay_anchor h d path =
     bindR (os (dk_lstat d path)) (\<lambda>before.
     bindR (os (dk_open d path)) (\<lambda>opened.
     thenR (assert_secure_replay_anchor_file d opened)
     (bindR (os (dk_read d path)) (\<lambda>bytes.
      bindR (os (dk_lstat_after d path)) (\<lambda>after.
      thenR (throw_if (bg_dev before \<noteq> bg_dev opened \<or> bg_ino before \<noteq> bg_ino opened \<or> bg_dev after \<noteq> bg_dev opened
          \<or> bg_ino after \<noteq> bg_ino opened \<or> bg_nlink after \<noteq> bg_nlink opened \<or> length bytes \<noteq> bg_size opened)
        ''owner authorization anchor file changed while being read'')
     (thenR (throw_if (length bytes < 1 \<or> max_replay_anchor_bytes < length bytes) ''owner authorization anchor document is invalid'')
     (case json_parse (utf8_decode bytes) of
        None \<Rightarrow> throw ''owner authorization anchor document is invalid''
      | Some v \<Rightarrow>
          bindR (parse_replay_anchor_document v) (\<lambda>document.
          Inr \<lparr>an_path = path, an_device = nat_text (bg_dev opened), an_inode = nat_text (bg_ino opened),
               an_digest = sha256_hex h bytes, an_document = document\<rparr>))))))))"

text \<open>\<open>JSON.stringify\<close> of the document literal, its members in the order the ceremony writes them.\<close>

definition anchor_json :: "anchor_document \<Rightarrow> json" where
  "anchor_json a = Obj
     [(js ''version'', Num (ad_version a)), (js ''storeId'', Str (ad_store_id a)), (js ''databasePath'', Str (ad_database_path a)),
      (js ''databaseDevice'', Str (ad_database_device a)), (js ''databaseInode'', Str (ad_database_inode a)),
      (js ''initializedAt'', Num (ad_initialized_at a)), (js ''nonce'', Str (ad_nonce a))]"

definition anchor_bytes :: "anchor_document \<Rightarrow> byte list" where
  "anchor_bytes a = utf8 (print_json (anchor_json a) @ [10])"

text \<open>The exclusive creation fails on an existing path; once made, the file stays whatever happens next.\<close>

definition put_file :: "jsstr \<Rightarrow> byte list \<Rightarrow> big_stat \<Rightarrow> disk \<Rightarrow> disk" where
  "put_file path bytes stats d =
     d\<lparr>dk_lstat := (dk_lstat d)(path := Some stats), dk_open := (dk_open d)(path := Some stats),
       dk_stat := (dk_stat d)(path := Some stats), dk_read := (dk_read d)(path := Some bytes),
       dk_lstat_after := (dk_lstat_after d)(path := Some stats)\<rparr>"

definition create_durable_replay_anchor :: "hash \<Rightarrow> jsstr \<Rightarrow> anchor_document \<Rightarrow> disk \<Rightarrow> anchor result \<times> disk" where
  "create_durable_replay_anchor h path document d =
     (let bytes = anchor_bytes document in
      if length bytes < 1 \<or> max_replay_anchor_bytes < length bytes
      then (throw ''owner authorization anchor document is invalid'', d)
      else case (dk_lstat d path, dk_create d path bytes) of
          (None, Some (left, stats, written)) \<Rightarrow>
            (let d' = put_file path left stats d in
             if \<not> written then (throw ''owner authorization anchor already exists or could not be created'', d')
             else if \<not> dk_sync d' (dir_name path) then (throw ''file system error'', d')
             else (read_durable_replay_anchor h d' path, d'))
        | _ \<Rightarrow> (throw ''owner authorization anchor already exists or could not be created'', d))"

section \<open>The rows\<close>

text \<open>SQLite's \<open>length\<close> counts characters (a surrogate pair is one); \<open>NOT GLOB '*[^...]*'\<close> allows only the listed ones.\<close>

fun sql_length :: "jsstr \<Rightarrow> nat" where
  "sql_length [] = 0"
| "sql_length [c] = 1"
| "sql_length (c # d # s) = Suc (if is_high c \<and> is_low d then sql_length s else sql_length (d # s))"

definition sql_digest :: "jsstr \<Rightarrow> bool" where
  "sql_digest s \<longleftrightarrow> sql_length s = 64 \<and> list_all is_hex s"

definition sql_commit :: "jsstr \<Rightarrow> bool" where
  "sql_commit s \<longleftrightarrow> (sql_length s = 40 \<or> sql_length s = 64) \<and> list_all is_hex s"

definition sql_between :: "nat \<Rightarrow> nat \<Rightarrow> jsstr \<Rightarrow> bool" where
  "sql_between a b s \<longleftrightarrow> a \<le> sql_length s \<and> sql_length s \<le> b"

definition consumption_checks :: "receipt \<Rightarrow> bool" where
  "consumption_checks r \<longleftrightarrow>
     sql_between 1 128 (cn_authorization_id r) \<and> sql_between 1 128 (cn_envelope_id r) \<and> sql_digest (cn_envelope_digest r)
     \<and> sql_digest (cn_nonce_digest r) \<and> sql_between 1 128 (cn_signer_id r) \<and> sql_between 1 128 (cn_key_id r)
     \<and> sql_between 3 140 (cn_repository_slug r) \<and> 0 < cn_repository_id r \<and> sql_commit (cn_base_sha r)
     \<and> sql_length (cn_preflight_id r) = 67 \<and> starts_with (js ''pf_'') (cn_preflight_id r) \<and> list_all is_hex (drop 3 (cn_preflight_id r))
     \<and> sql_digest (cn_artifact_digest r) \<and> sql_digest (cn_manifest_digest r) \<and> sql_between 1 240 (cn_candidate_branch r)
     \<and> sql_commit (cn_candidate_tree_sha r) \<and> 0 < cn_consumed_at r \<and> cn_consumed_at r < cn_expires_at r"

text \<open>The four columns that identify a consumption.\<close>

definition replay_conflict :: "receipt \<Rightarrow> receipt \<Rightarrow> bool" where
  "replay_conflict r q \<longleftrightarrow> cn_authorization_id r = cn_authorization_id q \<or> cn_envelope_id r = cn_envelope_id q
     \<or> cn_envelope_digest r = cn_envelope_digest q \<or> cn_nonce_digest r = cn_nonce_digest q"

definition insert_consumption :: "receipt \<Rightarrow> sqlite \<Rightarrow> sqlite result" where
  "insert_consumption r db =
     (if \<not> consumption_checks r then throw ''CHECK constraint failed: owner_authorization_consumptions''
      else if list_ex (replay_conflict r) (sq_consumptions db) then throw ''UNIQUE constraint failed: owner_authorization_consumptions''
      else Inr (db\<lparr>sq_consumptions := sq_consumptions db @ [r]\<rparr>))"

definition read_owner_authorization_consumption :: "sqlite \<Rightarrow> jsstr \<Rightarrow> receipt option" where
  "read_owner_authorization_consumption db authorization_id =
     find (\<lambda>r. cn_authorization_id r = authorization_id) (sq_consumptions db)"

definition assert_exact_consumption :: "receipt option \<Rightarrow> receipt \<Rightarrow> unit result" where
  "assert_exact_consumption stored expected =
     (case stored of
        None \<Rightarrow> throw ''owner authorization consumption readback is missing''
      | Some r \<Rightarrow> throw_if (r \<noteq> expected) ''owner authorization consumption readback does not match'')"

definition sql_decimal :: "jsstr \<Rightarrow> bool" where
  "sql_decimal s \<longleftrightarrow> sql_between 1 32 s \<and> list_all is_digit s"

definition identity_checks :: "store_identity \<Rightarrow> bool" where
  "identity_checks i \<longleftrightarrow> si_singleton i = 1 \<and> sql_between 16 128 (si_store_id i) \<and> sql_between 1 4096 (si_database_path i)
     \<and> sql_decimal (si_device i) \<and> sql_decimal (si_inode i) \<and> 0 < si_link_count i \<and> sql_between 1 4096 (si_anchor_path i)
     \<and> sql_decimal (si_anchor_device i) \<and> sql_decimal (si_anchor_inode i) \<and> sql_digest (si_anchor_digest i) \<and> 0 < si_initialized_at i"

definition insert_identity :: "store_identity \<Rightarrow> sqlite \<Rightarrow> sqlite result" where
  "insert_identity i db =
     (if \<not> identity_checks i then throw ''CHECK constraint failed: owner_authorization_store_identity''
      else if sq_identity db \<noteq> None then throw ''UNIQUE constraint failed: owner_authorization_store_identity''
      else Inr (db\<lparr>sq_identity := Some i\<rparr>))"

text \<open>\<open>row?.now\<close> of the clock query.\<close>

definition sqlite_epoch_milliseconds :: "jsval \<Rightarrow> int result" where
  "sqlite_epoch_milliseconds now =
     (if is_positive_safe now then Inr (int_value now) else throw ''SQLite returned an invalid authorization timestamp'')"

section \<open>The identity of the store\<close>

definition assert_exact_store_identity :: "store_identity \<Rightarrow> jsstr \<Rightarrow> file_identity \<Rightarrow> anchor \<Rightarrow> int \<Rightarrow> unit result" where
  "assert_exact_store_identity stored store_id file anchor initialized_at =
     throw_if (si_singleton stored \<noteq> 1 \<or> si_store_id stored \<noteq> store_id
         \<or> si_database_path stored \<noteq> fi_database_path file \<or> si_device stored \<noteq> fi_device file \<or> si_inode stored \<noteq> fi_inode file
         \<or> si_link_count stored \<noteq> fi_link_count file \<or> si_anchor_path stored \<noteq> an_path anchor
         \<or> si_anchor_device stored \<noteq> an_device anchor \<or> si_anchor_inode stored \<noteq> an_inode anchor
         \<or> si_anchor_digest stored \<noteq> an_digest anchor
         \<or> ad_version (an_document anchor) \<noteq> 1 \<or> ad_store_id (an_document anchor) \<noteq> store_id
         \<or> ad_database_path (an_document anchor) \<noteq> fi_database_path file
         \<or> ad_database_device (an_document anchor) \<noteq> fi_device file \<or> ad_database_inode (an_document anchor) \<noteq> fi_inode file
         \<or> ad_initialized_at (an_document anchor) \<noteq> initialized_at \<or> si_initialized_at stored \<noteq> initialized_at)
       ''owner authorization store identity does not match the initialized file''"

definition assert_initialized_owner_authorization_store ::
  "hash \<Rightarrow> db_env \<Rightarrow> client \<Rightarrow> disk \<Rightarrow> sqlite \<Rightarrow> store_identity result" where
  "assert_initialized_owner_authorization_store h env c d db =
     bindR (assert_stable_open_file_identity c d) (\<lambda>file.
     bindR (configured_replay_store_id env) (\<lambda>store_id.
     case sq_identity db of
       None \<Rightarrow> throw ''owner authorization store is not initialized''
     | Some stored \<Rightarrow>
         bindR (configured_replay_anchor_path env d file) (\<lambda>path.
         bindR (read_durable_replay_anchor h d path) (\<lambda>anchor.
         thenR (assert_exact_store_identity stored store_id file anchor (si_initialized_at stored)) (Inr stored)))))"

definition sync_durable_database_file :: "client \<Rightarrow> disk \<Rightarrow> sqlite \<Rightarrow> file_identity result" where
  "sync_durable_database_file c d db =
     thenR (throw_if (sq_journal_mode db \<noteq> js ''delete'' \<or> sq_synchronous db \<noteq> 2 \<or> sq_fullfsync db \<noteq> 1)
       ''owner authorization database durability settings changed'')
    (bindR (assert_stable_open_file_identity c d) (\<lambda>file.
     bindR (os (dk_open d (fi_database_path file))) (\<lambda>opened.
     thenR (throw_if (\<not> bg_file opened \<or> nat_text (bg_dev opened) \<noteq> fi_device file \<or> nat_text (bg_ino opened) \<noteq> fi_inode file
         \<or> int (bg_nlink opened) \<noteq> fi_link_count file)
       ''owner authorization database changed before durable sync'')
    (thenR (throw_if (\<not> dk_sync d (fi_database_path file)) ''file system error'')
    (thenR (throw_if (\<not> dk_sync d (dir_name (fi_database_path file))) ''file system error'')
       (assert_stable_open_file_identity c d))))))"

section \<open>The ceremony\<close>

text \<open>
  The transaction of \<open>initializeOwnerAuthorizationStore\<close>: its outcome with the new database, and
  the disk, which keeps an anchor that was created even when the transaction then fails.
\<close>

definition make_identity :: "jsstr \<Rightarrow> file_identity \<Rightarrow> anchor \<Rightarrow> int \<Rightarrow> store_identity" where
  "make_identity store_id file anchor initialized_at =
     \<lparr>si_singleton = 1, si_store_id = store_id, si_database_path = fi_database_path file, si_device = fi_device file,
      si_inode = fi_inode file, si_link_count = fi_link_count file, si_anchor_path = an_path anchor,
      si_anchor_device = an_device anchor, si_anchor_inode = an_inode anchor, si_anchor_digest = an_digest anchor,
      si_initialized_at = initialized_at\<rparr>"

definition make_document :: "jsstr \<Rightarrow> file_identity \<Rightarrow> int \<Rightarrow> jsstr \<Rightarrow> anchor_document" where
  "make_document store_id file initialized_at nonce =
     \<lparr>ad_version = 1, ad_store_id = store_id, ad_database_path = fi_database_path file, ad_database_device = fi_device file,
      ad_database_inode = fi_inode file, ad_initialized_at = initialized_at, ad_nonce = nonce\<rparr>"

definition activate :: "hash \<Rightarrow> jsstr \<Rightarrow> file_identity \<Rightarrow> jsstr \<Rightarrow> int \<Rightarrow> jsstr \<Rightarrow> sqlite \<Rightarrow> disk \<Rightarrow> (store_identity \<times> sqlite) result \<times> disk" where
  "activate h store_id file path initialized_at nonce db d =
     (case create_durable_replay_anchor h path (make_document store_id file initialized_at nonce) d of
        (Inl e, d') \<Rightarrow> (Inl e, d')
      | (Inr anchor, d') \<Rightarrow>
          (bindR (insert_identity (make_identity store_id file anchor initialized_at) db) (\<lambda>db'.
           case sq_identity db' of
             None \<Rightarrow> throw ''owner authorization store identity was not persisted''
           | Some inserted \<Rightarrow>
               thenR (assert_exact_store_identity inserted store_id file anchor initialized_at) (Inr (inserted, db'))), d'))"

definition ceremony :: "hash \<Rightarrow> db_env \<Rightarrow> client \<Rightarrow> jsval \<Rightarrow> jsstr \<Rightarrow> jsstr \<Rightarrow> sqlite \<Rightarrow> disk \<Rightarrow> (store_identity \<times> sqlite) result \<times> disk" where
  "ceremony h env c now nonce store_id db d =
     (case thenR (verify_owner_authorization_schema db)
             (bindR (assert_stable_open_file_identity c d) (\<lambda>file.
              bindR (configured_replay_anchor_path env d file) (\<lambda>path. Inr (file, path)))) of
        Inl e \<Rightarrow> (Inl e, d)
      | Inr (file, path) \<Rightarrow>
          (case sq_identity db of
             Some existing \<Rightarrow>
               (bindR (read_durable_replay_anchor h d path) (\<lambda>anchor.
                thenR (assert_exact_store_identity existing store_id file anchor (si_initialized_at existing)) (Inr (existing, db))), d)
           | None \<Rightarrow>
               (case sqlite_epoch_milliseconds now of
                  Inl e \<Rightarrow> (Inl e, d)
                | Inr initialized_at \<Rightarrow> activate h store_id file path initialized_at nonce db d)))"

text \<open>\<open>later\<close> is what the disk shows after the commit.\<close>

definition initialize_owner_authorization_store ::
  "hash \<Rightarrow> db_env \<Rightarrow> client \<Rightarrow> jsval \<Rightarrow> jsstr \<Rightarrow> (disk \<Rightarrow> disk) \<Rightarrow> sqlite \<Rightarrow> disk \<Rightarrow> store_identity result \<times> sqlite \<times> disk" where
  "initialize_owner_authorization_store h env c now nonce later db d =
     (case configured_replay_store_id env of
        Inl e \<Rightarrow> (Inl e, db, d)
      | Inr store_id \<Rightarrow>
          (case ceremony h env c now nonce store_id db d of
             (Inl e, d') \<Rightarrow> (Inl e, db, d')
           | (Inr (stored, db'), d') \<Rightarrow>
               (let d'' = later d' in
                (bindR (sync_durable_database_file c d'' db') (\<lambda>file.
                 bindR (configured_replay_anchor_path env d'' file) (\<lambda>path.
                 bindR (read_durable_replay_anchor h d'' path) (\<lambda>anchor.
                 thenR (assert_exact_store_identity stored store_id file anchor (si_initialized_at stored)) (Inr stored)))), db', d''))))"

section \<open>Consuming an authorization\<close>

record ledger_result =
  lr_stored :: receipt
  lr_expired_after_insert :: bool

text \<open>
  The three readings of the SQLite clock, and the disk during the transaction and after the commit.
\<close>

record moment =
  mo_before :: jsval
  mo_after :: jsval
  mo_end :: jsval
  mo_disk :: disk
  mo_later :: disk

definition consumption_receipt :: "consumption \<Rightarrow> int \<Rightarrow> receipt" where
  "consumption_receipt c at = consumption.extend c (receipt.fields at)"

definition reserve :: "hash \<Rightarrow> db_env \<Rightarrow> client \<Rightarrow> moment \<Rightarrow> consumption \<Rightarrow> sqlite \<Rightarrow> (ledger_result \<times> sqlite) result" where
  "reserve h env c m input db =
     thenR (verify_owner_authorization_schema db)
    (bindR (assert_initialized_owner_authorization_store h env c (mo_disk m) db) (\<lambda>_.
     bindR (sqlite_epoch_milliseconds (mo_before m)) (\<lambda>consumed_at.
     thenR (throw_if (cn_expires_at input \<le> consumed_at) ''owner authorization is expired'')
    (let expected = consumption_receipt input consumed_at in
     bindR (insert_consumption expected db) (\<lambda>db'.
     thenR (assert_exact_consumption (read_owner_authorization_consumption db' (cn_authorization_id input)) expected)
    (bindR (sqlite_epoch_milliseconds (mo_after m)) (\<lambda>now.
     Inr (\<lparr>lr_stored = expected, lr_expired_after_insert = (cn_expires_at input \<le> now)\<rparr>, db'))))))))"

definition persist_owner_authorization_consumption ::
  "hash \<Rightarrow> db_env \<Rightarrow> client \<Rightarrow> moment \<Rightarrow> consumption \<Rightarrow> sqlite \<Rightarrow> ledger_result result \<times> sqlite" where
  "persist_owner_authorization_consumption h env c m input db =
     (case transact (reserve h env c m input) db of
        (Inl e, db') \<Rightarrow> (Inl e, db')
      | (Inr res, db') \<Rightarrow>
          (bindR (sync_durable_database_file c (mo_later m) db') (\<lambda>_.
           thenR (verify_owner_authorization_schema db')
          (bindR (assert_initialized_owner_authorization_store h env c (mo_later m) db') (\<lambda>_.
           thenR (assert_exact_consumption (read_owner_authorization_consumption db' (cn_authorization_id input)) (lr_stored res))
          (bindR (if lr_expired_after_insert res then Inr True
                  else bindR (sqlite_epoch_milliseconds (mo_end m)) (\<lambda>now. Inr (cn_expires_at input \<le> now))) (\<lambda>expired.
           Inr \<lparr>lr_stored = lr_stored res, lr_expired_after_insert = expired\<rparr>))))), db'))"

end
