(* ===== verification/AuditRepo.thy ===== *)
theory AuditRepo
  imports ReplayStore
begin

text \<open>
  packages/db/src/repo.ts: the validation of an owner authorization before it is persisted
  (\<open>consumeOwnerAuthorization\<close> with its \<open>audit...\<close> validators) and the campaign tables
  (\<open>createProvider\<close>, \<open>createCampaign\<close>, \<open>upsertRepo\<close>, \<open>createRun\<close>, \<open>updateRun\<close>,
  \<open>campaignRollup\<close>). Identifiers from \<open>randomUUID\<close> and the clock are arguments.
\<close>

section \<open>Audit validators\<close>

definition max_audit_timestamp :: int where
  "max_audit_timestamp = 8640000000000000"

definition audit_reject :: "string \<Rightarrow> 'a result" where
  "audit_reject label = throw (''invalid owner authorization '' @ label)"

definition audit_text :: "(jsstr \<Rightarrow> bool) \<Rightarrow> jsval \<Rightarrow> string \<Rightarrow> jsstr result" where
  "audit_text P v label = (case v of JStr s \<Rightarrow> if P s then Inr s else audit_reject label | _ \<Rightarrow> audit_reject label)"

definition audit_identifier :: "jsval \<Rightarrow> string \<Rightarrow> jsstr result" where
  "audit_identifier = audit_text (\<lambda>s. 1 \<le> length s \<and> length s \<le> 128 \<and> s = trim s
     \<and> (case s of [] \<Rightarrow> False | c # cs \<Rightarrow> is_alnum c \<and> list_all (\<lambda>d. is_alnum d \<or> in_class ''._:@+-'' d) cs))"

definition audit_sha256 :: "jsval \<Rightarrow> string \<Rightarrow> jsstr result" where
  "audit_sha256 v label =
     (case v of
        JStr s \<Rightarrow> (let canonical = (if starts_with (js ''sha256:'') s then drop 7 s else s) in
          if hex_n 64 canonical then Inr canonical else audit_reject label)
      | _ \<Rightarrow> audit_reject label)"

definition audit_git_sha :: "jsval \<Rightarrow> string \<Rightarrow> jsstr result" where
  "audit_git_sha = audit_text is_git_sha"

definition audit_preflight_id :: "jsval \<Rightarrow> jsstr result" where
  "audit_preflight_id v = audit_text is_preflight_id v ''preflightId''"

definition audit_github_id :: "jsval \<Rightarrow> int result" where
  "audit_github_id v = (if is_positive_safe v then Inr (int_value v) else audit_reject ''repositoryId'')"

definition audit_timestamp :: "jsval \<Rightarrow> string \<Rightarrow> int result" where
  "audit_timestamp v label = (if is_positive_safe v \<and> int_value v \<le> max_audit_timestamp then Inr (int_value v) else audit_reject label)"

definition audit_repository_slug :: "jsval \<Rightarrow> jsstr result" where
  "audit_repository_slug v =
     (case v of
        JStr s \<Rightarrow>
          (if s \<noteq> trim s then audit_reject ''repositorySlug''
           else (case split_on 47 s of
              [owner, repo] \<Rightarrow>
                (if \<not> owner_re owner \<or> has_sub (js ''--'') owner \<or> \<not> repository_re repo \<or> repo = js ''.'' \<or> repo = js ''..''
                    \<or> ends_with (js ''.git'') (to_lower repo)
                 then audit_reject ''repositorySlug''
                 else Inr (to_lower (owner @ js ''/'' @ repo)))
            | _ \<Rightarrow> audit_reject ''repositorySlug''))
      | _ \<Rightarrow> audit_reject ''repositorySlug'')"

definition audit_git_branch :: "jsval \<Rightarrow> jsstr result" where
  "audit_git_branch v =
     (case v of
        JStr s \<Rightarrow>
          (if length s = 0 \<or> 240 < length s \<or> s \<noteq> trim s \<or> s = js ''@''
              \<or> starts_with (js ''-'') s \<or> starts_with (js ''/'') s \<or> ends_with (js ''/'') s
              \<or> ends_with (js ''.'') s \<or> ends_with (js ''.lock'') s
              \<or> has_sub (js ''..'') s \<or> has_sub (js [CHR 0x40, CHR 0x7B]) s \<or> list_ex branch_forbidden s
              \<or> list_ex (\<lambda>part. length part = 0 \<or> starts_with (js ''.'') part \<or> ends_with (js ''.'') part) (split_on 47 s)
           then audit_reject ''candidateBranch'' else Inr s)
      | _ \<Rightarrow> audit_reject ''candidateBranch'')"

section \<open>consumeOwnerAuthorization\<close>

definition audit_consumption :: "jsval \<Rightarrow> consumption result" where
  "audit_consumption input =
     bindR (audit_timestamp (get input (js ''expiresAt'')) ''expiresAt'') (\<lambda>expires.
     bindR (audit_identifier (get input (js ''authorizationId'')) ''authorizationId'') (\<lambda>authorization_id.
     bindR (audit_identifier (get input (js ''envelopeId'')) ''envelopeId'') (\<lambda>envelope_id.
     bindR (audit_sha256 (get input (js ''envelopeDigest'')) ''envelopeDigest'') (\<lambda>envelope_digest.
     bindR (audit_sha256 (get input (js ''nonceDigest'')) ''nonceDigest'') (\<lambda>nonce_digest.
     bindR (audit_identifier (get input (js ''signerId'')) ''signerId'') (\<lambda>signer_id.
     bindR (audit_identifier (get input (js ''keyId'')) ''keyId'') (\<lambda>key_id.
     bindR (audit_repository_slug (get input (js ''repositorySlug''))) (\<lambda>slug.
     bindR (audit_github_id (get input (js ''repositoryId''))) (\<lambda>repository_id.
     bindR (audit_git_sha (get input (js ''baseSha'')) ''baseSha'') (\<lambda>base_sha.
     bindR (audit_preflight_id (get input (js ''preflightId''))) (\<lambda>preflight.
     bindR (audit_sha256 (get input (js ''artifactDigest'')) ''artifactDigest'') (\<lambda>artifact.
     bindR (audit_sha256 (get input (js ''manifestDigest'')) ''manifestDigest'') (\<lambda>manifest.
     bindR (audit_git_branch (get input (js ''candidateBranch''))) (\<lambda>branch.
     bindR (audit_git_sha (get input (js ''candidateTreeSha'')) ''candidateTreeSha'') (\<lambda>tree.
     Inr \<lparr>cn_authorization_id = authorization_id, cn_envelope_id = envelope_id, cn_envelope_digest = envelope_digest,
          cn_nonce_digest = nonce_digest, cn_signer_id = signer_id, cn_key_id = key_id, cn_repository_slug = slug,
          cn_repository_id = repository_id, cn_base_sha = base_sha, cn_preflight_id = preflight,
          cn_artifact_digest = artifact, cn_manifest_digest = manifest, cn_candidate_branch = branch,
          cn_candidate_tree_sha = tree, cn_expires_at = expires\<rparr>)))))))))))))))"

definition consumption_rejected :: jsstr where
  "consumption_rejected = js ''owner authorization already consumed or unavailable''"

text \<open>Every failure behind the validation gives the same message.\<close>

definition consume_owner_authorization ::
  "hash \<Rightarrow> db_env \<Rightarrow> client \<Rightarrow> moment \<Rightarrow> jsval \<Rightarrow> sqlite \<Rightarrow> receipt result \<times> sqlite" where
  "consume_owner_authorization h env c m input db =
     (case audit_consumption input of
        Inl e \<Rightarrow> (Inl e, db)
      | Inr value \<Rightarrow>
          (case persist_owner_authorization_consumption h env c m value db of
             (Inl e, db') \<Rightarrow> (Inl consumption_rejected, db')
           | (Inr res, db') \<Rightarrow>
               (if lr_expired_after_insert res then Inl consumption_rejected else Inr (lr_stored res), db')))"

definition get_owner_authorization_consumption :: "sqlite \<Rightarrow> jsval \<Rightarrow> receipt option result" where
  "get_owner_authorization_consumption db authorization_id =
     bindR (audit_identifier authorization_id ''authorizationId'') (\<lambda>i.
     thenR (table_exists db ''owner_authorization_consumptions'') (Inr (read_owner_authorization_consumption db i)))"

section \<open>Providers, campaigns and repositories\<close>

text \<open>SQL's \<open>length(trim(x)) > 0\<close>, where \<open>trim\<close> removes spaces.\<close>

definition not_blank :: "jsstr \<Rightarrow> bool" where
  "not_blank s \<longleftrightarrow> list_ex (\<lambda>c. c \<noteq> 32) s"

definition constraint :: "bool \<Rightarrow> unit result" where
  "constraint ok = throw_if (\<not> ok) ''constraint failed''"

text \<open>
  A constraint is enforced when the table declares it: \<open>CHECK\<close>, \<open>PRIMARY KEY\<close> or \<open>UNIQUE\<close>, and \<open>REFERENCES\<close> on a
  connection that enforces references.
\<close>

definition checked :: "sqlite \<Rightarrow> string \<Rightarrow> string \<Rightarrow> string \<Rightarrow> bool \<Rightarrow> unit result" where
  "checked db table column clause ok = constraint (declares db table column clause \<longrightarrow> ok)"

definition unique_key :: "sqlite \<Rightarrow> string \<Rightarrow> string \<Rightarrow> bool \<Rightarrow> unit result" where
  "unique_key db table column fresh = constraint (unique_column db table column \<longrightarrow> fresh)"

definition reference :: "client \<Rightarrow> sqlite \<Rightarrow> string \<Rightarrow> string \<Rightarrow> string \<Rightarrow> bool \<Rightarrow> unit result" where
  "reference c db table column clause present = constraint (cl_foreign_keys c \<and> declares db table column clause \<longrightarrow> present)"

text \<open>\<open>ON CONFLICT(slug)\<close> is an error on a column that is not unique.\<close>

definition conflict_target :: "sqlite \<Rightarrow> string \<Rightarrow> string \<Rightarrow> unit result" where
  "conflict_target db table column = throw_if (\<not> unique_column db table column)
     ''ON CONFLICT clause does not match any PRIMARY KEY or UNIQUE constraint''"

text \<open>\<open>INSERT ... ON CONFLICT(slug) DO UPDATE SET name\<close>, then the row with this slug.\<close>

definition create_provider :: "jsstr \<Rightarrow> int \<Rightarrow> jsstr \<Rightarrow> jsstr \<Rightarrow> sqlite \<Rightarrow> (provider_row option \<times> sqlite) result" where
  "create_provider uuid now name slug db =
     thenR (table_exists db ''providers'')
    (thenR (conflict_target db ''providers'' ''slug'')
    (thenR (checked db ''providers'' ''name'' ''CHECK(length(trim(name)) > 0)'' (not_blank name))
    (thenR (checked db ''providers'' ''slug'' ''CHECK(length(trim(slug)) > 0)'' (not_blank slug))
    (bindR (if list_ex (\<lambda>p. pr_slug p = slug) (sq_providers db)
            then Inr (map (\<lambda>p. if pr_slug p = slug then p\<lparr>pr_name := name\<rparr> else p) (sq_providers db))
            else thenR (unique_key db ''providers'' ''id'' (\<not> list_ex (\<lambda>p. pr_id p = uuid) (sq_providers db)))
              (Inr (sq_providers db @ [\<lparr>pr_id = uuid, pr_name = name, pr_slug = slug, pr_created_at = now\<rparr>]))) (\<lambda>ps.
     Inr (find (\<lambda>p. pr_slug p = slug) ps, db\<lparr>sq_providers := ps\<rparr>))))))"

definition get_provider_by_slug :: "sqlite \<Rightarrow> jsstr \<Rightarrow> provider_row option result" where
  "get_provider_by_slug db slug = thenR (table_exists db ''providers'') (Inr (find (\<lambda>p. pr_slug p = slug) (sq_providers db)))"

text \<open>The manifest is given as its JSON text.\<close>

definition create_campaign ::
  "client \<Rightarrow> jsstr \<Rightarrow> int \<Rightarrow> jsstr \<Rightarrow> jsstr \<Rightarrow> jsstr \<Rightarrow> campaign_status option \<Rightarrow> sqlite \<Rightarrow> (campaign_row option \<times> sqlite) result" where
  "create_campaign c uuid now provider_id name manifest status db =
     thenR (table_exists db ''campaigns'')
    (thenR (checked db ''campaigns'' ''name'' ''CHECK(length(trim(name)) > 0)'' (not_blank name))
    (thenR (unique_key db ''campaigns'' ''id'' (\<not> list_ex (\<lambda>q. cp_id q = uuid) (sq_campaigns db)))
    (thenR (reference c db ''campaigns'' ''provider_id'' ''REFERENCES providers(id)'' (list_ex (\<lambda>p. pr_id p = provider_id) (sq_providers db)))
    (let cs = sq_campaigns db @ [\<lparr>cp_id = uuid, cp_provider_id = provider_id, cp_name = name, cp_manifest = manifest,
         cp_status = (case status of None \<Rightarrow> Draft | Some s \<Rightarrow> s), cp_created_at = now\<rparr>] in
     Inr (find (\<lambda>q. cp_id q = uuid) cs, db\<lparr>sq_campaigns := cs\<rparr>)))))"

definition get_campaign :: "sqlite \<Rightarrow> jsstr \<Rightarrow> campaign_row option result" where
  "get_campaign db i = thenR (table_exists db ''campaigns'') (Inr (find (\<lambda>c. cp_id c = i) (sq_campaigns db)))"

definition list_campaigns :: "sqlite \<Rightarrow> campaign_row list result" where
  "list_campaigns db = thenR (table_exists db ''campaigns'') (Inr (sort_key (\<lambda>c. - cp_created_at c) (sq_campaigns db)))"

definition upsert_repo ::
  "jsstr \<Rightarrow> int \<Rightarrow> jsstr \<Rightarrow> jsstr option \<Rightarrow> int option \<Rightarrow> sqlite \<Rightarrow> (repo_row option \<times> sqlite) result" where
  "upsert_repo uuid now slug default_branch installation_id db =
     thenR (table_exists db ''repos'')
    (thenR (conflict_target db ''repos'' ''slug'')
    (thenR (checked db ''repos'' ''slug'' ''CHECK(length(trim(slug)) > 0)'' (not_blank slug))
    (thenR (checked db ''repos'' ''installation_id'' ''CHECK(installation_id IS NULL OR installation_id > 0)''
       (case installation_id of None \<Rightarrow> True | Some i \<Rightarrow> 0 < i))
    (bindR (if list_ex (\<lambda>r. rp_slug r = slug) (sq_repos db)
            then Inr (map (\<lambda>r. if rp_slug r = slug
               then r\<lparr>rp_default_branch := (if default_branch = None then rp_default_branch r else default_branch),
                      rp_installation_id := (if installation_id = None then rp_installation_id r else installation_id)\<rparr> else r) (sq_repos db))
            else thenR (unique_key db ''repos'' ''id'' (\<not> list_ex (\<lambda>r. rp_id r = uuid) (sq_repos db)))
              (Inr (sq_repos db @ [\<lparr>rp_id = uuid, rp_slug = slug, rp_default_branch = default_branch,
                 rp_installation_id = installation_id, rp_created_at = now\<rparr>]))) (\<lambda>rs.
     Inr (find (\<lambda>r. rp_slug r = slug) rs, db\<lparr>sq_repos := rs\<rparr>))))))"

definition get_repo_by_slug :: "sqlite \<Rightarrow> jsstr \<Rightarrow> repo_row option result" where
  "get_repo_by_slug db slug = thenR (table_exists db ''repos'') (Inr (find (\<lambda>r. rp_slug r = slug) (sq_repos db)))"

section \<open>Runs\<close>

definition create_run :: "client \<Rightarrow> jsstr \<Rightarrow> int \<Rightarrow> jsstr \<Rightarrow> jsstr \<Rightarrow> jsstr \<Rightarrow> sqlite \<Rightarrow> (run_row option \<times> sqlite) result" where
  "create_run c uuid now campaign_id repo_id branch db =
     thenR (table_exists db ''migration_runs'')
    (thenR (unique_key db ''migration_runs'' ''id'' (\<not> list_ex (\<lambda>r. rn_id r = uuid) (sq_runs db)))
    (thenR (reference c db ''migration_runs'' ''campaign_id'' ''REFERENCES campaigns(id)'' (list_ex (\<lambda>q. cp_id q = campaign_id) (sq_campaigns db)))
    (thenR (reference c db ''migration_runs'' ''repo_id'' ''REFERENCES repos(id)'' (list_ex (\<lambda>r. rp_id r = repo_id) (sq_repos db)))
    (let rs = sq_runs db @ [\<lparr>rn_id = uuid, rn_campaign_id = campaign_id, rn_repo_id = repo_id, rn_status = Queued,
         rn_branch = Some branch, rn_pr_url = None, rn_summary = None, rn_report = None, rn_error = None, rn_publication_mode = None,
         rn_preflight_id = None, rn_artifact_digest = None, rn_base_sha = None, rn_base_branch = None, rn_head_sha = None,
         rn_publication_blockers = None, rn_approved_by = None, rn_override_unsafe = False, rn_override_reason = None,
         rn_started_at = now, rn_finished_at = None\<rparr>] in
     Inr (find (\<lambda>r. rn_id r = uuid) rs, db\<lparr>sq_runs := rs\<rparr>)))))"

text \<open>A member of a patch: absent, \<open>null\<close> or a value.\<close>

datatype 'a patch = Keep | Clear | Put 'a

definition patched :: "'a patch \<Rightarrow> 'a option \<Rightarrow> 'a option" where
  "patched p old = (case p of Keep \<Rightarrow> old | Clear \<Rightarrow> None | Put v \<Rightarrow> Some v)"

record run_patch =
  rt_status :: run_status
  rt_pr_url :: "jsstr patch"
  rt_summary :: "jsstr patch"
  rt_report :: "jsstr patch"
  rt_error :: "jsstr patch"
  rt_branch :: "jsstr patch"
  rt_publication_mode :: "publication_mode patch"
  rt_preflight_id :: "jsstr patch"
  rt_artifact_digest :: "jsstr patch"
  rt_base_sha :: "jsstr patch"
  rt_base_branch :: "jsstr patch"
  rt_head_sha :: "jsstr patch"
  rt_publication_blockers :: "(jsstr \<times> jsstr) list patch"
  rt_approved_by :: "jsstr patch"
  rt_override_unsafe :: "bool option"
  rt_override_reason :: "jsstr patch"

definition check_patch :: "('a \<Rightarrow> bool) \<Rightarrow> string \<Rightarrow> 'a patch \<Rightarrow> unit result" where
  "check_patch P m p = (case p of Put v \<Rightarrow> throw_if (\<not> P v) m | _ \<Rightarrow> Inr ())"

definition audit_digest :: "jsstr patch \<Rightarrow> unit result" where
  "audit_digest = check_patch (\<lambda>s. hex_n 64 s \<or> is_digest s) ''invalid artifact digest audit value''"

definition audit_commit :: "jsstr patch \<Rightarrow> unit result" where
  "audit_commit = check_patch is_git_sha ''invalid base commit audit value''"

definition audit_branch :: "jsstr patch \<Rightarrow> unit result" where
  "audit_branch = check_patch (\<lambda>s. s \<noteq> [] \<and> length s \<le> 240 \<and> s = trim s \<and> \<not> list_ex (\<lambda>c. c \<le> 0x1F \<or> c = 0x7F) s)
     ''invalid base branch audit value''"

text \<open>
  \<open>safeAuditText\<close>: the argument \<open>redact\<close> stands for its six credential patterns, which are not
  modelled; runs of control characters become a space before them, and the text is trimmed and
  cut after them.
\<close>

fun squash_controls :: "jsstr \<Rightarrow> jsstr" where
  "squash_controls [] = []"
| "squash_controls (c # s) =
     (if c \<le> 0x1F \<or> c = 0x7F then 32 # squash_controls (dropWhile (\<lambda>d. d \<le> 0x1F \<or> d = 0x7F) s) else c # squash_controls s)"

definition safe_audit_text :: "(jsstr \<Rightarrow> jsstr) \<Rightarrow> jsstr \<Rightarrow> nat \<Rightarrow> jsstr" where
  "safe_audit_text redact s n = take n (trim (redact (squash_controls s)))"

definition sanitize_override_reason :: "(jsstr \<Rightarrow> jsstr) \<Rightarrow> jsstr patch \<Rightarrow> jsstr patch result" where
  "sanitize_override_reason redact p =
     (case p of
        Put s \<Rightarrow> (let safe = safe_audit_text redact s 500 in
          if safe = [] then throw ''override reason audit value is empty'' else Inr (Put safe))
      | _ \<Rightarrow> Inr p)"

definition safe_blocker :: "(jsstr \<Rightarrow> jsstr) \<Rightarrow> jsstr \<times> jsstr \<Rightarrow> json result" where
  "safe_blocker redact b =
     (let code = safe_audit_text redact (fst b) 100; message = safe_audit_text redact (snd b) 1000 in
      if code = [] \<or> message = [] then throw ''publication blocker is empty''
      else Inr (Obj [(js ''code'', Str code), (js ''message'', Str message)]))"

definition serialize_publication_blockers :: "(jsstr \<Rightarrow> jsstr) \<Rightarrow> (jsstr \<times> jsstr) list patch \<Rightarrow> jsstr patch result" where
  "serialize_publication_blockers redact p =
     (case p of
        Keep \<Rightarrow> Inr Keep
      | Clear \<Rightarrow> Inr Clear
      | Put bs \<Rightarrow>
          thenR (throw_if (100 < length bs) ''publication blocker audit exceeds 100 entries'')
          (bindR (mapR (safe_blocker redact) bs) (\<lambda>items. Inr (Put (print_json (Arr items))))))"

definition terminal :: "run_status \<Rightarrow> bool" where
  "terminal s \<longleftrightarrow> s \<in> {PreviewReady, Blocked, PrOpened, Merged, Failed, NoChanges}"

definition update_run :: "(jsstr \<Rightarrow> jsstr) \<Rightarrow> int \<Rightarrow> jsstr \<Rightarrow> run_patch \<Rightarrow> sqlite \<Rightarrow> (run_row option \<times> sqlite) result" where
  "update_run redact now i p db =
     thenR (audit_digest (rt_artifact_digest p))
    (thenR (audit_commit (rt_base_sha p))
    (thenR (audit_branch (rt_base_branch p))
    (thenR (audit_commit (rt_head_sha p))
    (bindR (serialize_publication_blockers redact (rt_publication_blockers p)) (\<lambda>blockers.
     bindR (sanitize_override_reason redact (rt_override_reason p)) (\<lambda>reason.
     thenR (table_exists db ''migration_runs'') (
     let rs = map (\<lambda>r. if rn_id r = i then
       r\<lparr>rn_status := rt_status p, rn_pr_url := patched (rt_pr_url p) (rn_pr_url r), rn_summary := patched (rt_summary p) (rn_summary r),
         rn_report := patched (rt_report p) (rn_report r), rn_error := patched (rt_error p) (rn_error r),
         rn_branch := patched (rt_branch p) (rn_branch r),
         rn_publication_mode := patched (rt_publication_mode p) (rn_publication_mode r),
         rn_preflight_id := patched (rt_preflight_id p) (rn_preflight_id r),
         rn_artifact_digest := patched (rt_artifact_digest p) (rn_artifact_digest r),
         rn_base_sha := patched (rt_base_sha p) (rn_base_sha r), rn_base_branch := patched (rt_base_branch p) (rn_base_branch r),
         rn_head_sha := patched (rt_head_sha p) (rn_head_sha r), rn_publication_blockers := patched blockers (rn_publication_blockers r),
         rn_approved_by := patched (rt_approved_by p) (rn_approved_by r),
         rn_override_unsafe := (case rt_override_unsafe p of None \<Rightarrow> rn_override_unsafe r | Some b \<Rightarrow> b),
         rn_override_reason := patched reason (rn_override_reason r),
         rn_finished_at := (if terminal (rt_status p) then Some now else None)\<rparr> else r) (sq_runs db) in
     Inr (find (\<lambda>r. rn_id r = i) rs, db\<lparr>sq_runs := rs\<rparr>))))))))"

definition get_run :: "sqlite \<Rightarrow> jsstr \<Rightarrow> run_row option result" where
  "get_run db i = thenR (table_exists db ''migration_runs'') (Inr (find (\<lambda>r. rn_id r = i) (sq_runs db)))"

definition list_runs_for_campaign :: "sqlite \<Rightarrow> jsstr \<Rightarrow> run_row list result" where
  "list_runs_for_campaign db campaign_id = thenR (table_exists db ''migration_runs'')
     (Inr (sort_key (\<lambda>r. - rn_started_at r) (filter (\<lambda>r. rn_campaign_id r = campaign_id) (sq_runs db))))"

definition list_runs_with_repos_for_campaign :: "sqlite \<Rightarrow> jsstr \<Rightarrow> (run_row \<times> jsstr) list result" where
  "list_runs_with_repos_for_campaign db campaign_id =
     bindR (list_runs_for_campaign db campaign_id) (\<lambda>runs. thenR (table_exists db ''repos'')
       (Inr (concat (map (\<lambda>r. map (\<lambda>repo. (r, rp_slug repo)) (filter (\<lambda>repo. rp_id repo = rn_repo_id r) (sq_repos db))) runs))))"

definition status_text :: "run_status \<Rightarrow> jsstr" where
  "status_text s = js (case s of Queued \<Rightarrow> ''queued'' | Scanning \<Rightarrow> ''scanning'' | Transforming \<Rightarrow> ''transforming''
     | Verifying \<Rightarrow> ''verifying'' | PreviewReady \<Rightarrow> ''preview_ready'' | Blocked \<Rightarrow> ''blocked'' | PrOpened \<Rightarrow> ''pr_opened''
     | Merged \<Rightarrow> ''merged'' | Failed \<Rightarrow> ''failed'' | NoChanges \<Rightarrow> ''no_changes'')"

text \<open>The counts object, as the association of its members; \<open>counts[k] = (counts[k] ?? 0) + 1\<close>.\<close>

definition bump :: "(jsstr \<Rightarrow> nat option) \<Rightarrow> jsstr \<Rightarrow> (jsstr \<Rightarrow> nat option)" where
  "bump counts k = counts(k := Some ((case counts k of None \<Rightarrow> 0 | Some n \<Rightarrow> n) + 1))"

definition campaign_rollup :: "sqlite \<Rightarrow> jsstr \<Rightarrow> (jsstr \<Rightarrow> nat option) result" where
  "campaign_rollup db campaign_id = bindR (list_runs_for_campaign db campaign_id) (\<lambda>runs.
     Inr ((foldl (\<lambda>counts r. bump counts (status_text (rn_status r))) (\<lambda>_. None) runs)(js ''_total'' := Some (length runs))))"

end
