(* ===== verification/ReplayLedger.thy ===== *)
theory ReplayLedger
  imports AuditRepo
begin

text \<open>
  What the database operations guarantee together: the replay ledger never holds two rows that
  share an authorization, envelope, envelope digest or nonce, no operation changes or removes a
  row, and the campaign tables keep their references. The ledger is a one-shot store whose
  entries are spent the moment they exist.
\<close>

section \<open>The ledger\<close>

definition ledger_ok :: "sqlite \<Rightarrow> bool" where
  "ledger_ok db \<longleftrightarrow> sorted_wrt (\<lambda>r q. \<not> replay_conflict r q) (sq_consumptions db) \<and> list_all consumption_checks (sq_consumptions db)"

lemma replay_conflict_sym: "replay_conflict r q \<longleftrightarrow> replay_conflict q r"
  by (auto simp: replay_conflict_def)

lemma replay_conflict_self [simp]: "replay_conflict r r"
  by (simp add: replay_conflict_def)

lemma insert_consumption_eq:
  "insert_consumption r db = Inr db' \<longleftrightarrow> consumption_checks r \<and> (\<forall>q \<in> set (sq_consumptions db). \<not> replay_conflict r q)
     \<and> db' = db\<lparr>sq_consumptions := sq_consumptions db @ [r]\<rparr>"
  by (auto simp: insert_consumption_def list_ex_iff)

lemma insert_ledger_ok: "ledger_ok db \<Longrightarrow> insert_consumption r db = Inr db' \<Longrightarrow> ledger_ok db'"
  using replay_conflict_sym by (auto simp: ledger_ok_def insert_consumption_eq sorted_wrt_append)

lemma find_app: "find P (xs @ ys) = (case find P xs of None \<Rightarrow> find P ys | Some x \<Rightarrow> Some x)"
  by (induction xs) auto

lemma read_append:
  "read_owner_authorization_consumption db i = Some r \<Longrightarrow> sq_consumptions db' = sq_consumptions db @ rs
    \<Longrightarrow> read_owner_authorization_consumption db' i = Some r"
  by (auto simp: read_owner_authorization_consumption_def find_app split: option.splits)

lemma ledger_pairwise:
  assumes "ledger_ok db" "r \<in> set (sq_consumptions db)" "q \<in> set (sq_consumptions db)" "replay_conflict r q"
  shows "r = q"
proof (rule ccontr)
  assume "r \<noteq> q"
  from assms(2,3) obtain i j where ij: "i < length (sq_consumptions db)" "j < length (sq_consumptions db)"
    "sq_consumptions db ! i = r" "sq_consumptions db ! j = q" by (auto simp: in_set_conv_nth)
  with \<open>r \<noteq> q\<close> have "i < j \<or> j < i" by (cases i j rule: linorder_cases) auto
  with assms ij show False
    using replay_conflict_sym by (auto simp: ledger_ok_def sorted_wrt_iff_nth_less)
qed

lemma read_member:
  assumes "ledger_ok db" "r \<in> set (sq_consumptions db)"
  shows "read_owner_authorization_consumption db (cn_authorization_id r) = Some r"
proof -
  obtain q where q: "read_owner_authorization_consumption db (cn_authorization_id r) = Some q"
    using assms(2) by (cases "read_owner_authorization_consumption db (cn_authorization_id r)")
      (auto simp: read_owner_authorization_consumption_def find_None_iff)
  then have "q \<in> set (sq_consumptions db)" "replay_conflict r q"
    by (auto simp: read_owner_authorization_consumption_def find_Some_iff replay_conflict_def)
  with assms q ledger_pairwise show ?thesis by blast
qed

lemma read_in: "read_owner_authorization_consumption db i = Some r \<Longrightarrow> r \<in> set (sq_consumptions db) \<and> cn_authorization_id r = i"
  by (auto simp: read_owner_authorization_consumption_def find_Some_iff)

section \<open>What each operation does to the ledger\<close>

text \<open>The rows a reservation adds: none, or the one receipt that conflicts with no row.\<close>

definition ledger_grows :: "sqlite \<Rightarrow> sqlite \<Rightarrow> bool" where
  "ledger_grows db db' \<longleftrightarrow> sq_consumptions db' = sq_consumptions db \<or>
     (\<exists>r. sq_consumptions db' = sq_consumptions db @ [r] \<and> consumption_checks r \<and> (\<forall>q \<in> set (sq_consumptions db). \<not> replay_conflict r q))"

lemma reserve_Inr:
  assumes "reserve h env c m input db = Inr (res, db')"
  obtains at where "sqlite_epoch_milliseconds (mo_before m) = Inr at" "at < cn_expires_at input"
    "lr_stored res = consumption_receipt input at" "insert_consumption (consumption_receipt input at) db = Inr db'"
    "verify_owner_authorization_schema db = Inr ()"
    "is_ok (assert_initialized_owner_authorization_store h env c (mo_disk m) db)"
  using assms unfolding reserve_def Let_def result_simps is_ok_iff by fastforce

lemma persist_cases:
  assumes "persist_owner_authorization_consumption h env c m input db = (r, db')"
  obtains (rejected) e where "r = Inl e" "db' = db"
    | (stored) at where "insert_consumption (consumption_receipt input at) db = Inr db'"
        "sqlite_epoch_milliseconds (mo_before m) = Inr at" "at < cn_expires_at input"
        "\<And>res. r = Inr res \<Longrightarrow> lr_stored res = consumption_receipt input at"
proof (cases "reserve h env c m input db")
  case (Inl e)
  with assms show thesis by (intro rejected) (auto simp: persist_owner_authorization_consumption_def transact_def)
next
  case (Inr x)
  obtain res db1 where x: "x = (res, db1)" by (cases x)
  from reserve_Inr [OF Inr [unfolded x]] obtain at where at: "sqlite_epoch_milliseconds (mo_before m) = Inr at" "at < cn_expires_at input"
    "lr_stored res = consumption_receipt input at" "insert_consumption (consumption_receipt input at) db = Inr db1" by metis
  have t: "transact (reserve h env c m input) db = (Inr res, db1)" using Inr x by (simp add: transact_Inr)
  have "db' = db1" using assms by (simp add: persist_owner_authorization_consumption_def t)
  moreover have "lr_stored out = lr_stored res" if "r = Inr out" for out
    using assms that unfolding persist_owner_authorization_consumption_def t
    by (clarsimp simp: bindR_eq_Inr thenR_eq_Inr)
  ultimately have tail: "db' = db1" "\<And>out. r = Inr out \<Longrightarrow> lr_stored out = lr_stored res" by blast+
  show thesis
  proof (rule stored [of at])
    show "insert_consumption (consumption_receipt input at) db = Inr db'" using at(4) tail(1) by simp
    show "lr_stored out = consumption_receipt input at" if "r = Inr out" for out using tail(2) [OF that] at(3) by simp
  qed (fact at(1,2))+
qed

lemma audit_sha256_eq: "audit_sha256 v l = Inr d \<Longrightarrow> hex_n 64 d"
  by (auto simp: audit_sha256_def audit_reject_def Let_def split: jsval.splits if_splits)

lemma consume_cases:
  assumes "consume_owner_authorization h env c m input db = (r, db')"
  obtains (rejected) e where "r = Inl e" "db' = db"
    | (stored) cn at where "audit_consumption input = Inr cn" "insert_consumption (consumption_receipt cn at) db = Inr db'"
        "sqlite_epoch_milliseconds (mo_before m) = Inr at" "at < cn_expires_at cn"
        "\<And>out. r = Inr out \<Longrightarrow> out = consumption_receipt cn at"
proof (cases "audit_consumption input")
  case (Inl e)
  with assms show thesis by (intro rejected) (auto simp: consume_owner_authorization_def)
next
  case (Inr v)
  obtain p db1 where p: "persist_owner_authorization_consumption h env c m v db = (p, db1)" by fastforce
  from assms Inr p have r: "db' = db1" "\<And>out. r = Inr out \<Longrightarrow> \<exists>res. p = Inr res \<and> lr_stored res = out"
    and failed: "\<And>e. p = Inl e \<Longrightarrow> r = Inl consumption_rejected"
    by (auto simp: consume_owner_authorization_def split: sum.splits if_splits)
  from p show thesis
  proof (cases rule: persist_cases)
    case (rejected e)
    with r failed show thesis by (intro that(1)) auto
  next
    case (stored at)
    show thesis
    proof (rule that(2) [OF Inr])
      show "insert_consumption (consumption_receipt v at) db = Inr db'" using stored(1) r(1) by simp
      show "out = consumption_receipt v at" if "r = Inr out" for out using r(2) [OF that] stored(4) by blast
    qed (fact stored(2,3))+
  qed
qed

lemma consume_ledger_grows: "consume_owner_authorization h env c m input db = (r, db') \<Longrightarrow> ledger_grows db db'"
  by (erule consume_cases) (auto simp: ledger_grows_def insert_consumption_eq)

lemma insert_identity_keeps: "insert_identity i db = Inr db' \<Longrightarrow> sq_consumptions db' = sq_consumptions db"
  by (auto simp: insert_identity_def split: if_splits)

lemma ceremony_keeps:
  "ceremony h env c now nonce store_id db d = (Inr (s, db'), d') \<Longrightarrow> sq_consumptions db' = sq_consumptions db
    \<and> (sq_identity db \<noteq> None \<longrightarrow> db' = db \<and> sq_identity db = Some s)"
  by (auto simp: ceremony_def activate_def result_simps dest!: insert_identity_keeps split: sum.splits option.splits prod.splits)

lemma initialize_keeps:
  assumes "initialize_owner_authorization_store h env c now nonce later db d = (r, db', d')"
  shows "sq_consumptions db' = sq_consumptions db \<and> (sq_identity db \<noteq> None \<longrightarrow> db' = db)"
  using assms unfolding initialize_owner_authorization_store_def
  by (auto simp: Let_def dest!: ceremony_keeps split: sum.splits prod.splits)

section \<open>Updating a run\<close>

lemma update_run_Inr:
  assumes "update_run redact now i p db = Inr (row, db')"
  obtains f where "db' = db\<lparr>sq_runs := map (\<lambda>r. if rn_id r = i then f r else r) (sq_runs db)\<rparr>" "row = find (\<lambda>r. rn_id r = i) (sq_runs db')"
    "\<And>r. rn_id (f r) = rn_id r \<and> rn_campaign_id (f r) = rn_campaign_id r \<and> rn_repo_id (f r) = rn_repo_id r
      \<and> rn_started_at (f r) = rn_started_at r \<and> rn_status (f r) = rt_status p
      \<and> rn_finished_at (f r) = (if terminal (rt_status p) then Some now else None)"
proof -
  from assms obtain blockers reason where "serialize_publication_blockers redact (rt_publication_blockers p) = Inr blockers"
    "sanitize_override_reason redact (rt_override_reason p) = Inr reason"
    by (auto simp: update_run_def bindR_eq_Inr thenR_eq_Inr)
  with assms show thesis
    by (intro that) (simp_all add: update_run_def bindR_eq_Inr thenR_eq_Inr Let_def, force+)
qed

section \<open>Sequences of operations\<close>

text \<open>
  One operation of the package that writes the database, with whatever environment, disk, clock
  and identifiers it meets; operations of several processes interleave one at a time. An operation that
  depends on the connection has it from \<open>getDb\<close>.
\<close>

inductive db_step :: "sqlite \<Rightarrow> sqlite \<Rightarrow> bool" where
  step_consume: "consume_owner_authorization h env c m input db = (r, db') \<Longrightarrow> db_step db db'"
| step_initialize: "initialize_owner_authorization_store h env c now nonce later db d = (i, db', d') \<Longrightarrow> db_step db db'"
| step_migrate: "migrate keep db = (u, db') \<Longrightarrow> db_step db db'"
| step_reset: "reset_db keep db = (u, db') \<Longrightarrow> db_step db db'"
| step_provider: "create_provider uuid at name slug db = Inr (p, db') \<Longrightarrow> db_step db db'"
| step_campaign: "get_db env d pragmas opened path closed_client = Inr (c, o') \<Longrightarrow> create_campaign c uuid at provider_id name manifest status db = Inr (cr, db') \<Longrightarrow> db_step db db'"
| step_repo: "upsert_repo uuid at slug branch inst db = Inr (rr, db') \<Longrightarrow> db_step db db'"
| step_run: "get_db env d pragmas opened path closed_client = Inr (c, o') \<Longrightarrow> create_run c uuid at campaign repo b db = Inr (nr, db') \<Longrightarrow> db_step db db'"
| step_update: "update_run redact at i' patch db = Inr (nr, db') \<Longrightarrow> db_step db db'"

lemma create_provider_ledger: "create_provider uuid now name slug db = Inr (row, db') \<Longrightarrow> sq_consumptions db' = sq_consumptions db"
  by (auto simp: create_provider_def result_simps)

lemma create_campaign_ledger:
  "create_campaign c uuid now p name manifest status db = Inr (row, db') \<Longrightarrow> sq_consumptions db' = sq_consumptions db"
  by (auto simp: create_campaign_def Let_def result_simps)

lemma upsert_repo_ledger: "upsert_repo uuid now slug b i db = Inr (row, db') \<Longrightarrow> sq_consumptions db' = sq_consumptions db"
  by (auto simp: upsert_repo_def result_simps)

lemma create_run_ledger: "create_run cl uuid now c q b db = Inr (row, db') \<Longrightarrow> sq_consumptions db' = sq_consumptions db"
  by (auto simp: create_run_def Let_def result_simps)

lemma update_run_ledger: "update_run redact now i p db = Inr (row, db') \<Longrightarrow> sq_consumptions db' = sq_consumptions db"
  by (erule update_run_Inr) simp

lemmas campaign_ledger = create_provider_ledger create_campaign_ledger upsert_repo_ledger create_run_ledger update_run_ledger

lemma db_step_ledger:
  assumes "db_step db db'"
  shows "ledger_grows db db'"
  using assms
proof (cases rule: db_step.cases)
  case (step_consume h env c m input r)
  then show ?thesis by (rule consume_ledger_grows)
next
  case (step_initialize h env c now nonce later d i d')
  then show ?thesis by (simp add: ledger_grows_def initialize_keeps)
next
  case (step_migrate keep u)
  then show ?thesis by (simp add: ledger_grows_def migrate_keeps)
next
  case (step_reset keep u)
  then show ?thesis by (simp add: ledger_grows_def reset_keeps)
qed (simp_all add: ledger_grows_def campaign_ledger)

lemma ledger_grows_ok: "ledger_grows db db' \<Longrightarrow> ledger_ok db \<Longrightarrow> ledger_ok db'"
  using replay_conflict_sym by (auto simp: ledger_grows_def ledger_ok_def sorted_wrt_append)

text \<open>The ledger is a one-shot store: an entry, once there, is spent.\<close>

interpretation ledger: one_shot db_step ledger_ok read_owner_authorization_consumption "(=)" "\<lambda>_. True"
proof unfold_locales
  show "ledger_ok db \<Longrightarrow> db_step db db' \<Longrightarrow> ledger_ok db'" for db db'
    using db_step_ledger ledger_grows_ok by blast
  show "\<exists>b. read_owner_authorization_consumption db' i = Some b \<and> a = b"
    if "ledger_ok db" "db_step db db'" "read_owner_authorization_consumption db i = Some a" for db db' i a
    using db_step_ledger [OF that(2)] read_append [OF that(3)] that(3)
    by (auto simp: ledger_grows_def read_owner_authorization_consumption_def)
qed simp_all

lemma consume_stored:
  assumes "ledger_ok db" "consume_owner_authorization h env c m input db = (Inr r, db')"
  shows "ledger_ok db' \<and> read_owner_authorization_consumption db' (cn_authorization_id r) = Some r \<and> consumption_checks r
    \<and> (\<forall>q \<in> set (sq_consumptions db). \<not> replay_conflict r q)"
  using assms(2)
proof (cases rule: consume_cases)
  case (stored cn at)
  then have r: "r = consumption_receipt cn at" by blast
  have ok: "ledger_ok db'" by (rule insert_ledger_ok [OF assms(1) stored(2)])
  have "r \<in> set (sq_consumptions db')" using stored(2) r by (auto simp: insert_consumption_eq)
  from read_member [OF ok this] ok stored(2) r show ?thesis by (simp add: insert_consumption_eq)
qed simp

lemma consume_conflict_rejected:
  assumes "read_owner_authorization_consumption db i = Some q" "audit_consumption input = Inr cn"
    and "\<And>at. replay_conflict (consumption_receipt cn at) q"
  shows "fst (consume_owner_authorization h env c m input db) = Inl consumption_rejected \<and>
    snd (consume_owner_authorization h env c m input db) = db"
proof -
  have no: "insert_consumption (consumption_receipt cn at) db \<noteq> Inr db'" for at db'
    using read_in [OF assms(1)] assms(3) [of at] by (auto simp: insert_consumption_eq)
  obtain p db' where p: "persist_owner_authorization_consumption h env c m cn db = (p, db')" by fastforce
  then show ?thesis
  proof (cases rule: persist_cases)
    case (rejected e)
    with p assms(2) show ?thesis by (simp add: consume_owner_authorization_def)
  next
    case (stored at)
    with no show ?thesis by blast
  qed
qed

end
