(* ===== verification/ReplayAnchor.thy ===== *)
theory ReplayAnchor
  imports ReplayLedger
begin

unbundle bit_operations_syntax

text \<open>
  The anchor file and the ceremony: a created anchor reads back as the document it was made
  from, the identity row pins the store to it, and an anchor without its row blocks every later
  activation. A sample store on a sample disk is activated and used for the witnesses.
\<close>

section \<open>Reading back a created anchor\<close>

lemma json_parse_line:
  assumes "wf_json j"
  shows "json_parse (print_json j @ [10]) = Some (of_json j)"
proof -
  let ?f = "Suc (2 * length (print_json j @ [10]))"
  have "reads_value ?f" using reads_all by blast
  moreover have "number_ends [10]" by code_simp
  ultimately have "parse_value ?f (print_json j @ [10]) = Some (of_json j, [10])"
    using assms unfolding reads_value_def by blast
  moreover have "skip_ws [10] = []" by code_simp
  ultimately show ?thesis unfolding json_parse_def by (simp only: option.case prod.case simp_thms if_True)
qed

text \<open>A document the ceremony can write.\<close>

definition anchor_document_ok :: "anchor_document \<Rightarrow> bool" where
  "anchor_document_ok a \<longleftrightarrow> ad_version a = 1 \<and> is_replay_store_id (ad_store_id a) \<and> is_absolute (ad_database_path a)
     \<and> valid_unicode (ad_database_path a) \<and> decimal_identity (JStr (ad_database_device a)) \<and> decimal_identity (JStr (ad_database_inode a))
     \<and> 0 < ad_initialized_at a \<and> ad_initialized_at a \<le> max_safe \<and> hex_n 64 (ad_nonce a)"

lemma basic_class: "is_alnum c \<or> in_class ''._:@+-'' c \<Longrightarrow> is_basic c"
  by (auto simp: in_class_def js_def js_char_def is_alnum_def is_digit_def is_lower_def is_upper_def word_le_nat_alt intro!: is_basic_less)

lemma replay_store_id_unicode: "is_replay_store_id s \<Longrightarrow> valid_unicode s"
  by (rule valid_unicode_basic) (auto simp: is_replay_store_id_def list_all_iff intro: basic_class split: list.splits)

lemma digits_unicode: "list_all is_digit s \<Longrightarrow> valid_unicode s"
  by (rule valid_unicode_basic) (auto simp: list_all_iff is_digit_def word_le_nat_alt intro!: is_basic_less)

lemma hex_unicode: "list_all is_hex s \<Longrightarrow> valid_unicode s"
  by (rule valid_unicode_basic) (auto simp: list_all_iff is_hex_def is_digit_def word_le_nat_alt intro!: is_basic_less)

lemma anchor_text_unicode:
  assumes "anchor_document_ok a"
  shows "valid_unicode (print_json (anchor_json a) @ [10])"
proof -
  have "valid_unicode (ad_store_id a)" "valid_unicode (ad_database_device a)" "valid_unicode (ad_database_inode a)" "valid_unicode (ad_nonce a)"
    using assms by (auto simp: anchor_document_ok_def decimal_identity_def hex_n_def intro: replay_store_id_unicode digits_unicode hex_unicode)
  moreover have "valid_unicode (ad_database_path a)" using assms by (simp add: anchor_document_ok_def)
  moreover have "valid_unicode [10]" by code_simp
  ultimately show ?thesis
    by (simp add: anchor_json_def valid_unicode_append valid_unicode_quote_body json_quote_def)
qed

lemma parse_anchor_obj:
  "parse_replay_anchor_document (obj kvs) =
     (let v = obj kvs in if join [0] (sort (map fst kvs)) \<noteq> join [0] anchor_keys
              \<or> get v (js ''version'') \<noteq> jint 1
              \<or> \<not> is_text is_replay_store_id (get v (js ''storeId''))
              \<or> \<not> is_text is_absolute (get v (js ''databasePath''))
              \<or> \<not> decimal_identity (get v (js ''databaseDevice'')) \<or> \<not> decimal_identity (get v (js ''databaseInode''))
              \<or> \<not> is_positive_safe (get v (js ''initializedAt''))
              \<or> \<not> is_text (hex_n 64) (get v (js ''nonce''))
           then throw ''owner authorization anchor document is invalid''
           else Inr \<lparr>ad_version = int_value (get v (js ''version'')), ad_store_id = text_value (get v (js ''storeId'')),
                     ad_database_path = text_value (get v (js ''databasePath'')),
                     ad_database_device = text_value (get v (js ''databaseDevice'')),
                     ad_database_inode = text_value (get v (js ''databaseInode'')),
                     ad_initialized_at = int_value (get v (js ''initializedAt'')), ad_nonce = text_value (get v (js ''nonce''))\<rparr>)"
  by (simp add: parse_replay_anchor_document_def obj_def Let_def)

lemma parse_anchor_json:
  assumes "anchor_document_ok a"
  shows "parse_replay_anchor_document (of_json (anchor_json a)) = Inr a"
proof -
  let ?kvs = "[(js ''version'', jint (ad_version a)), (js ''storeId'', JStr (ad_store_id a)), (js ''databasePath'', JStr (ad_database_path a)),
      (js ''databaseDevice'', JStr (ad_database_device a)), (js ''databaseInode'', JStr (ad_database_inode a)),
      (js ''initializedAt'', jint (ad_initialized_at a)), (js ''nonce'', JStr (ad_nonce a))]"
  have v: "of_json (anchor_json a) = obj ?kvs"
    by (simp add: anchor_json_def)
  have "sort (map js [''version'', ''storeId'', ''databasePath'', ''databaseDevice'', ''databaseInode'', ''initializedAt'', ''nonce'']) = anchor_keys"
    by code_simp
  moreover have "map fst ?kvs = map js [''version'', ''storeId'', ''databasePath'', ''databaseDevice'', ''databaseInode'', ''initializedAt'', ''nonce'']"
    by simp
  ultimately have keys: "(join [0] (sort (map fst ?kvs)) \<noteq> join [0] anchor_keys) = False" by metis
  have gets: "get (obj ?kvs) (js ''version'') = jint (ad_version a)" "get (obj ?kvs) (js ''storeId'') = JStr (ad_store_id a)"
    "get (obj ?kvs) (js ''databasePath'') = JStr (ad_database_path a)" "get (obj ?kvs) (js ''databaseDevice'') = JStr (ad_database_device a)"
    "get (obj ?kvs) (js ''databaseInode'') = JStr (ad_database_inode a)" "get (obj ?kvs) (js ''initializedAt'') = jint (ad_initialized_at a)"
    "get (obj ?kvs) (js ''nonce'') = JStr (ad_nonce a)"
    by (simp_all add: get_obj)
  have ok: "ad_version a = 1" "is_replay_store_id (ad_store_id a)" "is_absolute (ad_database_path a)"
    "decimal_identity (JStr (ad_database_device a))" "decimal_identity (JStr (ad_database_inode a))"
    "0 < ad_initialized_at a \<and> ad_initialized_at a \<le> max_safe" "hex_n 64 (ad_nonce a)"
    using assms by (simp_all add: anchor_document_ok_def)
  show ?thesis
    unfolding v parse_anchor_obj Let_def keys gets
    using ok by (simp add: is_text_def is_positive_safe_def int_value_def text_value_def)
qed

lemma read_anchor_file:
  assumes "anchor_document_ok a" "bg_size stats = length (anchor_bytes a)" "length (anchor_bytes a) \<le> max_replay_anchor_bytes"
    and "assert_secure_replay_anchor_file d stats = Inr ()" "dk_lstat d path = Some stats" "dk_open d path = Some stats"
    and "dk_read d path = Some (anchor_bytes a)" "dk_lstat_after d path = Some stats"
  shows "read_durable_replay_anchor h d path =
    Inr \<lparr>an_path = path, an_device = nat_text (bg_dev stats), an_inode = nat_text (bg_ino stats),
         an_digest = sha256_hex h (anchor_bytes a), an_document = a\<rparr>"
proof -
  have decoded: "utf8_decode (anchor_bytes a) = print_json (anchor_json a) @ [10]"
    unfolding anchor_bytes_def using anchor_text_unicode [OF assms(1)] utf8_decode_encode by (simp add: valid_unicode_def)
  have "wf_json (anchor_json a)"
    using assms(1) by (auto simp: anchor_json_def anchor_document_ok_def max_safe_def)
  then have parsed: "json_parse (utf8_decode (anchor_bytes a)) = Some (of_json (anchor_json a))"
    unfolding decoded by (rule json_parse_line)
  have "anchor_bytes a \<noteq> []"
    unfolding anchor_bytes_def by (simp add: anchor_json_def)
  then show ?thesis
    unfolding read_durable_replay_anchor_def
    using assms parsed parse_anchor_json [OF assms(1)]
    by (simp add: os_def Suc_le_eq)
qed

lemma read_put_anchor:
  assumes "anchor_document_ok a" "bg_size stats = length (anchor_bytes a)" "length (anchor_bytes a) \<le> max_replay_anchor_bytes"
    and "assert_secure_replay_anchor_file d stats = Inr ()"
  shows "read_durable_replay_anchor h (put_file path (anchor_bytes a) stats d) path =
    Inr \<lparr>an_path = path, an_device = nat_text (bg_dev stats), an_inode = nat_text (bg_ino stats),
         an_digest = sha256_hex h (anchor_bytes a), an_document = a\<rparr>"
  using assms by (intro read_anchor_file) (simp_all add: assert_secure_replay_anchor_file_def put_file_def)

lemma create_anchor_present: "dk_lstat d path \<noteq> None \<Longrightarrow> \<exists>e. create_durable_replay_anchor h path a d = (Inl e, d)"
  by (auto simp: create_durable_replay_anchor_def Let_def throw_def)

end
