(* ===== verification/ReplaySample.thy ===== *)
theory ReplaySample
  imports ReplayAnchor
begin

unbundle bit_operations_syntax

text \<open>
  A sample replay store: a fresh database on a sample disk is migrated and activated, and one
  authorization is consumed in it. The properties of the ledger are shown to apply to it.
\<close>

section \<open>The disk and the environment\<close>

definition sample_db_path :: jsstr where
  "sample_db_path = js ''/db/pilot.db''"

definition sample_anchor_path :: jsstr where
  "sample_anchor_path = js ''/anchor/replay.json''"

definition plain_stat :: "bool \<Rightarrow> nat \<Rightarrow> nat \<Rightarrow> 32 word \<Rightarrow> big_stat" where
  "plain_stat is_file ino bytes mode = \<lparr>bg_file = is_file, bg_directory = (\<not> is_file), bg_dev = 1, bg_ino = ino, bg_nlink = 1, bg_size = bytes,
     bg_mode = mode, bg_uid = 7\<rparr>"

definition sample_disk :: disk where
  "sample_disk = \<lparr>dk_uid = Some 7, dk_cwd = js ''/'', dk_realpath = Some,
     dk_stat = (\<lambda>p. Some (if p = sample_db_path then plain_stat True 2 4096 0x180 else plain_stat False 3 64 0x1C0)),
     dk_lstat = (\<lambda>_. None), dk_open = (\<lambda>p. if p = sample_db_path then Some (plain_stat True 2 4096 0x180) else None),
     dk_read = (\<lambda>_. None), dk_lstat_after = (\<lambda>_. None),
     dk_create = (\<lambda>_ bs. Some (bs, plain_stat True 9 (length bs) 0x180, True)), dk_sync = (\<lambda>_. True)\<rparr>"

definition sample_env :: db_env where
  "sample_env = \<lparr>ev_db_path = Some sample_db_path, ev_workspace_root = None, ev_store_id = Some (js ''replay-store-0001''),
     ev_anchor_path = Some sample_anchor_path\<rparr>"

definition sample_file :: file_identity where
  "sample_file = \<lparr>fi_database_path = sample_db_path, fi_device = js ''1'', fi_inode = js ''2'', fi_link_count = 1\<rparr>"

definition sample_client :: client where
  "sample_client = \<lparr>cl_open = True, cl_path = Some sample_db_path, cl_main = Some sample_db_path, cl_identity = Some sample_file, cl_foreign_keys = True\<rparr>"

definition sample_document :: anchor_document where
  "sample_document = make_document (js ''replay-store-0001'') sample_file 1000 (replicate 64 97)"

definition sample_stats :: big_stat where
  "sample_stats = plain_stat True 9 (length (anchor_bytes sample_document)) 0x180"

definition sample_active_disk :: disk where
  "sample_active_disk = put_file sample_anchor_path (anchor_bytes sample_document) sample_stats sample_disk"

definition sample_anchor :: anchor where
  "sample_anchor = \<lparr>an_path = sample_anchor_path, an_device = js ''1'', an_inode = js ''9'',
     an_digest = sha256_hex sample_hash (anchor_bytes sample_document), an_document = sample_document\<rparr>"

definition sample_identity :: store_identity where
  "sample_identity = make_identity (js ''replay-store-0001'') sample_file sample_anchor 1000"

definition sample_db :: sqlite where
  "sample_db = snd (migrate (\<lambda>s. s) fresh_sqlite)"

definition sample_active_db :: sqlite where
  "sample_active_db = sample_db\<lparr>sq_identity := Some sample_identity\<rparr>"

section \<open>Activating it\<close>

lemma sample_paths: "sample_db_path \<noteq> sample_anchor_path" "dir_name sample_db_path = js ''/db''" "is_absolute sample_db_path"
  "sample_db_path \<noteq> []" "dir_name sample_anchor_path = js ''/anchor''" "base_name sample_anchor_path = js ''replay.json''"
  "is_absolute sample_anchor_path" "join_path (js ''/anchor'') (js ''replay.json'') = sample_anchor_path"
  "relative_path (js ''/db'') sample_anchor_path = js ''../anchor/replay.json''" "length sample_anchor_path = 19"
  "starts_with (js ''..'') (js ''../anchor/replay.json'')"
  by code_simp+

lemma sample_path_literals: "js ''/db'' \<noteq> sample_db_path" "js ''/anchor'' \<noteq> sample_db_path" "js ''/db'' \<noteq> sample_anchor_path"
  "js ''/anchor'' \<noteq> sample_anchor_path"
  by code_simp+

lemma nat_text_small: "nat_text 1 = js ''1''" "nat_text 2 = js ''2''" "nat_text 9 = js ''9''"
  by code_simp+

lemma sample_identity_read:
  assumes "dk_stat d = (dk_stat sample_disk)(sample_anchor_path := s)" "dk_realpath d = Some" "dk_uid d = Some 7"
  shows "read_durable_file_identity d (Some sample_db_path) = Inr sample_file"
  unfolding read_durable_file_identity_def assms
  using sample_paths sample_path_literals nat_text_small
  by (simp add: os_def sample_disk_def plain_stat_def sample_file_def)

lemma sample_stable:
  assumes "dk_stat d = (dk_stat sample_disk)(sample_anchor_path := s)" "dk_realpath d = Some" "dk_uid d = Some 7"
  shows "assert_stable_open_file_identity sample_client d = Inr sample_file"
  using sample_identity_read [OF assms]
  by (simp add: assert_stable_open_file_identity_def sample_client_def same_file_identity_def)

lemma sample_anchor_configured:
  assumes "dk_stat d = (dk_stat sample_disk)(sample_anchor_path := s)" "dk_realpath d = Some" "dk_uid d = Some 7"
  shows "configured_replay_anchor_path sample_env d sample_file = Inr sample_anchor_path"
  unfolding configured_replay_anchor_path_def assms
  using sample_paths sample_path_literals
  by (simp add: os_def sample_disk_def plain_stat_def sample_file_def sample_env_def Let_def)

lemma sample_active_fields: "dk_stat sample_active_disk = (dk_stat sample_disk)(sample_anchor_path := Some sample_stats)"
  "dk_realpath sample_active_disk = Some" "dk_uid sample_active_disk = Some 7"
  by (simp_all add: sample_active_disk_def put_file_def sample_disk_def)

lemmas sample_active_reads = sample_stable [OF sample_active_fields] sample_anchor_configured [OF sample_active_fields]

lemma sample_fields: "dk_stat sample_disk = (dk_stat sample_disk)(sample_anchor_path := dk_stat sample_disk sample_anchor_path)"
  "dk_realpath sample_disk = Some" "dk_uid sample_disk = Some 7"
  by (rule fun_upd_triv [symmetric]) (simp_all add: sample_disk_def)

lemmas sample_reads = sample_stable [OF sample_fields] sample_anchor_configured [OF sample_fields]

lemma sample_document_ok: "anchor_document_ok sample_document"
  by code_simp

lemma anchor_text_bound:
  "length (print_json (anchor_json a)) \<le> 6 * (length (ad_store_id a) + length (ad_database_path a) + length (ad_database_device a)
     + length (ad_database_inode a) + length (ad_nonce a)) + length (int_text (ad_version a)) + length (int_text (ad_initialized_at a)) + 600"
proof -
  have quote: "length (json_quote (js k)) \<le> 6 * length k + 2" for k using length_json_quote [of "js k"] by simp
  show ?thesis
    using quote [of "''version''"] quote [of "''storeId''"] quote [of "''databasePath''"] quote [of "''databaseDevice''"]
      quote [of "''databaseInode''"] quote [of "''initializedAt''"] quote [of "''nonce''"] length_json_quote [of "ad_store_id a"]
      length_json_quote [of "ad_database_path a"] length_json_quote [of "ad_database_device a"] length_json_quote [of "ad_database_inode a"]
      length_json_quote [of "ad_nonce a"]
    by (simp add: anchor_json_def)
qed

lemma sample_document_fields: "ad_store_id sample_document = js ''replay-store-0001''" "ad_database_path sample_document = sample_db_path"
  "ad_database_device sample_document = js ''1''" "ad_database_inode sample_document = js ''2''" "ad_nonce sample_document = replicate 64 97"
  "ad_version sample_document = 1" "ad_initialized_at sample_document = 1000"
  by (simp_all add: sample_document_def make_document_def sample_file_def)

lemma sample_document_size: "anchor_bytes sample_document \<noteq> []" "length (anchor_bytes sample_document) \<le> max_replay_anchor_bytes"
proof -
  have "length sample_db_path = 12" by code_simp
  moreover have "length (int_text 1) = 1" "length (int_text 1000) = 4" by code_simp+
  ultimately have "length (print_json (anchor_json sample_document)) \<le> 1500"
    using anchor_text_bound [of sample_document] by (simp add: sample_document_fields)
  moreover have "length (anchor_bytes sample_document) \<le> 3 * (length (print_json (anchor_json sample_document)) + 1)"
    using length_utf8 [of "print_json (anchor_json sample_document) @ [10]"] by (simp add: anchor_bytes_def)
  ultimately show "length (anchor_bytes sample_document) \<le> max_replay_anchor_bytes" by (simp add: max_replay_anchor_bytes_def)
  show "anchor_bytes sample_document \<noteq> []" by (simp add: anchor_bytes_def anchor_json_def)
qed

lemma sample_stats_secure: "assert_secure_replay_anchor_file sample_disk sample_stats = Inr ()"
  using sample_document_size by (simp add: assert_secure_replay_anchor_file_def sample_stats_def plain_stat_def sample_disk_def)

lemma sample_anchor_read: "read_durable_replay_anchor sample_hash sample_active_disk sample_anchor_path = Inr sample_anchor"
proof -
  have stats: "bg_size sample_stats = length (anchor_bytes sample_document)" "bg_dev sample_stats = 1" "bg_ino sample_stats = 9"
    by (simp_all add: sample_stats_def plain_stat_def)
  show ?thesis
    unfolding sample_active_disk_def
    by (subst read_put_anchor [OF sample_document_ok stats(1) sample_document_size(2) sample_stats_secure])
      (simp add: sample_anchor_def stats nat_text_small [simplified])
qed

lemma sample_created:
  "create_durable_replay_anchor sample_hash sample_anchor_path sample_document sample_disk = (Inr sample_anchor, sample_active_disk)"
proof -
  have "dk_lstat sample_disk sample_anchor_path = None"
    "dk_create sample_disk sample_anchor_path (anchor_bytes sample_document) = Some (anchor_bytes sample_document, sample_stats, True)"
    "dk_sync sample_active_disk (dir_name sample_anchor_path)"
    by (simp_all add: sample_disk_def sample_stats_def sample_active_disk_def put_file_def)
  then show ?thesis
    using sample_document_size sample_anchor_read
    by (simp add: create_durable_replay_anchor_def Let_def flip: sample_active_disk_def)
qed

lemma migrate_keeps_pragmas:
  assumes "migrate keep db = (r, db')"
  shows "sq_journal_mode db' = sq_journal_mode db \<and> sq_synchronous db' = sq_synchronous db \<and> sq_fullfsync db' = sq_fullfsync db"
proof -
  have create: "sq_journal_mode (create_table keep t d) = sq_journal_mode d" "sq_synchronous (create_table keep t d) = sq_synchronous d"
    "sq_fullfsync (create_table keep t d) = sq_fullfsync d" "sq_journal_mode (create_index i d) = sq_journal_mode d"
    "sq_synchronous (create_index i d) = sq_synchronous d" "sq_fullfsync (create_index i d) = sq_fullfsync d" for t i d
    by (simp_all add: create_table_def create_index_def)
  have "sq_journal_mode d' = sq_journal_mode d \<and> sq_synchronous d' = sq_synchronous d \<and> sq_fullfsync d' = sq_fullfsync d"
    if "apply_schema keep d = Inr d'" for d d'
    using that by (auto simp: apply_schema_def Let_def result_simps ensure_pilot_audit_columns_def exec_schema_def schema_tables_def
        ledger_indexes_def create)
  then show ?thesis
    using assms by (cases r) (auto simp: migrate_def transact_Inl transact_Inr result_simps)
qed

lemma sample_migrated: "migrate (\<lambda>s. s) fresh_sqlite = (Inr (), sample_db)" "verify_owner_authorization_schema sample_db = Inr ()"
proof -
  obtain db where db: "apply_schema (\<lambda>s. s) fresh_sqlite = Inr db" using fresh_verified [of "\<lambda>s. s"] by auto
  have "assert_supported_schema_version fresh_sqlite = Inr 0"
    by (simp add: assert_supported_schema_version_def fresh_sqlite_def max_safe_def schema_version_def)
  with db have m: "migrate (\<lambda>s. s) fresh_sqlite = (Inr (), db)"
    by (simp add: migrate_def transact_def schema_version_def)
  then have "sample_db = db" by (simp add: sample_db_def)
  with m db apply_schema_ok show "migrate (\<lambda>s. s) fresh_sqlite = (Inr (), sample_db)" "verify_owner_authorization_schema sample_db = Inr ()"
    by auto
qed

lemma sample_db_fields: "sq_identity sample_db = None" "sq_consumptions sample_db = []" "sq_journal_mode sample_db = js ''delete''"
  "sq_synchronous sample_db = 2" "sq_fullfsync sample_db = 1"
  using migrate_keeps [OF sample_migrated(1)] migrate_keeps_pragmas [OF sample_migrated(1)] by (simp_all add: fresh_sqlite_def)

lemma sample_active_schema: "verify_owner_authorization_schema (sample_active_db\<lparr>sq_consumptions := rs\<rparr>) = Inr ()"
  using sample_migrated(2) verify_schema_cong [of "sample_active_db\<lparr>sq_consumptions := rs\<rparr>" sample_db]
  by (simp add: sample_active_db_def)

lemma hex_length: "list_all is_hex s \<Longrightarrow> sql_length s = length s"
  by (induction s rule: sql_length.induct) (auto simp: is_hex_def is_digit_def is_high_def word_le_nat_alt)

lemma sample_identity_checks: "identity_checks sample_identity"
proof -
  have d: "hex_n 64 (sha256_hex sample_hash (anchor_bytes sample_document))" by (rule sha256_hex_n [OF hash32_sample])
  then have "sql_digest (sha256_hex sample_hash (anchor_bytes sample_document))" using hex_length by (simp add: sql_digest_def hex_n_def)
  moreover have "sql_between 16 128 (js ''replay-store-0001'')" "sql_between 1 4096 sample_db_path" "sql_decimal (js ''1'')"
    "sql_decimal (js ''2'')" "sql_decimal (js ''9'')" "sql_between 1 4096 sample_anchor_path" by code_simp+
  ultimately show ?thesis
    by (simp add: identity_checks_def sample_identity_def make_identity_def sample_file_def sample_anchor_def)
qed

lemma sample_exact: "assert_exact_store_identity sample_identity (js ''replay-store-0001'') sample_file sample_anchor 1000 = Inr ()"
  by (simp add: assert_exact_store_identity_def sample_identity_def make_identity_def sample_anchor_def sample_document_def make_document_def)

lemma sample_activated:
  "activate sample_hash (js ''replay-store-0001'') sample_file sample_anchor_path 1000 (replicate 64 97) sample_db sample_disk =
     (Inr (sample_identity, sample_active_db), sample_active_disk)"
proof -
  have "insert_identity sample_identity sample_db = Inr sample_active_db"
    using sample_identity_checks by (simp add: insert_identity_def sample_db_fields sample_active_db_def)
  moreover have "sq_identity sample_active_db = Some sample_identity" by (simp add: sample_active_db_def)
  ultimately show ?thesis
    using sample_created sample_exact by (simp add: activate_def flip: sample_document_def sample_identity_def)
qed

end
