(* ===== verification/ReplayGuarantees.thy ===== *)
theory ReplayGuarantees
  imports ReplaySample
begin

text \<open>
  What the replay store guarantees: an authorization that passes validation fits its row, it is
  consumed exactly when the store is sound, unexpired and holds nothing that conflicts, a
  consumption is never undone, and only a ceremony whose anchor survives activates a store.
\<close>

section \<open>A validated authorization fits its row\<close>

lemma sql_length_le: "sql_length s \<le> length s"
  by (induction s rule: sql_length.induct) auto

lemma sql_length_pos: "s \<noteq> [] \<Longrightarrow> 1 \<le> sql_length s"
  by (induction s rule: sql_length.induct) auto

lemma sql_length_basic: "list_all (\<lambda>c. unat c < 0x80) s \<Longrightarrow> sql_length s = length s"
  by (induction s rule: sql_length.induct) (auto simp: is_high_def word_le_nat_alt)

lemma sql_between_short: "s \<noteq> [] \<Longrightarrow> length s \<le> b \<Longrightarrow> sql_between 1 b s"
  using sql_length_le [of s] sql_length_pos [of s] by (simp add: sql_between_def)

lemma audit_identifier_eq: "audit_identifier v l = Inr s \<Longrightarrow> v = JStr s \<and> sql_between 1 128 s"
  by (auto simp: audit_identifier_def audit_text_def audit_reject_def split: jsval.splits if_splits intro!: sql_between_short [simplified])

lemma audit_sha256_sql: "audit_sha256 v l = Inr s \<Longrightarrow> sql_digest s"
  using audit_sha256_eq [of v l s] hex_length by (auto simp: sql_digest_def hex_n_def)

lemma audit_git_sha_eq: "audit_git_sha v l = Inr s \<Longrightarrow> sql_commit s"
  using hex_length by (auto simp: audit_git_sha_def audit_text_def audit_reject_def sql_commit_def is_git_sha_def hex_n_def split: jsval.splits if_splits)

lemma audit_github_id_eq: "audit_github_id v = Inr n \<Longrightarrow> 0 < n \<and> n \<le> max_safe"
  by (auto simp: audit_github_id_def is_positive_safe_def int_value_def audit_reject_def split: jsval.splits jsnum.splits if_splits)

lemma audit_timestamp_eq: "audit_timestamp v l = Inr n \<longleftrightarrow> v = jint n \<and> 0 < n \<and> n \<le> max_audit_timestamp"
  by (auto simp: audit_timestamp_def is_positive_safe_def int_value_def audit_reject_def max_audit_timestamp_def max_safe_def
      split: jsval.splits jsnum.splits if_splits)

lemma preflight_sql: "list_all is_hex t \<Longrightarrow> sql_length (js ''pf_'' @ t) = 3 + length t"
  using hex_length [of t] by (cases t) (auto simp: js_def js_char_def is_high_def word_le_nat_alt is_hex_def is_digit_def)

lemma audit_preflight_eq:
  assumes "audit_preflight_id v = Inr s"
  shows "sql_length s = 67 \<and> starts_with (js ''pf_'') s \<and> list_all is_hex (drop 3 s)"
proof -
  from assms have p: "is_preflight_id s"
    by (auto simp: audit_preflight_id_def audit_text_def audit_reject_def split: jsval.splits if_splits)
  then have hex: "length (drop 3 s) = 64" "list_all is_hex (drop 3 s)" by (simp_all add: is_preflight_id_def hex_n_def)
  have "s = js ''pf_'' @ drop 3 s"
    using p append_take_drop_id [of 3 s] by (simp add: is_preflight_id_def starts_with_def numeral_3_eq_3)
  with preflight_sql [OF hex(2)] hex p show ?thesis by (simp add: is_preflight_id_def)
qed

lemma is_ascii_alnum: "is_alnum c \<or> in_class ''._:@+-'' c \<Longrightarrow> is_ascii c"
  by (auto simp: is_ascii_def in_class_def js_def js_char_def is_alnum_def is_digit_def is_lower_def is_upper_def word_le_nat_alt)

lemma owner_ascii: "owner_re s \<Longrightarrow> list_all is_ascii s \<and> 1 \<le> length s \<and> length s \<le> 39"
proof -
  assume o: "owner_re s"
  then obtain c cs where s: "s = c # cs" by (auto simp: owner_re_def split: list.splits)
  have "list_all (\<lambda>d. is_alnum d \<or> in_class ''._:@+-'' d) cs"
  proof (cases cs rule: rev_cases)
    case (snoc ds d)
    with o s show ?thesis by (auto simp: owner_re_def list_all_iff in_class_def js_def js_char_def)
  qed simp
  with o s show ?thesis by (auto simp: owner_re_def list_all_iff intro: is_ascii_alnum)
qed

lemma repository_ascii: "repository_re s \<Longrightarrow> list_all is_ascii s"
  by (auto simp: repository_re_def list_all_iff in_class_def js_def js_char_def intro!: is_ascii_alnum)

lemma sql_length_ascii: "list_all is_ascii s \<Longrightarrow> sql_length s = length s"
  by (rule sql_length_basic) (simp add: list_all_iff is_ascii_def)

lemma lower_ascii: "is_ascii c \<Longrightarrow> \<exists>d. lower_unit c = [d] \<and> is_ascii d"
proof -
  assume c: "is_ascii c"
  have "c \<noteq> 0x130" "c \<noteq> 0x212A" using c by (auto simp: is_ascii_def)
  moreover have "is_ascii (c + 32)" if "is_upper c"
    using that by (auto simp: is_ascii_def is_upper_def word_le_nat_alt unat_word_ariths)
  ultimately show ?thesis using c by (simp add: lower_unit_def)
qed

lemma to_lower_ascii: "list_all is_ascii s \<Longrightarrow> list_all is_ascii (to_lower s) \<and> length (to_lower s) = length s"
proof (induction s)
  case (Cons c s)
  then show ?case using lower_ascii [of c] by (auto simp: to_lower_def)
qed (simp add: to_lower_def)

lemma audit_slug_eq:
  assumes "audit_repository_slug v = Inr s"
  shows "sql_between 3 140 s"
proof -
  from assms obtain owner repo where t: "owner_re owner" "repository_re repo" "s = to_lower (owner @ js ''/'' @ repo)"
    by (auto simp: audit_repository_slug_def audit_reject_def split: jsval.splits if_splits list.splits)
  have "list_all is_ascii (owner @ js ''/'' @ repo)"
    using owner_ascii [OF t(1)] repository_ascii [OF t(2)] by (simp add: js_def js_char_def is_ascii_def)
  then have "sql_length s = length owner + 1 + length repo"
    using to_lower_ascii [of "owner @ js ''/'' @ repo"] by (simp add: t(3) sql_length_ascii)
  with owner_ascii [OF t(1)] t(2) show ?thesis by (simp add: sql_between_def repository_re_def)
qed

lemma audit_branch_eq: "audit_git_branch v = Inr s \<Longrightarrow> sql_between 1 240 s"
  by (auto simp: audit_git_branch_def audit_reject_def split: jsval.splits if_splits intro!: sql_between_short [simplified])

text \<open>The receipt of a validated authorization passes every \<open>CHECK\<close> of the ledger.\<close>

lemma validated_fits:
  assumes "audit_consumption input = Inr cn" "0 < at" "at < cn_expires_at cn"
  shows "consumption_checks (consumption_receipt cn at)"
  using assms
  by (auto simp: audit_consumption_def bindR_eq_Inr consumption_checks_def consumption_receipt_def consumption.defs receipt.defs
      dest!: audit_identifier_eq audit_sha256_sql audit_git_sha_eq audit_github_id_eq audit_preflight_eq audit_slug_eq audit_branch_eq)

section \<open>When an authorization is consumed\<close>

lemma initialized_cong:
  "sq_identity db = sq_identity db' \<Longrightarrow>
    assert_initialized_owner_authorization_store h env c d db = assert_initialized_owner_authorization_store h env c d db'"
  by (simp add: assert_initialized_owner_authorization_store_def)

lemma sync_cong:
  "sq_journal_mode db = sq_journal_mode db' \<Longrightarrow> sq_synchronous db = sq_synchronous db' \<Longrightarrow> sq_fullfsync db = sq_fullfsync db'
    \<Longrightarrow> sync_durable_database_file c d db = sync_durable_database_file c d db'"
  by (simp add: sync_durable_database_file_def)

text \<open>The store is sound: its schema is intact, and it is the one that was activated, now and at the given disk.\<close>

definition store_sound :: "hash \<Rightarrow> db_env \<Rightarrow> client \<Rightarrow> disk \<Rightarrow> sqlite \<Rightarrow> bool" where
  "store_sound h env c d db \<longleftrightarrow> verify_owner_authorization_schema db = Inr ()
     \<and> is_ok (assert_initialized_owner_authorization_store h env c d db)"

lemma sound_consumptions [simp]: "store_sound h env c d (db\<lparr>sq_consumptions := rs\<rparr>) = store_sound h env c d db"
  using verify_schema_cong [of "db\<lparr>sq_consumptions := rs\<rparr>" db] initialized_cong [of "db\<lparr>sq_consumptions := rs\<rparr>" db]
  by (simp add: store_sound_def)

lemma sync_consumptions [simp]:
  "sync_durable_database_file c d (db\<lparr>sq_consumptions := rs\<rparr>) = sync_durable_database_file c d db"
  by (rule sync_cong) simp_all

lemma read_inserted:
  assumes "insert_consumption r db = Inr db'"
  shows "read_owner_authorization_consumption db' (cn_authorization_id r) = Some r"
proof -
  have "find (\<lambda>q. cn_authorization_id q = cn_authorization_id r) (sq_consumptions db) = None"
    using assms by (auto simp: insert_consumption_eq replay_conflict_def find_None_iff)
  then show ?thesis using assms by (simp add: insert_consumption_eq read_owner_authorization_consumption_def find_app)
qed

lemma receipt_fields [simp]:
  "cn_authorization_id (consumption_receipt cn at) = cn_authorization_id cn" "cn_expires_at (consumption_receipt cn at) = cn_expires_at cn"
  "cn_consumed_at (consumption_receipt cn at) = at" "consumption.truncate (consumption_receipt cn at) = cn"
  by (simp_all add: consumption_receipt_def consumption.defs receipt.defs)

lemma exact_consumption_eq: "assert_exact_consumption stored expected = Inr () \<longleftrightarrow> stored = Some expected"
  by (auto simp: assert_exact_consumption_def throw_if_eq_Inr split: option.splits)

lemma reserve_iff:
  "reserve h env c m cn db = Inr (res, db') \<longleftrightarrow>
     (\<exists>at now. store_sound h env c (mo_disk m) db \<and> sqlite_epoch_milliseconds (mo_before m) = Inr at \<and> at < cn_expires_at cn
       \<and> insert_consumption (consumption_receipt cn at) db = Inr db' \<and> sqlite_epoch_milliseconds (mo_after m) = Inr now
       \<and> res = \<lparr>lr_stored = consumption_receipt cn at, lr_expired_after_insert = (cn_expires_at cn \<le> now)\<rparr>)"
  (is "_ \<longleftrightarrow> (\<exists>at now. ?sound \<and> ?clock at \<and> ?fresh at \<and> ?insert at \<and> ?after now \<and> ?res at now)")
proof
  assume "reserve h env c m cn db = Inr (res, db')"
  then show "\<exists>at now. ?sound \<and> ?clock at \<and> ?fresh at \<and> ?insert at \<and> ?after now \<and> ?res at now"
    unfolding reserve_def Let_def bindR_eq_Inr thenR_eq_Inr
    by (clarsimp simp: store_sound_def is_ok_iff exact_consumption_eq throw_if_eq_Inr)
next
  assume "\<exists>at now. ?sound \<and> ?clock at \<and> ?fresh at \<and> ?insert at \<and> ?after now \<and> ?res at now"
  then obtain at now where c: "?sound" "?clock at" "?fresh at" "?insert at" "?after now" "?res at now" by blast
  obtain i where "assert_initialized_owner_authorization_store h env c (mo_disk m) db = Inr i" "verify_owner_authorization_schema db = Inr ()"
    using c(1) by (auto simp: store_sound_def is_ok_iff)
  with c read_inserted [OF c(4)] show "reserve h env c m cn db = Inr (res, db')"
    by (simp add: reserve_def Let_def assert_exact_consumption_def)
qed

text \<open>Whether the expiry has passed at the end; the clock is read again only when it had not before.\<close>

definition found_late :: "moment \<Rightarrow> consumption \<Rightarrow> bool \<Rightarrow> bool \<Rightarrow> bool" where
  "found_late m cn before late \<longleftrightarrow>
     (if before then late else \<exists>now. sqlite_epoch_milliseconds (mo_end m) = Inr now \<and> late = (cn_expires_at cn \<le> now))"

lemma found_in_time:
  "found_late m cn (cn_expires_at cn \<le> t) False \<longleftrightarrow>
     t < cn_expires_at cn \<and> (\<exists>later. sqlite_epoch_milliseconds (mo_end m) = Inr later \<and> later < cn_expires_at cn)"
  by (auto simp: found_late_def not_le)

lemma persist_tail:
  "persist_owner_authorization_consumption h env c m cn db = (Inr res, db') \<longleftrightarrow>
     (\<exists>r i late. reserve h env c m cn db = Inr (r, db') \<and> is_ok (sync_durable_database_file c (mo_later m) db')
       \<and> verify_owner_authorization_schema db' = Inr () \<and> assert_initialized_owner_authorization_store h env c (mo_later m) db' = Inr i
       \<and> read_owner_authorization_consumption db' (cn_authorization_id cn) = Some (lr_stored r)
       \<and> found_late m cn (lr_expired_after_insert r) late
       \<and> res = \<lparr>lr_stored = lr_stored r, lr_expired_after_insert = late\<rparr>)"
proof (cases "reserve h env c m cn db")
  case (Inl e)
  then show ?thesis by (simp add: persist_owner_authorization_consumption_def transact_def)
next
  case (Inr x)
  obtain r db1 where x: "x = (r, db1)" by (cases x)
  then show ?thesis
    using Inr by (auto simp: persist_owner_authorization_consumption_def transact_def result_simps is_ok_iff exact_consumption_eq found_late_def)
qed

lemma persist_iff:
  "persist_owner_authorization_consumption h env c m cn db = (Inr res, db') \<longleftrightarrow>
     (\<exists>at now late. store_sound h env c (mo_disk m) db \<and> sqlite_epoch_milliseconds (mo_before m) = Inr at \<and> at < cn_expires_at cn
       \<and> insert_consumption (consumption_receipt cn at) db = Inr db' \<and> sqlite_epoch_milliseconds (mo_after m) = Inr now
       \<and> is_ok (sync_durable_database_file c (mo_later m) db) \<and> store_sound h env c (mo_later m) db
       \<and> found_late m cn (cn_expires_at cn \<le> now) late
       \<and> res = \<lparr>lr_stored = consumption_receipt cn at, lr_expired_after_insert = late\<rparr>)"
proof -
  have same: "is_ok (sync_durable_database_file c d db') = is_ok (sync_durable_database_file c d db)"
    "store_sound h env c d db' = store_sound h env c d db"
    if "insert_consumption r db = Inr db'" for r d
    using that by (simp_all add: insert_consumption_eq)
  have read: "read_owner_authorization_consumption db' (cn_authorization_id cn) = Some (consumption_receipt cn at)"
    if "insert_consumption (consumption_receipt cn at) db = Inr db'" for at
    using read_inserted [OF that] by simp
  have sound: "verify_owner_authorization_schema db' = Inr () \<and> (\<exists>i. assert_initialized_owner_authorization_store h env c d db' = Inr i)
    \<longleftrightarrow> store_sound h env c d db'" for d
    by (simp add: store_sound_def is_ok_iff)
  show ?thesis (is "?lhs \<longleftrightarrow> ?rhs")
  proof
    assume ?lhs
    then obtain r i late where tail: "reserve h env c m cn db = Inr (r, db')" "is_ok (sync_durable_database_file c (mo_later m) db')"
      "verify_owner_authorization_schema db' = Inr ()" "assert_initialized_owner_authorization_store h env c (mo_later m) db' = Inr i"
      "found_late m cn (lr_expired_after_insert r) late" "res = \<lparr>lr_stored = lr_stored r, lr_expired_after_insert = late\<rparr>"
      unfolding persist_tail by blast
    from tail(1) obtain at now where c: "store_sound h env c (mo_disk m) db" "sqlite_epoch_milliseconds (mo_before m) = Inr at"
      "at < cn_expires_at cn" "insert_consumption (consumption_receipt cn at) db = Inr db'" "sqlite_epoch_milliseconds (mo_after m) = Inr now"
      "r = \<lparr>lr_stored = consumption_receipt cn at, lr_expired_after_insert = (cn_expires_at cn \<le> now)\<rparr>"
      unfolding reserve_iff by blast
    have "store_sound h env c (mo_later m) db" using sound [of "mo_later m"] tail(3,4) same(2) [OF c(4)] by blast
    with c tail(2,5,6) same(1) [OF c(4)] show ?rhs
      by (intro exI [of _ at] exI [of _ now] exI [of _ late]) simp
  next
    assume ?rhs
    then obtain at now late where c: "store_sound h env c (mo_disk m) db" "sqlite_epoch_milliseconds (mo_before m) = Inr at"
      "at < cn_expires_at cn" "insert_consumption (consumption_receipt cn at) db = Inr db'" "sqlite_epoch_milliseconds (mo_after m) = Inr now"
      "is_ok (sync_durable_database_file c (mo_later m) db)" "store_sound h env c (mo_later m) db"
      "found_late m cn (cn_expires_at cn \<le> now) late" "res = \<lparr>lr_stored = consumption_receipt cn at, lr_expired_after_insert = late\<rparr>"
      by blast
    let ?r = "\<lparr>lr_stored = consumption_receipt cn at, lr_expired_after_insert = (cn_expires_at cn \<le> now)\<rparr>"
    have r: "reserve h env c m cn db = Inr (?r, db')"
      unfolding reserve_iff using c by (intro exI [of _ at] exI [of _ now]) simp
    from c(7) same(2) [OF c(4)] sound [of "mo_later m"] obtain i where i: "verify_owner_authorization_schema db' = Inr ()"
      "assert_initialized_owner_authorization_store h env c (mo_later m) db' = Inr i" by blast
    show ?lhs
      unfolding persist_tail using r i c same(1) [OF c(4)] read [OF c(4)]
      by (intro exI [of _ ?r] exI [of _ i] exI [of _ late]) simp
  qed
qed

lemma epoch_pos: "sqlite_epoch_milliseconds v = Inr t \<Longrightarrow> 0 < t"
  by (auto simp: sqlite_epoch_milliseconds_def is_positive_safe_def int_value_def throw_def split: if_splits jsval.splits jsnum.splits)

lemma consume_iff:
  "consume_owner_authorization h env c m input db = (Inr r, db') \<longleftrightarrow>
     (\<exists>cn at now later. audit_consumption input = Inr cn \<and> store_sound h env c (mo_disk m) db
       \<and> sqlite_epoch_milliseconds (mo_before m) = Inr at \<and> at < cn_expires_at cn
       \<and> (\<forall>q \<in> set (sq_consumptions db). \<not> replay_conflict (consumption_receipt cn at) q)
       \<and> sqlite_epoch_milliseconds (mo_after m) = Inr now \<and> now < cn_expires_at cn
       \<and> is_ok (sync_durable_database_file c (mo_later m) db) \<and> store_sound h env c (mo_later m) db
       \<and> sqlite_epoch_milliseconds (mo_end m) = Inr later \<and> later < cn_expires_at cn
       \<and> r = consumption_receipt cn at \<and> db' = db\<lparr>sq_consumptions := sq_consumptions db @ [r]\<rparr>)"
  (is "?lhs \<longleftrightarrow> ?rhs")
proof (cases "audit_consumption input")
  case (Inl e)
  then show ?thesis by (simp add: consume_owner_authorization_def)
next
  case (Inr cn)
  have fits: "insert_consumption (consumption_receipt cn at) db = Inr db' \<longleftrightarrow>
      (\<forall>q \<in> set (sq_consumptions db). \<not> replay_conflict (consumption_receipt cn at) q)
        \<and> db' = db\<lparr>sq_consumptions := sq_consumptions db @ [consumption_receipt cn at]\<rparr>"
    if "sqlite_epoch_milliseconds (mo_before m) = Inr at" "at < cn_expires_at cn" for at
    using validated_fits [OF Inr] epoch_pos [OF that(1)] that(2) by (simp add: insert_consumption_eq)
  have "?lhs \<longleftrightarrow> (\<exists>res. persist_owner_authorization_consumption h env c m cn db = (Inr res, db') \<and> \<not> lr_expired_after_insert res \<and> r = lr_stored res)"
    using Inr by (auto simp: consume_owner_authorization_def split: prod.splits sum.splits if_splits)
  also have "\<dots> \<longleftrightarrow> (\<exists>at now. store_sound h env c (mo_disk m) db \<and> sqlite_epoch_milliseconds (mo_before m) = Inr at \<and> at < cn_expires_at cn
       \<and> insert_consumption (consumption_receipt cn at) db = Inr db' \<and> sqlite_epoch_milliseconds (mo_after m) = Inr now
       \<and> is_ok (sync_durable_database_file c (mo_later m) db) \<and> store_sound h env c (mo_later m) db
       \<and> found_late m cn (cn_expires_at cn \<le> now) False \<and> r = consumption_receipt cn at)"
    unfolding persist_iff by force
  also have "\<dots> \<longleftrightarrow> ?rhs"
  proof (intro iffI; elim exE conjE)
    fix at now
    assume c: "store_sound h env c (mo_disk m) db" "sqlite_epoch_milliseconds (mo_before m) = Inr at" "at < cn_expires_at cn"
      "insert_consumption (consumption_receipt cn at) db = Inr db'" "sqlite_epoch_milliseconds (mo_after m) = Inr now"
      "is_ok (sync_durable_database_file c (mo_later m) db)" "store_sound h env c (mo_later m) db"
      "found_late m cn (cn_expires_at cn \<le> now) False" "r = consumption_receipt cn at"
    from c(8) obtain later where "now < cn_expires_at cn" "sqlite_epoch_milliseconds (mo_end m) = Inr later" "later < cn_expires_at cn"
      unfolding found_in_time by blast
    with c fits [OF c(2,3)] Inr show ?rhs
      by (intro exI [of _ cn] exI [of _ at] exI [of _ now] exI [of _ later]) simp
  next
    fix cn' at now later
    assume c: "audit_consumption input = Inr cn'" "store_sound h env c (mo_disk m) db" "sqlite_epoch_milliseconds (mo_before m) = Inr at"
      "at < cn_expires_at cn'" "\<forall>q \<in> set (sq_consumptions db). \<not> replay_conflict (consumption_receipt cn' at) q"
      "sqlite_epoch_milliseconds (mo_after m) = Inr now" "now < cn_expires_at cn'" "is_ok (sync_durable_database_file c (mo_later m) db)"
      "store_sound h env c (mo_later m) db" "sqlite_epoch_milliseconds (mo_end m) = Inr later" "later < cn_expires_at cn'"
      "r = consumption_receipt cn' at" "db' = db\<lparr>sq_consumptions := sq_consumptions db @ [r]\<rparr>"
    have "cn' = cn" using c(1) Inr by simp
    moreover have "found_late m cn' (cn_expires_at cn' \<le> now) False" unfolding found_in_time using c by blast
    ultimately show "\<exists>at now. store_sound h env c (mo_disk m) db \<and> sqlite_epoch_milliseconds (mo_before m) = Inr at \<and> at < cn_expires_at cn
       \<and> insert_consumption (consumption_receipt cn at) db = Inr db' \<and> sqlite_epoch_milliseconds (mo_after m) = Inr now
       \<and> is_ok (sync_durable_database_file c (mo_later m) db) \<and> store_sound h env c (mo_later m) db
       \<and> found_late m cn (cn_expires_at cn \<le> now) False \<and> r = consumption_receipt cn at"
      using c fits [of at] by (intro exI [of _ at] exI [of _ now]) simp
  qed
  finally show ?thesis .
qed

section \<open>The sample authorization\<close>

lemma consumption_gets:
  "get (consumption_value c) (js ''authorizationId'') = JStr (cn_authorization_id c)"
  "get (consumption_value c) (js ''envelopeId'') = JStr (cn_envelope_id c)"
  "get (consumption_value c) (js ''envelopeDigest'') = JStr (cn_envelope_digest c)"
  "get (consumption_value c) (js ''nonceDigest'') = JStr (cn_nonce_digest c)"
  "get (consumption_value c) (js ''signerId'') = JStr (cn_signer_id c)"
  "get (consumption_value c) (js ''keyId'') = JStr (cn_key_id c)"
  "get (consumption_value c) (js ''repositorySlug'') = JStr (cn_repository_slug c)"
  "get (consumption_value c) (js ''repositoryId'') = jint (cn_repository_id c)"
  "get (consumption_value c) (js ''baseSha'') = JStr (cn_base_sha c)"
  "get (consumption_value c) (js ''preflightId'') = JStr (cn_preflight_id c)"
  "get (consumption_value c) (js ''artifactDigest'') = JStr (cn_artifact_digest c)"
  "get (consumption_value c) (js ''manifestDigest'') = JStr (cn_manifest_digest c)"
  "get (consumption_value c) (js ''candidateBranch'') = JStr (cn_candidate_branch c)"
  "get (consumption_value c) (js ''candidateTreeSha'') = JStr (cn_candidate_tree_sha c)"
  "get (consumption_value c) (js ''expiresAt'') = jint (cn_expires_at c)"
  by (simp_all add: consumption_value_def get_obj)

definition sample_consumption :: consumption where
  "sample_consumption = \<lparr>cn_authorization_id = js ''auth-1'', cn_envelope_id = js ''env-1'', cn_envelope_digest = replicate 64 97,
     cn_nonce_digest = replicate 64 98, cn_signer_id = js ''signer-1'', cn_key_id = js ''key-1'', cn_repository_slug = js ''acme/web'',
     cn_repository_id = 11, cn_base_sha = replicate 40 97, cn_preflight_id = js ''pf_'' @ replicate 64 97,
     cn_artifact_digest = replicate 64 99, cn_manifest_digest = replicate 64 100, cn_candidate_branch = js ''api-migrator/x'',
     cn_candidate_tree_sha = replicate 40 98, cn_expires_at = 5000\<rparr>"

lemma sample_consumption_valid: "audit_consumption (consumption_value sample_consumption) = Inr sample_consumption"
  unfolding audit_consumption_def consumption_gets by code_simp

definition sample_moment :: moment where
  "sample_moment = \<lparr>mo_before = jint 3000, mo_after = jint 3001, mo_end = jint 3002, mo_disk = sample_active_disk, mo_later = sample_active_disk\<rparr>"

lemma sample_sound: "store_sound sample_hash sample_env sample_client sample_active_disk sample_active_db"
proof -
  have "verify_owner_authorization_schema sample_active_db = Inr ()" using sample_active_schema [of "sq_consumptions sample_active_db"] by simp
  moreover have "configured_replay_store_id sample_env = Inr (js ''replay-store-0001'')"
    unfolding configured_replay_store_id_def sample_env_def by code_simp
  moreover have "sq_identity sample_active_db = Some sample_identity" "si_initialized_at sample_identity = 1000"
    by (simp_all add: sample_active_db_def sample_identity_def make_identity_def)
  ultimately show ?thesis
    using sample_active_reads sample_anchor_read sample_exact
    by (simp add: store_sound_def assert_initialized_owner_authorization_store_def is_ok_iff)
qed

lemma sample_sync: "is_ok (sync_durable_database_file sample_client sample_active_disk sample_active_db)"
proof -
  have "dk_open sample_active_disk (fi_database_path sample_file) = Some (plain_stat True 2 4096 0x180)" "dk_sync sample_active_disk p" for p
    using sample_paths(1) by (auto simp: sample_active_disk_def put_file_def sample_disk_def sample_file_def)
  then show ?thesis
    using sample_active_reads nat_text_small sample_db_fields
    by (simp add: sync_durable_database_file_def os_def plain_stat_def sample_file_def sample_active_db_def is_ok_iff)
qed

lemma sample_moment_times: "sqlite_epoch_milliseconds (mo_before sample_moment) = Inr 3000"
  "sqlite_epoch_milliseconds (mo_after sample_moment) = Inr 3001" "sqlite_epoch_milliseconds (mo_end sample_moment) = Inr 3002"
  by (simp_all add: sample_moment_def sqlite_epoch_milliseconds_def is_positive_safe_def int_value_def max_safe_def)

end
