(* ===== verification/ReplayClaims.thy ===== *)
theory ReplayClaims
  imports ReplayGuarantees
begin

text \<open>
  The properties of the durable replay store: when an authorization is consumed, that it is
  consumed once, how a store is activated and what migrations may do to it.
\<close>

section \<open>Consumption\<close>

text \<open>C20: \<open>consumeOwnerAuthorization\<close> returns a receipt exactly when the input validates, the activated store is sound
  before and after the write, the clock is before the expiry at each of its three readings, no stored row shares its
  authorization, envelope, envelope digest or nonce; and then exactly that row is appended.\<close>

theorem consumption_exact:
  "consume_owner_authorization h env c m input db = (Inr r, db') \<longleftrightarrow>
     (\<exists>cn at now later. audit_consumption input = Inr cn \<and> store_sound h env c (mo_disk m) db
       \<and> sqlite_epoch_milliseconds (mo_before m) = Inr at \<and> at < cn_expires_at cn
       \<and> list_all (\<lambda>q. \<not> replay_conflict (consumption_receipt cn at) q) (sq_consumptions db)
       \<and> sqlite_epoch_milliseconds (mo_after m) = Inr now \<and> now < cn_expires_at cn
       \<and> is_ok (sync_durable_database_file c (mo_later m) db) \<and> store_sound h env c (mo_later m) db
       \<and> sqlite_epoch_milliseconds (mo_end m) = Inr later \<and> later < cn_expires_at cn
       \<and> r = consumption_receipt cn at \<and> db' = db\<lparr>sq_consumptions := sq_consumptions db @ [r]\<rparr>)"
  unfolding consume_iff list_all_iff by (rule refl)

lemma sample_consumed_once:
  "consume_owner_authorization sample_hash sample_env sample_client sample_moment (consumption_value sample_consumption) sample_active_db =
     (Inr (consumption_receipt sample_consumption 3000),
      sample_active_db\<lparr>sq_consumptions := [consumption_receipt sample_consumption 3000]\<rparr>)"
proof -
  have disks: "mo_disk sample_moment = sample_active_disk" "mo_later sample_moment = sample_active_disk" by (simp_all add: sample_moment_def)
  have empty: "sq_consumptions sample_active_db = []" using sample_db_fields by (simp add: sample_active_db_def)
  have expiry: "cn_expires_at sample_consumption = 5000" by (simp add: sample_consumption_def)
  show ?thesis
    unfolding consume_iff
    using sample_consumption_valid sample_sound sample_sync sample_moment_times
    by (intro exI [of _ sample_consumption] exI [of _ 3000] exI [of _ 3001] exI [of _ 3002]) (simp add: disks empty expiry)
qed

lemma sample_active_ledger: "ledger_ok sample_active_db"
  using sample_db_fields by (simp add: ledger_ok_def sample_active_db_def)

text \<open>C19: an authorization that was consumed stays in the ledger unchanged through every later operation of any process,
  and no later request that shares its authorization, envelope, envelope digest or nonce is ever consumed.\<close>

theorem replay_protection:
  assumes "ledger_ok db" "consume_owner_authorization h env c m input db = (Inr r, db1)" "db_step\<^sup>*\<^sup>* db1 db2"
  shows "read_owner_authorization_consumption db2 (cn_authorization_id r) = Some r \<and>
    (\<forall>h' env' c' m' input' cn at. audit_consumption input' = Inr cn \<and> replay_conflict (consumption_receipt cn at) r \<longrightarrow>
      consume_owner_authorization h' env' c' m' input' db2 = (Inl consumption_rejected, db2))"
proof -
  from consume_stored [OF assms(1,2)] have stored: "ledger_ok db1" "read_owner_authorization_consumption db1 (cn_authorization_id r) = Some r" by simp_all
  have kept: "read_owner_authorization_consumption db2 (cn_authorization_id r) = Some r"
    by (rule ledger.spent_forever [OF assms(3) stored TrueI])
  moreover have "consume_owner_authorization h' env' c' m' input' db2 = (Inl consumption_rejected, db2)"
    if cn: "audit_consumption input' = Inr cn" "replay_conflict (consumption_receipt cn at) r" for h' env' c' m' input' cn at
  proof -
    have "replay_conflict (consumption_receipt cn t) r" for t
      using cn(2) by (simp add: replay_conflict_def consumption_receipt_def consumption.defs)
    from consume_conflict_rejected [OF kept cn(1) this] show ?thesis by (simp add: prod_eq_iff)
  qed
  ultimately show ?thesis by blast
qed

lemma replay_protection_witness:
  "\<exists>r db1. consume_owner_authorization sample_hash sample_env sample_client sample_moment (consumption_value sample_consumption) sample_active_db = (Inr r, db1)
    \<and> consume_owner_authorization sample_hash sample_env sample_client sample_moment (consumption_value sample_consumption) db1 =
       (Inl consumption_rejected, db1)"
proof -
  have "replay_conflict (consumption_receipt sample_consumption 3000) (consumption_receipt sample_consumption 3000)" by simp
  with replay_protection [OF sample_active_ledger sample_consumed_once rtranclp.rtrancl_refl] sample_consumption_valid
  show ?thesis using sample_consumed_once by blast
qed

text \<open>A consumption that is reported as rejected has either left the database as it was or has stored its receipt; it never
  removes or changes a row.\<close>

theorem rejected_consumption_keeps:
  assumes "consume_owner_authorization h env c m input db = (Inl e, db')"
  shows "db' = db \<or> (\<exists>cn at. audit_consumption input = Inr cn \<and> sqlite_epoch_milliseconds (mo_before m) = Inr at
    \<and> at < cn_expires_at cn \<and> db' = db\<lparr>sq_consumptions := sq_consumptions db @ [consumption_receipt cn at]\<rparr> \<and> e = consumption_rejected)"
  using assms
proof (cases rule: consume_cases)
  case (stored cn at)
  moreover have "e = consumption_rejected"
    using assms stored(1) by (auto simp: consume_owner_authorization_def split: prod.splits sum.splits if_splits)
  ultimately show ?thesis by (auto simp: insert_consumption_eq)
qed simp

text \<open>The expiry passed between the two last readings of the clock.\<close>

definition late_moment :: moment where
  "late_moment = sample_moment\<lparr>mo_end := jint 6000\<rparr>"

lemma rejected_consumption_keeps_witness:
  "\<exists>db'. consume_owner_authorization sample_hash sample_env sample_client late_moment (consumption_value sample_consumption) sample_active_db =
     (Inl consumption_rejected, db') \<and> (\<exists>cn at. db' = sample_active_db\<lparr>sq_consumptions := sq_consumptions sample_active_db @ [consumption_receipt cn at]\<rparr>)"
proof -
  let ?r = "consumption_receipt sample_consumption 3000"
  let ?db = "sample_active_db\<lparr>sq_consumptions := [?r]\<rparr>"
  have fields: "mo_disk late_moment = sample_active_disk" "mo_later late_moment = sample_active_disk"
    "mo_before late_moment = mo_before sample_moment" "mo_after late_moment = mo_after sample_moment"
    "sqlite_epoch_milliseconds (mo_end late_moment) = Inr 6000"
    by (simp_all add: late_moment_def sample_moment_def sqlite_epoch_milliseconds_def is_positive_safe_def int_value_def max_safe_def)
  have empty: "sq_consumptions sample_active_db = []" using sample_db_fields by (simp add: sample_active_db_def)
  have expiry: "cn_expires_at sample_consumption = 5000" by (simp add: sample_consumption_def)
  have "insert_consumption ?r sample_active_db = Inr ?db"
    using validated_fits [OF sample_consumption_valid, of 3000] by (simp add: insert_consumption_def empty expiry)
  then have "persist_owner_authorization_consumption sample_hash sample_env sample_client late_moment sample_consumption sample_active_db =
      (Inr \<lparr>lr_stored = ?r, lr_expired_after_insert = True\<rparr>, ?db)"
    unfolding persist_iff using sample_sound sample_sync sample_moment_times
    by (intro exI [of _ 3000] exI [of _ 3001] exI [of _ True]) (simp add: fields expiry found_late_def)
  then have run: "consume_owner_authorization sample_hash sample_env sample_client late_moment (consumption_value sample_consumption) sample_active_db =
      (Inl consumption_rejected, ?db)"
    using sample_consumption_valid by (simp add: consume_owner_authorization_def)
  have "sq_consumptions ?db \<noteq> sq_consumptions sample_active_db" using empty by simp
  then have "?db \<noteq> sample_active_db" by metis
  with rejected_consumption_keeps [OF run] run show ?thesis by metis
qed

section \<open>Activation\<close>

lemma read_anchor_path: "read_durable_replay_anchor h d path = Inr a \<Longrightarrow> an_path a = path"
  by (auto simp: read_durable_replay_anchor_def result_simps split: option.splits)

lemma ceremony_stores:
  "ceremony h env c now nonce store_id db d = (Inr (s, db'), d') \<Longrightarrow> sq_identity db' = Some s"
  by (auto simp: ceremony_def activate_def insert_identity_def result_simps split: sum.splits option.splits prod.splits if_splits)

text \<open>When the one-time ceremony succeeds, the database holds the identity it returns, every later use on the resulting disk
  finds the store initialized with exactly this identity, the ledger is untouched, and an identity that was already stored is
  returned unchanged.\<close>

theorem activation_pins_store:
  assumes "initialize_owner_authorization_store h env c now nonce later db d = (Inr i, db', d')"
  shows "sq_identity db' = Some i \<and> assert_initialized_owner_authorization_store h env c d' db' = Inr i
    \<and> sq_consumptions db' = sq_consumptions db \<and> (sq_identity db \<noteq> None \<longrightarrow> sq_identity db = Some i \<and> db' = db)"
proof -
  from assms obtain store_id d1 where run: "configured_replay_store_id env = Inr store_id"
    "ceremony h env c now nonce store_id db d = (Inr (i, db'), d1)" "d' = later d1"
    by (auto simp: initialize_owner_authorization_store_def Let_def result_simps split: sum.splits prod.splits)
  with assms obtain fi path anchor where tail: "sync_durable_database_file c d' db' = Inr fi"
    "configured_replay_anchor_path env d' fi = Inr path" "read_durable_replay_anchor h d' path = Inr anchor"
    "assert_exact_store_identity i store_id fi anchor (si_initialized_at i) = Inr ()"
    by (auto simp: initialize_owner_authorization_store_def Let_def result_simps)
  have "assert_stable_open_file_identity c d' = Inr fi"
    using tail(1) by (auto simp: sync_durable_database_file_def result_simps)
  moreover have stored: "sq_identity db' = Some i" by (rule ceremony_stores [OF run(2)])
  ultimately have "assert_initialized_owner_authorization_store h env c d' db' = Inr i"
    using run(1) tail by (simp add: assert_initialized_owner_authorization_store_def)
  with stored ceremony_keeps [OF run(2)] show ?thesis by simp
qed

lemma sample_initialized:
  "initialize_owner_authorization_store sample_hash sample_env sample_client (jint 1000) (replicate 64 97) (\<lambda>d. d) sample_db sample_disk =
     (Inr sample_identity, sample_active_db, sample_active_disk)"
proof -
  have store: "configured_replay_store_id sample_env = Inr (js ''replay-store-0001'')"
    unfolding configured_replay_store_id_def sample_env_def by code_simp
  have "sqlite_epoch_milliseconds (jint 1000) = Inr 1000"
    by (simp add: sqlite_epoch_milliseconds_def is_positive_safe_def int_value_def max_safe_def)
  then have ceremony: "ceremony sample_hash sample_env sample_client (jint 1000) (replicate 64 97) (js ''replay-store-0001'') sample_db sample_disk =
      (Inr (sample_identity, sample_active_db), sample_active_disk)"
    using sample_reads sample_migrated(2) sample_db_fields(1) sample_activated by (simp add: ceremony_def)
  obtain f where "sync_durable_database_file sample_client sample_active_disk sample_active_db = Inr f" using sample_sync by (auto simp: is_ok_iff)
  moreover have "f = sample_file"
    using calculation sample_active_reads by (auto simp: sync_durable_database_file_def result_simps)
  moreover have "si_initialized_at sample_identity = 1000" by (simp add: sample_identity_def make_identity_def)
  ultimately show ?thesis
    using store ceremony sample_active_reads sample_anchor_read sample_exact by (simp add: initialize_owner_authorization_store_def)
qed

lemma activation_pins_store_witness:
  "sq_identity sample_active_db = Some sample_identity \<and>
    assert_initialized_owner_authorization_store sample_hash sample_env sample_client sample_active_disk sample_active_db = Inr sample_identity"
  using activation_pins_store [OF sample_initialized] by blast

text \<open>An anchor file that survives without its identity row, after a failed ceremony or a replaced database, blocks
  activation for good: the ceremony fails and changes neither the database nor the disk.\<close>

theorem orphan_anchor_blocks:
  assumes "sq_identity db = None" "assert_stable_open_file_identity c d = Inr file"
    and "configured_replay_anchor_path env d file = Inr path" "dk_lstat d path \<noteq> None"
  shows "\<exists>e. initialize_owner_authorization_store h env c now nonce later db d = (Inl e, db, d)"
proof -
  have blocked: "\<exists>e. ceremony h env c now nonce store_id db d = (Inl e, d)" for store_id
  proof (cases "verify_owner_authorization_schema db")
    case (Inr u)
    have fails: "\<exists>e. activate h store_id file path at nonce db d = (Inl e, d)" for at
      using create_anchor_present [OF assms(4), of h "make_document store_id file at nonce"] by (auto simp: activate_def)
    show ?thesis
    proof (cases "sqlite_epoch_milliseconds now")
      case (Inr at)
      with fails [of at] assms \<open>verify_owner_authorization_schema db = Inr u\<close> show ?thesis by (simp add: ceremony_def)
    qed (use assms Inr in \<open>simp add: ceremony_def\<close>)
  qed (simp add: ceremony_def)
  show ?thesis
  proof (cases "configured_replay_store_id env")
    case (Inr store_id)
    then show ?thesis using blocked [of store_id] by (auto simp: initialize_owner_authorization_store_def)
  qed (simp add: initialize_owner_authorization_store_def)
qed

lemma orphan_anchor_blocks_witness:
  "\<exists>e. initialize_owner_authorization_store sample_hash sample_env sample_client (jint 1000) (replicate 64 97) (\<lambda>d. d) sample_db sample_active_disk =
     (Inl e, sample_db, sample_active_disk)"
proof -
  have "dk_lstat sample_active_disk sample_anchor_path \<noteq> None" by (simp add: sample_active_disk_def put_file_def)
  from orphan_anchor_blocks [OF sample_db_fields(1) sample_active_reads this] show ?thesis .
qed

text \<open>The anchor that the ceremony creates, read back from the disk as JSON, is the document it was made from, with the
  digest of its bytes and the identity of its file.\<close>

theorem anchor_roundtrip:
  assumes "anchor_document_ok a" "dk_lstat d path = None" "dk_create d path (anchor_bytes a) = Some (anchor_bytes a, stats, True)"
    and "bg_size stats = length (anchor_bytes a)" "length (anchor_bytes a) \<le> max_replay_anchor_bytes"
    and "assert_secure_replay_anchor_file d stats = Inr ()" "dk_sync d (dir_name path)"
  shows "\<exists>d' r. create_durable_replay_anchor h path a d = (Inr r, d') \<and> read_durable_replay_anchor h d' path = Inr r
    \<and> an_document r = a \<and> an_digest r = sha256_hex h (anchor_bytes a) \<and> an_device r = nat_text (bg_dev stats)"
proof -
  have "anchor_bytes a \<noteq> []" by (simp add: anchor_bytes_def anchor_json_def)
  moreover have "dk_sync (put_file path (anchor_bytes a) stats d) = dk_sync d" by (simp add: put_file_def)
  ultimately show ?thesis
    using assms read_put_anchor [OF assms(1,4,5,6), of h path]
    by (simp add: create_durable_replay_anchor_def Let_def)
qed

lemma anchor_roundtrip_witness:
  "\<exists>r d'. create_durable_replay_anchor sample_hash sample_anchor_path sample_document sample_disk = (Inr r, d') \<and> an_document r = sample_document"
proof -
  have "dk_lstat sample_disk sample_anchor_path = None" "dk_create sample_disk sample_anchor_path (anchor_bytes sample_document) = Some (anchor_bytes sample_document, sample_stats, True)"
    "dk_sync sample_disk (dir_name sample_anchor_path)" "bg_size sample_stats = length (anchor_bytes sample_document)"
    by (simp_all add: sample_disk_def sample_stats_def plain_stat_def)
  from anchor_roundtrip [OF sample_document_ok this(1,2,4) sample_document_size(2) sample_stats_secure this(3)]
  show ?thesis by blast
qed

section \<open>Migration\<close>

text \<open>\<open>migrate\<close> keeps the replay ledger and the store identity; it succeeds only from a supported version, from the current one
  only when the ledger's schema verifies, and leaves the current version with a verified schema; a database it rejects, one of
  a newer version among them, is left as it was.\<close>

theorem migrate_guarded:
  assumes "migrate keep db = (r, db')"
  shows "sq_consumptions db' = sq_consumptions db \<and> sq_identity db' = sq_identity db \<and>
    (case r of
       Inl e \<Rightarrow> db' = db
     | Inr u \<Rightarrow> 0 \<le> sq_version db \<and> sq_version db \<le> schema_version
         \<and> (sq_version db = schema_version \<longrightarrow> verify_owner_authorization_schema db = Inr ())
         \<and> sq_version db' = schema_version \<and> verify_owner_authorization_schema db' = Inr ())"
proof (cases r)
  case (Inl e)
  with assms migrate_keeps [OF assms] show ?thesis by (simp add: migrate_def transact_Inl)
next
  case (Inr u)
  from assms obtain current where m: "assert_supported_schema_version db = Inr current"
    "(if current = schema_version then verify_owner_authorization_schema db else Inr ()) = Inr ()" "apply_schema keep db = Inr db'"
    by (auto simp: Inr migrate_def transact_Inr bindR_eq_Inr thenR_eq_Inr)
  from m(1) have "current = sq_version db \<and> 0 \<le> sq_version db \<and> sq_version db \<le> schema_version"
    by (auto simp: assert_supported_schema_version_def throw_def split: if_splits)
  with m(2) apply_schema_ok [OF m(3)] migrate_keeps [OF assms] Inr show ?thesis by auto
qed

lemma migrate_guarded_witness:
  "sq_version sample_db = 5 \<and> verify_owner_authorization_schema sample_db = Inr ()"
  using migrate_guarded [OF sample_migrated(1)] by (simp add: schema_version_def)

text \<open>A fresh database migrates: whatever SQLite stores of a statement, as long as the comparison sees no difference,
  the new schema verifies at the current version.\<close>

theorem fresh_database_migrates:
  assumes "\<And>s. normalize_schema_sql (keep s) = normalize_schema_sql s"
  shows "\<exists>db. migrate keep fresh_sqlite = (Inr (), db) \<and> verify_owner_authorization_schema db = Inr () \<and> sq_version db = schema_version"
proof -
  obtain db where db: "apply_schema keep fresh_sqlite = Inr db" using fresh_verified [OF assms] by blast
  have "assert_supported_schema_version fresh_sqlite = Inr 0"
    by (simp add: assert_supported_schema_version_def fresh_sqlite_def max_safe_def schema_version_def)
  with db have "migrate keep fresh_sqlite = (Inr (), db)" by (simp add: migrate_def transact_def schema_version_def)
  with apply_schema_ok [OF db] show ?thesis by blast
qed

lemma fresh_database_migrates_witness: "\<exists>db. migrate (\<lambda>s. s) fresh_sqlite = (Inr (), db) \<and> sq_version db = 5"
  using fresh_database_migrates [of "\<lambda>s. s"] by (auto simp: schema_version_def)

end
