(* ===== verification/CampaignFacts.thy ===== *)
theory CampaignFacts
  imports ReplayLedger
begin

text \<open>
  The campaign tables: what their statements declare, and that each operation keeps their keys and references because of it.
\<close>

section \<open>Declared tables\<close>

definition declared_ok :: "sqlite \<Rightarrow> bool" where
  "declared_ok db \<longleftrightarrow> set (sq_declared db) \<subseteq> set schema_tables \<and> fst ` set (sq_tables db) \<subseteq> fst ` set (sq_declared db)"

lemma schema_names: "distinct (map fst schema_tables)"
  by (simp add: schema_tables_def)

lemma declared_statement:
  assumes "declared_ok db" "table_exists db table = Inr ()" "(js table, sql) \<in> set schema_tables"
  shows "declares db table column clause = column_clause sql column clause"
proof -
  have "js table \<in> fst ` set (sq_tables db)" using assms(2)
    by (auto simp: table_exists_def has_table_def throw_if_eq_Inr map_of_eq_None_iff simp del: js_eq_iff)
  then have "map_of (sq_declared db) (js table) \<noteq> None" using assms(1) by (auto simp: declared_ok_def map_of_eq_None_iff)
  then obtain s where s: "map_of (sq_declared db) (js table) = Some s" by blast
  then have "(js table, s) \<in> set schema_tables" using assms(1) by (auto simp: declared_ok_def dest: map_of_SomeD)
  with assms(3) have "s = sql" using schema_names by (auto dest: eq_key_imp_eq_value)
  with s show ?thesis by (simp add: declares_def)
qed

lemma schema_members: "(js ''providers'', providers_table_sql) \<in> set schema_tables" "(js ''campaigns'', campaigns_table_sql) \<in> set schema_tables"
  "(js ''repos'', repos_table_sql) \<in> set schema_tables" "(js ''migration_runs'', migration_runs_table_sql) \<in> set schema_tables"
  by (simp_all add: schema_tables_def)

text \<open>A statement that is given line by line is read line by line, in its characters.\<close>

fun text_has :: "string \<Rightarrow> string \<Rightarrow> bool" where
  "text_has p [] \<longleftrightarrow> p = []"
| "text_has p (c # s) \<longleftrightarrow> take (length p) (c # s) = p \<or> text_has p s"

definition line_clause :: "string list \<Rightarrow> string \<Rightarrow> string \<Rightarrow> bool" where
  "line_clause ls column clause \<longleftrightarrow> list_ex (\<lambda>l. take (Suc (length column)) (dropWhile (\<lambda>c. c = CHR '' '') l) = column @ '' '' \<and> text_has clause l) ls"

lemma take_js: "take n (js s) = js (take n s)"
  by (simp add: js_def take_map)

lemma has_sub_js: "has_sub (js p) (js s) = text_has p s"
proof (induction s)
  case (Cons c s)
  have "has_sub (js p) (js (c # s)) \<longleftrightarrow> starts_with (js p) (js (c # s)) \<or> has_sub (js p) (js s)" unfolding js_Cons by simp
  with Cons show ?case by (simp only: starts_with_def take_js length_js js_eq_iff text_has.simps)
qed simp

lemma js_char_space: "js_char c = 32 \<longleftrightarrow> c = CHR '' ''" "js_char c = 10 \<longleftrightarrow> c = CHR 0x0A"
proof -
  have "js_char (CHR '' '') = 32" "js_char (CHR 0x0A) = 10" by code_simp+
  then show "js_char c = 32 \<longleftrightarrow> c = CHR '' ''" "js_char c = 10 \<longleftrightarrow> c = CHR 0x0A" using js_eq_iff [of "[c]"] by (metis js_Cons js_Nil list.inject)+
qed

lemma split_lines: "ls \<noteq> [] \<Longrightarrow> list_all (\<lambda>l. list_all (\<lambda>c. c \<noteq> CHR 0x0A) l) ls \<Longrightarrow> split_on 10 (join [10] (map js ls)) = map js ls"
proof (induction ls)
  case (Cons l ls)
  have "list_all (\<lambda>c. js_char c \<noteq> 10) l" using Cons.prems(2) unfolding js_char_space by simp
  then have "10 \<notin> set (js l)" unfolding js_def list_all_iff set_map by (metis imageE)
  with Cons show ?case by (cases ls) (simp_all add: split_on_absent split_on_append)
qed simp

lemma column_clause_lines:
  assumes "list_all (\<lambda>l. list_all (\<lambda>c. c \<noteq> CHR 0x0A) l) ls" "ls \<noteq> []"
  shows "column_clause (sql_lines ls) column clause = line_clause ls column clause"
proof -
  have drop: "dropWhile (\<lambda>c. c = 32) (js l) = js (dropWhile (\<lambda>c. c = CHR '' '') l)" for l by (induction l) (simp_all add: js_Cons js_char_space)
  have "js column @ [32] = js (column @ '' '')" by (simp add: js_append js_Cons js_char_space)
  then have "starts_with (js column @ [32]) (js l) \<longleftrightarrow> take (Suc (length column)) l = column @ '' ''" for l
    by (simp add: starts_with_def take_js)
  then show ?thesis unfolding column_clause_def line_clause_def sql_lines_def split_lines [OF assms(2,1)]
    by (simp add: list_ex_iff drop has_sub_js)
qed

text \<open>The clauses of \<open>SCHEMA_SQL\<close> on which the keys and references rest.\<close>

lemma schema_clauses:
  "column_clause providers_table_sql ''id'' ''PRIMARY KEY''" "column_clause campaigns_table_sql ''id'' ''PRIMARY KEY''"
  "column_clause repos_table_sql ''id'' ''PRIMARY KEY''" "column_clause migration_runs_table_sql ''id'' ''PRIMARY KEY''"
  "column_clause campaigns_table_sql ''provider_id'' ''REFERENCES providers(id)''"
  "column_clause migration_runs_table_sql ''campaign_id'' ''REFERENCES campaigns(id)''"
  "column_clause migration_runs_table_sql ''repo_id'' ''REFERENCES repos(id)''"
  "column_clause providers_table_sql ''slug'' ''UNIQUE''" "column_clause repos_table_sql ''slug'' ''UNIQUE''"
  unfolding providers_table_sql_def campaigns_table_sql_def repos_table_sql_def migration_runs_table_sql_def
  by (subst column_clause_lines, code_simp, simp, code_simp)+

section \<open>Keys and references\<close>

definition runs_ok :: "sqlite \<Rightarrow> bool" where
  "runs_ok db \<longleftrightarrow> (\<forall>r \<in> set (sq_runs db). rn_campaign_id r \<in> set (map cp_id (sq_campaigns db))
     \<and> rn_repo_id r \<in> set (map rp_id (sq_repos db)) \<and> (rn_finished_at r \<noteq> None \<longleftrightarrow> terminal (rn_status r)))"

definition campaign_ok :: "sqlite \<Rightarrow> bool" where
  "campaign_ok db \<longleftrightarrow> distinct (map pr_slug (sq_providers db)) \<and> distinct (map pr_id (sq_providers db))
     \<and> distinct (map rp_slug (sq_repos db)) \<and> distinct (map rp_id (sq_repos db))
     \<and> distinct (map cp_id (sq_campaigns db)) \<and> distinct (map rn_id (sq_runs db))
     \<and> (\<forall>c \<in> set (sq_campaigns db). cp_provider_id c \<in> set (map pr_id (sq_providers db))) \<and> runs_ok db"

lemma map_if_same: "(\<And>x. P x \<Longrightarrow> f (g x) = f x) \<Longrightarrow> map f (map (\<lambda>x. if P x then g x else x) xs) = map f xs"
  by (induction xs) auto

lemma campaign_ok_cong:
  assumes "map pr_slug (sq_providers db') = map pr_slug (sq_providers db)" "map pr_id (sq_providers db') = map pr_id (sq_providers db)"
    and "map rp_slug (sq_repos db') = map rp_slug (sq_repos db)" "map rp_id (sq_repos db') = map rp_id (sq_repos db)"
    and "sq_campaigns db' = sq_campaigns db" "map rn_id (sq_runs db') = map rn_id (sq_runs db)" "runs_ok db'" "campaign_ok db"
  shows "campaign_ok db'"
  using assms(7,8) unfolding campaign_ok_def assms(1-6) by blast

lemma runs_ok_cong:
  assumes "map rp_id (sq_repos db') = map rp_id (sq_repos db)" "sq_campaigns db' = sq_campaigns db" "sq_runs db' = sq_runs db"
  shows "runs_ok db' = runs_ok db"
  unfolding runs_ok_def assms by blast

lemma table_existing: "table_exists db table = Inr () \<longleftrightarrow> has_table db (js table)"
  by (simp add: table_exists_def throw_if_eq_Inr)

lemmas enforced = checked_def unique_key_def reference_def constraint_def unique_column_def throw_if_eq_Inr

lemma create_provider_ok:
  assumes "create_provider uuid now name slug db = Inr (row, db')" "campaign_ok db" "declared_ok db"
  shows "campaign_ok db'"
proof -
  from assms(1) have table: "table_exists db ''providers'' = Inr ()" by (auto simp: create_provider_def thenR_eq_Inr)
  note clause = declared_statement [OF assms(3) table schema_members(1)]
  show ?thesis
  proof (cases "list_ex (\<lambda>p. pr_slug p = slug) (sq_providers db)")
    case True
    let ?ps = "map (\<lambda>p. if pr_slug p = slug then p\<lparr>pr_name := name\<rparr> else p) (sq_providers db)"
    have same: "map pr_slug ?ps = map pr_slug (sq_providers db)" "map pr_id ?ps = map pr_id (sq_providers db)"
      by (auto intro!: map_if_same simp del: map_map)
    from True assms(1) have db': "db' = db\<lparr>sq_providers := ?ps\<rparr>" by (auto simp: create_provider_def result_simps)
    have "runs_ok db'" using assms(2) same runs_ok_cong [of db' db] by (simp add: db' campaign_ok_def del: map_map)
    then show ?thesis
      using same by (intro campaign_ok_cong [OF _ _ _ _ _ _ _ assms(2)]) (simp_all add: db' del: map_map)
  next
    case False
    with assms(1) have "unique_key db ''providers'' ''id'' (\<not> list_ex (\<lambda>p. pr_id p = uuid) (sq_providers db)) = Inr ()"
      and db': "db' = db\<lparr>sq_providers := sq_providers db @ [\<lparr>pr_id = uuid, pr_name = name, pr_slug = slug, pr_created_at = now\<rparr>]\<rparr>"
      by (auto simp: create_provider_def thenR_eq_Inr bindR_eq_Inr)
    then have "\<not> list_ex (\<lambda>p. pr_id p = uuid) (sq_providers db)" using clause schema_clauses(1) by (simp add: enforced)
    with False assms(2) show ?thesis by (auto simp: db' campaign_ok_def runs_ok_def list_ex_iff)
  qed
qed

lemma create_campaign_ok:
  assumes "create_campaign c uuid now provider_id name manifest status db = Inr (row, db')" "campaign_ok db" "declared_ok db" "cl_foreign_keys c"
  shows "campaign_ok db'"
proof -
  from assms(1) have table: "table_exists db ''campaigns'' = Inr ()" by (auto simp: create_campaign_def thenR_eq_Inr)
  note clause = declared_statement [OF assms(3) table schema_members(2)]
  from assms(1) have keys: "unique_key db ''campaigns'' ''id'' (\<not> list_ex (\<lambda>q. cp_id q = uuid) (sq_campaigns db)) = Inr ()"
    "reference c db ''campaigns'' ''provider_id'' ''REFERENCES providers(id)'' (list_ex (\<lambda>p. pr_id p = provider_id) (sq_providers db)) = Inr ()"
    and db': "db' = db\<lparr>sq_campaigns := sq_campaigns db @ [\<lparr>cp_id = uuid, cp_provider_id = provider_id, cp_name = name, cp_manifest = manifest,
         cp_status = (case status of None \<Rightarrow> Draft | Some s \<Rightarrow> s), cp_created_at = now\<rparr>]\<rparr>"
    by (auto simp: create_campaign_def thenR_eq_Inr Let_def)
  have "\<not> list_ex (\<lambda>q. cp_id q = uuid) (sq_campaigns db)" "list_ex (\<lambda>p. pr_id p = provider_id) (sq_providers db)"
    using keys clause schema_clauses(2,5) assms(4) by (simp_all add: enforced)
  with assms(2) show ?thesis by (auto simp: db' campaign_ok_def runs_ok_def list_ex_iff)
qed

lemma upsert_repo_ok:
  assumes "upsert_repo uuid now slug branch inst db = Inr (row, db')" "campaign_ok db" "declared_ok db"
  shows "campaign_ok db'"
proof -
  from assms(1) have table: "table_exists db ''repos'' = Inr ()" by (auto simp: upsert_repo_def thenR_eq_Inr)
  note clause = declared_statement [OF assms(3) table schema_members(3)]
  show ?thesis
  proof (cases "list_ex (\<lambda>r. rp_slug r = slug) (sq_repos db)")
    case True
    let ?rs = "map (\<lambda>r. if rp_slug r = slug
       then r\<lparr>rp_default_branch := (if branch = None then rp_default_branch r else branch),
              rp_installation_id := (if inst = None then rp_installation_id r else inst)\<rparr> else r) (sq_repos db)"
    have same: "map rp_slug ?rs = map rp_slug (sq_repos db)" "map rp_id ?rs = map rp_id (sq_repos db)"
      by (auto intro!: map_if_same simp del: map_map)
    from True assms(1) have db': "db' = db\<lparr>sq_repos := ?rs\<rparr>" by (auto simp: upsert_repo_def result_simps)
    have "runs_ok db'" using assms(2) same runs_ok_cong [of db' db] by (simp add: db' campaign_ok_def del: map_map)
    then show ?thesis
      using same by (intro campaign_ok_cong [OF _ _ _ _ _ _ _ assms(2)]) (simp_all add: db' del: map_map)
  next
    case False
    with assms(1) have "unique_key db ''repos'' ''id'' (\<not> list_ex (\<lambda>r. rp_id r = uuid) (sq_repos db)) = Inr ()"
      and db': "db' = db\<lparr>sq_repos := sq_repos db @ [\<lparr>rp_id = uuid, rp_slug = slug, rp_default_branch = branch, rp_installation_id = inst, rp_created_at = now\<rparr>]\<rparr>"
      by (auto simp: upsert_repo_def thenR_eq_Inr bindR_eq_Inr)
    then have "\<not> list_ex (\<lambda>r. rp_id r = uuid) (sq_repos db)" using clause schema_clauses(3) by (simp add: enforced)
    with False assms(2) show ?thesis by (auto simp: db' campaign_ok_def runs_ok_def list_ex_iff)
  qed
qed

lemma create_run_ok:
  assumes "create_run c uuid now campaign repo branch db = Inr (row, db')" "campaign_ok db" "declared_ok db" "cl_foreign_keys c"
  shows "campaign_ok db'"
proof -
  from assms(1) have table: "table_exists db ''migration_runs'' = Inr ()" by (auto simp: create_run_def thenR_eq_Inr)
  note clause = declared_statement [OF assms(3) table schema_members(4)]
  from assms(1) obtain r where keys: "unique_key db ''migration_runs'' ''id'' (\<not> list_ex (\<lambda>r. rn_id r = uuid) (sq_runs db)) = Inr ()"
    "reference c db ''migration_runs'' ''campaign_id'' ''REFERENCES campaigns(id)'' (list_ex (\<lambda>q. cp_id q = campaign) (sq_campaigns db)) = Inr ()"
    "reference c db ''migration_runs'' ''repo_id'' ''REFERENCES repos(id)'' (list_ex (\<lambda>r. rp_id r = repo) (sq_repos db)) = Inr ()"
    and db': "db' = db\<lparr>sq_runs := sq_runs db @ [r]\<rparr>" "rn_id r = uuid" "rn_campaign_id r = campaign" "rn_repo_id r = repo" "rn_status r = Queued" "rn_finished_at r = None"
    by (fastforce simp: create_run_def thenR_eq_Inr Let_def)
  have "\<not> list_ex (\<lambda>r. rn_id r = uuid) (sq_runs db)" "list_ex (\<lambda>q. cp_id q = campaign) (sq_campaigns db)" "list_ex (\<lambda>r. rp_id r = repo) (sq_repos db)"
    using keys clause schema_clauses(4,6,7) assms(4) by (simp_all add: enforced)
  then have "uuid \<notin> set (map rn_id (sq_runs db))" "campaign \<in> set (map cp_id (sq_campaigns db))" "repo \<in> set (map rp_id (sq_repos db))"
    by (auto simp: list_ex_iff)
  with assms(2) db'(2-) show ?thesis by (simp add: db'(1) campaign_ok_def runs_ok_def terminal_def)
qed

lemma update_run_ok:
  assumes "update_run redact now i p db = Inr (row, db')" "campaign_ok db"
  shows "campaign_ok db'"
  using assms(1)
proof (rule update_run_Inr)
  fix f
  assume db': "db' = db\<lparr>sq_runs := map (\<lambda>r. if rn_id r = i then f r else r) (sq_runs db)\<rparr>" and f: "\<And>r. rn_id (f r) = rn_id r
    \<and> rn_campaign_id (f r) = rn_campaign_id r \<and> rn_repo_id (f r) = rn_repo_id r \<and> rn_started_at (f r) = rn_started_at r
    \<and> rn_status (f r) = rt_status p \<and> rn_finished_at (f r) = (if terminal (rt_status p) then Some now else None)"
  have ids: "map rn_id (map (\<lambda>r. if rn_id r = i then f r else r) (sq_runs db)) = map rn_id (sq_runs db)"
    by (rule map_if_same) (simp add: f)
  have "runs_ok db'"
    unfolding runs_ok_def
  proof
    fix r assume "r \<in> set (sq_runs db')"
    then obtain q where "q \<in> set (sq_runs db)" "r = (if rn_id q = i then f q else q)" by (auto simp: db')
    with assms(2) show "rn_campaign_id r \<in> set (map cp_id (sq_campaigns db')) \<and> rn_repo_id r \<in> set (map rp_id (sq_repos db'))
        \<and> (rn_finished_at r \<noteq> None \<longleftrightarrow> terminal (rn_status r))"
      by (simp add: campaign_ok_def runs_ok_def db' f)
  qed
  with ids show ?thesis
    by (intro campaign_ok_cong [OF _ _ _ _ _ _ _ assms(2)]) (simp_all add: db' del: map_map)
qed

end
