(* ===== verification/CampaignClaims.thy ===== *)
theory CampaignClaims
  imports ReplayGuarantees CampaignFacts
begin

text \<open>
  The campaign tables: every sequence of database operations keeps their keys and references,
  and the rollup of a campaign counts its runs.
\<close>

section \<open>The invariant\<close>

definition campaign_view :: "sqlite \<Rightarrow> provider_row list \<times> campaign_row list \<times> repo_row list \<times> run_row list" where
  "campaign_view db = (sq_providers db, sq_campaigns db, sq_repos db, sq_runs db)"

lemma campaign_view_ok: "campaign_view db' = campaign_view db \<Longrightarrow> campaign_ok db' = campaign_ok db"
  by (simp add: campaign_view_def campaign_ok_def runs_ok_def)

lemma schema_view [simp]:
  "campaign_view (create_table keep t db) = campaign_view db" "campaign_view (create_index i db) = campaign_view db"
  "campaign_view (ensure_pilot_audit_columns db) = campaign_view db" "campaign_view (db\<lparr>sq_version := v\<rparr>) = campaign_view db"
  by (simp_all add: campaign_view_def create_table_def create_index_def ensure_pilot_audit_columns_def)

lemma fold_view: "(\<And>x d. campaign_view (f x d) = campaign_view d) \<Longrightarrow> campaign_view (fold f xs db) = campaign_view db"
  by (induction xs arbitrary: db) simp_all

lemma apply_schema_view: "apply_schema keep db = Inr db' \<Longrightarrow> campaign_view db' = campaign_view db"
  by (auto simp: apply_schema_def Let_def result_simps exec_schema_def fold_view)

lemma migrate_view: "migrate keep db = (u, db') \<Longrightarrow> campaign_view db' = campaign_view db"
  by (cases u) (auto simp: migrate_def transact_Inl transact_Inr result_simps dest: apply_schema_view)

lemma reset_view: "reset_db keep db = (u, db') \<Longrightarrow> campaign_view db' = campaign_view db \<or> campaign_view db' = ([], [], [], [])"
  by (cases u) (auto simp: reset_db_def transact_Inl transact_Inr result_simps campaign_view_def drop_table_def dest!: apply_schema_view)

lemma insert_view: "insert_consumption r db = Inr db' \<Longrightarrow> campaign_view db' = campaign_view db"
  by (auto simp: insert_consumption_eq campaign_view_def)

lemma consume_view: "consume_owner_authorization h env c m input db = (r, db') \<Longrightarrow> campaign_view db' = campaign_view db"
  by (erule consume_cases) (auto dest: insert_view)

lemma ceremony_view:
  "ceremony h env c now nonce store_id db d = (Inr (s, db'), d') \<Longrightarrow> campaign_view db' = campaign_view db"
  by (auto simp: ceremony_def activate_def insert_identity_def campaign_view_def result_simps split: sum.splits option.splits prod.splits if_splits)

lemma initialize_view:
  "initialize_owner_authorization_store h env c now nonce later db d = (r, db', d') \<Longrightarrow> campaign_view db' = campaign_view db"
  by (auto simp: initialize_owner_authorization_store_def Let_def dest: ceremony_view split: sum.splits prod.splits)

lemma empty_campaign: "campaign_view db = ([], [], [], []) \<Longrightarrow> campaign_ok db"
  by (simp add: campaign_view_def campaign_ok_def runs_ok_def)

section \<open>Declared tables stay\<close>

lemma declared_cong: "sq_declared db' = sq_declared db \<Longrightarrow> sq_tables db' = sq_tables db \<Longrightarrow> declared_ok db \<Longrightarrow> declared_ok db'"
  by (simp add: declared_ok_def)

lemma create_table_declared: "t \<in> set schema_tables \<Longrightarrow> declared_ok db \<Longrightarrow> declared_ok (create_table keep t db)"
  by (auto simp: declared_ok_def create_table_def)

lemma create_tables_declared: "set ts \<subseteq> set schema_tables \<Longrightarrow> declared_ok db \<Longrightarrow> declared_ok (fold (create_table keep) ts db)"
  by (induction ts arbitrary: db) (simp_all add: create_table_declared)

lemma create_indexes_declared: "declared_ok db \<Longrightarrow> declared_ok (fold create_index is db)"
proof (induction "is" arbitrary: db)
  case (Cons i "is")
  then show ?case using declared_cong [of "create_index i db" db] by (simp add: create_index_def)
qed simp

lemma apply_schema_declared: "apply_schema keep db = Inr db' \<Longrightarrow> declared_ok db \<Longrightarrow> declared_ok db'"
  by (rule declared_cong [where db = "exec_schema keep db"])
    (auto simp: apply_schema_def Let_def thenR_eq_Inr ensure_pilot_audit_columns_def exec_schema_def create_tables_declared intro: create_indexes_declared)

lemma drop_table_declared: "declared_ok db \<Longrightarrow> declared_ok (drop_table n db)"
  by (auto simp: declared_ok_def drop_table_def image_iff)

lemma migrate_declared: "migrate keep db = (u, db') \<Longrightarrow> declared_ok db \<Longrightarrow> declared_ok db'"
  by (cases u) (auto simp: migrate_def transact_Inl transact_Inr bindR_eq_Inr thenR_eq_Inr intro: apply_schema_declared)

lemma reset_declared: "reset_db keep db = (u, db') \<Longrightarrow> declared_ok db \<Longrightarrow> declared_ok db'"
  by (cases u) (auto simp: reset_db_def transact_Inl transact_Inr bindR_eq_Inr drop_table_declared dest!: apply_schema_declared)

lemma rows_declared:
  "insert_consumption r db = Inr db' \<Longrightarrow> sq_declared db' = sq_declared db \<and> sq_tables db' = sq_tables db"
  "insert_identity si db = Inr db' \<Longrightarrow> sq_declared db' = sq_declared db \<and> sq_tables db' = sq_tables db"
  "create_provider uuid at name slug db = Inr (pr, db') \<Longrightarrow> sq_declared db' = sq_declared db \<and> sq_tables db' = sq_tables db"
  "create_campaign c uuid at provider_id name manifest status db = Inr (cr, db') \<Longrightarrow> sq_declared db' = sq_declared db \<and> sq_tables db' = sq_tables db"
  "upsert_repo uuid at slug branch inst db = Inr (rr, db') \<Longrightarrow> sq_declared db' = sq_declared db \<and> sq_tables db' = sq_tables db"
  "create_run c uuid at campaign repo b db = Inr (nr, db') \<Longrightarrow> sq_declared db' = sq_declared db \<and> sq_tables db' = sq_tables db"
  "update_run redact at i patch db = Inr (nr, db') \<Longrightarrow> sq_declared db' = sq_declared db \<and> sq_tables db' = sq_tables db"
  by (auto simp: insert_consumption_eq insert_identity_def create_provider_def create_campaign_def upsert_repo_def create_run_def Let_def
      bindR_eq_Inr thenR_eq_Inr split: if_splits elim: update_run_Inr)

lemma ceremony_declared: "ceremony h env c now nonce store_id db d = (Inr (s, db'), d') \<Longrightarrow> sq_declared db' = sq_declared db \<and> sq_tables db' = sq_tables db"
  by (auto simp: ceremony_def activate_def result_simps dest!: rows_declared(2) split: sum.splits option.splits prod.splits)

section \<open>Every operation\<close>

lemma opened_enforces: "get_db env d pragmas opened path closed_client = Inr (c, o') \<Longrightarrow> cl_foreign_keys c"
  by (auto simp: get_db_def closed_client_def Let_def bindR_eq_Inr split: if_splits)

lemma db_step_campaign:
  assumes "db_step db db'" "campaign_ok db \<and> declared_ok db"
  shows "campaign_ok db' \<and> declared_ok db'"
proof -
  from assms(2) have ok: "campaign_ok db" "declared_ok db" by simp_all
  from assms(1) show ?thesis
  proof (cases rule: db_step.cases)
    case (step_consume h env c m input r)
    have "campaign_ok db'" using consume_view [OF step_consume] campaign_view_ok ok(1) by blast
    moreover have "declared_ok db'" using step_consume by (rule consume_cases) (use ok(2) rows_declared(1) declared_cong in blast)+
    ultimately show ?thesis ..
  next
    case (step_initialize h env c now nonce later d i d')
    have "campaign_ok db'" using initialize_view [OF step_initialize] campaign_view_ok ok(1) by blast
    moreover have "sq_declared db' = sq_declared db \<and> sq_tables db' = sq_tables db"
      using step_initialize by (auto simp: initialize_owner_authorization_store_def Let_def dest: ceremony_declared split: sum.splits prod.splits)
    ultimately show ?thesis using declared_cong ok(2) by blast
  next
    case (step_migrate keep u)
    have "campaign_ok db'" using migrate_view [OF step_migrate] campaign_view_ok ok(1) by blast
    then show ?thesis using migrate_declared [OF step_migrate ok(2)] ..
  next
    case (step_reset keep u)
    have "campaign_ok db'" using reset_view [OF step_reset] campaign_view_ok empty_campaign ok(1) by blast
    then show ?thesis using reset_declared [OF step_reset ok(2)] ..
  next
    case (step_provider uuid at name slug p)
    with create_provider_ok [OF step_provider ok] rows_declared(3) [OF step_provider] show ?thesis using declared_cong ok(2) by blast
  next
    case (step_campaign env d pragmas opened path c o' uuid at provider_id name manifest status cr)
    with create_campaign_ok [OF step_campaign(2) ok opened_enforces [OF step_campaign(1)]] rows_declared(4) [OF step_campaign(2)]
    show ?thesis using declared_cong ok(2) by blast
  next
    case (step_repo uuid at slug branch inst rr)
    with upsert_repo_ok [OF step_repo ok] rows_declared(5) [OF step_repo] show ?thesis using declared_cong ok(2) by blast
  next
    case (step_run env d pragmas opened path c o' uuid at campaign repo b nr)
    with create_run_ok [OF step_run(2) ok opened_enforces [OF step_run(1)]] rows_declared(6) [OF step_run(2)]
    show ?thesis using declared_cong ok(2) by blast
  next
    case (step_update redact at i' patch nr)
    with update_run_ok [OF step_update ok(1)] rows_declared(7) [OF step_update] show ?thesis using declared_cong ok(2) by blast
  qed
qed

interpretation campaign: evolving db_step "\<lambda>db. campaign_ok db \<and> declared_ok db" "\<lambda>db (_::unit). Some (sq_consumptions db)" "\<lambda>_ _. True"
  by unfold_locales (use db_step_campaign in blast)+

text \<open>C39: however the database operations are interleaved, from a fresh database on, what \<open>SCHEMA_SQL\<close> declares and the connections of
  \<open>getDb\<close> enforce keeps the campaign tables together: provider, campaign, repository and run keys stay unique, every campaign has its
  provider, every run its campaign and repository, and a run has a finishing time exactly when its status is terminal; and the
  ledger never holds two conflicting rows.\<close>

theorem database_invariants:
  assumes "db_step\<^sup>*\<^sup>* fresh_sqlite db"
  shows "distinct (map pr_id (sq_providers db)) \<and> distinct (map pr_slug (sq_providers db)) \<and> distinct (map cp_id (sq_campaigns db))
    \<and> distinct (map rp_id (sq_repos db)) \<and> distinct (map rp_slug (sq_repos db)) \<and> distinct (map rn_id (sq_runs db))
    \<and> (\<forall>c \<in> set (sq_campaigns db). cp_provider_id c \<in> set (map pr_id (sq_providers db)))
    \<and> (\<forall>r \<in> set (sq_runs db). rn_campaign_id r \<in> set (map cp_id (sq_campaigns db)) \<and> rn_repo_id r \<in> set (map rp_id (sq_repos db))
        \<and> (rn_finished_at r \<noteq> None \<longleftrightarrow> terminal (rn_status r)))
    \<and> ledger_ok db"
proof -
  have "campaign_ok fresh_sqlite" by (rule empty_campaign) (simp add: campaign_view_def fresh_sqlite_def)
  moreover have "declared_ok fresh_sqlite" by (simp add: declared_ok_def fresh_sqlite_def)
  ultimately have "campaign_ok db \<and> declared_ok db" by (rule campaign.steps_inv [OF assms conjI])
  moreover have "ledger_ok fresh_sqlite" by (simp add: ledger_ok_def fresh_sqlite_def)
  then have "ledger_ok db" by (rule ledger.steps_inv [OF assms])
  ultimately show ?thesis by (simp add: campaign_ok_def runs_ok_def)
qed

text \<open>A run from the fresh file: the schema, a provider, and a campaign on a connection of \<open>getDb\<close>.\<close>

lemma create_table_has: "has_table (create_table keep t db) n \<longleftrightarrow> has_table db n \<or> n = fst t"
  by (auto simp: create_table_def has_table_def map_of_eq_None_iff)

lemma create_tables_have: "has_table (fold (create_table keep) ts db) n \<longleftrightarrow> has_table db n \<or> n \<in> fst ` set ts"
  by (induction ts arbitrary: db) (auto simp: create_table_has)

lemma create_indexes_tables: "sq_tables (fold create_index is db) = sq_tables db"
  by (induction "is" arbitrary: db) simp_all

lemma applied_tables: "apply_schema keep db = Inr db' \<Longrightarrow> n \<in> fst ` set schema_tables \<Longrightarrow> has_table db' n"
  using create_tables_have [of keep schema_tables db n]
  by (auto simp: apply_schema_def Let_def thenR_eq_Inr ensure_pilot_audit_columns_def exec_schema_def has_table_def create_indexes_tables)

lemma sample_db_campaigns: "declared_ok sample_db" "table_exists sample_db ''providers'' = Inr ()" "table_exists sample_db ''campaigns'' = Inr ()"
  "campaign_view sample_db = ([], [], [], [])"
proof -
  have "declared_ok fresh_sqlite" by (simp add: declared_ok_def fresh_sqlite_def)
  then show "declared_ok sample_db" by (rule migrate_declared [OF sample_migrated(1)])
  from sample_migrated(1) have applied: "apply_schema (\<lambda>s. s) fresh_sqlite = Inr sample_db"
    by (auto simp: migrate_def transact_Inr bindR_eq_Inr thenR_eq_Inr)
  show "table_exists sample_db ''providers'' = Inr ()" "table_exists sample_db ''campaigns'' = Inr ()"
    using applied_tables [OF applied] unfolding table_existing by (simp_all add: schema_tables_def)
  show "campaign_view sample_db = ([], [], [], [])" using migrate_view [OF sample_migrated(1)] by (simp add: campaign_view_def fresh_sqlite_def)
qed

definition sample_provider :: provider_row where
  "sample_provider = \<lparr>pr_id = js ''id-1'', pr_name = js ''Acme'', pr_slug = js ''acme'', pr_created_at = 5\<rparr>"

definition sample_campaign :: campaign_row where
  "sample_campaign = \<lparr>cp_id = js ''id-2'', cp_provider_id = js ''id-1'', cp_name = js ''Acme'', cp_manifest = js ''{}'', cp_status = Draft, cp_created_at = 6\<rparr>"

definition sample_campaign_db :: sqlite where
  "sample_campaign_db = sample_db\<lparr>sq_providers := [sample_provider], sq_campaigns := [sample_campaign]\<rparr>"

lemma sample_opens: "\<exists>c o'. get_db env d pragmas (\<lambda>_. fresh_sqlite) (Some (js '':memory:'')) closed_client = Inr (c, o')"
proof -
  have "assert_supported_schema_version fresh_sqlite = Inr 0"
    by (simp add: assert_supported_schema_version_def fresh_sqlite_def max_safe_def schema_version_def)
  moreover have "resolve_database_path env cwd (Some (js '':memory:'')) = js '':memory:''" for cwd by (simp add: resolve_database_path_def)
  ultimately show ?thesis by (simp add: get_db_def closed_client_def Let_def)
qed

lemma sample_steps: "db_step\<^sup>*\<^sup>* fresh_sqlite sample_campaign_db"
proof -
  have named: "not_blank (js ''Acme'')" "not_blank (js ''acme'')" by code_simp+
  note empty = sample_db_campaigns(4) [unfolded campaign_view_def]
  let ?db = "sample_db\<lparr>sq_providers := [sample_provider]\<rparr>"
  have tables: "table_exists (sample_db\<lparr>sq_providers := ps\<rparr>) t = table_exists sample_db t" for ps t by (simp add: table_exists_def has_table_def)
  have "conflict_target sample_db ''providers'' ''slug'' = Inr ()"
    using declared_statement [OF sample_db_campaigns(1,2) schema_members(1)] schema_clauses(8) by (simp add: conflict_target_def unique_column_def)
  then have "create_provider (js ''id-1'') 5 (js ''Acme'') (js ''acme'') sample_db = Inr (Some sample_provider, ?db)"
    using named empty sample_db_campaigns(2) by (simp add: create_provider_def enforced sample_provider_def)
  then have provider: "db_step sample_db ?db" by (rule db_step.step_provider)
  obtain c o' where connection: "get_db sample_env sample_disk (\<lambda>db. db) (\<lambda>_. fresh_sqlite) (Some (js '':memory:'')) closed_client = Inr (c, o')"
    using sample_opens by blast
  have "create_campaign c (js ''id-2'') 6 (js ''id-1'') (js ''Acme'') (js ''{}'') None ?db = Inr (Some sample_campaign, sample_campaign_db)"
    using named empty sample_db_campaigns(3) by (simp add: create_campaign_def tables enforced Let_def sample_provider_def sample_campaign_def sample_campaign_db_def)
  then have "db_step ?db sample_campaign_db" by (rule db_step.step_campaign [OF connection])
  with provider db_step.step_migrate [OF sample_migrated(1)] show ?thesis by (meson converse_rtranclp_into_rtranclp rtranclp.rtrancl_refl)
qed

lemma database_invariants_witness:
  "db_step\<^sup>*\<^sup>* fresh_sqlite sample_campaign_db \<and> sq_campaigns sample_campaign_db = [sample_campaign] \<and> ledger_ok sample_campaign_db
    \<and> cp_provider_id sample_campaign \<in> set (map pr_id (sq_providers sample_campaign_db))"
  using database_invariants [OF sample_steps] sample_steps by (simp add: sample_campaign_db_def)

section \<open>The rollup\<close>

lemma status_text_inject [simp]: "status_text s = status_text t \<longleftrightarrow> s = t"
  by (cases s; cases t) (simp_all add: status_text_def)

lemma status_not_total [simp]: "status_text s \<noteq> js ''_total''"
  by (cases s) (simp_all add: status_text_def)

definition counted :: "nat \<Rightarrow> nat option" where
  "counted n = (if n = 0 then None else Some n)"

lemma bump_counts:
  "foldl (\<lambda>counts r. bump counts (status_text (rn_status r))) (\<lambda>k. counted (f k)) rs =
     (\<lambda>k. counted (f k + length (filter (\<lambda>r. status_text (rn_status r) = k) rs)))"
proof (induction rs arbitrary: f)
  case (Cons r rs)
  have "bump (\<lambda>k. counted (f k)) (status_text (rn_status r)) = (\<lambda>k. counted (f k + (if status_text (rn_status r) = k then 1 else 0)))"
    by (auto simp: bump_def counted_def fun_eq_iff)
  then have "foldl (\<lambda>counts r. bump counts (status_text (rn_status r))) (\<lambda>k. counted (f k)) (r # rs) =
      (\<lambda>k. counted (f k + (if status_text (rn_status r) = k then 1 else 0) + length (filter (\<lambda>r. status_text (rn_status r) = k) rs)))"
    using Cons.IH [of "\<lambda>k. f k + (if status_text (rn_status r) = k then 1 else 0)"] by simp
  also have "\<dots> = (\<lambda>k. counted (f k + length (filter (\<lambda>r. status_text (rn_status r) = k) (r # rs))))"
    by (auto simp: fun_eq_iff)
  finally show ?case .
qed simp

lemma rollup_counts:
  assumes "campaign_rollup db c = Inr counts"
  shows "counts (status_text s) = counted (length (filter (\<lambda>r. rn_campaign_id r = c \<and> rn_status r = s) (sq_runs db)))"
    "counts (js ''_total'') = Some (length (filter (\<lambda>r. rn_campaign_id r = c) (sq_runs db)))"
proof -
  let ?rs = "sort_key (\<lambda>r. - rn_started_at r) (filter (\<lambda>r. rn_campaign_id r = c) (sq_runs db))"
  have counts: "counts = (foldl (\<lambda>counts r. bump counts (status_text (rn_status r))) (\<lambda>_. None) ?rs)(js ''_total'' := Some (length ?rs))"
    using assms by (auto simp: campaign_rollup_def list_runs_for_campaign_def bindR_eq_Inr thenR_eq_Inr)
  have count: "length (filter P ?rs) = length (filter P (filter (\<lambda>r. rn_campaign_id r = c) (sq_runs db)))" for P
    by (simp add: filter_sort del: filter_filter)
  have "foldl (\<lambda>counts r. bump counts (status_text (rn_status r))) (\<lambda>_. None) ?rs =
      (\<lambda>k. counted (length (filter (\<lambda>r. status_text (rn_status r) = k) ?rs)))"
    using bump_counts [of "\<lambda>_. 0" ?rs] by (simp add: counted_def)
  then show "counts (status_text s) = counted (length (filter (\<lambda>r. rn_campaign_id r = c \<and> rn_status r = s) (sq_runs db)))"
    by (simp add: counts count conj_commute)
  show "counts (js ''_total'') = Some (length (filter (\<lambda>r. rn_campaign_id r = c) (sq_runs db)))"
    using count [of "\<lambda>_. True"] by (simp add: counts)
qed

text \<open>The rollup of a campaign: \<open>_total\<close> is the number of its runs, each status that some run has is counted exactly, and
  the counts of the statuses add up to the total.\<close>

theorem rollup_exact:
  assumes "campaign_rollup db c = Inr counts"
  shows "counts (js ''_total'') = Some (length (filter (\<lambda>r. rn_campaign_id r = c) (sq_runs db))) \<and>
   (\<forall>s. counts (status_text s) = counted (length (filter (\<lambda>r. rn_campaign_id r = c \<and> rn_status r = s) (sq_runs db)))) \<and>
   sum_list (map (\<lambda>s. case counts (status_text s) of None \<Rightarrow> 0 | Some n \<Rightarrow> n)
     [Queued, Scanning, Transforming, Verifying, PreviewReady, Blocked, PrOpened, Merged, Failed, NoChanges]) =
   length (filter (\<lambda>r. rn_campaign_id r = c) (sq_runs db))"
proof -
  have unfold: "(case counted n of None \<Rightarrow> 0 | Some k \<Rightarrow> k) = n" for n by (simp add: counted_def)
  have "sum_list (map (\<lambda>s. length (filter (\<lambda>r. rn_campaign_id r = c \<and> rn_status r = s) rs))
     [Queued, Scanning, Transforming, Verifying, PreviewReady, Blocked, PrOpened, Merged, Failed, NoChanges]) =
     length (filter (\<lambda>r. rn_campaign_id r = c) rs)" for rs
  proof (induction rs)
    case (Cons r rs)
    then show ?case by (cases "rn_status r") (simp_all add: numeral_eq_Suc)
  qed simp
  then show ?thesis by (simp only: rollup_counts [OF assms] unfold) simp
qed

end
