(* ===== verification/GrantLedger.thy ===== *)
theory GrantLedger
  imports OwnerLifecycle ReplayGuarantees
begin

text \<open>
  The seam between the owner grant (packages/app) and the replay ledger (packages/db): the two
  packages validate the same fields with their own code and keep digests in different forms. Every
  verified grant passes the ledger's validation, and the ledger's receipt is the one the grant
  accepts.
\<close>

section \<open>The ledger's form of a consumption\<close>

definition bare_digests :: "consumption \<Rightarrow> consumption" where
  "bare_digests c = c\<lparr>cn_envelope_digest := drop 7 (cn_envelope_digest c), cn_nonce_digest := drop 7 (cn_nonce_digest c),
     cn_artifact_digest := drop 7 (cn_artifact_digest c), cn_manifest_digest := drop 7 (cn_manifest_digest c)\<rparr>"

lemma bare_fields [simp]:
  "cn_authorization_id (bare_digests c) = cn_authorization_id c" "cn_envelope_id (bare_digests c) = cn_envelope_id c"
  "cn_signer_id (bare_digests c) = cn_signer_id c" "cn_key_id (bare_digests c) = cn_key_id c"
  "cn_repository_slug (bare_digests c) = cn_repository_slug c" "cn_repository_id (bare_digests c) = cn_repository_id c"
  "cn_base_sha (bare_digests c) = cn_base_sha c" "cn_preflight_id (bare_digests c) = cn_preflight_id c"
  "cn_candidate_branch (bare_digests c) = cn_candidate_branch c" "cn_candidate_tree_sha (bare_digests c) = cn_candidate_tree_sha c"
  "cn_expires_at (bare_digests c) = cn_expires_at c" "cn_envelope_digest (bare_digests c) = drop 7 (cn_envelope_digest c)"
  "cn_nonce_digest (bare_digests c) = drop 7 (cn_nonce_digest c)" "cn_artifact_digest (bare_digests c) = drop 7 (cn_artifact_digest c)"
  "cn_manifest_digest (bare_digests c) = drop 7 (cn_manifest_digest c)"
  by (simp_all add: bare_digests_def)

lemma identifier_char_space: "is_alnum d \<or> in_class ''._:@+-'' d \<Longrightarrow> \<not> is_space d"
  by (auto simp: class_defs in_class_def js_def js_char_def word_le_nat_alt)

lemma audit_identifier_name: "is_identifier s \<Longrightarrow> audit_identifier (JStr s) l = Inr s"
proof -
  assume s: "is_identifier s"
  then have "list_all (\<lambda>d. is_alnum d \<or> in_class ''._:@+-'' d) s" by (auto simp: is_identifier_def split: list.splits)
  then have "trim s = s" using identifier_char_space by (intro trim_no_space) (force simp: list_all_iff)
  with s show ?thesis
    by (auto simp: audit_identifier_def audit_text_def is_identifier_def split: list.splits)
qed

lemma audit_sha256_digest: "is_digest d \<Longrightarrow> audit_sha256 (JStr d) l = Inr (drop 7 d)"
  by (simp add: audit_sha256_def is_digest_def)

lemma audit_git_sha_name: "is_git_sha s \<Longrightarrow> audit_git_sha (JStr s) l = Inr s"
  by (simp add: audit_git_sha_def audit_text_def)

lemma audit_preflight_name: "is_preflight_id s \<Longrightarrow> audit_preflight_id (JStr s) = Inr s"
  by (simp add: audit_preflight_id_def audit_text_def)

lemma audit_branch_name: "is_ok (validate_branch_name s) \<Longrightarrow> audit_git_branch (JStr s) = Inr s"
  by (simp add: validate_branch_name_def validate_repository_branch_def audit_git_branch_def is_ok_def throw_def split: if_splits)

lemma split_on_lower:
  assumes "split_on 47 s = [owner, repo]" "to_lower s = s" "owner_re owner" "repository_re repo"
  shows "to_lower repo = repo"
proof -
  have s: "s = owner @ 47 # repo" using split_on_join [of 47 s] assms(1) by simp
  have "to_lower s = to_lower owner @ to_lower [47] @ to_lower repo" by (simp add: s to_lower_def)
  moreover have "length (to_lower owner) = length owner" using to_lower_ascii owner_ascii [OF assms(3)] by blast
  moreover have "to_lower [47] = [47]" by code_simp
  ultimately show ?thesis using assms(2) s by simp
qed

lemma audit_slug_name:
  assumes "parse_repository_slug s = Inr p" "to_lower s = s"
  shows "audit_repository_slug (JStr s) = Inr s"
proof -
  from assms(1) obtain owner repo where p: "split_on 47 s = [owner, repo]" "s = trim s" "owner_re owner" "\<not> has_sub (js ''--'') owner"
    "repository_re repo" "repo \<noteq> js ''.''" "repo \<noteq> js ''..''" "\<not> ends_with (js ''.git'') repo"
    by (auto simp: parse_repository_slug_def validate_repository_slug_def throw_def split: if_splits list.splits)
  have "owner @ js ''/'' @ repo = s" using split_on_join [of 47 s] p(1) by (simp add: js_def js_char_def)
  with p split_on_lower [OF p(1) assms(2) p(3,5)] assms(2) show ?thesis by (simp add: audit_repository_slug_def)
qed

section \<open>Every verified grant passes the ledger's validation\<close>

lemma genuine_fields:
  assumes "genuine st"
  obtains p e n slug where "p = gs_payload st" "gs_consumption st = make_consumption p e n" "is_digest e" "is_digest n" "valid_payload p"
    "parse_repository_slug (rs_slug (pl_repository p)) = Inr slug" "to_lower (rs_slug (pl_repository p)) = rs_slug (pl_repository p)"
    "0 < rs_id (pl_repository p)" "rs_id (pl_repository p) \<le> max_safe" "is_git_sha (bs_sha (pl_base p))" "is_digest (mn_digest (pl_manifest p))"
    "is_digest (pv_artifact_digest (pl_preview p))" "is_preflight_id (pv_preflight_id (pl_preview p))"
    "is_ok (validate_branch_name (pv_candidate_branch (pl_preview p)))" "is_git_sha (pv_candidate_tree_sha (pl_preview p))"
    "0 < pl_expires_at p" "pl_expires_at p \<le> max_timestamp"
proof -
  define p where "p = gs_payload st"
  from assms obtain e n where c: "gs_consumption st = make_consumption p e n" "is_digest e" "is_digest n" and p: "valid_payload p"
    by (auto simp: genuine_def p_def)
  have bound: "valid_bindings (expected_bindings p)" using p by (simp add: valid_payload_def)
  have sections: "validate_repository (repository_value (pl_repository p)) = Inr (pl_repository p)"
    "validate_base (base_value (pl_base p)) = Inr (pl_base p)" "validate_manifest (manifest_value (pl_manifest p)) = Inr (pl_manifest p)"
    "validate_preview (preview_value (pl_preview p)) = Inr (pl_preview p)"
    using bound by (simp_all add: valid_bindings_def expected_bindings_def)
  obtain slug where "parse_repository_slug (rs_slug (pl_repository p)) = Inr slug"
    using section_fields(1) [OF sections(1)] by (auto simp: is_ok_iff)
  moreover have "0 < pl_expires_at p \<and> pl_expires_at p \<le> max_timestamp" using p by (simp add: valid_payload_def valid_time_def)
  ultimately show thesis
    using section_fields(1) [OF sections(1)] section_fields(2) [OF sections(2)] section_fields(3) [OF sections(3)]
      section_fields(4) [OF sections(4)] c p by (intro that [of p e n slug]) (simp_all add: p_def)
qed

lemma grant_audited:
  assumes "genuine st"
  shows "audit_consumption (consumption_value (gs_consumption st)) = Inr (bare_digests (gs_consumption st))"
  using assms
proof (rule genuine_fields)
  fix p e n slug
  assume p: "p = gs_payload st" "gs_consumption st = make_consumption p e n" "is_digest e" "is_digest n" "valid_payload p"
    "parse_repository_slug (rs_slug (pl_repository p)) = Inr slug" "to_lower (rs_slug (pl_repository p)) = rs_slug (pl_repository p)"
    "0 < rs_id (pl_repository p)" "rs_id (pl_repository p) \<le> max_safe" "is_git_sha (bs_sha (pl_base p))" "is_digest (mn_digest (pl_manifest p))"
    "is_digest (pv_artifact_digest (pl_preview p))" "is_preflight_id (pv_preflight_id (pl_preview p))"
    "is_ok (validate_branch_name (pv_candidate_branch (pl_preview p)))" "is_git_sha (pv_candidate_tree_sha (pl_preview p))"
    "0 < pl_expires_at p" "pl_expires_at p \<le> max_timestamp"
  have names: "is_identifier (pl_authorization_id p)" "is_identifier (pl_envelope_id p)" "is_identifier (pl_signer_id p)" "is_identifier (pl_key_id p)"
    using p(5) by (simp_all add: valid_payload_def valid_name_def)
  have time: "audit_timestamp (jint (pl_expires_at p)) l = Inr (pl_expires_at p)" for l
    unfolding audit_timestamp_eq using p(16,17) by (simp add: max_timestamp_def max_audit_timestamp_def)
  have gid: "audit_github_id (jint (rs_id (pl_repository p))) = Inr (rs_id (pl_repository p))"
    using p(8,9) by (simp add: audit_github_id_def is_positive_safe_def int_value_def)
  note slug = audit_slug_name [OF p(6,7)]
  show ?thesis
    unfolding audit_consumption_def consumption_gets p(2)
    by (simp add: make_consumption_def bare_digests_def time gid slug names audit_identifier_name audit_sha256_digest p(3,4,11,12)
        audit_git_sha_name p(10,15) audit_preflight_name p(13) audit_branch_name p(14))
qed

section \<open>The grant accepts the ledger's receipt\<close>

lemma hex_not_prefixed: "list_all is_hex s \<Longrightarrow> \<not> starts_with (js ''sha256:'') s"
  by (cases s) (auto simp: starts_with_def js_def js_char_def is_hex_def is_digit_def word_le_nat_alt)

lemma normalize_bare: "is_digest d \<Longrightarrow> normalize_digest (JStr (drop 7 d)) l = Inr d"
proof -
  assume d: "is_digest d"
  then have "js ''sha256:'' @ drop 7 d = d"
    using append_take_drop_id [of 7 d] by (simp add: is_digest_def starts_with_def numeral_eq_Suc)
  moreover have "list_all is_hex (drop 7 d)" using d by (simp add: is_digest_def hex_n_def)
  ultimately show ?thesis using d hex_not_prefixed by (simp add: normalize_digest_def valid_digest_eq)
qed

lemma receipt_gets:
  "get (receipt_value r) (js ''authorizationId'') = JStr (cn_authorization_id r)"
  "get (receipt_value r) (js ''envelopeId'') = JStr (cn_envelope_id r)"
  "get (receipt_value r) (js ''envelopeDigest'') = JStr (cn_envelope_digest r)"
  "get (receipt_value r) (js ''nonceDigest'') = JStr (cn_nonce_digest r)"
  "get (receipt_value r) (js ''signerId'') = JStr (cn_signer_id r)" "get (receipt_value r) (js ''keyId'') = JStr (cn_key_id r)"
  "get (receipt_value r) (js ''repositorySlug'') = JStr (cn_repository_slug r)"
  "get (receipt_value r) (js ''repositoryId'') = jint (cn_repository_id r)"
  "get (receipt_value r) (js ''baseSha'') = JStr (cn_base_sha r)" "get (receipt_value r) (js ''preflightId'') = JStr (cn_preflight_id r)"
  "get (receipt_value r) (js ''artifactDigest'') = JStr (cn_artifact_digest r)"
  "get (receipt_value r) (js ''manifestDigest'') = JStr (cn_manifest_digest r)"
  "get (receipt_value r) (js ''candidateBranch'') = JStr (cn_candidate_branch r)"
  "get (receipt_value r) (js ''candidateTreeSha'') = JStr (cn_candidate_tree_sha r)"
  "get (receipt_value r) (js ''expiresAt'') = jint (cn_expires_at r)" "get (receipt_value r) (js ''consumedAt'') = jint (cn_consumed_at r)"
  by (simp_all add: receipt_value_def get_obj)

lemma receipt_record: "record_with (receipt_value r) receipt_keys l k = k (receipt_value r)" for k :: "jsval \<Rightarrow> 'a result"
  unfolding receipt_value_def by (rule record_with_obj) (simp add: receipt_keys_def)

lemma bare_receipt_fields [simp]:
  "cn_authorization_id (consumption_receipt c at) = cn_authorization_id c" "cn_envelope_id (consumption_receipt c at) = cn_envelope_id c"
  "cn_envelope_digest (consumption_receipt c at) = cn_envelope_digest c" "cn_nonce_digest (consumption_receipt c at) = cn_nonce_digest c"
  "cn_signer_id (consumption_receipt c at) = cn_signer_id c" "cn_key_id (consumption_receipt c at) = cn_key_id c"
  "cn_repository_slug (consumption_receipt c at) = cn_repository_slug c" "cn_repository_id (consumption_receipt c at) = cn_repository_id c"
  "cn_base_sha (consumption_receipt c at) = cn_base_sha c" "cn_preflight_id (consumption_receipt c at) = cn_preflight_id c"
  "cn_artifact_digest (consumption_receipt c at) = cn_artifact_digest c" "cn_manifest_digest (consumption_receipt c at) = cn_manifest_digest c"
  "cn_candidate_branch (consumption_receipt c at) = cn_candidate_branch c"
  "cn_candidate_tree_sha (consumption_receipt c at) = cn_candidate_tree_sha c"
  by (simp_all add: consumption_receipt_def consumption.defs)

lemma ledger_receipt_validates:
  assumes "genuine st" "valid_time at"
  shows "validate_receipt (receipt_value (consumption_receipt (bare_digests (gs_consumption st)) at)) = Inr (receipt_of (gs_consumption st) at)"
  using assms(1)
proof (rule genuine_fields)
  fix p e n slug
  assume p: "gs_consumption st = make_consumption p e n" "is_digest e" "is_digest n"
    "is_digest (mn_digest (pl_manifest p))" "is_digest (pv_artifact_digest (pl_preview p))"
  let ?c = "gs_consumption st"
  have digests: "normalize_digest (JStr (drop 7 d)) l = normalize_digest (JStr d) l" if "is_digest d" for d l
    using normalize_bare [OF that] digest_unprefixed [OF that] by simp
  have "validate_receipt (receipt_value (consumption_receipt (bare_digests ?c) at)) = validate_receipt (receipt_value (receipt_of ?c at))"
    unfolding validate_receipt_def receipt_record receipt_gets
    by (simp add: p(1) make_consumption_def digests p(2-5))
  then show ?thesis using receipt_accepted [OF assms] by simp
qed

end
