(* ===== verification/GitHubAuth.thy ===== *)
theory GitHubAuth
  imports OwnerRegistry
begin

unbundle bit_operations_syntax

text \<open>
  packages/app/src/auth.ts, GitHub authentication: the configuration (\<open>readAuthConfig\<close>,
  \<open>readAppCredentials\<close>), the policies on what GitHub reports (\<open>assertGitHubAppPolicy\<close>,
  \<open>assertGitHubInstallationPolicy\<close>, \<open>assertGitHubInstallationTokenPolicy\<close>) and the minting of one
  installation token between its guards (\<open>appAuth\<close>). GitHub is an argument: a \<open>github\<close> holds its
  reply to each request (\<open>None\<close> when the request fails). The detail that \<open>safeErrorMessage\<close> adds to a
  failure is not represented.
\<close>

section \<open>Configuration\<close>

datatype auth_mode = GitHubApp | GhCli

datatype capability = ReadCap | WriteCap

record auth_env =
  ae_mode :: "jsstr option"
  ae_node_env :: "jsstr option"
  ae_app_id :: "jsstr option"
  ae_private_key :: "jsstr option"
  ae_private_key_path :: "jsstr option"
  ae_installation_id :: "jsstr option"

record app_credentials =
  ac_app_id :: jsstr
  ac_private_key :: jsstr
  ac_installation_id :: "int option"

datatype auth_config = AppConfig app_credentials | GhCliConfig

definition max_private_key_bytes :: nat where
  "max_private_key_bytes = 65536"

text \<open>\<open>createPrivateKey\<close>: the key type and the length of its modulus, \<open>None\<close> when it throws.\<close>

type_synonym key_reader = "jsstr \<Rightarrow> (jsstr \<times> int) option"

definition validate_private_key :: "key_reader \<Rightarrow> jsstr \<Rightarrow> jsstr result" where
  "validate_private_key keys v =
     (if max_private_key_bytes < byte_length v then throw ''GH_APP_PRIVATE_KEY exceeds the supported size''
      else case keys v of
        None \<Rightarrow> throw ''GH_APP_PRIVATE_KEY must contain a valid RSA private key of at least 2048 bits''
      | Some (kind, modulus) \<Rightarrow>
          (if kind \<noteq> js ''rsa'' \<or> modulus < 2048
           then throw ''GH_APP_PRIVATE_KEY must contain a valid RSA private key of at least 2048 bits'' else Inr v))"

text \<open>Whether the body of the \<open>try\<close> reaches the contents (\<open>0x3F\<close> is octal 77).\<close>

definition private_key_contents :: "host \<Rightarrow> jsstr \<Rightarrow> jsstr option" where
  "private_key_contents h path =
     Option.bind (ho_realpath h path) (\<lambda>canonical.
     Option.bind (ho_realpath h (ho_workspace_root h)) (\<lambda>workspace.
     if inside_workspace workspace canonical then None
     else Option.bind (ho_open h path) (\<lambda>stats.
       if \<not> st_file stats \<or> st_size stats \<le> 0 \<or> int max_private_key_bytes < st_size stats then None
       else if \<not> ho_win32 h \<and> st_mode stats AND 0x3F \<noteq> 0 then None
       else if \<not> ho_win32 h \<and> ho_uid h \<noteq> None \<and> Some (st_uid stats) \<noteq> ho_uid h then None
       else ho_read h path)))"

definition read_private_key_file :: "key_reader \<Rightarrow> host \<Rightarrow> jsstr \<Rightarrow> jsstr result" where
  "read_private_key_file keys h path =
     (if \<not> is_absolute path then throw ''GH_APP_PRIVATE_KEY_PATH must be an absolute path''
      else case Option.bind (private_key_contents h path) (\<lambda>c. case validate_private_key keys c of Inl e \<Rightarrow> None | Inr k \<Rightarrow> Some k) of
        None \<Rightarrow> throw ''GH_APP_PRIVATE_KEY_PATH must reference an owner-only, regular RSA private-key file outside the workspace''
      | Some k \<Rightarrow> Inr k)"

text \<open>\<open>replace(/\\n/g, "\n")\<close>: a backslash and an \<open>n\<close> become a line feed.\<close>

fun unescape_newlines :: "jsstr \<Rightarrow> jsstr" where
  "unescape_newlines [] = []"
| "unescape_newlines [c] = [c]"
| "unescape_newlines (c # d # s) = (if c = 92 \<and> d = 110 then 10 # unescape_newlines s else c # unescape_newlines (d # s))"

text \<open>\<open>/^[1-9]\d*$/\<close>, and \<open>Number\<close> of such a text when it is a safe integer.\<close>

definition positive_decimal :: "jsstr \<Rightarrow> bool" where
  "positive_decimal s \<longleftrightarrow> s \<noteq> [] \<and> list_all is_digit s \<and> hd s \<noteq> 48"

definition safe_number :: "jsstr \<Rightarrow> int option" where
  "safe_number s = (if int (digits_value s) \<le> max_safe then Some (int (digits_value s)) else None)"

definition truthy :: "jsstr option \<Rightarrow> bool" where
  "truthy v \<longleftrightarrow> (case v of None \<Rightarrow> False | Some s \<Rightarrow> s \<noteq> [])"

definition read_installation_id :: "jsstr option \<Rightarrow> int option result" where
  "read_installation_id raw =
     (case raw of
        None \<Rightarrow> Inr None
      | Some s \<Rightarrow>
          (if trim s = [] then Inr None
           else if \<not> positive_decimal s then throw ''GH_APP_INSTALLATION_ID must be a positive integer''
           else case safe_number s of
             None \<Rightarrow> throw ''GH_APP_INSTALLATION_ID is outside the supported range''
           | Some n \<Rightarrow> Inr (Some n)))"

definition read_app_credentials :: "key_reader \<Rightarrow> host \<Rightarrow> auth_env \<Rightarrow> app_credentials option result" where
  "read_app_credentials keys h env =
     (let app = ae_app_id env; inline = ae_private_key env; path = ae_private_key_path env;
          installation_present = (case ae_installation_id env of None \<Rightarrow> False | Some s \<Rightarrow> trim s \<noteq> []) in
      if app = None \<and> inline = None \<and> \<not> truthy path \<and> \<not> installation_present then Inr None
      else if \<not> truthy app \<or> (\<not> truthy inline \<and> \<not> truthy path)
      then throw ''Partial GitHub App configuration: GH_APP_ID and exactly one private-key source are required''
      else if truthy inline \<and> truthy path then throw ''GH_APP_PRIVATE_KEY and GH_APP_PRIVATE_KEY_PATH are mutually exclusive''
      else if \<not> positive_decimal (the app) then throw ''GH_APP_ID must be a positive integer''
      else if safe_number (the app) = None then throw ''GH_APP_ID is outside the supported range''
      else bindR (read_installation_id (ae_installation_id env)) (\<lambda>installation.
           bindR (if truthy inline then validate_private_key keys (unescape_newlines (the inline))
                  else read_private_key_file keys h (the path)) (\<lambda>key.
           Inr (Some \<lparr>ac_app_id = the app, ac_private_key = key, ac_installation_id = installation\<rparr>))))"

definition read_auth_config :: "key_reader \<Rightarrow> host \<Rightarrow> auth_env \<Rightarrow> auth_config result" where
  "read_auth_config keys h env =
     (if ae_mode env \<noteq> Some (js ''github-app'') \<and> ae_mode env \<noteq> Some (js ''gh-cli'')
      then throw ''Set API_MIGRATOR_AUTH_MODE to github-app or gh-cli''
      else bindR (read_app_credentials keys h env) (\<lambda>app.
        if ae_mode env = Some (js ''github-app'')
        then (case app of
            None \<Rightarrow> throw ''github-app auth requires GH_APP_ID and exactly one of GH_APP_PRIVATE_KEY or GH_APP_PRIVATE_KEY_PATH''
          | Some c \<Rightarrow> Inr (AppConfig c))
        else if app \<noteq> None then throw ''gh-cli auth cannot be combined with GitHub App credentials''
        else if ae_node_env env = Some (js ''production'') then throw ''gh-cli auth is disabled in production; configure github-app auth''
        else Inr GhCliConfig))"

definition read_optional_auth_config :: "key_reader \<Rightarrow> host \<Rightarrow> auth_env \<Rightarrow> auth_config option result" where
  "read_optional_auth_config keys h env =
     (if ae_mode env = None then Inr None else bindR (read_auth_config keys h env) (\<lambda>c. Inr (Some c)))"

definition is_app_mode :: "key_reader \<Rightarrow> host \<Rightarrow> auth_env \<Rightarrow> bool result" where
  "is_app_mode keys h env = bindR (read_auth_config keys h env) (\<lambda>c. Inr (case c of AppConfig _ \<Rightarrow> True | GhCliConfig \<Rightarrow> False))"

section \<open>Replies\<close>

text \<open>Reading a member of \<open>undefined\<close> or \<open>null\<close> throws, as does \<open>toLowerCase\<close> of a value that is no string.\<close>

definition member :: "jsval \<Rightarrow> string \<Rightarrow> jsval result" where
  "member v k = (if v = JUndef \<or> v = JNull then throw ''TypeError'' else Inr (get v (js k)))"

definition lower_of :: "jsval \<Rightarrow> jsstr result" where
  "lower_of v = (case v of JStr s \<Rightarrow> Inr (to_lower s) | _ \<Rightarrow> throw ''TypeError'')"

definition reply :: "jsval option \<Rightarrow> jsval result" where
  "reply r = (case r of None \<Rightarrow> throw ''request failed'' | Some v \<Rightarrow> Inr v)"

section \<open>Permissions\<close>

type_synonym permission_policy = "(jsstr \<times> jsstr) list"

definition required_github_app_permissions :: permission_policy where
  "required_github_app_permissions =
     [(js ''contents'', js ''write''), (js ''metadata'', js ''read''), (js ''pull_requests'', js ''write'')]"

definition read_token_permissions :: permission_policy where
  "read_token_permissions =
     [(js ''contents'', js ''read''), (js ''metadata'', js ''read''), (js ''pull_requests'', js ''read'')]"

definition token_permissions :: "capability \<Rightarrow> permission_policy" where
  "token_permissions c = (case c of WriteCap \<Rightarrow> required_github_app_permissions | ReadCap \<Rightarrow> read_token_permissions)"

text \<open>\<open>Object.entries\<close>, and the stable sort by key, where \<open>le a b\<close> is \<open>a.localeCompare(b) <= 0\<close>.\<close>

definition entries :: "jsval \<Rightarrow> (jsstr \<times> jsval) list" where
  "entries v = (case v of JObj p ps \<Rightarrow> map (\<lambda>k. (k, get v k)) (object_keys ps) | _ \<Rightarrow> [])"

fun insert_entry :: "(jsstr \<Rightarrow> jsstr \<Rightarrow> bool) \<Rightarrow> jsstr \<times> 'a \<Rightarrow> (jsstr \<times> 'a) list \<Rightarrow> (jsstr \<times> 'a) list" where
  "insert_entry le x [] = [x]"
| "insert_entry le x (y # ys) = (if le (fst x) (fst y) then x # y # ys else y # insert_entry le x ys)"

definition sort_entries :: "(jsstr \<Rightarrow> jsstr \<Rightarrow> bool) \<Rightarrow> (jsstr \<times> 'a) list \<Rightarrow> (jsstr \<times> 'a) list" where
  "sort_entries le xs = foldr (insert_entry le) xs []"

definition assert_exact_permissions :: "(jsstr \<Rightarrow> jsstr \<Rightarrow> bool) \<Rightarrow> jsval \<Rightarrow> permission_policy \<Rightarrow> unit result" where
  "assert_exact_permissions le actual expected =
     (case actual of
        JObj p ps \<Rightarrow>
          throw_if (sort_entries le (filter (\<lambda>(k, v). v \<noteq> JStr (js ''none'')) (entries actual))
                \<noteq> sort_entries le (map (\<lambda>(k, v). (k, JStr v)) expected))
            ''permissions exceed or differ from the required least-privilege policy''
      | _ \<Rightarrow> throw ''permissions are unavailable'')"

definition assert_no_events :: "jsval \<Rightarrow> unit result" where
  "assert_no_events events = throw_if (\<not> is_array events \<or> length (elements events) \<noteq> 0) ''must not subscribe to webhook events''"

section \<open>Policies\<close>

definition assert_github_app_policy :: "(jsstr \<Rightarrow> jsstr \<Rightarrow> bool) \<Rightarrow> jsval \<Rightarrow> int \<Rightarrow> jsstr result" where
  "assert_github_app_policy le app expected_app_id =
     (case get app (js ''slug'') of
        JStr slug \<Rightarrow>
          (if get app (js ''id'') \<noteq> jint expected_app_id \<or> length slug = 0
           then throw ''GitHub App identity does not match the configured App ID''
           else thenR (assert_exact_permissions le (get app (js ''permissions'')) required_github_app_permissions)
                (thenR (assert_no_events (get app (js ''events''))) (Inr slug)))
      | _ \<Rightarrow> throw ''GitHub App identity does not match the configured App ID'')"

definition assert_github_installation_policy :: "(jsstr \<Rightarrow> jsstr \<Rightarrow> bool) \<Rightarrow> jsval \<Rightarrow> unit result" where
  "assert_github_installation_policy le installation =
     bindR (member installation ''repository_selection'') (\<lambda>selection.
     thenR (throw_if (selection \<noteq> JStr (js ''selected'')) ''GitHub App installation must be restricted to selected repositories'')
    (thenR (throw_if (get installation (js ''suspended_at'') \<noteq> JNull)
       ''GitHub App installation is suspended or has an invalid suspension state'')
    (thenR (assert_exact_permissions le (get installation (js ''permissions'')) required_github_app_permissions)
       (assert_no_events (get installation (js ''events''))))))"

definition safe_positive :: "jsval \<Rightarrow> int option" where
  "safe_positive v = (case v of JNum (JInt n) \<Rightarrow> if 0 < n \<and> n \<le> max_safe then Some n else None | _ \<Rightarrow> None)"

definition assert_configured_installation_id :: "int option \<Rightarrow> jsval \<Rightarrow> int result" where
  "assert_configured_installation_id configured resolved =
     (case safe_positive resolved of
        None \<Rightarrow> throw ''Configured GitHub App installation does not own the requested repository''
      | Some n \<Rightarrow>
          (if configured \<noteq> None \<and> configured \<noteq> Some n
           then throw ''Configured GitHub App installation does not own the requested repository'' else Inr n))"

record token_options =
  to_installation_id :: int
  to_repository_names :: "jsstr list"
  to_permissions :: permission_policy

definition github_installation_token_options :: "int \<Rightarrow> jsstr \<Rightarrow> capability \<Rightarrow> token_options result" where
  "github_installation_token_options installation_id repository_name c =
     (if max_safe < \<bar>installation_id\<bar> \<or> installation_id \<le> 0 \<or> length repository_name = 0
      then throw ''Cannot create a token for an invalid GitHub installation or repository''
      else Inr \<lparr>to_installation_id = installation_id, to_repository_names = [repository_name], to_permissions = token_permissions c\<rparr>)"

text \<open>
  \<open>Date.parse\<close>: the date-time form that GitHub sends, \<open>2016-07-11T22:14:10Z\<close>, is read here; for every
  other text the engine's answer is the argument (\<open>None\<close> is NaN).
\<close>

definition days_before_year :: "int \<Rightarrow> int" where
  "days_before_year y = 365 * (y - 1970) + (y - 1969) div 4 - (y - 1901) div 100 + (y - 1601) div 400"

definition leap_year :: "int \<Rightarrow> bool" where
  "leap_year y \<longleftrightarrow> y mod 4 = 0 \<and> (y mod 100 \<noteq> 0 \<or> y mod 400 = 0)"

definition month_days :: "int \<Rightarrow> int list" where
  "month_days y = [31, if leap_year y then 29 else 28, 31, 30, 31, 30, 31, 31, 30, 31, 30, 31]"

definition zulu_instant :: "jsstr \<Rightarrow> int option" where
  "zulu_instant s =
     (let digits = (\<lambda>i n. take n (drop i s)); num = (\<lambda>i n. int (digits_value (digits i n)));
          y = num 0 4; mo = num 5 2; d = num 8 2; h = num 11 2; mi = num 14 2; sec = num 17 2 in
      if length s = 20 \<and> list_all is_digit (digits 0 4 @ digits 5 2 @ digits 8 2 @ digits 11 2 @ digits 14 2 @ digits 17 2)
         \<and> [s ! 4, s ! 7, s ! 10, s ! 13, s ! 16, s ! 19] = js ''--T::Z''
         \<and> 1 \<le> mo \<and> mo \<le> 12 \<and> 1 \<le> d \<and> d \<le> month_days y ! nat (mo - 1) \<and> h \<le> 23 \<and> mi \<le> 59 \<and> sec \<le> 59
      then Some (1000 * (sec + 60 * (mi + 60 * (h + 24 * (days_before_year y + sum_list (take (nat (mo - 1)) (month_days y)) + d - 1)))))
      else None)"

definition date_parse :: "(jsval \<Rightarrow> int option) \<Rightarrow> jsval \<Rightarrow> int option" where
  "date_parse engine v = (case v of
     JStr s \<Rightarrow> (case zulu_instant s of Some t \<Rightarrow> Some t | None \<Rightarrow> engine v)
   | _ \<Rightarrow> engine v)"

definition max_installation_token_lifetime_ms :: int where
  "max_installation_token_lifetime_ms = 65 * 60 * 1000"

definition token_clock_skew_ms :: int where
  "token_clock_skew_ms = 5 * 60 * 1000"

definition assert_token_lifetime :: "int option \<Rightarrow> int option \<Rightarrow> int \<Rightarrow> unit result" where
  "assert_token_lifetime created_at expires_at now =
     (case (created_at, expires_at) of
        (Some c, Some e) \<Rightarrow>
          throw_if (now + token_clock_skew_ms < c \<or> e \<le> now \<or> e \<le> c \<or> max_installation_token_lifetime_ms < e - c)
            ''GitHub installation token has an invalid lifetime''
      | _ \<Rightarrow> throw ''GitHub installation token has an invalid lifetime'')"

text \<open>Both members are arrays, or absent, in the authentication that \<open>@octokit/auth-app\<close> returns.\<close>

definition assert_token_repository :: "jsval \<Rightarrow> jsval \<Rightarrow> jsstr \<Rightarrow> int result" where
  "assert_token_repository names ids expected_repository_name =
     (case (elements names, elements ids) of
        ([name], [i]) \<Rightarrow>
          bindR (lower_of name) (\<lambda>lower.
          case safe_positive i of
            Some n \<Rightarrow> (if lower = to_lower expected_repository_name then Inr n
              else throw ''GitHub installation token does not select exactly the requested repository'')
          | None \<Rightarrow> throw ''GitHub installation token does not select exactly the requested repository'')
      | _ \<Rightarrow> throw ''GitHub installation token does not select exactly the requested repository'')"

text \<open>The result is the one repository the token selects.\<close>

definition assert_github_installation_token_policy ::
  "(jsstr \<Rightarrow> jsstr \<Rightarrow> bool) \<Rightarrow> (jsval \<Rightarrow> int option) \<Rightarrow> int \<Rightarrow> jsval \<Rightarrow> int \<Rightarrow> jsstr \<Rightarrow> permission_policy \<Rightarrow> int result" where
  "assert_github_installation_token_policy le engine now authentication expected_installation_id expected_repository_name expected_permissions =
     thenR (throw_if (get authentication (js ''type'') \<noteq> JStr (js ''token'') \<or> get authentication (js ''tokenType'') \<noteq> JStr (js ''installation''))
       ''GitHub returned an unexpected authentication type'')
    (thenR (throw_if (max_safe < \<bar>expected_installation_id\<bar> \<or> expected_installation_id \<le> 0
         \<or> get authentication (js ''installationId'') \<noteq> jint expected_installation_id)
       ''GitHub returned a token for an unexpected installation identity'')
    (thenR (assert_token_lifetime (date_parse engine (get authentication (js ''createdAt'')))
         (date_parse engine (get authentication (js ''expiresAt''))) now)
    (thenR (throw_if (get authentication (js ''repositorySelection'') \<noteq> JStr (js ''selected'')) ''GitHub installation token is not repository-scoped'')
    (bindR (assert_token_repository (get authentication (js ''repositoryNames'')) (get authentication (js ''repositoryIds'')) expected_repository_name) (\<lambda>i.
     thenR (assert_exact_permissions le (get authentication (js ''permissions'')) expected_permissions) (Inr i))))))"

section \<open>appAuth\<close>

text \<open>\<open>repositoryOwnerId\<close> is whatever GitHub reports; the other ids have been checked.\<close>

record app_identity =
  id_app_id :: int
  id_app_slug :: jsstr
  id_installation_id :: int
  id_repository_id :: int
  id_repository_owner_id :: jsval
  id_repository_slug :: jsstr

record observed_identity =
  oi_app_id :: int
  oi_app_slug :: jsstr
  oi_installation_id :: int

text \<open>The client \<open>octokit\<close> is the one that uses the token.\<close>

record auth_result =
  au_token :: jsstr
  au_actor :: jsstr
  au_mode :: auth_mode
  au_capability :: capability
  au_github_app :: "app_identity option"

text \<open>
  GitHub's replies in the order of the requests, with the clock at the token check; \<open>gr_locale\<close> and
  \<open>gr_engine\<close> are the engine's \<open>localeCompare\<close> and \<open>Date.parse\<close>.
\<close>

record github =
  gr_app :: "jsval option"
  gr_installation :: "jsval option"
  gr_token :: "jsval option"
  gr_repository :: "jsval option"
  gr_now :: int
  gr_locale :: "jsstr \<Rightarrow> jsstr \<Rightarrow> bool"
  gr_engine :: "jsval \<Rightarrow> int option"

text \<open>What happens to tokens: GitHub issued one, or the code asked GitHub to revoke one.\<close>

datatype event = Minted capability jsstr | Revoked jsstr

type_synonym guards = "(observed_identity \<Rightarrow> unit result) \<times> (auth_result \<Rightarrow> unit result)"

definition app_number :: "app_credentials \<Rightarrow> int" where
  "app_number app = int (digits_value (ac_app_id app))"

text \<open>Up to the token request.\<close>

definition before_minting :: "github \<Rightarrow> app_credentials \<Rightarrow> slug_parts \<Rightarrow> capability \<Rightarrow> guards option \<Rightarrow> (jsstr \<times> int) result" where
  "before_minting g app repository c guards =
     bindR (reply (gr_app g)) (\<lambda>app_info.
     bindR (assert_github_app_policy (gr_locale g) app_info (app_number app)) (\<lambda>app_slug.
     bindR (reply (gr_installation g)) (\<lambda>installation.
     thenR (assert_github_installation_policy (gr_locale g) installation)
    (bindR (assert_configured_installation_id (ac_installation_id app) (get installation (js ''id''))) (\<lambda>installation_id.
     thenR (case guards of None \<Rightarrow> Inr ()
         | Some (before, _) \<Rightarrow> before \<lparr>oi_app_id = app_number app, oi_app_slug = app_slug, oi_installation_id = installation_id\<rparr>)
    (bindR (github_installation_token_options installation_id (sl_repo repository) c) (\<lambda>_.
     Inr (app_slug, installation_id))))))))"

definition issued_token :: "jsval \<Rightarrow> jsstr option" where
  "issued_token authentication = (case get authentication (js ''token'') of JStr t \<Rightarrow> if t = [] then None else Some t | _ \<Rightarrow> None)"

text \<open>From the issued token to the result.\<close>

definition after_minting ::
  "github \<Rightarrow> app_credentials \<Rightarrow> slug_parts \<Rightarrow> capability \<Rightarrow> guards option \<Rightarrow> jsstr \<Rightarrow> int \<Rightarrow> jsval \<Rightarrow> jsstr \<Rightarrow> auth_result result" where
  "after_minting g app repository c guards app_slug installation_id authentication token =
     bindR (assert_github_installation_token_policy (gr_locale g) (gr_engine g) (gr_now g) authentication installation_id
       (sl_repo repository) (token_permissions c)) (\<lambda>selected.
     bindR (reply (gr_repository g)) (\<lambda>info.
     bindR (member info ''full_name'') (\<lambda>full_name.
     bindR (lower_of full_name) (\<lambda>lower.
     thenR (throw_if (lower \<noteq> to_lower (sl_slug repository) \<or> get info (js ''id'') \<noteq> jint selected)
       ''GitHub installation token is not bound to the requested repository identity'')
    (bindR (member (get info (js ''owner'')) ''id'') (\<lambda>owner_id.
     let result = \<lparr>au_token = token, au_actor = app_slug @ js ''[bot]'', au_mode = GitHubApp, au_capability = c,
        au_github_app = Some \<lparr>id_app_id = app_number app, id_app_slug = app_slug, id_installation_id = installation_id,
          id_repository_id = selected, id_repository_owner_id = owner_id,
          id_repository_slug = (case full_name of JStr s \<Rightarrow> s | _ \<Rightarrow> [])\<rparr>\<rparr> in
     thenR (case guards of None \<Rightarrow> Inr () | Some (_, after) \<Rightarrow> after result) (Inr result)))))))"

definition app_auth :: "github \<Rightarrow> app_credentials \<Rightarrow> slug_parts \<Rightarrow> capability \<Rightarrow> guards option \<Rightarrow> auth_result result \<times> event list" where
  "app_auth g app repository c guards =
     (if (c = WriteCap) \<noteq> (guards \<noteq> None)
      then (throw ''GitHub App write authentication requires consumed owner-authorization guards'', [])
      else case before_minting g app repository c guards of
        Inl e \<Rightarrow> (throw ''GitHub App authentication failed'', [])
      | Inr (app_slug, installation_id) \<Rightarrow>
          (case Option.bind (gr_token g) (\<lambda>a. map_option (Pair a) (issued_token a)) of
             None \<Rightarrow> (throw ''GitHub App authentication failed'', [])
           | Some (authentication, token) \<Rightarrow>
               (case after_minting g app repository c guards app_slug installation_id authentication token of
                  Inl e \<Rightarrow> (throw ''GitHub App authentication failed'', [Minted c token, Revoked token])
                | Inr result \<Rightarrow> (Inr result, [Minted c token]))))"

section \<open>gh\<close>

text \<open>\<open>output\<close> is what \<open>gh auth token\<close> prints, \<open>None\<close> when it fails.\<close>

definition gh_auth :: "jsstr option \<Rightarrow> capability \<Rightarrow> auth_result result" where
  "gh_auth output c =
     (if c \<noteq> ReadCap then throw ''gh-cli cannot mint API Migrator write credentials''
      else case output of
        None \<Rightarrow> throw ''gh-cli authentication failed''
      | Some out \<Rightarrow>
          (if trim out = [] then throw ''gh-cli authentication failed''
           else Inr \<lparr>au_token = trim out, au_actor = js ''api-migrator'', au_mode = GhCli, au_capability = ReadCap,
                     au_github_app = None\<rparr>))"

definition resolve_read_auth_config :: "github \<Rightarrow> jsstr option \<Rightarrow> auth_config \<Rightarrow> slug_parts \<Rightarrow> auth_result result \<times> event list" where
  "resolve_read_auth_config g output config repository =
     (case config of AppConfig app \<Rightarrow> app_auth g app repository ReadCap None | GhCliConfig \<Rightarrow> (gh_auth output ReadCap, []))"

definition resolve_read_auth ::
  "key_reader \<Rightarrow> host \<Rightarrow> auth_env \<Rightarrow> github \<Rightarrow> jsstr option \<Rightarrow> jsstr \<Rightarrow> auth_result result \<times> event list" where
  "resolve_read_auth keys h env g output slug =
     (case bindR (parse_repository_slug slug) (\<lambda>r. bindR (read_auth_config keys h env) (\<lambda>c. Inr (r, c))) of
        Inl e \<Rightarrow> (Inl e, [])
      | Inr (repository, config) \<Rightarrow> resolve_read_auth_config g output config repository)"

definition resolve_optional_read_auth ::
  "key_reader \<Rightarrow> host \<Rightarrow> auth_env \<Rightarrow> github \<Rightarrow> jsstr option \<Rightarrow> jsstr \<Rightarrow> auth_result option result \<times> event list" where
  "resolve_optional_read_auth keys h env g output slug =
     (case bindR (parse_repository_slug slug) (\<lambda>r. bindR (read_optional_auth_config keys h env) (\<lambda>c. Inr (r, c))) of
        Inl e \<Rightarrow> (Inl e, [])
      | Inr (repository, None) \<Rightarrow> (Inr None, [])
      | Inr (repository, Some config) \<Rightarrow>
          (case resolve_read_auth_config g output config repository of
             (Inl e, t) \<Rightarrow> (Inl e, t) | (Inr a, t) \<Rightarrow> (Inr (Some a), t)))"

end
