(* ===== verification/WriteBroker.thy ===== *)
theory WriteBroker
  imports GrantLedger GitHubAuth
begin

text \<open>
  packages/app/src/auth.ts, \<open>resolveAuthorizedWriteAuth\<close>: the sole broker of write credentials. It
  checks the live repository, reads the owner grant's consumption, consumes it in the replay
  ledger, marks the grant, and only then lets \<open>appAuth\<close> mint one token between guards that repeat
  the checks. Each call that meets the outside world has its own moment.
\<close>

section \<open>Identity checks\<close>

definition assert_identity_matches_expected :: "jsstr \<Rightarrow> app_identity \<Rightarrow> bindings \<Rightarrow> unit result" where
  "assert_identity_matches_expected requested_slug identity expected =
     throw_if (to_lower (id_repository_slug identity) \<noteq> to_lower requested_slug
         \<or> rs_slug (eb_repository expected) \<noteq> to_lower requested_slug
         \<or> id_repository_id identity \<noteq> rs_id (eb_repository expected)
         \<or> id_repository_owner_id identity \<noteq> jint (rs_owner_id (eb_repository expected))
         \<or> id_app_id identity \<noteq> gh_app_id (eb_github expected)
         \<or> id_installation_id identity \<noteq> gh_installation_id (eb_github expected))
       ''GitHub App identity does not match the owner-authorized repository scope''"

definition assert_observed_matches :: "observed_identity \<Rightarrow> app_identity \<Rightarrow> bindings \<Rightarrow> unit result" where
  "assert_observed_matches observed read_identity expected =
     throw_if (oi_app_id observed \<noteq> id_app_id read_identity \<or> oi_app_id observed \<noteq> gh_app_id (eb_github expected)
         \<or> oi_app_slug observed \<noteq> id_app_slug read_identity \<or> oi_installation_id observed \<noteq> id_installation_id read_identity
         \<or> oi_installation_id observed \<noteq> gh_installation_id (eb_github expected))
       ''GitHub App or installation identity changed before write-token minting''"

text \<open>The two live replies: the repository, and the ref of the base branch.\<close>

record live =
  lv_repository :: "jsval option"
  lv_base_ref :: "jsval option"

definition assert_live_read_identity_and_base :: "live \<Rightarrow> bindings \<Rightarrow> app_identity \<Rightarrow> unit result" where
  "assert_live_read_identity_and_base lv expected identity =
     (case bindR (reply (lv_repository lv)) (\<lambda>info.
           bindR (reply (lv_base_ref lv)) (\<lambda>base_ref.
           bindR (member info ''full_name'') (\<lambda>full_name.
           bindR (lower_of full_name) (\<lambda>lower.
           bindR (member (get info (js ''owner'')) ''id'') (\<lambda>owner_id.
           bindR (member (get base_ref (js ''object'')) ''sha'') (\<lambda>sha.
           throw_if (lower \<noteq> rs_slug (eb_repository expected)
               \<or> get info (js ''id'') \<noteq> jint (rs_id (eb_repository expected))
               \<or> owner_id \<noteq> jint (rs_owner_id (eb_repository expected))
               \<or> get info (js ''id'') \<noteq> jint (id_repository_id identity)
               \<or> owner_id \<noteq> id_repository_owner_id identity
               \<or> sha \<noteq> JStr (bs_sha (eb_base expected)))
             ''repository or base identity changed after owner approval'')))))) of
        Inl e \<Rightarrow> throw ''Could not revalidate owner-authorized repository identity''
      | Inr u \<Rightarrow> Inr ())"

definition same_github_identity :: "app_identity \<Rightarrow> app_identity \<Rightarrow> bool" where
  "same_github_identity a b \<longleftrightarrow> id_app_id a = id_app_id b \<and> id_app_slug a = id_app_slug b
     \<and> id_installation_id a = id_installation_id b \<and> id_repository_id a = id_repository_id b
     \<and> id_repository_owner_id a = id_repository_owner_id b
     \<and> to_lower (id_repository_slug a) = to_lower (id_repository_slug b)"

section \<open>The broker\<close>

text \<open>The host and the clock when the owner grant is checked.\<close>

record instant =
  in_host :: host
  in_clock :: int

record broker_world =
  bw_live_start :: live
  bw_check :: instant
  bw_read :: instant
  bw_ledger :: moment
  bw_mark :: instant
  bw_config :: host
  bw_env :: auth_env
  bw_github :: github
  bw_live_before :: live
  bw_before :: instant
  bw_live_after :: live
  bw_after :: instant

text \<open>What stays fixed in one process.\<close>

record 'k process =
  ps_crypto :: "'k crypto"
  ps_keys :: key_reader
  ps_db_env :: db_env
  ps_client :: client

record write_input =
  wi_read_auth :: auth_result
  wi_grant :: handle
  wi_expected :: bindings
  wi_registry_path :: jsstr

definition grant_input :: "write_input \<Rightarrow> verify_input" where
  "grant_input i = \<lparr>vi_expected = bindings_value (wi_expected i), vi_challenge_digest = JUndef,
     vi_registry_path = JStr (wi_registry_path i), vi_now = JUndef\<rparr>"

text \<open>Up to the first side effect.\<close>

definition broker_preflight :: "broker_world \<Rightarrow> jsstr \<Rightarrow> write_input \<Rightarrow> (slug_parts \<times> app_identity) result" where
  "broker_preflight w slug i =
     bindR (parse_repository_slug slug) (\<lambda>repository.
     case au_github_app (wi_read_auth i) of
       None \<Rightarrow> throw ''Owner-authorized publication requires GitHub App read authentication''
     | Some read_identity \<Rightarrow>
         thenR (throw_if (au_mode (wi_read_auth i) \<noteq> GitHubApp \<or> au_capability (wi_read_auth i) \<noteq> ReadCap)
           ''Owner-authorized publication requires GitHub App read authentication'')
        (thenR (assert_identity_matches_expected (sl_slug repository) read_identity (wi_expected i))
        (thenR (assert_live_read_identity_and_base (bw_live_start w) (wi_expected i) read_identity)
        (Inr (repository, read_identity)))))"

text \<open>The irreversible part: the ledger first, then the grant.\<close>

definition consume_grant ::
  "'k process \<Rightarrow> broker_world \<Rightarrow> write_input \<Rightarrow> vault \<Rightarrow> sqlite \<Rightarrow> unit result \<times> vault \<times> sqlite" where
  "consume_grant p w i v db =
     (case thenR (bindR (assert_current_owner_grant (ps_crypto p) (in_host (bw_check w)) (in_clock (bw_check w)) v (wi_grant i) (grant_input i)) (\<lambda>_. Inr ()))
             (owner_authorization_consumption (ps_crypto p) (in_host (bw_read w)) (in_clock (bw_read w)) v (wi_grant i) (grant_input i)) of
        Inl e \<Rightarrow> (Inl e, v, db)
      | Inr consumption \<Rightarrow>
          (case consume_owner_authorization (cr_hash (ps_crypto p)) (ps_db_env p) (ps_client p) (bw_ledger w) (consumption_value consumption) db of
             (Inl e, db') \<Rightarrow> (Inl e, v, db')
           | (Inr stored, db') \<Rightarrow>
               (case mark_grant_consumed (ps_crypto p) (in_host (bw_mark w)) (in_clock (bw_mark w)) v (wi_grant i) (receipt_value stored) of
                  Inl e \<Rightarrow> (Inl e, v, db')
                | Inr (_, v') \<Rightarrow> (bindR (assert_consumed_owner_grant v' (wi_grant i)) (\<lambda>_. Inr ()), v', db'))))"

definition boundary_check :: "'k process \<Rightarrow> instant \<Rightarrow> write_input \<Rightarrow> vault \<Rightarrow> unit result" where
  "boundary_check p at i v =
     bindR (assert_current_consumed_owner_grant (ps_crypto p) (in_host at) (in_clock at) v (wi_grant i) (grant_input i)) (\<lambda>_. Inr ())"

definition write_guards :: "'k process \<Rightarrow> broker_world \<Rightarrow> write_input \<Rightarrow> app_identity \<Rightarrow> vault \<Rightarrow> guards" where
  "write_guards p w i read_identity v =
     ((\<lambda>observed.
         thenR (assert_observed_matches observed read_identity (wi_expected i))
        (thenR (assert_live_read_identity_and_base (bw_live_before w) (wi_expected i) read_identity)
           (boundary_check p (bw_before w) i v))),
      (\<lambda>minted. case au_github_app minted of
           None \<Rightarrow> throw ''GitHub App write credential is missing repository identity''
         | Some identity \<Rightarrow>
             thenR (assert_live_read_identity_and_base (bw_live_after w) (wi_expected i) identity)
               (boundary_check p (bw_after w) i v)))"

definition app_config :: "'k process \<Rightarrow> broker_world \<Rightarrow> app_credentials result" where
  "app_config p w = bindR (read_auth_config (ps_keys p) (bw_config w) (bw_env w)) (\<lambda>c. case c of
     AppConfig app \<Rightarrow> Inr app
   | GhCliConfig \<Rightarrow> throw ''Owner-authorized publication cannot use gh-cli authentication'')"

text \<open>The \<open>try\<close> around the result.\<close>

definition final_check :: "slug_parts \<Rightarrow> app_identity \<Rightarrow> write_input \<Rightarrow> vault \<Rightarrow> auth_result \<Rightarrow> receipt result" where
  "final_check repository read_identity i v auth =
     (case au_github_app auth of
        None \<Rightarrow> throw ''GitHub App identity changed while minting the write credential''
      | Some identity \<Rightarrow>
          thenR (throw_if (\<not> same_github_identity identity read_identity) ''GitHub App identity changed while minting the write credential'')
         (thenR (assert_identity_matches_expected (sl_slug repository) identity (wi_expected i))
            (owner_authorization_receipt v (wi_grant i))))"

definition resolve_authorized_write_auth ::
  "'k process \<Rightarrow> broker_world \<Rightarrow> jsstr \<Rightarrow> write_input \<Rightarrow> vault \<Rightarrow> sqlite \<Rightarrow> (auth_result \<times> receipt) result \<times> vault \<times> sqlite \<times> event list" where
  "resolve_authorized_write_auth p w slug i v db =
     (case broker_preflight w slug i of
        Inl e \<Rightarrow> (Inl e, v, db, [])
      | Inr (repository, read_identity) \<Rightarrow>
          (case consume_grant p w i v db of
             (Inl e, v', db') \<Rightarrow> (Inl e, v', db', [])
           | (Inr _, v', db') \<Rightarrow>
               (case app_config p w of
                  Inl e \<Rightarrow> (Inl e, v', db', [])
                | Inr app \<Rightarrow>
                    (case app_auth (bw_github w) app repository WriteCap (Some (write_guards p w i read_identity v')) of
                       (Inl e, t) \<Rightarrow> (Inl e, v', db', t)
                     | (Inr auth, t) \<Rightarrow>
                         (case final_check repository read_identity i v' auth of
                            Inl e \<Rightarrow> (Inl e, v', db', t @ [Revoked (au_token auth)])
                          | Inr receipt \<Rightarrow> (Inr (auth, receipt), v', db', t))))))"

end
