(* ===== verification/BrokerFacts.thy ===== *)
theory BrokerFacts
  imports WriteBroker
begin

text \<open>
  What each stage of the write broker establishes: the events of \<open>appAuth\<close>, what consuming a grant
  does to the vault and the ledger, and what the guards have checked when GitHub is asked for a token.
\<close>

section \<open>appAuth\<close>

lemma app_auth_cases:
  assumes "app_auth g app repository c guards = (r, t)"
  obtains (failed) e where "r = Inl e" "t = []"
    | (withdrawn) e token app_slug n where "r = Inl e" "t = [Minted c token, Revoked token]"
        "before_minting g app repository c guards = Inr (app_slug, n)"
    | (minted) auth a app_slug n where "r = Inr auth" "t = [Minted c (au_token auth)]" "gr_token g = Some a"
        "before_minting g app repository c guards = Inr (app_slug, n)" "issued_token a = Some (au_token auth)"
        "after_minting g app repository c guards app_slug n a (au_token auth) = Inr auth"
proof -
  have token: "au_token auth = token" if "after_minting g app repository c guards s n a token = Inr auth" for s n a token auth
    using that by (auto simp: after_minting_def Let_def result_simps)
  show thesis
  proof (cases "(c = WriteCap) \<noteq> (guards \<noteq> None)")
    case True
    with assms show ?thesis by (intro failed) (auto simp: app_auth_def throw_def)
  next
    case guarded: False
    show ?thesis
    proof (cases "before_minting g app repository c guards")
      case (Inl e)
      with assms guarded show ?thesis by (intro failed) (auto simp: app_auth_def throw_def)
    next
      case before: (Inr x)
      obtain s n where x: "x = (s, n)" by (cases x)
      show ?thesis
      proof (cases "Option.bind (gr_token g) (\<lambda>a. map_option (Pair a) (issued_token a))")
        case None
        with assms guarded before x show ?thesis by (intro failed) (auto simp: app_auth_def throw_def)
      next
        case (Some y)
        then obtain a token where y: "y = (a, token)" "gr_token g = Some a" "issued_token a = Some token"
          by (auto simp: bind_eq_Some_conv)
        show ?thesis
        proof (cases "after_minting g app repository c guards s n a token")
          case (Inl e)
          then show ?thesis
            using assms guarded before x Some y(1) by (intro withdrawn [OF _ _ before [unfolded x]]) (auto simp: app_auth_def throw_def)
        next
          case (Inr auth)
          have "r = Inr auth" "t = [Minted c token]"
            using assms guarded before x Some y(1) Inr by (auto simp: app_auth_def)
          with token [OF Inr] Inr y(2,3) before x show ?thesis by (intro minted) auto
        qed
      qed
    qed
  qed
qed

lemma before_minting_guard:
  assumes "before_minting g app repository c (Some (before, after)) = Inr (s, n)"
  shows "before \<lparr>oi_app_id = app_number app, oi_app_slug = s, oi_installation_id = n\<rparr> = Inr ()"
  using assms by (auto simp: before_minting_def result_simps)

lemma app_auth_events:
  assumes "app_auth g app repository c guards = (r, t)" "t \<noteq> []"
  obtains s n where "before_minting g app repository c guards = Inr (s, n)"
  using assms(1)
proof (cases rule: app_auth_cases)
  case (failed e)
  with assms(2) show ?thesis by simp
qed (rule that)+

section \<open>Consuming the grant\<close>

lemma active_genuine:
  assumes "vault_ok v" "owner_authorization_consumption cr h clock v g input = Inr c"
  obtains k st where "g = HObject k" "va_states v k = Some st" "gs_status st = Verified" "c = gs_consumption st" "genuine st"
proof -
  from assms(2) obtain st where "active_grant_state v g = Inr st" "c = gs_consumption st"
    by (auto simp: owner_authorization_consumption_def result_simps)
  with assms(1) show thesis unfolding active_grant_state_eq [OF assms(1)] by (auto simp: vault_ok_def intro: that)
qed

lemma current_expected:
  assumes "vault_ok v" "assert_current_owner_grant cr h clock v (HObject k) input = Inr g" "va_states v k = Some st"
  shows "validate_expected_bindings (vi_expected input) = Inr (expected_bindings (gs_payload st))"
proof -
  from assms(2,3) obtain e where "validate_expected_bindings (vi_expected input) = Inr e" "assert_expected_bindings (gs_payload st) e = Inr ()"
    unfolding assert_current_owner_grant_def bindR_eq_Inr thenR_eq_Inr active_grant_state_eq [OF assms(1)] by auto
  moreover have "genuine st" using assms(1,3) by (simp add: vault_ok_def)
  ultimately show ?thesis using expected_bindings_agree by (auto simp: genuine_def)
qed

lemma consume_grant_Inr:
  assumes ok: "vault_ok v" and run: "consume_grant p w i v db = (Inr u, v', db')"
  obtains k st at where "wi_grant i = HObject k" "va_states v k = Some st" "gs_status st = Verified" "genuine st"
    "validate_expected_bindings (bindings_value (wi_expected i)) = Inr (expected_bindings (gs_payload st))"
    "consume_owner_authorization (cr_hash (ps_crypto p)) (ps_db_env p) (ps_client p) (bw_ledger w) (consumption_value (gs_consumption st)) db =
       (Inr (consumption_receipt (bare_digests (gs_consumption st)) at), db')"
    "v' = v\<lparr>va_states := (va_states v)(k := Some (consumes st (receipt_of (gs_consumption st) at)))\<rparr>"
    "pl_not_before (gs_payload st) \<le> at" "at < pl_expires_at (gs_payload st)"
proof -
  from run obtain g c stored r where steps:
    "assert_current_owner_grant (ps_crypto p) (in_host (bw_check w)) (in_clock (bw_check w)) v (wi_grant i) (grant_input i) = Inr g"
    "owner_authorization_consumption (ps_crypto p) (in_host (bw_read w)) (in_clock (bw_read w)) v (wi_grant i) (grant_input i) = Inr c"
    "consume_owner_authorization (cr_hash (ps_crypto p)) (ps_db_env p) (ps_client p) (bw_ledger w) (consumption_value c) db = (Inr stored, db')"
    "mark_grant_consumed (ps_crypto p) (in_host (bw_mark w)) (in_clock (bw_mark w)) v (wi_grant i) (receipt_value stored) = Inr (r, v')"
    unfolding consume_grant_def by (auto simp: bindR_eq_Inr thenR_eq_Inr split: sum.splits prod.splits)
  from active_genuine [OF ok steps(2)] obtain k st where st: "wi_grant i = HObject k" "va_states v k = Some st" "gs_status st = Verified"
    "c = gs_consumption st" "genuine st" .
  from steps(3) obtain at where at: "sqlite_epoch_milliseconds (mo_before (bw_ledger w)) = Inr at"
    "at < cn_expires_at (gs_consumption st)" "stored = consumption_receipt (bare_digests (gs_consumption st)) at"
    unfolding consume_iff st(4) grant_audited [OF st(5)] by auto
  have window: "pl_expires_at (gs_payload st) \<le> max_timestamp" "cn_expires_at (gs_consumption st) = pl_expires_at (gs_payload st)"
    using st(5) by (auto simp: genuine_def valid_payload_def valid_time_def make_consumption_def)
  then have "valid_time at" using epoch_pos [OF at(1)] at(2) by (simp add: valid_time_def)
  note receipt = ledger_receipt_validates [OF st(5) this]
  from steps(4) have "receipt_matches st r" "r = receipt_of (gs_consumption st) at"
    "v' = v\<lparr>va_states := (va_states v)(k := Some (consumes st r))\<rparr>"
    unfolding mark_grant_consumed_eq [OF ok] at(3) receipt using st(1,2) by auto
  moreover have "validate_expected_bindings (bindings_value (wi_expected i)) = Inr (expected_bindings (gs_payload st))"
    using current_expected [OF ok steps(1) [unfolded st(1)] st(2)] by (simp add: grant_input_def)
  ultimately show thesis
    using st steps(3) at by (intro that [of k st at]) (simp_all add: receipt_matches_def)
qed

section \<open>The guards\<close>

lemma consumes_fields [simp]: "gs_payload (consumes st r) = gs_payload st" "gs_status (consumes st r) = Consumed"
  "gs_receipt (consumes st r) = Some r" "authorized_now cr h path (consumes st r) now = authorized_now cr h path st now"
  by (simp_all add: consumes_def authorized_now_def)

lemma boundary_checked:
  assumes "va_verified v k" "va_states v k = Some (consumes st r)" "valid_payload (gs_payload st)" "wi_grant i = HObject k"
    and "boundary_check p at i v = Inr ()"
  shows "in_window (gs_payload st) (in_clock at) \<and>
    (\<exists>path. resolve_registry_path (in_host at) (JStr (wi_registry_path i)) = Inr path
       \<and> authorized_now (ps_crypto p) (in_host at) path st (in_clock at))"
proof -
  have state: "grant_state_of v (HObject k) = Inr (consumes st r)" using assms(1,2) by (simp add: grant_state_of_def)
  have clock: "valid_timestamp (input_now (vi_now (grant_input i)) c) l = Inr now \<Longrightarrow> now = c" for c l now
    by (auto simp: grant_input_def input_now_def valid_timestamp_eq)
  from assms(5) obtain rc where "assert_current_consumed_owner_grant (ps_crypto p) (in_host at) (in_clock at) v (HObject k) (grant_input i) = Inr rc"
    by (auto simp: boundary_check_def bindR_eq_Inr assms(4))
  then obtain now path where c: "valid_timestamp (input_now (vi_now (grant_input i)) (in_clock at)) ''verification clock'' = Inr now"
    "assert_payload_times (gs_payload st) now = Inr ()" "requested_path (in_host at) (consumes st r) (vi_registry_path (grant_input i)) = Inr path"
    "assert_registry_still_authorizes (ps_crypto p) (in_host at) (consumes st r) path now = Inr ()"
    unfolding assert_current_consumed_owner_grant_def bindR_eq_Inr thenR_eq_Inr state by auto
  have "valid_payload (gs_payload (consumes st r))" using assms(3) by simp
  from c(4) [unfolded assert_registry_still_authorizes_eq [OF this]] c(1-3) clock [OF c(1)] show ?thesis
    unfolding assert_payload_times_window by (auto simp: requested_path_def grant_input_def)
qed

lemma live_checked:
  assumes "assert_live_read_identity_and_base lv expected identity = Inr ()"
  obtains info base_ref where "lv_repository lv = Some info" "lv_base_ref lv = Some base_ref"
    "get (get base_ref (js ''object'')) (js ''sha'') = JStr (bs_sha (eb_base expected))"
    "get info (js ''id'') = jint (rs_id (eb_repository expected))"
  using assms
  by (auto simp: assert_live_read_identity_and_base_def bindR_eq_Inr throw_if_eq_Inr reply_def member_def throw_def
      split: sum.splits option.splits if_splits)

section \<open>The broker\<close>

lemma broker_tokens:
  assumes "resolve_authorized_write_auth p w slug i v db = (r, v', db', t)" "t \<noteq> []"
  obtains repository read_identity u app ra where "broker_preflight w slug i = Inr (repository, read_identity)"
    "consume_grant p w i v db = (Inr u, v', db')" "app_config p w = Inr app"
    "app_auth (bw_github w) app repository WriteCap (Some (write_guards p w i read_identity v')) = ra" "snd ra \<noteq> []"
    "r = (case fst ra of Inl e \<Rightarrow> Inl e | Inr auth \<Rightarrow> bindR (final_check repository read_identity i v' auth) (\<lambda>rc. Inr (auth, rc)))"
    "t = snd ra @ (case fst ra of Inl e \<Rightarrow> [] | Inr auth \<Rightarrow> (if is_ok (final_check repository read_identity i v' auth) then [] else [Revoked (au_token auth)]))"
proof -
  from assms obtain repository read_identity where pre: "broker_preflight w slug i = Inr (repository, read_identity)"
    by (auto simp: resolve_authorized_write_auth_def split: sum.splits prod.splits)
  with assms obtain u v1 db1 where consume: "consume_grant p w i v db = (Inr u, v1, db1)"
    by (auto simp: resolve_authorized_write_auth_def split: sum.splits prod.splits)
  with assms pre obtain app where app: "app_config p w = Inr app"
    by (auto simp: resolve_authorized_write_auth_def split: sum.splits prod.splits)
  obtain ar t1 where auth: "app_auth (bw_github w) app repository WriteCap (Some (write_guards p w i read_identity v1)) = (ar, t1)" by fastforce
  have t1: "t1 \<noteq> []"
  proof
    assume empty: "t1 = []"
    from auth have "\<exists>e. ar = Inl e" by (cases rule: app_auth_cases) (use empty in simp_all)
    then obtain e where "ar = Inl e" by blast
    with empty assms pre consume app auth show False by (simp add: resolve_authorized_write_auth_def)
  qed
  have v': "v' = v1" "db' = db1"
    using assms(1) by (auto simp: resolve_authorized_write_auth_def pre consume app auth split: sum.splits)
  show thesis
  proof (rule that [OF pre consume [folded v'] app auth [folded v']])
    show "snd (ar, t1) \<noteq> []" using t1 by simp
    show "r = (case fst (ar, t1) of Inl e \<Rightarrow> Inl e | Inr auth \<Rightarrow> bindR (final_check repository read_identity i v' auth) (\<lambda>rc. Inr (auth, rc)))"
      "t = snd (ar, t1) @ (case fst (ar, t1) of Inl e \<Rightarrow> [] | Inr auth \<Rightarrow> (if is_ok (final_check repository read_identity i v' auth) then [] else [Revoked (au_token auth)]))"
      using assms(1) by (auto simp: resolve_authorized_write_auth_def pre consume app auth is_ok_def v' split: sum.splits)
  qed
qed

lemma broker_silent:
  assumes "resolve_authorized_write_auth p w slug i v db = (r, v', db', [])"
  shows "\<exists>e. r = Inl e"
proof (rule ccontr)
  assume "\<nexists>e. r = Inl e"
  then obtain x where r: "r = Inr x" by (cases r) auto
  with assms obtain repository read_identity where pre: "broker_preflight w slug i = Inr (repository, read_identity)"
    by (auto simp: resolve_authorized_write_auth_def split: sum.splits prod.splits)
  with assms r obtain u v1 db1 where consume: "consume_grant p w i v db = (Inr u, v1, db1)"
    by (auto simp: resolve_authorized_write_auth_def split: sum.splits prod.splits)
  with assms r pre obtain app where app: "app_config p w = Inr app"
    by (auto simp: resolve_authorized_write_auth_def split: sum.splits prod.splits)
  obtain ar t1 where auth: "app_auth (bw_github w) app repository WriteCap (Some (write_guards p w i read_identity v1)) = (ar, t1)" by fastforce
  with assms r pre consume app have "t1 = []" "\<exists>a. ar = Inr a"
    by (auto simp: resolve_authorized_write_auth_def split: sum.splits)
  with auth show False by (auto elim: app_auth_cases)
qed

lemma after_minting_fields:
  "after_minting g app repository c guards s n a token = Inr auth \<Longrightarrow>
    \<exists>selected identity. assert_github_installation_token_policy (gr_locale g) (gr_engine g) (gr_now g) a n (sl_repo repository) (token_permissions c) = Inr selected
      \<and> au_github_app auth = Some identity \<and> id_repository_id identity = selected \<and> au_mode auth = GitHubApp \<and> au_capability auth = c"
  by (auto simp: after_minting_def Let_def bindR_eq_Inr thenR_eq_Inr)

lemma broker_returned:
  assumes "resolve_authorized_write_auth p w slug i v db = (Inr (auth, receipt), v', db', t)"
  obtains repository read_identity app a n where "parse_repository_slug slug = Inr repository" "t = [Minted WriteCap (au_token auth)]"
    "gr_token (bw_github w) = Some a" "issued_token a = Some (au_token auth)"
    "assert_github_installation_token_policy (gr_locale (bw_github w)) (gr_engine (bw_github w)) (gr_now (bw_github w)) a n (sl_repo repository)
       required_github_app_permissions = Inr (rs_id (eb_repository (wi_expected i)))"
    "au_github_app auth \<noteq> None" "final_check repository read_identity i v' auth = Inr receipt"
    "au_mode auth = GitHubApp" "au_capability auth = WriteCap"
proof -
  have "t \<noteq> []" using broker_silent assms by fastforce
  obtain repository read_identity u app ra where run: "broker_preflight w slug i = Inr (repository, read_identity)"
    "app_auth (bw_github w) app repository WriteCap (Some (write_guards p w i read_identity v')) = ra"
    "Inr (auth, receipt) = (case fst ra of Inl e \<Rightarrow> Inl e | Inr auth \<Rightarrow> bindR (final_check repository read_identity i v' auth) (\<lambda>rc. Inr (auth, rc)))"
    "t = snd ra @ (case fst ra of Inl e \<Rightarrow> [] | Inr auth \<Rightarrow> (if is_ok (final_check repository read_identity i v' auth) then [] else [Revoked (au_token auth)]))"
    by (rule broker_tokens [OF assms \<open>t \<noteq> []\<close>])
  obtain ar t1 where ra: "ra = (ar, t1)" by (cases ra)
  have ar: "ar = Inr auth" "final_check repository read_identity i v' auth = Inr receipt"
    using run(3) [symmetric] by (auto simp: ra bindR_eq_Inr split: sum.splits)
  from run(2) [unfolded ra] show thesis
  proof (cases rule: app_auth_cases)
    case (minted auth1 a s n)
    have same: "auth1 = auth" using minted(1) ar(1) by simp
    from after_minting_fields [OF minted(6)] obtain selected identity where after:
      "assert_github_installation_token_policy (gr_locale (bw_github w)) (gr_engine (bw_github w)) (gr_now (bw_github w)) a n (sl_repo repository)
         (token_permissions WriteCap) = Inr selected"
      "au_github_app auth = Some identity" "id_repository_id identity = selected" "au_mode auth = GitHubApp" "au_capability auth = WriteCap"
      unfolding same by blast
    have "selected = rs_id (eb_repository (wi_expected i))"
      using ar(2) after(2,3) by (auto simp: final_check_def thenR_eq_Inr throw_if_eq_Inr assert_identity_matches_expected_def)
    moreover have "parse_repository_slug slug = Inr repository"
      using run(1) by (auto simp: broker_preflight_def bindR_eq_Inr thenR_eq_Inr split: option.splits)
    moreover have "t = [Minted WriteCap (au_token auth)]"
      using run(4) minted(2) ar by (simp add: ra same)
    ultimately show ?thesis
      using minted(3,5) after ar(2) by (intro that [of repository a n read_identity]) (auto simp: token_permissions_def same)
  qed (use ar in simp_all)
qed

section \<open>Exact permissions\<close>

lemma set_insert_entry: "set (insert_entry le x xs) = insert x (set xs)" "length (insert_entry le x xs) = Suc (length xs)"
  by (induction xs) auto

lemma set_sort_entries [simp]: "set (sort_entries le xs) = set xs" "length (sort_entries le xs) = length xs"
  by (induction xs) (simp_all add: sort_entries_def set_insert_entry)

lemma exact_permissions:
  assumes "assert_exact_permissions le actual expected = Inr ()"
  shows "set (filter (\<lambda>(k, v). v \<noteq> JStr (js ''none'')) (entries actual)) = set (map (\<lambda>(k, v). (k, JStr v)) expected)
    \<and> length (filter (\<lambda>(k, v). v \<noteq> JStr (js ''none'')) (entries actual)) = length expected"
proof -
  from assms have same: "sort_entries le (filter (\<lambda>(k, v). v \<noteq> JStr (js ''none'')) (entries actual)) = sort_entries le (map (\<lambda>(k, v). (k, JStr v)) expected)"
    by (auto simp: assert_exact_permissions_def throw_if_eq_Inr throw_def split: jsval.splits)
  from arg_cong [OF this, of set] arg_cong [OF this, of length] show ?thesis by simp
qed

lemma token_lifetime:
  assumes "assert_token_lifetime c e now = Inr ()"
  obtains created expires where "c = Some created" "e = Some expires" "now < expires" "expires - created \<le> max_installation_token_lifetime_ms"
  using assms by (auto simp: assert_token_lifetime_def throw_if_eq_Inr throw_def split: option.splits)

lemma token_repository:
  "assert_token_repository names ids name = Inr n \<Longrightarrow> elements ids = [jint n]"
  by (auto simp: assert_token_repository_def safe_positive_def bindR_eq_Inr throw_def split: list.splits option.splits jsval.splits jsnum.splits if_splits)

lemma token_policy:
  assumes "assert_github_installation_token_policy le engine now a inst name perms = Inr n"
  shows "get a (js ''installationId'') = jint inst \<and> get a (js ''repositorySelection'') = JStr (js ''selected'')
    \<and> elements (get a (js ''repositoryIds'')) = [jint n] \<and> assert_exact_permissions le (get a (js ''permissions'')) perms = Inr ()
    \<and> assert_token_lifetime (date_parse engine (get a (js ''createdAt''))) (date_parse engine (get a (js ''expiresAt''))) now = Inr ()"
  using assms token_repository
  by (auto simp: assert_github_installation_token_policy_def bindR_eq_Inr thenR_eq_Inr throw_if_eq_Inr)

end
