(* ===== verification/ActiveStore.thy ===== *)
theory ActiveStore
  imports ReplayGuarantees
begin

unbundle bit_operations_syntax

text \<open>
  When the replay store is sound, in terms of the files and rows themselves: the database file and its directory
  belong to the process, the anchor file holds the document of the identity row, the ledger's tables and indexes are
  those of \<open>SCHEMA_SQL\<close>. On such a store an unexpired authorization that shares no key with a stored one is consumed.
\<close>

section \<open>The files\<close>

definition owned :: "disk \<Rightarrow> big_stat \<Rightarrow> bool" where
  "owned d s \<longleftrightarrow> dk_uid d = None \<or> dk_uid d = Some (bg_uid s)"

text \<open>The file \<open>f\<close> is the one the connection opened, and it and its directory are still private (masks 022, 600 and 700).\<close>

definition database_file :: "client \<Rightarrow> disk \<Rightarrow> file_identity \<Rightarrow> bool" where
  "database_file c d f \<longleftrightarrow> cl_open c \<and> cl_identity c = Some f \<and>
     (\<exists>main s dir. cl_main c = Some main \<and> main \<noteq> [] \<and> is_absolute main \<and> dk_realpath d main = Some (fi_database_path f)
        \<and> dk_stat d (fi_database_path f) = Some s \<and> bg_file s \<and> bg_nlink s = 1 \<and> owned d s \<and> bg_mode s AND 0x12 = 0 \<and> bg_mode s AND 0x180 = 0x180
        \<and> fi_device f = nat_text (bg_dev s) \<and> fi_inode f = nat_text (bg_ino s) \<and> fi_link_count f = 1
        \<and> dk_stat d (dir_name (fi_database_path f)) = Some dir \<and> bg_directory dir \<and> owned d dir
        \<and> bg_mode dir AND 0x12 = 0 \<and> bg_mode dir AND 0x1C0 = 0x1C0)"

text \<open>The configured anchor lies at \<open>path\<close>, in a private directory outside the database's.\<close>

definition anchor_place :: "db_env \<Rightarrow> disk \<Rightarrow> file_identity \<Rightarrow> jsstr \<Rightarrow> bool" where
  "anchor_place env d f path \<longleftrightarrow>
     (\<exists>configured parent dir. ev_anchor_path env = Some configured \<and> configured \<noteq> [] \<and> length configured \<le> 4096 \<and> is_absolute configured
        \<and> base_name configured \<notin> {[], js ''.'', js ''..''} \<and> dk_realpath d (dir_name configured) = Some parent
        \<and> dk_stat d parent = Some dir \<and> bg_directory dir \<and> owned d dir \<and> bg_mode dir AND 0x12 = 0 \<and> bg_mode dir AND 0x80 = 0x80
        \<and> path = join_path parent (base_name configured) \<and> path \<noteq> fi_database_path f
        \<and> starts_with (js ''..'') (relative_path (dir_name (fi_database_path f)) path))"

text \<open>The anchor file: private (mask 077), read by its owner, of status \<open>s\<close>, and its contents are the document \<open>a\<close>.\<close>

definition anchor_file :: "disk \<Rightarrow> jsstr \<Rightarrow> big_stat \<Rightarrow> anchor_document \<Rightarrow> bool" where
  "anchor_file d path s a \<longleftrightarrow> anchor_document_ok a \<and> length (anchor_bytes a) \<le> 8192 \<and> bg_size s = length (anchor_bytes a)
     \<and> dk_lstat d path = Some s \<and> dk_open d path = Some s \<and> dk_read d path = Some (anchor_bytes a) \<and> dk_lstat_after d path = Some s
     \<and> bg_file s \<and> bg_nlink s = 1 \<and> owned d s \<and> bg_mode s AND 0x3F = 0 \<and> bg_mode s AND 0x100 = 0x100"

text \<open>The identity row pins the two files to each other.\<close>

definition pinned :: "hash \<Rightarrow> db_env \<Rightarrow> client \<Rightarrow> disk \<Rightarrow> sqlite \<Rightarrow> bool" where
  "pinned h env c d db \<longleftrightarrow>
     (\<exists>f path s store_id at nonce. database_file c d f \<and> anchor_place env d f path
        \<and> anchor_file d path s (make_document store_id f at nonce) \<and> ev_store_id env = Some store_id
        \<and> sq_identity db = Some (make_identity store_id f
             \<lparr>an_path = path, an_device = nat_text (bg_dev s), an_inode = nat_text (bg_ino s),
              an_digest = sha256_hex h (anchor_bytes (make_document store_id f at nonce)), an_document = make_document store_id f at nonce\<rparr> at))"

section \<open>The schema\<close>

text \<open>The ledger's tables have the statements of \<open>SCHEMA_SQL\<close>, its key columns have unique indexes, and there is no trigger.\<close>

definition ledger_schema :: "sqlite \<Rightarrow> bool" where
  "ledger_schema db \<longleftrightarrow> sq_triggers db = []
     \<and> (\<exists>sql. map_of (sq_tables db) (js ''owner_authorization_consumptions'') = Some sql
          \<and> normalize_schema_sql sql = normalize_schema_sql owner_authorization_table_sql)
     \<and> (\<exists>sql. map_of (sq_tables db) (js ''owner_authorization_store_identity'') = Some sql
          \<and> normalize_schema_sql sql = normalize_schema_sql owner_authorization_store_identity_table_sql)
     \<and> sq_indexes db = ledger_auto_indexes @ ledger_indexes"

lemma ledger_schema_verified: "ledger_schema db \<Longrightarrow> verify_owner_authorization_schema db = Inr ()"
  by (auto simp: ledger_schema_def verify_owner_authorization_schema_def matches_table_sql_def missing_unique_columns_def
      assert_index_columns_def ledger_auto_indexes_def ledger_indexes_def required_unique_columns_def simp flip: js_append)

definition durable :: "client \<Rightarrow> disk \<Rightarrow> sqlite \<Rightarrow> bool" where
  "durable c d db \<longleftrightarrow> sq_journal_mode db = js ''delete'' \<and> sq_synchronous db = 2 \<and> sq_fullfsync db = 1
     \<and> (\<exists>f s. database_file c d f \<and> dk_open d (fi_database_path f) = Some s \<and> bg_file s \<and> nat_text (bg_dev s) = fi_device f
        \<and> nat_text (bg_ino s) = fi_inode f \<and> bg_nlink s = 1
        \<and> dk_sync d (fi_database_path f) \<and> dk_sync d (dir_name (fi_database_path f)))"

section \<open>Such a store is sound\<close>

lemma owned_uid: "owned d s \<Longrightarrow> dk_uid d \<noteq> None \<Longrightarrow> Some (bg_uid s) = dk_uid d"
  by (auto simp: owned_def)

lemma stable_file: "database_file c d f \<Longrightarrow> assert_stable_open_file_identity c d = Inr f"
  by (auto simp: database_file_def assert_stable_open_file_identity_def read_durable_file_identity_def os_def same_file_identity_def owned_def)

lemma anchor_configured: "anchor_place env d f path \<Longrightarrow> configured_replay_anchor_path env d f = Inr path"
  by (auto simp: anchor_place_def configured_replay_anchor_path_def os_def owned_def Let_def Suc_le_eq starts_with_def js_Cons)

lemma anchor_read:
  assumes "anchor_file d path s a"
  shows "read_durable_replay_anchor h d path = Inr \<lparr>an_path = path, an_device = nat_text (bg_dev s), an_inode = nat_text (bg_ino s),
    an_digest = sha256_hex h (anchor_bytes a), an_document = a\<rparr>"
proof (rule read_anchor_file)
  have "anchor_bytes a \<noteq> []" unfolding anchor_bytes_def by (simp add: anchor_json_def)
  with assms show "assert_secure_replay_anchor_file d s = Inr ()"
    by (auto simp: anchor_file_def assert_secure_replay_anchor_file_def owned_def max_replay_anchor_bytes_def Suc_le_eq)
qed (use assms in \<open>simp_all add: anchor_file_def max_replay_anchor_bytes_def\<close>)

lemma pinned_sound:
  assumes "pinned h env c d db" "ledger_schema db"
  shows "store_sound h env c d db"
proof -
  obtain f path s store_id at nonce where p: "database_file c d f" "anchor_place env d f path"
    "anchor_file d path s (make_document store_id f at nonce)" "ev_store_id env = Some store_id"
    "sq_identity db = Some (make_identity store_id f
       \<lparr>an_path = path, an_device = nat_text (bg_dev s), an_inode = nat_text (bg_ino s),
        an_digest = sha256_hex h (anchor_bytes (make_document store_id f at nonce)), an_document = make_document store_id f at nonce\<rparr> at)"
    using assms(1) by (auto simp: pinned_def)
  have "is_replay_store_id store_id" using p(3) by (simp add: anchor_file_def anchor_document_ok_def make_document_def)
  then have "configured_replay_store_id env = Inr store_id" by (simp add: configured_replay_store_id_def p(4))
  then show ?thesis
    using stable_file [OF p(1)] anchor_configured [OF p(2)] anchor_read [OF p(3)] ledger_schema_verified [OF assms(2)]
    by (simp add: store_sound_def is_ok_iff assert_initialized_owner_authorization_store_def p(5) assert_exact_store_identity_def
        make_identity_def make_document_def)
qed

lemma durable_syncs:
  assumes "durable c d db"
  shows "is_ok (sync_durable_database_file c d db)"
proof -
  obtain f s where f: "database_file c d f" "dk_open d (fi_database_path f) = Some s" "bg_file s" "nat_text (bg_dev s) = fi_device f"
    "nat_text (bg_ino s) = fi_inode f" "bg_nlink s = 1" "dk_sync d (fi_database_path f)" "dk_sync d (dir_name (fi_database_path f))"
    using assms by (auto simp: durable_def)
  moreover have "fi_link_count f = 1" using f(1) by (auto simp: database_file_def)
  ultimately show ?thesis
    using assms by (simp add: durable_def sync_durable_database_file_def stable_file os_def is_ok_iff)
qed

section \<open>Consuming on it\<close>

text \<open>The three readings of SQLite's clock are before the expiry, the store is the activated one at both looks, and no row shares a key.\<close>

definition ledger_ready :: "hash \<Rightarrow> db_env \<Rightarrow> client \<Rightarrow> moment \<Rightarrow> consumption \<Rightarrow> int \<Rightarrow> sqlite \<Rightarrow> bool" where
  "ledger_ready h env c m cn at db \<longleftrightarrow>
     (\<exists>now later. mo_before m = jint at \<and> mo_after m = jint now \<and> mo_end m = jint later
        \<and> 0 < at \<and> 0 < now \<and> 0 < later \<and> at < cn_expires_at cn \<and> now < cn_expires_at cn \<and> later < cn_expires_at cn)
     \<and> ledger_schema db \<and> pinned h env c (mo_disk m) db \<and> durable c (mo_later m) db \<and> pinned h env c (mo_later m) db
     \<and> (\<forall>q \<in> set (sq_consumptions db). cn_authorization_id q \<noteq> cn_authorization_id cn \<and> cn_envelope_id q \<noteq> cn_envelope_id cn
          \<and> cn_envelope_digest q \<noteq> cn_envelope_digest cn \<and> cn_nonce_digest q \<noteq> cn_nonce_digest cn)"

lemma ready_consumed:
  assumes "ledger_ready h env c m cn at db" "audit_consumption input = Inr cn"
  shows "consume_owner_authorization h env c m input db =
    (Inr (consumption_receipt cn at), db\<lparr>sq_consumptions := sq_consumptions db @ [consumption_receipt cn at]\<rparr>)"
proof -
  have "cn_expires_at cn \<le> max_safe"
    using assms(2) by (auto simp: audit_consumption_def bindR_eq_Inr audit_timestamp_eq max_audit_timestamp_def max_safe_def)
  with assms(1) obtain now later where "sqlite_epoch_milliseconds (mo_before m) = Inr at" "sqlite_epoch_milliseconds (mo_after m) = Inr now"
    "sqlite_epoch_milliseconds (mo_end m) = Inr later" "at < cn_expires_at cn" "now < cn_expires_at cn" "later < cn_expires_at cn"
    by (auto simp: ledger_ready_def sqlite_epoch_milliseconds_def is_positive_safe_def int_value_def)
  moreover have "store_sound h env c (mo_disk m) db" "store_sound h env c (mo_later m) db" "is_ok (sync_durable_database_file c (mo_later m) db)"
    "\<forall>q \<in> set (sq_consumptions db). \<not> replay_conflict (consumption_receipt cn at) q"
    using assms(1) by (auto simp: ledger_ready_def pinned_sound durable_syncs replay_conflict_def consumption_receipt_def consumption.defs)
  ultimately show ?thesis unfolding consume_iff using assms(2) by blast
qed

section \<open>The sample store is such a store\<close>

lemma sample_schema: "ledger_schema (sample_active_db\<lparr>sq_consumptions := rs\<rparr>)"
proof -
  from sample_migrated(1) have "apply_schema (\<lambda>s. s) fresh_sqlite = Inr sample_db"
    by (auto simp: migrate_def transact_Inr bindR_eq_Inr thenR_eq_Inr)
  then have db: "sample_db = (ensure_pilot_audit_columns (exec_schema (\<lambda>s. s) fresh_sqlite))\<lparr>sq_version := schema_version\<rparr>"
    by (auto simp: apply_schema_def Let_def thenR_eq_Inr)
  have "sq_tables sample_db = schema_tables" "sq_triggers sample_db = []" "sq_indexes sample_db = ledger_auto_indexes @ ledger_indexes"
    by (simp_all add: db ensure_pilot_audit_columns_def exec_schema_def schema_tables_def ledger_indexes_def create_table_def fresh_sqlite_def
        has_table_def create_index_def ledger_auto_indexes_def required_unique_columns_def list_ex_iff flip: js_append)
  then show ?thesis by (simp add: ledger_schema_def sample_active_db_def schema_tables_def)
qed

lemma sample_database_file: "database_file sample_client sample_active_disk sample_file"
  using sample_paths sample_path_literals nat_text_small
  by (simp add: database_file_def sample_client_def sample_file_def sample_active_fields sample_disk_def plain_stat_def owned_def)

lemma sample_anchor_file: "anchor_file sample_active_disk sample_anchor_path sample_stats sample_document"
  using sample_document_ok sample_document_size(2)
  by (simp add: anchor_file_def sample_active_disk_def put_file_def sample_stats_def plain_stat_def owned_def sample_disk_def
      max_replay_anchor_bytes_def)

lemma sample_anchor_place: "anchor_place sample_env sample_active_disk sample_file sample_anchor_path"
proof -
  have "sample_anchor_path \<noteq> []" "js ''replay.json'' \<noteq> []" "js ''replay.json'' \<noteq> js ''.''" "js ''replay.json'' \<noteq> js ''..''" by code_simp+
  then show ?thesis
    using sample_paths sample_path_literals
    by (simp add: anchor_place_def sample_env_def sample_file_def sample_active_fields sample_disk_def plain_stat_def owned_def)
qed

lemma sample_pinned: "pinned sample_hash sample_env sample_client sample_active_disk (sample_active_db\<lparr>sq_consumptions := rs\<rparr>)"
proof -
  have "anchor_file sample_active_disk sample_anchor_path sample_stats (make_document (js ''replay-store-0001'') sample_file 1000 (replicate 64 97))"
    using sample_anchor_file by (simp add: sample_document_def)
  moreover have "ev_store_id sample_env = Some (js ''replay-store-0001'')" by (simp add: sample_env_def)
  moreover have "nat_text (bg_dev sample_stats) = js ''1''" "nat_text (bg_ino sample_stats) = js ''9''"
    using nat_text_small by (simp_all add: sample_stats_def plain_stat_def)
  ultimately show ?thesis
    unfolding pinned_def using sample_database_file sample_anchor_place
    by (intro exI conjI) (assumption | simp add: sample_active_db_def sample_identity_def sample_anchor_def sample_document_def)+
qed

lemma sample_durable: "durable sample_client sample_active_disk (sample_active_db\<lparr>sq_consumptions := rs\<rparr>)"
proof -
  have "dk_open sample_active_disk (fi_database_path sample_file) = Some (plain_stat True 2 4096 0x180)" "dk_sync sample_active_disk p" for p
    using sample_paths(1) by (auto simp: sample_active_disk_def put_file_def sample_disk_def sample_file_def)
  then show ?thesis
    using sample_database_file nat_text_small sample_db_fields
    by (auto simp: durable_def sample_active_db_def plain_stat_def sample_file_def)
qed

end
