(* ===== verification/BrokerWorld.thy ===== *)
theory BrokerWorld
  imports BrokerFacts ActiveStore
begin

text \<open>
  A world that agrees with an approval, in terms of the registry file, of what GitHub replies, what the environment holds and what
  the caller passes: the registry is sound and lets the grant's key sign,
  the App, its installation, the issued token, the repository and the base commit are the approved ones, and their permissions
  are the required ones. The broker's configuration and its GitHub stages succeed in such a world.
\<close>

unbundle bit_operations_syntax

section \<open>The registry\<close>

text \<open>A key whose PEM text is the canonical one of an Ed25519 key, with the fingerprint of its DER form.\<close>

definition key_material :: "'k crypto \<Rightarrow> registry_key \<Rightarrow> 'k \<Rightarrow> bool" where
  "key_material cr k key \<longleftrightarrow> cr_import cr (rk_public_key_pem k) = Some key \<and> cr_pem cr key = Some (rk_public_key_pem k)
     \<and> cr_type cr key = js ''ed25519'' \<and> sha256 (cr_hash cr) (cr_der cr key) = rk_fingerprint k"

definition sound_registry :: "'k crypto \<Rightarrow> registry \<Rightarrow> bool" where
  "sound_registry cr r \<longleftrightarrow> rg_keys r \<noteq> [] \<and> length (rg_keys r) \<le> 128 \<and> length (rg_revoked_authorization_ids r) \<le> 10000
     \<and> (\<forall>k \<in> set (rg_keys r). valid_registry_key k \<and> (\<exists>key. key_material cr k key))
     \<and> distinct (map rk_key_id (rg_keys r)) \<and> distinct (map rk_fingerprint (rg_keys r))
     \<and> distinct (map (\<lambda>k. (rk_signer_id k, rk_repository k)) (rg_keys r))
     \<and> (\<forall>s \<in> set (rg_revoked_authorization_ids r). valid_name s) \<and> distinct (rg_revoked_authorization_ids r)"

text \<open>The host shows a private regular file at \<open>path\<close>, outside the workspace, with these contents (mask 077).\<close>

definition private_file :: "host \<Rightarrow> jsstr \<Rightarrow> jsstr \<Rightarrow> jsstr \<Rightarrow> bool" where
  "private_file h path canonical contents \<longleftrightarrow> is_absolute path \<and> ho_read h path = Some contents \<and> ho_realpath h path = Some canonical
     \<and> (\<exists>workspace before opened. ho_realpath h (ho_workspace_root h) = Some workspace \<and> (\<nexists>rest. segments canonical = segments workspace @ rest)
        \<and> ho_lstat h path = Some before \<and> st_file before \<and> \<not> st_symlink before
        \<and> ho_open h path = Some opened \<and> st_file opened \<and> st_dev opened = st_dev before \<and> st_ino opened = st_ino before
        \<and> 0 < st_size opened \<and> st_size opened \<le> 262144
        \<and> (ho_win32 h \<or> st_mode opened AND 0x3F = 0 \<and> (ho_uid h = None \<or> ho_uid h = Some (st_uid opened))))"

text \<open>The file is the canonical text of a sound registry, in which an unrevoked key of the grant may sign its payload now.\<close>

definition registry_authorizes :: "'k crypto \<Rightarrow> host \<Rightarrow> jsstr \<Rightarrow> grant_state \<Rightarrow> int \<Rightarrow> bool" where
  "registry_authorizes cr h path st now \<longleftrightarrow>
     (\<exists>r contents k key. private_file h path (gs_registry_path st) contents \<and> sound_registry cr r
        \<and> canonical_json (registry_value r) = Inr contents \<and> byte_length contents \<le> 262144
        \<and> pl_authorization_id (gs_payload st) \<notin> set (rg_revoked_authorization_ids r) \<and> k \<in> set (rg_keys r)
        \<and> key_authorizes k (gs_payload st) now \<and> rk_fingerprint k = gs_key_fingerprint st
        \<and> key_material cr k key \<and> cr_verify cr key (signed_bytes (gs_payload_bytes st)) (gs_signature_bytes st))"

lemma private_file_read: "private_file h path canonical contents \<Longrightarrow>
    read_owner_only_file h path = Inr \<lparr>rf_canonical_path = canonical, rf_contents = contents\<rparr>"
  unfolding read_owner_only_file_eq private_file_def
  by (auto simp: read_registry_file_def inside_workspace_iff max_registry_bytes_def)

lemma key_material_parsed: "key_material cr k key \<Longrightarrow> parse_registry_public_key cr k = Inr key"
  by (simp add: key_material_def parse_registry_public_key_def)

lemma registry_scope_ok: "valid_registry_key k \<Longrightarrow> is_ok (registry_scope k)"
  unfolding registry_scope_def
  by (intro canonical_obj_ok) (auto simp: scope_value_ok valid_registry_key_def valid_name_def dest: validate_repository_ok)

lemma registry_scope_inject:
  assumes "valid_registry_key k" "valid_registry_key l" "registry_scope k = registry_scope l"
  shows "rk_signer_id k = rk_signer_id l \<and> rk_repository k = rk_repository l"
proof -
  have ok: "ok_repository (rk_repository k)" "ok_repository (rk_repository l)"
    using assms(1,2) by (auto simp: valid_registry_key_def dest: validate_repository_ok)
  obtain t where "registry_scope k = Inr t" "registry_scope l = Inr t"
    using registry_scope_ok [OF assms(1)] assms(3) by (auto simp: is_ok_iff)
  then have "same_json (obj [(js ''signerId'', JStr (rk_signer_id k)), (js ''repository'', repository_value (rk_repository k))])
      (obj [(js ''signerId'', JStr (rk_signer_id l)), (js ''repository'', repository_value (rk_repository l))])"
    by (simp add: registry_scope_def same_json_def)
  then show ?thesis by (subst (asm) same_json_obj_iff) (auto simp: same_repository [OF ok])
qed

lemma keys_checked:
  assumes "\<forall>k \<in> set ks. is_ok (parse_registry_public_key cr k) \<and> is_ok (registry_scope k)"
    and "distinct (map rk_key_id ks)" "set ids \<inter> rk_key_id ` set ks = {}" "distinct (map rk_fingerprint ks)" "set prints \<inter> rk_fingerprint ` set ks = {}"
    and "distinct (map registry_scope ks)" "Inr ` set scopes \<inter> registry_scope ` set ks = {}"
  shows "check_registry_keys cr ids prints scopes ks = Inr ()"
  using assms
proof (induction ks arbitrary: ids prints scopes)
  case (Cons k ks)
  obtain key scope where k: "parse_registry_public_key cr k = Inr key" "registry_scope k = Inr scope"
    using Cons.prems(1) by (auto simp: is_ok_iff)
  then have "check_registry_keys cr (rk_key_id k # ids) (rk_fingerprint k # prints) (scope # scopes) ks = Inr ()"
    using Cons.prems by (intro Cons.IH) auto
  moreover have "rk_key_id k \<notin> set ids" "rk_fingerprint k \<notin> set prints" "scope \<notin> set scopes" using Cons.prems k(2) by auto
  ultimately show ?case using k by simp
qed simp

lemma sound_registry_valid:
  assumes "sound_registry cr r"
  shows "valid_registry cr r"
proof -
  have "distinct (map registry_scope (rg_keys r))"
    using assms registry_scope_inject by (auto simp: sound_registry_def distinct_map inj_on_def)
  then have "check_registry_keys cr [] [] [] (rg_keys r) = Inr ()"
    using assms by (intro keys_checked) (auto simp: sound_registry_def registry_scope_ok key_material_parsed)
  with assms show ?thesis by (simp add: sound_registry_def valid_registry_def)
qed

lemma registry_file_read:
  assumes "private_file h path canonical contents" "sound_registry cr r" "canonical_json (registry_value r) = Inr contents"
    and "byte_length contents \<le> 262144"
  shows "read_registry cr h path = Inr (canonical, r)"
proof -
  obtain j where j: "denotes (registry_value r) j" "\<And>m l. limit_ok m \<Longrightarrow> int (byte_length contents) \<le> m \<Longrightarrow>
      parse_canonical_json (RawString contents) m l = Inr (of_json j)"
    using canonical_parse_denotes [OF wf_registry_value(2) assms(3)] by auto
  have "limit_ok (int max_registry_bytes)" by (simp add: limit_ok_def max_registry_bytes_def max_safe_def)
  then have "ow_parse_canonical (RawString contents) max_registry_bytes l = Inr (of_json j)" for l
    using j(2) assms(4) by (simp add: ow_parse_canonical_def max_registry_bytes_def)
  then show ?thesis
    unfolding read_registry_def by (simp add: private_file_read [OF assms(1)] wire_registry [OF sound_registry_valid [OF assms(2)] j(1)])
qed

lemma registry_authorizes_now: "registry_authorizes cr h path st now \<Longrightarrow> authorized_now cr h path st now"
  unfolding registry_authorizes_def authorized_now_def using registry_file_read key_material_parsed by meson

section \<open>Permissions\<close>

text \<open>The three names have their alphabetical order in the engine's locale.\<close>

definition alphabetical :: "(jsstr \<Rightarrow> jsstr \<Rightarrow> bool) \<Rightarrow> bool" where
  "alphabetical le \<longleftrightarrow> le (js ''contents'') (js ''metadata'') \<and> le (js ''contents'') (js ''pull_requests'') \<and> le (js ''metadata'') (js ''pull_requests'')
     \<and> \<not> le (js ''metadata'') (js ''contents'') \<and> \<not> le (js ''pull_requests'') (js ''contents'') \<and> \<not> le (js ''pull_requests'') (js ''metadata'')"

text \<open>The permissions other than \<open>none\<close> are exactly the three of a write token, in any order.\<close>

definition write_permissions :: "jsval \<Rightarrow> bool" where
  "write_permissions v \<longleftrightarrow> (\<exists>p ps. v = JObj p ps \<and> distinct (object_keys ps) \<and>
     {(k, get v k) | k. k \<in> set (object_keys ps) \<and> get v k \<noteq> JStr (js ''none'')} =
       {(js ''contents'', JStr (js ''write'')), (js ''metadata'', JStr (js ''read'')), (js ''pull_requests'', JStr (js ''write''))})"

lemma three_orders:
  assumes "distinct xs" "set xs = {a, b, c}" "distinct [a, b, c]"
  shows "xs \<in> {[a, b, c], [a, c, b], [b, a, c], [b, c, a], [c, a, b], [c, b, a]}"
proof -
  have "length xs = 3" using assms distinct_card [of xs] by simp
  then obtain x y z where xs: "xs = [x, y, z]" by (auto simp: numeral_3_eq_3 length_Suc_conv)
  with assms(2) have "x \<in> {a, b, c}" "y \<in> {a, b, c}" "z \<in> {a, b, c}" by auto
  with assms(1) show ?thesis unfolding xs by auto
qed

lemma sort_three:
  assumes "distinct xs" "set xs = {(a, u), (b, v), (c, w)}"
    and "le a b" "le a c" "le b c" "\<not> le b a" "\<not> le c a" "\<not> le c b"
  shows "sort_entries le xs = [(a, u), (b, v), (c, w)]"
proof -
  have "distinct [(a, u), (b, v), (c, w)]" using assms(3-8) by auto
  from three_orders [OF assms(1,2) this] assms(3-8) show ?thesis by (auto simp: sort_entries_def)
qed

lemma permissions_exact:
  assumes "write_permissions v" "alphabetical le"
  shows "assert_exact_permissions le v required_github_app_permissions = Inr ()"
proof -
  obtain p ps where v: "v = JObj p ps" "distinct (object_keys ps)"
    "{(k, get v k) | k. k \<in> set (object_keys ps) \<and> get v k \<noteq> JStr (js ''none'')} =
       {(js ''contents'', JStr (js ''write'')), (js ''metadata'', JStr (js ''read'')), (js ''pull_requests'', JStr (js ''write''))}"
    using assms(1) unfolding write_permissions_def by blast
  let ?kept = "filter (\<lambda>(k, v). v \<noteq> JStr (js ''none'')) (entries v)"
  have "set ?kept = {(k, get v k) | k. k \<in> set (object_keys ps) \<and> get v k \<noteq> JStr (js ''none'')}"
    using v(1) by (auto simp: entries_def)
  moreover have "distinct ?kept" using v(1,2) by (auto simp: entries_def distinct_map inj_on_def intro!: distinct_filter)
  ultimately have kept: "sort_entries le ?kept =
      [(js ''contents'', JStr (js ''write'')), (js ''metadata'', JStr (js ''read'')), (js ''pull_requests'', JStr (js ''write''))]"
    using assms(2) unfolding v(3) by (intro sort_three) (simp_all add: alphabetical_def)
  have "sort_entries le (map (\<lambda>(k, v). (k, JStr v)) required_github_app_permissions) =
      [(js ''contents'', JStr (js ''write'')), (js ''metadata'', JStr (js ''read'')), (js ''pull_requests'', JStr (js ''write''))]"
    using assms(2) by (intro sort_three) (simp_all add: alphabetical_def required_github_app_permissions_def)
  with kept show ?thesis using v(1) by (simp add: assert_exact_permissions_def)
qed

section \<open>What GitHub replies\<close>

definition approved_app :: "bindings \<Rightarrow> jsstr \<Rightarrow> jsval \<Rightarrow> bool" where
  "approved_app b app_slug v \<longleftrightarrow> get v (js ''id'') = jint (gh_app_id (eb_github b)) \<and> get v (js ''slug'') = JStr app_slug \<and> app_slug \<noteq> []
     \<and> write_permissions (get v (js ''permissions'')) \<and> get v (js ''events'') = arr []"

definition approved_installation :: "bindings \<Rightarrow> jsval \<Rightarrow> bool" where
  "approved_installation b v \<longleftrightarrow> get v (js ''id'') = jint (gh_installation_id (eb_github b))
     \<and> get v (js ''repository_selection'') = JStr (js ''selected'') \<and> get v (js ''suspended_at'') = JNull
     \<and> write_permissions (get v (js ''permissions'')) \<and> get v (js ''events'') = arr []"

text \<open>The token selects the one repository and lives at most 65 minutes; its creation may lie five minutes ahead of the clock.\<close>

definition approved_token :: "bindings \<Rightarrow> jsstr \<Rightarrow> github \<Rightarrow> jsstr \<Rightarrow> jsval \<Rightarrow> bool" where
  "approved_token b repo g token v \<longleftrightarrow> get v (js ''token'') = JStr token \<and> token \<noteq> []
     \<and> get v (js ''type'') = JStr (js ''token'') \<and> get v (js ''tokenType'') = JStr (js ''installation'')
     \<and> get v (js ''installationId'') = jint (gh_installation_id (eb_github b))
     \<and> get v (js ''repositorySelection'') = JStr (js ''selected'')
     \<and> (\<exists>name. get v (js ''repositoryNames'') = arr [JStr name] \<and> to_lower name = to_lower repo)
     \<and> get v (js ''repositoryIds'') = arr [jint (rs_id (eb_repository b))]
     \<and> write_permissions (get v (js ''permissions''))
     \<and> (\<exists>created expires. date_parse (gr_engine g) (get v (js ''createdAt'')) = Some created
          \<and> date_parse (gr_engine g) (get v (js ''expiresAt'')) = Some expires
          \<and> created \<le> gr_now g + 300000 \<and> gr_now g < expires \<and> created < expires \<and> expires - created \<le> 3900000)"

definition approved_repository :: "bindings \<Rightarrow> jsstr \<Rightarrow> jsval \<Rightarrow> bool" where
  "approved_repository b full_name v \<longleftrightarrow> get v (js ''full_name'') = JStr full_name \<and> to_lower full_name = rs_slug (eb_repository b)
     \<and> get v (js ''id'') = jint (rs_id (eb_repository b)) \<and> get (get v (js ''owner'')) (js ''id'') = jint (rs_owner_id (eb_repository b))"

definition approved_base :: "bindings \<Rightarrow> jsval \<Rightarrow> bool" where
  "approved_base b v \<longleftrightarrow> get (get v (js ''object'')) (js ''sha'') = JStr (bs_sha (eb_base b))"

definition approved_live :: "bindings \<Rightarrow> live \<Rightarrow> bool" where
  "approved_live b lv \<longleftrightarrow> (\<exists>info ref full_name. lv_repository lv = Some info \<and> approved_repository b full_name info
     \<and> lv_base_ref lv = Some ref \<and> approved_base b ref)"

definition approved_github :: "bindings \<Rightarrow> jsstr \<Rightarrow> jsstr \<Rightarrow> jsstr \<Rightarrow> jsstr \<Rightarrow> github \<Rightarrow> bool" where
  "approved_github b repo app_slug token full_name g \<longleftrightarrow> alphabetical (gr_locale g)
     \<and> (\<exists>app inst a info. gr_app g = Some app \<and> approved_app b app_slug app \<and> gr_installation g = Some inst \<and> approved_installation b inst
        \<and> gr_token g = Some a \<and> approved_token b repo g token a \<and> gr_repository g = Some info \<and> approved_repository b full_name info)"

section \<open>What the caller and the environment hold\<close>

definition approved_identity :: "bindings \<Rightarrow> jsstr \<Rightarrow> jsstr \<Rightarrow> app_identity" where
  "approved_identity b app_slug full_name =
     \<lparr>id_app_id = gh_app_id (eb_github b), id_app_slug = app_slug, id_installation_id = gh_installation_id (eb_github b),
      id_repository_id = rs_id (eb_repository b), id_repository_owner_id = jint (rs_owner_id (eb_repository b)), id_repository_slug = full_name\<rparr>"

definition approved_read :: "bindings \<Rightarrow> jsstr \<Rightarrow> auth_result \<Rightarrow> bool" where
  "approved_read b app_slug a \<longleftrightarrow> au_mode a = GitHubApp \<and> au_capability a = ReadCap
     \<and> (\<exists>full_name. au_github_app a = Some (approved_identity b app_slug full_name) \<and> to_lower full_name = rs_slug (eb_repository b))"

text \<open>The App's number and a private RSA key of at least 2048 bits, written with real line feeds; the installation is fixed or left open.\<close>

definition app_environment :: "'k process \<Rightarrow> bindings \<Rightarrow> auth_env \<Rightarrow> bool" where
  "app_environment p b env \<longleftrightarrow> ae_mode env = Some (js ''github-app'') \<and> ae_app_id env = Some (int_text (gh_app_id (eb_github b)))
     \<and> (\<exists>key bits. ae_private_key env = Some key \<and> key \<noteq> [] \<and> 92 \<notin> set key \<and> byte_length key \<le> 65536
          \<and> ps_keys p key = Some (js ''rsa'', bits) \<and> 2048 \<le> bits)
     \<and> ae_private_key_path env = None
     \<and> (ae_installation_id env = None \<or> ae_installation_id env = Some (int_text (gh_installation_id (eb_github b))))"

text \<open>The slug of the call names the approved repository.\<close>

definition approved_slug :: "bindings \<Rightarrow> jsstr \<Rightarrow> jsstr \<Rightarrow> jsstr \<Rightarrow> bool" where
  "approved_slug b slug owner repo \<longleftrightarrow> slug = owner @ [47] @ repo \<and> owner_re owner \<and> \<not> has_sub (js ''--'') owner \<and> repository_re repo
     \<and> repo \<notin> {js ''.'', js ''..''} \<and> \<not> ends_with (js ''.git'') repo \<and> to_lower slug = rs_slug (eb_repository b)"

section \<open>The stages succeed\<close>

lemma member_get: "get v (js k) \<noteq> JUndef \<Longrightarrow> member v k = Inr (get v (js k))"
  by (cases v) (auto simp: member_def)

lemma live_accepts:
  assumes "approved_live b lv"
  shows "assert_live_read_identity_and_base lv b (approved_identity b app_slug full_name) = Inr ()"
proof -
  obtain info ref name where l: "lv_repository lv = Some info" "approved_repository b name info" "lv_base_ref lv = Some ref" "approved_base b ref"
    using assms by (auto simp: approved_live_def)
  then show ?thesis
    by (simp add: assert_live_read_identity_and_base_def reply_def member_get approved_repository_def approved_base_def lower_of_def
        approved_identity_def)
qed

lemma identity_accepts:
  "to_lower full_name = rs_slug (eb_repository b) \<Longrightarrow> to_lower slug = rs_slug (eb_repository b)
    \<Longrightarrow> assert_identity_matches_expected slug (approved_identity b app_slug full_name) b = Inr ()"
  by (simp add: assert_identity_matches_expected_def approved_identity_def)

lemma observed_accepts:
  "assert_observed_matches \<lparr>oi_app_id = gh_app_id (eb_github b), oi_app_slug = app_slug, oi_installation_id = gh_installation_id (eb_github b)\<rparr>
    (approved_identity b app_slug full_name) b = Inr ()"
  by (simp add: assert_observed_matches_def approved_identity_def)

lemma same_accepts: "to_lower n = to_lower m \<Longrightarrow> same_github_identity (approved_identity b app_slug n) (approved_identity b app_slug m)"
  by (simp add: same_github_identity_def approved_identity_def)

lemma owner_plain: "owner_re owner \<Longrightarrow> list_all (\<lambda>c. is_alnum c \<or> c = 45) owner \<and> owner \<noteq> []"
proof -
  assume o: "owner_re owner"
  then obtain c cs where s: "owner = c # cs" by (auto simp: owner_re_def split: list.splits)
  with o show ?thesis by (cases cs rule: rev_cases) (auto simp: owner_re_def)
qed

lemma alnum_plain: "is_alnum c \<Longrightarrow> c \<noteq> 47 \<and> \<not> is_space c"
  by (auto simp: class_defs word_le_nat_alt)

lemma slug_parses:
  assumes "approved_slug b slug owner repo"
  shows "parse_repository_slug slug = Inr \<lparr>sl_owner = owner, sl_repo = repo, sl_slug = slug\<rparr>"
proof -
  have s: "slug = owner @ 47 # repo" "owner_re owner" "repository_re repo" using assms by (simp_all add: approved_slug_def)
  have plain: "\<not> is_space 45" "\<not> is_space 46" "\<not> is_space 47" "\<not> is_space 95" "\<not> is_alnum 47" by code_simp+
  have owner: "list_all (\<lambda>c. c \<noteq> 47 \<and> \<not> is_space c) owner" "owner \<noteq> []"
    using owner_plain [OF s(2)] alnum_plain plain by (auto simp: list_all_iff)
  have repo: "list_all (\<lambda>c. c \<noteq> 47 \<and> \<not> is_space c) repo" "repo \<noteq> []"
    using s(3) alnum_plain plain by (auto simp: repository_re_def list_all_iff in_class_def js_def js_char_def)
  have "trim slug = slug" using owner(1) repo(1) plain(3) by (intro trim_no_space) (auto simp: s(1) list_all_iff)
  moreover have "47 \<notin> set owner" "47 \<notin> set repo" using owner repo by (auto simp: list_all_iff)
  then have "split_on 47 slug = [owner, repo]" by (simp add: s(1) split_on_append split_on_absent)
  ultimately show ?thesis
    using assms unfolding parse_repository_slug_def validate_slug_eq by (auto simp: approved_slug_def)
qed

lemma preflight_accepts:
  assumes "approved_slug (wi_expected i) slug owner repo" "approved_read (wi_expected i) app_slug (wi_read_auth i)"
    and "approved_live (wi_expected i) (bw_live_start w)"
  obtains full_name where "to_lower full_name = rs_slug (eb_repository (wi_expected i))"
    "broker_preflight w slug i = Inr (\<lparr>sl_owner = owner, sl_repo = repo, sl_slug = slug\<rparr>, approved_identity (wi_expected i) app_slug full_name)"
proof -
  obtain n where n: "au_github_app (wi_read_auth i) = Some (approved_identity (wi_expected i) app_slug n)"
    "to_lower n = rs_slug (eb_repository (wi_expected i))" "au_mode (wi_read_auth i) = GitHubApp" "au_capability (wi_read_auth i) = ReadCap"
    using assms(2) by (auto simp: approved_read_def)
  have "to_lower slug = rs_slug (eb_repository (wi_expected i))" using assms(1) unfolding approved_slug_def by blast
  with n have "broker_preflight w slug i = Inr (\<lparr>sl_owner = owner, sl_repo = repo, sl_slug = slug\<rparr>, approved_identity (wi_expected i) app_slug n)"
    by (simp add: broker_preflight_def slug_parses [OF assms(1)] live_accepts [OF assms(3)] identity_accepts)
  with n(2) show thesis by (rule that)
qed

section \<open>Configuration and minting\<close>

lemma decimal_text: "0 < n \<Longrightarrow> n \<le> max_safe \<Longrightarrow> positive_decimal (int_text n) \<and> safe_number (int_text n) = Some n \<and> trim (int_text n) = int_text n \<and> int_text n \<noteq> []"
proof -
  assume n: "0 < n" "n \<le> max_safe"
  then have shown: "int_text n = nat_text (nat n)" by (simp add: int_text_def)
  have "hd (nat_text (nat n)) \<noteq> 48" using nat_text_leading [of "nat n"] n(1) by (auto simp: js_char_def)
  moreover have "list_all (\<lambda>c. \<not> is_space c) (nat_text (nat n))"
    using nat_text_digits [of "nat n"] by (auto simp: list_all_iff class_defs word_le_nat_alt)
  ultimately show ?thesis
    using n nat_text_digits [of "nat n"] by (simp add: shown positive_decimal_def safe_number_def trim_no_space)
qed

lemma unescape_plain: "92 \<notin> set key \<Longrightarrow> unescape_newlines key = key"
  by (induction key rule: unescape_newlines.induct) auto

definition approved_scope :: "bindings \<Rightarrow> bool" where
  "approved_scope b \<longleftrightarrow> 0 < gh_app_id (eb_github b) \<and> gh_app_id (eb_github b) \<le> max_safe
     \<and> 0 < gh_installation_id (eb_github b) \<and> gh_installation_id (eb_github b) \<le> max_safe
     \<and> 0 < rs_id (eb_repository b) \<and> rs_id (eb_repository b) \<le> max_safe"

lemma valid_scope: "valid_bindings b \<Longrightarrow> approved_scope b"
  by (auto simp: valid_bindings_def approved_scope_def validate_github_def validate_repository_def github_value_def repository_value_def
      revalidate_simps positive_safe)

lemma config_accepts:
  assumes "app_environment p b (bw_env w)" "approved_scope b"
  obtains app where "app_config p w = Inr app" "app_number app = gh_app_id (eb_github b)"
    "ac_installation_id app = None \<or> ac_installation_id app = Some (gh_installation_id (eb_github b))"
proof -
  let ?env = "bw_env w"
  obtain key bits where key: "ae_private_key ?env = Some key" "key \<noteq> []" "92 \<notin> set key" "byte_length key \<le> 65536"
    "ps_keys p key = Some (js ''rsa'', bits)" "2048 \<le> bits" using assms(1) by (auto simp: app_environment_def)
  have env: "ae_mode ?env = Some (js ''github-app'')" "ae_app_id ?env = Some (int_text (gh_app_id (eb_github b)))" "ae_private_key_path ?env = None"
    using assms(1) by (simp_all add: app_environment_def)
  have app: "positive_decimal (int_text (gh_app_id (eb_github b)))" "safe_number (int_text (gh_app_id (eb_github b))) = Some (gh_app_id (eb_github b))"
    "int_text (gh_app_id (eb_github b)) \<noteq> []" using decimal_text [of "gh_app_id (eb_github b)"] assms(2) by (simp_all add: approved_scope_def)
  obtain n where n: "read_installation_id (ae_installation_id ?env) = Inr n" "n = None \<or> n = Some (gh_installation_id (eb_github b))"
  proof -
    have "read_installation_id (ae_installation_id ?env) = Inr None \<or> read_installation_id (ae_installation_id ?env) = Inr (Some (gh_installation_id (eb_github b)))"
      using assms decimal_text [of "gh_installation_id (eb_github b)"] by (auto simp: app_environment_def approved_scope_def read_installation_id_def)
    with that show thesis by blast
  qed
  have valid: "validate_private_key (ps_keys p) key = Inr key" using key by (simp add: validate_private_key_def max_private_key_bytes_def)
  have "app_config p w = Inr \<lparr>ac_app_id = int_text (gh_app_id (eb_github b)), ac_private_key = key, ac_installation_id = n\<rparr>"
    using env key(1,2) app n(1) valid unescape_plain [OF key(3)]
    by (simp add: app_config_def read_auth_config_def read_app_credentials_def truthy_def)
  moreover have "app_number \<lparr>ac_app_id = int_text (gh_app_id (eb_github b)), ac_private_key = key, ac_installation_id = n\<rparr> = gh_app_id (eb_github b)"
    using app(2) by (simp add: app_number_def safe_number_def split: if_splits)
  ultimately show thesis using n(2) that by auto
qed

lemma before_minting_accepts:
  assumes "approved_github b (sl_repo repository) app_slug token full_name g" "approved_scope b" "app_number app = gh_app_id (eb_github b)"
    and "ac_installation_id app = None \<or> ac_installation_id app = Some (gh_installation_id (eb_github b))" "sl_repo repository \<noteq> []"
  shows "before_minting g app repository c None = Inr (app_slug, gh_installation_id (eb_github b))"
proof -
  obtain a inst where r: "gr_app g = Some a" "approved_app b app_slug a" "gr_installation g = Some inst" "approved_installation b inst"
    "alphabetical (gr_locale g)" using assms(1) by (auto simp: approved_github_def)
  have app: "assert_github_app_policy (gr_locale g) a (gh_app_id (eb_github b)) = Inr app_slug"
    using r(2) permissions_exact [OF _ r(5)] by (simp add: approved_app_def assert_github_app_policy_def assert_no_events_def)
  have inst: "assert_github_installation_policy (gr_locale g) inst = Inr ()"
    using r(4) permissions_exact [OF _ r(5)] by (simp add: approved_installation_def assert_github_installation_policy_def assert_no_events_def member_get)
  have "assert_configured_installation_id (ac_installation_id app) (get inst (js ''id'')) = Inr (gh_installation_id (eb_github b))"
    using r(4) assms(2,4) by (auto simp: approved_installation_def assert_configured_installation_id_def safe_positive_def approved_scope_def)
  with r(1,3) app inst assms(2,3,5) show ?thesis
    by (simp add: before_minting_def reply_def github_installation_token_options_def approved_scope_def)
qed

definition approved_auth :: "bindings \<Rightarrow> jsstr \<Rightarrow> jsstr \<Rightarrow> jsstr \<Rightarrow> auth_result" where
  "approved_auth b app_slug token full_name =
     \<lparr>au_token = token, au_actor = app_slug @ js ''[bot]'', au_mode = GitHubApp, au_capability = WriteCap,
      au_github_app = Some (approved_identity b app_slug full_name)\<rparr>"

lemma token_accepts:
  assumes "approved_token b repo g token a" "approved_scope b" "alphabetical (gr_locale g)"
  shows "assert_github_installation_token_policy (gr_locale g) (gr_engine g) (gr_now g) a (gh_installation_id (eb_github b)) repo
    required_github_app_permissions = Inr (rs_id (eb_repository b))"
proof -
  obtain name created expires where t: "get a (js ''repositoryNames'') = arr [JStr name]" "to_lower name = to_lower repo"
    "date_parse (gr_engine g) (get a (js ''createdAt'')) = Some created" "date_parse (gr_engine g) (get a (js ''expiresAt'')) = Some expires"
    "created \<le> gr_now g + 300000" "gr_now g < expires" "created < expires" "expires - created \<le> 3900000"
    using assms(1) by (auto simp: approved_token_def)
  have "assert_token_repository (get a (js ''repositoryNames'')) (get a (js ''repositoryIds'')) repo = Inr (rs_id (eb_repository b))"
    using assms(1,2) t(1,2) by (simp add: assert_token_repository_def approved_token_def lower_of_def safe_positive_def approved_scope_def)
  moreover have "assert_token_lifetime (Some created) (Some expires) (gr_now g) = Inr ()"
    using t(5-8) by (simp add: assert_token_lifetime_def token_clock_skew_ms_def max_installation_token_lifetime_ms_def)
  ultimately show ?thesis
    using assms t(3,4) permissions_exact [OF _ assms(3)]
    by (simp add: assert_github_installation_token_policy_def approved_token_def approved_scope_def)
qed

lemma after_minting_accepts:
  assumes "approved_github b (sl_repo repository) app_slug token full_name g" "approved_scope b" "app_number app = gh_app_id (eb_github b)"
    and "to_lower (sl_slug repository) = rs_slug (eb_repository b)"
  obtains a where "gr_token g = Some a" "issued_token a = Some token"
    "after_minting g app repository WriteCap None app_slug (gh_installation_id (eb_github b)) a token = Inr (approved_auth b app_slug token full_name)"
proof -
  obtain a info where r: "gr_token g = Some a" "approved_token b (sl_repo repository) g token a" "gr_repository g = Some info"
    "approved_repository b full_name info" "alphabetical (gr_locale g)" using assms(1) by (auto simp: approved_github_def)
  have "after_minting g app repository WriteCap None app_slug (gh_installation_id (eb_github b)) a token = Inr (approved_auth b app_slug token full_name)"
    using token_accepts [OF r(2) assms(2) r(5)] r(3,4) assms(3,4)
    by (simp add: after_minting_def token_permissions_def reply_def member_get approved_repository_def lower_of_def approved_auth_def
        approved_identity_def)
  moreover have "issued_token a = Some token" using r(2) by (simp add: issued_token_def approved_token_def)
  ultimately show thesis using r(1) that by blast
qed

end
