(* ===== verification/BrokerLiveness.thy ===== *)
theory BrokerLiveness
  imports BrokerWorld
begin

text \<open>
  When the write broker succeeds: with a GitHub whose replies show the approved identities, a ledger that is the activated
  store and holds no conflicting row, and an authorized grant, it returns the token.
\<close>

section \<open>appAuth with agreeing guards\<close>

lemma before_minting_guarded:
  assumes "before_minting g app repository c None = Inr (s, n)"
    and "before \<lparr>oi_app_id = app_number app, oi_app_slug = s, oi_installation_id = n\<rparr> = Inr ()"
  shows "before_minting g app repository c (Some (before, after)) = Inr (s, n)"
  using assms by (auto simp: before_minting_def bindR_eq_Inr thenR_eq_Inr)

lemma after_minting_guarded:
  assumes "after_minting g app repository c None s n a token = Inr auth" "after auth = Inr ()"
  shows "after_minting g app repository c (Some (before, after)) s n a token = Inr auth"
  using assms by (auto simp: after_minting_def bindR_eq_Inr thenR_eq_Inr Let_def)

lemma app_auth_returns:
  assumes "before_minting g app repository WriteCap None = Inr (s, n)"
    and "before \<lparr>oi_app_id = app_number app, oi_app_slug = s, oi_installation_id = n\<rparr> = Inr ()"
    and "gr_token g = Some a" "issued_token a = Some token"
    and "after_minting g app repository WriteCap None s n a token = Inr auth" "after auth = Inr ()"
  shows "app_auth g app repository WriteCap (Some (before, after)) = (Inr auth, [Minted WriteCap token])"
  using before_minting_guarded [of g app repository WriteCap s n before after] after_minting_guarded [of g app repository WriteCap s n a token auth after before]
    assms by (simp add: app_auth_def)

section \<open>The owner's part\<close>

text \<open>The grant may be used at this moment: the clock is in its window and the registry authorizes its key.\<close>

definition usable_at :: "'k process \<Rightarrow> instant \<Rightarrow> write_input \<Rightarrow> grant_state \<Rightarrow> bool" where
  "usable_at p at i st \<longleftrightarrow> valid_time (in_clock at) \<and> in_window (gs_payload st) (in_clock at) \<and>
     wi_registry_path i \<noteq> [] \<and> byte_length (wi_registry_path i) \<le> 4096 \<and> is_absolute (wi_registry_path i)
     \<and> registry_authorizes (ps_crypto p) (in_host at) (resolve_path (wi_registry_path i)) st (in_clock at)"

lemma usable_path:
  assumes "usable_at p at i st"
  obtains path where "resolve_registry_path (in_host at) (JStr (wi_registry_path i)) = Inr path"
    "authorized_now (ps_crypto p) (in_host at) path st (in_clock at)"
proof -
  have "registry_authorizes (ps_crypto p) (in_host at) (resolve_path (wi_registry_path i)) st (in_clock at)"
    using assms unfolding usable_at_def by blast
  moreover have "resolve_registry_path (in_host at) (JStr (wi_registry_path i)) = Inr (resolve_path (wi_registry_path i))"
    using assms unfolding usable_at_def resolve_registry_path_def by simp
  ultimately show thesis by (blast intro: that registry_authorizes_now)
qed

lemma bindings_value_shape: "bindings_value b \<noteq> JUndef" "bindings_value b \<noteq> JNull"
  by (simp_all add: bindings_value_def obj_def)

lemma current_when_usable:
  assumes "vault_ok v" "va_states v k = Some st" "gs_status st = Verified" "wi_grant i = HObject k"
    and "wi_expected i = expected_bindings (gs_payload st)" "usable_at p at i st"
  shows "assert_current_owner_grant (ps_crypto p) (in_host at) (in_clock at) v (wi_grant i) (grant_input i) = Inr (wi_grant i)"
    and "owner_authorization_consumption (ps_crypto p) (in_host at) (in_clock at) v (wi_grant i) (grant_input i) = Inr (gs_consumption st)"
proof -
  have genuine: "genuine st" using assms(1,2) by (simp add: vault_ok_def)
  have active: "active_grant_state v (wi_grant i) = Inr st" unfolding active_grant_state_eq [OF assms(1)] using assms(2-4) by blast
  have payload: "valid_payload (gs_payload st)" using genuine by (simp add: genuine_def)
  have expected: "validate_expected_bindings (bindings_value (wi_expected i)) = Inr (expected_bindings (gs_payload st))"
    using payload by (simp add: assms(5) valid_payload_def valid_bindings_accepted)
  have agree: "assert_expected_bindings (gs_payload st) (expected_bindings (gs_payload st)) = Inr ()"
    using genuine expected expected_bindings_agree by (auto simp: genuine_def)
  have clock: "valid_timestamp (input_now (vi_now (grant_input i)) (in_clock at)) l = Inr (in_clock at)" for l
    using assms(6) by (simp add: usable_at_def grant_input_def input_now_def valid_timestamp_eq valid_time_def)
  obtain path where path: "resolve_registry_path (in_host at) (JStr (wi_registry_path i)) = Inr path"
    "authorized_now (ps_crypto p) (in_host at) path st (in_clock at)" by (rule usable_path [OF assms(6)])
  have window: "assert_payload_times (gs_payload st) (in_clock at) = Inr ()"
    unfolding assert_payload_times_window using assms(6) by (simp add: usable_at_def)
  have registry: "assert_registry_still_authorizes (ps_crypto p) (in_host at) st path (in_clock at) = Inr ()"
    unfolding assert_registry_still_authorizes_eq [OF payload] by (rule path(2))
  have requested: "requested_path (in_host at) st (vi_registry_path (grant_input i)) = Inr path"
    by (simp add: requested_path_def grant_input_def path(1))
  show current: "assert_current_owner_grant (ps_crypto p) (in_host at) (in_clock at) v (wi_grant i) (grant_input i) = Inr (wi_grant i)"
    unfolding assert_current_owner_grant_def active
    using clock expected agree window requested registry by (simp add: grant_input_def)
  then show "owner_authorization_consumption (ps_crypto p) (in_host at) (in_clock at) v (wi_grant i) (grant_input i) = Inr (gs_consumption st)"
    unfolding owner_authorization_consumption_def active by (simp add: grant_input_def bindings_value_shape)
qed

lemma boundary_when_usable:
  assumes "va_verified v k" "va_states v k = Some (consumes st r)" "valid_payload (gs_payload st)" "genuine st" "wi_grant i = HObject k"
    and "wi_expected i = expected_bindings (gs_payload st)" "usable_at p at i st"
  shows "boundary_check p at i v = Inr ()"
proof -
  have state: "grant_state_of v (wi_grant i) = Inr (consumes st r)" using assms(1,2,5) by (simp add: grant_state_of_def)
  have expected: "validate_expected_bindings (bindings_value (wi_expected i)) = Inr (expected_bindings (gs_payload st))"
    using assms(3) by (simp add: assms(6) valid_payload_def valid_bindings_accepted)
  have agree: "assert_expected_bindings (gs_payload st) (expected_bindings (gs_payload st)) = Inr ()"
    using assms(4) expected expected_bindings_agree by (auto simp: genuine_def)
  have clock: "valid_timestamp (input_now (vi_now (grant_input i)) (in_clock at)) l = Inr (in_clock at)" for l
    using assms(7) by (simp add: usable_at_def grant_input_def input_now_def valid_timestamp_eq valid_time_def)
  obtain path where path: "resolve_registry_path (in_host at) (JStr (wi_registry_path i)) = Inr path"
    "authorized_now (ps_crypto p) (in_host at) path st (in_clock at)" by (rule usable_path [OF assms(7)])
  have window: "assert_payload_times (gs_payload st) (in_clock at) = Inr ()"
    unfolding assert_payload_times_window using assms(7) by (simp add: usable_at_def)
  have payload: "valid_payload (gs_payload (consumes st r))" using assms(3) by simp
  have registry: "assert_registry_still_authorizes (ps_crypto p) (in_host at) (consumes st r) path (in_clock at) = Inr ()"
    unfolding assert_registry_still_authorizes_eq [OF payload] using path(2) by simp
  have requested: "requested_path (in_host at) (consumes st r) (vi_registry_path (grant_input i)) = Inr path"
    by (simp add: requested_path_def grant_input_def path(1))
  show ?thesis
    unfolding boundary_check_def assert_current_consumed_owner_grant_def state
    using clock expected agree window requested registry by (simp add: consumed_receipt_def grant_input_def)
qed

section \<open>A run that succeeds\<close>

lemma broker_run:
  assumes grant: "vault_ok v" "va_states v k = Some st" "gs_status st = Verified" "wi_grant i = HObject k"
      "wi_expected i = expected_bindings (gs_payload st)"
    and usable: "usable_at p (bw_check w) i st" "usable_at p (bw_read w) i st" "usable_at p (bw_before w) i st" "usable_at p (bw_after w) i st"
      "valid_time (in_clock (bw_mark w))" "in_window (gs_payload st) (in_clock (bw_mark w))"
      "authorized_now (ps_crypto p) (in_host (bw_mark w)) (gs_registry_path st) st (in_clock (bw_mark w))"
    and ledger: "consume_owner_authorization (cr_hash (ps_crypto p)) (ps_db_env p) (ps_client p) (bw_ledger w) (consumption_value (gs_consumption st)) db =
        (Inr (consumption_receipt (bare_digests (gs_consumption st)) at), db')"
      "valid_time at" "in_window (gs_payload st) at"
    and github: "broker_preflight w slug i = Inr (repository, read_identity)" "app_config p w = Inr app"
      "before_minting (bw_github w) app repository WriteCap None = Inr (s, n)"
      "assert_observed_matches \<lparr>oi_app_id = app_number app, oi_app_slug = s, oi_installation_id = n\<rparr> read_identity (wi_expected i) = Inr ()"
      "assert_live_read_identity_and_base (bw_live_before w) (wi_expected i) read_identity = Inr ()"
      "gr_token (bw_github w) = Some a" "issued_token a = Some token"
      "after_minting (bw_github w) app repository WriteCap None s n a token = Inr auth" "au_github_app auth = Some identity"
      "assert_live_read_identity_and_base (bw_live_after w) (wi_expected i) identity = Inr ()"
      "same_github_identity identity read_identity" "assert_identity_matches_expected (sl_slug repository) identity (wi_expected i) = Inr ()"
  shows "resolve_authorized_write_auth p w slug i v db =
    (Inr (auth, receipt_of (gs_consumption st) at),
     v\<lparr>va_states := (va_states v)(k := Some (consumes st (receipt_of (gs_consumption st) at)))\<rparr>, db', [Minted WriteCap token])"
proof -
  let ?rc = "receipt_of (gs_consumption st) at"
  let ?v = "v\<lparr>va_states := (va_states v)(k := Some (consumes st ?rc))\<rparr>"
  have genuine: "genuine st" using grant(1,2) by (simp add: vault_ok_def)
  have payload: "valid_payload (gs_payload st)" using genuine by (simp add: genuine_def)
  have verified: "va_verified ?v k" using grant(1,2) by (simp add: vault_ok_def)
  have state: "va_states ?v k = Some (consumes st ?rc)" by simp
  have "receipt_matches st ?rc" using ledger(3) by (simp add: receipt_matches_def in_window_def)
  then have mark: "mark_grant_consumed (ps_crypto p) (in_host (bw_mark w)) (in_clock (bw_mark w)) v (wi_grant i)
      (receipt_value (consumption_receipt (bare_digests (gs_consumption st)) at)) = Inr (?rc, ?v)"
    unfolding mark_grant_consumed_eq [OF grant(1)] ledger_receipt_validates [OF genuine ledger(2)]
    using grant usable(5-7) by blast
  have consumed: "assert_consumed_owner_grant ?v (wi_grant i) = Inr ?rc"
    using verified by (simp add: assert_consumed_owner_grant_def grant_state_of_def grant(4) consumed_receipt_def)
  have consume: "consume_grant p w i v db = (Inr (), ?v, db')"
    unfolding consume_grant_def
    using current_when_usable(1) [OF grant usable(1)] current_when_usable(2) [OF grant usable(2)] ledger(1) mark consumed by simp
  note boundary = boundary_when_usable [OF verified state payload genuine grant(4,5)]
  have auth: "app_auth (bw_github w) app repository WriteCap (Some (write_guards p w i read_identity ?v)) = (Inr auth, [Minted WriteCap token])"
    unfolding write_guards_def
    using github(4,5,9,10) boundary [OF usable(3)] boundary [OF usable(4)]
    by (intro app_auth_returns [OF github(3) _ github(6-8)]) simp_all
  have "final_check repository read_identity i ?v auth = Inr ?rc"
    using github(9,11,12) consumed by (simp add: final_check_def owner_authorization_receipt_def)
  then show ?thesis
    unfolding resolve_authorized_write_auth_def using github(1,2) consume auth by simp
qed

section \<open>A run in an agreeing world\<close>

lemma expected_scope: "genuine st \<Longrightarrow> approved_scope (expected_bindings (gs_payload st))"
  by (rule valid_scope) (simp add: genuine_def valid_payload_def)

lemma grant_ready:
  assumes "genuine st" "ledger_ready h env c m (bare_digests (gs_consumption st)) at db"
  shows "consume_owner_authorization h env c m (consumption_value (gs_consumption st)) db =
      (Inr (consumption_receipt (bare_digests (gs_consumption st)) at),
       db\<lparr>sq_consumptions := sq_consumptions db @ [consumption_receipt (bare_digests (gs_consumption st)) at]\<rparr>)"
    and "valid_time at"
proof -
  show "consume_owner_authorization h env c m (consumption_value (gs_consumption st)) db =
      (Inr (consumption_receipt (bare_digests (gs_consumption st)) at),
       db\<lparr>sq_consumptions := sq_consumptions db @ [consumption_receipt (bare_digests (gs_consumption st)) at]\<rparr>)"
    by (rule ready_consumed [OF assms(2) grant_audited [OF assms(1)]])
  have "cn_expires_at (bare_digests (gs_consumption st)) \<le> max_timestamp"
    using assms(1) by (auto simp: genuine_def valid_payload_def valid_time_def make_consumption_def bare_digests_def)
  with assms(2) show "valid_time at" by (auto simp: ledger_ready_def valid_time_def)
qed

lemma broker_agreeing_run:
  assumes grant: "vault_ok v" "va_states v k = Some st" "gs_status st = Verified" "wi_grant i = HObject k"
      "wi_expected i = expected_bindings (gs_payload st)"
    and usable: "usable_at p (bw_check w) i st" "usable_at p (bw_read w) i st" "usable_at p (bw_before w) i st" "usable_at p (bw_after w) i st"
      "valid_time (in_clock (bw_mark w))" "in_window (gs_payload st) (in_clock (bw_mark w))"
      "registry_authorizes (ps_crypto p) (in_host (bw_mark w)) (gs_registry_path st) st (in_clock (bw_mark w))"
    and ledger: "ledger_ready (cr_hash (ps_crypto p)) (ps_db_env p) (ps_client p) (bw_ledger w) (bare_digests (gs_consumption st)) at db"
      "in_window (gs_payload st) at"
    and request: "approved_slug (wi_expected i) slug owner repo" "approved_read (wi_expected i) app_slug (wi_read_auth i)"
      "app_environment p (wi_expected i) (bw_env w)"
    and github: "approved_github (wi_expected i) repo app_slug token full_name (bw_github w)" "approved_live (wi_expected i) (bw_live_start w)"
      "approved_live (wi_expected i) (bw_live_before w)" "approved_live (wi_expected i) (bw_live_after w)"
  shows "resolve_authorized_write_auth p w slug i v db =
    (Inr (approved_auth (wi_expected i) app_slug token full_name, receipt_of (gs_consumption st) at),
     v\<lparr>va_states := (va_states v)(k := Some (consumes st (receipt_of (gs_consumption st) at)))\<rparr>,
     db\<lparr>sq_consumptions := sq_consumptions db @ [consumption_receipt (bare_digests (gs_consumption st)) at]\<rparr>, [Minted WriteCap token])"
proof -
  let ?b = "wi_expected i" and ?rep = "\<lparr>sl_owner = owner, sl_repo = repo, sl_slug = slug\<rparr>"
  have genuine: "genuine st" using grant(1,2) by (simp add: vault_ok_def)
  have scope: "approved_scope ?b" unfolding grant(5) by (rule expected_scope [OF genuine])
  have slug: "to_lower slug = rs_slug (eb_repository ?b)" "repo \<noteq> []"
    using request(1) unfolding approved_slug_def repository_re_def by auto
  have full: "to_lower full_name = rs_slug (eb_repository ?b)" using github(1) by (auto simp: approved_github_def approved_repository_def)
  obtain name where pre: "to_lower name = rs_slug (eb_repository ?b)" "broker_preflight w slug i = Inr (?rep, approved_identity ?b app_slug name)"
    by (rule preflight_accepts [OF request(1,2) github(2)])
  obtain app where app: "app_config p w = Inr app" "app_number app = gh_app_id (eb_github ?b)"
    "ac_installation_id app = None \<or> ac_installation_id app = Some (gh_installation_id (eb_github ?b))"
    by (rule config_accepts [OF request(3) scope])
  have before: "before_minting (bw_github w) app ?rep WriteCap None = Inr (app_slug, gh_installation_id (eb_github ?b))"
    using before_minting_accepts [OF _ scope app(2,3), of ?rep] github(1) slug(2) by simp
  obtain a where after: "gr_token (bw_github w) = Some a" "issued_token a = Some token"
    "after_minting (bw_github w) app ?rep WriteCap None app_slug (gh_installation_id (eb_github ?b)) a token = Inr (approved_auth ?b app_slug token full_name)"
    by (rule after_minting_accepts [where repository = "?rep", OF _ scope app(2)]) (use github(1) slug(1) in simp_all)
  have identity: "au_github_app (approved_auth ?b app_slug token full_name) = Some (approved_identity ?b app_slug full_name)"
    by (simp add: approved_auth_def)
  show ?thesis
    by (rule broker_run [OF grant usable(1-6) registry_authorizes_now [OF usable(7)] grant_ready [OF genuine ledger(1)] ledger(2) pre(2) app(1) before _ live_accepts [OF github(3)]
        after identity live_accepts [OF github(4)]])
      (simp_all add: app(2) observed_accepts same_accepts full pre(1) identity_accepts slug(1))
qed

end
