(* ===== verification/BrokerSample.thy ===== *)
theory BrokerSample
  imports BrokerLiveness ReplayClaims
begin

text \<open>A sample run of the write broker: the sample grant, the sample replay store and an agreeing GitHub.\<close>

section \<open>GitHub's replies\<close>

definition policy_value :: jsval where
  "policy_value = obj [(js ''contents'', JStr (js ''write'')), (js ''metadata'', JStr (js ''read'')), (js ''pull_requests'', JStr (js ''write''))]"

definition sample_repository_reply :: jsval where
  "sample_repository_reply = obj [(js ''full_name'', JStr (js ''acme/app'')), (js ''id'', jint 11), (js ''owner'', obj [(js ''id'', jint 12)])]"

definition sample_token_reply :: jsval where
  "sample_token_reply = obj
     [(js ''type'', JStr (js ''token'')), (js ''tokenType'', JStr (js ''installation'')), (js ''token'', JStr (js ''ghs_1'')),
      (js ''installationId'', jint 22), (js ''createdAt'', JStr (js ''1970-01-01T00:00:03Z'')),
      (js ''expiresAt'', JStr (js ''1970-01-01T01:00:03Z'')), (js ''repositorySelection'', JStr (js ''selected'')),
      (js ''repositoryNames'', arr [JStr (js ''app'')]), (js ''repositoryIds'', arr [jint 11]), (js ''permissions'', policy_value)]"

definition sample_github :: github where
  "sample_github =
     \<lparr>gr_app = Some (obj [(js ''id'', jint 21), (js ''slug'', JStr (js ''migrator'')), (js ''permissions'', policy_value), (js ''events'', arr [])]),
      gr_installation = Some (obj [(js ''id'', jint 22), (js ''repository_selection'', JStr (js ''selected'')), (js ''suspended_at'', JNull),
        (js ''permissions'', policy_value), (js ''events'', arr [])]),
      gr_token = Some sample_token_reply, gr_repository = Some sample_repository_reply, gr_now = 3000,
      gr_locale = (\<le>), gr_engine = (\<lambda>_. None)\<rparr>"

definition sample_live :: live where
  "sample_live = \<lparr>lv_repository = Some sample_repository_reply,
     lv_base_ref = Some (obj [(js ''object'', obj [(js ''sha'', JStr sample_sha)])])\<rparr>"

definition sample_app_identity :: app_identity where
  "sample_app_identity = \<lparr>id_app_id = 21, id_app_slug = js ''migrator'', id_installation_id = 22, id_repository_id = 11,
     id_repository_owner_id = jint 12, id_repository_slug = js ''acme/app''\<rparr>"

definition sample_auth :: auth_result where
  "sample_auth = \<lparr>au_token = js ''ghs_1'', au_actor = js ''migrator[bot]'', au_mode = GitHubApp, au_capability = WriteCap,
     au_github_app = Some sample_app_identity\<rparr>"

lemma sample_app_number: "int_text 21 = js ''21''" "js ''21'' \<noteq> []"
  by code_simp+

lemma sample_times_parsed: "zulu_instant (js ''1970-01-01T00:00:03Z'') = Some 3000" "zulu_instant (js ''1970-01-01T01:00:03Z'') = Some 3603000"
  by code_simp+

lemma sample_lower: "to_lower (js ''acme/app'') = js ''acme/app''" "js ''migrator'' \<noteq> []" "js ''ghs_1'' \<noteq> []"
  by code_simp+

lemma sample_scopes: "rs_slug (eb_repository sample_bindings) = js ''acme/app''" "rs_id (eb_repository sample_bindings) = 11"
  "rs_owner_id (eb_repository sample_bindings) = 12" "gh_app_id (eb_github sample_bindings) = 21" "gh_installation_id (eb_github sample_bindings) = 22"
  "bs_sha (eb_base sample_bindings) = sample_sha"
  by (simp_all add: sample_bindings_def sample_repository_def Let_def)

lemma policy_write: "write_permissions policy_value"
proof -
  have keys: "js ''contents'' \<noteq> js ''metadata''" "js ''contents'' \<noteq> js ''pull_requests''" "js ''metadata'' \<noteq> js ''pull_requests''"
    "js ''write'' \<noteq> js ''none''" "js ''read'' \<noteq> js ''none''" by code_simp+
  let ?kvs = "[(js ''contents'', JStr (js ''write'')), (js ''metadata'', JStr (js ''read'')), (js ''pull_requests'', JStr (js ''write''))]"
  let ?ps = "map (\<lambda>(k, v). (PStr k, DData v True)) ?kvs"
  have ps: "policy_value = JObj ObjectProto ?ps" "object_keys ?ps = map fst ?kvs"
    by (simp only: policy_value_def obj_def) (rule object_keys_plain)
  have gets: "get policy_value (js ''contents'') = JStr (js ''write'')" "get policy_value (js ''metadata'') = JStr (js ''read'')"
    "get policy_value (js ''pull_requests'') = JStr (js ''write'')" by (simp_all add: policy_value_def get_obj)
  have "{(k, get policy_value k) | k. k \<in> {js ''contents'', js ''metadata'', js ''pull_requests''} \<and> get policy_value k \<noteq> JStr (js ''none'')} =
      {(js ''contents'', JStr (js ''write'')), (js ''metadata'', JStr (js ''read'')), (js ''pull_requests'', JStr (js ''write''))}"
    using gets keys(4,5) by fastforce
  moreover have "set (object_keys ?ps) = {js ''contents'', js ''metadata'', js ''pull_requests''}" "distinct (object_keys ?ps)"
    unfolding ps(2) using keys(1-3) by simp_all
  ultimately show ?thesis unfolding write_permissions_def using ps(1) by (intro exI [of _ ObjectProto] exI [of _ ?ps]) (simp only: simp_thms)
qed

lemma sample_alphabetical: "alphabetical (\<le>)"
  by code_simp

lemma sample_repository_approved: "approved_repository sample_bindings (js ''acme/app'') sample_repository_reply"
  by (simp add: approved_repository_def sample_scopes sample_repository_reply_def get_obj sample_lower)

lemma sample_live_approved: "approved_live sample_bindings sample_live"
  using sample_repository_approved by (auto simp: approved_live_def approved_base_def sample_live_def sample_scopes get_obj)

lemma sample_token_approved: "approved_token sample_bindings (js ''app'') sample_github (js ''ghs_1'') sample_token_reply"
proof -
  have "date_parse (gr_engine sample_github) (JStr (js ''1970-01-01T00:00:03Z'')) = Some 3000"
    "date_parse (gr_engine sample_github) (JStr (js ''1970-01-01T01:00:03Z'')) = Some 3603000" "gr_now sample_github = 3000"
    by (simp_all add: date_parse_def sample_times_parsed sample_github_def)
  then show ?thesis
    using policy_write by (simp add: approved_token_def sample_token_reply_def get_obj sample_scopes sample_lower)
qed

lemma sample_github_approved: "approved_github sample_bindings (js ''app'') (js ''migrator'') (js ''ghs_1'') (js ''acme/app'') sample_github"
proof -
  have "approved_app sample_bindings (js ''migrator'') (the (gr_app sample_github))" "approved_installation sample_bindings (the (gr_installation sample_github))"
    using policy_write by (simp_all add: approved_app_def approved_installation_def sample_github_def get_obj sample_scopes sample_lower)
  then show ?thesis
    using sample_token_approved sample_repository_approved sample_alphabetical
    unfolding approved_github_def by (auto simp: sample_github_def)
qed

section \<open>The process and the call\<close>

definition sample_process :: "jsstr process" where
  "sample_process = \<lparr>ps_crypto = sample_crypto, ps_keys = (\<lambda>_. Some (js ''rsa'', 2048)), ps_db_env = sample_env, ps_client = sample_client\<rparr>"

definition sample_auth_env :: auth_env where
  "sample_auth_env = \<lparr>ae_mode = Some (js ''github-app''), ae_node_env = None, ae_app_id = Some (js ''21''), ae_private_key = Some (js ''key''),
     ae_private_key_path = None, ae_installation_id = None\<rparr>"

definition sample_instant :: instant where
  "sample_instant = \<lparr>in_host = sample_host, in_clock = 3000\<rparr>"

definition sample_world :: broker_world where
  "sample_world = \<lparr>bw_live_start = sample_live, bw_check = sample_instant, bw_read = sample_instant, bw_ledger = sample_moment,
     bw_mark = sample_instant, bw_config = sample_host, bw_env = sample_auth_env, bw_github = sample_github, bw_live_before = sample_live,
     bw_before = sample_instant, bw_live_after = sample_live, bw_after = sample_instant\<rparr>"

definition sample_write :: write_input where
  "sample_write = \<lparr>wi_read_auth = sample_auth\<lparr>au_capability := ReadCap\<rparr>, wi_grant = HObject 0, wi_expected = sample_bindings,
     wi_registry_path = sample_path\<rparr>"

lemma sample_fields_write: "au_github_app (wi_read_auth sample_write) = Some sample_app_identity" "au_mode (wi_read_auth sample_write) = GitHubApp"
  "au_capability (wi_read_auth sample_write) = ReadCap" "wi_expected sample_write = sample_bindings" "wi_grant sample_write = HObject 0"
  "wi_registry_path sample_write = sample_path"
  by (simp_all add: sample_write_def sample_auth_def)

lemma sample_fields_world: "bw_live_start sample_world = sample_live" "bw_live_before sample_world = sample_live" "bw_live_after sample_world = sample_live"
  "bw_check sample_world = sample_instant" "bw_read sample_world = sample_instant" "bw_mark sample_world = sample_instant"
  "bw_before sample_world = sample_instant" "bw_after sample_world = sample_instant" "bw_ledger sample_world = sample_moment"
  "bw_github sample_world = sample_github" "gr_token sample_github = Some sample_token_reply"
  "ps_crypto sample_process = sample_crypto" "ps_db_env sample_process = sample_env" "ps_client sample_process = sample_client"
  "in_host sample_instant = sample_host" "in_clock sample_instant = 3000" "cr_hash sample_crypto = sample_hash"
  "au_github_app sample_auth = Some sample_app_identity"
  by (simp_all add: sample_world_def sample_github_def sample_process_def sample_instant_def sample_crypto_def sample_auth_def)

lemma sample_slug_approved: "approved_slug sample_bindings (js ''acme/app'') (js ''acme'') (js ''app'')"
proof -
  have "js ''acme/app'' = js ''acme'' @ [47] @ js ''app''" "owner_re (js ''acme'')" "\<not> has_sub (js ''--'') (js ''acme'')" "repository_re (js ''app'')"
    "js ''app'' \<notin> {js ''.'', js ''..''}" "\<not> ends_with (js ''.git'') (js ''app'')" by code_simp+
  then show ?thesis unfolding approved_slug_def sample_scopes using sample_lower(1) by blast
qed

lemma sample_read_approved: "approved_read sample_bindings (js ''migrator'') (wi_read_auth sample_write)"
proof -
  have "sample_app_identity = approved_identity sample_bindings (js ''migrator'') (js ''acme/app'')"
    by (simp add: sample_app_identity_def approved_identity_def sample_scopes)
  then show ?thesis 
    unfolding approved_read_def sample_scopes using sample_fields_write(1-3) sample_lower(1)
    by (intro conjI exI [of _ "js ''acme/app''"]) (simp_all only:)
qed

lemma sample_environment: "app_environment sample_process sample_bindings (bw_env sample_world)"
proof -
  have "byte_length (js ''key'') = 3" by code_simp
  then have "byte_length (js ''key'') \<le> 65536" by simp
  moreover have "92 \<notin> set (js ''key'')" "js ''key'' \<noteq> []" by code_simp+
  moreover have "ps_keys sample_process (js ''key'') = Some (js ''rsa'', 2048)" by (simp add: sample_process_def)
  moreover have "ae_mode (bw_env sample_world) = Some (js ''github-app'')" "ae_app_id (bw_env sample_world) = Some (js ''21'')"
    "ae_private_key (bw_env sample_world) = Some (js ''key'')" "ae_private_key_path (bw_env sample_world) = None"
    "ae_installation_id (bw_env sample_world) = None" by (simp_all add: sample_world_def sample_auth_env_def)
  ultimately show ?thesis
    unfolding app_environment_def sample_scopes sample_app_number(1)
    by (intro conjI exI [of _ "js ''key''"] exI [of _ 2048] disjI1) (simp_all only: order.refl not_False_eq_True)
qed

section \<open>The run\<close>

lemma sample_registry_sound: "sound_registry sample_crypto sample_registry"
proof -
  have "valid_registry_key sample_key" using sample_registry_valid by (simp add: valid_registry_def sample_registry_def)
  moreover have "key_material sample_crypto sample_key (js ''pem'')" by (simp add: key_material_def sample_crypto_def sample_key_def)
  ultimately show ?thesis by (auto simp: sound_registry_def sample_registry_def)
qed

lemma sample_registry_file: "private_file sample_host sample_path sample_path (registry_text sample_registry)"
proof -
  have "\<not> inside_workspace (js ''/srv/app'') sample_path" by code_simp
  moreover have "(0x8180 :: 32 word) AND 0x3F = 0" by simp
  ultimately show ?thesis
    using sample_path_absolute by (simp add: private_file_def sample_host_def host_with_def sample_stat_def flip: inside_workspace_iff)
qed

lemma sample_authorizes:
  assumes "authorized_now sample_crypto sample_host sample_path st 3000"
  shows "registry_authorizes sample_crypto sample_host sample_path st 3000"
proof -
  obtain k key where k: "gs_registry_path st = sample_path" "pl_authorization_id (gs_payload st) \<notin> set (rg_revoked_authorization_ids sample_registry)"
    "k \<in> set (rg_keys sample_registry)" "key_authorizes k (gs_payload st) 3000" "rk_fingerprint k = gs_key_fingerprint st"
    "parse_registry_public_key sample_crypto k = Inr key" "cr_verify sample_crypto key (signed_bytes (gs_payload_bytes st)) (gs_signature_bytes st)"
    using assms by (auto simp: authorized_now_def sample_read_registry)
  have printed: "canonical_json (registry_value sample_registry) = Inr (registry_text sample_registry)"
    using registry_prints [OF sample_registry_valid] by (auto simp: registry_text_def is_ok_iff)
  have "byte_length (registry_text sample_registry) \<le> 262144" using sample_registry_size by (simp add: max_registry_bytes_def)
  moreover have "key_material sample_crypto k key"
    using k(3,6) by (simp add: sample_registry_def key_material_def parse_registry_public_key_def sample_crypto_def sample_key_def split: if_splits)
  ultimately show ?thesis
    unfolding registry_authorizes_def k(1) using sample_registry_file sample_registry_sound printed k(2-5,7) by blast
qed

lemma sample_usable:
  assumes "gs_payload st = sample_payload" "registry_authorizes sample_crypto sample_host sample_path st 3000"
  shows "usable_at sample_process sample_instant sample_write st"
proof -
  have "resolve_path sample_path = sample_path" "is_absolute sample_path" "byte_length sample_path \<le> 4096" by code_simp+
  moreover have "sample_path \<noteq> []" by (simp add: sample_path_def js_def)
  ultimately show ?thesis
    using assms sample_times by (simp add: usable_at_def sample_instant_def sample_write_def sample_process_def)
qed

lemma sample_auth_approved: "approved_auth sample_bindings (js ''migrator'') (js ''ghs_1'') (js ''acme/app'') = sample_auth"
proof -
  have "js ''migrator'' @ js ''[bot]'' = js ''migrator[bot]''" by code_simp
  then show ?thesis by (simp add: approved_auth_def sample_auth_def sample_app_identity_def approved_identity_def sample_scopes)
qed

lemma sample_empty: "sq_consumptions sample_active_db = []"
  using sample_db_fields by (simp add: sample_active_db_def)

lemma sample_ready:
  assumes "genuine st" "gs_payload st = sample_payload"
  shows "ledger_ready sample_hash sample_env sample_client sample_moment (bare_digests (gs_consumption st)) 3000 sample_active_db"
proof -
  have same: "sample_active_db\<lparr>sq_consumptions := []\<rparr> = sample_active_db" using sample_db_fields by (simp add: sample_active_db_def)
  have "cn_expires_at (bare_digests (gs_consumption st)) = 500000"
    using assms by (auto simp: genuine_def make_consumption_def bare_digests_def sample_payload_def Let_def)
  moreover have "sq_consumptions sample_active_db = []" using sample_db_fields by (simp add: sample_active_db_def)
  ultimately show ?thesis
    using sample_schema [of "[]"] sample_pinned [of "[]"] sample_durable [of "[]"] unfolding same ledger_ready_def by (simp add: sample_moment_def)
qed

text \<open>The sample grant in its vault, and the run that spends it.\<close>

lemma sample_usable_grant:
  obtains v st where "vault_ok v" "va_states v 0 = Some st" "gs_status st = Verified" "wi_expected sample_write = expected_bindings (gs_payload st)"
    "usable_at sample_process sample_instant sample_write st" "genuine st" "gs_payload st = sample_payload"
    "registry_authorizes sample_crypto sample_host (gs_registry_path st) st 3000" "reachable sample_crypto v"
proof -
  obtain st where st: "reachable sample_crypto (snd (add_grant empty_vault st))" "genuine st" "gs_status st = Verified"
    "gs_payload st = sample_payload" "authorized_now sample_crypto sample_host (gs_registry_path st) st 3000"
    "va_states (snd (add_grant empty_vault st)) 0 = Some st" "gs_registry_path st = sample_path" by (rule sample_grant)
  have auth: "registry_authorizes sample_crypto sample_host sample_path st 3000" using sample_authorizes [of st] st(5,7) by simp
  note st
  moreover have "vault_ok (snd (add_grant empty_vault st))" by (rule reachable_ok [OF hash32_sample_crypto st(1)])
  moreover have "registry_authorizes sample_crypto sample_host (gs_registry_path st) st 3000" using auth st(7) by simp
  moreover have "wi_expected sample_write = expected_bindings (gs_payload st)" by (simp add: sample_fields_write st(4) sample_expected)
  moreover have "usable_at sample_process sample_instant sample_write st" by (rule sample_usable [OF st(4) auth])
  ultimately show thesis using that by blast
qed

lemma sample_run:
  obtains v st where "reachable (ps_crypto sample_process) v" "va_states v 0 = Some st" "gs_status st = Verified" "genuine st"
    "gs_payload st = sample_payload"
    "resolve_authorized_write_auth sample_process sample_world (js ''acme/app'') sample_write v sample_active_db =
      (Inr (sample_auth, receipt_of (gs_consumption st) 3000),
       v\<lparr>va_states := (va_states v)(0 := Some (consumes st (receipt_of (gs_consumption st) 3000)))\<rparr>,
       sample_active_db\<lparr>sq_consumptions := [consumption_receipt (bare_digests (gs_consumption st)) 3000]\<rparr>, [Minted WriteCap (js ''ghs_1'')])"
proof -
  obtain v st where st: "vault_ok v" "va_states v 0 = Some st" "gs_status st = Verified" "wi_expected sample_write = expected_bindings (gs_payload st)"
    "usable_at sample_process sample_instant sample_write st" "genuine st" "gs_payload st = sample_payload"
    "registry_authorizes sample_crypto sample_host (gs_registry_path st) st 3000" "reachable sample_crypto v" by (rule sample_usable_grant)
  have "resolve_authorized_write_auth sample_process sample_world (js ''acme/app'') sample_write v sample_active_db =
      (Inr (sample_auth, receipt_of (gs_consumption st) 3000),
       v\<lparr>va_states := (va_states v)(0 := Some (consumes st (receipt_of (gs_consumption st) 3000)))\<rparr>,
       sample_active_db\<lparr>sq_consumptions := [consumption_receipt (bare_digests (gs_consumption st)) 3000]\<rparr>, [Minted WriteCap (js ''ghs_1'')])"
    using broker_agreeing_run [OF st(1-3) sample_fields_write(5) st(4), of sample_process sample_world 3000 sample_active_db "js ''acme/app''"
        "js ''acme''" "js ''app''" "js ''migrator''" "js ''ghs_1''" "js ''acme/app''"]
      sample_ready [OF st(6,7)] sample_slug_approved sample_read_approved sample_environment sample_github_approved sample_live_approved st
    by (simp add: sample_fields_world sample_fields_write sample_times sample_auth_approved sample_empty)
  with st show thesis using that [of v st] by (simp only: sample_fields_world)
qed

end
