(* ===== verification/BrokerClaims.thy ===== *)
theory BrokerClaims
  imports BrokerSample
begin

text \<open>
  The properties of the write broker: GitHub is asked for a write token only after the owner's
  authorization has been consumed for good, a token the caller does not get is revoked, the token
  it gets has exactly the permissions it needs, and one envelope yields at most one token. The grant
  and the ledger, which check the same fields with their own code, agree.
\<close>

section \<open>The seam between the grant and the ledger\<close>

text \<open>Every verified grant passes the ledger's own validation of its fields, which was written independently in another package: the
  ledger sees the same consumption, with its digests unprefixed.\<close>

theorem verified_grants_pass_audit:
  assumes "reachable cr v" "hash32 (cr_hash cr)" "va_states v k = Some st"
  shows "audit_consumption (consumption_value (gs_consumption st)) = Inr (bare_digests (gs_consumption st))"
  using grant_audited reachable_ok [OF assms(2,1)] assms(3) by (simp add: vault_ok_def)

lemma verified_grants_pass_audit_witness:
  "\<exists>st :: grant_state. gs_payload st = sample_payload \<and> audit_consumption (consumption_value (gs_consumption st)) = Inr (bare_digests (gs_consumption st))"
proof -
  obtain v st where st: "reachable sample_crypto v" "va_states v 0 = Some st" "gs_payload st = sample_payload" by (rule sample_usable_grant)
  from verified_grants_pass_audit [OF st(1) hash32_sample_crypto st(2)] st(3) show ?thesis by blast
qed

text \<open>C12: the receipt that the ledger stores for a verified grant, with its unprefixed digests, is validated by the grant into the receipt
  with exactly the grant's own fields and the ledger's time.\<close>

theorem ledger_receipt_roundtrip:
  assumes "reachable cr v" "hash32 (cr_hash cr)" "va_states v k = Some st" "0 < at" "at \<le> 8640000000000000"
  shows "validate_receipt (receipt_value (consumption_receipt (bare_digests (gs_consumption st)) at)) = Inr (receipt_of (gs_consumption st) at)"
proof -
  have "genuine st" using reachable_ok [OF assms(2,1)] assms(3) by (simp add: vault_ok_def)
  moreover have "valid_time at" using assms(4,5) by (simp add: valid_time_def max_timestamp_def)
  ultimately show ?thesis by (rule ledger_receipt_validates)
qed

lemma ledger_receipt_roundtrip_witness:
  "\<exists>st :: grant_state. gs_payload st = sample_payload
    \<and> validate_receipt (receipt_value (consumption_receipt (bare_digests (gs_consumption st)) 3000)) = Inr (receipt_of (gs_consumption st) 3000)"
proof -
  obtain v st where st: "reachable sample_crypto v" "va_states v 0 = Some st" "gs_payload st = sample_payload" by (rule sample_usable_grant)
  from ledger_receipt_roundtrip [OF st(1) hash32_sample_crypto st(2), of 3000] st(3) show ?thesis by auto
qed

section \<open>Authority\<close>

lemma sample_process_hash: "hash32 (cr_hash (ps_crypto sample_process))"
  using hash32_sample_crypto by (simp add: sample_fields_world)

text \<open>C6: GitHub issues a write token only after the owner's verified grant has been consumed: the vault then holds it as
  consumed, the replay ledger has gained exactly its receipt, which conflicts with no other row, the expected bindings are the
  signed ones, and right before the request the grant was in its window, the registry still authorized its key and the live base
  commit was the approved one.\<close>

theorem token_needs_consumption:
  assumes "hash32 (cr_hash (ps_crypto p))" "reachable (ps_crypto p) v"
    and "resolve_authorized_write_auth p w slug i v db = (r, v', db', t)" "t \<noteq> []"
  shows "\<exists>k st at path base_ref. wi_grant i = HObject k \<and> va_states v k = Some st \<and> gs_status st = Verified
    \<and> va_states v' k = Some (consumes st (receipt_of (gs_consumption st) at))
    \<and> sq_consumptions db' = sq_consumptions db @ [consumption_receipt (bare_digests (gs_consumption st)) at]
    \<and> list_all (\<lambda>q. \<not> replay_conflict (consumption_receipt (bare_digests (gs_consumption st)) at) q) (sq_consumptions db)
    \<and> validate_expected_bindings (bindings_value (wi_expected i)) = Inr (expected_bindings (gs_payload st))
    \<and> in_window (gs_payload st) (in_clock (bw_before w))
    \<and> authorized_now (ps_crypto p) (in_host (bw_before w)) path st (in_clock (bw_before w))
    \<and> lv_base_ref (bw_live_before w) = Some base_ref
    \<and> get (get base_ref (js ''object'')) (js ''sha'') = JStr (bs_sha (eb_base (wi_expected i)))"
proof -
  have ok: "vault_ok v" by (rule reachable_ok [OF assms(1,2)])
  obtain repository read_identity u app ra where run: "consume_grant p w i v db = (Inr u, v', db')"
    "app_auth (bw_github w) app repository WriteCap (Some (write_guards p w i read_identity v')) = ra" "snd ra \<noteq> []"
    by (rule broker_tokens [OF assms(3,4)])
  from consume_grant_Inr [OF ok run(1)] obtain k st at where st: "wi_grant i = HObject k" "va_states v k = Some st" "gs_status st = Verified"
    "genuine st" "validate_expected_bindings (bindings_value (wi_expected i)) = Inr (expected_bindings (gs_payload st))"
    "consume_owner_authorization (cr_hash (ps_crypto p)) (ps_db_env p) (ps_client p) (bw_ledger w) (consumption_value (gs_consumption st)) db =
       (Inr (consumption_receipt (bare_digests (gs_consumption st)) at), db')"
    "v' = v\<lparr>va_states := (va_states v)(k := Some (consumes st (receipt_of (gs_consumption st) at)))\<rparr>" .
  obtain ar t1 where ra: "ra = (ar, t1)" by (cases ra)
  then have "t1 \<noteq> []" using run(3) by simp
  then obtain s n where "before_minting (bw_github w) app repository WriteCap (Some (write_guards p w i read_identity v')) = Inr (s, n)"
    by (rule app_auth_events [OF run(2) [unfolded ra]])
  from before_minting_guard [OF this [unfolded write_guards_def]]
  have guard: "assert_live_read_identity_and_base (bw_live_before w) (wi_expected i) read_identity = Inr ()"
    "boundary_check p (bw_before w) i v' = Inr ()" by (simp_all add: thenR_eq_Inr)
  have "va_verified v k = (va_states v k \<noteq> None)" using ok unfolding vault_ok_def by blast
  then have "va_verified v' k" "va_states v' k = Some (consumes st (receipt_of (gs_consumption st) at))"
    by (simp_all add: st(2,7))
  moreover have "valid_payload (gs_payload st)" using st(4) by (simp add: genuine_def)
  ultimately obtain path where "in_window (gs_payload st) (in_clock (bw_before w))"
    "authorized_now (ps_crypto p) (in_host (bw_before w)) path st (in_clock (bw_before w))"
    using boundary_checked st(1) guard(2) by blast
  moreover obtain base_ref where "lv_base_ref (bw_live_before w) = Some base_ref"
    "get (get base_ref (js ''object'')) (js ''sha'') = JStr (bs_sha (eb_base (wi_expected i)))" by (rule live_checked [OF guard(1)])
  moreover have "sq_consumptions db' = sq_consumptions db @ [consumption_receipt (bare_digests (gs_consumption st)) at]"
    "list_all (\<lambda>q. \<not> replay_conflict (consumption_receipt (bare_digests (gs_consumption st)) at) q) (sq_consumptions db)"
    using st(6) unfolding consume_iff grant_audited [OF st(4)] list_all_iff by auto
  ultimately show ?thesis using st(1-3,5) \<open>va_states v' k = _\<close> by blast
qed

lemma token_needs_consumption_witness:
  "\<exists>v st v'. gs_payload st = sample_payload \<and> in_window sample_payload 3000
    \<and> va_states v' 0 = Some (consumes st (receipt_of (gs_consumption st) 3000))
    \<and> resolve_authorized_write_auth sample_process sample_world (js ''acme/app'') sample_write v sample_active_db =
        (Inr (sample_auth, receipt_of (gs_consumption st) 3000), v', sample_active_db\<lparr>sq_consumptions := [consumption_receipt (bare_digests (gs_consumption st)) 3000]\<rparr>,
         [Minted WriteCap (js ''ghs_1'')])"
proof -
  obtain v st where run: "reachable (ps_crypto sample_process) v" "va_states v 0 = Some st" "gs_status st = Verified" "genuine st"
    "gs_payload st = sample_payload"
    "resolve_authorized_write_auth sample_process sample_world (js ''acme/app'') sample_write v sample_active_db =
      (Inr (sample_auth, receipt_of (gs_consumption st) 3000),
       v\<lparr>va_states := (va_states v)(0 := Some (consumes st (receipt_of (gs_consumption st) 3000)))\<rparr>,
       sample_active_db\<lparr>sq_consumptions := [consumption_receipt (bare_digests (gs_consumption st)) 3000]\<rparr>, [Minted WriteCap (js ''ghs_1'')])"
    by (rule sample_run)
  have "[Minted WriteCap (js ''ghs_1'')] \<noteq> []" by simp
  from token_needs_consumption [OF sample_process_hash run(1,6) this]
  have "in_window sample_payload 3000" using run(2,5) by (auto simp: sample_fields_write sample_fields_world)
  with run(5,6) show ?thesis
    by (intro exI [of _ v] exI [of _ st] exI [of _ "v\<lparr>va_states := (va_states v)(0 := Some (consumes st (receipt_of (gs_consumption st) 3000)))\<rparr>"]) simp
qed

section \<open>Tokens\<close>

text \<open>C9: the broker never leaves a write token behind that its caller does not hold: either no token was issued, or the one that was
  is revoked and the call fails, or the call returns it with the receipt of the consumed grant.\<close>

theorem unreturned_token_revoked:
  "case resolve_authorized_write_auth p w slug i v db of (r, v', db', t) \<Rightarrow>
     (t = [] \<and> \<not> is_ok r) \<or> (\<exists>token. t = [Minted WriteCap token, Revoked token] \<and> \<not> is_ok r)
     \<or> (\<exists>auth receipt. t = [Minted WriteCap (au_token auth)] \<and> r = Inr (auth, receipt) \<and> owner_authorization_receipt v' (wi_grant i) = Inr receipt)"
proof -
  obtain r v' db' t where run: "resolve_authorized_write_auth p w slug i v db = (r, v', db', t)" by (metis prod_cases4)
  have "(t = [] \<and> \<not> is_ok r) \<or> (\<exists>token. t = [Minted WriteCap token, Revoked token] \<and> \<not> is_ok r)
     \<or> (\<exists>auth receipt. t = [Minted WriteCap (au_token auth)] \<and> r = Inr (auth, receipt) \<and> owner_authorization_receipt v' (wi_grant i) = Inr receipt)"
  proof (cases "t = []")
    case True
    obtain e where "r = Inl e" using broker_silent [OF run [unfolded True]] by blast
    then have "\<not> is_ok r" by (simp add: is_ok_def)
    with True show ?thesis by blast
  next
    case False
    obtain repository read_identity app ra where ra:
      "app_auth (bw_github w) app repository WriteCap (Some (write_guards p w i read_identity v')) = ra"
      "r = (case fst ra of Inl e \<Rightarrow> Inl e | Inr auth \<Rightarrow> bindR (final_check repository read_identity i v' auth) (\<lambda>rc. Inr (auth, rc)))"
      "t = snd ra @ (case fst ra of Inl e \<Rightarrow> [] | Inr auth \<Rightarrow> (if is_ok (final_check repository read_identity i v' auth) then [] else [Revoked (au_token auth)]))"
      by (rule broker_tokens [OF run False])
    obtain ar t1 where art: "ra = (ar, t1)" by (cases ra)
    from ra(1) [unfolded art] show ?thesis
    proof (cases rule: app_auth_cases)
      case (minted auth a s n)
      show ?thesis
      proof (cases "final_check repository read_identity i v' auth")
        case (Inr receipt)
        then have "owner_authorization_receipt v' (wi_grant i) = Inr receipt"
          by (auto simp: final_check_def result_simps split: option.splits)
        with Inr minted art ra show ?thesis by simp
      qed (use minted art ra in \<open>auto simp: is_ok_def\<close>)
    qed (use art ra in \<open>auto simp: is_ok_def\<close>)
  qed
  with run show ?thesis by simp
qed

text \<open>C10: the token that the broker returns is the one GitHub issued for the installation, selects exactly the approved
  repository, has exactly the permissions \<open>contents: write\<close>, \<open>metadata: read\<close> and \<open>pull_requests: write\<close>, expires within 65
  minutes of its creation, and carries the approved identities.\<close>

theorem returned_token_scope:
  assumes "resolve_authorized_write_auth p w slug i v db = (Inr (auth, receipt), v', db', t)"
  shows "\<exists>a created expires identity. gr_token (bw_github w) = Some a \<and> get a (js ''token'') = JStr (au_token auth)
    \<and> elements (get a (js ''repositoryIds'')) = [jint (rs_id (eb_repository (wi_expected i)))]
    \<and> set (filter (\<lambda>(k, v). v \<noteq> JStr (js ''none'')) (entries (get a (js ''permissions'')))) =
        {(js ''contents'', JStr (js ''write'')), (js ''metadata'', JStr (js ''read'')), (js ''pull_requests'', JStr (js ''write''))}
    \<and> date_parse (gr_engine (bw_github w)) (get a (js ''createdAt'')) = Some created
    \<and> date_parse (gr_engine (bw_github w)) (get a (js ''expiresAt'')) = Some expires
    \<and> gr_now (bw_github w) < expires \<and> expires - created \<le> 3900000
    \<and> au_github_app auth = Some identity \<and> id_repository_owner_id identity = jint (rs_owner_id (eb_repository (wi_expected i)))
    \<and> id_app_id identity = gh_app_id (eb_github (wi_expected i)) \<and> id_installation_id identity = gh_installation_id (eb_github (wi_expected i))
    \<and> to_lower (id_repository_slug identity) = rs_slug (eb_repository (wi_expected i))"
proof -
  obtain repository read_identity a n where ret: "gr_token (bw_github w) = Some a" "issued_token a = Some (au_token auth)"
    "assert_github_installation_token_policy (gr_locale (bw_github w)) (gr_engine (bw_github w)) (gr_now (bw_github w)) a n (sl_repo repository)
       required_github_app_permissions = Inr (rs_id (eb_repository (wi_expected i)))"
    "au_github_app auth \<noteq> None" "final_check repository read_identity i v' auth = Inr receipt"
    by (rule broker_returned [OF assms])
  from token_policy [OF ret(3)] have policy: "elements (get a (js ''repositoryIds'')) = [jint (rs_id (eb_repository (wi_expected i)))]"
    "assert_exact_permissions (gr_locale (bw_github w)) (get a (js ''permissions'')) required_github_app_permissions = Inr ()"
    "assert_token_lifetime (date_parse (gr_engine (bw_github w)) (get a (js ''createdAt''))) (date_parse (gr_engine (bw_github w)) (get a (js ''expiresAt'')))
       (gr_now (bw_github w)) = Inr ()" by blast+
  have permissions: "set (filter (\<lambda>(k, v). v \<noteq> JStr (js ''none'')) (entries (get a (js ''permissions'')))) =
      {(js ''contents'', JStr (js ''write'')), (js ''metadata'', JStr (js ''read'')), (js ''pull_requests'', JStr (js ''write''))}"
    using exact_permissions [OF policy(2)] by (simp add: required_github_app_permissions_def)
  obtain created expires where life: "date_parse (gr_engine (bw_github w)) (get a (js ''createdAt'')) = Some created"
    "date_parse (gr_engine (bw_github w)) (get a (js ''expiresAt'')) = Some expires" "gr_now (bw_github w) < expires" "expires - created \<le> 3900000"
    using token_lifetime [OF policy(3)] by (auto simp: max_installation_token_lifetime_ms_def)
  have token: "get a (js ''token'') = JStr (au_token auth)"
    using ret(2) by (auto simp: issued_token_def split: jsval.splits if_splits)
  obtain identity where "au_github_app auth = Some identity" using ret(4) by blast
  moreover from this ret(5) have "assert_identity_matches_expected (sl_slug repository) identity (wi_expected i) = Inr ()"
    by (simp add: final_check_def thenR_eq_Inr)
  ultimately show ?thesis
    using ret(1) policy(1) permissions life token
    by (intro exI [of _ a] exI [of _ created] exI [of _ expires] exI [of _ identity])
      (simp add: assert_identity_matches_expected_def throw_if_eq_Inr)
qed

lemma returned_token_scope_witness:
  "\<exists>v receipt v' db' t. resolve_authorized_write_auth sample_process sample_world (js ''acme/app'') sample_write v sample_active_db =
      (Inr (sample_auth, receipt), v', db', t)
    \<and> elements (get sample_token_reply (js ''repositoryIds'')) = [jint 11]
    \<and> set (filter (\<lambda>(k, v). v \<noteq> JStr (js ''none'')) (entries (get sample_token_reply (js ''permissions'')))) =
        {(js ''contents'', JStr (js ''write'')), (js ''metadata'', JStr (js ''read'')), (js ''pull_requests'', JStr (js ''write''))}"
proof -
  obtain v st where run: "resolve_authorized_write_auth sample_process sample_world (js ''acme/app'') sample_write v sample_active_db =
      (Inr (sample_auth, receipt_of (gs_consumption st) 3000),
       v\<lparr>va_states := (va_states v)(0 := Some (consumes st (receipt_of (gs_consumption st) 3000)))\<rparr>,
       sample_active_db\<lparr>sq_consumptions := [consumption_receipt (bare_digests (gs_consumption st)) 3000]\<rparr>, [Minted WriteCap (js ''ghs_1'')])"
    by (rule sample_run)
  have "gr_token (bw_github sample_world) = Some sample_token_reply" "rs_id (eb_repository (wi_expected sample_write)) = 11"
    by (simp_all add: sample_fields_world sample_fields_write sample_bindings_def sample_repository_def Let_def)
  with returned_token_scope [OF run] run show ?thesis by auto
qed

text \<open>C7: one owner envelope yields at most one write token, across processes and restarts: once the broker has obtained one for a
  grant, every later run of any process on the same ledger, with a grant that shares the authorization, the envelope, its digest or
  its nonce, fails before GitHub is asked for a token.\<close>

theorem one_token_per_envelope:
  assumes "hash32 (cr_hash (ps_crypto p))" "reachable (ps_crypto p) v" "ledger_ok db"
    and "resolve_authorized_write_auth p w slug i v db = (r, v', db1, t)" "t \<noteq> []" "db_step\<^sup>*\<^sup>* db1 db2"
    and "hash32 (cr_hash (ps_crypto q))" "reachable (ps_crypto q) u"
    and "wi_grant i = HObject k" "va_states v k = Some st" "wi_grant j = HObject m" "va_states u m = Some su"
    and "replay_conflict (receipt_of (gs_consumption su) 0) (receipt_of (gs_consumption st) 0)"
  shows "case resolve_authorized_write_auth q x slug' j u db2 of (r', u', db', t') \<Rightarrow> t' = [] \<and> \<not> is_ok r'"
proof -
  obtain r' u' db' t' where run: "resolve_authorized_write_auth q x slug' j u db2 = (r', u', db', t')" by (metis prod_cases4)
  obtain repository read_identity c app ra where first: "consume_grant p w i v db = (Inr c, v', db1)"
    by (rule broker_tokens [OF assms(4,5)])
  obtain k' st' at where st: "wi_grant i = HObject k'" "va_states v k' = Some st'" "genuine st'"
    "consume_owner_authorization (cr_hash (ps_crypto p)) (ps_db_env p) (ps_client p) (bw_ledger w) (consumption_value (gs_consumption st')) db =
       (Inr (consumption_receipt (bare_digests (gs_consumption st')) at), db1)"
    by (rule consume_grant_Inr [OF reachable_ok [OF assms(1,2)] first])
  have same: "st' = st" using st(1,2) assms(9,10) by simp
  let ?row = "consumption_receipt (bare_digests (gs_consumption st)) at"
  from consume_stored [OF assms(3) st(4)] have "ledger_ok db1" "read_owner_authorization_consumption db1 (cn_authorization_id ?row) = Some ?row"
    by (simp_all add: same)
  from ledger.spent_forever [OF assms(6) this TrueI] have row: "?row \<in> set (sq_consumptions db2)" using read_in by blast
  have "t' = []"
  proof (rule ccontr)
    assume "t' \<noteq> []"
    obtain repository' read_identity' c' app' ra' where second: "consume_grant q x j u db2 = (Inr c', u', db')"
      by (rule broker_tokens [OF run \<open>t' \<noteq> []\<close>])
    obtain m' su' at' where su: "wi_grant j = HObject m'" "va_states u m' = Some su'" "genuine su'"
      "consume_owner_authorization (cr_hash (ps_crypto q)) (ps_db_env q) (ps_client q) (bw_ledger x) (consumption_value (gs_consumption su')) db2 =
         (Inr (consumption_receipt (bare_digests (gs_consumption su')) at'), db')"
      by (rule consume_grant_Inr [OF reachable_ok [OF assms(7,8)] second])
    have "su' = su" using su(1,2) assms(11,12) by simp
    with su(4) row have "\<not> replay_conflict (consumption_receipt (bare_digests (gs_consumption su)) at') ?row"
      unfolding consume_iff by (auto simp: grant_audited [OF su(3)])
    with assms(13) show False by (auto simp: replay_conflict_def)
  qed
  moreover obtain e where "r' = Inl e" using broker_silent [OF run [unfolded \<open>t' = []\<close>]] by blast
  ultimately show ?thesis using run by (simp add: is_ok_def)
qed

lemma one_token_per_envelope_witness:
  "\<exists>v v' db r'. resolve_authorized_write_auth sample_process sample_world (js ''acme/app'') sample_write v sample_active_db =
      (r', v', db, [Minted WriteCap (js ''ghs_1'')])
    \<and> (case resolve_authorized_write_auth sample_process sample_world (js ''acme/app'') sample_write v db of (r, u, db', t) \<Rightarrow> t = [] \<and> \<not> is_ok r)"
proof -
  obtain v st where run: "reachable (ps_crypto sample_process) v" "va_states v 0 = Some st"
    "resolve_authorized_write_auth sample_process sample_world (js ''acme/app'') sample_write v sample_active_db =
      (Inr (sample_auth, receipt_of (gs_consumption st) 3000),
       v\<lparr>va_states := (va_states v)(0 := Some (consumes st (receipt_of (gs_consumption st) 3000)))\<rparr>,
       sample_active_db\<lparr>sq_consumptions := [consumption_receipt (bare_digests (gs_consumption st)) 3000]\<rparr>, [Minted WriteCap (js ''ghs_1'')])"
    by (rule sample_run)
  have "[Minted WriteCap (js ''ghs_1'')] \<noteq> []" "replay_conflict (receipt_of (gs_consumption st) 0) (receipt_of (gs_consumption st) 0)"
    by (simp_all add: replay_conflict_def)
  from one_token_per_envelope [where x = sample_world and slug' = "js ''acme/app''", OF sample_process_hash run(1) sample_active_ledger run(3) this(1) rtranclp.rtrancl_refl sample_process_hash run(1)
      sample_fields_write(5) run(2) sample_fields_write(5) run(2) this(2)] run(3)
  show ?thesis by (intro exI conjI)
qed

section \<open>When the broker succeeds\<close>

text \<open>C11: the broker returns the token to every caller that is entitled to it: with a verified grant that may be used at every
  moment the broker looks (the clock is in its window, and the private registry file is the canonical text of a sound registry
  with an unrevoked key that signed it), an activated replay store with an intact schema, private files, a clock in the grant's window and no
  row that shares one of its keys, an App configuration for the approved App, and a GitHub whose replies show the approved App,
  installation, repository, base commit and a token with exactly the required permissions, the result is that token with the
  approved identity and the receipt; the grant is then consumed, its row is appended, and exactly one token was issued.\<close>

theorem broker_returns_token:
  assumes "vault_ok v" "va_states v k = Some st" "gs_status st = Verified" "wi_grant i = HObject k"
      "wi_expected i = expected_bindings (gs_payload st)"
    and "usable_at p (bw_check w) i st" "usable_at p (bw_read w) i st" "usable_at p (bw_before w) i st" "usable_at p (bw_after w) i st"
      "valid_time (in_clock (bw_mark w))" "in_window (gs_payload st) (in_clock (bw_mark w))"
      "registry_authorizes (ps_crypto p) (in_host (bw_mark w)) (gs_registry_path st) st (in_clock (bw_mark w))"
    and "ledger_ready (cr_hash (ps_crypto p)) (ps_db_env p) (ps_client p) (bw_ledger w) (bare_digests (gs_consumption st)) at db"
      "in_window (gs_payload st) at"
    and "approved_slug (wi_expected i) slug owner repo" "approved_read (wi_expected i) app_slug (wi_read_auth i)"
      "app_environment p (wi_expected i) (bw_env w)"
    and "approved_github (wi_expected i) repo app_slug token full_name (bw_github w)" "approved_live (wi_expected i) (bw_live_start w)"
      "approved_live (wi_expected i) (bw_live_before w)" "approved_live (wi_expected i) (bw_live_after w)"
  shows "resolve_authorized_write_auth p w slug i v db =
    (Inr (\<lparr>au_token = token, au_actor = app_slug @ js ''[bot]'', au_mode = GitHubApp, au_capability = WriteCap,
           au_github_app = Some (approved_identity (wi_expected i) app_slug full_name)\<rparr>, receipt_of (gs_consumption st) at),
     v\<lparr>va_states := (va_states v)(k := Some (consumes st (receipt_of (gs_consumption st) at)))\<rparr>,
     db\<lparr>sq_consumptions := sq_consumptions db @ [consumption_receipt (bare_digests (gs_consumption st)) at]\<rparr>, [Minted WriteCap token])"
  using broker_agreeing_run [OF assms] by (simp only: approved_auth_def)

lemma broker_returns_token_witness:
  "\<exists>v (st :: grant_state). resolve_authorized_write_auth sample_process sample_world (js ''acme/app'') sample_write v sample_active_db =
      (Inr (sample_auth, receipt_of (gs_consumption st) 3000),
       v\<lparr>va_states := (va_states v)(0 := Some (consumes st (receipt_of (gs_consumption st) 3000)))\<rparr>,
       sample_active_db\<lparr>sq_consumptions := [consumption_receipt (bare_digests (gs_consumption st)) 3000]\<rparr>, [Minted WriteCap (js ''ghs_1'')])"
proof -
  obtain v st where st: "vault_ok v" "va_states v 0 = Some st" "gs_status st = Verified" "wi_expected sample_write = expected_bindings (gs_payload st)"
    "usable_at sample_process sample_instant sample_write st" "genuine st" "gs_payload st = sample_payload"
    "registry_authorizes sample_crypto sample_host (gs_registry_path st) st 3000" by (rule sample_usable_grant)
  show ?thesis
    using broker_returns_token [OF st(1-3) sample_fields_write(5) st(4), of sample_process sample_world 3000 sample_active_db "js ''acme/app''"
        "js ''acme''" "js ''app''" "js ''migrator''" "js ''ghs_1''" "js ''acme/app''"]
      sample_ready [OF st(6,7)] sample_slug_approved sample_read_approved sample_environment sample_github_approved sample_live_approved st
      sample_auth_approved [unfolded approved_auth_def]
    by (intro exI [of _ v] exI [of _ st]) (simp add: sample_fields_world sample_fields_write sample_times sample_empty)
qed

end
