(* ===== verification/Refinement.thy ===== *)
theory Refinement
  imports Prelude
begin

text \<open>
  The contract of a component that implements an abstract machine: every step keeps the invariant and is a step of the machine.
  Runs of the component are then runs of the machine.
\<close>

text \<open>A forward simulation, with an invariant of the implementation.\<close>

locale refinement =
  fixes step :: "'s \<Rightarrow> 's \<Rightarrow> bool" and spec :: "'a \<Rightarrow> 'a \<Rightarrow> bool" and abs :: "'s \<Rightarrow> 'a" and inv :: "'s \<Rightarrow> bool"
  assumes kept: "step s s' \<Longrightarrow> inv s \<Longrightarrow> inv s'"
    and simulated: "step s s' \<Longrightarrow> inv s \<Longrightarrow> spec (abs s) (abs s')"
begin

lemma runs: "step\<^sup>*\<^sup>* s s' \<Longrightarrow> inv s \<Longrightarrow> inv s' \<and> spec\<^sup>*\<^sup>* (abs s) (abs s')"
proof (induction rule: rtranclp_induct)
  case (step t u)
  then have "inv t" "spec\<^sup>*\<^sup>* (abs s) (abs t)" by simp_all
  with kept [OF step.hyps(2)] simulated [OF step.hyps(2)] show ?case by (meson rtranclp.rtrancl_into_rtrancl)
qed simp

end

end
