(* ===== verification/TokenSystem.thy ===== *)
theory TokenSystem
  imports BrokerClaims Refinement
begin

text \<open>
  The whole authority system against its specification: any number of processes, each with its own
  grants, share one replay ledger; they verify envelopes, run the broker, crash and restart in any
  order. The specification is a machine that hands out at most one token for a claim on a set of
  names. Every run of the system is a run of that machine.
\<close>

section \<open>The specification\<close>

text \<open>What one owner envelope claims.\<close>

datatype claim_key = Authorization jsstr | Envelope jsstr | EnvelopeDigest jsstr | Nonce jsstr

definition claim_keys :: "'a consumption_scheme \<Rightarrow> claim_key set" where
  "claim_keys c = {Authorization (cn_authorization_id c), Envelope (cn_envelope_id c), EnvelopeDigest (cn_envelope_digest c), Nonce (cn_nonce_digest c)}"

record spec =
  sp_spent :: "claim_key set"
  sp_tokens :: "(claim_key set \<times> jsstr) list"

inductive spec_step :: "spec \<Rightarrow> spec \<Rightarrow> bool" where
  spec_idle: "spec_step s s"
| spec_claim: "keys \<inter> sp_spent s = {} \<Longrightarrow> spec_step s (s\<lparr>sp_spent := sp_spent s \<union> keys\<rparr>)"
| spec_grant: "keys \<inter> sp_spent s = {} \<Longrightarrow> spec_step s \<lparr>sp_spent = sp_spent s \<union> keys, sp_tokens = sp_tokens s @ [(keys, token)]\<rparr>"

inductive_cases spec_stepE: "spec_step s s'"

text \<open>Tokens are for disjoint claims, which stay spent.\<close>

definition spec_ok :: "spec \<Rightarrow> bool" where
  "spec_ok s \<longleftrightarrow> sorted_wrt (\<lambda>a b. fst a \<inter> fst b = {}) (sp_tokens s) \<and> (\<forall>a \<in> set (sp_tokens s). fst a \<subseteq> sp_spent s)"

lemma spec_step_ok: "spec_step s s' \<Longrightarrow> spec_ok s \<Longrightarrow> spec_ok s'"
  by (erule spec_stepE) (fastforce simp: spec_ok_def sorted_wrt_append)+

lemma spec_run_ok: "spec_step\<^sup>*\<^sup>* s s' \<Longrightarrow> spec_ok s \<Longrightarrow> spec_ok s'"
  by (induction rule: rtranclp_induct) (auto intro: spec_step_ok)

section \<open>The system\<close>

text \<open>The tokens carry the consumption of the grant they were issued for, for the statements only.\<close>

record system =
  sy_vaults :: "nat \<Rightarrow> vault"
  sy_db :: sqlite
  sy_tokens :: "(consumption \<times> jsstr) list"

definition issued_for :: "vault \<Rightarrow> handle \<Rightarrow> event list \<Rightarrow> (consumption \<times> jsstr) list" where
  "issued_for v g t =
     (case g of
        HObject k \<Rightarrow>
          (case va_states v k of
             Some st \<Rightarrow> concat (map (\<lambda>e. case e of Minted c token \<Rightarrow> [(gs_consumption st, token)] | Revoked token \<Rightarrow> []) t)
           | None \<Rightarrow> [])
      | _ \<Rightarrow> [])"

inductive system_step :: "(nat \<Rightarrow> 'k process) \<Rightarrow> system \<Rightarrow> system \<Rightarrow> bool" for procs where
  system_vault: "vault_step (ps_crypto (procs p)) (sy_vaults s p) v \<Longrightarrow>
     system_step procs s (s\<lparr>sy_vaults := (sy_vaults s)(p := v)\<rparr>)"
| system_restart: "system_step procs s (s\<lparr>sy_vaults := (sy_vaults s)(p := empty_vault)\<rparr>)"
| system_db: "db_step (sy_db s) db \<Longrightarrow> system_step procs s (s\<lparr>sy_db := db\<rparr>)"
| system_broker: "resolve_authorized_write_auth (procs p) w slug i (sy_vaults s p) (sy_db s) = (r, v, db, t) \<Longrightarrow>
     system_step procs s \<lparr>sy_vaults = (sy_vaults s)(p := v), sy_db = db, sy_tokens = sy_tokens s @ issued_for (sy_vaults s p) (wi_grant i) t\<rparr>"

definition system_start :: "sqlite \<Rightarrow> system" where
  "system_start db = \<lparr>sy_vaults = (\<lambda>_. empty_vault), sy_db = db, sy_tokens = []\<rparr>"

definition system_ok :: "system \<Rightarrow> bool" where
  "system_ok s \<longleftrightarrow> (\<forall>p. vault_ok (sy_vaults s p)) \<and> ledger_ok (sy_db s)"

definition system_spec :: "system \<Rightarrow> spec" where
  "system_spec s = \<lparr>sp_spent = \<Union> (claim_keys ` set (sq_consumptions (sy_db s))),
     sp_tokens = map (\<lambda>(c, token). (claim_keys (bare_digests c), token)) (sy_tokens s)\<rparr>"

section \<open>Simulation\<close>

lemma claim_keys_conflict: "claim_keys r \<inter> claim_keys q = {} \<longleftrightarrow> \<not> replay_conflict r q"
  by (auto simp: claim_keys_def replay_conflict_def)

lemma claim_keys_receipt [simp]: "claim_keys (consumption_receipt c at) = claim_keys c"
  by (simp add: claim_keys_def)

lemma unspent_keys: "claim_keys r \<inter> \<Union> (claim_keys ` set qs) = {} \<longleftrightarrow> (\<forall>q \<in> set qs. \<not> replay_conflict r q)"
proof -
  have "claim_keys r \<inter> \<Union> (claim_keys ` set qs) = {} \<longleftrightarrow> (\<forall>q \<in> set qs. claim_keys r \<inter> claim_keys q = {})" by blast
  then show ?thesis by (simp only: claim_keys_conflict)
qed

lemma ledger_claims:
  assumes "ledger_grows db db'"
  shows "spec_step (s\<lparr>sp_spent := \<Union> (claim_keys ` set (sq_consumptions db))\<rparr>) (s\<lparr>sp_spent := \<Union> (claim_keys ` set (sq_consumptions db'))\<rparr>)"
proof (cases "sq_consumptions db' = sq_consumptions db")
  case True
  then show ?thesis by (simp add: spec_idle)
next
  case False
  with assms obtain r where r: "sq_consumptions db' = sq_consumptions db @ [r]" "\<forall>q \<in> set (sq_consumptions db). \<not> replay_conflict r q"
    by (auto simp: ledger_grows_def)
  with spec_claim [of "claim_keys r" "s\<lparr>sp_spent := \<Union> (claim_keys ` set (sq_consumptions db))\<rparr>"] show ?thesis
    by (simp add: unspent_keys Un_commute)
qed

text \<open>What a run of the broker does to the vault and the ledger, however it ends.\<close>

lemma consume_grant_effects:
  assumes "consume_grant p w i v db = (r, v', db')"
  shows "(v' = v \<or> vault_step (ps_crypto p) v v') \<and> ledger_grows db db'"
  using assms consume_ledger_grows step_mark
  by (fastforce simp: consume_grant_def ledger_grows_def split: sum.splits prod.splits)

lemma broker_effects:
  assumes "resolve_authorized_write_auth p w slug i v db = (r, v', db', t)"
  shows "(v' = v \<or> vault_step (ps_crypto p) v v') \<and> ledger_grows db db'"
proof (cases "broker_preflight w slug i")
  case (Inl e)
  with assms show ?thesis by (auto simp: resolve_authorized_write_auth_def ledger_grows_def)
next
  case (Inr x)
  obtain c v1 db1 where consume: "consume_grant p w i v db = (c, v1, db1)" by (metis prod_cases3)
  have "v' = v1 \<and> db' = db1"
    using assms Inr consume by (auto simp: resolve_authorized_write_auth_def split: sum.splits prod.splits)
  with consume_grant_effects [OF consume] show ?thesis by simp
qed

lemma broker_issues:
  assumes "vault_ok v" "resolve_authorized_write_auth p w slug i v db = (r, v', db', t)" "t \<noteq> []"
  obtains st :: grant_state and at token where "issued_for v (wi_grant i) t = [(gs_consumption st, token)]"
    "sq_consumptions db' = sq_consumptions db @ [consumption_receipt (bare_digests (gs_consumption st)) at]"
    "\<forall>q \<in> set (sq_consumptions db). \<not> replay_conflict (consumption_receipt (bare_digests (gs_consumption st)) at) q"
proof -
  obtain repository read_identity u app ra where run: "consume_grant p w i v db = (Inr u, v', db')"
    "app_auth (bw_github w) app repository WriteCap (Some (write_guards p w i read_identity v')) = ra" "snd ra \<noteq> []"
    "t = snd ra @ (case fst ra of Inl e \<Rightarrow> [] | Inr auth \<Rightarrow> (if is_ok (final_check repository read_identity i v' auth) then [] else [Revoked (au_token auth)]))"
    by (rule broker_tokens [OF assms(2,3)])
  from consume_grant_Inr [OF assms(1) run(1)] obtain k st at where st: "wi_grant i = HObject k" "va_states v k = Some st" "genuine st"
    "consume_owner_authorization (cr_hash (ps_crypto p)) (ps_db_env p) (ps_client p) (bw_ledger w) (consumption_value (gs_consumption st)) db =
       (Inr (consumption_receipt (bare_digests (gs_consumption st)) at), db')" .
  obtain ar t1 where ra: "ra = (ar, t1)" by (cases ra)
  from run(2) [unfolded ra] have "\<exists>token. issued_for v (wi_grant i) t = [(gs_consumption st, token)]"
  proof (cases rule: app_auth_cases)
    case (failed e)
    with run(3) ra show ?thesis by simp
  qed (use ra run(4) st(1,2) in \<open>auto simp: issued_for_def\<close>)
  then obtain token where "issued_for v (wi_grant i) t = [(gs_consumption st, token)]" by blast
  then show thesis
    using st(4) unfolding consume_iff grant_audited [OF st(3)] by (intro that [of st token at]) auto
qed

lemma system_step_ok:
  assumes "\<And>p. hash32 (cr_hash (ps_crypto (procs p)))" "system_step procs s s'" "system_ok s"
  shows "system_ok s'"
  using assms(2)
proof (cases rule: system_step.cases)
  case (system_vault p v)
  then show ?thesis using assms(1,3) vault_step_ok by (fastforce simp: system_ok_def)
next
  case (system_restart p)
  then show ?thesis using assms(3) by (simp add: system_ok_def vault_ok_def empty_vault_def)
next
  case (system_db db)
  then show ?thesis using assms(3) db_step_ledger ledger_grows_ok by (fastforce simp: system_ok_def)
next
  case (system_broker p w slug i r v db t)
  note ok = assms(3) [unfolded system_ok_def]
  have "vault_ok v" using broker_effects [OF system_broker(2)] vault_step_ok [OF assms(1)] ok by metis
  moreover have "ledger_ok db" using broker_effects [OF system_broker(2)] ledger_grows_ok ok by blast
  ultimately  show ?thesis using system_broker(1) ok by (simp add: system_ok_def)
qed

lemma system_step_spec:
  assumes "system_step procs s s'" "system_ok s"
  shows "spec_step (system_spec s) (system_spec s')"
  using assms(1)
proof (cases rule: system_step.cases)
  case (system_db db)
  then show ?thesis using ledger_claims [OF db_step_ledger [OF system_db(2)], of "system_spec s"] by (simp add: system_spec_def)
next
  case (system_broker p w slug i r v db t)
  show ?thesis
  proof (cases "t = []")
    case True
    then have "issued_for (sy_vaults s p) (wi_grant i) t = []" by (simp add: issued_for_def split: handle.splits option.splits)
    moreover have "ledger_grows (sy_db s) db" using broker_effects [OF system_broker(2)] by blast
    ultimately show ?thesis using ledger_claims [of "sy_db s" db "system_spec s"] system_broker(1) by (simp add: system_spec_def)
  next
    case False
    have ok: "vault_ok (sy_vaults s p)" using assms(2) by (simp add: system_ok_def)
    obtain st :: grant_state and at token where issued: "issued_for (sy_vaults s p) (wi_grant i) t = [(gs_consumption st, token)]"
      "sq_consumptions db = sq_consumptions (sy_db s) @ [consumption_receipt (bare_digests (gs_consumption st)) at]"
      "\<forall>q \<in> set (sq_consumptions (sy_db s)). \<not> replay_conflict (consumption_receipt (bare_digests (gs_consumption st)) at) q"
      by (rule broker_issues [OF ok system_broker(2) False])
    let ?keys = "claim_keys (bare_digests (gs_consumption st))"
    have "?keys \<inter> sp_spent (system_spec s) = {}"
      using issued(3) unspent_keys [of "consumption_receipt (bare_digests (gs_consumption st)) at"] by (simp add: system_spec_def)
    from spec_grant [OF this, of token] show ?thesis
      using system_broker(1) issued(1,2) by (simp add: system_spec_def Un_commute)
  qed
qed (simp_all add: system_spec_def spec_idle)

interpretation system: refinement "system_step procs" spec_step system_spec
  "\<lambda>s. (\<forall>p. hash32 (cr_hash (ps_crypto (procs p)))) \<and> system_ok s"
  using system_step_ok system_step_spec by unfold_locales blast+

section \<open>Every run refines the specification\<close>

text \<open>C8: however many processes verify envelopes, run the broker, crash and restart on one shared ledger, every run of the system is a
  run of the specification that hands out one token per claim: no two write tokens were ever issued for envelopes that share an
  authorization, an envelope id, an envelope digest or a nonce, and everything a token was issued for is spent in the ledger.\<close>

theorem system_refines_spec:
  assumes "\<And>p. hash32 (cr_hash (ps_crypto (procs p)))" "ledger_ok db" "(system_step procs)\<^sup>*\<^sup>* (system_start db) s"
  shows "spec_step\<^sup>*\<^sup>* (system_spec (system_start db)) (system_spec s)
    \<and> sorted_wrt (\<lambda>a b. \<not> replay_conflict (receipt_of (bare_digests (fst a)) 0) (receipt_of (bare_digests (fst b)) 0)) (sy_tokens s)
    \<and> (\<forall>a \<in> set (sy_tokens s). claim_keys (bare_digests (fst a)) \<subseteq> \<Union> (claim_keys ` set (sq_consumptions (sy_db s))))"
proof -
  have "system_ok (system_start db)" using assms(2) by (simp add: system_ok_def system_start_def vault_ok_def empty_vault_def)
  with system.runs [OF assms(3)] assms(1) have run: "spec_step\<^sup>*\<^sup>* (system_spec (system_start db)) (system_spec s)" by blast
  have "spec_ok (system_spec (system_start db))" by (simp add: spec_ok_def system_spec_def system_start_def)
  from spec_run_ok [OF run this] have ok: "spec_ok (system_spec s)" .
  have keys: "claim_keys (bare_digests c) \<inter> claim_keys (bare_digests d) = {} \<longleftrightarrow>
      \<not> replay_conflict (receipt_of (bare_digests c) 0) (receipt_of (bare_digests d) 0)" for c d :: consumption
    by (auto simp: claim_keys_def replay_conflict_def)
  from ok run show ?thesis
    by (auto simp: spec_ok_def system_spec_def sorted_wrt_map case_prod_beta keys [symmetric])
qed

lemma vault_runs:
  assumes "(vault_step (ps_crypto (procs p)))\<^sup>*\<^sup>* v v'" "sy_vaults s p = v"
  shows "(system_step procs)\<^sup>*\<^sup>* s (s\<lparr>sy_vaults := (sy_vaults s)(p := v')\<rparr>)"
  using assms(1)
proof (induction rule: rtranclp_induct)
  case base
  then show ?case using assms(2) by (metis fun_upd_triv rtranclp.rtrancl_refl system.surjective system.update_convs(1))
next
  case (step u u')
  from step.hyps(2) have "system_step procs (s\<lparr>sy_vaults := (sy_vaults s)(p := u)\<rparr>) (s\<lparr>sy_vaults := (sy_vaults s)(p := u')\<rparr>)"
    using system_vault [of procs p "s\<lparr>sy_vaults := (sy_vaults s)(p := u)\<rparr>" u'] by simp
  with step.IH show ?case by (rule rtranclp.rtrancl_into_rtrancl)
qed

lemma system_refines_spec_witness:
  "\<exists>s c. (system_step (\<lambda>_. sample_process))\<^sup>*\<^sup>* (system_start sample_active_db) s \<and> sy_tokens s = [(c, js ''ghs_1'')]
    \<and> claim_keys (bare_digests c) \<subseteq> \<Union> (claim_keys ` set (sq_consumptions (sy_db s)))"
proof -
  obtain v st where run: "reachable (ps_crypto sample_process) v" "va_states v 0 = Some st" "gs_status st = Verified" "genuine st"
    "gs_payload st = sample_payload"
    "resolve_authorized_write_auth sample_process sample_world (js ''acme/app'') sample_write v sample_active_db =
      (Inr (sample_auth, receipt_of (gs_consumption st) 3000),
       v\<lparr>va_states := (va_states v)(0 := Some (consumes st (receipt_of (gs_consumption st) 3000)))\<rparr>,
       sample_active_db\<lparr>sq_consumptions := [consumption_receipt (bare_digests (gs_consumption st)) 3000]\<rparr>, [Minted WriteCap (js ''ghs_1'')])"
    by (rule sample_run)
  let ?procs = "\<lambda>_::nat. sample_process"
  let ?s = "system_start sample_active_db"
  let ?t = "?s\<lparr>sy_vaults := (sy_vaults ?s)(0 := v)\<rparr>"
  have "(system_step ?procs)\<^sup>*\<^sup>* ?s ?t"
    using run(1) by (intro vault_runs) (simp_all add: reachable_def system_start_def)
  moreover have "resolve_authorized_write_auth (?procs 0) sample_world (js ''acme/app'') sample_write (sy_vaults ?t 0) (sy_db ?t) =
      (Inr (sample_auth, receipt_of (gs_consumption st) 3000),
       v\<lparr>va_states := (va_states v)(0 := Some (consumes st (receipt_of (gs_consumption st) 3000)))\<rparr>,
       sample_active_db\<lparr>sq_consumptions := [consumption_receipt (bare_digests (gs_consumption st)) 3000]\<rparr>, [Minted WriteCap (js ''ghs_1'')])"
    using run(6) by (simp add: system_start_def)
  from system_broker [of ?procs, OF this] obtain u where u: "system_step ?procs ?t u" "sy_tokens u = issued_for v (HObject 0) [Minted WriteCap (js ''ghs_1'')]"
    by (auto simp: system_start_def sample_fields_write)
  have tokens: "sy_tokens u = [(gs_consumption st, js ''ghs_1'')]" using u(2) run(2) by (simp add: issued_for_def)
  have reach: "(system_step ?procs)\<^sup>*\<^sup>* ?s u" using calculation u(1) by simp
  from system_refines_spec [OF sample_process_hash sample_active_ledger reach] tokens reach show ?thesis
    by (intro exI [of _ u] exI [of _ "gs_consumption st"]) simp
qed

end
