(* ===== verification/Queue.thy ===== *)
theory Queue
  imports GitHubAuth
begin

text \<open>
  packages/app/src/queue.ts: \<open>runCampaignJobs\<close> runs a batch of migration jobs with a bounded number
  of workers that share one cursor. Between two \<open>await\<close>s a worker runs alone, so the batch is a
  step relation over the workers in any order. What \<open>migrateRepo\<close> makes of a job is arbitrary: a
  report, or an exception with the text \<open>safeErrorMessage\<close> gives it.
\<close>

section \<open>Jobs and results\<close>

text \<open>\<open>a?.b\<close>\<close>

definition chain :: "jsval \<Rightarrow> string \<Rightarrow> jsval" where
  "chain v k = (if v = JUndef \<or> v = JNull then JUndef else get v (js k))"

definition asks_to_publish :: "jsval \<Rightarrow> bool result" where
  "asks_to_publish job =
     bindR (member job ''publication'') (\<lambda>publication.
     Inr (chain publication ''mode'' = JStr (js ''publish'') \<or> get job (js ''ownerChallenge'') \<noteq> JUndef
       \<or> get job (js ''runnerAttestation'') \<noteq> JUndef))"

fun some_job_publishes :: "jsval list \<Rightarrow> bool result" where
  "some_job_publishes [] = Inr False"
| "some_job_publishes (job # jobs) = bindR (asks_to_publish job) (\<lambda>b. if b then Inr True else some_job_publishes jobs)"

definition skipped_check :: jsval where
  "skipped_check = obj [(js ''status'', JStr (js ''skipped'')), (js ''command'', JNull), (js ''exitCode'', JNull), (js ''output'', JStr []),
     (js ''reason'', JStr (js ''job failed before verification''))]"

text \<open>Whether a value is truthy.\<close>

fun truthy_value :: "jsval \<Rightarrow> bool" where
  "truthy_value JUndef \<longleftrightarrow> False"
| "truthy_value JNull \<longleftrightarrow> False"
| "truthy_value (JBool b) \<longleftrightarrow> b"
| "truthy_value (JNum n) \<longleftrightarrow> n \<noteq> JInt 0 \<and> n \<noteq> JNegZero"
| "truthy_value (JStr s) \<longleftrightarrow> s \<noteq> []"
| "truthy_value v \<longleftrightarrow> True"

definition empty_report :: "jsval \<Rightarrow> jsval result" where
  "empty_report manifest =
     bindR (member manifest ''name'') (\<lambda>name.
     Inr (obj
       [(js ''manifest'', obj [(js ''name'', name), (js ''provider'', get manifest (js ''provider''))]),
        (js ''scannedFiles'', arr []), (js ''changedFiles'', arr []), (js ''entries'', arr []),
        (js ''verification'', obj
          [(js ''ok'', JBool False), (js ''baseline'', arr []), (js ''after'', arr []), (js ''introduced'', arr []),
           (js ''skipped'', JBool True), (js ''skipReason'', JStr (js ''job failed'')), (js ''runner'', JStr (js ''not-started'')),
           (js ''checks'', obj
             ([(js ''install'', skipped_check), (js ''typecheck'', skipped_check), (js ''test'', skipped_check), (js ''lint'', skipped_check)]
              @ (if truthy_value (get manifest (js ''runtime'')) then [(js ''runtime'', skipped_check)] else [])))]),
        (js ''summary'', obj [(js ''applied'', jint 0), (js ''review'', jint 0), (js ''changedFiles'', jint 0), (js ''introducedErrors'', jint 0),
           (js ''verified'', JStr (js ''skipped''))])]))"

text \<open>\<open>MigrationJobResult\<close>: the migration's own result under the job's id, or the report of a failure.\<close>

datatype 'r job_result = Migrated jsval 'r | Failed jsval jsval jsstr

text \<open>The body of the loop after \<open>migrateRepo\<close> settles; the \<open>catch\<close> itself throws for a job without a manifest.\<close>

definition job_outcome :: "jsval \<Rightarrow> jsstr + 'r \<Rightarrow> 'r job_result result" where
  "job_outcome job outcome =
     (case outcome of
        Inr r \<Rightarrow> Inr (Migrated (get job (js ''id'')) r)
      | Inl e \<Rightarrow> bindR (empty_report (get job (js ''manifest''))) (\<lambda>report. Inr (Failed (get job (js ''id'')) report e)))"

section \<open>The workers\<close>

datatype worker = Ready | Running nat | Finished | Rejected nat jsstr

record 'r pool =
  po_cursor :: nat
  po_workers :: "worker list"
  po_results :: "'r job_result option list"

text \<open>\<open>Math.max(1, opts.concurrency ?? 2)\<close>, for an integer or \<open>undefined\<close>; never more workers than jobs.\<close>

definition worker_count :: "int option \<Rightarrow> nat \<Rightarrow> nat" where
  "worker_count concurrency n = min (nat (max 1 (case concurrency of None \<Rightarrow> 2 | Some c \<Rightarrow> c))) n"

definition pool_start :: "jsval list \<Rightarrow> int option \<Rightarrow> 'r pool" where
  "pool_start jobs concurrency = \<lparr>po_cursor = 0, po_workers = replicate (worker_count concurrency (length jobs)) Ready,
     po_results = replicate (length jobs) None\<rparr>"

inductive pool_step :: "jsval list \<Rightarrow> 'r pool \<Rightarrow> 'r pool \<Rightarrow> bool" for jobs where
  take_job: "w < length (po_workers s) \<Longrightarrow> po_workers s ! w = Ready \<Longrightarrow> po_cursor s < length jobs \<Longrightarrow>
     pool_step jobs s (s\<lparr>po_cursor := Suc (po_cursor s), po_workers := (po_workers s)[w := Running (po_cursor s)]\<rparr>)"
| leave: "w < length (po_workers s) \<Longrightarrow> po_workers s ! w = Ready \<Longrightarrow> length jobs \<le> po_cursor s \<Longrightarrow>
     pool_step jobs s (s\<lparr>po_cursor := Suc (po_cursor s), po_workers := (po_workers s)[w := Finished]\<rparr>)"
| settle: "w < length (po_workers s) \<Longrightarrow> po_workers s ! w = Running i \<Longrightarrow> job_outcome (jobs ! i) outcome = Inr r \<Longrightarrow>
     pool_step jobs s (s\<lparr>po_workers := (po_workers s)[w := Ready], po_results := (po_results s)[i := Some r]\<rparr>)"
| reject: "w < length (po_workers s) \<Longrightarrow> po_workers s ! w = Running i \<Longrightarrow> job_outcome (jobs ! i) (outcome :: jsstr + 'r) = Inl e \<Longrightarrow>
     pool_step jobs s (s\<lparr>po_workers := (po_workers s)[w := Rejected i e]\<rparr>)"

inductive_cases pool_stepE: "pool_step jobs s s'"

text \<open>\<open>Promise.all\<close> over the workers once they have all ended: the first exception in time, which may be any of them.\<close>

fun rejection :: "worker \<Rightarrow> jsstr list" where
  "rejection (Rejected i e) = [e]"
| "rejection w = []"

definition pool_returns :: "'r pool \<Rightarrow> 'r job_result option list result \<Rightarrow> bool" where
  "pool_returns s res \<longleftrightarrow>
     (let es = concat (map rejection (po_workers s)) in if es = [] then res = Inr (po_results s) else (\<exists>e \<in> set es. res = Inl e))"

definition run_campaign_jobs :: "jsval list \<Rightarrow> int option \<Rightarrow> 'r job_result option list result \<Rightarrow> bool" where
  "run_campaign_jobs jobs concurrency res \<longleftrightarrow>
     (case some_job_publishes jobs of
        Inl e \<Rightarrow> res = Inl e
      | Inr True \<Rightarrow> res = throw ''Publishing, owner-challenge preparation, and runner-attestation capabilities require the DB-backed console workflow; runCampaignJobs is preview-only''
      | Inr False \<Rightarrow> (\<exists>s. (pool_step jobs)\<^sup>*\<^sup>* (pool_start jobs concurrency) s \<and> (\<nexists>s'. pool_step jobs s s') \<and> pool_returns s res))"

section \<open>Termination\<close>

fun worker_weight :: "worker \<Rightarrow> nat" where
  "worker_weight Ready = 1"
| "worker_weight (Running i) = 2"
| "worker_weight Finished = 0"
| "worker_weight (Rejected i e) = 0"

definition pool_measure :: "jsval list \<Rightarrow> 'r pool \<Rightarrow> nat" where
  "pool_measure jobs s = 2 * (length jobs - po_cursor s) + sum_list (map worker_weight (po_workers s))"

lemma sum_list_nth_update: "w < length xs \<Longrightarrow> sum_list (map f (xs[w := x])) + f (xs ! w) = sum_list (map f xs) + (f x :: nat)"
proof (induction xs arbitrary: w)
  case (Cons y xs)
  then show ?case by (cases w) force+
qed simp

lemma pool_measure_decreases:
  assumes "pool_step jobs s s'"
  shows "pool_measure jobs s' < pool_measure jobs s"
  using assms
proof (cases rule: pool_step.cases)
  case (take_job w)
  with sum_list_nth_update [of w "po_workers s" worker_weight "Running (po_cursor s)"] show ?thesis by (simp add: pool_measure_def)
next
  case (leave w)
  with sum_list_nth_update [of w "po_workers s" worker_weight Finished] show ?thesis by (simp add: pool_measure_def)
next
  case (settle w i outcome r)
  with sum_list_nth_update [of w "po_workers s" worker_weight Ready] show ?thesis by (simp add: pool_measure_def)
next
  case (reject w i outcome e)
  with sum_list_nth_update [of w "po_workers s" worker_weight "Rejected i e"] show ?thesis by (simp add: pool_measure_def)
qed

lemma pool_run_bound: "(pool_step jobs ^^ k) s s' \<Longrightarrow> k + pool_measure jobs s' \<le> pool_measure jobs s"
proof (induction k arbitrary: s')
  case (Suc k)
  then obtain t where "(pool_step jobs ^^ k) s t" "pool_step jobs t s'" by auto
  with Suc.IH [of t] pool_measure_decreases [of jobs t s'] show ?case by simp
qed simp

lemma pool_start_measure: "pool_measure jobs (pool_start jobs c) = 2 * length jobs + worker_count c (length jobs)"
  by (simp add: pool_measure_def pool_start_def sum_list_replicate)

section \<open>Every job is started once\<close>

fun holds :: "nat \<Rightarrow> worker \<Rightarrow> bool" where
  "holds i (Running j) \<longleftrightarrow> i = j"
| "holds i (Rejected j e) \<longleftrightarrow> i = j"
| "holds i w \<longleftrightarrow> False"

definition started :: "'r pool \<Rightarrow> nat \<Rightarrow> nat" where
  "started s i = length (filter (holds i) (po_workers s)) + (if po_results s ! i = None then 0 else 1)"

definition pool_ok :: "jsval list \<Rightarrow> nat \<Rightarrow> 'r pool \<Rightarrow> bool" where
  "pool_ok jobs k s \<longleftrightarrow> length (po_workers s) = k \<and> length (po_results s) = length jobs
     \<and> (\<forall>i < length jobs. started s i = (if i < po_cursor s then 1 else 0))
     \<and> (\<forall>w \<in> set (po_workers s). \<forall>i. holds i w \<longrightarrow> i < length jobs)
     \<and> (\<forall>i < length jobs. \<forall>r. po_results s ! i = Some r \<longrightarrow> (\<exists>outcome. job_outcome (jobs ! i) outcome = Inr r))
     \<and> (Finished \<in> set (po_workers s) \<longrightarrow> length jobs \<le> po_cursor s)"

lemma filter_nth_update:
  "w < length xs \<Longrightarrow> length (filter P (xs[w := x])) + (if P (xs ! w) then 1 else 0) = length (filter P xs) + (if P x then 1 else 0)"
proof (induction xs arbitrary: w)
  case (Cons y xs)
  then show ?case by (cases w) force+
qed simp

lemma start_ok: "pool_ok jobs (worker_count c (length jobs)) (pool_start jobs c)"
  by (auto simp: pool_ok_def pool_start_def started_def)

lemma started_worker:
  assumes "w < length (po_workers s)" "po_workers s ! w = x"
  shows "started (s\<lparr>po_workers := (po_workers s)[w := y]\<rparr>) i + (if holds i x then 1 else 0) = started s i + (if holds i y then 1 else 0)"
  using filter_nth_update [OF assms(1), of "holds i" y] assms(2) by (simp add: started_def)

lemma running_job: "pool_ok jobs k s \<Longrightarrow> w < length (po_workers s) \<Longrightarrow> po_workers s ! w = Running i \<Longrightarrow> i < length jobs"
  unfolding pool_ok_def using holds.simps(1) nth_mem by metis

lemma step_ok:
  assumes "pool_step jobs s s'" "pool_ok jobs k s"
  shows "pool_ok jobs k s'"
  using assms(1)
proof (cases rule: pool_step.cases)
  case (take_job w)
  have "started (s\<lparr>po_workers := (po_workers s)[w := Running (po_cursor s)]\<rparr>) i = started s i + (if i = po_cursor s then 1 else 0)" for i
    using started_worker [OF take_job(2,3), of "Running (po_cursor s)" i] by simp
  then have "started s' i = started s i + (if i = po_cursor s then 1 else 0)" for i
    by (simp add: take_job(1) started_def)
  with take_job assms(2) show ?thesis by (auto simp: pool_ok_def dest!: set_update_subset_insert [THEN subsetD])
next
  case (leave w)
  have "started (s\<lparr>po_workers := (po_workers s)[w := Finished]\<rparr>) i = started s i" for i
    using started_worker [OF leave(2,3), of Finished i] by simp
  then have "started s' i = started s i" for i by (simp add: leave(1) started_def)
  with leave assms(2) show ?thesis by (auto simp: pool_ok_def dest!: set_update_subset_insert [THEN subsetD])
next
  case (settle w i outcome r)
  have held: "i < length jobs" by (rule running_job [OF assms(2) settle(2,3)])
  have workers: "length (filter (holds j) ((po_workers s)[w := Ready])) + (if i = j then 1 else 0) = length (filter (holds j) (po_workers s))" for j
    using filter_nth_update [OF settle(2), of "holds j" Ready] settle(3) by (simp add: eq_commute)
  have "po_results s ! i = None"
  proof (rule ccontr)
    assume "po_results s ! i \<noteq> None"
    then obtain x where "po_results s ! i = Some x" by blast
    then have "2 \<le> started s i" using workers [of i] by (simp add: started_def)
    with held assms(2) show False by (auto simp: pool_ok_def split: if_splits)
  qed
  moreover have "i < length (po_results s)" using held assms(2) by (simp add: pool_ok_def)
  ultimately have "started s' j = started s j" for j
    using workers [of j] by (cases "j = i") (simp_all add: settle(1) started_def)
  with settle held assms(2) show ?thesis
    by (auto simp: pool_ok_def nth_list_update dest!: set_update_subset_insert [THEN subsetD])
next
  case (reject w i outcome e)
  have "started (s\<lparr>po_workers := (po_workers s)[w := Rejected i e]\<rparr>) j = started s j" for j
    using started_worker [OF reject(2,3), of "Rejected i e" j] by simp
  moreover have "i < length jobs" by (rule running_job [OF assms(2) reject(2,3)])
  ultimately show ?thesis using reject assms(2) by (auto simp: pool_ok_def dest!: set_update_subset_insert [THEN subsetD])
qed

lemma run_ok: "(pool_step jobs)\<^sup>*\<^sup>* (pool_start jobs c) s \<Longrightarrow> pool_ok jobs (worker_count c (length jobs)) s"
  by (induction rule: rtranclp_induct) (auto intro: start_ok step_ok)

text \<open>Only ended workers cannot move.\<close>

lemma pool_moves:
  assumes "w < length (po_workers (s :: 'r pool))" "po_workers s ! w = Ready \<or> (\<exists>i. po_workers s ! w = Running i)"
  shows "\<exists>s'. pool_step jobs s s'"
proof (cases "po_workers s ! w")
  case Ready
  then show ?thesis using take_job [OF assms(1) Ready] leave [OF assms(1) Ready] by (meson not_le)
next
  case (Running i)
  show ?thesis
  proof (cases "job_outcome (jobs ! i) (Inl e :: jsstr + 'r)")
    case (Inl x)
    then show ?thesis using reject [OF assms(1) Running] by blast
  next
    case (Inr x)
    then show ?thesis using settle [OF assms(1) Running] by blast
  qed
qed (use assms in auto)

lemma ended_pool:
  assumes "pool_ok jobs k s" "\<nexists>s'. pool_step jobs s s'" "0 < k" "concat (map rejection (po_workers s)) = []"
  shows "\<forall>i < length jobs. \<exists>r outcome. po_results s ! i = Some r \<and> job_outcome (jobs ! i) outcome = Inr r"
proof (intro allI impI)
  fix i assume i: "i < length jobs"
  have workers: "x = Finished" if "x \<in> set (po_workers s)" for x
  proof -
    from that obtain w where w: "w < length (po_workers s)" "po_workers s ! w = x" by (auto simp: in_set_conv_nth)
    with pool_moves [of w s jobs] assms(2,4) that show ?thesis by (cases x) auto
  qed
  have "hd (po_workers s) \<in> set (po_workers s)" using assms(1,3) by (intro hd_in_set) (auto simp: pool_ok_def)
  with workers have "Finished \<in> set (po_workers s)" by metis
  then have "length jobs \<le> po_cursor s" using assms(1) by (simp add: pool_ok_def)
  with i assms(1) have "started s i = 1" by (simp add: pool_ok_def)
  moreover have "filter (holds i) (po_workers s) = []" using workers by (force simp: filter_empty_conv)
  ultimately have "po_results s ! i \<noteq> None" by (simp add: started_def split: if_splits)
  with i assms(1) show "\<exists>r outcome. po_results s ! i = Some r \<and> job_outcome (jobs ! i) outcome = Inr r" by (auto simp: pool_ok_def)
qed

text \<open>The workers hold different jobs.\<close>

lemma filter_two:
  assumes "a < length xs" "b < length xs" "P (xs ! a)" "P (xs ! b)" "a \<noteq> b"
  shows "2 \<le> length (filter P xs)"
proof -
  have "card {a, b} \<le> card {c. c < length xs \<and> P (xs ! c)}" using assms(1-4) by (intro card_mono) auto
  with assms(5) show ?thesis by (simp add: length_filter_conv_card)
qed

lemma running_distinct:
  assumes "pool_ok jobs k s" "a < length (po_workers s)" "b < length (po_workers s)" "po_workers s ! a = Running i" "po_workers s ! b = Running i"
  shows "a = b"
proof (rule ccontr)
  assume "a \<noteq> b"
  then have "2 \<le> length (filter (holds i) (po_workers s))" using assms(2-5) by (intro filter_two) simp_all
  then have "2 \<le> started s i" by (simp add: started_def)
  with running_job [OF assms(1,2,4)] assms(1) show False by (auto simp: pool_ok_def split: if_splits)
qed

section \<open>Properties\<close>

text \<open>The jobs of the application carry a manifest object, so that the report of a failure can be made.\<close>

definition has_manifest :: "jsval \<Rightarrow> bool" where
  "has_manifest job \<longleftrightarrow> get job (js ''manifest'') \<noteq> JUndef \<and> get job (js ''manifest'') \<noteq> JNull"

lemma outcome_made: "has_manifest job \<Longrightarrow> job_outcome job outcome \<noteq> Inl e"
  by (auto simp: has_manifest_def job_outcome_def empty_report_def member_def split: sum.splits)

definition no_rejection :: "'r pool \<Rightarrow> bool" where
  "no_rejection s \<longleftrightarrow> (\<forall>w \<in> set (po_workers s). rejection w = [])"

lemma no_rejection_update: "no_rejection s \<Longrightarrow> rejection x = [] \<Longrightarrow> \<forall>w \<in> set ((po_workers s)[n := x]). rejection w = []"
  using set_update_subset_insert [of "po_workers s" n x] by (auto simp: no_rejection_def)

lemma never_rejected:
  assumes "(pool_step jobs)\<^sup>*\<^sup>* (pool_start jobs c) s" "\<forall>job \<in> set jobs. has_manifest job"
  shows "no_rejection s"
  using assms(1)
proof (induction rule: rtranclp_induct)
  case base
  then show ?case by (simp add: pool_start_def no_rejection_def)
next
  case (step t u)
  from step.hyps(2) show ?case
  proof (cases rule: pool_step.cases)
    case (reject w i outcome e)
    have "jobs ! i \<in> set jobs" using running_job [OF run_ok [OF step.hyps(1)] reject(2,3)] by simp
    with assms(2) outcome_made reject(4) show ?thesis by blast
  next
    case (take_job w)
    then show ?thesis using no_rejection_update [OF step.IH, of "Running (po_cursor t)" w] by (simp add: no_rejection_def)
  next
    case (leave w)
    then show ?thesis using no_rejection_update [OF step.IH, of Finished w] by (simp add: no_rejection_def)
  next
    case (settle w i outcome r)
    then show ?thesis using no_rejection_update [OF step.IH, of Ready w] by (simp add: no_rejection_def)
  qed
qed

text \<open>A sample batch of one job whose migration fails.\<close>

definition sample_job :: jsval where
  "sample_job = obj [(js ''id'', JStr (js ''job-1'')), (js ''manifest'', obj [(js ''name'', JStr (js ''upgrade'')), (js ''provider'', JStr (js ''acme''))])]"

definition sample_failure :: "unit job_result" where
  "sample_failure = Failed (JStr (js ''job-1'')) (case empty_report (get sample_job (js ''manifest'')) of Inl e \<Rightarrow> JUndef | Inr v \<Rightarrow> v) (js ''boom'')"

definition sample_pool :: "nat \<Rightarrow> worker \<Rightarrow> unit job_result option \<Rightarrow> unit pool" where
  "sample_pool c w r = \<lparr>po_cursor = c, po_workers = [w], po_results = [r]\<rparr>"

lemma obj_value: "obj f \<noteq> JUndef" "obj f \<noteq> JNull"
  by (simp_all add: obj_def)

lemma sample_job_manifest: "has_manifest sample_job"
  by (simp add: has_manifest_def sample_job_def get_obj obj_value)

lemma sample_outcome: "job_outcome sample_job (Inl (js ''boom'')) = Inr sample_failure"
proof -
  obtain report where "empty_report (get sample_job (js ''manifest'')) = Inr report"
    using outcome_made [OF sample_job_manifest, of "Inl []"] by (cases "empty_report (get sample_job (js ''manifest''))") (auto simp: job_outcome_def)
  then show ?thesis by (simp add: job_outcome_def sample_failure_def) (simp add: sample_job_def get_obj)
qed

lemma sample_pool_steps:
  "pool_start [sample_job] None = sample_pool 0 Ready None"
  "pool_step [sample_job] (sample_pool 0 Ready None) (sample_pool 1 (Running 0) None)"
  "pool_step [sample_job] (sample_pool 1 (Running 0) None) (sample_pool 1 Ready (Some sample_failure))"
  "pool_step [sample_job] (sample_pool 1 Ready (Some sample_failure)) (sample_pool 2 Finished (Some sample_failure))"
proof -
  show "pool_start [sample_job] None = sample_pool 0 Ready None" by (simp add: pool_start_def sample_pool_def worker_count_def)
  show "pool_step [sample_job] (sample_pool 0 Ready None) (sample_pool 1 (Running 0) None)"
    using take_job [of 0 "sample_pool 0 Ready None" "[sample_job]"] by (simp add: sample_pool_def)
  show "pool_step [sample_job] (sample_pool 1 (Running 0) None) (sample_pool 1 Ready (Some sample_failure))"
    using settle [of 0 "sample_pool 1 (Running 0) None" 0 "[sample_job]" "Inl (js ''boom'')" sample_failure] sample_outcome by (simp add: sample_pool_def)
  show "pool_step [sample_job] (sample_pool 1 Ready (Some sample_failure)) (sample_pool 2 Finished (Some sample_failure))"
    using leave [of 0 "sample_pool 1 Ready (Some sample_failure)" "[sample_job]"] by (simp add: sample_pool_def numeral_2_eq_2)
qed

text \<open>C21: the queue ends, whatever the order in which migrations complete: no run takes more than two steps per job and one per worker, and
  a run that cannot go on has a result for every job, in the order of the jobs, made from that job's own migration.\<close>

theorem queue_terminates:
  assumes "(pool_step jobs ^^ k) (pool_start jobs concurrency) s" "\<forall>job \<in> set jobs. has_manifest job"
  shows "k \<le> 2 * length jobs + worker_count concurrency (length jobs)
    \<and> ((\<nexists>s'. pool_step jobs s s') \<longrightarrow>
        pool_returns s (Inr (po_results s)) \<and> length (po_results s) = length jobs
        \<and> (\<forall>i < length jobs. \<exists>r outcome. po_results s ! i = Some r \<and> job_outcome (jobs ! i) outcome = Inr r))"
proof -
  have run: "(pool_step jobs)\<^sup>*\<^sup>* (pool_start jobs concurrency) s" using assms(1) by (rule relpowp_imp_rtranclp)
  have quiet: "concat (map rejection (po_workers s)) = []" using never_rejected [OF run assms(2)] by (simp add: no_rejection_def)
  have results: "\<forall>i < length jobs. \<exists>r outcome. po_results s ! i = Some r \<and> job_outcome (jobs ! i) outcome = Inr r"
    if "\<nexists>s'. pool_step jobs s s'"
  proof (cases "jobs = []")
    case False
    then have "0 < worker_count concurrency (length jobs)" by (simp add: worker_count_def)
    with ended_pool [OF run_ok [OF run] that _ quiet] show ?thesis by blast
  qed simp
  have "k \<le> 2 * length jobs + worker_count concurrency (length jobs)"
    using pool_run_bound [OF assms(1)] by (simp add: pool_start_measure)
  moreover have "pool_returns s (Inr (po_results s))" using quiet by (simp add: pool_returns_def)
  moreover have "length (po_results s) = length jobs" using run_ok [OF run] by (simp add: pool_ok_def)
  ultimately show ?thesis using results by blast
qed

lemma queue_terminates_witness:
  "(pool_step [sample_job] ^^ 3) (pool_start [sample_job] None) (sample_pool 2 Finished (Some sample_failure))
    \<and> (3::nat) \<le> 2 * length [sample_job] + worker_count None (length [sample_job])"
proof -
  have "(pool_step [sample_job] ^^ 3) (pool_start [sample_job] None) (sample_pool 2 Finished (Some sample_failure))"
    unfolding sample_pool_steps(1) numeral_3_eq_3 using sample_pool_steps(2-4) by (auto simp: relcompp_apply)
  moreover from queue_terminates [OF this] sample_job_manifest
  have "3 \<le> 2 * length [sample_job] + worker_count None (length [sample_job])" by simp
  ultimately show ?thesis by blast
qed

text \<open>C22: every job is migrated at most once and never by two workers, no more migrations run at a time than the limit allows, and a
  result that is in its slot stays there.\<close>

theorem queue_exactly_once:
  assumes "(pool_step jobs)\<^sup>*\<^sup>* (pool_start jobs concurrency) s" "pool_step jobs s s'" "i < length jobs"
  shows "started s i \<le> 1 \<and> started s i \<le> started s' i
    \<and> length (filter (\<lambda>w. \<exists>j. w = Running j) (po_workers s)) \<le> nat (max 1 (case concurrency of None \<Rightarrow> 2 | Some c \<Rightarrow> c))
    \<and> (po_results s ! i \<noteq> None \<longrightarrow> po_results s' ! i = po_results s ! i)
    \<and> (\<forall>a < length (po_workers s). \<forall>b < length (po_workers s). po_workers s ! a = Running i \<and> po_workers s ! b = Running i \<longrightarrow> a = b)"
proof -
  note ok = run_ok [OF assms(1)]
  note ok' = step_ok [OF assms(2) ok]
  have "po_cursor s \<le> po_cursor s'" using assms(2) by (cases rule: pool_step.cases) simp_all
  with ok ok' assms(3) have grows: "started s i \<le> 1" "started s i \<le> started s' i" by (auto simp: pool_ok_def)
  have "length (filter (\<lambda>w. \<exists>j. w = Running j) (po_workers s)) \<le> length (po_workers s)" by (rule length_filter_le)
  with ok have bounded: "length (filter (\<lambda>w. \<exists>j. w = Running j) (po_workers s)) \<le> nat (max 1 (case concurrency of None \<Rightarrow> 2 | Some c \<Rightarrow> c))"
    by (simp add: pool_ok_def worker_count_def)
  have "po_results s' ! i = po_results s ! i" if filled: "po_results s ! i \<noteq> None"
    using assms(2)
  proof (cases rule: pool_step.cases)
    case (settle w j outcome r)
    have "i \<noteq> j"
    proof
      assume "i = j"
      with settle(2,3) have "0 < length (filter (holds i) (po_workers s))" using nth_mem by (fastforce simp: filter_empty_conv)
      moreover obtain x where "po_results s ! i = Some x" using filled by blast
      ultimately show False using grows(1) by (simp add: started_def)
    qed
    with settle(1) show ?thesis by simp
  qed simp_all
  with grows bounded running_distinct [OF ok] show ?thesis by blast
qed

lemma queue_exactly_once_witness:
  "started (sample_pool 1 (Running 0) None) 0 \<le> 1
    \<and> length (filter (\<lambda>w. \<exists>j. w = Running j) (po_workers (sample_pool 1 (Running 0) None))) \<le> nat (max 1 2)"
proof -
  have "(pool_step [sample_job])\<^sup>*\<^sup>* (pool_start [sample_job] None) (sample_pool 1 (Running 0) None)"
    unfolding sample_pool_steps(1) using sample_pool_steps(2) by blast
  from queue_exactly_once [OF this sample_pool_steps(3), of 0] show ?thesis by simp
qed

end
