(* ===== verification/Artifact.thy ===== *)
theory Artifact
  imports OwnerRegistry "HOL-Library.AList"
begin

unbundle bit_operations_syntax

text \<open>
  packages/app/src/artifact.ts: the exact transfer of a verified migration. A directory is a tree of
  names; \<open>inspectVerifiedArtifact\<close> compares the base with the proposed tree, \<open>applyVerifiedArtifact\<close>
  writes the inspected files into a clone, \<open>assertAppliedArtifact\<close> checks the result.
\<close>

section \<open>File trees\<close>

text \<open>A regular file with its permission bits, a symbolic link with its target, a directory, or another special file.\<close>

datatype fnode = FFile "32 word" "byte list" | FLink jsstr | FDir "(jsstr \<times> fnode) list" | FSpecial

datatype entry_type = FileEntry | SymlinkEntry

record tree_entry =
  te_type :: entry_type
  te_mode :: int
  te_digest :: jsstr

record verified_artifact =
  va_files :: "jsstr list"
  va_digest :: jsstr

text \<open>
  \<open>lstatIfExists\<close> below a directory: a missing name is \<open>undefined\<close>; a file that is used as a directory
  (ENOTDIR) and a NUL in the path are errors. A symbolic link on the way is reported as an error too;
  every caller has rejected it before.
\<close>

fun walk :: "fnode \<Rightarrow> jsstr list \<Rightarrow> fnode option result" where
  "walk n [] = Inr (Some n)"
| "walk (FDir es) (p # ps) = (case map_of es p of None \<Rightarrow> Inr None | Some m \<Rightarrow> walk m ps)"
| "walk n (p # ps) = throw ''ENOTDIR''"

definition lstat_if_exists :: "fnode \<Rightarrow> jsstr list \<Rightarrow> fnode option result" where
  "lstat_if_exists root parts = (if list_ex (\<lambda>p. 0 \<in> set p) parts then throw ''ERR_INVALID_ARG_VALUE'' else walk root parts)"

section \<open>Paths\<close>

definition normalize_artifact_path :: "jsstr \<Rightarrow> jsstr result" where
  "normalize_artifact_path v =
     (if v = [] \<or> is_absolute v \<or> 92 \<in> set v then throw ''Invalid artifact path''
      else let normalized = join [47] (filter (\<lambda>part. part \<noteq> js ''.'') (split_on 47 v)) in
        if v \<noteq> normalized \<or> normalized = [] \<or> starts_with [47] normalized \<or> list_ex (\<lambda>part. part = [] \<or> part = js ''..'') (split_on 47 normalized)
        then throw ''Invalid artifact path''
        else if normalized = js ''.git'' \<or> starts_with (js ''.git/'') normalized
          \<or> normalized = js ''node_modules'' \<or> starts_with (js ''node_modules/'') normalized
        then throw ''Forbidden artifact path''
        else Inr normalized)"

text \<open>No component below the root is a symbolic link; the components are looked up one after the other.\<close>

definition assert_no_symlink_components :: "fnode \<Rightarrow> jsstr \<Rightarrow> unit result" where
  "assert_no_symlink_components root path =
     (let parts = split_on 47 path in
      bindR (mapR (\<lambda>k. bindR (lstat_if_exists root (take k parts)) (\<lambda>stat.
          case stat of Some (FLink t) \<Rightarrow> throw ''Artifact path traverses a symlink'' | _ \<Rightarrow> Inr ())) [1..<Suc (length parts)])
        (\<lambda>_. Inr ()))"

section \<open>Entries\<close>

definition canonical_git_file_mode :: "32 word \<Rightarrow> int" where
  "canonical_git_file_mode mode = (if mode AND 0x49 = 0 then 33188 else 33261)"

definition link_entry :: "hash \<Rightarrow> jsstr \<Rightarrow> tree_entry" where
  "link_entry h target = \<lparr>te_type = SymlinkEntry, te_mode = 40960, te_digest = sha256_hex h (utf8 target)\<rparr>"

definition file_entry :: "hash \<Rightarrow> 32 word \<Rightarrow> byte list \<Rightarrow> tree_entry" where
  "file_entry h mode bytes = \<lparr>te_type = FileEntry, te_mode = canonical_git_file_mode mode, te_digest = sha256_hex h bytes\<rparr>"

text \<open>\<open>collectTree\<close>: the stack holds directories with their path; the result lists the calls of \<open>out.set\<close> in order.\<close>

fun fnode_size :: "fnode \<Rightarrow> nat" where
  "fnode_size (FDir es) = Suc (sum_list (map (\<lambda>(p, m). fnode_size m) es))"
| "fnode_size n = 1"

definition excluded :: "jsstr \<Rightarrow> bool" where
  "excluded name \<longleftrightarrow> name = js ''.git'' \<or> name = js ''node_modules''"

definition relative_text :: "jsstr list \<Rightarrow> jsstr" where
  "relative_text parts = map (\<lambda>c. if c = 92 then 47 else c) (join [47] parts)"

definition directory_entries :: "hash \<Rightarrow> jsstr list \<Rightarrow> (jsstr \<times> fnode) list \<Rightarrow> (jsstr \<times> tree_entry) list" where
  "directory_entries h prefix es = concat (map (\<lambda>(p, m). if excluded p then [] else
     (case m of FLink t \<Rightarrow> [(relative_text (prefix @ [p]), link_entry h t)]
      | FFile mode bytes \<Rightarrow> [(relative_text (prefix @ [p]), file_entry h mode bytes)] | _ \<Rightarrow> [])) es)"

definition subdirectories :: "jsstr list \<Rightarrow> (jsstr \<times> fnode) list \<Rightarrow> (jsstr list \<times> (jsstr \<times> fnode) list) list" where
  "subdirectories prefix es = concat (map (\<lambda>(p, m). if excluded p then [] else (case m of FDir fs \<Rightarrow> [(prefix @ [p], fs)] | _ \<Rightarrow> [])) es)"

definition directory_weight :: "jsstr list \<times> (jsstr \<times> fnode) list \<Rightarrow> nat" where
  "directory_weight d = fnode_size (FDir (snd d))"

lemma subdirectories_weight: "sum_list (map directory_weight (subdirectories prefix es)) < fnode_size (FDir es)"
proof (induction es)
  case (Cons e es)
  obtain p m where e: "e = (p, m)" by (cases e)
  show ?case
  proof (cases m)
    case (FDir fs)
    have "directory_weight (prefix @ [p], fs) = fnode_size (FDir fs)" by (simp add: directory_weight_def)
    with Cons.IH FDir e show ?thesis by (auto simp: subdirectories_def)
  qed (use Cons.IH e in \<open>auto simp: subdirectories_def\<close>)
qed (simp add: subdirectories_def)

text \<open>The top of the stack comes first; the directories that are pushed last are visited first.\<close>

function collect :: "hash \<Rightarrow> (jsstr list \<times> (jsstr \<times> fnode) list) list \<Rightarrow> (jsstr \<times> tree_entry) list" where
  "collect h [] = []"
| "collect h ((prefix, es) # stack) = directory_entries h prefix es @ collect h (rev (subdirectories prefix es) @ stack)"
  by pat_completeness auto

termination
proof (relation "measure (\<lambda>(h, stack). sum_list (map directory_weight stack))")
  fix h :: hash and prefix :: "jsstr list" and es stack
  show "((h, rev (subdirectories prefix es) @ stack), (h, (prefix, es) # stack)) \<in> measure (\<lambda>(h, stack). sum_list (map directory_weight stack))"
    using subdirectories_weight [of prefix es] by (simp add: directory_weight_def rev_map [symmetric] del: fnode_size.simps)
qed simp

definition collect_list :: "hash \<Rightarrow> fnode \<Rightarrow> (jsstr \<times> tree_entry) list" where
  "collect_list h root = (case root of FDir es \<Rightarrow> collect h [([], es)] | _ \<Rightarrow> [])"

text \<open>The \<open>Map\<close>: a later \<open>set\<close> of a key replaces an earlier one.\<close>

definition collect_tree :: "hash \<Rightarrow> fnode \<Rightarrow> jsstr \<Rightarrow> tree_entry option" where
  "collect_tree h root = map_of (rev (collect_list h root))"

section \<open>Inspection\<close>

definition assert_regular_artifact_entry :: "fnode \<Rightarrow> jsstr \<Rightarrow> tree_entry option \<Rightarrow> bool \<Rightarrow> unit result" where
  "assert_regular_artifact_entry root path entry allow_missing =
     thenR (assert_no_symlink_components root path)
       (case entry of
          None \<Rightarrow> if allow_missing then Inr () else throw ''Artifact path is not a regular file''
        | Some e \<Rightarrow> throw_if (te_type e \<noteq> FileEntry) ''Artifact path is not a regular file'')"

definition type_text :: "entry_type \<Rightarrow> jsstr" where
  "type_text t = (case t of FileEntry \<Rightarrow> js ''file'' | SymlinkEntry \<Rightarrow> js ''symlink'')"

definition entry_identity :: "tree_entry option \<Rightarrow> jsstr" where
  "entry_identity e = (case e of None \<Rightarrow> js ''missing''
     | Some e \<Rightarrow> type_text (te_type e) @ js '':'' @ int_text (te_mode e) @ js '':'' @ te_digest e)"

definition artifact_bytes :: "(jsstr \<Rightarrow> tree_entry option) \<Rightarrow> (jsstr \<Rightarrow> tree_entry option) \<Rightarrow> jsstr list \<Rightarrow> byte list" where
  "artifact_bytes base proposed files =
     utf8 (js ''api-migrator-artifact-v1'') @ [0] @ concat (map (\<lambda>path.
       utf8 path @ [0] @ utf8 (entry_identity (base path)) @ [0] @ utf8 (entry_identity (proposed path)) @ [0]) files)"

definition changed_paths :: "hash \<Rightarrow> fnode \<Rightarrow> fnode \<Rightarrow> jsstr list" where
  "changed_paths h base_root proposed_root =
     sort (filter (\<lambda>path. collect_tree h base_root path \<noteq> collect_tree h proposed_root path)
       (remdups (map fst (collect_list h base_root) @ map fst (collect_list h proposed_root))))"

definition inspect_verified_artifact :: "hash \<Rightarrow> fnode \<Rightarrow> fnode \<Rightarrow> jsstr list \<Rightarrow> verified_artifact result" where
  "inspect_verified_artifact h base_root proposed_root reported_files =
     bindR (mapR normalize_artifact_path reported_files) (\<lambda>normalized.
     let files = sort (remdups normalized); base = collect_tree h base_root; proposed = collect_tree h proposed_root in
     if join [0] (changed_paths h base_root proposed_root) \<noteq> join [0] files then throw ''Verified tree differs from engine report''
     else bindR (mapR (\<lambda>path. thenR (assert_regular_artifact_entry base_root path (base path) True)
            (assert_regular_artifact_entry proposed_root path (proposed path) True)) files) (\<lambda>_.
       Inr \<lparr>va_files = files, va_digest = sha256_hex h (artifact_bytes base proposed files)\<rparr>))"

section \<open>Application\<close>

text \<open>Creating or replacing a node; missing directories on the way are created (\<open>mkdirSync\<close> with \<open>recursive\<close>).\<close>

fun put_node :: "fnode \<Rightarrow> jsstr list \<Rightarrow> fnode \<Rightarrow> fnode" where
  "put_node (FDir es) [p] n = FDir (AList.update p n es)"
| "put_node (FDir es) (p # ps) n = FDir (AList.update p (put_node (case map_of es p of None \<Rightarrow> FDir [] | Some m \<Rightarrow> m) ps n) es)"
| "put_node m ps n = m"

fun remove_node :: "fnode \<Rightarrow> jsstr list \<Rightarrow> fnode" where
  "remove_node (FDir es) [p] = FDir (AList.delete p es)"
| "remove_node (FDir es) (p # ps) = (case map_of es p of None \<Rightarrow> FDir es | Some m \<Rightarrow> FDir (AList.update p (remove_node m ps) es))"
| "remove_node m ps = m"

fun make_directories :: "fnode \<Rightarrow> jsstr list \<Rightarrow> fnode" where
  "make_directories (FDir es) (p # ps) =
     FDir (AList.update p (make_directories (case map_of es p of None \<Rightarrow> FDir [] | Some m \<Rightarrow> m) ps) es)"
| "make_directories m ps = m"

text \<open>One file of the artifact: the clone may be changed when a later check fails.\<close>

definition apply_file :: "fnode \<Rightarrow> jsstr \<Rightarrow> fnode \<Rightarrow> unit result \<times> fnode" where
  "apply_file proposed path destination =
     (case bindR (normalize_artifact_path path) (\<lambda>normalized.
           thenR (assert_no_symlink_components proposed normalized)
          (thenR (assert_no_symlink_components destination normalized)
          (bindR (lstat_if_exists proposed (split_on 47 normalized)) (\<lambda>source.
           bindR (lstat_if_exists destination (split_on 47 normalized)) (\<lambda>target.
           Inr (normalized, source, target)))))) of
        Inl e \<Rightarrow> (Inl e, destination)
      | Inr (normalized, None, None) \<Rightarrow> (Inr (), destination)
      | Inr (normalized, None, Some (FFile mode bytes)) \<Rightarrow> (Inr (), remove_node destination (split_on 47 normalized))
      | Inr (normalized, None, Some _) \<Rightarrow> (throw ''Refusing to delete non-regular artifact path'', destination)
      | Inr (normalized, Some (FFile mode bytes), Some (FFile mode' bytes')) \<Rightarrow>
          (Inr (), put_node destination (split_on 47 normalized) (FFile (mode AND 0x1FF) bytes))
      | Inr (normalized, Some (FFile mode bytes), Some _) \<Rightarrow> (throw ''Refusing to overwrite non-regular artifact path'', destination)
      | Inr (normalized, Some (FFile mode bytes), None) \<Rightarrow>
          (let made = make_directories destination (butlast (split_on 47 normalized)) in
           case assert_no_symlink_components made normalized of
             Inl e \<Rightarrow> (Inl e, made)
           | Inr _ \<Rightarrow> (Inr (), put_node made (split_on 47 normalized) (FFile (mode AND 0x1FF) bytes)))
      | Inr (normalized, Some _, target) \<Rightarrow> (throw ''Refusing to publish non-regular artifact path'', destination))"

fun apply_files :: "fnode \<Rightarrow> jsstr list \<Rightarrow> fnode \<Rightarrow> unit result \<times> fnode" where
  "apply_files proposed [] destination = (Inr (), destination)"
| "apply_files proposed (path # paths) destination =
     (case apply_file proposed path destination of (Inl e, d) \<Rightarrow> (Inl e, d) | (Inr _, d) \<Rightarrow> apply_files proposed paths d)"

definition apply_verified_artifact :: "fnode \<Rightarrow> fnode \<Rightarrow> verified_artifact \<Rightarrow> unit result \<times> fnode" where
  "apply_verified_artifact destination proposed artifact = apply_files proposed (va_files artifact) destination"

section \<open>Confirmation\<close>

text \<open>The paths of an inspected artifact are normalized, so \<open>inside\<close> never rejects them.\<close>

definition read_tree_entry :: "hash \<Rightarrow> fnode \<Rightarrow> jsstr \<Rightarrow> tree_entry option result" where
  "read_tree_entry h root path =
     bindR (lstat_if_exists root (split_on 47 path)) (\<lambda>stat. case stat of
       None \<Rightarrow> Inr None
     | Some (FLink t) \<Rightarrow> Inr (Some (link_entry h t))
     | Some (FFile mode bytes) \<Rightarrow> Inr (Some (file_entry h mode bytes))
     | Some _ \<Rightarrow> throw ''Artifact path is not a regular file'')"

definition assert_applied_artifact :: "hash \<Rightarrow> fnode \<Rightarrow> fnode \<Rightarrow> verified_artifact \<Rightarrow> unit result" where
  "assert_applied_artifact h destination proposed artifact =
     bindR (mapR (\<lambda>path.
         thenR (assert_no_symlink_components destination path)
        (thenR (assert_no_symlink_components proposed path)
        (bindR (read_tree_entry h destination path) (\<lambda>d.
         bindR (read_tree_entry h proposed path) (\<lambda>p.
         throw_if (d \<noteq> p) ''Published artifact differs from verified bytes''))))) (va_files artifact)) (\<lambda>_. Inr ())"

text \<open>\<open>copyGitFreeTree\<close> into a new directory: \<open>link\<close> is what \<open>cpSync\<close> makes of a link's target.\<close>

definition git_free_name :: "jsstr \<Rightarrow> bool" where
  "git_free_name name \<longleftrightarrow> js ''.git'' \<notin> set (split_on 92 name) \<and> js ''node_modules'' \<notin> set (split_on 92 name)"

fun copy_git_free :: "(jsstr \<Rightarrow> jsstr) \<Rightarrow> fnode \<Rightarrow> fnode" where
  "copy_git_free link (FDir es) = FDir (map (\<lambda>(p, m). (p, copy_git_free link m)) (filter (\<lambda>(p, m). git_free_name p) es))"
| "copy_git_free link (FLink t) = FLink (link t)"
| "copy_git_free link n = n"

definition copy_git_free_tree :: "(jsstr \<Rightarrow> jsstr) \<Rightarrow> fnode \<Rightarrow> fnode result" where
  "copy_git_free_tree link source =
     bindR (lstat_if_exists (copy_git_free link source) [js ''.git'']) (\<lambda>stat.
     if stat \<noteq> None then throw ''Verification tree unexpectedly contains .git metadata'' else Inr (copy_git_free link source))"

end
