(* ===== verification/ArtifactFacts.thy ===== *)
theory ArtifactFacts
  imports Artifact
begin

unbundle bit_operations_syntax

text \<open>
  What the operations of artifact.ts do to a tree: the entry at a path, the tree that \<open>collectTree\<close>
  sees, and what writing or removing one file changes of it.
\<close>

section \<open>Well-formed trees\<close>

text \<open>The names in a directory differ and are file names; no name has a backslash, which the code takes for a separator.\<close>

definition file_name :: "jsstr \<Rightarrow> bool" where
  "file_name p \<longleftrightarrow> p \<noteq> [] \<and> 47 \<notin> set p \<and> 92 \<notin> set p \<and> 0 \<notin> set p \<and> valid_unicode p"

fun wf_node :: "fnode \<Rightarrow> bool" where
  "wf_node (FDir es) \<longleftrightarrow> distinct (map fst es) \<and> (\<forall>(p, m) \<in> set es. file_name p \<and> wf_node m)"
| "wf_node n \<longleftrightarrow> True"

definition wf_tree :: "fnode \<Rightarrow> bool" where
  "wf_tree root \<longleftrightarrow> wf_node root \<and> (\<exists>es. root = FDir es)"

text \<open>The entry at a path, when no name on it is excluded.\<close>

fun visible :: "hash \<Rightarrow> fnode \<Rightarrow> jsstr list \<Rightarrow> tree_entry option" where
  "visible h (FFile mode bytes) [] = Some (file_entry h mode bytes)"
| "visible h (FLink t) [] = Some (link_entry h t)"
| "visible h (FDir es) (p # ps) = (if excluded p then None else case map_of es p of None \<Rightarrow> None | Some m \<Rightarrow> visible h m ps)"
| "visible h n ps = None"

lemma visible_names: "wf_node n \<Longrightarrow> visible h n ps = Some e \<Longrightarrow> list_all file_name ps"
proof (induction h n ps rule: visible.induct)
  case (3 h es p ps)
  then obtain m where m: "\<not> excluded p" "map_of es p = Some m" "visible h m ps = Some e" by (auto split: if_splits option.splits)
  then have "(p, m) \<in> set es" by (auto dest: map_of_SomeD)
  with 3 m show ?case by auto
qed auto

lemma visible_dir_Nil [simp]: "visible h (FDir es) [] = None"
  by simp

section \<open>What collectTree sees\<close>

definition stack_entries :: "hash \<Rightarrow> (jsstr list \<times> (jsstr \<times> fnode) list) list \<Rightarrow> (jsstr \<times> tree_entry) set" where
  "stack_entries h stack = {(relative_text (prefix @ parts), e) | prefix es parts e. (prefix, es) \<in> set stack \<and> visible h (FDir es) parts = Some e}"

lemma entry_here:
  "x \<in> set (case m of FLink t \<Rightarrow> [(k, link_entry h t)] | FFile mode bytes \<Rightarrow> [(k, file_entry h mode bytes)] | _ \<Rightarrow> [])
    \<longleftrightarrow> (\<exists>e. x = (k, e) \<and> visible h m [] = Some e)"
  by (cases m) auto

lemma directory_entries_iff:
  "x \<in> set (directory_entries h prefix es)
    \<longleftrightarrow> (\<exists>p m e. (p, m) \<in> set es \<and> \<not> excluded p \<and> x = (relative_text (prefix @ [p]), e) \<and> visible h m [] = Some e)"
proof -
  have "x \<in> set (directory_entries h prefix es) \<longleftrightarrow> (\<exists>p m. (p, m) \<in> set es \<and> \<not> excluded p \<and>
      x \<in> set (case m of FLink t \<Rightarrow> [(relative_text (prefix @ [p]), link_entry h t)]
        | FFile mode bytes \<Rightarrow> [(relative_text (prefix @ [p]), file_entry h mode bytes)] | _ \<Rightarrow> []))"
    by (auto simp: directory_entries_def split: if_splits cong: fnode.case_cong)
  also have "\<dots> \<longleftrightarrow> (\<exists>p m. (p, m) \<in> set es \<and> \<not> excluded p \<and> (\<exists>e. x = (relative_text (prefix @ [p]), e) \<and> visible h m [] = Some e))"
    unfolding entry_here ..
  finally show ?thesis by blast
qed

lemma wf_subdirectory: "wf_node (FDir es) \<Longrightarrow> (p, m) \<in> set es \<Longrightarrow> wf_node m"
  by auto

lemma subdirectories_iff:
  "x \<in> set (subdirectories prefix es) \<longleftrightarrow> (\<exists>p fs. (p, FDir fs) \<in> set es \<and> \<not> excluded p \<and> x = (prefix @ [p], fs))"
  by (force simp: subdirectories_def split: if_splits fnode.splits)

lemma directory_split:
  assumes "distinct (map fst es)"
  shows "stack_entries h [(prefix, es)] = set (directory_entries h prefix es) \<union> stack_entries h (subdirectories prefix es)"
proof (intro set_eqI iffI)
  fix x
  assume "x \<in> stack_entries h [(prefix, es)]"
  then obtain p ps e m where x: "x = (relative_text (prefix @ p # ps), e)" "\<not> excluded p" "map_of es p = Some m" "visible h m ps = Some e"
    by (auto simp: stack_entries_def neq_Nil_conv elim!: visible.elims split: if_splits option.splits)
  then have member: "(p, m) \<in> set es" by (auto dest: map_of_SomeD)
  show "x \<in> set (directory_entries h prefix es) \<union> stack_entries h (subdirectories prefix es)"
  proof (cases m)
    case (FDir fs)
    then have "(prefix @ [p], fs) \<in> set (subdirectories prefix es)" using member x(2) by (auto simp: subdirectories_iff)
    moreover have "x = (relative_text ((prefix @ [p]) @ ps), e)" using x(1) by simp
    ultimately have "x \<in> stack_entries h (subdirectories prefix es)" using x(4) FDir unfolding stack_entries_def by blast
    then show ?thesis by blast
  next
    case (FFile mode bytes)
    then have "ps = [] \<and> e = file_entry h mode bytes" using x(4) by (cases ps) auto
    with x(4) have "visible h m [] = Some e" by simp
    then have "x \<in> set (directory_entries h prefix es)"
      unfolding directory_entries_iff using member x(1,2) \<open>ps = [] \<and> e = file_entry h mode bytes\<close> by (intro exI [of _ p] exI [of _ m] exI [of _ e]) simp
    then show ?thesis by blast
  next
    case (FLink t)
    then have "ps = [] \<and> e = link_entry h t" using x(4) by (cases ps) auto
    with x(4) have "visible h m [] = Some e" by simp
    then have "x \<in> set (directory_entries h prefix es)"
      unfolding directory_entries_iff using member x(1,2) \<open>ps = [] \<and> e = link_entry h t\<close> by (intro exI [of _ p] exI [of _ m] exI [of _ e]) simp
    then show ?thesis by blast
  next
    case FSpecial
    then show ?thesis using x(4) by (cases ps) auto
  qed
next
  fix x
  assume "x \<in> set (directory_entries h prefix es) \<union> stack_entries h (subdirectories prefix es)"
  then show "x \<in> stack_entries h [(prefix, es)]"
  proof
    assume "x \<in> set (directory_entries h prefix es)"
    then obtain p m e where m: "(p, m) \<in> set es" "\<not> excluded p" "x = (relative_text (prefix @ [p]), e)" "visible h m [] = Some e"
      by (auto simp: directory_entries_iff)
    then have "visible h (FDir es) [p] = Some e" using assms by (simp add: map_of_is_SomeI)
    with m(3) show ?thesis unfolding stack_entries_def by force
  next
    assume "x \<in> stack_entries h (subdirectories prefix es)"
    then obtain p fs ps e where m: "(p, FDir fs) \<in> set es" "\<not> excluded p" "x = (relative_text ((prefix @ [p]) @ ps), e)" "visible h (FDir fs) ps = Some e"
      by (auto simp: stack_entries_def subdirectories_iff)
    then have "visible h (FDir es) (p # ps) = Some e" using assms by (simp add: map_of_is_SomeI)
    with m(3) show ?thesis unfolding stack_entries_def by force
  qed
qed

lemma stack_entries_append: "stack_entries h (xs @ ys) = stack_entries h xs \<union> stack_entries h ys" "stack_entries h (rev xs) = stack_entries h xs"
  "stack_entries h (x # xs) = stack_entries h [x] \<union> stack_entries h xs" "stack_entries h [] = {}"
  by (auto simp: stack_entries_def)

lemma set_collect:
  "\<forall>(prefix, es) \<in> set stack. wf_node (FDir es) \<Longrightarrow> set (collect h stack) = stack_entries h stack"
proof (induction h stack rule: collect.induct)
  case (2 h prefix es stack)
  have "\<forall>(prefix, es) \<in> set (rev (subdirectories prefix es) @ stack). wf_node (FDir es)"
    using 2(2) wf_subdirectory [of es] by (fastforce simp: subdirectories_iff simp del: wf_node.simps)
  moreover have "distinct (map fst es)" using 2(2) by simp
  ultimately show ?case
    using 2(1) directory_split [of es h prefix] stack_entries_append(3) [of h "(prefix, es)" stack]
    by (auto simp: stack_entries_append(1,2))
qed (simp add: stack_entries_append)

lemma set_join: "set (join sep xs) \<subseteq> set sep \<union> \<Union> (set ` set xs)"
  by (induction sep xs rule: join.induct) auto

lemma relative_text_names: "list_all file_name parts \<Longrightarrow> relative_text parts = join [47] parts"
proof -
  assume names: "list_all file_name parts"
  have "92 \<notin> set p" if "p \<in> set parts" for p using names that by (auto simp: list_all_iff file_name_def)
  then have "92 \<notin> set (join [47] parts)" using set_join [of "[47]" parts] by auto
  then show ?thesis unfolding relative_text_def by (intro map_idI) auto
qed

lemma split_join_names: "list_all file_name parts \<Longrightarrow> parts \<noteq> [] \<Longrightarrow> split_on 47 (join [47] parts) = parts"
proof (induction "[47] :: jsstr" parts rule: join.induct)
  case (3 x y xs)
  then have "47 \<notin> set x" by (simp add: file_name_def)
  with 3 show ?case by (simp add: split_on_append)
qed (auto simp: split_on_absent file_name_def)

lemma map_of_functional:
  assumes "(k, v) \<in> set xs" "\<And>w. (k, w) \<in> set xs \<Longrightarrow> w = v"
  shows "map_of xs k = Some v"
  using assms by (metis map_of_SomeD map_of_eq_None_iff not_None_eq fst_conv image_eqI)

text \<open>Without backslashes in names, \<open>collectTree\<close> maps a path to the entry at its components.\<close>

lemma collect_tree_eq:
  assumes "wf_tree root"
  shows "collect_tree h root path = visible h root (split_on 47 path)"
proof -
  obtain es where root: "root = FDir es" "wf_node root" using assms by (auto simp: wf_tree_def)
  have set_eq: "set (rev (collect_list h root)) = stack_entries h [([], es)]"
    using set_collect [of "[([], es)]" h] root by (simp add: collect_list_def del: collect.simps)
  have pair: "(k, e) \<in> stack_entries h [([], es)] \<longleftrightarrow> visible h root (split_on 47 k) = Some e" for k e
  proof
    assume "(k, e) \<in> stack_entries h [([], es)]"
    then obtain parts where parts: "k = relative_text parts" "visible h root parts = Some e" by (auto simp: stack_entries_def root(1))
    then have "list_all file_name parts" "parts \<noteq> []" using visible_names [OF root(2)] root(1) by auto
    with parts show "visible h root (split_on 47 k) = Some e" by (simp add: relative_text_names split_join_names)
  next
    assume e: "visible h root (split_on 47 k) = Some e"
    then have "list_all file_name (split_on 47 k)" by (rule visible_names [OF root(2)])
    then have "k = relative_text ([] @ split_on 47 k)" by (simp add: relative_text_names split_on_join)
    with e root(1) show "(k, e) \<in> stack_entries h [([], es)]" unfolding stack_entries_def by force
  qed
  show ?thesis
  proof (cases "visible h root (split_on 47 path)")
    case None
    then have "path \<notin> fst ` set (rev (collect_list h root))" using pair set_eq by auto
    then show ?thesis using None by (simp add: collect_tree_def map_of_eq_None_iff)
  next
    case (Some e)
    then show ?thesis
      unfolding collect_tree_def Some using pair [of path] set_eq by (intro map_of_functional) (simp_all add: Some)
  qed
qed

lemma collected_keys: "path \<in> fst ` set (collect_list h root) \<longleftrightarrow> collect_tree h root path \<noteq> None"
  by (simp add: collect_tree_def map_of_eq_None_iff)

lemma changed_paths_set: "set (changed_paths h a b) = {path. collect_tree h a path \<noteq> collect_tree h b path}"
proof -
  have "path \<in> fst ` set (collect_list h a) \<union> fst ` set (collect_list h b)" if "collect_tree h a path \<noteq> collect_tree h b path" for path
    using that collected_keys by (metis Un_iff)
  then show ?thesis by (auto simp: changed_paths_def)
qed

lemma changed_paths_order: "sorted (changed_paths h a b)" "distinct (changed_paths h a b)"
  by (simp_all add: changed_paths_def)

section \<open>Writing and removing\<close>

definition here :: "(jsstr \<times> fnode) list \<Rightarrow> jsstr \<Rightarrow> fnode" where
  "here es p = (case map_of es p of None \<Rightarrow> FDir [] | Some m \<Rightarrow> m)"

lemma map_of_update: "map_of (AList.update p n es) q = (if q = p then Some n else map_of es q)"
  by (simp add: update_conv')

lemma visible_empty: "visible h (FDir []) ps = None"
  by (cases ps) auto

lemma visible_below_file [simp]: "ps \<noteq> [] \<Longrightarrow> visible h (FFile mode bytes) ps = None"
  by (cases ps) auto

lemma visible_update: "\<not> excluded p \<Longrightarrow>
    visible h (FDir (AList.update p n es)) (q # qs) = (if q = p then visible h n qs else visible h (FDir es) (q # qs))"
  by (simp add: map_of_update)

lemma visible_here: "\<not> excluded p \<Longrightarrow> visible h (FDir es) (p # qs) = visible h (here es p) qs"
  by (simp add: here_def visible_empty split: option.split)

lemma walk_here: "walk (FDir es) (p # ps) = Inr r \<Longrightarrow> ps \<noteq> [] \<Longrightarrow> map_of es p = None \<longrightarrow> r = None \<Longrightarrow> (map_of es p \<noteq> None \<longrightarrow> walk (here es p) ps = Inr r)"
  by (auto simp: here_def)

text \<open>Where a file may be written or removed: nothing is there, or a file.\<close>

definition replaceable :: "fnode option \<Rightarrow> bool" where
  "replaceable r \<longleftrightarrow> (case r of None \<Rightarrow> True | Some (FFile mode bytes) \<Rightarrow> True | _ \<Rightarrow> False)"

lemma walk_empty: "ps \<noteq> [] \<Longrightarrow> walk (FDir []) ps = Inr None"
  by (cases ps) auto

lemma walk_step: "walk (FDir es) (p # ps) = Inr r \<Longrightarrow> ps \<noteq> [] \<Longrightarrow> replaceable r \<Longrightarrow> \<exists>s. walk (here es p) ps = Inr s \<and> replaceable s"
  by (auto simp: here_def walk_empty replaceable_def split: option.splits)

lemma replaceable_leaf: "replaceable r \<Longrightarrow> walk (FDir es) [p] = Inr r \<Longrightarrow> qs \<noteq> [] \<Longrightarrow> visible h (FDir es) (p # qs) = None"
  by (cases qs) (auto simp: replaceable_def split: option.splits fnode.splits)

lemma walk_directory: "walk d (p # q # ps) = Inr r \<Longrightarrow> \<exists>es. d = FDir es"
  by (cases d) (auto simp: throw_def)

lemma visible_put:
  assumes "walk d ps = Inr r" "replaceable r" "ps \<noteq> []" "\<exists>es. d = FDir es" "\<forall>p \<in> set ps. \<not> excluded p"
  shows "visible h (put_node d ps (FFile mode bytes)) qs = (if qs = ps then Some (file_entry h mode bytes) else visible h d qs)"
  using assms
proof (induction ps arbitrary: d r qs)
  case (Cons p ps)
  obtain es where d: "d = FDir es" using Cons.prems(4) by blast
  show ?case
  proof (cases "ps = []")
    case True
    show ?thesis
    proof (cases qs)
      case (Cons q qs')
      then show ?thesis
        using True d Cons.prems(1,2,5) replaceable_leaf [of r es p qs' h]
        by (cases "qs' = []") (auto simp: visible_update simp del: visible.simps(3))
    qed (simp add: True d)
  next
    case False
    then obtain p' ps' where ps: "ps = p' # ps'" by (cases ps) auto
    obtain s where s: "walk (here es p) ps = Inr s" "replaceable s" using walk_step [OF Cons.prems(1) [unfolded d] False Cons.prems(2)] by blast
    have dir: "\<exists>fs. here es p = FDir fs"
    proof (cases ps')
      case (Cons a list)
      with walk_directory s(1) ps show ?thesis by blast
    next
      case Nil
      with s(1) ps show ?thesis by (cases "here es p") (auto simp: throw_def)
    qed
    have put: "put_node (FDir es) (p # ps) n = FDir (AList.update p (put_node (here es p) ps n) es)" for n
      by (simp add: d ps here_def)
    have "visible h (put_node (here es p) ps (FFile mode bytes)) xs = (if xs = ps then Some (file_entry h mode bytes) else visible h (here es p) xs)" for xs
      using Cons.IH [OF s False dir] Cons.prems(5) by simp
    then show ?thesis
      unfolding d put using Cons.prems(5) by (cases qs) (auto simp: visible_update visible_here simp del: visible.simps(3))
  qed
qed simp

lemma here_directory:
  assumes "walk (here es p) ps = Inr r" "ps \<noteq> []"
  shows "\<exists>fs. here es p = FDir fs"
  using assms by (cases ps; cases "here es p") (auto simp: throw_def)

lemma visible_remove:
  assumes "walk d ps = Inr (Some (FFile mode bytes))" "ps \<noteq> []" "\<exists>es. d = FDir es" "\<forall>p \<in> set ps. \<not> excluded p"
    and "wf_node d"
  shows "visible h (remove_node d ps) qs = (if qs = ps then None else visible h d qs)"
  using assms
proof (induction ps arbitrary: d qs)
  case (Cons p ps)
  obtain es where d: "d = FDir es" using Cons.prems(3) by blast
  show ?case
  proof (cases "ps = []")
    case True
    have member: "map_of es p = Some (FFile mode bytes)" using Cons.prems(1) True d by (simp split: option.splits)
    have gone: "map_of (AList.delete p es) q = (if q = p then None else map_of es q)" for q by (simp add: delete_conv')
    show ?thesis
      using True d member by (cases qs) (auto simp: gone split: option.split)
  next
    case False
    then obtain p' ps' where ps: "ps = p' # ps'" by (cases ps) auto
    have some: "map_of es p = Some (here es p)" using Cons.prems(1) d by (auto simp: here_def split: option.splits)
    then have walk: "walk (here es p) ps = Inr (Some (FFile mode bytes))" using Cons.prems(1) d by simp
    have "wf_node (here es p)" using Cons.prems(5) d map_of_SomeD [OF some] by auto
    note IH = Cons.IH [OF walk False here_directory [OF walk False] _ this]
    have remove: "remove_node (FDir es) (p # ps) = FDir (AList.update p (remove_node (here es p) ps) es)"
      using some by (simp add: d ps)
    show ?thesis
      unfolding d remove using Cons.prems(4) IH by (cases qs) (auto simp: visible_update visible_here simp del: visible.simps(3))
  qed
qed simp

text \<open>Making the missing directories on the way shows nothing new and leaves the place of the file free.\<close>

lemma visible_make:
  assumes "walk d (ps @ [p]) = Inr None" "\<forall>p \<in> set ps. \<not> excluded p"
  shows "visible h (make_directories d ps) qs = visible h d qs \<and> walk (make_directories d ps) (ps @ [p]) = Inr None"
  using assms
proof (induction ps arbitrary: d qs)
  case (Cons q ps)
  obtain es where d: "d = FDir es" using Cons.prems(1) by (cases d) (auto simp: throw_def)
  have walk: "walk (here es q) (ps @ [p]) = Inr None"
    using Cons.prems(1) by (auto simp: d here_def walk_empty split: option.splits)
  note IH = Cons.IH [OF walk]
  have make: "make_directories (FDir es) (q # ps) = FDir (AList.update q (make_directories (here es q) ps) es)" by (simp add: d here_def)
  have "visible h (make_directories d (q # ps)) qs = visible h d qs"
    unfolding d make using Cons.prems(2) IH by (cases qs) (auto simp: visible_update visible_here simp del: visible.simps(3))
  moreover have "walk (make_directories d (q # ps)) ((q # ps) @ [p]) = Inr None"
    unfolding d make using Cons.prems(2) IH by (simp add: map_of_update)
  ultimately show ?case by blast
qed (cases d; simp)

lemma make_directory: "\<exists>es. d = FDir es \<Longrightarrow> \<exists>es. make_directories d ps = FDir es"
  by (cases ps) auto

text \<open>Names stay well-formed.\<close>

lemma wf_update:
  assumes "wf_node (FDir es)" "file_name p" "wf_node n"
  shows "wf_node (FDir (AList.update p n es))"
proof -
  have "set (AList.update p n es) \<subseteq> insert (p, n) (set es)" by (induction es) auto
  then show ?thesis using assms distinct_update [of es p n] by auto
qed

lemma wf_here: "wf_node (FDir es) \<Longrightarrow> wf_node (here es p)"
  by (auto simp: here_def dest!: map_of_SomeD split: option.split)

lemma wf_put: "wf_node d \<Longrightarrow> list_all file_name ps \<Longrightarrow> wf_node n \<Longrightarrow> wf_node (put_node d ps n)"
  by (induction d ps n rule: put_node.induct) (auto intro!: wf_update simp flip: here_def intro: wf_here simp del: wf_node.simps(1))

lemma wf_make: "wf_node d \<Longrightarrow> list_all file_name ps \<Longrightarrow> wf_node (make_directories d ps)"
  by (induction d ps rule: make_directories.induct) (auto intro!: wf_update simp flip: here_def intro: wf_here simp del: wf_node.simps(1))

lemma wf_remove: "wf_node d \<Longrightarrow> list_all file_name ps \<Longrightarrow> wf_node (remove_node d ps)"
proof (induction d ps rule: remove_node.induct)
  case (1 es p)
  have "set (AList.delete p es) \<subseteq> set es" by (auto simp: AList.delete_eq)
  moreover have "distinct (map fst (AList.delete p es))" using 1 by (simp add: distinct_delete)
  ultimately show ?case using 1(1) by auto
next
  case (2 es p q ps)
  show ?case
  proof (cases "map_of es p")
    case (Some m)
    have "wf_node m" using wf_subdirectory [OF 2(2) map_of_SomeD [OF Some]] .
    with 2 Some show ?thesis by (simp add: wf_update del: wf_node.simps(1))
  qed (use 2 in simp)
qed auto

end
