(* ===== verification/TextBytes.thy ===== *)
theory TextBytes
  imports Repository
begin

text \<open>
  Text inside binary formats: UTF-8 has a zero byte only for the character NUL, and text without a terminator can be
  read back in front of it.
\<close>

section \<open>Zero bytes\<close>

lemma byte_nonzero: "k < 256 \<Longrightarrow> 0 < k \<Longrightarrow> (of_nat k :: byte) \<noteq> 0"
  by (simp add: word_of_nat_eq_0_iff nat_dvd_not_less)

lemma continuation_nonzero: "(of_nat (0x80 + k mod 0x40) :: byte) \<noteq> 0"
proof (rule byte_nonzero)
  have "k mod 0x40 < 0x40" by simp
  then show "0x80 + k mod 0x40 < 256" by linarith
qed simp

lemma lead_nonzero: "k < 0x20 \<Longrightarrow> (of_nat (0xC0 + k) :: byte) \<noteq> 0" "k < 0x10 \<Longrightarrow> (of_nat (0xE0 + k) :: byte) \<noteq> 0"
  "k < 8 \<Longrightarrow> (of_nat (0xF0 + k) :: byte) \<noteq> 0"
  by (rule byte_nonzero; simp)+

lemma in_two: "x \<in> set [a, b] \<longleftrightarrow> x = a \<or> x = b" and in_three: "x \<in> set [a, b, c] \<longleftrightarrow> x = a \<or> x = b \<or> x = c"
  and in_four: "x \<in> set [a, b, c, d] \<longleftrightarrow> x = a \<or> x = b \<or> x = c \<or> x = d"
  by auto

lemma utf8_unit_nul: "0 \<in> set (utf8_unit c) \<Longrightarrow> c = 0"
proof (rule ccontr)
  assume zero: "0 \<in> set (utf8_unit c)" and "c \<noteq> 0"
  then have pos: "0 < unat c" by (simp add: unat_gt_0)
  have bound: "unat c < 0x10000" using unsigned_less [of c] by simp
  consider "unat c < 0x80" | "\<not> unat c < 0x80" "unat c < 0x800" | "\<not> unat c < 0x80" "\<not> unat c < 0x800" "is_high c \<or> is_low c"
    | "\<not> unat c < 0x80" "\<not> unat c < 0x800" "\<not> (is_high c \<or> is_low c)" by blast
  then show False
  proof cases
    case 1
    then have "utf8_unit c = [of_nat (unat c)]" by (simp add: utf8_unit_def)
    moreover have "(of_nat (unat c) :: byte) \<noteq> 0" using 1 pos by (intro byte_nonzero) simp_all
    ultimately show False using zero by (metis empty_iff insert_iff list.set)
  next
    case 2
    then have "utf8_unit c = [of_nat (0xC0 + unat c div 0x40), of_nat (0x80 + unat c mod 0x40)]" by (simp add: utf8_unit_def Let_def)
    moreover have "unat c div 0x40 < 0x20" using 2 by (simp add: less_mult_imp_div_less)
    ultimately show False using zero lead_nonzero(1) continuation_nonzero [of "unat c"] in_two by metis
  next
    case 3
    then have "utf8_unit c = [0xEF, 0xBF, 0xBD]" by (auto simp: utf8_unit_def Let_def)
    with zero show False by simp
  next
    case 4
    then have "utf8_unit c = [of_nat (0xE0 + unat c div 0x1000), of_nat (0x80 + unat c div 0x40 mod 0x40), of_nat (0x80 + unat c mod 0x40)]"
      by (simp add: utf8_unit_def Let_def)
    moreover have "unat c div 0x1000 < 0x10" using bound by (simp add: less_mult_imp_div_less)
    ultimately show False using zero lead_nonzero(2) continuation_nonzero [of "unat c"] continuation_nonzero [of "unat c div 0x40"] in_three by metis
  qed
qed

lemma utf8_pair_nul: "is_high a \<Longrightarrow> is_low b \<Longrightarrow> 0 \<notin> set (utf8_pair a b)"
proof
  assume high: "is_high a" "is_low b" and zero: "0 \<in> set (utf8_pair a b)"
  let ?cp = "0x10000 + (unat a - 0xD800) * 0x400 + (unat b - 0xDC00)"
  have eq: "utf8_pair a b = [of_nat (0xF0 + ?cp div 0x40000), of_nat (0x80 + ?cp div 0x1000 mod 0x40),
      of_nat (0x80 + ?cp div 0x40 mod 0x40), of_nat (0x80 + ?cp mod 0x40)]" unfolding utf8_pair_def Let_def ..
  have "unat a < 0x10000" "unat b < 0x10000" using unsigned_less [of a] unsigned_less [of b] by simp_all
  then have "?cp < 8 * 0x40000" using high by (simp add: is_high_def is_low_def word_le_nat_alt) linarith
  then have "?cp div 0x40000 < 8" by (rule less_mult_imp_div_less)
  with zero show False
    using lead_nonzero(3) continuation_nonzero [of ?cp] continuation_nonzero [of "?cp div 0x40"] continuation_nonzero [of "?cp div 0x1000"] in_four
    unfolding eq by metis
qed

lemma utf8_nul: "0 \<notin> set s \<Longrightarrow> 0 \<notin> set (utf8 s)"
  by (induction s rule: utf8.induct) (auto dest: utf8_unit_nul simp: utf8_pair_nul)

section \<open>Terminated parts\<close>

lemma terminated_inject: "a @ t # r = b @ t # s \<Longrightarrow> t \<notin> set a \<Longrightarrow> t \<notin> set b \<Longrightarrow> a = b \<and> r = s"
proof (induction a arbitrary: b)
  case Nil
  then show ?case by (cases b) auto
next
  case (Cons x a)
  then show ?case by (cases b) auto
qed

lemma counted_inject: "a @ r = b @ s \<Longrightarrow> length a = length b \<Longrightarrow> a = b \<and> r = s"
  by simp

section \<open>Parts of text\<close>

lemma valid_unicode_prefix: "is_basic d \<Longrightarrow> valid_unicode (s @ d # t) \<Longrightarrow> valid_unicode s \<and> valid_unicode t"
proof (induction s rule: assert_valid_unicode.induct)
  case (2 c s)
  show ?case
  proof (cases "is_high c")
    case True
    show ?thesis
    proof (cases s)
      case Nil
      with 2 True show ?thesis by (auto simp: valid_unicode_Cons is_basic_def)
    next
      case (Cons e u)
      with 2 True show ?thesis by (auto simp: valid_unicode_Cons)
    qed
  next
    case False
    with 2 show ?thesis by (auto simp: valid_unicode_Cons)
  qed
qed simp

lemma split_on_unicode: "is_basic d \<Longrightarrow> valid_unicode s \<Longrightarrow> p \<in> set (split_on d s) \<Longrightarrow> valid_unicode p"
proof (induction "length s" arbitrary: s rule: less_induct)
  case less
  show ?case
  proof (cases "d \<in> set s")
    case True
    then obtain a t where s: "s = a @ d # t" "d \<notin> set a" by (meson split_list_first)
    have "valid_unicode a" "valid_unicode t" using valid_unicode_prefix [OF less.prems(1) less.prems(2) [unfolded s(1)]] by blast+
    moreover have "p = a \<or> p \<in> set (split_on d t)" using less.prems(3) unfolding s(1) split_on_append [OF s(2)] by simp
    moreover have "length t < length s" unfolding s(1) by simp
    ultimately show ?thesis using less.hyps [of t] less.prems(1) by blast
  next
    case False
    with less.prems show ?thesis by (simp add: split_on_absent)
  qed
qed

end
