(* ===== verification/ArtifactClaims.thy ===== *)
theory ArtifactClaims
  imports ArtifactFacts TextBytes
begin

unbundle bit_operations_syntax

text \<open>
  The properties of the artifact transfer: an accepted report is the complete difference of the two
  trees, the digest identifies it, and applying it turns a clone of the base into the proposed tree.
\<close>

section \<open>Paths and entries\<close>

lemma normalize_same: "normalize_artifact_path v = Inr n \<Longrightarrow> n = v \<and> v \<noteq> []"
  by (auto simp: normalize_artifact_path_def Let_def throw_def split: if_splits)

lemma visible_not_excluded: "visible h n ps = Some e \<Longrightarrow> \<forall>p \<in> set ps. \<not> excluded p"
  by (induction h n ps rule: visible.induct) (auto split: if_splits option.splits)

lemma walk_visible:
  "walk n ps = Inr r \<Longrightarrow> \<forall>p \<in> set ps. \<not> excluded p \<Longrightarrow>
    visible h n ps = (case r of Some (FFile mode bytes) \<Rightarrow> Some (file_entry h mode bytes) | Some (FLink t) \<Rightarrow> Some (link_entry h t) | _ \<Rightarrow> None)"
proof (induction n ps rule: walk.induct)
  case (1 n)
  then show ?case by (cases n) auto
qed (auto simp: throw_def split: option.splits)

lemma lstat_walk: "lstat_if_exists root ps = Inr r \<Longrightarrow> walk root ps = Inr r \<and> (\<forall>p \<in> set ps. 0 \<notin> set p)"
  by (auto simp: lstat_if_exists_def list_ex_iff throw_def split: if_splits)

lemma mode_kept: "file_entry h (mode AND 0x1FF) bytes = file_entry h mode bytes"
proof -
  have "(mode AND 0x1FF) AND 0x49 = mode AND 0x49" by (simp add: and.assoc)
  then show ?thesis by (simp add: file_entry_def canonical_git_file_mode_def)
qed

section \<open>Applying one file\<close>

definition plain_path :: "jsstr \<Rightarrow> bool" where
  "plain_path path \<longleftrightarrow> list_all file_name (split_on 47 path) \<and> (\<forall>p \<in> set (split_on 47 path). \<not> excluded p)"

lemma apply_file_Inr:
  assumes "apply_file proposed path d = (Inr u, d')"
  obtains s t where "walk proposed (split_on 47 path) = Inr s" "walk d (split_on 47 path) = Inr t"
    "(s = None \<and> t = None \<and> d' = d)
     \<or> (\<exists>mode bytes. s = None \<and> t = Some (FFile mode bytes) \<and> d' = remove_node d (split_on 47 path))
     \<or> (\<exists>mode bytes mode' bytes'. s = Some (FFile mode bytes) \<and> t = Some (FFile mode' bytes')
          \<and> d' = put_node d (split_on 47 path) (FFile (mode AND 0x1FF) bytes))
     \<or> (\<exists>mode bytes. s = Some (FFile mode bytes) \<and> t = None
          \<and> d' = put_node (make_directories d (butlast (split_on 47 path))) (split_on 47 path) (FFile (mode AND 0x1FF) bytes))"
proof -
  let ?stage = "bindR (normalize_artifact_path path) (\<lambda>normalized.
      thenR (assert_no_symlink_components proposed normalized)
     (thenR (assert_no_symlink_components d normalized)
     (bindR (lstat_if_exists proposed (split_on 47 normalized)) (\<lambda>source.
      bindR (lstat_if_exists d (split_on 47 normalized)) (\<lambda>target.
      Inr (normalized, source, target))))))"
  show thesis
  proof (cases ?stage)
    case (Inl e)
    with assms show ?thesis by (simp add: apply_file_def)
  next
    case (Inr x)
    obtain n s t where x: "x = (n, s, t)" by (cases x)
    from Inr [unfolded x] have stage: "normalize_artifact_path path = Inr n" "lstat_if_exists proposed (split_on 47 n) = Inr s"
      "lstat_if_exists d (split_on 47 n) = Inr t" by (auto simp: bindR_eq_Inr thenR_eq_Inr)
    have n: "n = path" using normalize_same [OF stage(1)] by simp
    show ?thesis
    proof (rule that)
      show "walk proposed (split_on 47 path) = Inr s" "walk d (split_on 47 path) = Inr t"
        using lstat_walk [OF stage(2)] lstat_walk [OF stage(3)] by (simp_all add: n)
    qed (use assms Inr x n in \<open>auto simp: apply_file_def Let_def throw_def split: option.splits fnode.splits sum.splits\<close>)
  qed
qed

lemma apply_file_effect:
  assumes "apply_file proposed path d = (Inr u, d')" "plain_path path" "wf_tree d"
  shows "wf_tree d' \<and> (\<forall>ps. visible h d' ps = (if ps = split_on 47 path then visible h proposed ps else visible h d ps))"
  using assms(1)
proof (rule apply_file_Inr)
  fix s t
  let ?ps = "split_on 47 path"
  have names: "list_all file_name ?ps" "\<forall>p \<in> set ?ps. \<not> excluded p" "?ps \<noteq> []" using assms(2) by (simp_all add: plain_path_def)
  have last: "butlast ?ps @ [last ?ps] = ?ps" by simp
  have butlast: "list_all file_name (butlast ?ps)" "\<forall>p \<in> set (butlast ?ps). \<not> excluded p"
    using names by (auto simp: list_all_iff dest: in_set_butlastD)
  have d: "wf_node d" "\<exists>es. d = FDir es" using assms(3) by (auto simp: wf_tree_def)
  assume walks: "walk proposed ?ps = Inr s" "walk d ?ps = Inr t"
  have dir: "\<exists>es. put_node x ?ps n = FDir es" if "\<exists>es. x = FDir es" for x n using that names(3) by (cases ?ps; cases "tl ?ps") auto
  assume "(s = None \<and> t = None \<and> d' = d)
     \<or> (\<exists>mode bytes. s = None \<and> t = Some (FFile mode bytes) \<and> d' = remove_node d ?ps)
     \<or> (\<exists>mode bytes mode' bytes'. s = Some (FFile mode bytes) \<and> t = Some (FFile mode' bytes') \<and> d' = put_node d ?ps (FFile (mode AND 0x1FF) bytes))
     \<or> (\<exists>mode bytes. s = Some (FFile mode bytes) \<and> t = None \<and> d' = put_node (make_directories d (butlast ?ps)) ?ps (FFile (mode AND 0x1FF) bytes))"
  then consider "s = None" "t = None" "d' = d"
    | mode bytes where "s = None" "t = Some (FFile mode bytes)" "d' = remove_node d ?ps"
    | mode bytes mode' bytes' where "s = Some (FFile mode bytes)" "t = Some (FFile mode' bytes')" "d' = put_node d ?ps (FFile (mode AND 0x1FF) bytes)"
    | mode bytes where "s = Some (FFile mode bytes)" "t = None" "d' = put_node (make_directories d (butlast ?ps)) ?ps (FFile (mode AND 0x1FF) bytes)"
    by blast
  then show ?thesis
  proof cases
    case 1
    then show ?thesis using assms(3) walk_visible [OF walks(1) names(2), of h] walk_visible [OF walks(2) names(2), of h] by auto
  next
    case (2 mode bytes)
    have "\<exists>es. remove_node d ?ps = FDir es" using d(2) names(3) by (cases ?ps; cases "tl ?ps") (auto split: option.split)
    then show ?thesis
      using 2 d wf_remove [OF d(1) names(1)] visible_remove [OF walks(2) [unfolded 2(2)] names(3) d(2) names(2) d(1), of h]
        walk_visible [OF walks(1) names(2), of h] by (simp add: wf_tree_def)
  next
    case (3 mode bytes mode' bytes')
    then show ?thesis
      using dir [OF d(2)] wf_put [OF d(1) names(1), of "FFile (mode AND 0x1FF) bytes"] walk_visible [OF walks(1) names(2), of h]
        visible_put [OF walks(2) _ names(3) d(2) names(2), of h "mode AND 0x1FF" bytes]
      by (simp add: wf_tree_def replaceable_def mode_kept)
  next
    case (4 mode bytes)
    have walk: "walk d (butlast ?ps @ [last ?ps]) = Inr None" using walks(2) 4(2) last by simp
    note made = visible_make [OF walk butlast(2), of h]
    have free: "walk (make_directories d (butlast ?ps)) ?ps = Inr None" using made last by simp
    show ?thesis
      using 4 dir [OF make_directory [OF d(2)]] wf_put [OF wf_make [OF d(1) butlast(1)] names(1), of "FFile (mode AND 0x1FF) bytes"]
        walk_visible [OF walks(1) names(2), of h] made
        visible_put [OF free _ names(3) make_directory [OF d(2)] names(2), of h "mode AND 0x1FF" bytes]
      by (simp add: wf_tree_def replaceable_def mode_kept)
  qed
qed

lemma split_inject: "split_on 47 a = split_on 47 b \<longleftrightarrow> a = b"
  using split_on_join by metis

lemma apply_files_effect:
  assumes "apply_files proposed paths d = (Inr u, d')" "\<forall>path \<in> set paths. plain_path path" "wf_tree d"
  shows "wf_tree d' \<and> (\<forall>path. visible h d' (split_on 47 path)
    = (if path \<in> set paths then visible h proposed (split_on 47 path) else visible h d (split_on 47 path)))"
  using assms
proof (induction paths arbitrary: d)
  case (Cons path paths)
  from Cons.prems(1) obtain v d1 where first: "apply_file proposed path d = (Inr v, d1)" "apply_files proposed paths d1 = (Inr u, d')"
    by (auto split: prod.splits sum.splits)
  from apply_file_effect [OF first(1) _ Cons.prems(3), of h] Cons.prems(2)
  have d1: "wf_tree d1" "\<forall>ps. visible h d1 ps = (if ps = split_on 47 path then visible h proposed ps else visible h d ps)" by simp_all
  from Cons.IH [OF first(2) _ d1(1)] Cons.prems(2) d1(2) show ?case by (auto simp: split_inject)
qed simp

section \<open>Inspection\<close>

lemma mapR_each: "mapR f xs = Inr ys \<Longrightarrow> x \<in> set xs \<Longrightarrow> \<exists>y. f x = Inr y"
  by (induction xs arbitrary: ys) (auto simp: bindR_eq_Inr)

lemma split_join_nul: "xs \<noteq> [] \<Longrightarrow> \<forall>x \<in> set xs. 0 \<notin> set x \<Longrightarrow> split_on 0 (join [0] xs) = xs"
proof (induction "[0] :: jsstr" xs rule: join.induct)
  case (3 x y xs)
  then show ?case by (simp add: split_on_append)
qed (auto simp: split_on_absent)

lemma join_nul_empty: "join [0] xs = [] \<Longrightarrow> [] \<notin> set xs \<Longrightarrow> xs = []"
proof (cases xs)
  case (Cons x ys)
  assume "join [0] xs = []" "[] \<notin> set xs"
  with Cons show ?thesis by (cases ys) auto
qed simp

lemma join_nul_inject:
  assumes eq: "join [0] xs = join [0] ys" and names: "\<forall>x \<in> set xs \<union> set ys. 0 \<notin> set x \<and> x \<noteq> []"
  shows "xs = ys"
proof -
  have no: "[] \<notin> set xs" "[] \<notin> set ys" using names by blast+
  consider "xs = []" | "ys = []" | "xs \<noteq> []" "ys \<noteq> []" by blast
  then show ?thesis
  proof cases
    case 1
    with eq have "join [0] ys = []" by simp
    with join_nul_empty no(2) 1 show ?thesis by blast
  next
    case 2
    with eq have "join [0] xs = []" by simp
    with join_nul_empty no(1) 2 show ?thesis by blast
  next
    case 3
    have "split_on 0 (join [0] xs) = xs" by (rule split_join_nul [OF 3(1)]) (use names in blast)
    moreover have "split_on 0 (join [0] ys) = ys" by (rule split_join_nul [OF 3(2)]) (use names in blast)
    ultimately show ?thesis using eq by metis
  qed
qed

lemma changed_plain:
  assumes "wf_tree a" "wf_tree b" "path \<in> set (changed_paths h a b)"
  shows "plain_path path" "0 \<notin> set path" "path \<noteq> []"
proof -
  from assms have "visible h a (split_on 47 path) \<noteq> visible h b (split_on 47 path)" by (simp add: changed_paths_set collect_tree_eq)
  then obtain e where "visible h a (split_on 47 path) = Some e \<or> visible h b (split_on 47 path) = Some e" by (metis not_Some_eq)
  then show plain: "plain_path path"
    using visible_names visible_not_excluded assms(1,2) unfolding plain_path_def wf_tree_def by metis
  then have "0 \<notin> set p" if "p \<in> set (split_on 47 path)" for p using that by (auto simp: plain_path_def list_all_iff file_name_def)
  then have "0 \<notin> set (join [47] (split_on 47 path))" using set_join [of "[47]" "split_on 47 path"] by auto
  then show "0 \<notin> set path" by (simp add: split_on_join)
  show "path \<noteq> []" using plain by (auto simp: plain_path_def file_name_def)
qed

lemma no_symlink_nul: "assert_no_symlink_components root path = Inr u \<Longrightarrow> 0 \<notin> set path"
proof -
  assume "assert_no_symlink_components root path = Inr u"
  then obtain us where "mapR (\<lambda>k. bindR (lstat_if_exists root (take k (split_on 47 path))) (\<lambda>stat.
      case stat of Some (FLink t) \<Rightarrow> throw ''Artifact path traverses a symlink'' | _ \<Rightarrow> Inr ())) [1..<Suc (length (split_on 47 path))] = Inr us"
    unfolding assert_no_symlink_components_def Let_def bindR_eq_Inr by blast
  have "length (split_on 47 path) \<in> set [1..<Suc (length (split_on 47 path))]" by (simp add: Suc_leI)
  from mapR_each [OF \<open>mapR _ _ = Inr us\<close> this] obtain r where "lstat_if_exists root (split_on 47 path) = Inr r" by (auto simp: bindR_eq_Inr)
  with lstat_walk have "0 \<notin> set p" if "p \<in> set (split_on 47 path)" for p using that by blast
  then have "0 \<notin> set (join [47] (split_on 47 path))" using set_join [of "[47]" "split_on 47 path"] by auto
  then show ?thesis by (simp add: split_on_join)
qed

lemma inspect_Inr:
  assumes "wf_tree base" "wf_tree proposed" "inspect_verified_artifact h base proposed reported = Inr art"
  shows "va_files art = changed_paths h base proposed \<and> set reported = set (changed_paths h base proposed)
    \<and> va_digest art = sha256_hex h (artifact_bytes (collect_tree h base) (collect_tree h proposed) (va_files art))
    \<and> (\<forall>path \<in> set (va_files art). \<forall>e. collect_tree h base path = Some e \<or> collect_tree h proposed path = Some e \<longrightarrow> te_type e = FileEntry)"
proof -
  from assms(3) obtain normalized us where n: "mapR normalize_artifact_path reported = Inr normalized"
    "join [0] (changed_paths h base proposed) = join [0] (sort (remdups normalized))"
    "mapR (\<lambda>path. thenR (assert_regular_artifact_entry base path (collect_tree h base path) True)
       (assert_regular_artifact_entry proposed path (collect_tree h proposed path) True)) (sort (remdups normalized)) = Inr us"
    "art = \<lparr>va_files = sort (remdups normalized), va_digest = sha256_hex h (artifact_bytes (collect_tree h base) (collect_tree h proposed) (sort (remdups normalized)))\<rparr>"
    by (auto simp: inspect_verified_artifact_def Let_def bindR_eq_Inr throw_def split: if_splits)
  have same: "normalized = reported" using mapR_id [OF _ n(1), of "\<lambda>x. x"] normalize_same by auto
  have checked: "thenR (assert_regular_artifact_entry base path (collect_tree h base path) True)
      (assert_regular_artifact_entry proposed path (collect_tree h proposed path) True) = Inr ()" if "path \<in> set reported" for path
  proof -
    have "path \<in> set (sort (remdups normalized))" using that same by simp
    from mapR_each [OF n(3) this] show ?thesis by auto
  qed
  have "0 \<notin> set path \<and> path \<noteq> []" if "path \<in> set reported" for path
  proof
    show "0 \<notin> set path" using checked [OF that] by (auto simp: thenR_eq_Inr assert_regular_artifact_entry_def dest: no_symlink_nul)
    show "path \<noteq> []" using mapR_each [OF n(1) that] normalize_same by blast
  qed
  then have files: "sort (remdups reported) = changed_paths h base proposed"
    using changed_plain(2,3) [OF assms(1,2), of _ h] by (intro join_nul_inject [OF n(2) [unfolded same], symmetric]) auto
  have "te_type e = FileEntry" if "path \<in> set reported" "collect_tree h base path = Some e \<or> collect_tree h proposed path = Some e" for path e
    using checked [OF that(1)] that(2) by (auto simp: thenR_eq_Inr assert_regular_artifact_entry_def throw_if_eq_Inr)
  moreover have "set reported = set (changed_paths h base proposed)" using files by (metis set_remdups set_sort)
  ultimately show ?thesis using n(4) files same by simp
qed

section \<open>A sample migration\<close>

text \<open>One file is changed, one is created in a new directory, one is removed.\<close>

definition sample_base :: fnode where
  "sample_base = FDir [(js ''src'', FDir [(js ''a.ts'', FFile 0x1A4 [1]), (js ''old.ts'', FFile 0x1A4 [2])]), (js ''link'', FLink (js ''src''))]"

definition sample_proposed :: fnode where
  "sample_proposed = FDir [(js ''src'', FDir [(js ''a.ts'', FFile 0x1A4 [1, 1])]), (js ''link'', FLink (js ''src'')),
     (js ''lib'', FDir [(js ''b.ts'', FFile 0x1ED [3])])]"

definition sample_report :: "jsstr list" where
  "sample_report = [js ''src/a.ts'', js ''lib/b.ts'', js ''src/old.ts'']"

definition verified_sample :: verified_artifact where
  "verified_sample = \<lparr>va_files = [js ''lib/b.ts'', js ''src/a.ts'', js ''src/old.ts''],
     va_digest = sha256_hex sample_hash (artifact_bytes (collect_tree sample_hash sample_base) (collect_tree sample_hash sample_proposed)
       [js ''lib/b.ts'', js ''src/a.ts'', js ''src/old.ts''])\<rparr>"

definition sample_result :: fnode where
  "sample_result = FDir [(js ''src'', FDir [(js ''a.ts'', FFile 0x1A4 [1, 1])]), (js ''link'', FLink (js ''src'')),
     (js ''lib'', FDir [(js ''b.ts'', FFile 0x1ED [3])])]"

lemma sample_names: "list_all file_name [js ''src'', js ''a.ts'', js ''old.ts'', js ''link'', js ''lib'', js ''b.ts'']"
  by (simp add: file_name_def) code_simp

lemma sample_trees: "wf_tree sample_base" "wf_tree sample_proposed"
  using sample_names by (auto simp: wf_tree_def sample_base_def sample_proposed_def js_def js_char_def)

lemma inspect_accepts:
  assumes "mapR normalize_artifact_path reported = Inr normalized" "sort (remdups normalized) = changed_paths h base proposed"
    and "\<forall>path \<in> set (changed_paths h base proposed). assert_regular_artifact_entry base path (collect_tree h base path) True = Inr ()
      \<and> assert_regular_artifact_entry proposed path (collect_tree h proposed path) True = Inr ()"
  shows "inspect_verified_artifact h base proposed reported = Inr \<lparr>va_files = changed_paths h base proposed,
    va_digest = sha256_hex h (artifact_bytes (collect_tree h base) (collect_tree h proposed) (changed_paths h base proposed))\<rparr>"
proof -
  have "mapR (\<lambda>path. thenR (assert_regular_artifact_entry base path (collect_tree h base path) True)
      (assert_regular_artifact_entry proposed path (collect_tree h proposed path) True)) (changed_paths h base proposed)
      = Inr (map (\<lambda>_. ()) (changed_paths h base proposed))"
    using assms(3) by (intro mapR_Inr_map) simp
  then show ?thesis using assms(1,2) by (simp add: inspect_verified_artifact_def Let_def)
qed

lemma sample_changed: "changed_paths sample_hash sample_base sample_proposed = [js ''lib/b.ts'', js ''src/a.ts'', js ''src/old.ts'']"
  by code_simp

lemma sample_normalized: "mapR normalize_artifact_path sample_report = Inr sample_report"
  by code_simp

lemma sample_regular:
  "\<forall>path \<in> set [js ''lib/b.ts'', js ''src/a.ts'', js ''src/old.ts''].
     assert_regular_artifact_entry sample_base path (collect_tree sample_hash sample_base path) True = Inr ()
     \<and> assert_regular_artifact_entry sample_proposed path (collect_tree sample_hash sample_proposed path) True = Inr ()"
  by code_simp

lemma sample_sorted: "sort (remdups sample_report) = [js ''lib/b.ts'', js ''src/a.ts'', js ''src/old.ts'']"
  by code_simp

lemma sample_inspected: "inspect_verified_artifact sample_hash sample_base sample_proposed sample_report = Inr verified_sample"
  using inspect_accepts [OF sample_normalized, of sample_hash sample_base sample_proposed] sample_regular
  unfolding sample_changed sample_sorted verified_sample_def by simp

lemma sample_applied: "apply_verified_artifact sample_base sample_proposed verified_sample = (Inr (), sample_result)"
proof -
  have "apply_files sample_proposed [js ''lib/b.ts'', js ''src/a.ts'', js ''src/old.ts''] sample_base = (Inr (), sample_result)" by code_simp
  then show ?thesis by (simp add: apply_verified_artifact_def verified_sample_def)
qed

section \<open>Properties\<close>

text \<open>C23: an accepted report names exactly the files in which the proposed tree differs from the base, the artifact lists them sorted and
  without repetition, and each of them is a regular file or missing on either side.\<close>

theorem artifact_is_difference:
  assumes "wf_tree base" "wf_tree proposed" "inspect_verified_artifact h base proposed reported = Inr art"
  shows "set reported = {path. collect_tree h base path \<noteq> collect_tree h proposed path} \<and> set (va_files art) = set reported
    \<and> sorted (va_files art) \<and> distinct (va_files art)
    \<and> (\<forall>path \<in> set (va_files art). \<forall>e. collect_tree h base path = Some e \<or> collect_tree h proposed path = Some e \<longrightarrow> te_type e = FileEntry)"
  using inspect_Inr [OF assms] changed_paths_order [of h base proposed] by (simp add: changed_paths_set)

lemma artifact_is_difference_witness:
  "set sample_report = {path. collect_tree sample_hash sample_base path \<noteq> collect_tree sample_hash sample_proposed path}
    \<and> sorted (va_files verified_sample)"
  using artifact_is_difference [OF sample_trees sample_inspected] by blast

text \<open>C24: applying an inspected artifact to a clone of the base makes the clone the proposed tree: when it succeeds, every file, link, mode
  and digest of the clone is the proposed one, at every path.\<close>

theorem applied_tree_exact:
  assumes "wf_tree base" "wf_tree proposed" "wf_tree clone" "inspect_verified_artifact h base proposed reported = Inr art"
    and "collect_tree h clone = collect_tree h base" "apply_verified_artifact clone proposed art = (Inr u, result)"
  shows "collect_tree h result = collect_tree h proposed"
proof
  fix path
  note art = inspect_Inr [OF assms(1,2,4)]
  have "\<forall>path \<in> set (va_files art). plain_path path" using art changed_plain(1) [OF assms(1,2)] by simp
  from apply_files_effect [OF assms(6) [unfolded apply_verified_artifact_def] this assms(3), of h]
  have result: "wf_tree result" "visible h result (split_on 47 path)
      = (if path \<in> set (va_files art) then visible h proposed (split_on 47 path) else visible h clone (split_on 47 path))" by blast+
  have unchanged: "collect_tree h base path = collect_tree h proposed path" if "path \<notin> set (va_files art)"
    using that art by (simp add: changed_paths_set)
  show "collect_tree h result path = collect_tree h proposed path"
  proof (cases "path \<in> set (va_files art)")
    case True
    then show ?thesis using result by (simp add: collect_tree_eq assms(2))
  next
    case False
    have "collect_tree h result path = collect_tree h clone path" using result False by (simp add: collect_tree_eq assms(3))
    with unchanged [OF False] assms(5) show ?thesis by simp
  qed
qed

lemma applied_tree_exact_witness:
  "apply_verified_artifact sample_base sample_proposed verified_sample = (Inr (), sample_result)
    \<and> collect_tree sample_hash sample_result = collect_tree sample_hash sample_proposed"
  using applied_tree_exact [OF sample_trees sample_trees(1) sample_inspected refl sample_applied] sample_applied by blast

section \<open>The digest\<close>

text \<open>A list of texts, each ended by a NUL, can be read back.\<close>

lemma ended_inject:
  "concat (map (\<lambda>x. x @ [0]) xs) = concat (map (\<lambda>x. x @ [0]) ys) \<Longrightarrow> \<forall>x \<in> set xs \<union> set ys. (0::byte) \<notin> set x \<Longrightarrow> xs = ys"
proof (induction xs arbitrary: ys)
  case Nil
  then show ?case by (cases ys) auto
next
  case (Cons x xs)
  then obtain y zs where ys: "ys = y # zs" by (cases ys) auto
  have "x @ 0 # concat (map (\<lambda>x. x @ [0]) xs) = y @ 0 # concat (map (\<lambda>x. x @ [0]) zs)" using Cons.prems(1) ys by simp
  moreover have "0 \<notin> set x" "0 \<notin> set y" using Cons.prems(2) ys by auto
  ultimately have "x = y" "concat (map (\<lambda>x. x @ [0]) xs) = concat (map (\<lambda>x. x @ [0]) zs)"
    by (auto simp: append_eq_append_conv2 append_eq_Cons_conv Cons_eq_append_conv)
  with Cons ys show ?case by auto
qed

definition triple :: "(jsstr \<Rightarrow> tree_entry option) \<Rightarrow> (jsstr \<Rightarrow> tree_entry option) \<Rightarrow> jsstr \<Rightarrow> byte list list" where
  "triple base proposed path = [utf8 path, utf8 (entry_identity (base path)), utf8 (entry_identity (proposed path))]"

lemma artifact_bytes_triples:
  "artifact_bytes base proposed files = utf8 (js ''api-migrator-artifact-v1'') @ [0] @ concat (map (\<lambda>x. x @ [0]) (concat (map (triple base proposed) files)))"
proof -
  have "concat (map (\<lambda>path. utf8 path @ [0] @ utf8 (entry_identity (base path)) @ [0] @ utf8 (entry_identity (proposed path)) @ [0]) files)
      = concat (map (\<lambda>x. x @ [0]) (concat (map (triple base proposed) files)))"
    by (induction files) (simp_all add: triple_def)
  then show ?thesis by (simp add: artifact_bytes_def)
qed

lemma triples_inject: "concat (map (triple b p) xs) = concat (map (triple b' p') ys) \<Longrightarrow> map (triple b p) xs = map (triple b' p') ys"
proof (induction xs arbitrary: ys)
  case Nil
  then show ?case by (cases ys) (auto simp: triple_def)
next
  case (Cons x xs)
  then show ?case by (cases ys) (auto simp: triple_def)
qed

text \<open>The entries that trees have.\<close>

definition real_entry :: "tree_entry \<Rightarrow> bool" where
  "real_entry e \<longleftrightarrow> (te_type e = FileEntry \<and> te_mode e \<in> {33188, 33261} \<or> te_type e = SymlinkEntry \<and> te_mode e = 40960)
     \<and> list_all is_hex (te_digest e)"

lemma visible_real: "visible h n ps = Some e \<Longrightarrow> real_entry e"
  by (induction h n ps rule: visible.induct)
    (auto simp: real_entry_def file_entry_def link_entry_def canonical_git_file_mode_def sha256_hex_def list_all_iff hex_of_hex split: if_splits option.splits)

lemma collect_real: "wf_tree root \<Longrightarrow> collect_tree h root path = Some e \<Longrightarrow> real_entry e"
  using visible_real by (simp add: collect_tree_eq)

lemma identity_texts: "int_text 33188 = js ''33188''" "int_text 33261 = js ''33261''" "int_text 40960 = js ''40960''"
  by (simp_all add: int_text_def nat_text.simps digit_char_def js_def js_char_def)

lemma entry_identity_forms:
  assumes "real_entry e"
  shows "entry_identity (Some e) = js ''file:33188:'' @ te_digest e \<and> te_type e = FileEntry \<and> te_mode e = 33188
    \<or> entry_identity (Some e) = js ''file:33261:'' @ te_digest e \<and> te_type e = FileEntry \<and> te_mode e = 33261
    \<or> entry_identity (Some e) = js ''symlink:40960:'' @ te_digest e \<and> te_type e = SymlinkEntry \<and> te_mode e = 40960"
  using assms by (auto simp: real_entry_def entry_identity_def type_text_def identity_texts js_def js_char_def)

lemma missing_identity: "entry_identity None = js ''missing''"
  by (simp add: entry_identity_def)

lemma entry_identity_inject:
  assumes "\<And>e. a = Some e \<Longrightarrow> real_entry e" "\<And>e. b = Some e \<Longrightarrow> real_entry e" "entry_identity a = entry_identity b"
  shows "a = b"
proof (cases a; cases b)
  fix e f
  assume "a = Some e" "b = Some f"
  with assms entry_identity_forms [of e] entry_identity_forms [of f] show "a = b"
    by (auto simp: js_def js_char_def)
next
  fix e
  assume "a = Some e" "b = None"
  with assms entry_identity_forms [of e] show "a = b" by (auto simp: missing_identity js_def js_char_def)
next
  fix f
  assume "a = None" "b = Some f"
  with assms entry_identity_forms [of f] show "a = b" by (auto simp: missing_identity js_def js_char_def)
qed simp

lemma identity_plain:
  assumes "\<And>e. a = Some e \<Longrightarrow> real_entry e"
  shows "valid_unicode (entry_identity a)" "0 \<notin> set (entry_identity a)"
proof -
  have hex: "list_all is_basic t \<and> 0 \<notin> set t" if "list_all is_hex t" for t
    using that by (auto simp: list_all_iff is_hex_def is_digit_def is_basic_def is_high_def is_low_def word_le_nat_alt)
  have "list_all is_basic (entry_identity a) \<and> 0 \<notin> set (entry_identity a)"
  proof (cases a)
    case None
    then show ?thesis by (simp add: entry_identity_def js_def) (auto simp: js_char_def)
  next
    case (Some e)
    then have "list_all is_hex (te_digest e)" using assms by (simp add: real_entry_def)
    with hex entry_identity_forms [OF assms [OF Some]] Some show ?thesis
      by (auto simp: js_def js_char_def is_basic_def is_high_def is_low_def)
  qed
  then show "valid_unicode (entry_identity a)" "0 \<notin> set (entry_identity a)" using valid_unicode_basic by auto
qed

lemma triple_plain:
  assumes "wf_tree base" "wf_tree proposed" "plain_path path" "x \<in> set (triple (collect_tree h base) (collect_tree h proposed) path)"
  shows "0 \<notin> set x"
proof -
  have "0 \<notin> set p" if "p \<in> set (split_on 47 path)" for p using that assms(3) by (auto simp: plain_path_def list_all_iff file_name_def)
  then have "0 \<notin> set path" using set_join [of "[47]" "split_on 47 path"] by (auto simp: split_on_join)
  moreover have "0 \<notin> set (entry_identity (collect_tree h base path))" "0 \<notin> set (entry_identity (collect_tree h proposed path))"
    using identity_plain(2) collect_real assms(1,2) by metis+
  ultimately show ?thesis using assms(4) utf8_nul by (auto simp: triple_def)
qed

lemma plain_unicode: "plain_path path \<Longrightarrow> valid_unicode path"
proof -
  assume "plain_path path"
  then have names: "list_all file_name (split_on 47 path)" by (simp add: plain_path_def)
  have "valid_unicode (join [47] ps)" if "list_all file_name ps" for ps
    using that by (induction "[47] :: jsstr" ps rule: join.induct) (auto simp: file_name_def valid_unicode_append valid_unicode_Cons is_high_def is_low_def)
  from this [OF names] show ?thesis by (simp add: split_on_join)
qed

lemma triple_inject:
  assumes "wf_tree b" "wf_tree p" "wf_tree b'" "wf_tree p'" "plain_path x" "plain_path y"
    and "triple (collect_tree h b) (collect_tree h p) x = triple (collect_tree h b') (collect_tree h p') y"
  shows "x = y \<and> collect_tree h b x = collect_tree h b' y \<and> collect_tree h p x = collect_tree h p' y"
proof -
  have unicode: "valid_unicode (entry_identity (collect_tree h t z))" if "wf_tree t" for t z
    using identity_plain(1) collect_real [OF that] by blast
  from assms(7) have texts: "x = y" "entry_identity (collect_tree h b x) = entry_identity (collect_tree h b' y)"
    "entry_identity (collect_tree h p x) = entry_identity (collect_tree h p' y)"
    using utf8_inject plain_unicode [OF assms(5)] plain_unicode [OF assms(6)] unicode [OF assms(1)] unicode [OF assms(2)] unicode [OF assms(3)]
      unicode [OF assms(4)] unfolding triple_def list.inject by metis+
  have "collect_tree h b x = collect_tree h b' y"
    by (rule entry_identity_inject [OF _ _ texts(2)]) (use collect_real assms(1,3) in blast)+
  moreover have "collect_tree h p x = collect_tree h p' y"
    by (rule entry_identity_inject [OF _ _ texts(3)]) (use collect_real assms(2,4) in blast)+
  ultimately show ?thesis using texts(1) by blast
qed

text \<open>C25: the digest of an artifact identifies the change: when the digests of two inspected artifacts are equal, their hashed bytes collide or
  both change the same files, from the same base entries into the same proposed ones.\<close>

theorem artifact_digest_identifies:
  assumes "wf_tree b" "wf_tree p" "wf_tree b'" "wf_tree p'"
    and "inspect_verified_artifact h b p reported = Inr art" "inspect_verified_artifact h b' p' reported' = Inr art'" "va_digest art = va_digest art'"
  shows "(artifact_bytes (collect_tree h b) (collect_tree h p) (va_files art) \<noteq> artifact_bytes (collect_tree h b') (collect_tree h p') (va_files art')
      \<and> h (artifact_bytes (collect_tree h b) (collect_tree h p) (va_files art)) = h (artifact_bytes (collect_tree h b') (collect_tree h p') (va_files art')))
    \<or> (va_files art = va_files art'
    \<and> (\<forall>path \<in> set (va_files art). collect_tree h b path = collect_tree h b' path \<and> collect_tree h p path = collect_tree h p' path))"
proof (cases "artifact_bytes (collect_tree h b) (collect_tree h p) (va_files art) = artifact_bytes (collect_tree h b') (collect_tree h p') (va_files art')")
  case False
  note digests = inspect_Inr [OF assms(1,2,5)] inspect_Inr [OF assms(3,4,6)]
  have "h (artifact_bytes (collect_tree h b) (collect_tree h p) (va_files art)) = h (artifact_bytes (collect_tree h b') (collect_tree h p') (va_files art'))"
    using digests assms(7) by (simp add: sha256_hex_def)
  with False show ?thesis by blast
next
  case True
  let ?t = "triple (collect_tree h b) (collect_tree h p)" and ?t' = "triple (collect_tree h b') (collect_tree h p')"
  have plain: "\<forall>path \<in> set (va_files art). plain_path path" "\<forall>path \<in> set (va_files art'). plain_path path"
    using inspect_Inr [OF assms(1,2,5)] inspect_Inr [OF assms(3,4,6)] changed_plain(1) [OF assms(1,2)] changed_plain(1) [OF assms(3,4)] by simp_all
  have "concat (map (\<lambda>x. x @ [0]) (concat (map ?t (va_files art)))) = concat (map (\<lambda>x. x @ [0]) (concat (map ?t' (va_files art'))))"
    using True unfolding artifact_bytes_triples by simp
  then have "concat (map ?t (va_files art)) = concat (map ?t' (va_files art'))"
    by (rule ended_inject) (use plain triple_plain [OF assms(1,2)] triple_plain [OF assms(3,4)] in auto)
  from triples_inject [OF this] have eq: "map ?t (va_files art) = map ?t' (va_files art')" .
  have same: "va_files art ! i = va_files art' ! i \<and> collect_tree h b (va_files art ! i) = collect_tree h b' (va_files art' ! i)
      \<and> collect_tree h p (va_files art ! i) = collect_tree h p' (va_files art' ! i)" if "i < length (va_files art)" for i
    using map_eq_nth [OF eq that] that plain map_eq_imp_length_eq [OF eq]
    by (intro triple_inject [OF assms(1-4)]) simp_all
  then have "va_files art = va_files art'" using map_eq_imp_length_eq [OF eq] by (simp add: list_eq_iff_nth_eq)
  moreover have "\<forall>path \<in> set (va_files art). collect_tree h b path = collect_tree h b' path \<and> collect_tree h p path = collect_tree h p' path"
    using same by (metis in_set_conv_nth)
  ultimately show ?thesis by blast
qed

text \<open>The same base, read in another order.\<close>

definition sample_shuffled :: fnode where
  "sample_shuffled = FDir [(js ''link'', FLink (js ''src'')), (js ''src'', FDir [(js ''old.ts'', FFile 0x1A4 [2]), (js ''a.ts'', FFile 0x1A4 [1])])]"

lemma shuffled_tree: "wf_tree sample_shuffled"
  using sample_names by (auto simp: wf_tree_def sample_shuffled_def js_def js_char_def)

lemma shuffled_inspected:
  obtains art where "inspect_verified_artifact sample_hash sample_shuffled sample_proposed sample_report = Inr art" "va_digest verified_sample = va_digest art"
    "va_files art = va_files verified_sample"
    "artifact_bytes (collect_tree sample_hash sample_shuffled) (collect_tree sample_hash sample_proposed) (va_files art)
      = artifact_bytes (collect_tree sample_hash sample_base) (collect_tree sample_hash sample_proposed) (va_files verified_sample)"
proof -
  have changed: "changed_paths sample_hash sample_shuffled sample_proposed = [js ''lib/b.ts'', js ''src/a.ts'', js ''src/old.ts'']" by code_simp
  have regular: "\<forall>path \<in> set [js ''lib/b.ts'', js ''src/a.ts'', js ''src/old.ts''].
     assert_regular_artifact_entry sample_shuffled path (collect_tree sample_hash sample_shuffled path) True = Inr ()
     \<and> assert_regular_artifact_entry sample_proposed path (collect_tree sample_hash sample_proposed path) True = Inr ()" by code_simp
  have same: "\<forall>path \<in> set [js ''lib/b.ts'', js ''src/a.ts'', js ''src/old.ts''].
     collect_tree sample_hash sample_shuffled path = collect_tree sample_hash sample_base path" by code_simp
  have "artifact_bytes (collect_tree sample_hash sample_shuffled) q [js ''lib/b.ts'', js ''src/a.ts'', js ''src/old.ts'']
      = artifact_bytes (collect_tree sample_hash sample_base) q [js ''lib/b.ts'', js ''src/a.ts'', js ''src/old.ts'']" for q
    using same by (simp add: artifact_bytes_def)
  note bytes = this [of "collect_tree sample_hash sample_proposed"]
  from this inspect_accepts [OF sample_normalized, of sample_hash sample_shuffled sample_proposed] regular
  have "inspect_verified_artifact sample_hash sample_shuffled sample_proposed sample_report = Inr verified_sample"
    unfolding changed sample_sorted verified_sample_def by simp
  moreover have "va_files verified_sample = [js ''lib/b.ts'', js ''src/a.ts'', js ''src/old.ts'']" by (simp add: verified_sample_def)
  ultimately show thesis using bytes that [of verified_sample] by simp
qed

lemma artifact_digest_identifies_witness:
  "collect_tree sample_hash sample_shuffled (js ''src/a.ts'') = collect_tree sample_hash sample_base (js ''src/a.ts'')"
proof -
  obtain art where art: "inspect_verified_artifact sample_hash sample_shuffled sample_proposed sample_report = Inr art" "va_digest verified_sample = va_digest art"
    "va_files art = va_files verified_sample"
    "artifact_bytes (collect_tree sample_hash sample_shuffled) (collect_tree sample_hash sample_proposed) (va_files art)
      = artifact_bytes (collect_tree sample_hash sample_base) (collect_tree sample_hash sample_proposed) (va_files verified_sample)" by (rule shuffled_inspected)
  have "js ''src/a.ts'' \<in> set (va_files art)" by (simp add: art(3) verified_sample_def)
  with artifact_digest_identifies [OF shuffled_tree sample_trees(2) sample_trees art(1) sample_inspected art(2) [symmetric]] art(4) show ?thesis by blast
qed

end
