(* ===== verification/JobStore.thy ===== *)
theory JobStore
  imports CanonicalJson
begin

text \<open>
  packages/db/src/runner-job-store-sqlite.ts: the durable store of runner jobs. Several processes share one
  SQLite file. A record is inserted once under its campaign and run and then only replaced by
  compare-and-swap with its next revision; a high-water mark keeps the observed clock from going back.
\<close>

section \<open>Failures\<close>

datatype store_failure = InputInvalid | JobConflict | ClockRollback | StoreUnsafe | StoreMismatch | StoreCorrupt | StoreFull | StoreUnavailable

type_synonym 'a store_result = "store_failure + 'a"

definition fail_if :: "bool \<Rightarrow> store_failure \<Rightarrow> unit store_result" where
  "fail_if bad code = (if bad then Inl code else Inr ())"

text \<open>\<open>guarded\<close>: what becomes of an error that is no \<open>JobStoreError\<close>, by its code.\<close>

definition guarded_code :: "jsstr option \<Rightarrow> store_failure" where
  "guarded_code code = (case code of
     None \<Rightarrow> StoreUnavailable
   | Some c \<Rightarrow> if c = js ''SQLITE_FULL'' \<or> c = js ''ENOSPC'' \<or> c = js ''EDQUOT'' then StoreFull
       else if starts_with (js ''SQLITE_CORRUPT'') c \<or> c = js ''SQLITE_NOTADB'' then StoreCorrupt
       else StoreUnavailable)"

section \<open>Rows\<close>

record stored_row =
  sr_campaign :: jsstr
  sr_run :: jsstr
  sr_job :: jsstr
  sr_revision :: int
  sr_intent :: jsstr
  sr_digest :: jsstr
  sr_bytes :: jsstr

text \<open>\<open>/^[A-Za-z0-9_-]{1,128}$/\<close>, \<open>/^previewjob_[a-f0-9]{64}$/\<close> and the pattern of the identifiers of stores.\<close>

definition is_store_key :: "jsstr \<Rightarrow> bool" where
  "is_store_key s \<longleftrightarrow> 1 \<le> length s \<and> length s \<le> 128 \<and> list_all (\<lambda>c. is_alnum c \<or> in_class ''_-'' c) s"

definition is_job_id :: "jsstr \<Rightarrow> bool" where
  "is_job_id s \<longleftrightarrow> starts_with (js ''previewjob_'') s \<and> hex_n 64 (drop 11 s)"

definition is_uuid :: "jsstr \<Rightarrow> bool" where
  "is_uuid s \<longleftrightarrow> (case split_on 45 s of
     [a, b, c, d, e] \<Rightarrow> hex_n 8 a \<and> hex_n 4 b \<and> hex_n 4 c \<and> in_class ''12345678'' (hd c) \<and> hex_n 4 d \<and> in_class ''89ab'' (hd d) \<and> hex_n 12 e
   | _ \<Rightarrow> False)"

definition max_record_bytes :: nat where
  "max_record_bytes = 262144"

text \<open>
  \<open>validateRow\<close> of any value: a plain object whose own properties are enumerable data, named exactly as the
  columns. The bytes of the record must survive the conversion to UTF-8 and back.
\<close>

definition well_typed :: "stored_row \<Rightarrow> bool" where
  "well_typed r \<longleftrightarrow> is_store_key (sr_campaign r) \<and> is_store_key (sr_run r) \<and> is_job_id (sr_job r) \<and> sr_revision r \<in> {1, 2, 3}
     \<and> is_digest (sr_intent r) \<and> is_digest (sr_digest r)
     \<and> \<not> byte_length (sr_bytes r) < 1 \<and> \<not> max_record_bytes < byte_length (sr_bytes r) \<and> utf8_decode (utf8 (sr_bytes r)) = sr_bytes r"

definition row_columns :: jsstr where
  "row_columns = js ''campaignId,canonicalRecord,intentDigest,jobId,recordDigest,revision,runId''"

definition plain_data :: "propkey \<times> jsval desc \<Rightarrow> bool" where
  "plain_data p \<longleftrightarrow> (case p of (PStr k, DData v True) \<Rightarrow> True | _ \<Rightarrow> False)"

definition row_of :: "(jsstr \<Rightarrow> jsval) \<Rightarrow> stored_row option" where
  "row_of field = (case (field (js ''campaignId''), field (js ''runId''), field (js ''jobId''), field (js ''revision''),
       field (js ''intentDigest''), field (js ''recordDigest''), field (js ''canonicalRecord'')) of
     (JStr campaign, JStr run, JStr job, JNum (JInt revision), JStr intent, JStr digest, JStr bytes) \<Rightarrow>
       Some \<lparr>sr_campaign = campaign, sr_run = run, sr_job = job, sr_revision = revision, sr_intent = intent, sr_digest = digest, sr_bytes = bytes\<rparr>
   | _ \<Rightarrow> None)"

definition validate_row :: "jsval \<Rightarrow> store_failure \<Rightarrow> stored_row store_result" where
  "validate_row v code = (case v of
     JObj p ps \<Rightarrow>
       (if p = OtherProto \<or> \<not> list_all plain_data ps \<or> join [44] (sort (object_keys ps)) \<noteq> row_columns then Inl code
        else case row_of (get_own ps) of
          None \<Rightarrow> Inl code
        | Some row \<Rightarrow> if well_typed row then Inr row else Inl code)
   | _ \<Rightarrow> Inl code)"

section \<open>The database\<close>

text \<open>SQLite stores any type in a column. A real carries the bytes of its text.\<close>

datatype cell = CInt int | CReal "byte list" | CText "byte list" | CBlob "byte list" | CNull

record raw_row =
  rr_campaign :: cell
  rr_run :: cell
  rr_job :: cell
  rr_revision :: cell
  rr_intent :: cell
  rr_digest :: cell
  rr_bytes :: cell

record meta_row =
  mt_singleton :: cell
  mt_schema_version :: cell
  mt_store_id :: cell
  mt_high_water :: cell

record job_db =
  jd_meta :: "meta_row list"
  jd_rows :: "raw_row list"

text \<open>\<open>CAST(c AS BLOB)\<close>; a null stays null.\<close>

fun cast_blob :: "cell \<Rightarrow> byte list option" where
  "cast_blob (CInt i) = Some (utf8 (int_text i))"
| "cast_blob (CReal bs) = Some bs"
| "cast_blob (CText bs) = Some bs"
| "cast_blob (CBlob bs) = Some bs"
| "cast_blob CNull = None"

fun is_text_cell :: "cell \<Rightarrow> bool" where
  "is_text_cell (CText bs) \<longleftrightarrow> True"
| "is_text_cell _ \<longleftrightarrow> False"

text \<open>A string as it is bound to a statement.\<close>

definition text_cell :: "jsstr \<Rightarrow> cell" where
  "text_cell s = CText (utf8 s)"

definition raw_of :: "stored_row \<Rightarrow> raw_row" where
  "raw_of r = \<lparr>rr_campaign = text_cell (sr_campaign r), rr_run = text_cell (sr_run r), rr_job = text_cell (sr_job r),
     rr_revision = CInt (sr_revision r), rr_intent = text_cell (sr_intent r), rr_digest = text_cell (sr_digest r), rr_bytes = text_cell (sr_bytes r)\<rparr>"

text \<open>\<open>decode\<close> of one row; the decoder is fatal, so text that is not UTF-8 is an error.\<close>

definition decode_cell :: "cell \<Rightarrow> nat \<Rightarrow> jsstr store_result" where
  "decode_cell c limit = (case cast_blob c of
     None \<Rightarrow> Inl StoreCorrupt
   | Some bs \<Rightarrow> if limit < length bs \<or> utf8 (utf8_decode bs) \<noteq> bs then Inl StoreCorrupt else Inr (utf8_decode bs))"

definition decode_revision :: "cell \<Rightarrow> int store_result" where
  "decode_revision c = (case c of CInt i \<Rightarrow> Inr i | _ \<Rightarrow> Inl StoreCorrupt)"

definition decode :: "raw_row \<Rightarrow> stored_row store_result" where
  "decode r =
     bindR (decode_cell (rr_campaign r) 128) (\<lambda>campaign. bindR (decode_cell (rr_run r) 128) (\<lambda>run.
     bindR (decode_cell (rr_job r) 128) (\<lambda>job. bindR (decode_cell (rr_intent r) 128) (\<lambda>intent.
     bindR (decode_cell (rr_digest r) 128) (\<lambda>digest. bindR (decode_cell (rr_bytes r) max_record_bytes) (\<lambda>bytes.
     bindR (decode_revision (rr_revision r)) (\<lambda>revision.
     let row = \<lparr>sr_campaign = campaign, sr_run = run, sr_job = job, sr_revision = revision, sr_intent = intent, sr_digest = digest, sr_bytes = bytes\<rparr>
     in if well_typed row then Inr row else Inl StoreCorrupt)))))))"

text \<open>\<open>count\<close>: at most 100 rows, all of them text of bounded length with an integer revision.\<close>

definition bounded_text :: "cell \<Rightarrow> nat \<Rightarrow> nat \<Rightarrow> bool" where
  "bounded_text c low high \<longleftrightarrow> (case c of CText bs \<Rightarrow> low \<le> length bs \<and> length bs \<le> high | _ \<Rightarrow> False)"

definition raw_row_ok :: "raw_row \<Rightarrow> bool" where
  "raw_row_ok r \<longleftrightarrow> (case rr_revision r of CInt i \<Rightarrow> True | _ \<Rightarrow> False)
     \<and> bounded_text (rr_campaign r) 1 128 \<and> bounded_text (rr_run r) 1 128 \<and> bounded_text (rr_job r) 75 75
     \<and> bounded_text (rr_intent r) 71 71 \<and> bounded_text (rr_digest r) 71 71 \<and> bounded_text (rr_bytes r) 1 max_record_bytes"

definition count_rows :: "job_db \<Rightarrow> nat store_result" where
  "count_rows db =
     thenR (fail_if (100 < length (jd_rows db)) StoreCorrupt)
    (thenR (fail_if (\<not> list_all raw_row_ok (jd_rows db)) StoreCorrupt)
    (Inr (length (jd_rows db))))"

text \<open>\<open>read\<close>: the key is compared as text, so a cell of another type never matches.\<close>

definition at_key :: "jsstr \<Rightarrow> jsstr \<Rightarrow> raw_row \<Rightarrow> bool" where
  "at_key campaign run r \<longleftrightarrow> rr_campaign r = text_cell campaign \<and> rr_run r = text_cell run"

definition read_row :: "job_db \<Rightarrow> jsstr \<Rightarrow> jsstr \<Rightarrow> stored_row option store_result" where
  "read_row db campaign run = (case find (at_key campaign run) (jd_rows db) of
     None \<Rightarrow> Inr None | Some raw \<Rightarrow> bindR (decode raw) (\<lambda>row. Inr (Some row)))"

text \<open>\<open>rows\<close>: ordered by the bytes of campaign and run.\<close>

definition row_key :: "raw_row \<Rightarrow> byte list list" where
  "row_key r = [the (cast_blob (rr_campaign r)), the (cast_blob (rr_run r))]"

definition all_rows :: "job_db \<Rightarrow> stored_row list store_result" where
  "all_rows db = bindR (count_rows db) (\<lambda>_. mapR decode (sort_key row_key (jd_rows db)))"

definition metadata :: "job_db \<Rightarrow> jsstr \<Rightarrow> int store_result" where
  "metadata db expected_store_id = (case jd_meta db of
     [m] \<Rightarrow> (case (mt_store_id m, mt_high_water m) of
         (CText sid, CInt w) \<Rightarrow>
           (if mt_singleton m \<noteq> CInt 1 \<or> mt_schema_version m \<noteq> CInt 1 \<or> \<not> is_uuid (utf8_decode sid) \<or> \<not> is_safe_integer (JInt w) \<or> w < 0
            then Inl StoreCorrupt
            else if utf8_decode sid \<noteq> expected_store_id then Inl StoreMismatch else Inr w)
       | _ \<Rightarrow> Inl StoreCorrupt)
   | _ \<Rightarrow> Inl StoreCorrupt)"

section \<open>Operations\<close>

text \<open>
  What an operation meets at one moment: the outcome of the custody check of the files and of the checks of
  SQLite's settings and schema (these belong to the file system and to SQLite), and the database as it is then.
  Between two moments other processes may have changed it.
\<close>

record store_moment =
  mo_custody :: "unit store_result"
  mo_settings :: "unit store_result"
  mo_schema :: "unit store_result"
  mo_db :: job_db

record connection =
  jc_store_id :: jsstr
  jc_closed :: bool

definition check :: "connection \<Rightarrow> store_moment \<Rightarrow> unit store_result" where
  "check c m =
     thenR (fail_if (jc_closed c) StoreUnavailable)
    (thenR (mo_custody m) (thenR (mo_settings m) (thenR (mo_schema m)
    (bindR (metadata (mo_db m) (jc_store_id c)) (\<lambda>_. bindR (count_rows (mo_db m)) (\<lambda>_. Inr ()))))))"

text \<open>
  \<open>transaction\<close>: SQLite may fail before the commit, which is then rolled back, or report a failure
  although the commit has become durable.
\<close>

datatype fault = NoFault | RolledBack store_failure | UncertainCommit store_failure

definition transaction :: "fault \<Rightarrow> (job_db \<Rightarrow> ('a \<times> job_db) store_result) \<Rightarrow> job_db \<Rightarrow> 'a store_result \<times> job_db" where
  "transaction fault action db = (case fault of
     RolledBack f \<Rightarrow> (Inl f, db)
   | _ \<Rightarrow> (case action db of
       Inl f \<Rightarrow> (Inl f, db)
     | Inr (x, db') \<Rightarrow> ((case fault of UncertainCommit f \<Rightarrow> Inl f | _ \<Rightarrow> Inr x), db')))"

text \<open>The world of one writing operation: the check before it, the transaction's fate, the synchronization and the last read.\<close>

record job_world =
  jw_before :: store_moment
  jw_fault :: fault
  jw_after :: store_moment
  jw_last :: job_db

definition insert_action :: "stored_row \<Rightarrow> job_db \<Rightarrow> (bool \<times> job_db) store_result" where
  "insert_action row db = bindR (read_row db (sr_campaign row) (sr_run row)) (\<lambda>found.
     if found \<noteq> None then Inr (False, db)
     else if list_ex (\<lambda>r. rr_job r = text_cell (sr_job row)) (jd_rows db) then Inl JobConflict
     else bindR (count_rows db) (\<lambda>n. if 100 \<le> n then Inl StoreFull else Inr (True, db\<lparr>jd_rows := jd_rows db @ [raw_of row]\<rparr>)))"

definition read_back :: "connection \<Rightarrow> job_world \<Rightarrow> stored_row \<Rightarrow> stored_row store_result" where
  "read_back c w row =
     thenR (check c (jw_after w)) (bindR (read_row (jw_last w) (sr_campaign row) (sr_run row)) (\<lambda>actual.
     case actual of None \<Rightarrow> Inl StoreCorrupt | Some r \<Rightarrow> Inr r))"

definition insert_job :: "connection \<Rightarrow> job_world \<Rightarrow> jsval \<Rightarrow> job_db \<Rightarrow> (bool \<times> stored_row) store_result \<times> job_db" where
  "insert_job c w input db =
     (case bindR (validate_row input InputInvalid) (\<lambda>row. thenR (check c (jw_before w)) (Inr row)) of
        Inl f \<Rightarrow> (Inl f, db)
      | Inr row \<Rightarrow> (case transaction (jw_fault w) (insert_action row) db of
          (Inl f, db') \<Rightarrow> (Inl f, db')
        | (Inr inserted, db') \<Rightarrow> (bindR (read_back c w row) (\<lambda>actual. Inr (inserted, actual)), db')))"

text \<open>The row that the \<open>UPDATE\<close> selects: every column equals the previous one.\<close>

definition successor :: "stored_row \<Rightarrow> stored_row \<Rightarrow> bool" where
  "successor previous next \<longleftrightarrow> sr_revision next = sr_revision previous + 1 \<and> sr_campaign next = sr_campaign previous
     \<and> sr_run next = sr_run previous \<and> sr_job next = sr_job previous \<and> sr_intent next = sr_intent previous"

definition swap_row :: "stored_row \<Rightarrow> stored_row \<Rightarrow> raw_row \<Rightarrow> raw_row" where
  "swap_row previous next r = (if r = raw_of previous
     then r\<lparr>rr_revision := CInt (sr_revision next), rr_digest := text_cell (sr_digest next), rr_bytes := text_cell (sr_bytes next)\<rparr> else r)"

definition swap_action :: "stored_row \<Rightarrow> stored_row \<Rightarrow> job_db \<Rightarrow> (bool \<times> job_db) store_result" where
  "swap_action previous next db = bindR (read_row db (sr_campaign previous) (sr_run previous)) (\<lambda>found.
     if found = None then Inl JobConflict
     else Inr (length (filter (\<lambda>r. r = raw_of previous) (jd_rows db)) = 1, db\<lparr>jd_rows := map (swap_row previous next) (jd_rows db)\<rparr>))"

definition compare_and_swap :: "connection \<Rightarrow> job_world \<Rightarrow> jsval \<Rightarrow> jsval \<Rightarrow> job_db \<Rightarrow> (bool \<times> stored_row) store_result \<times> job_db" where
  "compare_and_swap c w previous_input next_input db =
     (case bindR (validate_row previous_input InputInvalid) (\<lambda>previous. bindR (validate_row next_input InputInvalid) (\<lambda>next.
           thenR (fail_if (\<not> successor previous next) InputInvalid) (thenR (check c (jw_before w)) (Inr (previous, next))))) of
        Inl f \<Rightarrow> (Inl f, db)
      | Inr (previous, next) \<Rightarrow> (case transaction (jw_fault w) (swap_action previous next) db of
          (Inl f, db') \<Rightarrow> (Inl f, db')
        | (Inr committed, db') \<Rightarrow> (bindR (read_back c w previous) (\<lambda>actual. Inr (committed, actual)), db')))"

text \<open>\<open>observeTime\<close>: the high-water mark only rises.\<close>

definition set_high_water :: "int \<Rightarrow> meta_row \<Rightarrow> meta_row" where
  "set_high_water now m = (if mt_singleton m = CInt 1 then m\<lparr>mt_high_water := CInt now\<rparr> else m)"

definition observe_action :: "connection \<Rightarrow> int \<Rightarrow> job_db \<Rightarrow> (unit \<times> job_db) store_result" where
  "observe_action c now db = bindR (metadata db (jc_store_id c)) (\<lambda>w.
     if now < w then Inl ClockRollback else Inr ((), db\<lparr>jd_meta := map (set_high_water now) (jd_meta db)\<rparr>))"

definition observe_time :: "connection \<Rightarrow> job_world \<Rightarrow> jsnum \<Rightarrow> job_db \<Rightarrow> unit store_result \<times> job_db" where
  "observe_time c w now db =
     (let n = (case now of JInt n \<Rightarrow> n | _ \<Rightarrow> 0) in
      case thenR (fail_if (\<not> is_safe_integer now \<or> n < 0) InputInvalid) (check c (jw_before w)) of
        Inl f \<Rightarrow> (Inl f, db)
      | Inr _ \<Rightarrow> (case transaction (jw_fault w) (observe_action c n) db of
          (Inl f, db') \<Rightarrow> (Inl f, db')
        | (Inr _, db') \<Rightarrow> (thenR (check c (jw_after w)) (bindR (metadata (jw_last w) (jc_store_id c)) (\<lambda>high. fail_if (high < n) StoreCorrupt)), db')))"

definition list_jobs :: "connection \<Rightarrow> store_moment \<Rightarrow> job_db \<Rightarrow> stored_row list store_result" where
  "list_jobs c m db = thenR (check c m) (all_rows db)"

definition read_job :: "connection \<Rightarrow> store_moment \<Rightarrow> jsval \<Rightarrow> jsval \<Rightarrow> job_db \<Rightarrow> stored_row option store_result" where
  "read_job c m campaign run db = (case (campaign, run) of
     (JStr campaign, JStr run) \<Rightarrow>
       thenR (fail_if (\<not> is_store_key campaign \<or> \<not> is_store_key run) InputInvalid) (thenR (check c m) (read_row db campaign run))
   | _ \<Rightarrow> Inl InputInvalid)"

definition close_store :: "connection \<Rightarrow> connection" where
  "close_store c = c\<lparr>jc_closed := True\<rparr>"

text \<open>
  \<open>initialize\<close> creates the file in an empty directory, under custody, and writes the metadata; the identifier is
  drawn by \<open>randomUUID\<close>. \<open>open\<close> checks everything once before it hands out the connection.
\<close>

definition fresh_db :: "jsstr \<Rightarrow> job_db" where
  "fresh_db store_id = \<lparr>jd_meta = [\<lparr>mt_singleton = CInt 1, mt_schema_version = CInt 1, mt_store_id = text_cell store_id, mt_high_water = CInt 0\<rparr>], jd_rows = []\<rparr>"

definition initialize :: "unit store_result \<Rightarrow> jsstr list \<Rightarrow> unit store_result \<Rightarrow> jsstr \<Rightarrow> job_world \<Rightarrow> job_db option \<Rightarrow> jsstr store_result \<times> job_db option" where
  "initialize directory names creation store_id w db =
     (case thenR directory (thenR (fail_if (names \<noteq> []) StoreUnsafe) (thenR creation (thenR (mo_custody (jw_before w)) (mo_settings (jw_before w))))) of
        Inl f \<Rightarrow> (Inl f, db)
      | Inr _ \<Rightarrow> (case transaction (jw_fault w) (\<lambda>_. Inr ((), fresh_db store_id)) \<lparr>jd_meta = [], jd_rows = []\<rparr> of
          (Inl f, db') \<Rightarrow> (Inl f, Some db')
        | (Inr _, db') \<Rightarrow> (thenR (mo_custody (jw_after w)) (thenR (mo_settings (jw_after w)) (thenR (mo_schema (jw_after w))
             (bindR (metadata (jw_last w) store_id) (\<lambda>_. Inr store_id)))), Some db')))"

definition open_store :: "jsval \<Rightarrow> store_moment \<Rightarrow> connection store_result" where
  "open_store expected_store_id m = (case expected_store_id of
     JStr sid \<Rightarrow> thenR (fail_if (\<not> is_uuid sid) InputInvalid) (thenR (mo_custody m) (thenR (mo_settings m) (thenR (mo_schema m)
        (bindR (metadata (mo_db m) sid) (\<lambda>_. bindR (all_rows (mo_db m)) (\<lambda>_. Inr \<lparr>jc_store_id = sid, jc_closed = False\<rparr>))))))
   | _ \<Rightarrow> Inl InputInvalid)"

end
