(* ===== verification/JobStoreFacts.thy ===== *)
theory JobStoreFacts
  imports JobStore CanonicalSize Repository Evolution Refinement
begin

text \<open>
  The shape of a sound store of runner jobs, what its transactions do on it, and the steps of all the
  processes that share it.
\<close>

section \<open>Cells\<close>

lemma ascii_basic: "list_all is_ascii s \<Longrightarrow> utf8_decode (utf8 s) = s"
  by (rule utf8_decode_encode, rule valid_unicode_basic) (auto simp: list_all_iff is_ascii_def intro: is_basic_less)

lemma key_ascii: "is_store_key s \<Longrightarrow> list_all is_ascii s \<and> length s \<le> 128 \<and> 1 \<le> length s"
  by (auto simp: is_store_key_def list_all_iff is_ascii_def class_defs in_class_def js_def js_char_def word_le_nat_alt)

lemma hex_ascii: "hex_n n s \<Longrightarrow> list_all is_ascii s \<and> length s = n"
  by (auto simp: hex_n_def list_all_iff is_ascii_def class_defs word_le_nat_alt)

lemma prefixed_ascii:
  assumes "starts_with (js p) s" "hex_n 64 (drop n s)" "list_all is_ascii (js p)" "n = length p"
  shows "list_all is_ascii s \<and> length s = n + 64"
proof -
  have s: "s = js p @ drop n s"
    using assms(1) by (simp add: starts_with_def assms(4)) (metis append_take_drop_id length_js)
  from hex_ascii [OF assms(2)] assms(3,4) show ?thesis by (metis s length_append length_js list_all_append)
qed

lemma ascii_prefixes: "list_all is_ascii (js ''previewjob_'')" "list_all is_ascii (js ''sha256:'')"
  by (simp_all add: js_def js_char_def is_ascii_def)

lemma prefix_lengths: "(11 :: nat) = length ''previewjob_''" "(7 :: nat) = length ''sha256:''"
  by simp_all

lemma job_id_ascii: "is_job_id s \<Longrightarrow> list_all is_ascii s \<and> length s = 75"
  using prefixed_ascii [OF _ _ ascii_prefixes(1) prefix_lengths(1), of s] by (simp add: is_job_id_def)

lemma digest_ascii: "is_digest s \<Longrightarrow> list_all is_ascii s \<and> length s = 71"
  using prefixed_ascii [OF _ _ ascii_prefixes(2) prefix_lengths(2), of s] by (simp add: is_digest_def)

text \<open>Text that keeps its bytes: it is determined by them.\<close>

definition kept_text :: "jsstr \<Rightarrow> bool" where
  "kept_text s \<longleftrightarrow> utf8_decode (utf8 s) = s"

lemma kept_inject: "kept_text s \<Longrightarrow> kept_text t \<Longrightarrow> text_cell s = text_cell t \<longleftrightarrow> s = t"
  by (metis kept_text_def text_cell_def cell.inject(3))

lemma decode_text_cell: "kept_text s \<Longrightarrow> length (utf8 s) \<le> limit \<Longrightarrow> decode_cell (text_cell s) limit = Inr s"
  by (simp add: decode_cell_def text_cell_def kept_text_def)

lemma well_typed_kept:
  assumes "well_typed r"
  shows "kept_text (sr_campaign r)" "kept_text (sr_run r)" "kept_text (sr_job r)" "kept_text (sr_intent r)" "kept_text (sr_digest r)" "kept_text (sr_bytes r)"
  using assms key_ascii job_id_ascii digest_ascii unfolding well_typed_def kept_text_def by (blast intro: ascii_basic)+

lemma well_typed_lengths:
  assumes "well_typed r"
  shows "length (utf8 (sr_campaign r)) \<le> 128 \<and> 1 \<le> length (utf8 (sr_campaign r))" "length (utf8 (sr_run r)) \<le> 128 \<and> 1 \<le> length (utf8 (sr_run r))"
    "length (utf8 (sr_job r)) = 75" "length (utf8 (sr_intent r)) = 71" "length (utf8 (sr_digest r)) = 71"
    "1 \<le> length (utf8 (sr_bytes r)) \<and> length (utf8 (sr_bytes r)) \<le> max_record_bytes"
  using assms key_ascii job_id_ascii digest_ascii ascii_utf8 unfolding well_typed_def byte_length_def by (metis not_less)+

lemma decode_raw: "well_typed r \<Longrightarrow> decode (raw_of r) = Inr r"
  using well_typed_kept [of r] well_typed_lengths [of r]
  by (cases r) (simp add: decode_def raw_of_def decode_text_cell decode_revision_def)

lemma decode_raw_rows: "\<forall>r \<in> set rs. well_typed r \<Longrightarrow> mapR decode (map raw_of rs) = Inr rs"
  by (induction rs) (simp_all add: decode_raw)

lemma raw_row_ok_raw: "well_typed r \<Longrightarrow> raw_row_ok (raw_of r)"
  using well_typed_lengths [of r] by (simp add: raw_row_ok_def raw_of_def bounded_text_def text_cell_def)

lemma raw_inject: "well_typed r \<Longrightarrow> well_typed q \<Longrightarrow> raw_of r = raw_of q \<longleftrightarrow> r = q"
  by (metis decode_raw sum.inject(2))

lemma at_key_raw: "well_typed r \<Longrightarrow> kept_text a \<Longrightarrow> kept_text b \<Longrightarrow> at_key a b (raw_of r) \<longleftrightarrow> sr_campaign r = a \<and> sr_run r = b"
  using well_typed_kept [of r] by (simp add: at_key_def raw_of_def kept_inject)

lemma validate_row_Inr: "validate_row v code = Inr r \<Longrightarrow> well_typed r"
  by (auto simp: validate_row_def split: jsval.splits if_splits option.splits)

section \<open>Sound stores\<close>

definition job_key :: "stored_row \<Rightarrow> jsstr \<times> jsstr" where
  "job_key r = (sr_campaign r, sr_run r)"

definition meta_of :: "jsstr \<Rightarrow> int \<Rightarrow> meta_row" where
  "meta_of store_id w = \<lparr>mt_singleton = CInt 1, mt_schema_version = CInt 1, mt_store_id = text_cell store_id, mt_high_water = CInt w\<rparr>"

definition sound_rows :: "stored_row list \<Rightarrow> bool" where
  "sound_rows rs \<longleftrightarrow> (\<forall>r \<in> set rs. well_typed r) \<and> distinct (map job_key rs) \<and> distinct (map sr_job rs) \<and> length rs \<le> 100"

text \<open>The abstract store: its clock and its rows.\<close>

definition stores :: "jsstr \<Rightarrow> job_db \<Rightarrow> int \<Rightarrow> stored_row list \<Rightarrow> bool" where
  "stores store_id db w rs \<longleftrightarrow> jd_meta db = [meta_of store_id w] \<and> jd_rows db = map raw_of rs \<and> sound_rows rs \<and> 0 \<le> w \<and> is_safe_integer (JInt w)"

definition sound_store :: "jsstr \<Rightarrow> job_db \<Rightarrow> bool" where
  "sound_store store_id db \<longleftrightarrow> is_uuid store_id \<and> kept_text store_id \<and> (\<exists>w rs. stores store_id db w rs)"

lemma find_job_row:
  assumes "\<forall>r \<in> set rs. well_typed r" "kept_text a" "kept_text b"
  shows "find (at_key a b) (map raw_of rs) = map_option raw_of (find (\<lambda>r. job_key r = (a, b)) rs)"
  using assms(1) by (induction rs) (auto simp: at_key_raw [OF _ assms(2,3)] job_key_def)

lemma read_stored:
  assumes "stores s db w rs" "kept_text a" "kept_text b"
  shows "read_row db a b = Inr (find (\<lambda>r. job_key r = (a, b)) rs)"
proof -
  have t: "\<forall>r \<in> set rs. well_typed r" "jd_rows db = map raw_of rs" using assms(1) by (auto simp: stores_def sound_rows_def)
  show ?thesis
  proof (cases "find (\<lambda>r. job_key r = (a, b)) rs")
    case (Some r)
    then have "well_typed r" using t(1) by (auto simp: find_Some_iff)
    with Some t show ?thesis by (simp add: read_row_def find_job_row [OF t(1) assms(2,3)] decode_raw)
  qed (simp add: read_row_def t find_job_row [OF t(1) assms(2,3)])
qed

lemma count_stored: "stores s db w rs \<Longrightarrow> count_rows db = Inr (length rs)"
  by (auto simp: count_rows_def stores_def sound_rows_def fail_if_def list_all_iff raw_row_ok_raw)

lemma metadata_stored: "stores s db w rs \<Longrightarrow> is_uuid s \<Longrightarrow> kept_text s \<Longrightarrow> metadata db t = (if s = t then Inr w else Inl StoreMismatch)"
  by (auto simp: metadata_def stores_def meta_of_def text_cell_def kept_text_def)

lemma stores_unique:
  assumes "stores s db w rs" "stores s db w' rs'"
  shows "w = w'" "rs = rs'"
proof -
  show "w = w'" using assms by (auto simp: stores_def meta_of_def)
  have m: "map raw_of rs = map raw_of rs'" "\<forall>r \<in> set rs. well_typed r" "\<forall>r \<in> set rs'. well_typed r" using assms by (auto simp: stores_def sound_rows_def)
  from m(1) have "mapR decode (map raw_of rs) = mapR decode (map raw_of rs')" by (rule arg_cong)
  with m(2,3) show "rs = rs'" by (simp only: decode_raw_rows sum.inject)
qed

lemma find_job_key: "distinct (map job_key rs) \<Longrightarrow> find (\<lambda>r. job_key r = k) rs = Some r \<longleftrightarrow> r \<in> set rs \<and> job_key r = k"
  by (induction rs) (auto simp: job_key_def)

section \<open>Transactions on a sound store\<close>

lemma insert_stored:
  assumes "stores s db w rs" "well_typed row"
  shows "insert_action row db =
    (if find (\<lambda>r. job_key r = job_key row) rs \<noteq> None then Inr (False, db)
     else if \<exists>r \<in> set rs. sr_job r = sr_job row then Inl JobConflict
     else if length rs = 100 then Inl StoreFull
     else Inr (True, db\<lparr>jd_rows := map raw_of (rs @ [row])\<rparr>))"
proof -
  have t: "\<forall>r \<in> set rs. well_typed r" "jd_rows db = map raw_of rs" "length rs \<le> 100" using assms(1) by (auto simp: stores_def sound_rows_def)
  have "list_ex (\<lambda>r. rr_job r = text_cell (sr_job row)) (jd_rows db) \<longleftrightarrow> (\<exists>r \<in> set rs. sr_job r = sr_job row)"
    using t well_typed_kept(3) [OF assms(2)] well_typed_kept(3) by (auto simp: list_ex_iff raw_of_def kept_inject)
  with t show ?thesis using read_stored [OF assms(1) well_typed_kept(1,2) [OF assms(2)]] count_stored [OF assms(1)]
    by (auto simp: insert_action_def job_key_def)
qed

definition swap_stored :: "stored_row \<Rightarrow> stored_row \<Rightarrow> stored_row list \<Rightarrow> stored_row list" where
  "swap_stored previous next rs = map (\<lambda>r. if r = previous then next else r) rs"

lemma swap_row_raw:
  assumes "well_typed r" "well_typed previous" "successor previous next"
  shows "swap_row previous next (raw_of r) = raw_of (if r = previous then next else r)"
proof (cases "r = previous")
  case True
  with assms(3) show ?thesis by (simp add: swap_row_def raw_of_def successor_def)
next
  case False
  with raw_inject [OF assms(1,2)] show ?thesis by (simp add: swap_row_def)
qed

lemma swap_action_stored:
  assumes "stores s db w rs" "well_typed previous" "well_typed next" "successor previous next"
  shows "swap_action previous next db =
    (if find (\<lambda>r. job_key r = job_key previous) rs = None then Inl JobConflict
     else Inr (previous \<in> set rs, db\<lparr>jd_rows := map raw_of (swap_stored previous next rs)\<rparr>))"
proof -
  have t: "\<forall>r \<in> set rs. well_typed r" "jd_rows db = map raw_of rs" "distinct (map job_key rs)" using assms(1) by (auto simp: stores_def sound_rows_def)
  have "filter (\<lambda>r. r = raw_of previous) (map raw_of rs) = map raw_of (filter (\<lambda>r. r = previous) rs)"
    using t(1) raw_inject [OF _ assms(2)] by (induction rs) auto
  moreover have "length (filter (\<lambda>r. r = previous) rs) = 1 \<longleftrightarrow> previous \<in> set rs"
  proof (cases "previous \<in> set rs")
    case True
    with t(3) show ?thesis by (simp add: distinct_map filter_eq_single)
  next
    case False
    then have "filter (\<lambda>r. r = previous) rs = []" by (auto simp: filter_empty_conv)
    with False show ?thesis by simp
  qed
  moreover have "map (swap_row previous next) (map raw_of rs) = map raw_of (swap_stored previous next rs)"
    using t(1) swap_row_raw [OF _ assms(2,4)] by (simp add: swap_stored_def)
  ultimately show ?thesis
    using read_stored [OF assms(1) well_typed_kept(1,2) [OF assms(2)]] t(2) by (simp add: swap_action_def job_key_def)
qed

lemma swap_stored_keys:
  assumes "successor previous next"
  shows "map job_key (swap_stored previous next rs) = map job_key rs" "map sr_job (swap_stored previous next rs) = map sr_job rs"
  using assms by (simp_all add: swap_stored_def successor_def job_key_def)

lemma swap_sound: "sound_rows rs \<Longrightarrow> successor previous next \<Longrightarrow> well_typed next \<Longrightarrow> sound_rows (swap_stored previous next rs)"
  by (auto simp: sound_rows_def swap_stored_keys) (auto simp: swap_stored_def)

lemma insert_sound:
  assumes "sound_rows rs" "well_typed row" "find (\<lambda>r. job_key r = job_key row) rs = None" "\<not> (\<exists>r \<in> set rs. sr_job r = sr_job row)" "length rs \<noteq> 100"
  shows "sound_rows (rs @ [row])"
  using assms by (auto simp: sound_rows_def find_None_iff)

section \<open>Steps\<close>

text \<open>
  A step of some process that shares the store: one operation, whatever its arguments, its connection and what it meets
  at its other moments. Reading, opening and closing do not change the database.
\<close>

inductive job_step :: "job_db \<Rightarrow> job_db \<Rightarrow> bool" where
  inserts: "insert_job c w input db = (r, db') \<Longrightarrow> job_step db db'"
| swaps: "compare_and_swap c w previous next db = (r, db') \<Longrightarrow> job_step db db'"
| observes: "observe_time c w now db = (u, db') \<Longrightarrow> job_step db db'"

text \<open>The machine the store promises: rows are added under a new key and job, replaced by a successor, or the clock rises.\<close>

record job_spec =
  js_clock :: int
  js_rows :: "stored_row list"

inductive table_step :: "job_spec \<Rightarrow> job_spec \<Rightarrow> bool" where
  idle: "table_step s s"
| add: "well_typed row \<Longrightarrow> job_key row \<notin> job_key ` set (js_rows s) \<Longrightarrow> sr_job row \<notin> sr_job ` set (js_rows s) \<Longrightarrow> length (js_rows s) < 100
    \<Longrightarrow> table_step s (s\<lparr>js_rows := js_rows s @ [row]\<rparr>)"
| replace: "previous \<in> set (js_rows s) \<Longrightarrow> well_typed next \<Longrightarrow> successor previous next
    \<Longrightarrow> table_step s (s\<lparr>js_rows := swap_stored previous next (js_rows s)\<rparr>)"
| tick: "js_clock s \<le> now \<Longrightarrow> is_safe_integer (JInt now) \<Longrightarrow> table_step s (s\<lparr>js_clock := now\<rparr>)"

definition abs_store :: "jsstr \<Rightarrow> job_db \<Rightarrow> job_spec" where
  "abs_store store_id db = \<lparr>js_clock = (case metadata db store_id of Inr w \<Rightarrow> w | _ \<Rightarrow> 0),
     js_rows = (case mapR decode (jd_rows db) of Inr rs \<Rightarrow> rs | _ \<Rightarrow> [])\<rparr>"

lemma abs_stored: "stores s db w rs \<Longrightarrow> is_uuid s \<Longrightarrow> kept_text s \<Longrightarrow> abs_store s db = \<lparr>js_clock = w, js_rows = rs\<rparr>"
  by (simp add: abs_store_def metadata_stored) (simp add: stores_def sound_rows_def decode_raw_rows)

lemma transaction_cases: "transaction fault action db = (r, db') \<Longrightarrow> db' = db \<or> (\<exists>x. action db = Inr (x, db'))"
  by (auto simp: transaction_def split: fault.splits sum.splits prod.splits)

lemma insert_cases:
  assumes "insert_job c w input db = (r, db')"
  obtains "db' = db" | row x where "validate_row input InputInvalid = Inr row" "insert_action row db = Inr (x, db')"
proof (cases "validate_row input InputInvalid")
  case (Inr row)
  with assms show thesis
    by (auto simp: insert_job_def thenR_def split: sum.splits prod.splits dest!: transaction_cases intro: that)
qed (use assms in \<open>auto simp: insert_job_def intro: that\<close>)

lemma swap_cases:
  assumes "compare_and_swap c w p n db = (r, db')"
  obtains "db' = db" | previous "next" x where "validate_row p InputInvalid = Inr previous" "validate_row n InputInvalid = Inr next" "successor previous next"
    "swap_action previous next db = Inr (x, db')"
proof (cases "validate_row p InputInvalid")
  case previous: (Inr previous)
  show thesis
  proof (cases "validate_row n InputInvalid")
    case (Inr "next")
    with previous assms show thesis
      by (auto simp: compare_and_swap_def thenR_def fail_if_def split: sum.splits prod.splits if_splits dest!: transaction_cases intro: that)
  qed (use previous assms in \<open>auto simp: compare_and_swap_def intro: that\<close>)
qed (use assms in \<open>auto simp: compare_and_swap_def intro: that\<close>)

lemma observe_cases:
  assumes "observe_time c w now db = (r, db')"
  obtains "db' = db" | n x where "is_safe_integer (JInt n)" "0 \<le> n" "observe_action c n db = Inr (x, db')"
proof -
  let ?n = "case now of JInt n \<Rightarrow> n | _ \<Rightarrow> 0"
  have "is_safe_integer (JInt ?n)" if "is_safe_integer now" using that by (cases now) (simp_all add: max_safe_def)
  moreover have "db' = db \<or> is_safe_integer now \<and> 0 \<le> ?n \<and> (\<exists>x. observe_action c ?n db = Inr (x, db'))"
    using assms by (auto simp: observe_time_def thenR_def fail_if_def Let_def split: sum.splits prod.splits if_splits dest!: transaction_cases)
  ultimately show thesis using that by blast
qed

lemma find_None_key: "find (\<lambda>r. job_key r = k) rs = None \<longleftrightarrow> k \<notin> job_key ` set rs"
  by (auto simp: find_None_iff)

lemma job_step_simulated:
  assumes "job_step db db'" "sound_store s db"
  shows "sound_store s db' \<and> table_step (abs_store s db) (abs_store s db')"
proof -
  from assms(2) obtain w rs where id: "is_uuid s" "kept_text s" and at: "stores s db w rs" by (auto simp: sound_store_def)
  have sim: "sound_store s db' \<and> table_step (abs_store s db) (abs_store s db')"
    if "stores s db' w' rs'" "table_step \<lparr>js_clock = w, js_rows = rs\<rparr> \<lparr>js_clock = w', js_rows = rs'\<rparr>" for w' rs'
    using that id at by (auto simp: sound_store_def abs_stored)
  have same: ?thesis if "db' = db" using assms(2) that by (simp add: table_step.idle)
  have rows: "stores s (db\<lparr>jd_rows := map raw_of rs'\<rparr>) w rs'" if "sound_rows rs'" for rs'
    using at that by (auto simp: stores_def)
  from assms(1) show ?thesis
  proof cases
    case (inserts c wo input r)
    then show ?thesis
    proof (cases rule: insert_cases)
      case (2 row x)
      note row = validate_row_Inr [OF 2(1)]
      from 2(2) consider "db' = db" | "db' = db\<lparr>jd_rows := map raw_of (rs @ [row])\<rparr>" "find (\<lambda>r. job_key r = job_key row) rs = None"
        "\<not> (\<exists>r \<in> set rs. sr_job r = sr_job row)" "length rs \<noteq> 100"
        by (auto simp only: insert_stored [OF at row] split: if_splits)
      then show ?thesis
      proof cases
        case 2
        have "sound_rows rs" using at by (simp add: stores_def)
        note sound = insert_sound [OF this row 2(2-4)]
        have "length rs < 100" using \<open>sound_rows rs\<close> 2(4) by (simp add: sound_rows_def)
        with 2(2,3) row have "table_step \<lparr>js_clock = w, js_rows = rs\<rparr> (\<lparr>js_clock = w, js_rows = rs\<rparr>\<lparr>js_rows := rs @ [row]\<rparr>)"
          using table_step.add [of row "\<lparr>js_clock = w, js_rows = rs\<rparr>"] by (fastforce simp: find_None_key)
        with rows [OF sound] show ?thesis unfolding 2(1) by (intro sim [unfolded 2(1)]) simp_all
      qed (rule same)
    qed (rule same)
  next
    case (swaps c wo p n r)
    then show ?thesis
    proof (cases rule: swap_cases)
      case (2 previous "next" x)
      note typed = validate_row_Inr [OF 2(1)] validate_row_Inr [OF 2(2)]
      from 2(4) have db': "db' = db\<lparr>jd_rows := map raw_of (swap_stored previous next rs)\<rparr>"
        by (auto simp only: swap_action_stored [OF at typed 2(3)] split: if_splits)
      show ?thesis
      proof (cases "previous \<in> set rs")
        case True
        have "sound_rows rs" using at by (simp add: stores_def)
        note sound = swap_sound [OF this 2(3) typed(2)]
        from True typed 2(3) have "table_step \<lparr>js_clock = w, js_rows = rs\<rparr> (\<lparr>js_clock = w, js_rows = rs\<rparr>\<lparr>js_rows := swap_stored previous next rs\<rparr>)"
          using table_step.replace [of previous "\<lparr>js_clock = w, js_rows = rs\<rparr>" "next"] by simp
        with rows [OF sound] show ?thesis unfolding db' by (intro sim [unfolded db']) simp_all
      next
        case False
        then have "swap_stored previous next rs = rs" by (auto simp: swap_stored_def intro!: map_idI)
        then have "db' = db" using at by (simp add: db' stores_def)
        then show ?thesis by (rule same)
      qed
    qed (rule same)
  next
    case (observes c wo now u)
    then show ?thesis
    proof (cases rule: observe_cases)
      case (2 n x)
      from 2(3) have clock: "w \<le> n" "db' = db\<lparr>jd_meta := map (set_high_water n) (jd_meta db)\<rparr>"
        by (auto simp: observe_action_def metadata_stored [OF at id] bindR_eq_Inr split: if_splits)
      have "stores s db' n rs" using at 2(1,2) by (simp add: clock(2) stores_def meta_of_def set_high_water_def)
      moreover have "table_step \<lparr>js_clock = w, js_rows = rs\<rparr> (\<lparr>js_clock = w, js_rows = rs\<rparr>\<lparr>js_clock := n\<rparr>)"
        using clock(1) 2(1) by (intro table_step.tick) simp_all
      ultimately show ?thesis by (intro sim) simp_all
    qed (rule same)
  qed
qed

interpretation jobs: refinement job_step table_step "abs_store s" "sound_store s" for s
  by unfold_locales (use job_step_simulated in blast)+

end
