(* ===== verification/JobStoreClaims.thy ===== *)
theory JobStoreClaims
  imports JobStoreFacts
begin

text \<open>The properties of the store of runner jobs, and a concrete store.\<close>

section \<open>History of a record\<close>

text \<open>What a record becomes: itself, or a later revision of the same job with the same intent.\<close>

definition job_grows :: "stored_row \<Rightarrow> stored_row \<Rightarrow> bool" where
  "job_grows a b \<longleftrightarrow> b = a \<or> sr_revision a < sr_revision b \<and> job_key b = job_key a \<and> sr_job b = sr_job a \<and> sr_intent b = sr_intent a"

definition look_job :: "jsstr \<Rightarrow> job_db \<Rightarrow> jsstr \<times> jsstr \<Rightarrow> stored_row option" where
  "look_job store_id db k = find (\<lambda>r. job_key r = k) (js_rows (abs_store store_id db))"

lemma find_append_Some: "find P xs = Some x \<Longrightarrow> find P (xs @ ys) = Some x"
  by (induction xs) auto

lemma find_swap:
  assumes "find (\<lambda>r. job_key r = k) rs = Some a" "successor previous next"
  shows "find (\<lambda>r. job_key r = k) (swap_stored previous next rs) = Some (if a = previous then next else a)"
proof -
  have "job_key next = job_key previous" using assms(2) by (simp add: successor_def job_key_def)
  with assms(1) show ?thesis by (induction rs) (auto simp: swap_stored_def split: if_splits)
qed

lemma table_step_grows:
  assumes "table_step s s'" "find (\<lambda>r. job_key r = k) (js_rows s) = Some a"
  shows "\<exists>b. find (\<lambda>r. job_key r = k) (js_rows s') = Some b \<and> job_grows a b"
  using assms
proof cases
  case (replace previous "next")
  from find_swap [OF assms(2) replace(4)] replace(1,4) show ?thesis
    by (auto simp: job_grows_def successor_def job_key_def)
qed (auto simp: job_grows_def find_append_Some)

interpretation job_history: evolving job_step "sound_store s" "look_job s" job_grows for s
proof unfold_locales
  show "sound_store s db'" if "sound_store s db" "job_step db db'" for db db' using job_step_simulated [OF that(2,1)] by blast
  show "job_grows a a" for a by (simp add: job_grows_def)
  show "job_grows a c" if "job_grows a b" "job_grows b c" for a b c using that by (auto simp: job_grows_def)
  show "\<exists>b. look_job s db' k = Some b \<and> job_grows a b" if "sound_store s db" "job_step db db'" "look_job s db k = Some a" for db db' k a
    using table_step_grows [OF conjunct2 [OF job_step_simulated [OF that(2,1)]]] that(3) by (simp add: look_job_def)
qed

lemma read_sound:
  assumes "sound_store s db" "kept_text a" "kept_text b"
  shows "read_row db a b = Inr (look_job s db (a, b))"
  using assms read_stored by (auto simp: sound_store_def look_job_def abs_stored)

lemma fresh_sound: "is_uuid s \<Longrightarrow> kept_text s \<Longrightarrow> sound_store s (fresh_db s)"
  by (auto simp: sound_store_def stores_def fresh_db_def meta_of_def sound_rows_def max_safe_def intro!: exI [of _ 0] exI [of _ "[]"])

lemma uuid_kept:
  assumes "is_uuid s"
  shows "kept_text s"
proof -
  obtain a b c d e where p: "split_on 45 s = [a, b, c, d, e]" "hex_n 8 a" "hex_n 4 b" "hex_n 4 c" "hex_n 4 d" "hex_n 12 e"
    using assms by (auto simp: is_uuid_def split: list.splits)
  have "s = join [45] (split_on 45 s)" by (rule split_on_join [symmetric])
  moreover have "list_all is_ascii (join [45] [a, b, c, d, e])"
    using hex_ascii p(2-6) by (intro ascii_join) (auto simp: is_ascii_def)
  ultimately show ?thesis using p(1) ascii_basic by (metis kept_text_def)
qed

section \<open>Undisturbed operations\<close>

text \<open>A moment at which all checks pass and the database is the given one; an operation that no failure and no other process disturbs.\<close>

definition calm :: "connection \<Rightarrow> store_moment \<Rightarrow> job_db \<Rightarrow> bool" where
  "calm c m db \<longleftrightarrow> \<not> jc_closed c \<and> mo_custody m = Inr () \<and> mo_settings m = Inr () \<and> mo_schema m = Inr () \<and> mo_db m = db"

definition undisturbed :: "connection \<Rightarrow> job_world \<Rightarrow> job_db \<Rightarrow> job_db \<Rightarrow> bool" where
  "undisturbed c w db db' \<longleftrightarrow> calm c (jw_before w) db \<and> jw_fault w = NoFault \<and> calm c (jw_after w) db' \<and> jw_last w = db'"

lemma calm_check: "calm c m db \<Longrightarrow> sound_store (jc_store_id c) db \<Longrightarrow> check c m = Inr ()"
  by (auto simp: calm_def check_def fail_if_def sound_store_def metadata_stored count_stored)

lemma calm_read_back:
  assumes "calm c (jw_after w) db" "jw_last w = db" "sound_store (jc_store_id c) db" "well_typed row" "look_job (jc_store_id c) db (job_key row) = Some r"
  shows "read_back c w row = Inr r"
  using calm_check [OF assms(1,3)] assms(2,5) read_sound [OF assms(3) well_typed_kept(1,2) [OF assms(4)]]
  by (simp add: read_back_def job_key_def)

lemma stored_swap:
  assumes "stores s db w rs" "well_typed next" "successor previous next"
  shows "stores s (db\<lparr>jd_rows := map raw_of (swap_stored previous next rs)\<rparr>) w (swap_stored previous next rs)"
  using assms swap_sound [OF _ assms(3,2)] by (auto simp: stores_def)

lemma look_swapped:
  assumes "sound_store s db" "well_typed next" "successor previous next" "look_job s db (job_key previous) = Some previous"
  shows "look_job s (db\<lparr>jd_rows := map raw_of (swap_stored previous next (js_rows (abs_store s db)))\<rparr>) (job_key previous) = Some next"
proof -
  from assms(1) obtain w rs where at: "is_uuid s" "kept_text s" "stores s db w rs" by (auto simp: sound_store_def)
  show ?thesis using find_swap [OF _ assms(3)] assms(4) stored_swap [OF at(3) assms(2,3)] at by (simp add: look_job_def abs_stored)
qed

lemma look_member:
  assumes "stores s db w rs" "is_uuid s" "kept_text s"
  shows "look_job s db (job_key r) = Some r \<longleftrightarrow> r \<in> set rs"
  using assms find_job_key [of rs "job_key r" r] by (simp add: look_job_def abs_stored) (auto simp: stores_def sound_rows_def)

section \<open>Properties\<close>

text \<open>C26: every run of the processes that share a store, from its initialization on, is a run of a table that only adds rows under
  new keys and job identifiers, at most 100 of them, replaces a row by its successor, and never sets its clock back.\<close>

theorem job_store_refines:
  assumes "is_uuid s" "job_step\<^sup>*\<^sup>* (fresh_db s) db"
  shows "sound_store s db \<and> table_step\<^sup>*\<^sup>* \<lparr>js_clock = 0, js_rows = []\<rparr> (abs_store s db)"
proof -
  have "stores s (fresh_db s) 0 []" by (simp add: stores_def fresh_db_def meta_of_def sound_rows_def max_safe_def)
  with jobs.runs [OF assms(2) fresh_sound [OF assms(1) uuid_kept [OF assms(1)]]] show ?thesis
    by (simp add: abs_stored [OF _ assms(1) uuid_kept [OF assms(1)]])
qed

text \<open>C28: a record that was read once is found again at any later time, and is then the same or a later revision of the same job and intent.\<close>

theorem job_record_history:
  assumes "sound_store s db" "job_step\<^sup>*\<^sup>* db db'" "is_store_key campaign" "is_store_key run" "read_row db campaign run = Inr (Some a)"
  shows "\<exists>b. read_row db' campaign run = Inr (Some b) \<and> job_key b = (campaign, run) \<and> sr_job b = sr_job a \<and> sr_intent b = sr_intent a
    \<and> (b = a \<or> sr_revision a < sr_revision b)"
proof -
  have keys: "kept_text campaign" "kept_text run" using assms(3,4) key_ascii ascii_basic by (auto simp: kept_text_def)
  have a: "look_job s db (campaign, run) = Some a" using assms(5) read_sound [OF assms(1) keys] by simp
  from job_history.steps_grow [OF assms(2,1) this] obtain b where b: "look_job s db' (campaign, run) = Some b" "job_grows a b" by blast
  have "job_key b = (campaign, run)" using b(1) by (auto simp: look_job_def find_Some_iff)
  moreover have "read_row db' campaign run = Inr (Some b)"
    using read_sound [OF job_history.steps_inv [OF assms(2,1)] keys] b(1) by simp
  ultimately show ?thesis using b(2) by (auto simp: job_grows_def)
qed

text \<open>Compare-and-swap on a sound store: it replaces the row by the next one exactly when the stored row still is the previous one, and
  otherwise reports the stored row and changes nothing.\<close>

theorem compare_and_swap_exact:
  assumes "sound_store (jc_store_id c) db" "validate_row p InputInvalid = Inr previous" "validate_row n InputInvalid = Inr next"
    and "undisturbed c w db (snd (compare_and_swap c w p n db))"
  shows "compare_and_swap c w p n db =
    (if \<not> successor previous next then (Inl InputInvalid, db)
     else case look_job (jc_store_id c) db (job_key previous) of
         None \<Rightarrow> (Inl JobConflict, db)
       | Some current \<Rightarrow>
           if current = previous
           then (Inr (True, next), db\<lparr>jd_rows := map raw_of (swap_stored previous next (js_rows (abs_store (jc_store_id c) db)))\<rparr>)
           else (Inr (False, current), db))"
proof (cases "successor previous next")
  case succ: True
  let ?s = "jc_store_id c"
  from assms(1) obtain t rs where at: "is_uuid ?s" "kept_text ?s" "stores ?s db t rs" by (auto simp: sound_store_def)
  note typed = validate_row_Inr [OF assms(2)] validate_row_Inr [OF assms(3)]
  note before = calm_check [OF conjunct1 [OF assms(4) [unfolded undisturbed_def]] assms(1)]
  note action = swap_action_stored [OF at(3) typed succ]
  have fault: "jw_fault w = NoFault" using assms(4) by (simp add: undisturbed_def)
  have look: "look_job ?s db (job_key previous) = find (\<lambda>r. job_key r = job_key previous) rs" by (simp add: look_job_def abs_stored [OF at(3,1,2)])
  note unfold = compare_and_swap_def assms(2,3) succ before fault transaction_def action fail_if_def
  show ?thesis
  proof (cases "look_job ?s db (job_key previous)")
    case None
    then show ?thesis using look by (simp add: unfold succ)
  next
    case (Some current)
    show ?thesis
    proof (cases "current = previous")
      case True
      with Some look_member [OF at(3,1,2)] have "previous \<in> set rs" by simp
      let ?db = "db\<lparr>jd_rows := map raw_of (swap_stored previous next rs)\<rparr>"
      have run: "compare_and_swap c w p n db = (bindR (read_back c w previous) (\<lambda>actual. Inr (True, actual)), ?db)"
        using Some look \<open>previous \<in> set rs\<close> by (simp add: unfold)
      have "read_back c w previous = Inr next"
        using assms(4) look_swapped [OF assms(1) typed(2) succ] Some True stored_swap [OF at(3) typed(2) succ] at
        by (intro calm_read_back [where db = ?db]) (auto simp: undisturbed_def run typed abs_stored [OF at(3,1,2)] sound_store_def)
      with run Some True succ show ?thesis by (simp add: abs_stored [OF at(3,1,2)])
    next
      case False
      have "previous \<notin> set rs" using False Some look_member [OF at(3,1,2), of previous] by auto
      then have "map raw_of (swap_stored previous next rs) = jd_rows db" using at(3) by (auto simp: swap_stored_def stores_def)
      then have run: "compare_and_swap c w p n db = (bindR (read_back c w previous) (\<lambda>actual. Inr (False, actual)), db)"
        using Some look \<open>previous \<notin> set rs\<close> by (simp add: unfold)
      have "read_back c w previous = Inr current"
        using assms(4) Some by (intro calm_read_back [where db = db]) (auto simp: undisturbed_def run typed assms(1))
      with run Some False succ show ?thesis by simp
    qed
  qed
qed (simp add: compare_and_swap_def assms(2,3) fail_if_def)

text \<open>C27: a revision has one successor: once a compare-and-swap took effect, no compare-and-swap from the same previous row does again,
  in any process and whatever happened in between, even when the first one ended with an error.\<close>

theorem single_successor:
  assumes "sound_store s db" "compare_and_swap c w p n db = (r, db1)" "db1 \<noteq> db" "job_step\<^sup>*\<^sup>* db1 db2"
  shows "snd (compare_and_swap c' w' p n' db2) = db2 \<and> (\<forall>row. fst (compare_and_swap c' w' p n' db2) \<noteq> Inr (True, row))"
proof -
  from assms(1) obtain t rs where at: "is_uuid s" "kept_text s" "stores s db t rs" by (auto simp: sound_store_def)
  from swap_cases [OF assms(2)] assms(3) obtain previous "next" x where sw: "validate_row p InputInvalid = Inr previous"
    "validate_row n InputInvalid = Inr next" "successor previous next" "swap_action previous next db = Inr (x, db1)" by metis
  note typed = validate_row_Inr [OF sw(1)] validate_row_Inr [OF sw(2)]
  from sw(4) have db1: "db1 = db\<lparr>jd_rows := map raw_of (swap_stored previous next rs)\<rparr>"
    by (auto simp: swap_action_stored [OF at(3) typed sw(3)] split: if_splits)
  have "previous \<in> set rs"
  proof (rule ccontr)
    assume "previous \<notin> set rs"
    then have "swap_stored previous next rs = rs" by (auto simp: swap_stored_def intro!: map_idI)
    with assms(3) at(3) db1 show False by (simp add: stores_def)
  qed
  then have "look_job s db1 (job_key previous) = Some next"
    using look_swapped [OF assms(1) typed(2) sw(3)] at look_member [OF at(3,1,2)] by (simp add: db1 abs_stored)
  moreover have sound1: "sound_store s db1" using stored_swap [OF at(3) typed(2) sw(3)] at by (auto simp: sound_store_def db1)
  ultimately obtain b where b: "look_job s db2 (job_key previous) = Some b" "job_grows next b"
    using job_history.steps_grow [OF assms(4)] by blast
  have sound2: "sound_store s db2" by (rule job_history.steps_inv [OF assms(4) sound1])
  then obtain t2 rs2 where at2: "stores s db2 t2 rs2" by (auto simp: sound_store_def)
  have "b \<noteq> previous" using b(2) sw(3) by (auto simp: job_grows_def successor_def)
  with b(1) look_member [OF at2 at(1,2), of previous] have gone: "previous \<notin> set rs2" by auto
  have "swap_stored previous m rs2 = rs2" for m using gone by (auto simp: swap_stored_def intro!: map_idI)
  then have idle: "\<exists>f. swap_action previous m db2 = Inl f \<or> swap_action previous m db2 = Inr (False, db2)" if "well_typed m" "successor previous m" for m
    using swap_action_stored [OF at2 typed(1) that] gone at2 by (auto simp: stores_def)
  show ?thesis
  proof (cases "validate_row n' InputInvalid")
    case (Inr m)
    show ?thesis
    proof (cases "successor previous m")
      case True
      from idle [OF validate_row_Inr [OF Inr] True] show ?thesis
        by (auto simp: compare_and_swap_def sw(1) Inr True fail_if_def thenR_def transaction_def bindR_eq_Inr split: sum.splits fault.splits)
    qed (simp add: compare_and_swap_def sw(1) Inr fail_if_def)
  qed (simp add: compare_and_swap_def sw(1))
qed

section \<open>A concrete store\<close>

definition sample_store_id :: jsstr where
  "sample_store_id = js ''01234567-89ab-4cde-8fff-0123456789ab''"

definition sample_job_row :: "int \<Rightarrow> jsstr \<Rightarrow> stored_row" where
  "sample_job_row revision bytes = \<lparr>sr_campaign = js ''campaign_1'', sr_run = js ''run_1'', sr_job = js ''previewjob_'' @ replicate 64 97,
     sr_revision = revision, sr_intent = js ''sha256:'' @ replicate 64 98, sr_digest = js ''sha256:'' @ replicate 64 99, sr_bytes = bytes\<rparr>"

definition sample_row_value :: "stored_row \<Rightarrow> jsval" where
  "sample_row_value r = obj [(js ''campaignId'', JStr (sr_campaign r)), (js ''runId'', JStr (sr_run r)), (js ''jobId'', JStr (sr_job r)),
     (js ''revision'', jint (sr_revision r)), (js ''intentDigest'', JStr (sr_intent r)), (js ''recordDigest'', JStr (sr_digest r)),
     (js ''canonicalRecord'', JStr (sr_bytes r))]"

definition sample_prepared :: stored_row where
  "sample_prepared = sample_job_row 1 (js ''prepared'')"

definition sample_reviewed :: stored_row where
  "sample_reviewed = sample_job_row 2 (js ''reviewed'')"

definition sample_connection :: connection where
  "sample_connection = \<lparr>jc_store_id = sample_store_id, jc_closed = False\<rparr>"

definition sample_store_moment :: "job_db \<Rightarrow> store_moment" where
  "sample_store_moment db = \<lparr>mo_custody = Inr (), mo_settings = Inr (), mo_schema = Inr (), mo_db = db\<rparr>"

definition sample_job_world :: "job_db \<Rightarrow> job_db \<Rightarrow> job_world" where
  "sample_job_world db db' = \<lparr>jw_before = sample_store_moment db, jw_fault = NoFault, jw_after = sample_store_moment db', jw_last = db'\<rparr>"

definition sample_jobs :: "stored_row list \<Rightarrow> job_db" where
  "sample_jobs rs = (fresh_db sample_store_id)\<lparr>jd_rows := map raw_of rs\<rparr>"

lemma sample_uuid: "is_uuid sample_store_id"
  by code_simp

lemma sample_job_typed:
  assumes "revision \<in> {1, 2, 3}" "bytes \<in> {js ''prepared'', js ''reviewed''}"
  shows "well_typed (sample_job_row revision bytes)"
proof -
  have keys: "is_store_key (js ''campaign_1'')" "is_store_key (js ''run_1'')" by code_simp+
  have ids: "is_job_id (js ''previewjob_'' @ replicate 64 97)" "is_digest (js ''sha256:'' @ replicate 64 98)" "is_digest (js ''sha256:'' @ replicate 64 99)"
    by code_simp+
  have "byte_length (js ''prepared'') = 8 \<and> byte_length (js ''reviewed'') = 8" by code_simp
  moreover have "utf8_decode (utf8 (js ''prepared'')) = js ''prepared''" "utf8_decode (utf8 (js ''reviewed'')) = js ''reviewed''" by code_simp+
  ultimately show ?thesis using assms keys ids by (auto simp: well_typed_def sample_job_row_def max_record_bytes_def)
qed

lemma sample_validated: "well_typed r \<Longrightarrow> validate_row (sample_row_value r) code = Inr r"
proof -
  assume r: "well_typed r"
  have fields: "row_of (get_own [(PStr (js ''campaignId''), DData (JStr a) True), (PStr (js ''runId''), DData (JStr b) True), (PStr (js ''jobId''), DData (JStr c) True),
      (PStr (js ''revision''), DData (jint v) True), (PStr (js ''intentDigest''), DData (JStr d) True), (PStr (js ''recordDigest''), DData (JStr e) True),
      (PStr (js ''canonicalRecord''), DData (JStr f) True)])
     = Some \<lparr>sr_campaign = a, sr_run = b, sr_job = c, sr_revision = v, sr_intent = d, sr_digest = e, sr_bytes = f\<rparr>" for a b c d e f v
    by (simp add: row_of_def get_own_def)
  have "join [44] (sort (map js [''campaignId'', ''runId'', ''jobId'', ''revision'', ''intentDigest'', ''recordDigest'', ''canonicalRecord''])) = row_columns"
    by code_simp
  then show ?thesis using r by (cases r) (simp add: validate_row_def sample_row_value_def obj_def plain_data_def fields)
qed

lemmas sample_typed = sample_job_typed [of 1 "js ''prepared''", folded sample_prepared_def, simplified]
  sample_job_typed [of 2 "js ''reviewed''", folded sample_reviewed_def, simplified]

lemma sample_successor: "successor sample_prepared sample_reviewed" "sample_prepared \<noteq> sample_reviewed"
  by (simp_all add: successor_def sample_prepared_def sample_reviewed_def sample_job_row_def)

lemma sample_stored: "well_typed r \<Longrightarrow> stores sample_store_id (sample_jobs [r]) 0 [r]"
  by (simp add: stores_def sample_jobs_def fresh_db_def meta_of_def sound_rows_def max_safe_def)

lemma sample_store_sound: "well_typed r \<Longrightarrow> sound_store sample_store_id (sample_jobs [r])"
  using sample_stored sample_uuid uuid_kept by (auto simp: sound_store_def)

lemma sample_calm: "calm sample_connection (sample_store_moment db) db"
  by (simp add: calm_def sample_store_moment_def sample_connection_def)

lemma sample_store_world [simp]: "jw_before (sample_job_world a b) = sample_store_moment a" "jw_fault (sample_job_world a b) = NoFault"
  "jw_after (sample_job_world a b) = sample_store_moment b" "jw_last (sample_job_world a b) = b"
  by (simp_all add: sample_job_world_def)

lemma sample_connection_id [simp]: "jc_store_id sample_connection = sample_store_id"
  by (simp add: sample_connection_def)

lemma sample_fresh_sound: "sound_store sample_store_id (fresh_db sample_store_id)"
  by (rule fresh_sound [OF sample_uuid uuid_kept [OF sample_uuid]])

lemma sample_insert:
  "insert_job sample_connection (sample_job_world (fresh_db sample_store_id) (sample_jobs [sample_prepared])) (sample_row_value sample_prepared) (fresh_db sample_store_id)
    = (Inr (True, sample_prepared), sample_jobs [sample_prepared])"
proof -
  let ?w = "sample_job_world (fresh_db sample_store_id) (sample_jobs [sample_prepared])"
  have "stores sample_store_id (fresh_db sample_store_id) 0 []" by (simp add: stores_def fresh_db_def meta_of_def sound_rows_def max_safe_def)
  from insert_stored [OF this sample_typed(1)]
  have action: "insert_action sample_prepared (fresh_db sample_store_id) = Inr (True, sample_jobs [sample_prepared])" by (simp add: sample_jobs_def)
  have "check sample_connection (jw_before ?w) = Inr ()"
    using calm_check [OF sample_calm] sample_fresh_sound by (simp add: sample_connection_def)
  moreover have "read_back sample_connection ?w sample_prepared = Inr sample_prepared"
    by (rule calm_read_back [where db = "sample_jobs [sample_prepared]"])
      (use sample_typed sample_store_sound sample_stored [OF sample_typed(1)] sample_uuid uuid_kept in
        \<open>simp_all add: sample_calm look_job_def abs_stored\<close>)
  ultimately show ?thesis
    by (simp add: insert_job_def sample_validated sample_typed transaction_def action)
qed

lemma sample_inserted: "job_step (fresh_db sample_store_id) (sample_jobs [sample_prepared])"
  by (rule job_step.inserts [OF sample_insert])

lemma sample_look: "well_typed r \<Longrightarrow> look_job sample_store_id (sample_jobs [r]) (job_key r) = Some r"
  using look_member [OF sample_stored sample_uuid uuid_kept [OF sample_uuid]] by simp

lemma sample_swap:
  "compare_and_swap sample_connection (sample_job_world (sample_jobs [sample_prepared]) (sample_jobs [sample_reviewed]))
     (sample_row_value sample_prepared) (sample_row_value sample_reviewed) (sample_jobs [sample_prepared])
    = (Inr (True, sample_reviewed), sample_jobs [sample_reviewed])"
proof -
  let ?w = "sample_job_world (sample_jobs [sample_prepared]) (sample_jobs [sample_reviewed])"
  from swap_action_stored [OF sample_stored [OF sample_typed(1)] sample_typed sample_successor(1)]
  have action: "swap_action sample_prepared sample_reviewed (sample_jobs [sample_prepared]) = Inr (True, sample_jobs [sample_reviewed])"
    by (simp add: swap_stored_def) (simp add: sample_jobs_def)
  have "check sample_connection (jw_before ?w) = Inr ()"
    using calm_check [OF sample_calm] sample_store_sound [OF sample_typed(1)] by (simp add: sample_connection_def)
  moreover have "read_back sample_connection ?w sample_prepared = Inr sample_reviewed"
  proof (rule calm_read_back [where db = "sample_jobs [sample_reviewed]"])
    have "job_key sample_prepared = job_key sample_reviewed" by (simp add: job_key_def sample_prepared_def sample_reviewed_def sample_job_row_def)
    then show "look_job (jc_store_id sample_connection) (sample_jobs [sample_reviewed]) (job_key sample_prepared) = Some sample_reviewed"
      using sample_look [OF sample_typed(2)] by (simp add: sample_connection_def)
  qed (use sample_typed sample_store_sound in \<open>simp_all add: sample_calm\<close>)
  ultimately show ?thesis
    by (simp add: compare_and_swap_def sample_validated sample_typed transaction_def action sample_successor fail_if_def)
qed

section \<open>Witnesses\<close>

lemma job_store_refines_witness: "table_step\<^sup>*\<^sup>* \<lparr>js_clock = 0, js_rows = []\<rparr> (abs_store sample_store_id (sample_jobs [sample_prepared]))"
  using job_store_refines [OF sample_uuid r_into_rtranclp [of job_step, OF sample_inserted]] by blast

lemma job_record_history_witness:
  "\<exists>b. read_row (sample_jobs [sample_reviewed]) (js ''campaign_1'') (js ''run_1'') = Inr (Some b) \<and> sr_job b = sr_job sample_prepared"
proof -
  have keys: "is_store_key (js ''campaign_1'')" "is_store_key (js ''run_1'')" by code_simp+
  have kept: "kept_text (js ''campaign_1'')" "kept_text (js ''run_1'')" using keys key_ascii ascii_basic by (auto simp: kept_text_def)
  have "job_key sample_prepared = (js ''campaign_1'', js ''run_1'')" by (simp add: job_key_def sample_prepared_def sample_job_row_def)
  then have "read_row (sample_jobs [sample_prepared]) (js ''campaign_1'') (js ''run_1'') = Inr (Some sample_prepared)"
    using read_sound [OF sample_store_sound [OF sample_typed(1)] kept] sample_look [OF sample_typed(1)] by simp
  from job_record_history [OF sample_store_sound [OF sample_typed(1)] r_into_rtranclp [of job_step, OF job_step.swaps [OF sample_swap]] keys this]
  show ?thesis by blast
qed

lemma compare_and_swap_exact_witness:
  "fst (compare_and_swap sample_connection (sample_job_world (sample_jobs [sample_prepared]) (sample_jobs [sample_reviewed]))
     (sample_row_value sample_prepared) (sample_row_value sample_reviewed) (sample_jobs [sample_prepared])) = Inr (True, sample_reviewed)"
proof -
  let ?w = "sample_job_world (sample_jobs [sample_prepared]) (sample_jobs [sample_reviewed])"
  have "undisturbed sample_connection ?w (sample_jobs [sample_prepared]) (snd (compare_and_swap sample_connection ?w
      (sample_row_value sample_prepared) (sample_row_value sample_reviewed) (sample_jobs [sample_prepared])))"
    by (simp add: sample_swap undisturbed_def) (simp add: sample_calm)
  from compare_and_swap_exact [OF _ sample_validated [OF sample_typed(1)] sample_validated [OF sample_typed(2)] this]
  show ?thesis using sample_store_sound [OF sample_typed(1)] sample_look [OF sample_typed(1)] sample_successor by (simp add: sample_connection_def)
qed

lemma single_successor_witness:
  "snd (compare_and_swap sample_connection (sample_job_world (sample_jobs [sample_reviewed]) (sample_jobs [sample_reviewed]))
     (sample_row_value sample_prepared) (sample_row_value sample_reviewed) (sample_jobs [sample_reviewed])) = sample_jobs [sample_reviewed]"
proof -
  have "sample_jobs [sample_reviewed] \<noteq> sample_jobs [sample_prepared]"
    using raw_inject [OF sample_typed] sample_successor(2) by (auto simp: sample_jobs_def dest: arg_cong [of _ _ jd_rows])
  from single_successor [OF sample_store_sound [OF sample_typed(1)] sample_swap this rtranclp.rtrancl_refl] show ?thesis by blast
qed

end
