(* ===== verification/GitTree.thy ===== *)
theory GitTree
  imports TextBytes "HOL-Library.AList"
begin

text \<open>
  packages/app/src/runner-git-tree.ts: the id Git gives to a set of regular files, calculated without
  Git. The paths become a tree of directories, and every directory is hashed with its sorted items.
\<close>

section \<open>Entries\<close>

datatype git_format = Sha1 | Sha256

datatype git_mode = RegularMode | ExecutableMode

record git_entry =
  gi_path :: jsstr
  gi_mode :: git_mode
  gi_content :: "byte list"

text \<open>The two hash functions.\<close>

type_synonym git_hash = "git_format \<Rightarrow> byte list \<Rightarrow> byte list"

definition git_object_format_from_oid :: "jsstr \<Rightarrow> git_format result" where
  "git_object_format_from_oid oid =
     (if hex_n 40 oid then Inr Sha1 else if hex_n 64 oid then Inr Sha256
      else throw ''Git object id must be a lowercase SHA-1 or SHA-256 value'')"

definition max_git_path_bytes :: nat where "max_git_path_bytes = 4096"
definition max_git_tree_depth :: nat where "max_git_tree_depth = 64"

definition is_control :: "code_unit \<Rightarrow> bool" where
  "is_control c \<longleftrightarrow> c \<le> 31 \<or> c = 127"

definition validate_git_path :: "jsstr \<Rightarrow> jsstr result" where
  "validate_git_path v =
     (if v = [] \<or> starts_with [47] v \<or> 92 \<in> set v \<or> 0 \<in> set v \<or> list_ex is_control v \<or> max_git_path_bytes < byte_length v
      then throw ''Git tree path is empty, oversized, absolute, or non-portable''
      else thenR (assert_valid_unicode v)
       (let parts = split_on 47 v in
        if max_git_tree_depth < length parts \<or> list_ex (\<lambda>part. part = [] \<or> part = js ''.'' \<or> part = js ''..'') parts
        then throw ''Git tree path is not normalized or exceeds depth 64''
        else if list_ex (\<lambda>part. to_lower part = js ''.git'' \<or> to_lower part = js ''node_modules'') parts
        then throw ''Git tree path contains a forbidden component''
        else Inr v))"

section \<open>Directories\<close>

text \<open>The two maps of a \<open>DirectoryNode\<close>, in the order of insertion.\<close>

datatype dir_node = DirNode "(jsstr \<times> dir_node) list" "(jsstr \<times> git_mode \<times> byte list) list"

fun insert_file :: "jsstr list \<Rightarrow> git_mode \<times> byte list \<Rightarrow> dir_node \<Rightarrow> dir_node result" where
  "insert_file [] file d = Inr d"
| "insert_file [name] file (DirNode ds fs) =
     (if map_of ds name \<noteq> None then throw ''Git tree path collides with a directory''
      else Inr (DirNode ds (AList.update name file fs)))"
| "insert_file (part # q # parts) file (DirNode ds fs) =
     (if map_of fs part \<noteq> None then throw ''Git tree path collides with a file''
      else bindR (insert_file (q # parts) file (case map_of ds part of None \<Rightarrow> DirNode [] [] | Some d \<Rightarrow> d)) (\<lambda>d.
        Inr (DirNode (AList.update part d ds) fs)))"

fun insert_entries :: "jsstr list \<Rightarrow> git_entry list \<Rightarrow> dir_node \<Rightarrow> dir_node result" where
  "insert_entries seen [] d = Inr d"
| "insert_entries seen (e # es) d =
     bindR (validate_git_path (gi_path e)) (\<lambda>path.
       if path \<in> set seen then throw ''Duplicate Git tree path''
       else bindR (insert_file (split_on 47 path) (gi_mode e, gi_content e) d) (insert_entries (path # seen) es))"

section \<open>Objects\<close>

definition mode_text :: "git_mode \<Rightarrow> jsstr" where
  "mode_text m = (case m of RegularMode \<Rightarrow> js ''100644'' | ExecutableMode \<Rightarrow> js ''100755'')"

definition git_object :: "string \<Rightarrow> byte list \<Rightarrow> byte list" where
  "git_object type body = utf8 (js type @ js '' '' @ nat_text (length body)) @ [0] @ body"

definition hash_git_object :: "git_hash \<Rightarrow> git_format \<Rightarrow> string \<Rightarrow> byte list \<Rightarrow> byte list" where
  "hash_git_object h fmt type body = h fmt (git_object type body)"

definition git_blob_oid :: "git_hash \<Rightarrow> byte list \<Rightarrow> git_format \<Rightarrow> jsstr" where
  "git_blob_oid h content fmt = hex_of (hash_git_object h fmt ''blob'' content)"

text \<open>An item of a directory: its name, whether it is a directory, its mode and the id of its object.\<close>

record tree_item =
  ti_name :: jsstr
  ti_directory :: bool
  ti_mode :: jsstr
  ti_oid :: "byte list"

text \<open>\<open>compareTreeItems\<close>: a directory is compared as if its name ended with a slash.\<close>

definition item_key :: "tree_item \<Rightarrow> byte list" where
  "item_key i = utf8 (ti_name i @ (if ti_directory i then [47] else []))"

definition item_bytes :: "tree_item \<Rightarrow> byte list" where
  "item_bytes i = utf8 (ti_mode i @ js '' '') @ utf8 (ti_name i) @ [0] @ ti_oid i"

definition directory_item :: "jsstr \<Rightarrow> byte list \<Rightarrow> tree_item" where
  "directory_item name oid = \<lparr>ti_name = name, ti_directory = True, ti_mode = js ''40000'', ti_oid = oid\<rparr>"

definition file_item :: "git_hash \<Rightarrow> git_format \<Rightarrow> jsstr \<times> git_mode \<times> byte list \<Rightarrow> tree_item" where
  "file_item h fmt f = (case f of (name, mode, content) \<Rightarrow>
     \<lparr>ti_name = name, ti_directory = False, ti_mode = mode_text mode, ti_oid = hash_git_object h fmt ''blob'' content\<rparr>)"

fun encode_directory :: "git_hash \<Rightarrow> git_format \<Rightarrow> dir_node \<Rightarrow> byte list" where
  "encode_directory h fmt (DirNode ds fs) =
     hash_git_object h fmt ''tree'' (concat (map item_bytes (sort_key item_key
       (map (\<lambda>(name, child). directory_item name (encode_directory h fmt child)) ds @ map (file_item h fmt) fs))))"

text \<open>The objects that are hashed on the way: the directory, its files and the objects of its directories.\<close>

fun hashed_objects :: "git_hash \<Rightarrow> git_format \<Rightarrow> dir_node \<Rightarrow> byte list list" where
  "hashed_objects h fmt (DirNode ds fs) =
     git_object ''tree'' (concat (map item_bytes (sort_key item_key
       (map (\<lambda>(name, child). directory_item name (encode_directory h fmt child)) ds @ map (file_item h fmt) fs))))
     # map (\<lambda>(name, mode, content). git_object ''blob'' content) fs
     @ concat (map (\<lambda>(name, child). hashed_objects h fmt child) ds)"

definition git_tree_oid :: "git_hash \<Rightarrow> git_entry list \<Rightarrow> git_format \<Rightarrow> jsstr result" where
  "git_tree_oid h entries fmt = bindR (insert_entries [] entries (DirNode [] [])) (\<lambda>root. Inr (hex_of (encode_directory h fmt root)))"

end
