(* ===== verification/GitTreeFacts.thy ===== *)
theory GitTreeFacts
  imports GitTree
begin

text \<open>
  The files below a directory, what inserting an entry adds to them, and the two directions of the
  identification: directories with the same files have the same id, and directories with the same id have the same files
  unless the hash has a collision.
\<close>

section \<open>Files below a directory\<close>

definition git_name :: "jsstr \<Rightarrow> bool" where
  "git_name n \<longleftrightarrow> n \<noteq> [] \<and> 0 \<notin> set n \<and> 47 \<notin> set n \<and> valid_unicode n"

fun files_list :: "dir_node \<Rightarrow> (jsstr list \<times> git_mode \<times> byte list) list" where
  "files_list (DirNode ds fs) = map (\<lambda>(name, f). ([name], f)) fs
     @ concat (map (\<lambda>(name, d). map (\<lambda>(ps, f). (name # ps, f)) (files_list d)) ds)"

fun wf_dir :: "dir_node \<Rightarrow> bool" where
  "wf_dir (DirNode ds fs) \<longleftrightarrow> distinct (map fst ds @ map fst fs) \<and> list_all (\<lambda>(n, f). git_name n) fs
     \<and> list_all (\<lambda>(n, d). git_name n \<and> wf_dir d \<and> files_list d \<noteq> []) ds"

lemma files_paths: "(ps, f) \<in> set (files_list d) \<Longrightarrow> ps \<noteq> []"
  by (cases d) auto

lemma files_iff: "(ps, f) \<in> set (files_list (DirNode ds fs)) \<longleftrightarrow>
    (\<exists>n. ps = [n] \<and> (n, f) \<in> set fs) \<or> (\<exists>n qs d. ps = n # qs \<and> (n, d) \<in> set ds \<and> (qs, f) \<in> set (files_list d))"
  by force

lemma wf_parts:
  assumes "wf_dir (DirNode ds fs)"
  shows "distinct (map fst ds)" "distinct (map fst fs)" "\<And>n d f. (n, d) \<in> set ds \<Longrightarrow> (n, f) \<notin> set fs" "\<And>n f. (n, f) \<in> set fs \<Longrightarrow> git_name n"
    "\<And>n d. (n, d) \<in> set ds \<Longrightarrow> git_name n \<and> wf_dir d \<and> files_list d \<noteq> []"
proof -
  show "distinct (map fst ds)" "distinct (map fst fs)" using assms by simp_all
  have disjoint: "set (map fst ds) \<inter> set (map fst fs) = {}" using assms by simp
  show "(n, f) \<notin> set fs" if "(n, d) \<in> set ds" for n d f
  proof
    assume "(n, f) \<in> set fs"
    with that have "n \<in> set (map fst ds)" "n \<in> set (map fst fs)" by force+
    with disjoint show False by blast
  qed
  show "git_name n" if "(n, f) \<in> set fs" for n f using assms that by (auto simp: list_all_iff)
  show "git_name n \<and> wf_dir d \<and> files_list d \<noteq> []" if "(n, d) \<in> set ds" for n d using assms that by (auto simp: list_all_iff)
qed

declare wf_dir.simps [simp del]

lemma sub_files:
  assumes "wf_dir (DirNode ds fs)" "(n, d) \<in> set ds"
  shows "(qs, f) \<in> set (files_list d) \<longleftrightarrow> qs \<noteq> [] \<and> (n # qs, f) \<in> set (files_list (DirNode ds fs))"
proof -
  have same: "e = d" if "(n, e) \<in> set ds" for e by (rule eq_key_imp_eq_value [OF wf_parts(1) [OF assms(1)] that assms(2)])
  have "(n # qs, f) \<in> set (files_list (DirNode ds fs))" if "(qs, f) \<in> set (files_list d)" using that assms(2) unfolding files_iff by blast
  moreover have "(qs, f) \<in> set (files_list d)" if "qs \<noteq> []" "(n # qs, f) \<in> set (files_list (DirNode ds fs))"
    using that same unfolding files_iff by blast
  ultimately show ?thesis using files_paths by blast
qed

lemma set_update: "distinct (map fst al) \<Longrightarrow> set (AList.update k v al) = insert (k, v) {x \<in> set al. fst x \<noteq> k}"
  by (induction al) force+

lemma keys_update: "set (map fst (AList.update k v al)) = insert k (set (map fst al))"
  by (simp add: dom_update)

lemma insert_file_files:
  assumes "insert_file parts f d = Inr d'" "wf_dir d" "parts \<noteq> []" "list_all git_name parts"
  shows "wf_dir d' \<and> set (files_list d') = insert (parts, f) {x \<in> set (files_list d). fst x \<noteq> parts}"
  using assms
proof (induction parts f d arbitrary: d' rule: insert_file.induct)
  case (2 name f ds fs)
  then have d': "d' = DirNode ds (AList.update name f fs)" "name \<notin> set (map fst ds)"
    by (auto simp: map_of_eq_None_iff split: if_splits)
  note p = wf_parts [OF 2(2)]
  have wf: "wf_dir d'" using 2(2,4) d' p(2) keys_update [of name f fs]
    by (auto simp: d'(1) wf_dir.simps distinct_update list_all_iff set_update)
  have "(ps, g) \<in> set (files_list d') \<longleftrightarrow> (ps, g) = ([name], f) \<or> (ps, g) \<in> set (files_list (DirNode ds fs)) \<and> ps \<noteq> [name]" for ps g
  proof -
    have "ps \<noteq> [name]" if "ps = n # qs" "(n, e) \<in> set ds" "(qs, g) \<in> set (files_list e)" for n qs e using files_paths [OF that(3)] that(1) by simp
    then show ?thesis unfolding d'(1) files_iff set_update [OF p(2)] by auto
  qed
  with wf show ?case by (auto simp del: files_list.simps)
next
  case (3 part q parts f ds fs)
  let ?c = "case map_of ds part of None \<Rightarrow> DirNode [] [] | Some d \<Rightarrow> d"
  note p = wf_parts [OF 3(3)]
  from 3(2) obtain c where c: "insert_file (q # parts) f ?c = Inr c" "d' = DirNode (AList.update part c ds) fs" "part \<notin> set (map fst fs)"
    by (auto simp: bindR_eq_Inr map_of_eq_None_iff split: if_splits)
  have "wf_dir ?c" using p(5) by (auto simp: wf_dir.simps(1) [of "[]" "[]"] split: option.splits dest: map_of_SomeD)
  moreover have "\<not> map_of fs part \<noteq> None" using c(3) by (simp add: map_of_eq_None_iff)
  ultimately have sub: "wf_dir c" "set (files_list c) = insert (q # parts, f) {x \<in> set (files_list ?c). fst x \<noteq> q # parts}"
    using 3(1) [OF _ c(1)] 3(5) by auto
  have wf: "wf_dir d'" using 3(3,5) c(2,3) p(1) sub keys_update [of part c ds]
    by (auto simp: wf_dir.simps distinct_update list_all_iff set_update)
  have old: "(qs, g) \<in> set (files_list ?c) \<longleftrightarrow> (\<exists>e. (part, e) \<in> set ds \<and> (qs, g) \<in> set (files_list e))" for qs g
  proof (cases "map_of ds part")
    case None
    then have "(part, e) \<notin> set ds" for e by (force simp: map_of_eq_None_iff)
    with None show ?thesis by simp
  next
    case (Some e)
    then have "(part, e) \<in> set ds" by (rule map_of_SomeD)
    with eq_key_imp_eq_value [OF p(1)] have "(part, c) \<in> set ds \<longleftrightarrow> c = e" for c by blast
    with Some show ?thesis by simp
  qed
  have "(ps, g) \<in> set (files_list d') \<longleftrightarrow> (ps, g) = (part # q # parts, f) \<or> (ps, g) \<in> set (files_list (DirNode ds fs)) \<and> ps \<noteq> part # q # parts" for ps g
  proof -
    have "(ps, g) \<in> set (files_list d') \<longleftrightarrow> (\<exists>n. ps = [n] \<and> (n, g) \<in> set fs) \<or> (\<exists>qs. ps = part # qs \<and> (qs, g) \<in> set (files_list c))
        \<or> (\<exists>n qs d. ps = n # qs \<and> (n, d) \<in> set ds \<and> n \<noteq> part \<and> (qs, g) \<in> set (files_list d))"
      unfolding c(2) files_iff set_update [OF p(1)] by auto
    also have "\<dots> \<longleftrightarrow> (\<exists>n. ps = [n] \<and> (n, g) \<in> set fs) \<or> (ps, g) = (part # q # parts, f)
        \<or> (\<exists>qs e. ps = part # qs \<and> qs \<noteq> q # parts \<and> (part, e) \<in> set ds \<and> (qs, g) \<in> set (files_list e))
        \<or> (\<exists>n qs d. ps = n # qs \<and> (n, d) \<in> set ds \<and> n \<noteq> part \<and> (qs, g) \<in> set (files_list d))"
      unfolding sub(2) by (auto simp: old)
    finally show ?thesis unfolding files_iff by (cases ps; cases "hd ps = part") auto
  qed
  with wf show ?case by (auto simp del: files_list.simps)
qed simp

section \<open>Paths\<close>

lemma split_on_subset: "p \<in> set (split_on d s) \<Longrightarrow> set p \<subseteq> set s"
proof (induction s arbitrary: p)
  case (Cons c s)
  then show ?case by (cases "split_on d s") (fastforce split: if_splits)+
qed simp

lemma git_path_names:
  assumes "validate_git_path v = Inr p"
  shows "p = v \<and> list_all git_name (split_on 47 v)"
proof -
  have v: "p = v" "0 \<notin> set v" "assert_valid_unicode v = Inr ()" "list_all (\<lambda>part. part \<noteq> []) (split_on 47 v)"
    using assms by (auto simp: validate_git_path_def thenR_eq_Inr Let_def list_ex_iff list_all_iff split: if_splits)
  have "valid_unicode part" if "part \<in> set (split_on 47 v)" for part
    using that v(3) by (intro split_on_unicode [of 47 v part]) (simp_all add: valid_unicode_def is_basic_def is_high_def is_low_def)
  moreover have "0 \<notin> set part" if "part \<in> set (split_on 47 v)" for part using that v(2) split_on_subset by blast
  ultimately show ?thesis using v(1,4) split_on_no_sep by (auto simp: list_all_iff git_name_def)
qed

definition entry_file :: "git_entry \<Rightarrow> jsstr list \<times> git_mode \<times> byte list" where
  "entry_file e = (split_on 47 (gi_path e), gi_mode e, gi_content e)"

lemma insert_entries_files:
  assumes "insert_entries seen es d = Inr d'" "wf_dir d" "fst ` set (files_list d) = split_on 47 ` set seen"
  shows "wf_dir d' \<and> set (files_list d') = set (files_list d) \<union> entry_file ` set es"
  using assms
proof (induction es arbitrary: seen d)
  case (Cons e es)
  from Cons.prems(1) obtain p where p: "validate_git_path (gi_path e) = Inr p" by (auto simp: bindR_eq_Inr)
  with git_path_names have "p = gi_path e" by blast
  with p Cons.prems(1) obtain c where c: "validate_git_path (gi_path e) = Inr (gi_path e)" "gi_path e \<notin> set seen"
    "insert_file (split_on 47 (gi_path e)) (gi_mode e, gi_content e) d = Inr c" "insert_entries (gi_path e # seen) es c = Inr d'"
    by (auto simp: bindR_eq_Inr split: if_splits)
  note names = conjunct2 [OF git_path_names [OF c(1)]]
  have new: "split_on 47 (gi_path e) \<notin> fst ` set (files_list d)"
    using Cons.prems(3) c(2) split_on_join by (metis image_iff)
  have ins: "wf_dir c" "set (files_list c) = insert (entry_file e) (set (files_list d))"
  proof -
    have "{x \<in> set (files_list d). fst x \<noteq> split_on 47 (gi_path e)} = set (files_list d)" using new by (metis (mono_tags, lifting) Collect_cong Collect_mem_eq image_eqI)
    with insert_file_files [OF c(3) Cons.prems(2) split_on_not_Nil names]
    show "wf_dir c" "set (files_list c) = insert (entry_file e) (set (files_list d))" by (simp_all add: entry_file_def)
  qed
  then have "fst ` set (files_list c) = split_on 47 ` set (gi_path e # seen)" using Cons.prems(3) by (simp add: entry_file_def)
  from Cons.IH [OF c(4) ins(1) this] ins(2) show ?case by auto
qed auto

lemma entries_files:
  assumes "insert_entries [] es (DirNode [] []) = Inr d"
  shows "wf_dir d" "set (files_list d) = entry_file ` set es"
  using insert_entries_files [OF assms] by (simp_all add: wf_dir.simps)

lemma entry_file_inject: "entry_file e = entry_file f \<longleftrightarrow> e = (f :: git_entry)"
  using split_on_join by (cases e; cases f) (auto simp: entry_file_def; metis)

section \<open>Items\<close>

definition dir_items :: "git_hash \<Rightarrow> git_format \<Rightarrow> dir_node \<Rightarrow> tree_item list" where
  "dir_items h fmt d = (case d of DirNode ds fs \<Rightarrow>
     map (\<lambda>(name, child). directory_item name (encode_directory h fmt child)) ds @ map (file_item h fmt) fs)"

lemma encode_items: "encode_directory h fmt d = hash_git_object h fmt ''tree'' (concat (map item_bytes (sort_key item_key (dir_items h fmt d))))"
  by (cases d) (simp add: dir_items_def)

lemma dir_items_iff: "i \<in> set (dir_items h fmt (DirNode ds fs)) \<longleftrightarrow>
    (\<exists>n c. i = directory_item n (encode_directory h fmt c) \<and> (n, c) \<in> set ds) \<or> (\<exists>f. i = file_item h fmt f \<and> f \<in> set fs)"
  by (auto simp: dir_items_def)

definition item_ok :: "tree_item \<Rightarrow> bool" where
  "item_ok i \<longleftrightarrow> git_name (ti_name i) \<and> ti_mode i \<in> {js ''40000'', js ''100644'', js ''100755''} \<and> (ti_directory i \<longleftrightarrow> ti_mode i = js ''40000'')"

lemma dir_items_ok: "wf_dir d \<Longrightarrow> i \<in> set (dir_items h fmt d) \<Longrightarrow> item_ok i"
proof -
  assume d: "wf_dir d" "i \<in> set (dir_items h fmt d)"
  obtain ds fs where e: "d = DirNode ds fs" by (cases d)
  note p = wf_parts [OF d(1) [unfolded e]]
  from d(2) consider n c where "i = directory_item n (encode_directory h fmt c)" "(n, c) \<in> set ds" | n m b where "i = file_item h fmt (n, m, b)" "(n, m, b) \<in> set fs"
    unfolding e dir_items_iff by auto
  then show "item_ok i"
    by cases (use p(4,5) in \<open>auto simp: item_ok_def directory_item_def file_item_def mode_text_def split: git_mode.splits\<close>)
qed

lemma item_key_inject:
  assumes "item_ok i" "item_ok j" "item_key i = item_key j"
  shows "ti_name i = ti_name j \<and> ti_directory i = ti_directory j"
proof -
  have valid: "valid_unicode (ti_name k @ (if ti_directory k then [47] else []))" if "item_ok k" for k
    using that by (auto simp: item_ok_def git_name_def valid_unicode_append is_basic_def is_high_def is_low_def)
  have "ti_name i @ (if ti_directory i then [47] else []) = ti_name j @ (if ti_directory j then [47] else [])"
    using assms(3) utf8_inject [OF valid [OF assms(1)] valid [OF assms(2)]] by (simp add: item_key_def)
  moreover have "47 \<notin> set (ti_name i)" "47 \<notin> set (ti_name j)" using assms(1,2) by (auto simp: item_ok_def git_name_def)
  ultimately show ?thesis
    by (cases "ti_directory i"; cases "ti_directory j") (auto, (metis in_set_conv_decomp)+)
qed

lemma dir_items_distinct:
  assumes "wf_dir d"
  shows "inj_on item_key (set (dir_items h fmt d))" "distinct (map item_key (dir_items h fmt d))"
proof -
  obtain ds fs where d: "d = DirNode ds fs" by (cases d)
  note p = wf_parts [OF assms [unfolded d]]
  have same: "i = j" if "i \<in> set (dir_items h fmt d)" "j \<in> set (dir_items h fmt d)" "ti_name i = ti_name j" for i j
    using that p(3) eq_key_imp_eq_value [OF p(1)] eq_key_imp_eq_value [OF p(2)]
    by (fastforce simp: d dir_items_iff directory_item_def file_item_def)
  show inj: "inj_on item_key (set (dir_items h fmt d))"
    using same item_key_inject dir_items_ok [OF assms] by (meson inj_onI)
  have "map ti_name (dir_items h fmt d) = map fst ds @ map fst fs" by (auto simp: d dir_items_def directory_item_def file_item_def)
  then have "distinct (map ti_name (dir_items h fmt d))" using assms d by (simp add: wf_dir.simps)
  then have "distinct (dir_items h fmt d)" by (simp add: distinct_map)
  with inj show "distinct (map item_key (dir_items h fmt d))" by (simp add: distinct_map)
qed

lemma sort_key_set:
  assumes "set xs = set ys" "distinct (map f xs)" "distinct (map f ys)"
  shows "sort_key f xs = sort_key f ys"
proof -
  have "map f (sort_key f xs) = map f (sort_key f ys)"
    by (rule sorted_distinct_set_unique) (use assms in \<open>simp_all add: distinct_map\<close>)
  then show ?thesis using assms by (intro map_inj_on [where f = f]) (auto simp: distinct_map)
qed

end
