(* ===== verification/GitTreeClaims.thy ===== *)
theory GitTreeClaims
  imports GitTreeFacts "HOL-Library.Sublist"
begin

text \<open>The Git tree id identifies the files, and the files determine the id.\<close>

section \<open>The same files\<close>

declare files_list.simps [simp del] encode_directory.simps [simp del]

lemma file_in_items: "f \<in> set fs \<Longrightarrow> file_item h fmt f \<in> set (dir_items h fmt (DirNode ds fs))"
  by (simp add: dir_items_def)

lemma directory_in_items: "(n, c) \<in> set ds \<Longrightarrow> directory_item n (encode_directory h fmt c) \<in> set (dir_items h fmt (DirNode ds fs))"
  by (force simp: dir_items_def)

lemma items_same:
  assumes "wf_dir (DirNode ds fs)" "wf_dir (DirNode es gs)"
    and "set (files_list (DirNode ds fs)) = set (files_list (DirNode es gs))"
    and "\<And>n c d. (n, c) \<in> set ds \<Longrightarrow> (n, d) \<in> set es \<Longrightarrow> set (files_list c) = set (files_list d) \<Longrightarrow> encode_directory h fmt c = encode_directory h fmt d"
  shows "set (dir_items h fmt (DirNode ds fs)) \<subseteq> set (dir_items h fmt (DirNode es gs))"
proof
  fix i assume "i \<in> set (dir_items h fmt (DirNode ds fs))"
  then consider n c where "i = directory_item n (encode_directory h fmt c)" "(n, c) \<in> set ds" | f where "i = file_item h fmt f" "f \<in> set fs"
    unfolding dir_items_iff by blast
  then show "i \<in> set (dir_items h fmt (DirNode es gs))"
  proof cases
    case 1
    note sub = sub_files [OF assms(1) 1(2)]
    from wf_parts(5) [OF assms(1) 1(2)] have "hd (files_list c) \<in> set (files_list c)" by simp
    then obtain qs f where "(qs, f) \<in> set (files_list c)" by (metis prod.exhaust)
    with sub assms(3) have qs: "qs \<noteq> []" "(n # qs, f) \<in> set (files_list (DirNode es gs))" by auto
    then obtain d where d: "(n, d) \<in> set es" unfolding files_iff by blast
    have "set (files_list c) = set (files_list d)" using sub sub_files [OF assms(2) d] assms(3) by (auto)
    from assms(4) [OF 1(2) d this] d 1(1) show ?thesis unfolding dir_items_iff by auto
  next
    case 2
    obtain n g where f: "f = (n, g)" by (cases f)
    have "([n], g) \<in> set (files_list (DirNode es gs))" using 2(2) assms(3) unfolding f files_iff [of _ _ ds] by (metis files_iff)
    then have "f \<in> set gs" using files_paths unfolding f files_iff by blast
    with 2(1) show ?thesis unfolding dir_items_iff by blast
  qed
qed

lemma same_files_same_id:
  "wf_dir d \<Longrightarrow> wf_dir e \<Longrightarrow> set (files_list d) = set (files_list e) \<Longrightarrow> encode_directory h fmt d = encode_directory h fmt e"
proof (induction d arbitrary: e)
  case (DirNode ds fs)
  obtain es gs where e: "e = DirNode es gs" by (cases e)
  have sub: "encode_directory h fmt c = encode_directory h fmt d"
    if "(n, c) \<in> set ds" "(n, d) \<in> set es" "set (files_list c) = set (files_list d)" for n c d
    using DirNode.IH [OF that(1), of c d] wf_parts(5) [OF DirNode.prems(1) that(1)] wf_parts(5) [OF DirNode.prems(2) [unfolded e] that(2)] that(3) by simp
  have "set (dir_items h fmt (DirNode ds fs)) \<subseteq> set (dir_items h fmt e)" unfolding e
    by (rule items_same [OF DirNode.prems(1) DirNode.prems(2) [unfolded e] DirNode.prems(3) [unfolded e]]) (rule sub)
  moreover have "set (dir_items h fmt e) \<subseteq> set (dir_items h fmt (DirNode ds fs))" unfolding e
    by (rule items_same [OF DirNode.prems(2) [unfolded e] DirNode.prems(1) DirNode.prems(3) [unfolded e, symmetric]])
      (rule sub [symmetric], simp_all)
  ultimately have "set (dir_items h fmt (DirNode ds fs)) = set (dir_items h fmt e)" by blast
  from sort_key_set [OF this dir_items_distinct(2) [OF DirNode.prems(1)] dir_items_distinct(2) [OF DirNode.prems(2)]]
  show ?case by (simp add: encode_items)
qed

section \<open>The same id\<close>

text \<open>The hash functions have values of 20 and 32 bytes.\<close>

definition git_hash_lengths :: "git_hash \<Rightarrow> bool" where
  "git_hash_lengths h \<longleftrightarrow> (\<forall>bs. length (h Sha1 bs) = 20 \<and> length (h Sha256 bs) = 32)"

lemma oid_length: "git_hash_lengths h \<Longrightarrow> length (h fmt x) = length (h fmt y)"
  by (cases fmt) (simp_all add: git_hash_lengths_def)

lemma git_object_inject:
  assumes "git_object t a = git_object u b" "t \<in> {''blob'', ''tree''}" "u \<in> {''blob'', ''tree''}"
  shows "a = b"
proof -
  have head: "0 \<notin> set (utf8 (js t @ js '' '' @ nat_text n))" if "t \<in> {''blob'', ''tree''}" for t n
  proof (rule utf8_nul)
    have "0 \<notin> set (nat_text n)" using nat_text_digits [of n] by (auto simp: list_all_iff is_digit_def word_le_nat_alt)
    then show "0 \<notin> set (js t @ js '' '' @ nat_text n)" using that by (auto simp: js_def js_char_def)
  qed
  show ?thesis using terminated_inject [OF assms(1) [unfolded git_object_def append_Cons append_Nil] head [OF assms(2)] head [OF assms(3)]] by simp
qed

lemma item_bytes_inject:
  assumes "item_ok i" "item_ok j" "length (ti_oid i) = length (ti_oid j)" "item_bytes i @ r = item_bytes j @ s"
  shows "i = j \<and> r = s"
proof -
  have modes: "utf8 (m @ js '' '') = map (\<lambda>c. ucast c) m @ [32] \<and> (32 :: byte) \<notin> set (map (\<lambda>c. ucast c) m)"
    if "m \<in> {js ''40000'', js ''100644'', js ''100755''}" for m
    using that by (elim insertE emptyE; hypsubst; intro conjI; code_simp)
  note mi = modes [of "ti_mode i"] and mj = modes [of "ti_mode j"]
  have bytes: "map (\<lambda>c. ucast c) (ti_mode i) @ 32 # (utf8 (ti_name i) @ 0 # (ti_oid i @ r)) = map (\<lambda>c. ucast c) (ti_mode j) @ 32 # (utf8 (ti_name j) @ 0 # (ti_oid j @ s))"
    using assms(4) mi mj assms(1,2) by (simp add: item_bytes_def item_ok_def)
  from terminated_inject [OF this] mi mj assms(1,2)
  have m: "map (\<lambda>c. ucast c :: byte) (ti_mode i) = map (\<lambda>c. ucast c) (ti_mode j)"
    and rest: "utf8 (ti_name i) @ 0 # (ti_oid i @ r) = utf8 (ti_name j) @ 0 # (ti_oid j @ s)" by (auto simp: item_ok_def)
  have mode: "ti_mode i = ti_mode j" using m assms(1,2) by (auto simp: item_ok_def js_def js_char_def)
  from terminated_inject [OF rest utf8_nul utf8_nul] assms(1,2)
  have n: "utf8 (ti_name i) = utf8 (ti_name j)" "ti_oid i @ r = ti_oid j @ s" by (auto simp: item_ok_def git_name_def)
  have "ti_name i = ti_name j" using n(1) utf8_inject assms(1,2) by (auto simp: item_ok_def git_name_def)
  with mode n(2) assms show ?thesis by (auto simp: item_ok_def intro: tree_item.equality)
qed

lemma items_bytes_inject:
  assumes "concat (map item_bytes xs) = concat (map item_bytes ys)" "\<forall>i \<in> set xs \<union> set ys. item_ok i"
    and "\<forall>i \<in> set xs \<union> set ys. length (ti_oid i) = k"
  shows "xs = ys"
  using assms
proof (induction xs arbitrary: ys)
  case Nil
  then show ?case by (cases ys) (auto simp: item_bytes_def)
next
  case (Cons x xs)
  then obtain y zs where ys: "ys = y # zs" by (cases ys) (auto simp: item_bytes_def)
  have "item_bytes x @ concat (map item_bytes xs) = item_bytes y @ concat (map item_bytes zs)" using Cons.prems(1) ys by simp
  from item_bytes_inject [OF _ _ _ this] Cons.prems(2,3) ys have eq: "x = y" "concat (map item_bytes xs) = concat (map item_bytes zs)" by simp_all
  have "xs = zs" by (rule Cons.IH [OF eq(2)]) (use Cons.prems(2,3) ys in simp_all)
  with eq(1) ys show ?case by simp
qed

lemma dir_items_oid:
  assumes "git_hash_lengths h" "i \<in> set (dir_items h fmt d)"
  shows "length (ti_oid i) = length (h fmt [])"
proof -
  obtain x where "ti_oid i = h fmt x"
    using assms(2) by (cases d) (auto simp: dir_items_iff directory_item_def file_item_def encode_items hash_git_object_def)
  then show ?thesis using oid_length [OF assms(1)] by simp
qed

lemma tree_hashed: "git_object ''tree'' (concat (map item_bytes (sort_key item_key (dir_items h fmt (DirNode ds fs))))) \<in> set (hashed_objects h fmt (DirNode ds fs))"
  by (simp add: dir_items_def)

lemma blob_hashed: "(n, m, b) \<in> set fs \<Longrightarrow> git_object ''blob'' b \<in> set (hashed_objects h fmt (DirNode ds fs))"
  by force

lemma child_hashed: "(n, c) \<in> set ds \<Longrightarrow> set (hashed_objects h fmt c) \<subseteq> set (hashed_objects h fmt (DirNode ds fs))"
  by force

declare hashed_objects.simps [simp del]

definition collide :: "git_hash \<Rightarrow> git_format \<Rightarrow> byte list list \<Rightarrow> byte list list \<Rightarrow> bool" where
  "collide h fmt as bs \<longleftrightarrow> (\<exists>a \<in> set as. \<exists>b \<in> set bs. a \<noteq> b \<and> h fmt a = h fmt b)"

lemma same_id_same_files:
  assumes "git_hash_lengths h"
  shows "wf_dir d \<Longrightarrow> wf_dir e \<Longrightarrow> encode_directory h fmt d = encode_directory h fmt e \<Longrightarrow> \<not> collide h fmt (hashed_objects h fmt d) (hashed_objects h fmt e)
    \<Longrightarrow> set (files_list d) \<subseteq> set (files_list e)"
proof (induction d arbitrary: e)
  case (DirNode ds fs)
  obtain es gs where e: "e = DirNode es gs" by (cases e)
  let ?items = "\<lambda>d. sort_key item_key (dir_items h fmt d)"
  have "git_object ''tree'' (concat (map item_bytes (?items (DirNode ds fs)))) = git_object ''tree'' (concat (map item_bytes (?items e)))"
    using DirNode.prems(3,4) tree_hashed unfolding encode_items hash_git_object_def e collide_def by blast
  then have "concat (map item_bytes (?items (DirNode ds fs))) = concat (map item_bytes (?items e))" by (rule git_object_inject) simp_all
  then have "?items (DirNode ds fs) = ?items e"
    by (rule items_bytes_inject [where k = "length (h fmt [])"])
      (use dir_items_ok [OF DirNode.prems(1)] dir_items_ok [OF DirNode.prems(2)] dir_items_oid [OF assms] in auto)
  then have items: "set (dir_items h fmt (DirNode ds fs)) = set (dir_items h fmt e)" by (metis set_sort)
  have "(ps, f) \<in> set (files_list e)" if "(ps, f) \<in> set (files_list (DirNode ds fs))" for ps f
    using that unfolding files_iff
  proof (elim disjE exE conjE)
    fix n assume n: "ps = [n]" "(n, f) \<in> set fs"
    then have "file_item h fmt (n, f) \<in> set (dir_items h fmt e)" using items file_in_items by blast
    then obtain g where g: "file_item h fmt (n, f) = file_item h fmt g" "g \<in> set gs"
      unfolding e dir_items_iff by (auto simp: file_item_def directory_item_def split: prod.splits)
    obtain m b m' b' where f: "f = (m, b)" and g': "g = (n, m', b')" using g(1) by (cases f; cases g) (auto simp: file_item_def)
    have "h fmt (git_object ''blob'' b) = h fmt (git_object ''blob'' b')" using g(1) by (simp add: f g' file_item_def hash_git_object_def)
    with blob_hashed [OF n(2) [unfolded f]] blob_hashed [OF g(2) [unfolded g']] DirNode.prems(4) [unfolded collide_def e]
    have "git_object ''blob'' b = git_object ''blob'' b'" by blast
    then have "b = b'" by (rule git_object_inject) simp_all
    moreover have "m = m'" using g(1) by (cases m; cases m') (auto simp: f g' file_item_def mode_text_def)
    ultimately show ?thesis using g(2) n(1) unfolding e files_iff f g' by blast
  next
    fix n qs c assume c: "ps = n # qs" "(n, c) \<in> set ds" "(qs, f) \<in> set (files_list c)"
    then have "directory_item n (encode_directory h fmt c) \<in> set (dir_items h fmt e)" using items directory_in_items by blast
    then obtain c' where c': "encode_directory h fmt c = encode_directory h fmt c'" "(n, c') \<in> set es"
      unfolding e dir_items_iff by (auto simp: file_item_def directory_item_def split: prod.splits)
    have "\<not> collide h fmt (hashed_objects h fmt c) (hashed_objects h fmt c')"
      using DirNode.prems(4) child_hashed [OF c(2)] child_hashed [OF c'(2)] unfolding collide_def e by blast
    with DirNode.IH [OF c(2), of c c'] c' wf_parts(5) [OF DirNode.prems(1) c(2)] wf_parts(5) [OF DirNode.prems(2) [unfolded e] c'(2)]
    have "set (files_list c) \<subseteq> set (files_list c')" by simp
    with c c'(2) show ?thesis unfolding e files_iff by blast
  qed
  then show ?case by (meson subrelI)
qed

section \<open>Acceptance\<close>

text \<open>One path is a directory of the other.\<close>

definition path_clash :: "jsstr list \<Rightarrow> jsstr list \<Rightarrow> bool" where
  "path_clash p q \<longleftrightarrow> strict_prefix p q \<or> strict_prefix q p"

lemma path_clash_Cons [simp]: "path_clash (a # p) (b # q) \<longleftrightarrow> a = b \<and> path_clash p q"
  by (auto simp: path_clash_def)

lemma path_clash_sym: "path_clash p q \<longleftrightarrow> path_clash q p"
  by (auto simp: path_clash_def)

lemma insert_file_ok:
  "wf_dir d \<Longrightarrow> parts \<noteq> [] \<Longrightarrow> is_ok (insert_file parts f d) \<longleftrightarrow> (\<forall>(ps, g) \<in> set (files_list d). \<not> path_clash ps parts)"
proof (induction parts f d rule: insert_file.induct)
  case (2 name f ds fs)
  have clash: "path_clash ps [name] \<longleftrightarrow> (\<exists>qs. ps = name # qs \<and> qs \<noteq> [])" if "ps \<noteq> []" for ps
    using that by (cases ps) (auto simp: path_clash_def strict_prefix_def)
  have "map_of ds name \<noteq> None \<longleftrightarrow> (\<exists>qs g. qs \<noteq> [] \<and> (name # qs, g) \<in> set (files_list (DirNode ds fs)))"
  proof
    assume "map_of ds name \<noteq> None"
    then obtain c where c: "(name, c) \<in> set ds" by (auto dest: map_of_SomeD)
    then have "hd (files_list c) \<in> set (files_list c)" using wf_parts(5) [OF 2(1)] by simp
    then obtain qs g where "(qs, g) \<in> set (files_list c)" by (metis prod.exhaust)
    with sub_files [OF 2(1) c] show "\<exists>qs g. qs \<noteq> [] \<and> (name # qs, g) \<in> set (files_list (DirNode ds fs))" by blast
  next
    assume "\<exists>qs g. qs \<noteq> [] \<and> (name # qs, g) \<in> set (files_list (DirNode ds fs))"
    then obtain c where "(name, c) \<in> set ds" unfolding files_iff by blast
    then show "map_of ds name \<noteq> None" by (metis map_of_eq_None_iff fst_conv image_eqI)
  qed
  moreover have "(\<exists>qs g. qs \<noteq> [] \<and> (name # qs, g) \<in> set (files_list (DirNode ds fs))) \<longleftrightarrow> \<not> (\<forall>(ps, g) \<in> set (files_list (DirNode ds fs)). \<not> path_clash ps [name])"
  proof -
    have each: "path_clash ps [name] \<longleftrightarrow> (\<exists>qs. ps = name # qs \<and> qs \<noteq> [])" if "(ps, g) \<in> set (files_list (DirNode ds fs))" for ps g
      by (rule clash [OF files_paths [OF that]])
    show ?thesis
    proof
      assume "\<exists>qs g. qs \<noteq> [] \<and> (name # qs, g) \<in> set (files_list (DirNode ds fs))"
      then obtain qs g where q: "qs \<noteq> []" "(name # qs, g) \<in> set (files_list (DirNode ds fs))" by blast
      with each [OF q(2)] show "\<not> (\<forall>(ps, g) \<in> set (files_list (DirNode ds fs)). \<not> path_clash ps [name])" by blast
    next
      assume "\<not> (\<forall>(ps, g) \<in> set (files_list (DirNode ds fs)). \<not> path_clash ps [name])"
      then obtain ps g where q: "(ps, g) \<in> set (files_list (DirNode ds fs))" "path_clash ps [name]" by blast
      with each [OF q(1)] show "\<exists>qs g. qs \<noteq> [] \<and> (name # qs, g) \<in> set (files_list (DirNode ds fs))" by blast
    qed
  qed
  ultimately show ?case by simp
next
  case (3 part q parts f ds fs)
  let ?c = "case map_of ds part of None \<Rightarrow> DirNode [] [] | Some d \<Rightarrow> d"
  have sub: "(ps, g) \<in> set (files_list ?c) \<longleftrightarrow> ps \<noteq> [] \<and> (part # ps, g) \<in> set (files_list (DirNode ds fs))" for ps g
  proof (cases "map_of ds part")
    case None
    then have "(part, c) \<notin> set ds" for c by (force simp: map_of_eq_None_iff)
    then have "\<not> (ps \<noteq> [] \<and> (part # ps, g) \<in> set (files_list (DirNode ds fs)))" unfolding files_iff by blast
    with None show ?thesis by (simp add: files_list.simps)
  next
    case (Some c)
    with sub_files [OF 3(2) map_of_SomeD [OF Some]] show ?thesis by simp
  qed
  have "wf_dir ?c" using wf_parts(5) [OF 3(2)] by (auto simp: wf_dir.simps(1) [of "[]" "[]"] split: option.splits dest: map_of_SomeD)
  have taken: "map_of fs part \<noteq> None \<longleftrightarrow> (\<exists>g. ([part], g) \<in> set (files_list (DirNode ds fs)))"
  proof
    assume "map_of fs part \<noteq> None"
    then obtain g where "(part, g) \<in> set fs" by (auto dest: map_of_SomeD)
    then show "\<exists>g. ([part], g) \<in> set (files_list (DirNode ds fs))" unfolding files_iff by blast
  next
    assume "\<exists>g. ([part], g) \<in> set (files_list (DirNode ds fs))"
    then obtain g where "(part, g) \<in> set fs" using files_paths unfolding files_iff by blast
    then show "map_of fs part \<noteq> None" by (metis map_of_eq_None_iff fst_conv image_eqI)
  qed
  show ?case
  proof (cases "map_of fs part")
    case None
    with 3(1) [OF _ \<open>wf_dir ?c\<close>]
    have "is_ok (insert_file (part # q # parts) f (DirNode ds fs)) \<longleftrightarrow> (\<forall>(ps, g) \<in> set (files_list ?c). \<not> path_clash ps (q # parts))" by simp
    also have "\<dots> \<longleftrightarrow> (\<forall>(ps, g) \<in> set (files_list (DirNode ds fs)). \<not> path_clash ps (part # q # parts))"
    proof -
      have "path_clash ps (part # q # parts) \<longleftrightarrow> (\<exists>qs. ps = part # qs \<and> qs \<noteq> [] \<and> path_clash qs (q # parts))"
        if "(ps, g) \<in> set (files_list (DirNode ds fs))" for ps g
        using that files_paths [OF that] taken None by (cases ps; cases "tl ps"; cases g) auto
      then show ?thesis using sub by fastforce
    qed
    finally show ?thesis .
  next
    case (Some g)
    with taken obtain h where "([part], h) \<in> set (files_list (DirNode ds fs))" by auto
    moreover have "path_clash [part] (part # q # parts)" by (simp add: path_clash_def)
    ultimately show ?thesis using Some by (auto simp del: path_clash_Cons)
  qed
qed simp

lemma insert_entries_ok:
  assumes "wf_dir d" "fst ` set (files_list d) = split_on 47 ` set seen"
  shows "is_ok (insert_entries seen es d) \<longleftrightarrow> (\<forall>e \<in> set es. is_ok (validate_git_path (gi_path e))) \<and> distinct (map gi_path es)
    \<and> set (map gi_path es) \<inter> set seen = {}
    \<and> (\<forall>e \<in> set es. (\<forall>p \<in> set seen. \<not> path_clash (split_on 47 p) (split_on 47 (gi_path e)))
        \<and> (\<forall>f \<in> set es. \<not> path_clash (split_on 47 (gi_path f)) (split_on 47 (gi_path e))))"
  using assms
proof (induction es arbitrary: seen d)
  case (Cons e es)
  let ?p = "gi_path e"
  have self: "\<not> path_clash q q" for q by (simp add: path_clash_def)
  show ?case
  proof (cases "is_ok (validate_git_path ?p) \<and> ?p \<notin> set seen")
    case True
    then obtain v where "validate_git_path ?p = Inr v" by (auto simp: is_ok_iff)
    with git_path_names have p: "validate_git_path ?p = Inr ?p" "list_all git_name (split_on 47 ?p)" by blast+
    have here: "is_ok (insert_file (split_on 47 ?p) (gi_mode e, gi_content e) d) \<longleftrightarrow> (\<forall>q \<in> set seen. \<not> path_clash (split_on 47 q) (split_on 47 ?p))"
    proof -
      have "(\<forall>(ps, g) \<in> set (files_list d). \<not> path_clash ps r) \<longleftrightarrow> (\<forall>ps \<in> fst ` set (files_list d). \<not> path_clash ps r)" for r by force
      then show ?thesis unfolding insert_file_ok [OF Cons.prems(1) split_on_not_Nil] Cons.prems(2) by simp
    qed
    show ?thesis
    proof (cases "insert_file (split_on 47 ?p) (gi_mode e, gi_content e) d")
      case (Inl err)
      with here have "\<not> (\<forall>q \<in> set seen. \<not> path_clash (split_on 47 q) (split_on 47 ?p))" by simp
      with Inl p True show ?thesis by (auto simp: is_ok_bindR)
    next
      case (Inr c)
      with insert_file_files [OF Inr Cons.prems(1) split_on_not_Nil p(2)]
      have c: "wf_dir c" "fst ` set (files_list c) = split_on 47 ` set (?p # seen)" using Cons.prems(2) by (auto; force)+
      have "is_ok (insert_entries seen (e # es) d) \<longleftrightarrow> is_ok (insert_entries (?p # seen) es c)" using p True Inr by simp
      also note Cons.IH [OF c]
      finally show ?thesis using here Inr True self path_clash_sym by auto
    qed
  next
    case False
    have "\<not> is_ok (insert_entries seen (e # es) d)"
    proof (cases "validate_git_path ?p")
      case (Inr v)
      with git_path_names have "v = ?p" by blast
      with Inr False show ?thesis by simp
    qed simp
    with False show ?thesis by auto
  qed
qed simp

section \<open>Properties\<close>

text \<open>The byte strings that are hashed for a list of entries.\<close>

definition entries_objects :: "git_hash \<Rightarrow> git_format \<Rightarrow> git_entry list \<Rightarrow> byte list list" where
  "entries_objects h fmt es = (case insert_entries [] es (DirNode [] []) of Inr d \<Rightarrow> hashed_objects h fmt d | Inl _ \<Rightarrow> [])"

text \<open>C29: the calculated Git tree id depends on the files only, not on their order, and it identifies them: lists of entries with the same id
  are the same files with the same modes and bytes, unless two different objects that were hashed have the same hash.\<close>

theorem git_tree_identifies:
  assumes "git_hash_lengths h" "git_tree_oid h es fmt = Inr x" "git_tree_oid h es' fmt = Inr y"
  shows "(set es = set es' \<longrightarrow> x = y) \<and> (x = y \<longrightarrow> set es = set es' \<or> collide h fmt (entries_objects h fmt es) (entries_objects h fmt es'))"
proof -
  from assms(2,3) obtain d e where d: "insert_entries [] es (DirNode [] []) = Inr d" "x = hex_of (encode_directory h fmt d)"
    and e: "insert_entries [] es' (DirNode [] []) = Inr e" "y = hex_of (encode_directory h fmt e)"
    by (auto simp: git_tree_oid_def bindR_eq_Inr)
  note files = entries_files [OF d(1)] entries_files [OF e(1)]
  have sets: "set (files_list d) = set (files_list e) \<longleftrightarrow> set es = set es'"
    unfolding files(2,4) by (simp add: inj_image_eq_iff inj_def entry_file_inject)
  have objects: "entries_objects h fmt es = hashed_objects h fmt d" "entries_objects h fmt es' = hashed_objects h fmt e"
    by (simp_all add: entries_objects_def d(1) e(1))
  have "x = y" if "set es = set es'" using same_files_same_id [OF files(1,3)] sets that d(2) e(2) by simp
  moreover have "set es = set es'" if "x = y" "\<not> collide h fmt (hashed_objects h fmt d) (hashed_objects h fmt e)"
  proof -
    have "\<not> collide h fmt (hashed_objects h fmt e) (hashed_objects h fmt d)" using that(2) unfolding collide_def by metis
    moreover have "encode_directory h fmt d = encode_directory h fmt e" using that(1) d(2) e(2) by simp
    ultimately have "set (files_list d) = set (files_list e)"
      using same_id_same_files [OF assms(1) files(1,3), of fmt] same_id_same_files [OF assms(1) files(3,1), of fmt] that(2) by (intro subset_antisym) simp_all
    then show ?thesis using sets by simp
  qed
  ultimately show ?thesis unfolding objects by blast
qed

text \<open>C30: an id is calculated for exactly those entries whose paths are valid and distinct and where no path is a directory of another.\<close>

theorem git_tree_accepts:
  "is_ok (git_tree_oid h es fmt) \<longleftrightarrow> list_all (\<lambda>e. is_ok (validate_git_path (gi_path e))) es \<and> distinct (map gi_path es)
    \<and> list_all (\<lambda>e. list_all (\<lambda>f. \<not> path_clash (split_on 47 (gi_path f)) (split_on 47 (gi_path e))) es) es"
  using insert_entries_ok [of "DirNode [] []" "[]" es]
  by (simp add: git_tree_oid_def files_list.simps wf_dir.simps list_all_iff)

definition sample_git_hash :: git_hash where
  "sample_git_hash fmt bs = take (case fmt of Sha1 \<Rightarrow> 20 | Sha256 \<Rightarrow> 32) (bs @ replicate 32 0)"

definition sample_entries :: "git_entry list" where
  "sample_entries = [\<lparr>gi_path = js ''src/a.ts'', gi_mode = RegularMode, gi_content = [1, 2]\<rparr>, \<lparr>gi_path = js ''run'', gi_mode = ExecutableMode, gi_content = []\<rparr>]"

lemma sample_entries_ids: "is_ok (git_tree_oid sample_git_hash sample_entries Sha1)" "is_ok (git_tree_oid sample_git_hash (rev sample_entries) Sha1)"
proof -
  have valid: "is_ok (validate_git_path (js ''src/a.ts''))" "is_ok (validate_git_path (js ''run''))"
    by (simp_all add: validate_git_path_def max_git_path_bytes_def) code_simp+
  have split: "split_on 47 (js ''src/a.ts'') = [js ''src'', js ''a.ts'']" "split_on 47 (js ''run'') = [js ''run'']" by code_simp+
  show "is_ok (git_tree_oid sample_git_hash sample_entries Sha1)" "is_ok (git_tree_oid sample_git_hash (rev sample_entries) Sha1)"
    using insert_entries_ok [of "DirNode [] []" "[]" sample_entries] insert_entries_ok [of "DirNode [] []" "[]" "rev sample_entries"]
    by (simp_all add: git_tree_oid_def files_list.simps wf_dir.simps) (simp_all add: sample_entries_def valid split path_clash_def)
qed

lemma git_tree_identifies_witness: "git_tree_oid sample_git_hash sample_entries Sha1 = git_tree_oid sample_git_hash (rev sample_entries) Sha1"
proof -
  have "git_hash_lengths sample_git_hash" by (auto simp: git_hash_lengths_def sample_git_hash_def)
  moreover obtain x y where "git_tree_oid sample_git_hash sample_entries Sha1 = Inr x" "git_tree_oid sample_git_hash (rev sample_entries) Sha1 = Inr y"
    using sample_entries_ids by (auto simp: is_ok_iff)
  ultimately show ?thesis using git_tree_identifies [of sample_git_hash sample_entries Sha1 x "rev sample_entries" y] by simp
qed

end
