(* ===== verification/SourceBundle.thy ===== *)
theory SourceBundle
  imports GitTree OwnerWire
begin

unbundle bit_operations_syntax

text \<open>
  packages/app/src/runner-source-bundle.ts: the one binary form in which a runner receives source. A bundle is a
  canonical JSON header and length-prefixed entries in byte order of their paths, between a magic and a footer;
  the header names the Git tree, the manifest and a digest of the entries.
\<close>

section \<open>Bytes\<close>

text \<open>\<open>writeUInt32BE\<close> and \<open>writeBigUInt64BE\<close>, and reading them.\<close>

fun be_bytes :: "nat \<Rightarrow> nat \<Rightarrow> byte list" where
  "be_bytes 0 n = []"
| "be_bytes (Suc k) n = of_nat (n div 256 ^ k mod 256) # be_bytes k n"

fun be_value :: "byte list \<Rightarrow> nat" where
  "be_value [] = 0"
| "be_value (b # bs) = unat b * 256 ^ length bs + be_value bs"

definition bundle_magic :: "byte list" where
  "bundle_magic = utf8 (js ''API-MIGRATOR-SOURCE-BUNDLE'') @ [0] @ utf8 (js ''V1'') @ [10]"

definition bundle_footer :: "byte list" where
  "bundle_footer = [10] @ utf8 (js ''API-MIGRATOR-SOURCE-BUNDLE-END'') @ [0] @ utf8 (js ''V1'')"

definition max_source_entries :: nat where "max_source_entries = 50000"
definition max_source_total_bytes :: nat where "max_source_total_bytes = 536870912"
definition max_source_file_bytes :: nat where "max_source_file_bytes = 268435456"
definition max_canonical_manifest_bytes :: nat where "max_canonical_manifest_bytes = 262144"
definition max_header_bytes :: nat where "max_header_bytes = 524288"
definition max_path_bytes :: nat where "max_path_bytes = 4096"
definition frame_prefix_bytes :: nat where "frame_prefix_bytes = 13"

definition max_bundle_bytes :: nat where
  "max_bundle_bytes = max_source_total_bytes + max_source_entries * (max_path_bytes + frame_prefix_bytes) + max_header_bytes
     + length bundle_magic + length bundle_footer + 4"

text \<open>\<open>decodeUtf8\<close>.\<close>

definition decode_text :: "byte list \<Rightarrow> jsstr result" where
  "decode_text bytes = (let text = utf8_decode bytes in
     if utf8 text \<noteq> bytes then throw ''not valid UTF-8'' else thenR (assert_valid_unicode text) (Inr text))"

section \<open>The header\<close>

record bundle_repository =
  br_slug :: jsstr
  br_id :: int
  br_owner_id :: int

record bundle_base =
  bb_branch :: jsstr
  bb_sha :: jsstr
  bb_tree_sha :: jsstr

record bundle_manifest =
  bm_canonical_json :: jsstr
  bm_byte_length :: int
  bm_digest :: jsstr

record bundle_header =
  bh_repository :: bundle_repository
  bh_base :: bundle_base
  bh_object_format :: git_format
  bh_manifest :: bundle_manifest
  bh_entry_count :: int
  bh_total_file_bytes :: int
  bh_entries_digest :: jsstr

definition format_text :: "git_format \<Rightarrow> jsstr" where
  "format_text f = (case f of Sha1 \<Rightarrow> js ''sha1'' | Sha256 \<Rightarrow> js ''sha256'')"

definition repository_fields :: "bundle_repository \<Rightarrow> jsval" where
  "repository_fields r = obj [(js ''slug'', JStr (br_slug r)), (js ''id'', jint (br_id r)), (js ''ownerId'', jint (br_owner_id r))]"

definition base_fields :: "bundle_base \<Rightarrow> git_format \<Rightarrow> jsval" where
  "base_fields b f = obj [(js ''branch'', JStr (bb_branch b)), (js ''sha'', JStr (bb_sha b)), (js ''treeSha'', JStr (bb_tree_sha b)),
     (js ''objectFormat'', JStr (format_text f))]"

definition manifest_fields :: "bundle_manifest \<Rightarrow> jsval" where
  "manifest_fields m = obj [(js ''canonicalJson'', JStr (bm_canonical_json m)), (js ''byteLength'', jint (bm_byte_length m)),
     (js ''digest'', JStr (bm_digest m))]"

definition header_value :: "bundle_header \<Rightarrow> jsval" where
  "header_value b = obj [
     (js ''schemaVersion'', jint 1),
     (js ''repository'', repository_fields (bh_repository b)),
     (js ''base'', base_fields (bh_base b) (bh_object_format b)),
     (js ''manifest'', manifest_fields (bh_manifest b)),
     (js ''entryCount'', jint (bh_entry_count b)),
     (js ''totalFileBytes'', jint (bh_total_file_bytes b)),
     (js ''entriesDigest'', JStr (bh_entries_digest b))]"

text \<open>\<open>record\<close>, \<open>exactKeys\<close>, \<open>positiveInteger\<close> and \<open>validDigest\<close>.\<close>

definition sb_record :: "jsval \<Rightarrow> string \<Rightarrow> jsval result" where
  "sb_record v label = (case v of JObj _ _ \<Rightarrow> Inr v | _ \<Rightarrow> throw (label @ '' must be an object''))"

definition sb_exact_keys :: "jsval \<Rightarrow> string list \<Rightarrow> string \<Rightarrow> unit result" where
  "sb_exact_keys v keys label = throw_if (sort (keys_of v) \<noteq> sort (map js keys)) (label @ '' contains missing or unsupported fields'')"

definition sb_positive_integer :: "jsval \<Rightarrow> string \<Rightarrow> bool \<Rightarrow> int result" where
  "sb_positive_integer v label allow_zero = (case v of
     JNum x \<Rightarrow> (let n = (case x of JInt n \<Rightarrow> n | _ \<Rightarrow> 0) in
       if \<not> is_safe_integer x \<or> (if allow_zero then n < 0 else n \<le> 0) then throw (''Source bundle '' @ label @ '' is invalid'') else Inr n)
   | _ \<Rightarrow> throw (''Source bundle '' @ label @ '' is invalid''))"

definition sb_digest :: "jsval \<Rightarrow> string \<Rightarrow> jsstr result" where
  "sb_digest v label = (case v of JStr s \<Rightarrow> if is_digest s then Inr s else throw (''Source bundle '' @ label @ '' is invalid'')
     | _ \<Rightarrow> throw (''Source bundle '' @ label @ '' is invalid''))"

definition sb_string :: "jsval \<Rightarrow> string \<Rightarrow> jsstr result" where
  "sb_string v m = (case v of JStr s \<Rightarrow> Inr s | _ \<Rightarrow> throw m)"

definition sb_validate_repository :: "jsval \<Rightarrow> bundle_repository result" where
  "sb_validate_repository v =
     bindR (sb_record v ''source repository'') (\<lambda>root.
     thenR (sb_exact_keys root [''slug'', ''id'', ''ownerId''] ''source repository'')
    (bindR (sb_string (get root (js ''slug'')) ''Source repository slug must be canonical lowercase owner/repo'') (\<lambda>slug.
     thenR (throw_if (slug \<noteq> to_lower slug) ''Source repository slug must be canonical lowercase owner/repo'')
    (thenR (throw_if (case split_on 47 slug of
         [owner, repo] \<Rightarrow> \<not> owner_re owner \<or> has_sub (js ''--'') owner \<or> \<not> repository_re repo \<or> repo = js ''.'' \<or> repo = js ''..'' \<or> ends_with (js ''.git'') repo
       | _ \<Rightarrow> True) ''Source repository slug is invalid'')
    (bindR (sb_positive_integer (get root (js ''id'')) ''repository id'' False) (\<lambda>i.
     bindR (sb_positive_integer (get root (js ''ownerId'')) ''repository owner id'' False) (\<lambda>owner_id.
     Inr \<lparr>br_slug = slug, br_id = i, br_owner_id = owner_id\<rparr>)))))))"

definition sb_validate_branch :: "jsstr \<Rightarrow> jsstr result" where
  "sb_validate_branch v =
     (if length v = 0 \<or> 240 < length v \<or> v \<noteq> trim v \<or> v = js ''@''
         \<or> starts_with (js ''-'') v \<or> starts_with (js ''/'') v \<or> ends_with (js ''/'') v
         \<or> ends_with (js ''.'') v \<or> ends_with (js ''.lock'') v
         \<or> has_sub (js ''..'') v \<or> has_sub (js [CHR 0x40, CHR 0x7B]) v \<or> list_ex branch_forbidden v
         \<or> list_ex (\<lambda>part. part = [] \<or> starts_with (js ''.'') part \<or> ends_with (js ''.'') part) (split_on 47 v)
      then throw ''Source base branch is invalid'' else Inr v)"

definition sb_has :: "jsval \<Rightarrow> jsstr \<Rightarrow> bool" where
  "sb_has v k \<longleftrightarrow> (case v of JObj _ ps \<Rightarrow> map_of ps (PStr k) \<noteq> None | _ \<Rightarrow> False)"

definition sb_validate_base :: "jsval \<Rightarrow> bundle_base result" where
  "sb_validate_base v =
     bindR (sb_record v ''source base'') (\<lambda>root.
     thenR (throw_if (\<not> list_all (\<lambda>k. sb_has root (js k)) [''branch'', ''sha'', ''treeSha'']) ''Source base is missing a member'')
    (bindR (sb_string (get root (js ''branch'')) ''Source base branch is invalid'') (\<lambda>b.
     bindR (sb_validate_branch b) (\<lambda>branch.
     bindR (sb_string (get root (js ''sha'')) ''Source base object ids are invalid'') (\<lambda>sha.
     bindR (sb_string (get root (js ''treeSha'')) ''Source base object ids are invalid'') (\<lambda>tree_sha.
     bindR (git_object_format_from_oid sha) (\<lambda>format.
     bindR (git_object_format_from_oid tree_sha) (\<lambda>tree_format.
     if tree_format \<noteq> format then throw ''Source base commit and tree use different object formats''
     else Inr \<lparr>bb_branch = branch, bb_sha = sha, bb_tree_sha = tree_sha\<rparr>))))))))"

text \<open>\<open>canonicalJson\<close> of this file is a copy of the shared one and differs from it in its messages only.\<close>

abbreviation sb_canonical_json :: "jsval \<Rightarrow> jsstr result" where
  "sb_canonical_json \<equiv> canonical_json"

definition sb_parse_canonical_json :: "jsstr \<Rightarrow> string \<Rightarrow> jsval result" where
  "sb_parse_canonical_json text label = (case json_parse text of
     None \<Rightarrow> throw (label @ '' is not valid JSON'')
   | Some parsed \<Rightarrow> bindR (sb_canonical_json parsed) (\<lambda>canonical.
       if canonical \<noteq> text then throw (label @ '' is not canonical JSON, including duplicate keys'') else Inr parsed))"

definition sb_validate_manifest :: "jsval \<Rightarrow> jsstr result" where
  "sb_validate_manifest v = (case v of
     JStr s \<Rightarrow>
       (if s = [] \<or> max_canonical_manifest_bytes < byte_length s then throw ''Source manifest is missing or exceeds its byte limit''
        else bindR (sb_parse_canonical_json s ''source manifest'') (\<lambda>parsed.
          case parsed of JObj _ _ \<Rightarrow> Inr s | _ \<Rightarrow> throw ''Source manifest must be a canonical JSON object''))
   | _ \<Rightarrow> throw ''Source manifest is missing or exceeds its byte limit'')"

definition sb_format :: "jsval \<Rightarrow> git_format result" where
  "sb_format v = (if v = JStr (js ''sha1'') then Inr Sha1 else if v = JStr (js ''sha256'') then Inr Sha256
     else throw ''Source base object format is unsupported'')"

definition validate_header :: "hash \<Rightarrow> jsval \<Rightarrow> bundle_header result" where
  "validate_header h v =
     bindR (sb_record v ''source bundle header'') (\<lambda>root.
     thenR (sb_exact_keys root [''schemaVersion'', ''repository'', ''base'', ''manifest'', ''entryCount'', ''totalFileBytes'', ''entriesDigest''] ''source bundle header'')
    (thenR (throw_if (get root (js ''schemaVersion'') \<noteq> jint 1) ''Source bundle schema version is unsupported'')
    (bindR (sb_record (get root (js ''repository'')) ''source repository'') (\<lambda>repository_root.
     bindR (sb_validate_repository repository_root) (\<lambda>repository.
     bindR (sb_record (get root (js ''base'')) ''source base'') (\<lambda>base_root.
     thenR (sb_exact_keys base_root [''branch'', ''sha'', ''treeSha'', ''objectFormat''] ''source base'')
    (bindR (sb_validate_base base_root) (\<lambda>base.
     bindR (sb_format (get base_root (js ''objectFormat''))) (\<lambda>object_format.
     bindR (git_object_format_from_oid (bb_sha base)) (\<lambda>format.
     thenR (throw_if (object_format \<noteq> format) ''Source base object format does not match its commit id'')
    (bindR (sb_record (get root (js ''manifest'')) ''source manifest'') (\<lambda>manifest_root.
     thenR (sb_exact_keys manifest_root [''canonicalJson'', ''byteLength'', ''digest''] ''source manifest'')
    (bindR (sb_validate_manifest (get manifest_root (js ''canonicalJson''))) (\<lambda>manifest_json.
     bindR (sb_positive_integer (get manifest_root (js ''byteLength'')) ''manifest byte length'' True) (\<lambda>manifest_length.
     bindR (sb_digest (get manifest_root (js ''digest'')) ''manifest digest'') (\<lambda>manifest_digest.
     thenR (throw_if (manifest_length \<noteq> int (byte_length manifest_json) \<or> manifest_digest \<noteq> sha256 h (utf8 manifest_json))
       ''Source manifest byte length or digest does not match its canonical bytes'')
    (bindR (sb_positive_integer (get root (js ''entryCount'')) ''entry count'' True) (\<lambda>entry_count.
     bindR (sb_positive_integer (get root (js ''totalFileBytes'')) ''total file bytes'' True) (\<lambda>total.
     thenR (throw_if (int max_source_entries < entry_count \<or> int max_source_total_bytes < total) ''Source bundle header exceeds entry or byte limits'')
    (bindR (sb_digest (get root (js ''entriesDigest'')) ''entries digest'') (\<lambda>entries_digest.
     Inr \<lparr>bh_repository = repository, bh_base = base, bh_object_format = object_format,
       bh_manifest = \<lparr>bm_canonical_json = manifest_json, bm_byte_length = manifest_length, bm_digest = manifest_digest\<rparr>,
       bh_entry_count = entry_count, bh_total_file_bytes = total, bh_entries_digest = entries_digest\<rparr>)))))))))))))))))))))"

section \<open>Entries\<close>

definition mode_byte :: "git_mode \<Rightarrow> byte" where
  "mode_byte m = (case m of RegularMode \<Rightarrow> 0 | ExecutableMode \<Rightarrow> 1)"

definition entry_frame :: "git_entry \<Rightarrow> byte list" where
  "entry_frame e = be_bytes 4 (byte_length (gi_path e)) @ [mode_byte (gi_mode e)] @ be_bytes 8 (length (gi_content e))
     @ utf8 (gi_path e) @ gi_content e"

text \<open>\<open>encodeEntries\<close>: the frames and the sum of the content lengths; \<open>used\<close> is the sum so far.\<close>

fun encode_entries :: "nat \<Rightarrow> git_entry list \<Rightarrow> (byte list list \<times> nat) result" where
  "encode_entries used [] = Inr ([], used)"
| "encode_entries used (e # es) =
     bindR (validate_git_path (gi_path e)) (\<lambda>path.
       if byte_length path = 0 \<or> max_path_bytes < byte_length path then throw ''Source entry path exceeds its byte limit''
       else if max_source_file_bytes < length (gi_content e) then throw ''Source entry exceeds its file byte limit''
       else if max_source_total_bytes < used + length (gi_content e) then throw ''Source bundle exceeds its total file byte limit''
       else bindR (encode_entries (used + length (gi_content e)) es) (\<lambda>(frames, sum). Inr (entry_frame e # frames, sum)))"

text \<open>
  The loop of \<open>parseSourceBundle\<close> on what is left of the bytes: \<open>n\<close> more entries, the previous path and the sum so far.
  The result has the entries, their frames, the sum and the rest.
\<close>

fun parse_entries :: "nat \<Rightarrow> byte list option \<Rightarrow> nat \<Rightarrow> byte list \<Rightarrow> (git_entry list \<times> byte list list \<times> nat \<times> byte list) result" where
  "parse_entries 0 previous used bytes = Inr ([], [], used, bytes)"
| "parse_entries (Suc n) previous used bytes =
     (if length bytes < frame_prefix_bytes then throw ''source entry prefix is truncated''
      else let path_length = be_value (take 4 bytes); mode = bytes ! 4; content_length = be_value (take 8 (drop 5 bytes));
               path_bytes = take path_length (drop frame_prefix_bytes bytes);
               content = take content_length (drop (frame_prefix_bytes + path_length) bytes);
               frame_end = frame_prefix_bytes + path_length + content_length in
        if path_length = 0 \<or> max_path_bytes < path_length then throw ''Source entry path length is invalid''
        else if mode \<noteq> 0 \<and> mode \<noteq> 1 then throw ''Source entry mode is unsupported''
        else if max_source_file_bytes < content_length then throw ''Source entry exceeds its file byte limit''
        else if length bytes < frame_prefix_bytes + path_length then throw ''source entry path is truncated''
        else bindR (decode_text path_bytes) (\<lambda>text. bindR (validate_git_path text) (\<lambda>path.
          if (case previous of None \<Rightarrow> False | Some p \<Rightarrow> path_bytes \<le> p) then throw ''Source entries are duplicated or not in canonical byte order''
          else if length bytes < frame_end then throw ''source entry content is truncated''
          else if max_source_total_bytes < used + content_length then throw ''Source bundle exceeds its total file byte limit''
          else bindR (parse_entries n (Some path_bytes) (used + content_length) (drop frame_end bytes)) (\<lambda>(entries, frames, sum, rest).
            Inr (\<lparr>gi_path = path, gi_mode = (if mode = 0 then RegularMode else ExecutableMode), gi_content = content\<rparr> # entries,
              take frame_end bytes # frames, sum, rest)))))"

section \<open>Bundles\<close>

record source_bundle =
  sb_header :: bundle_header
  sb_entries :: "git_entry list"
  sb_bundle_digest :: jsstr

definition parse_source_bundle :: "hash \<Rightarrow> git_hash \<Rightarrow> byte list \<Rightarrow> source_bundle result" where
  "parse_source_bundle h gh bytes =
     (if length bytes < length bundle_magic + 4 + length bundle_footer \<or> max_bundle_bytes < length bytes
      then throw ''Source bundle is truncated or exceeds its byte limit''
      else if take (length bundle_magic) bytes \<noteq> bundle_magic then throw ''source bundle magic is invalid''
      else let header_length = be_value (take 4 (drop (length bundle_magic) bytes)); after = drop (length bundle_magic + 4) bytes in
        if header_length = 0 \<or> max_header_bytes < header_length then throw ''Source bundle header length is invalid''
        else if length after < header_length then throw ''source bundle header is truncated''
        else bindR (decode_text (take header_length after)) (\<lambda>header_text.
          bindR (sb_parse_canonical_json header_text ''source bundle header'') (\<lambda>root.
          bindR (validate_header h root) (\<lambda>header.
          bindR (parse_entries (nat (bh_entry_count header)) None 0 (drop header_length after)) (\<lambda>(entries, frames, total, rest).
            if length rest < length bundle_footer then throw ''source bundle footer is truncated''
            else if take (length bundle_footer) rest \<noteq> bundle_footer then throw ''source bundle footer is invalid''
            else if length rest \<noteq> length bundle_footer then throw ''Source bundle has trailing bytes''
            else if int (length entries) \<noteq> bh_entry_count header \<or> int total \<noteq> bh_total_file_bytes header
            then throw ''Source bundle entry count or byte total does not match its header''
            else if sha256 h (concat frames) \<noteq> bh_entries_digest header then throw ''Source bundle entry digest does not match its header''
            else bindR (git_tree_oid gh entries (bh_object_format header)) (\<lambda>tree.
              if tree \<noteq> bb_tree_sha (bh_base header) then throw ''Source bundle entries do not match the approved Git tree''
              else Inr \<lparr>sb_header = header, sb_entries = entries, sb_bundle_digest = sha256 h bytes\<rparr>))))))"

text \<open>
  \<open>createSourceBundle\<close> after the checkout was validated: \<open>entries\<close> are the tracked entries in byte order.
  The record has the bytes, their digest and the header.
\<close>

definition bundle_bytes :: "jsstr \<Rightarrow> byte list list \<Rightarrow> byte list" where
  "bundle_bytes header_text frames =
     bundle_magic @ be_bytes 4 (byte_length header_text) @ utf8 header_text @ concat frames @ bundle_footer"

definition create_source_bundle :: "hash \<Rightarrow> git_hash \<Rightarrow> jsval \<Rightarrow> jsval \<Rightarrow> jsval \<Rightarrow> (bundle_base \<Rightarrow> git_format \<Rightarrow> git_entry list result)
    \<Rightarrow> (byte list \<times> jsstr \<times> bundle_header) result" where
  "create_source_bundle h gh repository_input base_input manifest_input tracked =
     bindR (sb_validate_repository repository_input) (\<lambda>repository.
     bindR (sb_validate_base base_input) (\<lambda>base.
     bindR (sb_validate_manifest manifest_input) (\<lambda>manifest_json.
     bindR (git_object_format_from_oid (bb_sha base)) (\<lambda>format.
     bindR (tracked base format) (\<lambda>entries.
     bindR (git_tree_oid gh entries format) (\<lambda>tree.
     if tree \<noteq> bb_tree_sha base then throw ''Tracked checkout bytes and modes do not match the approved base tree''
     else bindR (encode_entries 0 entries) (\<lambda>(frames, total).
       let header = \<lparr>bh_repository = repository, bh_base = base, bh_object_format = format,
         bh_manifest = \<lparr>bm_canonical_json = manifest_json, bm_byte_length = int (byte_length manifest_json), bm_digest = sha256 h (utf8 manifest_json)\<rparr>,
         bh_entry_count = int (length entries), bh_total_file_bytes = int total, bh_entries_digest = sha256 h (concat frames)\<rparr> in
       bindR (sb_canonical_json (header_value header)) (\<lambda>header_text.
         if byte_length header_text = 0 \<or> max_header_bytes < byte_length header_text then throw ''Source bundle header exceeds its byte limit''
         else let bytes = bundle_bytes header_text frames in
           if max_bundle_bytes < length bytes then throw ''Source bundle exceeds its byte limit''
           else Inr (bytes, sha256 h bytes, header)))))))))"

section \<open>Tracked entries\<close>

text \<open>\<open>splitNul\<close>.\<close>

fun nul_parts :: "byte list \<Rightarrow> byte list \<Rightarrow> byte list list result" where
  "nul_parts current [] = Inr []"
| "nul_parts current (b # bs) =
     (if b \<noteq> 0 then nul_parts (current @ [b]) bs
      else if current = [] then throw ''Git index output contains an empty entry''
      else bindR (nul_parts [] bs) (\<lambda>rest. Inr (current # rest)))"

definition split_nul :: "byte list \<Rightarrow> byte list list result" where
  "split_nul value = (if value = [] then Inr [] else if last value \<noteq> 0 then throw ''Git index output is not NUL terminated'' else nul_parts [] value)"

text \<open>
  The loop of \<open>readTrackedEntries\<close> over the records of the index. \<open>read\<close> is \<open>readTrackedFile\<close>, which checks the file's mode
  and that it does not change while it is read. The text of the metadata is \<open>mode oid stage\<close>.
\<close>

definition index_metadata :: "jsstr \<Rightarrow> (jsstr \<times> jsstr \<times> jsstr) option" where
  "index_metadata s = (case split_on 32 s of
     [mode, oid, stage] \<Rightarrow>
       if mode \<in> {js ''100644'', js ''100755'', js ''120000'', js ''160000''} \<and> is_git_sha oid \<and> stage \<in> {js ''0'', js ''1'', js ''2'', js ''3''}
       then Some (mode, oid, stage) else None
   | _ \<Rightarrow> None)"

definition ascii_text :: "byte list \<Rightarrow> jsstr" where
  "ascii_text bs = map (\<lambda>b. ucast (b AND 0x7F)) bs"

definition tracked_entry :: "git_hash \<Rightarrow> (jsstr \<Rightarrow> git_mode \<Rightarrow> byte list result) \<Rightarrow> git_format \<Rightarrow> jsstr list \<Rightarrow> byte list \<Rightarrow> git_entry result" where
  "tracked_entry gh read format seen entry =
     (let meta = takeWhile (\<lambda>b. b \<noteq> 9) entry; after = drop (length meta) entry in
      if after = [] \<or> meta = [] \<or> tl after = [] then throw ''Git returned a malformed index entry''
      else case index_metadata (ascii_text meta) of
        None \<Rightarrow> throw ''Git returned an unsupported index entry''
      | Some (mode, oid, stage) \<Rightarrow>
          if stage \<noteq> js ''0'' then throw ''Source bundle rejects unmerged index stages''
          else if mode \<noteq> js ''100644'' \<and> mode \<noteq> js ''100755'' then throw ''Source bundle rejects symlinks, submodules, and non-regular Git modes''
          else bindR (git_object_format_from_oid oid) (\<lambda>indexed_format.
            if indexed_format \<noteq> format then throw ''Git index object format is inconsistent''
            else bindR (decode_text (tl after)) (\<lambda>text. bindR (validate_git_path text) (\<lambda>path.
              if path \<in> set seen then throw ''Source bundle contains duplicate tracked path''
              else let git_mode = (if mode = js ''100644'' then RegularMode else ExecutableMode) in
                bindR (read path git_mode) (\<lambda>content.
                  if git_blob_oid gh content format \<noteq> oid then throw ''Tracked file changed after clean-checkout validation''
                  else Inr \<lparr>gi_path = path, gi_mode = git_mode, gi_content = content\<rparr>)))))"

fun tracked_loop :: "git_hash \<Rightarrow> (jsstr \<Rightarrow> git_mode \<Rightarrow> byte list result) \<Rightarrow> git_format \<Rightarrow> jsstr list \<Rightarrow> nat \<Rightarrow> byte list list \<Rightarrow> git_entry list result" where
  "tracked_loop gh read format seen used [] = Inr []"
| "tracked_loop gh read format seen used (r # rs) =
     bindR (tracked_entry gh read format seen r) (\<lambda>e.
       if max_source_total_bytes < used + length (gi_content e) then throw ''Source bundle exceeds its total file byte limit''
       else bindR (tracked_loop gh read format (gi_path e # seen) (used + length (gi_content e)) rs) (\<lambda>es. Inr (e # es)))"

definition read_tracked_entries :: "git_hash \<Rightarrow> (jsstr \<Rightarrow> git_mode \<Rightarrow> byte list result) \<Rightarrow> byte list \<Rightarrow> git_format \<Rightarrow> git_entry list result" where
  "read_tracked_entries gh read raw format =
     bindR (split_nul raw) (\<lambda>records.
       if max_source_entries < length records then throw ''Source bundle exceeds 50000 tracked entries''
       else bindR (tracked_loop gh read format [] 0 records) (\<lambda>entries. Inr (sort_key (\<lambda>e. utf8 (gi_path e)) entries)))"

section \<open>The checkout\<close>

text \<open>
  What the code sees of the machine: \<open>git\<close> with its working directory and arguments (\<open>None\<close> when it fails), \<open>lstat\<close>,
  \<open>realpath\<close> and \<open>resolve\<close>, and a file opened without following links, with its status before and after its bytes were read.
\<close>

record source_stat =
  ss_is_file :: bool
  ss_is_directory :: bool
  ss_is_link :: bool
  ss_nlink :: int
  ss_mode :: nat
  ss_size :: nat
  ss_dev :: int
  ss_ino :: int
  ss_mtime :: int

record checkout_env =
  ce_git :: "jsstr \<Rightarrow> string list \<Rightarrow> byte list option"
  ce_lstat :: "jsstr \<Rightarrow> source_stat option"
  ce_realpath :: "jsstr \<Rightarrow> jsstr option"
  ce_resolve :: "jsstr \<Rightarrow> jsstr"
  ce_open :: "jsstr \<Rightarrow> (source_stat \<times> byte list \<times> source_stat) option"

definition or_throw :: "'a option \<Rightarrow> string \<Rightarrow> 'a result" where
  "or_throw r m = (case r of None \<Rightarrow> throw m | Some x \<Rightarrow> Inr x)"

definition git_bytes :: "checkout_env \<Rightarrow> jsstr \<Rightarrow> string list \<Rightarrow> byte list result" where
  "git_bytes e cwd args = or_throw (ce_git e cwd args) ''Git source-bundle operation failed''"

definition git_text :: "checkout_env \<Rightarrow> jsstr \<Rightarrow> string list \<Rightarrow> jsstr result" where
  "git_text e cwd args = bindR (git_bytes e cwd args) (\<lambda>bs. bindR (decode_text bs) (\<lambda>v.
     if v = [] \<or> last v \<noteq> 10 \<or> 10 \<in> set (butlast v) then throw ''Git source-bundle operation returned an unexpected result'' else Inr (butlast v)))"

definition validate_clean_checkout :: "checkout_env \<Rightarrow> jsstr \<Rightarrow> bundle_base \<Rightarrow> jsstr result" where
  "validate_clean_checkout e checkout_path base =
     (if checkout_path = [] then throw ''Source bundle checkout path is required''
      else bindR (or_throw (ce_realpath e (ce_resolve e checkout_path)) ''ENOENT'') (\<lambda>checkout.
        bindR (or_throw (ce_lstat e checkout) ''ENOENT'') (\<lambda>stat.
        if \<not> ss_is_directory stat \<or> ss_is_link stat then throw ''Source bundle checkout must be a real directory''
        else bindR (git_text e checkout [''rev-parse'', ''--show-toplevel'']) (\<lambda>top.
          bindR (or_throw (ce_realpath e top) ''ENOENT'') (\<lambda>real_top.
          if real_top \<noteq> checkout then throw ''Source bundle checkout must be the Git top level''
          else bindR (git_bytes e checkout [''status'', ''--porcelain=v1'', ''-z'', ''--untracked-files=all'']) (\<lambda>status.
            if status \<noteq> [] then throw ''Source bundle checkout must have a clean tracked and untracked working tree''
            else bindR (git_text e checkout [''rev-parse'', ''HEAD'']) (\<lambda>head.
              bindR (git_text e checkout [''rev-parse'', ''HEAD^{tree}'']) (\<lambda>tree.
              if head \<noteq> bb_sha base \<or> tree \<noteq> bb_tree_sha base then throw ''Source bundle checkout does not match the approved base commit and tree''
              else bindR (case git_text e checkout [''rev-parse'', ''--show-object-format''] of Inr f \<Rightarrow> Inr f
                  | Inl _ \<Rightarrow> bindR (git_object_format_from_oid head) (\<lambda>f. Inr (format_text f))) (\<lambda>reported.
                bindR (git_object_format_from_oid (bb_sha base)) (\<lambda>format.
                if reported \<noteq> format_text format then throw ''Source bundle checkout Git object format does not match the approved base''
                else Inr checkout))))))))))"

text \<open>\<open>join\<close> on a canonical root and a name, \<open>assertNoSymlinkComponents\<close> and \<open>readTrackedFile\<close>.\<close>

definition join_component :: "jsstr \<Rightarrow> jsstr \<Rightarrow> jsstr" where
  "join_component root name = (if ends_with [47] root then root @ name else root @ 47 # name)"

fun walk_components :: "checkout_env \<Rightarrow> jsstr \<Rightarrow> jsstr list \<Rightarrow> jsstr result" where
  "walk_components e current [] = Inr current"
| "walk_components e current (part # parts) =
     bindR (or_throw (ce_lstat e (join_component current part)) ''ENOENT'') (\<lambda>stat.
       if ss_is_link stat then throw ''Tracked source traverses a symlink'' else walk_components e (join_component current part) parts)"

definition no_symlink_components :: "checkout_env \<Rightarrow> jsstr \<Rightarrow> jsstr \<Rightarrow> unit result" where
  "no_symlink_components e root path =
     bindR (walk_components e root (split_on 47 path)) (\<lambda>current.
     bindR (or_throw (ce_realpath e current) ''ENOENT'') (\<lambda>real.
     throw_if (real \<noteq> root \<and> \<not> starts_with (root @ [47]) real) ''Tracked source escapes the checkout''))"

definition read_tracked_file :: "checkout_env \<Rightarrow> jsstr \<Rightarrow> jsstr \<Rightarrow> git_mode \<Rightarrow> byte list result" where
  "read_tracked_file e checkout path mode =
     thenR (no_symlink_components e checkout path)
    (bindR (or_throw (ce_open e (foldl join_component checkout (split_on 47 path))) ''ENOENT'') (\<lambda>(before, content, after).
       if \<not> ss_is_file before \<or> ss_is_link before \<or> ss_nlink before \<noteq> 1 then throw ''Tracked source must be a one-link regular file''
       else if ss_mode before AND 0xE00 \<noteq> 0 \<or> max_source_file_bytes < ss_size before then throw ''Tracked source has unsupported mode or size''
       else if (if ss_mode before AND 0x49 = 0 then RegularMode else ExecutableMode) \<noteq> mode then throw ''Tracked source mode differs from the Git index''
       else if ss_dev before \<noteq> ss_dev after \<or> ss_ino before \<noteq> ss_ino after \<or> ss_size before \<noteq> ss_size after
           \<or> ss_mtime before \<noteq> ss_mtime after \<or> length content \<noteq> ss_size before
       then throw ''Tracked source changed while it was read'' else Inr content))"

definition tracked_entries :: "git_hash \<Rightarrow> checkout_env \<Rightarrow> jsstr \<Rightarrow> git_format \<Rightarrow> git_entry list result" where
  "tracked_entries gh e checkout format =
     bindR (git_bytes e checkout [''ls-files'', ''--cached'', ''--stage'', ''--full-name'', ''-z'']) (\<lambda>raw.
       read_tracked_entries gh (read_tracked_file e checkout) raw format)"

text \<open>\<open>createSourceBundle\<close> on a checkout.\<close>

definition bundle_checkout :: "hash \<Rightarrow> git_hash \<Rightarrow> checkout_env \<Rightarrow> jsstr \<Rightarrow> jsval \<Rightarrow> jsval \<Rightarrow> jsval \<Rightarrow> (byte list \<times> jsstr \<times> bundle_header) result" where
  "bundle_checkout h gh e checkout_path repository base manifest =
     create_source_bundle h gh repository base manifest
       (\<lambda>b f. bindR (validate_clean_checkout e checkout_path b) (\<lambda>checkout. tracked_entries gh e checkout f))"

section \<open>Parsed bundles\<close>

text \<open>\<open>validateParsedSourceBundle\<close>: a parsed bundle from elsewhere, with its header as a value.\<close>

fun check_order :: "byte list option \<Rightarrow> git_entry list \<Rightarrow> git_entry list result" where
  "check_order previous [] = Inr []"
| "check_order previous (e # es) =
     bindR (validate_git_path (gi_path e)) (\<lambda>path.
       if (case previous of None \<Rightarrow> False | Some p \<Rightarrow> utf8 path \<le> p) then throw ''Parsed source entries are duplicated or not in canonical byte order''
       else bindR (check_order (Some (utf8 path)) es) (\<lambda>rest. Inr (e\<lparr>gi_path := path\<rparr> # rest)))"

definition validate_parsed_bundle :: "hash \<Rightarrow> git_hash \<Rightarrow> jsval \<Rightarrow> git_entry list \<Rightarrow> jsval \<Rightarrow> source_bundle result" where
  "validate_parsed_bundle h gh header_input raw digest =
     bindR (validate_header h header_input) (\<lambda>header.
     bindR (check_order None raw) (\<lambda>entries.
     bindR (encode_entries 0 entries) (\<lambda>(frames, total).
       if int (length entries) \<noteq> bh_entry_count header \<or> int total \<noteq> bh_total_file_bytes header \<or> sha256 h (concat frames) \<noteq> bh_entries_digest header
       then throw ''Parsed source bundle does not match its header''
       else bindR (git_tree_oid gh entries (bh_object_format header)) (\<lambda>tree.
         if tree \<noteq> bb_tree_sha (bh_base header) then throw ''Parsed source bundle does not match its header''
         else bindR (sb_digest digest ''parsed bundle digest'') (\<lambda>d. Inr \<lparr>sb_header = header, sb_entries = entries, sb_bundle_digest = d\<rparr>)))))"

end
