(* ===== verification/SourceBundleFacts.thy ===== *)
theory SourceBundleFacts
  imports SourceBundle
begin

text \<open>
  The parts of a bundle read back what was written: big-endian numbers, entry frames, the list of entries and the header.
\<close>

section \<open>Numbers and text\<close>

lemma length_be_bytes [simp]: "length (be_bytes k n) = k"
  by (induction k) simp_all

lemma be_value_less: "be_value bs < 256 ^ length bs"
proof (induction bs)
  case (Cons b bs)
  have "unat b * 256 ^ length bs + be_value bs < (unat b + 1) * 256 ^ length bs" using Cons by simp
  also have "\<dots> \<le> 256 * 256 ^ length bs" using unat_byte_less [of b] by (intro mult_right_mono) simp_all
  finally show ?case by simp
qed simp

lemma be_value_bytes: "n < 256 ^ k \<Longrightarrow> be_value (be_bytes k n) = n"
proof (induction k arbitrary: n)
  case (Suc k)
  have "be_bytes k n = be_bytes k (n mod 256 ^ k)" for n
  proof (induction k arbitrary: n)
    case (Suc k)
    have "n mod 256 ^ Suc k div 256 ^ k mod 256 = n div 256 ^ k mod 256"
      by (simp add: mod_mult2_eq mult.commute [of 256] div_mult2_eq [symmetric])
    moreover have "be_bytes k (n mod 256 ^ Suc k) = be_bytes k n"
      using Suc [of n] Suc [of "n mod 256 ^ Suc k"] by (simp add: mod_mod_cancel)
    ultimately show ?case by simp
  qed simp
  then have "be_value (be_bytes k n) = n mod 256 ^ k" using Suc.IH [of "n mod 256 ^ k"] by simp
  moreover have "n div 256 ^ k < 256" using Suc.prems by (simp add: less_mult_imp_div_less mult.commute)
  ultimately show ?case by (simp add: unat_of_nat_byte div_mult_mod_eq)
qed simp

lemma be_bytes_value: "length bs = k \<Longrightarrow> be_bytes k (be_value bs) = bs"
proof (induction bs arbitrary: k)
  case (Cons b bs)
  then obtain m where k: "k = Suc m" "length bs = m" by auto
  have "be_value (b # bs) div 256 ^ m mod 256 = unat b"
    using be_value_less [of bs] unat_byte_less [of b] k(2) by simp
  moreover have "be_bytes m (unat b * 256 ^ m + be_value bs) = be_bytes m (be_value bs)"
  proof -
    have "be_bytes i (a * 256 ^ i + n) = be_bytes i n" if "i \<le> m" for i a n
      using that
    proof (induction i arbitrary: a)
      case (Suc i)
      have "be_bytes i (256 * (a * 256 ^ i) + n) = be_bytes i n" using Suc.IH [of "256 * a"] Suc.prems by (simp add: mult.assoc)
      moreover have "(256 * (a * 256 ^ i) + n) div 256 ^ i mod 256 = n div 256 ^ i mod 256"
        by (simp add: mult.assoc [symmetric])
      ultimately show ?case by (simp add: ac_simps)
    qed simp
    then show ?thesis by simp
  qed
  ultimately show ?case using Cons.IH [of m] k by simp
qed simp

lemma decode_text_eq: "decode_text bs = Inr t \<longleftrightarrow> bs = utf8 t \<and> valid_unicode t"
  using utf8_decode_encode [of t] by (auto simp: decode_text_def Let_def valid_unicode_def thenR_eq_Inr)

lemma git_path_valid: "validate_git_path v = Inr p \<Longrightarrow> p = v \<and> valid_unicode v \<and> v \<noteq> [] \<and> byte_length v \<le> max_git_path_bytes"
  by (auto simp: validate_git_path_def thenR_eq_Inr Let_def valid_unicode_def split: if_splits)

section \<open>Entries\<close>

fun ordered_after :: "byte list option \<Rightarrow> git_entry list \<Rightarrow> bool" where
  "ordered_after previous [] \<longleftrightarrow> True"
| "ordered_after previous (e # es) \<longleftrightarrow> (case previous of None \<Rightarrow> True | Some p \<Rightarrow> p < utf8 (gi_path e)) \<and> ordered_after (Some (utf8 (gi_path e))) es"

lemma entry_frame_layout:
  fixes e :: git_entry
  assumes "byte_length (gi_path e) < 256 ^ 4" "length (gi_content e) < 256 ^ 8"
  shows "length (entry_frame e) = 13 + byte_length (gi_path e) + length (gi_content e)"
    "be_value (take 4 (entry_frame e @ r)) = byte_length (gi_path e)" "(entry_frame e @ r) ! 4 = mode_byte (gi_mode e)"
    "be_value (take 8 (drop 5 (entry_frame e @ r))) = length (gi_content e)"
    "take (byte_length (gi_path e)) (drop 13 (entry_frame e @ r)) = utf8 (gi_path e)"
    "take (length (gi_content e)) (drop (13 + byte_length (gi_path e)) (entry_frame e @ r)) = gi_content e"
proof -
  have f: "entry_frame e @ r = be_bytes 4 (byte_length (gi_path e)) @ mode_byte (gi_mode e) # be_bytes 8 (length (gi_content e)) @ utf8 (gi_path e) @ gi_content e @ r"
    by (simp add: entry_frame_def)
  show "length (entry_frame e) = 13 + byte_length (gi_path e) + length (gi_content e)" by (simp add: entry_frame_def byte_length_def)
  show "be_value (take 4 (entry_frame e @ r)) = byte_length (gi_path e)" unfolding f using assms(1) by (simp add: be_value_bytes)
  show "(entry_frame e @ r) ! 4 = mode_byte (gi_mode e)" unfolding f by (simp add: nth_append)
  have d5: "drop 5 (entry_frame e @ r) = be_bytes 8 (length (gi_content e)) @ utf8 (gi_path e) @ gi_content e @ r" unfolding f by simp
  show "be_value (take 8 (drop 5 (entry_frame e @ r))) = length (gi_content e)" unfolding d5 using assms(2) by (simp add: be_value_bytes)
  have d13: "drop 13 (entry_frame e @ r) = utf8 (gi_path e) @ gi_content e @ r" unfolding f by simp
  show "take (byte_length (gi_path e)) (drop 13 (entry_frame e @ r)) = utf8 (gi_path e)" unfolding d13 by (simp add: byte_length_def)
  have "drop (13 + byte_length (gi_path e)) (entry_frame e @ r) = drop (byte_length (gi_path e)) (drop 13 (entry_frame e @ r))" by (simp only: drop_drop add.commute)
  then show "take (length (gi_content e)) (drop (13 + byte_length (gi_path e)) (entry_frame e @ r)) = gi_content e" unfolding d13 by (simp add: byte_length_def)
qed

lemma entry_sizes:
  assumes "encode_entries used (e # es) = Inr (frames, m)"
  shows "validate_git_path (gi_path e) = Inr (gi_path e)" "byte_length (gi_path e) \<noteq> 0" "byte_length (gi_path e) \<le> max_path_bytes"
    "length (gi_content e) \<le> max_source_file_bytes" "used + length (gi_content e) \<le> max_source_total_bytes"
    "\<exists>fs. frames = entry_frame e # fs \<and> encode_entries (used + length (gi_content e)) es = Inr (fs, m)"
proof -
  from assms obtain p where p: "validate_git_path (gi_path e) = Inr p" by (auto simp: bindR_eq_Inr)
  with git_path_valid have "p = gi_path e" by blast
  with p assms show "validate_git_path (gi_path e) = Inr (gi_path e)" "byte_length (gi_path e) \<noteq> 0" "byte_length (gi_path e) \<le> max_path_bytes"
    "length (gi_content e) \<le> max_source_file_bytes" "used + length (gi_content e) \<le> max_source_total_bytes"
    "\<exists>fs. frames = entry_frame e # fs \<and> encode_entries (used + length (gi_content e)) es = Inr (fs, m)"
    by (auto simp: bindR_eq_Inr split: if_splits)
qed

lemma size_limits: "n \<le> max_path_bytes \<Longrightarrow> n < 256 ^ 4" "n \<le> max_source_file_bytes \<Longrightarrow> n < 256 ^ 8"
  by (simp_all add: max_path_bytes_def max_source_file_bytes_def)

lemma parse_encoded:
  "encode_entries used es = Inr (frames, m) \<Longrightarrow> ordered_after previous es \<Longrightarrow>
    parse_entries (length es) previous used (concat frames @ r) = Inr (es, frames, m, r)"
proof (induction es arbitrary: used previous frames)
  case (Cons e es)
  note sizes = entry_sizes [OF Cons.prems(1)]
  from sizes(6) obtain fs where fs: "frames = entry_frame e # fs" "encode_entries (used + length (gi_content e)) es = Inr (fs, m)" by blast
  let ?bs = "entry_frame e @ concat fs @ r"
  note whole = entry_frame_layout(1) [OF size_limits(1) [OF sizes(3)] size_limits(2) [OF sizes(4)]]
  note layout = entry_frame_layout(2-6) [OF size_limits(1) [OF sizes(3)] size_limits(2) [OF sizes(4)], where r = "concat fs @ r"]
  have read: "decode_text (utf8 (gi_path e)) = Inr (gi_path e)" using git_path_valid [OF sizes(1)] by (simp add: decode_text_eq)
  have mode: "mode_byte (gi_mode e) = 0 \<or> mode_byte (gi_mode e) = 1" "(if mode_byte (gi_mode e) = 0 then RegularMode else ExecutableMode) = gi_mode e"
    by (cases "gi_mode e"; simp add: mode_byte_def)+
  have after: "\<not> (case previous of None \<Rightarrow> False | Some p \<Rightarrow> utf8 (gi_path e) \<le> p)" using Cons.prems(2) by (auto split: option.splits)
  have rest: "drop (13 + byte_length (gi_path e) + length (gi_content e)) ?bs = concat fs @ r"
    "take (13 + byte_length (gi_path e) + length (gi_content e)) ?bs = entry_frame e" using whole by simp_all
  have len: "\<not> length ?bs < 13" "\<not> length ?bs < 13 + byte_length (gi_path e)" "\<not> length ?bs < 13 + byte_length (gi_path e) + length (gi_content e)"
    using whole by simp_all
  have IH: "parse_entries (length es) (Some (utf8 (gi_path e))) (used + length (gi_content e)) (concat fs @ r) = Inr (es, fs, m, r)"
    using Cons.prems(2) by (intro Cons.IH fs(2)) simp
  have eq: "concat frames @ r = ?bs" using fs(1) by simp
  show ?case unfolding eq
    by (simp only: list.size(4) add_Suc_right add_0_right parse_entries.simps Let_def frame_prefix_bytes_def layout rest len if_False read bindR_simps)
      (use sizes(1-5) mode after IH fs(1) in \<open>simp add: not_less\<close>)
qed simp

lemma frame_split:
  assumes "13 + p + c \<le> length bs"
  shows "take (13 + p + c) bs = take 4 bs @ [bs ! 4] @ take 8 (drop 5 bs) @ take p (drop 13 bs) @ take c (drop (13 + p) bs)"
proof -
  have "take (4 + (1 + (8 + (p + c)))) bs = take 4 bs @ take 1 (drop 4 bs) @ take 8 (drop 5 bs) @ take p (drop 13 bs) @ take c (drop (13 + p) bs)"
    unfolding take_add by (simp add: add.commute)
  moreover have "take 1 (drop 4 bs) = [bs ! 4]" using assms by (simp add: take_Suc_conv_app_nth)
  moreover have "13 + p + c = 4 + (1 + (8 + (p + c)))" by simp
  ultimately show ?thesis by (simp only:)
qed

lemma parse_entries_sound:
  "parse_entries n previous used bytes = Inr (es, frames, m, r) \<Longrightarrow>
    encode_entries used es = Inr (frames, m) \<and> bytes = concat frames @ r \<and> length es = n \<and> ordered_after previous es"
proof (induction n arbitrary: previous used bytes es frames)
  case (Suc n)
  let ?pl = "be_value (take 4 bytes)" and ?cl = "be_value (take 8 (drop 5 bytes))"
  let ?path = "take ?pl (drop 13 bytes)" and ?content = "take ?cl (drop (13 + ?pl) bytes)" and ?stop = "13 + ?pl + ?cl"
  from Suc.prems obtain tx path fs gs where c: "\<not> length bytes < 13" "?pl \<noteq> 0" "?pl \<le> max_path_bytes" "bytes ! 4 = 0 \<or> bytes ! 4 = 1"
    "?cl \<le> max_source_file_bytes" "decode_text ?path = Inr tx" "validate_git_path tx = Inr path"
    "\<not> (case previous of None \<Rightarrow> False | Some p \<Rightarrow> ?path \<le> p)" "\<not> length bytes < ?stop" "used + ?cl \<le> max_source_total_bytes"
    "parse_entries n (Some ?path) (used + ?cl) (drop ?stop bytes) = Inr (gs, fs, m, r)"
    and es: "es = \<lparr>gi_path = path, gi_mode = (if bytes ! 4 = 0 then RegularMode else ExecutableMode), gi_content = ?content\<rparr> # gs"
    and frames: "frames = take ?stop bytes # fs"
    by (auto simp: Let_def frame_prefix_bytes_def bindR_eq_Inr not_less split: if_splits prod.splits)
  let ?e = "\<lparr>gi_path = path, gi_mode = (if bytes ! 4 = 0 then RegularMode else ExecutableMode), gi_content = ?content\<rparr>"
  from git_path_valid [OF c(7)] have path: "path = tx" "tx \<noteq> []" by blast+
  have utf: "?path = utf8 tx" using c(6) by (simp add: decode_text_eq)
  have pl: "byte_length tx = ?pl" unfolding byte_length_def utf [symmetric] using c(9) by simp
  have cl: "length ?content = ?cl" using c(9) by simp
  have frame: "entry_frame ?e = take ?stop bytes"
  proof -
    have "mode_byte (gi_mode ?e) = bytes ! 4" using c(4) by (auto simp: mode_byte_def)
    moreover have "be_bytes 4 (byte_length (gi_path ?e)) = take 4 bytes" using pl path c(1) by (simp add: be_bytes_value)
    moreover have "be_bytes 8 (length (gi_content ?e)) = take 8 (drop 5 bytes)" using cl c(1) by (simp add: be_bytes_value)
    moreover have "utf8 (gi_path ?e) = ?path" using utf path by simp
    ultimately show ?thesis using frame_split [of ?pl ?cl bytes] c(9) by (simp only: entry_frame_def not_less git_entry.simps)
  qed
  from Suc.IH [OF c(11)] have IH: "encode_entries (used + ?cl) gs = Inr (fs, m)" "drop ?stop bytes = concat fs @ r" "length gs = n"
    "ordered_after (Some ?path) gs" by blast+
  have "encode_entries used es = Inr (frames, m)"
    using c(2,3,5,7,10) pl path cl IH(1) frame unfolding es frames by (simp add: not_less)
  moreover have "bytes = concat frames @ r"
    using IH(2) append_take_drop_id [of ?stop bytes] unfolding frames by simp
  moreover have "ordered_after previous es" using c(8) IH(4) utf path unfolding es by (auto split: option.splits)
  ultimately show ?case using IH(3) es by simp
qed simp

end
