(* ===== verification/ObjectText.thy ===== *)
theory ObjectText
  imports OwnerWire
begin

text \<open>
  Objects and their canonical text: what is known of the members of an object that prints, an object literal with the same members
  has the same text, and an object that was printed and parsed again has the members it had.
\<close>

declare throw_if_eq_Inr [simp]

section \<open>The text of an object\<close>

lemma canonical_object:
  assumes "canonical_json (JObj p ps) = Inr t"
  shows "\<exists>ts. mapR (\<lambda>k. bindR (canonical_json (get_own ps k)) (\<lambda>u. Inr (json_quote k @ 58 # u))) (sort (object_keys ps)) = Inr ts
    \<and> t = 123 # join [44] ts @ [125]"
proof -
  let ?f = "\<lambda>k. case map_of ps (PStr k) of None \<Rightarrow> throw ''unreachable: a key of the object''
    | Some d \<Rightarrow> bindR (canonical_json (desc_value d)) (\<lambda>t. Inr (json_quote k @ 58 # t))"
  from assms obtain ts where ts: "mapR ?f (sort (object_keys ps)) = Inr ts" "t = 123 # join [44] ts @ [125]"
    by (auto simp: Let_def bindR_eq_Inr thenR_eq_Inr split: if_splits)
  have "mapR (\<lambda>k. bindR (canonical_json (get_own ps k)) (\<lambda>u. Inr (json_quote k @ 58 # u))) (sort (object_keys ps)) = Inr ts"
    by (rule mapR_transfer [OF ts(1)]) (auto simp: get_own_def split: option.splits)
  with ts(2) show ?thesis by blast
qed

lemma canonical_member:
  assumes "canonical_json (JObj p ps) = Inr t" "k \<in> set (object_keys ps)"
  shows "is_ok (canonical_json (get (JObj p ps) k))"
proof -
  from canonical_object [OF assms(1)] obtain ts where
    "mapR (\<lambda>k. bindR (canonical_json (get_own ps k)) (\<lambda>u. Inr (json_quote k @ 58 # u))) (sort (object_keys ps)) = Inr ts" by blast
  then have "is_ok (mapR (\<lambda>k. bindR (canonical_json (get_own ps k)) (\<lambda>u. Inr (json_quote k @ 58 # u))) (sort (object_keys ps)))" by simp
  with assms(2) show ?thesis unfolding mapR_ok by simp
qed

lemma canonical_fields:
  assumes "canonical_json (JObj p ps) = Inr t" "sort (object_keys ps) = sort (map fst kvs)" "literal_keys kvs"
    and "list_all (\<lambda>(k, v). canonical_json v = canonical_json (get (JObj p ps) k)) kvs"
  shows "canonical_json (obj kvs) = Inr t"
proof -
  have look: "map_of kvs k = Some v" if "(k, v) \<in> set kvs" for k v using that assms(3) by (simp add: literal_keys_def)
  have same: "canonical_json v = canonical_json (get_own ps k)" if "(k, v) \<in> set kvs" for k v using assms(4) that by (auto simp: list_all_iff)
  have keys: "set (object_keys ps) = set (map fst kvs)" using assms(2) by (metis set_sort)
  have ok: "is_ok (canonical_json v)" if "(k, v) \<in> set kvs" for k v
  proof -
    have "k \<in> set (object_keys ps)" using that keys by force
    from canonical_member [OF assms(1) this] same [OF that] show ?thesis by simp
  qed
  then have "list_all (\<lambda>v. v \<noteq> JUndef) (map snd kvs)" by (force simp: list_all_iff)
  note eq = canonical_obj [OF assms(3) this]
  have "mapR (\<lambda>k. bindR (canonical_json (the (map_of kvs k))) (\<lambda>t. Inr (json_quote k @ 58 # t))) (sort (map fst kvs))
    = mapR (\<lambda>k. bindR (canonical_json (get_own ps k)) (\<lambda>u. Inr (json_quote k @ 58 # u))) (sort (object_keys ps))"
    unfolding assms(2)
  proof (rule mapR_cong [OF refl])
    fix k assume "k \<in> set (sort (map fst kvs))"
    then obtain v where "(k, v) \<in> set kvs" by auto
    then show "bindR (canonical_json (the (map_of kvs k))) (\<lambda>t. Inr (json_quote k @ 58 # t)) = bindR (canonical_json (get_own ps k)) (\<lambda>u. Inr (json_quote k @ 58 # u))"
      using look same by simp
  qed
  with canonical_object [OF assms(1)] eq show ?thesis by auto
qed

definition is_obj :: "jsval \<Rightarrow> bool" where
  "is_obj v \<longleftrightarrow> (\<exists>p ps. v = JObj p ps)"

lemma is_obj_obj [simp]: "is_obj (obj kvs)"
  by (simp add: is_obj_def obj_def)

lemma canonical_keys:
  assumes "canonical_json v = Inr t" "v = JObj p ps" "sort (keys_of v) = sort (map js keys)"
  shows "list_all (\<lambda>k. is_ok (canonical_json (get v (js k)))) keys"
proof -
  have "set (keys_of v) = js ` set keys" using assms(3) by (metis set_sort set_map)
  then have "js k \<in> set (object_keys ps)" if "k \<in> set keys" for k using that assms(2) by (auto simp: keys_of_def)
  with canonical_member assms show ?thesis by (fastforce simp: list_all_iff)
qed

lemma canonical_same:
  assumes "canonical_json v = Inr t" "v = JObj p ps" "sort (keys_of v) = sort (map js keys)" "map fst kvs = map js keys" "literal_keys kvs"
    and "list_all (\<lambda>(k, w). canonical_json w = canonical_json (get v k)) kvs"
  shows "canonical_json (obj kvs) = Inr t"
  by (rule canonical_fields [OF assms(1) [unfolded assms(2)]]) (use assms in \<open>simp_all add: keys_of_def\<close>)

section \<open>Reading an object back\<close>

lemma reads_back_obj:
  assumes "reads_back (obj kvs) w" "distinct (map fst kvs)"
  shows "is_obj w" "sort (keys_of w) = sort (map fst kvs)" "list_all (\<lambda>(k, v). reads_back v (get w k)) kvs"
proof -
  from assms(1) obtain j where j: "denotes (obj kvs) j" "w = of_json j" by (auto simp: reads_back_def)
  from denotes_keys [OF j(1)] obtain kws where "of_json j = obj kws" "map fst kws = sort (map fst kvs)" by blast
  then show "is_obj w" "sort (keys_of w) = sort (map fst kvs)" using j(2) by (simp_all add: sorted_sort_id is_obj_def) (simp add: obj_def)
  show "list_all (\<lambda>(k, v). reads_back v (get w k)) kvs" using denotes_fields [OF j(1) assms(2)] j(2) by simp
qed

lemma object_keys_own: "k \<in> set (object_keys ps) \<Longrightarrow> map_of ps (PStr k) \<noteq> None"
  by (induction ps rule: object_keys.induct) (auto split: if_splits)

section \<open>Values with one text\<close>

text \<open>A value prints like another: what a validator can see of the members of a value it prints.\<close>

definition alike :: "jsval \<Rightarrow> jsval \<Rightarrow> bool" where
  "alike v w \<longleftrightarrow> wf_jsval v \<and> wf_jsval w \<and> same_json v w"

lemma alike_iff: "alike v w \<longleftrightarrow> wf_jsval v \<and> wf_jsval w \<and> (\<exists>j. denotes v j \<and> denotes w j)"
  using same_json_denotes by (auto simp: alike_def)

lemma alike_refl: "wf_jsval v \<Longrightarrow> is_ok (canonical_json v) \<Longrightarrow> alike v v"
  by (simp add: alike_def same_json_refl)

lemma alike_prints: "alike v w \<Longrightarrow> canonical_json v = canonical_json w \<and> is_ok (canonical_json w)"
  by (auto simp: alike_def same_json_def)

lemma alike_scalar [simp]:
  "alike (JStr s) w \<longleftrightarrow> valid_unicode s \<and> w = JStr s"
  "alike (jint n) w \<longleftrightarrow> \<bar>n\<bar> \<le> max_safe \<and> w = jint n"
  "alike (JBool b) w \<longleftrightarrow> w = JBool b"
  "alike JNull w \<longleftrightarrow> w = JNull"
  by (auto simp: alike_iff elim: denotes.cases)

lemma denotes_object:
  assumes "denotes w (Obj kjs)" "wf_jsval w"
  shows "is_obj w \<and> sort (keys_of w) = map fst kjs \<and> list_all (\<lambda>(k, j). denotes (get w k) j \<and> wf_jsval (get w k)) kjs"
proof -
  from assms(1) obtain p ps where w: "w = JObj p ps" and l: "list_all2 (\<lambda>k kj. fst kj = k \<and> (\<exists>d. map_of ps (PStr k) = Some d \<and> denotes (desc_value d) (snd kj)))
      (sort (object_keys ps)) kjs"
    by (cases rule: denotes.cases) auto
  have keys: "sort (object_keys ps) = map fst kjs" using l by (auto simp: list_all2_conv_all_nth intro: nth_equalityI)
  have "denotes (get w k) j \<and> wf_jsval (get w k)" if "(k, j) \<in> set kjs" for k j
  proof -
    from that obtain n where n: "n < length kjs" "kjs ! n = (k, j)" by (auto simp: in_set_conv_nth)
    from list_all2_nthD2 [OF l n(1)] n(2) obtain d where d: "map_of ps (PStr k) = Some d" "denotes (desc_value d) j" by auto
    moreover have "wf_jsval (desc_value d)" using d(1) assms(2) w by (intro map_of_wf) auto
    ultimately show ?thesis by (simp add: w get_own_def)
  qed
  then show ?thesis using keys by (auto simp: w is_obj_def keys_of_def list_all_iff)
qed

lemma alike_obj:
  assumes "alike (obj kvs) w"
  shows "is_obj w" "sort (keys_of w) = sort (map fst kvs)" "list_all (\<lambda>(k, v). alike v (get w k)) kvs"
proof -
  from assms obtain j where d': "denotes (obj kvs) j" "denotes w j" and wf: "wf_jsval (obj kvs)" "wf_jsval w" unfolding alike_iff by blast
  from denotes_obj_inv [OF d'(1)] obtain kjs where "j = Obj kjs" by blast
  note d = d' [unfolded this]
  note l = denotes_object [OF d(1) wf(1)] and r = denotes_object [OF d(2) wf(2)]
  show "is_obj w" "sort (keys_of w) = sort (map fst kvs)" using l r by (simp_all add: keys_of_obj)
  have "alike v (get w k)" if "(k, v) \<in> set kvs" for k v
  proof -
    have m: "map_of kvs k = Some v" using that wf(1) by simp
    from denotes_obj_lookup [OF d(1) _ m] wf(1) obtain j where j: "map_of kjs k = Some j" "denotes v j" by auto
    then have "denotes (get w k) j \<and> wf_jsval (get w k)" using r by (auto simp: list_all_iff dest: map_of_SomeD)
    moreover have "wf_jsval v" using that wf(1) by auto
    ultimately show ?thesis using j(2) by (auto simp: alike_iff)
  qed
  then show "list_all (\<lambda>(k, v). alike v (get w k)) kvs" by (auto simp: list_all_iff)
qed

lemma alike_arr:
  assumes "alike (arr vs) w"
  shows "\<exists>n ps. w = JArr n ps \<and> n = length vs \<and> list_all2 alike vs (elements w)"
proof -
  from assms obtain js where d: "denotes (arr vs) (Arr js)" "denotes w (Arr js)" and wf: "wf_jsval (arr vs)" "wf_jsval w"
    by (auto simp: alike_iff denotes_arr_iff)
  from d(1) have l: "list_all2 denotes vs js" by (simp add: denotes_arr_iff)
  from d(2) obtain n ps where w: "w = JArr n ps" and r: "list_all2 (\<lambda>k j. \<exists>d. map_of ps (PStr k) = Some d \<and> denotes (desc_value d) j) (map nat_text [0..<n]) js"
    by (cases rule: denotes.cases) auto
  have "n = length vs" using list_all2_lengthD [OF l] list_all2_lengthD [OF r] by simp
  moreover have "alike (vs ! i) (elements w ! i)" if i: "i < length vs" for i
  proof -
    obtain d where d: "map_of ps (PStr (nat_text i)) = Some d" "denotes (desc_value d) (js ! i)"
      using r i \<open>n = length vs\<close> by (auto simp: list_all2_conv_all_nth)
    have "wf_jsval (desc_value d)" using d(1) wf(2) w by (intro map_of_wf) auto
    moreover have "wf_jsval (vs ! i)" "denotes (vs ! i) (js ! i)" using wf(1) l i by (auto simp: list_all2_conv_all_nth)
    ultimately show ?thesis using d i \<open>n = length vs\<close> by (auto simp: alike_iff w get_own_def)
  qed
  ultimately show ?thesis by (simp add: w list_all2_conv_all_nth)
qed

lemma parse_alike:
  assumes "wf_jsval v" "canonical_json v = Inr t" "limit_ok m" "int (byte_length t) \<le> m"
  shows "\<exists>w. (\<forall>l. parse_canonical_json (RawString t) m l = Inr w) \<and> alike v w"
proof -
  from canonical_parse_denotes [OF assms(1,2)] obtain j where j: "denotes v j" and p: "\<And>l. parse_canonical_json (RawString t) m l = Inr (of_json j)"
    using assms(3,4) by blast
  have "wf_jsval (of_json j)" using p [of "[]"] by (auto simp: parse_canonical_eq intro: json_parse_wf)
  with p j denotes_of_json [OF j assms(1)] assms(1) show ?thesis by (auto simp: alike_iff)
qed

end
