(* ===== verification/SourceBundleClaims.thy ===== *)
theory SourceBundleClaims
  imports SourceBundleFacts GitTreeClaims ObjectText
begin

text \<open>
  The header survives the wire and determines its text, and with it the bundle: parsing reads back what was created, and
  accepts nothing but the bytes it would create.
\<close>

section \<open>Reading the header\<close>

lemma sb_record_eq: "sb_record v l = Inr w \<longleftrightarrow> w = v \<and> is_obj v"
  by (auto simp: sb_record_def is_obj_def split: jsval.splits)

lemma sb_string_eq: "sb_string v m = Inr s \<longleftrightarrow> v = JStr s"
  by (auto simp: sb_string_def split: jsval.splits)

lemma sb_digest_eq: "sb_digest v l = Inr s \<longleftrightarrow> v = JStr s \<and> is_digest s"
  by (auto simp: sb_digest_def split: jsval.splits)

lemma sb_integer_sound: "sb_positive_integer v l z = Inr n \<Longrightarrow> is_ok (canonical_json v) \<Longrightarrow> v = jint n \<and> \<bar>n\<bar> \<le> max_safe \<and> (if z then 0 \<le> n else 0 < n)"
  by (auto simp: sb_positive_integer_def Let_def split: jsval.splits jsnum.splits if_splits)

lemma sb_integer_jint: "\<bar>n\<bar> \<le> max_safe \<Longrightarrow> (if z then 0 \<le> n else 0 < n) \<Longrightarrow> sb_positive_integer (jint n) l z = Inr n"
  by (simp add: sb_positive_integer_def split: if_splits)

lemma sb_exact_keys_eq: "sb_exact_keys v keys l = Inr () \<longleftrightarrow> sort (keys_of v) = sort (map js keys)"
  by (simp add: sb_exact_keys_def throw_if_def)

lemma sb_parse_eq: "sb_parse_canonical_json t l = Inr v \<longleftrightarrow> json_parse t = Some v \<and> canonical_json v = Inr t"
  by (auto simp: sb_parse_canonical_json_def bindR_eq_Inr split: option.splits if_splits)

lemma sb_branch_same: "sb_validate_branch v = Inr b \<Longrightarrow> b = v"
  by (auto simp: sb_validate_branch_def split: if_splits)

lemma sb_manifest_same: "sb_validate_manifest v = Inr s \<Longrightarrow> v = JStr s"
proof -
  assume ok: "sb_validate_manifest v = Inr s"
  show "v = JStr s"
  proof (cases v)
    case (JStr u)
    with ok obtain w where "(case w of JObj p ps \<Rightarrow> Inr u | _ \<Rightarrow> throw ''Source manifest must be a canonical JSON object'') = Inr s"
      by (auto simp: sb_validate_manifest_def bindR_eq_Inr split: if_splits)
    with JStr show ?thesis by (cases w) auto
  qed (use ok in \<open>simp_all add: sb_validate_manifest_def\<close>)
qed

lemma sb_format_eq: "sb_format v = Inr f \<longleftrightarrow> v = JStr (format_text f)"
  by (cases f) (auto simp: sb_format_def format_text_def)

lemma git_format_unicode: "git_object_format_from_oid s = Inr f \<Longrightarrow> valid_unicode s"
  by (rule git_sha_unicode) (auto simp: git_object_format_from_oid_def is_git_sha_def split: if_splits)

section \<open>The header\<close>

lemma sb_repository_value:
  assumes "sb_validate_repository v = Inr r" "canonical_json v = Inr t"
  shows "canonical_json (repository_fields r) = Inr t"
proof -
  from assms(1) obtain p ps where v: "v = JObj p ps" and keys: "sort (keys_of v) = sort (map js [''slug'', ''id'', ''ownerId''])"
    and slug: "get v (js ''slug'') = JStr (br_slug r)"
    and i: "sb_positive_integer (get v (js ''id'')) ''repository id'' False = Inr (br_id r)"
    and o: "sb_positive_integer (get v (js ''ownerId'')) ''repository owner id'' False = Inr (br_owner_id r)"
    by (auto simp: sb_validate_repository_def sb_record_eq is_obj_def sb_string_eq sb_exact_keys_eq bindR_eq_Inr thenR_eq_Inr)
  note ok = canonical_keys [OF assms(2) v keys]
  from sb_integer_sound [OF i] sb_integer_sound [OF o] ok show ?thesis unfolding repository_fields_def
    by (intro canonical_same [OF assms(2) v keys]) (simp_all add: slug)
qed

lemma sb_base_value:
  assumes "sb_validate_base v = Inr b" "canonical_json v = Inr t" "v = JObj p ps"
    and "sort (keys_of v) = sort (map js [''branch'', ''sha'', ''treeSha'', ''objectFormat''])" "sb_format (get v (js ''objectFormat'')) = Inr f"
  shows "canonical_json (base_fields b f) = Inr t"
proof -
  from assms(1) have "get v (js ''branch'') = JStr (bb_branch b)" "get v (js ''sha'') = JStr (bb_sha b)" "get v (js ''treeSha'') = JStr (bb_tree_sha b)"
    by (auto simp: sb_validate_base_def sb_record_eq sb_string_eq bindR_eq_Inr thenR_eq_Inr dest: sb_branch_same split: if_splits)
  moreover have "get v (js ''objectFormat'') = JStr (format_text f)" using assms(5) by (simp add: sb_format_eq)
  ultimately show ?thesis unfolding base_fields_def by (intro canonical_same [OF assms(2-4)]) simp_all
qed

lemma sb_manifest_value:
  assumes "canonical_json v = Inr t" "v = JObj p ps" "sort (keys_of v) = sort (map js [''canonicalJson'', ''byteLength'', ''digest''])"
    and "sb_validate_manifest (get v (js ''canonicalJson'')) = Inr (bm_canonical_json m)"
    "sb_positive_integer (get v (js ''byteLength'')) l True = Inr (bm_byte_length m)" "sb_digest (get v (js ''digest'')) l' = Inr (bm_digest m)"
  shows "canonical_json (manifest_fields m) = Inr t"
  using canonical_keys [OF assms(1-3)] sb_integer_sound [OF assms(5)] sb_manifest_same [OF assms(4)] assms(6) unfolding manifest_fields_def
  by (intro canonical_same [OF assms(1-3)]) (simp_all add: sb_digest_eq)

definition header_keys :: "string list" where
  "header_keys = [''schemaVersion'', ''repository'', ''base'', ''manifest'', ''entryCount'', ''totalFileBytes'', ''entriesDigest'']"

lemma validate_header_eq:
  "validate_header h v = Inr b \<longleftrightarrow>
     is_obj v \<and> sort (keys_of v) = sort (map js header_keys) \<and> get v (js ''schemaVersion'') = jint 1
   \<and> is_obj (get v (js ''repository'')) \<and> sb_validate_repository (get v (js ''repository'')) = Inr (bh_repository b)
   \<and> is_obj (get v (js ''base'')) \<and> sb_validate_base (get v (js ''base'')) = Inr (bh_base b)
   \<and> sort (keys_of (get v (js ''base''))) = sort (map js [''branch'', ''sha'', ''treeSha'', ''objectFormat''])
   \<and> sb_format (get (get v (js ''base'')) (js ''objectFormat'')) = Inr (bh_object_format b)
   \<and> git_object_format_from_oid (bb_sha (bh_base b)) = Inr (bh_object_format b)
   \<and> is_obj (get v (js ''manifest''))
   \<and> sort (keys_of (get v (js ''manifest''))) = sort (map js [''canonicalJson'', ''byteLength'', ''digest''])
   \<and> sb_validate_manifest (get (get v (js ''manifest'')) (js ''canonicalJson'')) = Inr (bm_canonical_json (bh_manifest b))
   \<and> sb_positive_integer (get (get v (js ''manifest'')) (js ''byteLength'')) ''manifest byte length'' True = Inr (bm_byte_length (bh_manifest b))
   \<and> sb_digest (get (get v (js ''manifest'')) (js ''digest'')) ''manifest digest'' = Inr (bm_digest (bh_manifest b))
   \<and> bm_byte_length (bh_manifest b) = int (byte_length (bm_canonical_json (bh_manifest b)))
   \<and> bm_digest (bh_manifest b) = sha256 h (utf8 (bm_canonical_json (bh_manifest b)))
   \<and> sb_positive_integer (get v (js ''entryCount'')) ''entry count'' True = Inr (bh_entry_count b)
   \<and> sb_positive_integer (get v (js ''totalFileBytes'')) ''total file bytes'' True = Inr (bh_total_file_bytes b)
   \<and> bh_entry_count b \<le> int max_source_entries \<and> bh_total_file_bytes b \<le> int max_source_total_bytes
   \<and> sb_digest (get v (js ''entriesDigest'')) ''entries digest'' = Inr (bh_entries_digest b)" (is "_ \<longleftrightarrow> ?c b")
proof
  assume "validate_header h v = Inr b"
  then show "?c b"
    by (auto simp: validate_header_def sb_record_eq bindR_eq_Inr thenR_eq_Inr sb_exact_keys_eq header_keys_def not_less simp del: get.simps list.map)
next
  assume c: "?c b"
  obtain r bs f m n t d where b: "b = \<lparr>bh_repository = r, bh_base = bs, bh_object_format = f, bh_manifest = m, bh_entry_count = n, bh_total_file_bytes = t, bh_entries_digest = d\<rparr>"
    by (cases b)
  obtain j l g where m: "m = \<lparr>bm_canonical_json = j, bm_byte_length = l, bm_digest = g\<rparr>" by (cases m)
  from c show "validate_header h v = Inr b" unfolding b m
    by (simp add: validate_header_def sb_record_eq bindR_eq_Inr thenR_eq_Inr sb_exact_keys_eq header_keys_def not_less del: get.simps list.map)
qed

lemma header_value_text:
  assumes "validate_header h v = Inr b" "canonical_json v = Inr t"
  shows "canonical_json (header_value b) = Inr t"
proof -
  note c = assms(1) [unfolded validate_header_eq]
  from c obtain p ps where v: "v = JObj p ps" by (auto simp: is_obj_def)
  from c have keys: "sort (keys_of v) = sort (map js header_keys)" and digest: "sb_digest (get v (js ''entriesDigest'')) ''entries digest'' = Inr (bh_entries_digest b)"
    and version: "get v (js ''schemaVersion'') = jint 1"
    and count: "sb_positive_integer (get v (js ''entryCount'')) ''entry count'' True = Inr (bh_entry_count b)"
    and total: "sb_positive_integer (get v (js ''totalFileBytes'')) ''total file bytes'' True = Inr (bh_total_file_bytes b)" by blast+
  note ok = canonical_keys [OF assms(2) v keys, unfolded header_keys_def]
  obtain x y z where x: "canonical_json (get v (js ''repository'')) = Inr x" and y: "canonical_json (get v (js ''base'')) = Inr y"
    and z: "canonical_json (get v (js ''manifest'')) = Inr z"
    using ok by (auto simp: is_ok_iff simp del: get.simps)
  have "canonical_json (repository_fields (bh_repository b)) = Inr x" by (rule sb_repository_value [OF _ x]) (use c in blast)
  moreover have "canonical_json (base_fields (bh_base b) (bh_object_format b)) = Inr y"
  proof -
    from c obtain q qs where q: "get v (js ''base'') = JObj q qs" by (auto simp: is_obj_def simp del: get.simps)
    show ?thesis by (rule sb_base_value [OF _ y q]) (use c in blast)+
  qed
  moreover have "canonical_json (manifest_fields (bh_manifest b)) = Inr z"
  proof -
    from c obtain q qs where q: "get v (js ''manifest'') = JObj q qs" by (auto simp: is_obj_def simp del: get.simps)
    show ?thesis by (rule sb_manifest_value [OF z q]) (use c in blast)+
  qed
  ultimately show ?thesis using sb_integer_sound [OF count] sb_integer_sound [OF total] ok digest version unfolding header_value_def
    by (intro canonical_same [OF assms(2) v keys]) (simp_all add: x y z sb_digest_eq header_keys_def)
qed

section \<open>Reading a header back\<close>

lemma sb_positive_sound: "sb_positive_integer v l False = Inr n \<Longrightarrow> \<bar>n\<bar> \<le> max_safe \<and> 0 < n"
  by (auto simp: sb_positive_integer_def Let_def split: jsval.splits jsnum.splits if_splits)

lemma sb_repository_back:
  assumes "sb_validate_repository v = Inr r" "reads_back (repository_fields r) w"
  shows "sb_validate_repository w = Inr r"
proof -
  note o = reads_back_obj [OF assms(2) [unfolded repository_fields_def]]
  show ?thesis using assms(1) o
    by (cases r) (auto simp: sb_validate_repository_def sb_record_eq sb_string_eq sb_exact_keys_eq bindR_eq_Inr thenR_eq_Inr sb_integer_jint
      dest!: sb_positive_sound simp del: get.simps)
qed

lemma sb_base_back:
  assumes "sb_validate_base v = Inr b" "reads_back (base_fields b f) w"
  shows "sb_validate_base w = Inr b" "sb_format (get w (js ''objectFormat'')) = Inr f"
    "sort (keys_of w) = sort (map js [''branch'', ''sha'', ''treeSha'', ''objectFormat''])"
proof -
  note o = reads_back_obj [OF assms(2) [unfolded base_fields_def]]
  have "sort (keys_of w) = sort (map js [''branch'', ''sha'', ''treeSha'', ''objectFormat''])" using o(2) by simp
  then have keys: "set (keys_of w) = set (map js [''branch'', ''sha'', ''treeSha'', ''objectFormat''])" by (metis set_sort)
  have has: "sb_has w k" if "k \<in> set (keys_of w)" for k
    using that o(1) object_keys_own by (fastforce simp: sb_has_def is_obj_def keys_of_def)
  have "list_all (\<lambda>k. sb_has w (js k)) [''branch'', ''sha'', ''treeSha'']" using has keys by simp
  with assms(1) o show "sb_validate_base w = Inr b"
    by (cases b) (auto simp: sb_validate_base_def sb_record_eq sb_string_eq bindR_eq_Inr thenR_eq_Inr simp del: get.simps dest: sb_branch_same split: if_splits)
  show "sb_format (get w (js ''objectFormat'')) = Inr f" "sort (keys_of w) = sort (map js [''branch'', ''sha'', ''treeSha'', ''objectFormat''])"
    using o by (simp_all add: sb_format_eq)
qed

text \<open>What \<open>createSourceBundle\<close> knows of the header it prints.\<close>

definition header_ready :: "hash \<Rightarrow> bundle_header \<Rightarrow> bool" where
  "header_ready h b \<longleftrightarrow> (\<exists>v. sb_validate_repository v = Inr (bh_repository b)) \<and> (\<exists>v. sb_validate_base v = Inr (bh_base b))
     \<and> sb_validate_manifest (JStr (bm_canonical_json (bh_manifest b))) = Inr (bm_canonical_json (bh_manifest b))
     \<and> git_object_format_from_oid (bb_sha (bh_base b)) = Inr (bh_object_format b)
     \<and> bm_byte_length (bh_manifest b) = int (byte_length (bm_canonical_json (bh_manifest b)))
     \<and> bm_digest (bh_manifest b) = sha256 h (utf8 (bm_canonical_json (bh_manifest b)))
     \<and> 0 \<le> bh_entry_count b \<and> bh_entry_count b \<le> int max_source_entries
     \<and> 0 \<le> bh_total_file_bytes b \<and> bh_total_file_bytes b \<le> int max_source_total_bytes \<and> is_digest (bh_entries_digest b)"

lemma header_back:
  assumes "hash32 h" "header_ready h b" "reads_back (header_value b) w"
  shows "validate_header h w = Inr b"
proof -
  note o = reads_back_obj [OF assms(3) [unfolded header_value_def]]
  from o(3) have f: "get w (js ''schemaVersion'') = jint 1" "reads_back (repository_fields (bh_repository b)) (get w (js ''repository''))"
    "reads_back (base_fields (bh_base b) (bh_object_format b)) (get w (js ''base''))" "reads_back (manifest_fields (bh_manifest b)) (get w (js ''manifest''))"
    "get w (js ''entryCount'') = jint (bh_entry_count b)" "get w (js ''totalFileBytes'') = jint (bh_total_file_bytes b)"
    "get w (js ''entriesDigest'') = JStr (bh_entries_digest b)" "\<bar>bh_entry_count b\<bar> \<le> max_safe" "\<bar>bh_total_file_bytes b\<bar> \<le> max_safe"
    by simp_all
  note r = reads_back_obj(1) [OF f(2) [unfolded repository_fields_def]]
  note bo = reads_back_obj(1) [OF f(3) [unfolded base_fields_def]]
  note m = reads_back_obj [OF f(4) [unfolded manifest_fields_def]]
  from assms(2) obtain v u where parts: "sb_validate_repository v = Inr (bh_repository b)" "sb_validate_base u = Inr (bh_base b)" by (auto simp: header_ready_def)
  show ?thesis unfolding validate_header_eq
    using assms(1,2) o(1,2) f r bo m sb_repository_back [OF parts(1) f(2)] sb_base_back [OF parts(2) f(3)]
    by (simp add: header_ready_def header_keys_def sha256_is_digest sb_digest_eq sb_integer_jint del: get.simps)
qed

lemma sb_repository_again: "sb_validate_repository v = Inr r \<Longrightarrow> sb_validate_repository (repository_fields r) = Inr r"
  by (cases r) (auto simp: repository_fields_def sb_validate_repository_def sb_record_eq sb_string_eq sb_exact_keys_eq bindR_eq_Inr thenR_eq_Inr
      sb_integer_jint get_obj dest!: sb_positive_sound)

lemma sb_has_obj: "sb_has (obj kvs) k \<longleftrightarrow> map_of kvs k \<noteq> None"
  unfolding sb_has_def obj_def by (induction kvs) auto

lemma sb_base_again: "sb_validate_base v = Inr b \<Longrightarrow> sb_validate_base (base_fields b f) = Inr b"
  by (cases b) (auto simp: base_fields_def sb_validate_base_def sb_record_eq sb_string_eq bindR_eq_Inr thenR_eq_Inr
      get_obj sb_has_obj simp del: get.simps dest: sb_branch_same split: if_splits)

lemma wf_header_value: "wf_jsval (header_value b)"
  by (simp add: header_value_def repository_fields_def base_fields_def manifest_fields_def)

lemma header_text_back:
  assumes "hash32 h" "header_ready h b" "canonical_json (header_value b) = Inr t"
  shows "valid_unicode t \<and> (\<exists>v. sb_parse_canonical_json t l = Inr v \<and> validate_header h v = Inr b)"
proof -
  from canonical_json_sound [OF wf_header_value assms(3)] obtain j where j: "denotes (header_value b) j" "t = print_json j" "wf_json j" by auto
  have parse: "json_parse t = Some (of_json j)" using j json_parse_print by simp
  moreover have "canonical_json (of_json j) = Inr t"
    using canonical_json_complete [OF denotes_of_json [OF j(1) wf_header_value] json_parse_wf [OF parse]] j by simp
  moreover have "validate_header h (of_json j) = Inr b" using j(1) by (intro header_back [OF assms(1,2)]) (auto simp: reads_back_def)
  moreover have "valid_unicode t" using j denotes_valid_print by auto
  ultimately show ?thesis by (auto simp: sb_parse_eq)
qed

section \<open>A parsed bundle again\<close>

lemma sb_manifest_fields_again: "is_obj (manifest_fields m)" "is_obj (base_fields b f)" "is_obj (repository_fields r)"
  "keys_of (manifest_fields m) = map js [''canonicalJson'', ''byteLength'', ''digest'']"
  "keys_of (base_fields b f) = map js [''branch'', ''sha'', ''treeSha'', ''objectFormat'']"
  by (simp_all only: manifest_fields_def base_fields_def repository_fields_def is_obj_obj keys_of_obj) simp_all

lemma sb_natural_sound: "sb_positive_integer v l True = Inr n \<Longrightarrow> \<bar>n\<bar> \<le> max_safe \<and> 0 \<le> n"
  by (auto simp: sb_positive_integer_def Let_def max_safe_def split: jsval.splits jsnum.splits if_splits)

lemma header_value_again:
  assumes "validate_header h v = Inr b"
  shows "validate_header h (header_value b) = Inr b"
proof -
  note c = assms(1) [unfolded validate_header_eq]
  from c have repo: "sb_validate_repository (get v (js ''repository'')) = Inr (bh_repository b)" and base: "sb_validate_base (get v (js ''base'')) = Inr (bh_base b)"
    and manifest: "sb_validate_manifest (get (get v (js ''manifest'')) (js ''canonicalJson'')) = Inr (bm_canonical_json (bh_manifest b))" by blast+
  note again = sb_repository_again [OF repo] sb_base_again [OF base] manifest [unfolded sb_manifest_same [OF manifest]]
  from c have "sb_positive_integer (get v (js ''entryCount'')) ''entry count'' True = Inr (bh_entry_count b)"
    "sb_positive_integer (get v (js ''totalFileBytes'')) ''total file bytes'' True = Inr (bh_total_file_bytes b)"
    "sb_positive_integer (get (get v (js ''manifest'')) (js ''byteLength'')) ''manifest byte length'' True = Inr (bm_byte_length (bh_manifest b))"
    "sb_digest (get v (js ''entriesDigest'')) ''entries digest'' = Inr (bh_entries_digest b)"
    "sb_digest (get (get v (js ''manifest'')) (js ''digest'')) ''manifest digest'' = Inr (bm_digest (bh_manifest b))" by blast+
  note scalars = this(1-3) [THEN sb_natural_sound] this(4,5) [unfolded sb_digest_eq]
  from c have rest: "git_object_format_from_oid (bb_sha (bh_base b)) = Inr (bh_object_format b)"
    "bm_byte_length (bh_manifest b) = int (byte_length (bm_canonical_json (bh_manifest b)))"
    "bm_digest (bh_manifest b) = sha256 h (utf8 (bm_canonical_json (bh_manifest b)))"
    "bh_entry_count b \<le> int max_source_entries" "bh_total_file_bytes b \<le> int max_source_total_bytes" by blast+
  have nested: "get (base_fields (bh_base b) (bh_object_format b)) (js ''objectFormat'') = JStr (format_text (bh_object_format b))"
    "get (manifest_fields (bh_manifest b)) (js ''canonicalJson'') = JStr (bm_canonical_json (bh_manifest b))"
    "get (manifest_fields (bh_manifest b)) (js ''byteLength'') = jint (bm_byte_length (bh_manifest b))"
    "get (manifest_fields (bh_manifest b)) (js ''digest'') = JStr (bm_digest (bh_manifest b))"
    by (simp_all add: manifest_fields_def base_fields_def get_obj)
  have ints: "sb_positive_integer (jint (bh_entry_count b)) l True = Inr (bh_entry_count b)" "sb_positive_integer (jint (bh_total_file_bytes b)) l True = Inr (bh_total_file_bytes b)"
    "sb_positive_integer (jint (bm_byte_length (bh_manifest b))) l True = Inr (bm_byte_length (bh_manifest b))" for l
    using scalars(1-3) by (intro sb_integer_jint; simp)+
  show ?thesis unfolding validate_header_eq header_value_def
    using rest again scalars(4,5) by (simp add: sb_manifest_fields_again get_obj header_keys_def nested sb_format_eq sb_digest_eq ints del: of_nat_le_iff)
      (use ints(3) rest(2) in simp)
qed

lemma check_order_ok:
  "list_all (\<lambda>e. validate_git_path (gi_path e) = Inr (gi_path e)) es \<Longrightarrow> ordered_after p es \<Longrightarrow> check_order p es = Inr es"
  by (induction es arbitrary: p) (auto split: option.splits)

lemma encode_entries_paths: "encode_entries used es = Inr (frames, m) \<Longrightarrow> list_all (\<lambda>e. validate_git_path (gi_path e) = Inr (gi_path e)) es"
proof (induction es arbitrary: used frames)
  case (Cons e es)
  from entry_sizes(1,6) [OF Cons.prems] Cons.IH show ?case by auto
qed simp

section \<open>The tracked entries\<close>

lemma tracked_loop_paths:
  "tracked_loop gh read fmt seen used rs = Inr es \<Longrightarrow>
    length es = length rs \<and> distinct (map gi_path es) \<and> set (map gi_path es) \<inter> set seen = {} \<and> list_all (\<lambda>e. valid_unicode (gi_path e)) es"
proof (induction rs arbitrary: seen used es)
  case (Cons r rs)
  from Cons.prems obtain e fs where e: "tracked_entry gh read fmt seen r = Inr e" and es: "es = e # fs"
    and fs: "tracked_loop gh read fmt (gi_path e # seen) (used + length (gi_content e)) rs = Inr fs"
    by (auto simp: bindR_eq_Inr split: if_splits)
  have "gi_path e \<notin> set seen \<and> valid_unicode (gi_path e)"
    using e by (auto simp: tracked_entry_def Let_def bindR_eq_Inr dest!: git_path_valid split: if_splits option.splits prod.splits)
  with Cons.IH [OF fs] es show ?case by auto
qed simp

lemma tracked_loop_read:
  "tracked_loop gh read fmt seen used rs = Inr es \<Longrightarrow> f \<in> set es \<Longrightarrow> read (gi_path f) (gi_mode f) = Inr (gi_content f)"
proof (induction rs arbitrary: seen used es)
  case (Cons r rs)
  from Cons.prems(1) obtain e fs where e: "tracked_entry gh read fmt seen r = Inr e" and es: "es = e # fs"
    and fs: "tracked_loop gh read fmt (gi_path e # seen) (used + length (gi_content e)) rs = Inr fs"
    by (auto simp: bindR_eq_Inr split: if_splits)
  have "read (gi_path e) (gi_mode e) = Inr (gi_content e)"
    using e by (auto simp: tracked_entry_def Let_def bindR_eq_Inr split: if_splits option.splits prod.splits)
  with Cons.IH [OF fs] Cons.prems(2) es show ?case by auto
qed simp

lemma tracked_entries_read:
  assumes "read_tracked_entries gh read raw fmt = Inr es"
  shows "list_all (\<lambda>f. read (gi_path f) (gi_mode f) = Inr (gi_content f)) es"
  using assms tracked_loop_read by (fastforce simp: read_tracked_entries_def bindR_eq_Inr list_all_iff split: if_splits)

lemma sorted_ordered_after:
  "sorted_wrt (\<lambda>e f. utf8 (gi_path e) < utf8 (gi_path f)) es \<Longrightarrow> (case p of None \<Rightarrow> True | Some q \<Rightarrow> \<forall>e \<in> set es. q < utf8 (gi_path e)) \<Longrightarrow> ordered_after p es"
  by (induction es arbitrary: p) (auto split: option.splits)

lemma tracked_entries_ordered:
  assumes "read_tracked_entries gh read raw fmt = Inr es"
  shows "ordered_after None es \<and> length es \<le> max_source_entries"
proof -
  let ?k = "\<lambda>e. utf8 (gi_path e)"
  from assms obtain rs fs where rs: "length rs \<le> max_source_entries" and fs: "tracked_loop gh read fmt [] 0 rs = Inr fs" "es = sort_key ?k fs"
    by (auto simp: read_tracked_entries_def bindR_eq_Inr not_less split: if_splits)
  note l = tracked_loop_paths [OF fs(1)]
  have "inj_on utf8 (gi_path ` set fs)" using l utf8_decode_encode by (intro inj_onI) (metis (no_types, lifting) imageE list_all_iff)
  then have "distinct (map ?k fs)" using l by (simp only: distinct_map comp_inj_on_iff [of gi_path "set fs" utf8, unfolded comp_def])
  then have "distinct (map ?k es)" using fs(2) by (simp add: distinct_map)
  moreover have "sorted (map ?k es)" using fs(2) by simp
  ultimately have "sorted_wrt (<) (map ?k es)" by (simp only: strict_sorted_iff)
  then have "ordered_after None es" by (intro sorted_ordered_after) (simp_all add: sorted_wrt_map)
  then show ?thesis using rs l fs(2) by simp
qed

lemma encode_entries_total: "encode_entries used es = Inr (frames, m) \<Longrightarrow> used \<le> max_source_total_bytes \<Longrightarrow> m \<le> max_source_total_bytes"
proof (induction es arbitrary: used frames)
  case (Cons e es)
  from entry_sizes(5,6) [OF Cons.prems(1)] Cons.IH show ?case by blast
qed simp

section \<open>The bytes of a bundle\<close>

text \<open>What parsing checks of the bytes between the magic and the end, for the header and entries they are laid out from.\<close>

lemma parse_bundle_bytes:
  assumes "valid_unicode t" "0 < byte_length t" "byte_length t \<le> max_header_bytes"
    and "sb_parse_canonical_json t ''source bundle header'' = Inr v" "validate_header h v = Inr b"
    and "encode_entries 0 es = Inr (frames, m)" "ordered_after None es"
    and "bh_entry_count b = int (length es)" "bh_total_file_bytes b = int m" "bh_entries_digest b = sha256 h (concat frames)"
    and "git_tree_oid gh es (bh_object_format b) = Inr (bb_tree_sha (bh_base b))" "length (bundle_bytes t frames) \<le> max_bundle_bytes"
  shows "parse_source_bundle h gh (bundle_bytes t frames) = Inr \<lparr>sb_header = b, sb_entries = es, sb_bundle_digest = sha256 h (bundle_bytes t frames)\<rparr>"
proof -
  let ?bs = "bundle_bytes t frames" and ?after = "utf8 t @ concat frames @ bundle_footer"
  have header: "be_value (take 4 (drop (length bundle_magic) ?bs)) = byte_length t"
  proof -
    have "byte_length t < 256 ^ 4" using assms(3) by (simp add: max_header_bytes_def)
    then show ?thesis by (simp add: bundle_bytes_def be_value_bytes)
  qed
  have after: "drop (length bundle_magic + 4) ?bs = ?after" by (simp add: bundle_bytes_def)
  have text_bytes: "take (byte_length t) ?after = utf8 t" "drop (byte_length t) ?after = concat frames @ bundle_footer" "\<not> length ?after < byte_length t"
    "length (utf8 t) = byte_length t"
    by (simp_all add: byte_length_def)
  have "\<not> (length ?bs < length bundle_magic + 4 + length bundle_footer \<or> max_bundle_bytes < length ?bs)" "take (length bundle_magic) ?bs = bundle_magic"
    using assms(12) by (simp_all add: bundle_bytes_def not_less)
  moreover have "decode_text (utf8 t) = Inr t" using assms(1) by (simp add: decode_text_eq)
  moreover have "parse_entries (nat (bh_entry_count b)) None 0 (concat frames @ bundle_footer) = Inr (es, frames, m, bundle_footer)"
    using parse_encoded [OF assms(6,7)] assms(8) by simp
  ultimately show ?thesis using assms(2-5,8-11) unfolding parse_source_bundle_def Let_def header after text_bytes by (simp add: text_bytes)
qed

lemma created_bundle_parses:
  assumes "hash32 h" "create_source_bundle h gh repository base manifest tracked = Inr (bytes, digest, header)"
    and "\<And>b f es. tracked b f = Inr es \<Longrightarrow> ordered_after None es \<and> length es \<le> max_source_entries"
  shows "\<exists>entries. tracked (bh_base header) (bh_object_format header) = Inr entries
    \<and> parse_source_bundle h gh bytes = Inr \<lparr>sb_header = header, sb_entries = entries, sb_bundle_digest = digest\<rparr>"
proof -
  from assms(2) obtain es frames m t where c: "sb_validate_repository repository = Inr (bh_repository header)" "sb_validate_base base = Inr (bh_base header)"
    "sb_validate_manifest manifest = Inr (bm_canonical_json (bh_manifest header))" "git_object_format_from_oid (bb_sha (bh_base header)) = Inr (bh_object_format header)"
    "tracked (bh_base header) (bh_object_format header) = Inr es"
    "git_tree_oid gh es (bh_object_format header) = Inr (bb_tree_sha (bh_base header))" "encode_entries 0 es = Inr (frames, m)"
    "bm_byte_length (bh_manifest header) = int (byte_length (bm_canonical_json (bh_manifest header)))"
    "bm_digest (bh_manifest header) = sha256 h (utf8 (bm_canonical_json (bh_manifest header)))"
    "bh_entry_count header = int (length es)" "bh_total_file_bytes header = int m" "bh_entries_digest header = sha256 h (concat frames)"
    "canonical_json (header_value header) = Inr t" "0 < byte_length t" "byte_length t \<le> max_header_bytes"
    "bytes = bundle_bytes t frames" "digest = sha256 h bytes" "length bytes \<le> max_bundle_bytes"
    by (auto simp: create_source_bundle_def Let_def bindR_eq_Inr not_less split: if_splits)
  note ordered = assms(3) [OF c(5)]
  have "m \<le> max_source_total_bytes" using encode_entries_total [OF c(7)] by simp
  with c ordered assms(1) sb_manifest_same [OF c(3)] have "header_ready h header"
    by (auto simp: header_ready_def sha256_is_digest)
  from header_text_back [OF assms(1) this c(13)] obtain v where "valid_unicode t"
    "sb_parse_canonical_json t ''source bundle header'' = Inr v" "validate_header h v = Inr header" by blast
  from parse_bundle_bytes [OF this(1) c(14,15) this(2,3) c(7) _ c(10-12,6)] ordered c show ?thesis by simp
qed

section \<open>A bundle of one file\<close>

definition bundle_file :: git_entry where "bundle_file = \<lparr>gi_path = js ''a'', gi_mode = ExecutableMode, gi_content = [7]\<rparr>"

definition bundle_index :: "byte list" where
  "bundle_index = utf8 (js ''100755 626c6f6220310007000000000000000000000000 0'') @ [9] @ utf8 (js ''a'') @ [0]"

definition bundle_tree :: jsstr where "bundle_tree = js ''7472656520323900313030373535206100626c6f''"

definition bundle_sample_base :: jsval where
  "bundle_sample_base = obj [(js ''branch'', JStr (js ''main'')), (js ''sha'', JStr (js ''aaaaaaaaaaaaaaaaaaaaaaaaaaaaaaaaaaaaaaaa'')), (js ''treeSha'', JStr bundle_tree)]"

definition bundle_sample_repository :: jsval where
  "bundle_sample_repository = obj [(js ''slug'', JStr (js ''o/r'')), (js ''id'', jint 1), (js ''ownerId'', jint 2)]"

lemma sample_record_read: "tracked_entry sample_git_hash (\<lambda>path mode. Inr [7]) Sha1 [] (butlast bundle_index) = Inr bundle_file" by code_simp
lemma sample_index_split: "split_nul bundle_index = Inr [butlast bundle_index]" by code_simp
lemma sample_bundle_tree: "git_tree_oid sample_git_hash [bundle_file] Sha1 = Inr bundle_tree" by code_simp
lemma sample_bundle_repository: "sb_validate_repository bundle_sample_repository = Inr \<lparr>br_slug = js ''o/r'', br_id = 1, br_owner_id = 2\<rparr>" by code_simp
lemma sample_bundle_base: "sb_validate_base bundle_sample_base = Inr \<lparr>bb_branch = js ''main'', bb_sha = js ''aaaaaaaaaaaaaaaaaaaaaaaaaaaaaaaaaaaaaaaa'', bb_tree_sha = bundle_tree\<rparr>" by code_simp
lemma sample_manifest_parses: "sb_parse_canonical_json (js ''{}'') ''source manifest'' = Inr (obj [])" by code_simp

lemma sample_bundle_manifest: "sb_validate_manifest (JStr (js ''{}'')) = Inr (js ''{}'')" 
proof -
  have "byte_length (js ''{}'') = 2" "js ''{}'' \<noteq> []" by code_simp+
  then show ?thesis by (simp only: sb_validate_manifest_def jsval.case sample_manifest_parses bindR_simps max_canonical_manifest_bytes_def) (simp add: obj_def)
qed

lemma sample_entries_encoded: "encode_entries 0 [bundle_file] = Inr ([entry_frame bundle_file], 1)"
proof -
  have "validate_git_path (gi_path bundle_file) = Inr (gi_path bundle_file)" "byte_length (gi_path bundle_file) = 1" "length (gi_content bundle_file) = 1" by code_simp+
  then show ?thesis by (simp only: encode_entries.simps bindR_simps max_path_bytes_def max_source_file_bytes_def max_source_total_bytes_def) simp
qed

definition bundle_sample_header :: "bundle_header" where
  "bundle_sample_header = \<lparr>bh_repository = \<lparr>br_slug = js ''o/r'', br_id = 1, br_owner_id = 2\<rparr>,
     bh_base = \<lparr>bb_branch = js ''main'', bb_sha = js ''aaaaaaaaaaaaaaaaaaaaaaaaaaaaaaaaaaaaaaaa'', bb_tree_sha = bundle_tree\<rparr>, bh_object_format = Sha1,
     bh_manifest = \<lparr>bm_canonical_json = js ''{}'', bm_byte_length = 2, bm_digest = sha256 sample_hash (utf8 (js ''{}''))\<rparr>,
     bh_entry_count = 1, bh_total_file_bytes = 1, bh_entries_digest = sha256 sample_hash (entry_frame bundle_file)\<rparr>"


lemma sample_digest_length: "length (sha256 sample_hash bs) = 71"
  using hash32_sample by (simp add: sha256_def sha256_hex_def hash32_def)

lemma sample_int_texts: "length (int_text 1) = 1" "length (int_text 2) = 1" by code_simp+

lemma sample_header_small: "text_bound (header_value bundle_sample_header) \<le> 2000"
proof -
  have w: "quote_width (js ''o/r'') = 3" "quote_width (js ''main'') = 4" "quote_width (js ''aaaaaaaaaaaaaaaaaaaaaaaaaaaaaaaaaaaaaaaa'') = 40" "quote_width bundle_tree = 40"
    "quote_width (js ''sha1'') = 4" "quote_width (js ''{}'') = 2"
    "quote_width (js ''schemaVersion'') = 13" "quote_width (js ''repository'') = 10" "quote_width (js ''slug'') = 4" "quote_width (js ''id'') = 2" "quote_width (js ''ownerId'') = 7"
    "quote_width (js ''base'') = 4" "quote_width (js ''branch'') = 6" "quote_width (js ''sha'') = 3" "quote_width (js ''treeSha'') = 7" "quote_width (js ''objectFormat'') = 12"
    "quote_width (js ''manifest'') = 8" "quote_width (js ''canonicalJson'') = 13" "quote_width (js ''byteLength'') = 10" "quote_width (js ''digest'') = 6"
    "quote_width (js ''entryCount'') = 10" "quote_width (js ''totalFileBytes'') = 14" "quote_width (js ''entriesDigest'') = 13"
    unfolding bundle_tree_def by (simp_all add: quote_width_js plain_text)
  have d: "quote_width (sha256 sample_hash bs) \<le> 426" for bs using quote_width_le [of "sha256 sample_hash bs"] by (simp add: sample_digest_length)
  show ?thesis using d [of "utf8 (js ''{}'')"] d [of "entry_frame bundle_file"]
    by (simp add: header_value_def repository_fields_def base_fields_def manifest_fields_def bundle_sample_header_def format_text_def w sample_int_texts)
qed

lemma sample_header_prints: "is_ok (canonical_json (header_value bundle_sample_header))"
  unfolding header_value_def repository_fields_def base_fields_def manifest_fields_def bundle_sample_header_def
  by (intro canonical_obj_ok) (simp_all add: canonical_obj_ok format_text_def bundle_tree_def max_safe_def digest_unicode sha256_is_digest hash32_sample)


text \<open>A checkout with that one file.\<close>

definition checkout_stat :: "nat \<Rightarrow> bool \<Rightarrow> source_stat" where
  "checkout_stat mode directory = \<lparr>ss_is_file = \<not> directory, ss_is_directory = directory, ss_is_link = False, ss_nlink = 1, ss_mode = mode, ss_size = 1,
     ss_dev = 1, ss_ino = 1, ss_mtime = 1\<rparr>"

definition sample_checkout :: checkout_env where
  "sample_checkout = \<lparr>ce_git = (\<lambda>cwd args. if args = [''rev-parse'', ''--show-toplevel''] then Some (utf8 (js ''/r'') @ [10])
       else if args = [''rev-parse'', ''HEAD''] then Some (utf8 (js ''aaaaaaaaaaaaaaaaaaaaaaaaaaaaaaaaaaaaaaaa'') @ [10])
       else if args = [''rev-parse'', ''HEAD^{tree}''] then Some (utf8 bundle_tree @ [10])
       else if args = [''rev-parse'', ''--show-object-format''] then Some (utf8 (js ''sha1'') @ [10])
       else if hd args = ''ls-files'' then Some bundle_index else if hd args = ''status'' then Some [] else None),
     ce_lstat = (\<lambda>p. Some (checkout_stat 0x1ED (p = js ''/r''))), ce_realpath = Some, ce_resolve = (\<lambda>p. js ''/r''),
     ce_open = (\<lambda>p. Some (checkout_stat 0x1ED False, [7], checkout_stat 0x1ED False))\<rparr>"

lemma tracked_entry_transfer:
  assumes "tracked_entry gh read fmt seen r = Inr f" "read' (gi_path f) (gi_mode f) = Inr (gi_content f)"
  shows "tracked_entry gh read' fmt seen r = Inr f"
  using assms by (auto simp: tracked_entry_def Let_def bindR_eq_Inr split: if_splits option.splits prod.splits) fastforce+

lemma sample_clean: "validate_clean_checkout sample_checkout (js ''.'')
    \<lparr>bb_branch = js ''main'', bb_sha = js ''aaaaaaaaaaaaaaaaaaaaaaaaaaaaaaaaaaaaaaaa'', bb_tree_sha = bundle_tree\<rparr> = Inr (js ''/r'')"
  by code_simp

lemma sample_file_read: "read_tracked_file sample_checkout (js ''/r'') (js ''a'') ExecutableMode = Inr [7]"
proof -
  have "no_symlink_components sample_checkout (js ''/r'') (js ''a'') = Inr ()" by code_simp
  moreover have "(0x1ED :: nat) AND 0xE00 = 0" "(0x1ED :: nat) AND 0x49 \<noteq> 0" by simp_all
  ultimately show ?thesis by (simp add: read_tracked_file_def sample_checkout_def checkout_stat_def or_throw_def max_source_file_bytes_def thenR_eq_Inr)
qed

lemma sample_entries_tracked: "tracked_entries sample_git_hash sample_checkout (js ''/r'') Sha1 = Inr [bundle_file]"
proof -
  have record_read: "tracked_entry sample_git_hash (read_tracked_file sample_checkout (js ''/r'')) Sha1 [] (butlast bundle_index) = Inr bundle_file"
    using sample_file_read by (intro tracked_entry_transfer [OF sample_record_read]) (simp add: bundle_file_def)
  have "length (gi_content bundle_file) = 1" by (simp add: bundle_file_def)
  then have "tracked_loop sample_git_hash (read_tracked_file sample_checkout (js ''/r'')) Sha1 [] 0 [butlast bundle_index] = Inr [bundle_file]"
    by (simp only: tracked_loop.simps record_read bindR_simps max_source_total_bytes_def) simp
  then have "read_tracked_entries sample_git_hash (read_tracked_file sample_checkout (js ''/r'')) bundle_index Sha1 = Inr [bundle_file]"
    by (simp only: read_tracked_entries_def sample_index_split bindR_simps max_source_entries_def) simp
  moreover have "git_bytes sample_checkout (js ''/r'') [''ls-files'', ''--cached'', ''--stage'', ''--full-name'', ''-z''] = Inr bundle_index"
    by (simp add: git_bytes_def sample_checkout_def or_throw_def)
  ultimately show ?thesis by (simp only: tracked_entries_def bindR_simps)
qed

lemma bundle_sample_created:
  "\<exists>bytes digest. create_source_bundle sample_hash sample_git_hash bundle_sample_repository bundle_sample_base (JStr (js ''{}''))
     (\<lambda>b f. bindR (validate_clean_checkout sample_checkout (js ''.'') b) (\<lambda>checkout. tracked_entries sample_git_hash sample_checkout checkout f)) = Inr (bytes, digest, bundle_sample_header)"
proof -
  obtain t where t: "canonical_json (header_value bundle_sample_header) = Inr t" using sample_header_prints by (auto simp: is_ok_iff)
  have small: "byte_length t \<le> 6000" using canonical_byte_bound [OF t wf_header_value] sample_header_small by simp
  have "t \<noteq> []" using t canonical_object by (fastforce simp: header_value_def obj_def simp del: canonical_json.simps)
  then have ne: "byte_length t \<noteq> 0" by (cases t rule: utf8.cases) (auto simp: byte_length_def utf8_unit_def utf8_pair_def Let_def)
  have fmt: "git_object_format_from_oid (js ''aaaaaaaaaaaaaaaaaaaaaaaaaaaaaaaaaaaaaaaa'') = Inr Sha1" by code_simp
  have len: "byte_length (js ''{}'') = 2" by code_simp
  have "byte_length (gi_path bundle_file) = 1" by code_simp
  then have sizes: "length (entry_frame bundle_file) = 15" by (simp add: entry_frame_def byte_length_def) (simp add: bundle_file_def)
  have "length (bundle_bytes t [entry_frame bundle_file]) \<le> max_bundle_bytes"
    using small by (simp add: bundle_bytes_def sizes max_bundle_bytes_def max_source_total_bytes_def max_source_entries_def max_header_bytes_def
      byte_length_def)
  moreover have "concat [entry_frame bundle_file] = entry_frame bundle_file" "int (length [bundle_file]) = 1" by simp_all
  ultimately show ?thesis using small ne t
    by (simp add: create_source_bundle_def sample_bundle_tree sample_bundle_repository sample_bundle_base sample_clean sample_entries_tracked sample_bundle_manifest sample_entries_encoded fmt len Let_def bundle_sample_header_def [symmetric] max_header_bytes_def del: encode_entries.simps)
qed

lemma checkout_entries:
  assumes "bindR (validate_clean_checkout e path b) (\<lambda>checkout. tracked_entries gh e checkout f) = Inr es"
  shows "\<exists>checkout. validate_clean_checkout e path b = Inr checkout \<and> tracked_entries gh e checkout f = Inr es \<and> ordered_after None es
    \<and> length es \<le> max_source_entries \<and> list_all (\<lambda>f. read_tracked_file e checkout (gi_path f) (gi_mode f) = Inr (gi_content f)) es"
  using assms tracked_entries_ordered tracked_entries_read by (fastforce simp: bindR_eq_Inr tracked_entries_def)

lemma checkout_bundle_parses:
  assumes "hash32 h" "bundle_checkout h gh e path repository base manifest = Inr (bytes, digest, header)"
  shows "\<exists>checkout entries. validate_clean_checkout e path (bh_base header) = Inr checkout
    \<and> tracked_entries gh e checkout (bh_object_format header) = Inr entries
    \<and> list_all (\<lambda>f. read_tracked_file e checkout (gi_path f) (gi_mode f) = Inr (gi_content f)) entries
    \<and> parse_source_bundle h gh bytes = Inr \<lparr>sb_header = header, sb_entries = entries, sb_bundle_digest = digest\<rparr>"
  using created_bundle_parses [OF assms(1) assms(2) [unfolded bundle_checkout_def]] checkout_entries by blast

lemma sample_bundle_parses:
  "\<exists>bytes digest. parse_source_bundle sample_hash sample_git_hash bytes = Inr \<lparr>sb_header = bundle_sample_header, sb_entries = [bundle_file], sb_bundle_digest = digest\<rparr>"
proof -
  from bundle_sample_created obtain bytes digest where c: "bundle_checkout sample_hash sample_git_hash sample_checkout (js ''.'') bundle_sample_repository bundle_sample_base
      (JStr (js ''{}'')) = Inr (bytes, digest, bundle_sample_header)" unfolding bundle_checkout_def by blast
  from checkout_bundle_parses [OF hash32_sample c] show ?thesis by (auto simp: sample_clean sample_entries_tracked bundle_sample_header_def)
qed

section \<open>Properties\<close>

text \<open>C31: a bundle made from a checkout is parsed back: the checkout was clean and at the approved commit and tree, every entry has the bytes and the mode
  of a tracked one-link regular file of it that did not change, and parsing the bundle gives the header that was printed, these entries in byte order
  of their paths, and the digest that was returned.\<close>

theorem source_bundle_roundtrip:
  assumes "hash32 h" "bundle_checkout h gh e path repository base manifest = Inr (bytes, digest, header)"
  shows "\<exists>checkout entries. validate_clean_checkout e path (bh_base header) = Inr checkout
    \<and> tracked_entries gh e checkout (bh_object_format header) = Inr entries
    \<and> list_all (\<lambda>f. read_tracked_file e checkout (gi_path f) (gi_mode f) = Inr (gi_content f)) entries
    \<and> parse_source_bundle h gh bytes = Inr \<lparr>sb_header = header, sb_entries = entries, sb_bundle_digest = digest\<rparr>"
  using assms by (rule checkout_bundle_parses)

lemma source_bundle_roundtrip_witness:
  "\<exists>bytes digest. bundle_checkout sample_hash sample_git_hash sample_checkout (js ''.'') bundle_sample_repository bundle_sample_base (JStr (js ''{}''))
      = Inr (bytes, digest, bundle_sample_header)
    \<and> parse_source_bundle sample_hash sample_git_hash bytes = Inr \<lparr>sb_header = bundle_sample_header, sb_entries = [bundle_file], sb_bundle_digest = digest\<rparr>"
proof -
  from bundle_sample_created obtain bytes digest where c: "bundle_checkout sample_hash sample_git_hash sample_checkout (js ''.'') bundle_sample_repository bundle_sample_base
      (JStr (js ''{}'')) = Inr (bytes, digest, bundle_sample_header)" unfolding bundle_checkout_def by blast
  with source_bundle_roundtrip [OF hash32_sample c] show ?thesis by (auto simp: sample_clean sample_entries_tracked bundle_sample_header_def)
qed

text \<open>C32: parsing accepts nothing but canonical bundles: making a bundle again from the parsed header and the parsed entries succeeds and gives
  exactly the bytes that were parsed, with the same digest and the same header. Two byte strings with the same meaning are the same. With a hash of
  32 bytes the parsed bundle also passes the validation that its extraction repeats, unchanged.\<close>

theorem source_bundle_exact:
  assumes "parse_source_bundle h gh bytes = Inr b"
  shows "create_source_bundle h gh (repository_fields (bh_repository (sb_header b))) (base_fields (bh_base (sb_header b)) (bh_object_format (sb_header b)))
      (JStr (bm_canonical_json (bh_manifest (sb_header b)))) (\<lambda>base format. Inr (sb_entries b)) = Inr (bytes, sb_bundle_digest b, sb_header b)
    \<and> (hash32 h \<longrightarrow> validate_parsed_bundle h gh (header_value (sb_header b)) (sb_entries b) (JStr (sb_bundle_digest b)) = Inr b)"
proof -
  let ?hd = "sb_header b" and ?es = "sb_entries b" and ?n = "length bundle_magic"
  let ?len = "be_value (take 4 (drop ?n bytes))" and ?after = "drop (?n + 4) bytes"
  from assms obtain t v frames m rest where c: "length bytes \<le> max_bundle_bytes" "?n + 4 + length bundle_footer \<le> length bytes"
    "take ?n bytes = bundle_magic" "0 < ?len" "?len \<le> max_header_bytes" "?len \<le> length ?after"
    "decode_text (take ?len ?after) = Inr t" "sb_parse_canonical_json t ''source bundle header'' = Inr v" "validate_header h v = Inr ?hd"
    "parse_entries (nat (bh_entry_count ?hd)) None 0 (drop ?len ?after) = Inr (?es, frames, m, rest)"
    "rest = bundle_footer" "int (length ?es) = bh_entry_count ?hd" "int m = bh_total_file_bytes ?hd"
    "sha256 h (concat frames) = bh_entries_digest ?hd" "git_tree_oid gh ?es (bh_object_format ?hd) = Inr (bb_tree_sha (bh_base ?hd))"
    "sb_bundle_digest b = sha256 h bytes"
    by (cases b) (auto simp: parse_source_bundle_def Let_def bindR_eq_Inr not_less split: if_splits)
  from parse_entries_sound [OF c(10)] have entries: "encode_entries 0 ?es = Inr (frames, m)" "drop ?len ?after = concat frames @ bundle_footer"
    using c(11) by blast+
  have t: "take ?len ?after = utf8 t" "byte_length t = ?len" using c(6,7) by (auto simp: decode_text_eq byte_length_def dest: arg_cong [of _ _ length])
  have bytes: "bytes = bundle_bytes t frames"
  proof -
    have "bytes = take ?n bytes @ take 4 (drop ?n bytes) @ take ?len ?after @ drop ?len ?after" by (metis append_take_drop_id drop_drop add.commute)
    moreover have "take 4 (drop ?n bytes) = be_bytes 4 ?len" using c(2) by (simp add: be_bytes_value)
    ultimately show ?thesis unfolding bundle_bytes_def using c(3) t entries(2) by simp
  qed
  note hd = c(9) [unfolded validate_header_eq]
  from c(8) have text_ok: "canonical_json (header_value ?hd) = Inr t" by (intro header_value_text [OF c(9)]) (simp add: sb_parse_eq)
  have "\<lparr>bh_repository = bh_repository ?hd, bh_base = bh_base ?hd, bh_object_format = bh_object_format ?hd, bh_manifest =
      \<lparr>bm_canonical_json = bm_canonical_json (bh_manifest ?hd), bm_byte_length = int (byte_length (bm_canonical_json (bh_manifest ?hd))),
        bm_digest = sha256 h (utf8 (bm_canonical_json (bh_manifest ?hd)))\<rparr>,
      bh_entry_count = int (length ?es), bh_total_file_bytes = int m, bh_entries_digest = sha256 h (concat frames)\<rparr> = ?hd"
    using hd c(12-14) by (cases ?hd; cases "bh_manifest ?hd") simp
  moreover from hd have repo: "sb_validate_repository (get v (js ''repository'')) = Inr (bh_repository ?hd)"
    and base: "sb_validate_base (get v (js ''base'')) = Inr (bh_base ?hd)" and format: "git_object_format_from_oid (bb_sha (bh_base ?hd)) = Inr (bh_object_format ?hd)"
    and manifest: "sb_validate_manifest (get (get v (js ''manifest'')) (js ''canonicalJson'')) = Inr (bm_canonical_json (bh_manifest ?hd))" by blast+
  moreover note sb_repository_again [OF repo] sb_base_again [OF base] manifest [unfolded sb_manifest_same [OF manifest]]
  moreover have "validate_parsed_bundle h gh (header_value ?hd) ?es (JStr (sb_bundle_digest b)) = Inr b" if "hash32 h"
  proof -
    have "check_order None ?es = Inr ?es" using check_order_ok [OF encode_entries_paths [OF entries(1)]] parse_entries_sound [OF c(10)] by blast
    moreover have "sb_digest (JStr (sb_bundle_digest b)) l = Inr (sb_bundle_digest b)" for l using that c(16) by (simp add: sb_digest_eq sha256_is_digest)
    ultimately show ?thesis unfolding validate_parsed_bundle_def header_value_again [OF c(9)] using entries(1) c(12-15) by simp
  qed
  ultimately show ?thesis using format c(1,4,5,15,16) entries(1) text_ok t(2) bytes by (simp add: create_source_bundle_def Let_def not_less)
qed

lemma source_bundle_exact_witness:
  "\<exists>bytes b. parse_source_bundle sample_hash sample_git_hash bytes = Inr b \<and> sb_entries b = [bundle_file] \<and>
    create_source_bundle sample_hash sample_git_hash (repository_fields (bh_repository bundle_sample_header)) (base_fields (bh_base bundle_sample_header) Sha1)
      (JStr (js ''{}'')) (\<lambda>base format. Inr [bundle_file]) = Inr (bytes, sb_bundle_digest b, bundle_sample_header)
    \<and> validate_parsed_bundle sample_hash sample_git_hash (header_value bundle_sample_header) [bundle_file] (JStr (sb_bundle_digest b)) = Inr b"
proof -
  obtain bytes digest where p: "parse_source_bundle sample_hash sample_git_hash bytes = Inr \<lparr>sb_header = bundle_sample_header, sb_entries = [bundle_file], sb_bundle_digest = digest\<rparr>"
    using sample_bundle_parses by blast
  from source_bundle_exact [OF p] p show ?thesis by (intro exI [of _ bytes] exI [of _ "\<lparr>sb_header = bundle_sample_header, sb_entries = [bundle_file], sb_bundle_digest = digest\<rparr>"]) (simp add: bundle_sample_header_def hash32_sample)
qed

end
