(* ===== verification/IpAddress.thy ===== *)
theory IpAddress
  imports Repository
begin

text \<open>
  The address literals of packages/app/src/publication-runner.ts: \<open>isIP\<close> of node:net, the canonical text a literal has in a URL
  (\<open>canonicalIpLiteral\<close>) and the ranges a runner may reach (\<open>isGlobalUnicastLiteral\<close>).
\<close>

section \<open>IPv4\<close>

text \<open>Four decimal octets without leading zeros.\<close>

definition octet :: "jsstr \<Rightarrow> nat option" where
  "octet s = (if s \<noteq> [] \<and> length s \<le> 3 \<and> list_all is_digit s \<and> (hd s \<noteq> 48 \<or> length s = 1) \<and> digits_value s \<le> 255
     then Some (digits_value s) else None)"

definition ip4 :: "jsstr \<Rightarrow> nat list option" where
  "ip4 v = (case map octet (split_on 46 v) of [Some a, Some b, Some c, Some d] \<Rightarrow> Some [a, b, c, d] | _ \<Rightarrow> None)"

section \<open>IPv6\<close>

text \<open>
  Groups of one to four hexadecimal digits, at most one \<open>::\<close> for one or more groups of zeros, and possibly an IPv4 address for the
  last two groups. A zone after \<open>%\<close> is not parsed: every caller has rejected that character before.
\<close>

definition hex_group :: "jsstr \<Rightarrow> nat option" where
  "hex_group s = (if s \<noteq> [] \<and> length s \<le> 4 \<and> list_all (\<lambda>c. hex_value c \<noteq> None) s
     then Some (foldl (\<lambda>n c. 16 * n + the (hex_value c)) 0 s) else None)"

fun group_words :: "bool \<Rightarrow> jsstr list \<Rightarrow> nat list option" where
  "group_words final [] = Some []"
| "group_words final (p # ps) = (case hex_group p of
     Some n \<Rightarrow> map_option (Cons n) (group_words final ps)
   | None \<Rightarrow> if final \<and> ps = [] then map_option (\<lambda>os. [256 * os ! 0 + os ! 1, 256 * os ! 2 + os ! 3]) (ip4 p) else None)"

fun split_double :: "jsstr \<Rightarrow> jsstr \<times> jsstr option" where
  "split_double [] = ([], None)"
| "split_double [c] = ([c], None)"
| "split_double (c # d # s) = (if c = 58 \<and> d = 58 then ([], Some s) else (let (l, r) = split_double (d # s) in (c # l, r)))"

definition colon_parts :: "jsstr \<Rightarrow> jsstr list" where
  "colon_parts s = (if s = [] then [] else split_on 58 s)"

definition ip6 :: "jsstr \<Rightarrow> nat list option" where
  "ip6 v = (case split_double v of
     (l, None) \<Rightarrow> (case group_words True (split_on 58 l) of Some ws \<Rightarrow> if length ws = 8 then Some ws else None | None \<Rightarrow> None)
   | (l, Some r) \<Rightarrow> (case (group_words False (colon_parts l), group_words True (colon_parts r)) of
       (Some ls, Some rs) \<Rightarrow> if length ls + length rs \<le> 7 then Some (ls @ replicate (8 - length ls - length rs) 0 @ rs) else None
     | _ \<Rightarrow> None))"

definition is_ip :: "jsstr \<Rightarrow> nat" where
  "is_ip v = (if ip4 v \<noteq> None then 4 else if ip6 v \<noteq> None then 6 else 0)"

section \<open>Canonical text\<close>

text \<open>
  How a URL writes an IPv6 address: lower-case groups without leading zeros, the first of the longest runs of at least two groups of
  zeros written as \<open>::\<close>.
\<close>

fun hex_text :: "nat \<Rightarrow> jsstr" where
  "hex_text n = (if n < 16 then [hex_char n] else hex_text (n div 16) @ [hex_char (n mod 16)])"

declare hex_text.simps [simp del]

definition zero_run :: "nat list \<Rightarrow> nat" where
  "zero_run ws = length (takeWhile (\<lambda>w. w = 0) ws)"

definition zero_runs :: "nat list \<Rightarrow> nat list" where
  "zero_runs ws = map (\<lambda>i. zero_run (drop i ws)) [0..<length ws]"

definition longest_run :: "nat list \<Rightarrow> (nat \<times> nat) option" where
  "longest_run ws = (let m = fold max (zero_runs ws) 0 in
     if m < 2 then None else Some (length (takeWhile (\<lambda>r. r \<noteq> m) (zero_runs ws)), m))"

definition ip6_text :: "nat list \<Rightarrow> jsstr" where
  "ip6_text ws = (case longest_run ws of
     None \<Rightarrow> join [58] (map hex_text ws)
   | Some (i, m) \<Rightarrow> join [58] (map hex_text (take i ws)) @ [58, 58] @ join [58] (map hex_text (drop (i + m) ws)))"

definition canonical_ip_literal :: "jsstr \<Rightarrow> jsstr" where
  "canonical_ip_literal v = (case ip4 v of
     Some os \<Rightarrow> join [46] (map nat_text os)
   | None \<Rightarrow> (case ip6 v of Some ws \<Rightarrow> ip6_text ws | None \<Rightarrow> []))"

section \<open>Global unicast\<close>

definition reserved_ip4 :: "nat \<Rightarrow> nat \<Rightarrow> nat \<Rightarrow> bool" where
  "reserved_ip4 a b c \<longleftrightarrow> a = 0 \<or> a = 10 \<or> a = 127 \<or> (a = 100 \<and> 64 \<le> b \<and> b \<le> 127) \<or> (a = 169 \<and> b = 254) \<or> (a = 172 \<and> 16 \<le> b \<and> b \<le> 31)
     \<or> (a = 192 \<and> b = 0 \<and> c = 0) \<or> (a = 192 \<and> b = 0 \<and> c = 2) \<or> (a = 192 \<and> b = 168) \<or> (a = 198 \<and> (b = 18 \<or> b = 19))
     \<or> (a = 198 \<and> b = 51 \<and> c = 100) \<or> (a = 203 \<and> b = 0 \<and> c = 113) \<or> 224 \<le> a"

definition global_ip6 :: "nat \<Rightarrow> nat \<Rightarrow> nat \<Rightarrow> bool" where
  "global_ip6 a b c \<longleftrightarrow> 0x2000 \<le> a \<and> a \<le> 0x3ffe \<and> \<not> (a = 0x2001 \<and> b \<le> 0x01ff) \<and> \<not> (a = 0x2001 \<and> b = 0x0db8)
     \<and> \<not> (a = 0x2001 \<and> b = 2 \<and> c = 0) \<and> a \<noteq> 0x2002"

definition is_global_unicast_literal :: "jsstr \<Rightarrow> bool" where
  "is_global_unicast_literal v = (case ip4 v of
     Some os \<Rightarrow> \<not> reserved_ip4 (os ! 0) (os ! 1) (os ! 2)
   | None \<Rightarrow> (case ip6 v of
       None \<Rightarrow> False
     | Some ws \<Rightarrow> 46 \<notin> set v \<and> global_ip6 (ws ! 0) (ws ! 1) (ws ! 2)))"

text \<open>The check on an address literal that the plan of a run and the configuration of the evidence service share.\<close>

definition exact_global_ip :: "jsstr \<Rightarrow> bool" where
  "exact_global_ip v \<longleftrightarrow> v = to_lower v \<and> 37 \<notin> set v \<and> is_ip v \<noteq> 0 \<and> canonical_ip_literal v = v \<and> is_global_unicast_literal v"

section \<open>Lemmas\<close>

text \<open>An address as numbers: the octets or the groups.\<close>

definition ip_number :: "jsstr \<Rightarrow> nat list option" where
  "ip_number v = (case ip4 v of Some os \<Rightarrow> Some os | None \<Rightarrow> ip6 v)"

lemma ip4_length: "ip4 v = Some os \<Longrightarrow> length os = 4"
  by (auto simp: ip4_def split: list.splits option.splits)

lemma ip6_length: "ip6 v = Some ws \<Longrightarrow> length ws = 8"
  by (auto simp: ip6_def split: prod.splits option.splits if_splits)

lemma exact_ip_inject:
  assumes "exact_global_ip v" "exact_global_ip w" "ip_number v = ip_number w"
  shows "v = w"
proof -
  have same: "v = (if length ns = 4 then join [46] (map nat_text ns) else ip6_text ns)" if "exact_global_ip v" "ip_number v = Some ns" for v ns
    using that by (auto simp: exact_global_ip_def canonical_ip_literal_def ip_number_def dest: ip4_length ip6_length split: option.splits)
  have "\<exists>ns. ip_number v = Some ns" using assms(1) by (auto simp: exact_global_ip_def is_ip_def ip_number_def split: option.splits if_splits)
  then obtain ns where "ip_number v = Some ns" by blast
  with same assms show ?thesis by metis
qed

end
