(* ===== verification/RunnerPlan.thy ===== *)
theory RunnerPlan
  imports IpAddress OwnerWire GitTree
begin

text \<open>
  packages/app/src/publication-runner.ts, the plan of a run: the validation of its inputs, the plan with its fixed isolation controls,
  the identity of the job derived from the inputs, and the re-validation of a plan by rebuilding it. A plan is represented by the
  members that vary; \<open>build_plan\<close> writes the whole object.
\<close>

section \<open>Elementary validators\<close>

text \<open>\<open>record\<close>, \<open>exactKeys\<close> and the checks on members. \<open>record\<close> also prints the value, which rejects what JSON cannot express.\<close>

definition rn_record :: "jsval \<Rightarrow> string \<Rightarrow> jsval result" where
  "rn_record v label = (case v of JObj _ _ \<Rightarrow> bindR (canonical_json v) (\<lambda>_. Inr v) | _ \<Rightarrow> throw (label @ '' is invalid''))"

definition rn_exact_keys :: "jsval \<Rightarrow> string list \<Rightarrow> string \<Rightarrow> unit result" where
  "rn_exact_keys v keys label = throw_if (sort (keys_of v) \<noteq> sort (map js keys)) (label @ '' contains missing or unexpected fields'')"

definition rn_fields :: "jsval \<Rightarrow> string list \<Rightarrow> string \<Rightarrow> jsval result" where
  "rn_fields v keys label = bindR (rn_record v label) (\<lambda>root. thenR (rn_exact_keys root keys label) (Inr root))"

definition rn_digest :: "jsval \<Rightarrow> string \<Rightarrow> jsstr result" where
  "rn_digest v label = (case v of JStr s \<Rightarrow> if is_digest s then Inr s else throw (label @ '' is invalid'') | _ \<Rightarrow> throw (label @ '' is invalid''))"

definition bounded_string :: "jsval \<Rightarrow> string \<Rightarrow> nat \<Rightarrow> jsstr result" where
  "bounded_string v label max_bytes = (case v of
     JStr s \<Rightarrow> if s = [] \<or> s \<noteq> trim s \<or> max_bytes < byte_length s then throw (label @ '' is invalid'') else bindR (canonical_json v) (\<lambda>_. Inr s)
   | _ \<Rightarrow> throw (label @ '' is invalid''))"

definition bounded_multiline_string :: "jsval \<Rightarrow> string \<Rightarrow> nat \<Rightarrow> jsstr result" where
  "bounded_multiline_string v label max_bytes = (case v of
     JStr s \<Rightarrow> if s = [] \<or> max_bytes < byte_length s then throw (label @ '' is invalid'') else bindR (canonical_json v) (\<lambda>_. Inr s)
   | _ \<Rightarrow> throw (label @ '' is invalid''))"

definition rn_positive_integer :: "jsval \<Rightarrow> string \<Rightarrow> int result" where
  "rn_positive_integer v label = (case v of
     JNum (JInt n) \<Rightarrow> if \<not> is_safe_integer (JInt n) \<or> n \<le> 0 then throw (label @ '' is invalid'') else Inr n
   | _ \<Rightarrow> throw (label @ '' is invalid''))"

definition rn_timestamp :: "jsval \<Rightarrow> string \<Rightarrow> int result" where
  "rn_timestamp v label = (case v of
     JNum (JInt n) \<Rightarrow> if \<not> is_safe_integer (JInt n) \<or> n \<le> 0 \<or> max_timestamp < n then throw (label @ '' is invalid'') else Inr n
   | _ \<Rightarrow> throw (label @ '' is invalid''))"

definition rn_identifier :: "jsval \<Rightarrow> string \<Rightarrow> jsstr result" where
  "rn_identifier v label = bindR (bounded_string v label 128) (\<lambda>s. if is_identifier s then Inr s else throw (label @ '' is invalid''))"

definition evidence_reference :: "jsval \<Rightarrow> string \<Rightarrow> jsstr result" where
  "evidence_reference v label = bindR (bounded_string v label 500) (\<lambda>s.
     if byte_length s < 6 \<or> list_ex is_control s then throw (label @ '' is invalid'') else Inr s)"

section \<open>The members of a plan\<close>

record runner_subject =
  sj_pilot_id :: jsstr
  sj_repository :: repository_scope
  sj_base :: base_scope

record runner_inputs =
  ri_source_archive_digest :: jsstr
  ri_manifest_digest :: jsstr
  ri_command_scope_digest :: jsstr

record destination =
  ds_host :: jsstr
  ds_addresses :: "jsstr list"
  ds_evidence_digest :: jsstr
  ds_observed_at :: int
  ds_expires_at :: int

record runner_plan =
  rp_job_id :: jsstr
  rp_nonce_digest :: jsstr
  rp_created_at :: int
  rp_expires_at :: int
  rp_subject :: runner_subject
  rp_inputs :: runner_inputs
  rp_image_digest :: jsstr
  rp_destinations :: "destination list"

record runner_output =
  ro_preflight_id :: jsstr
  ro_artifact_digest :: jsstr
  ro_candidate_tree_sha :: jsstr

definition runner_profile :: jsstr where "runner_profile = js ''disposable-egress-filtered-pilot-v1''"

text \<open>\<open>PUBLICATION_RUNNER_COMMAND_SCOPE\<close> and its digest.\<close>

definition phase_value :: "string \<Rightarrow> string \<Rightarrow> bool \<Rightarrow> jsval" where
  "phase_value name network scripts = obj [(js ''name'', JStr (js name)), (js ''network'', JStr (js network)), (js ''repositoryScripts'', JBool scripts)]"

definition command_scope :: jsval where
  "command_scope = obj [
     (js ''schemaVersion'', jint 1),
     (js ''entrypoint'', JStr (js ''/usr/local/bin/api-migrator-runner'')),
     (js ''transformSets'', arr [JStr (js ''inngest-v3-to-v4'')]),
     (js ''packageManagers'', arr [JStr (js ''npm'')]),
     (js ''phases'', arr [phase_value ''prepare'' ''none'' False, phase_value ''install'' ''forced_static_sni_gateway'' False,
        phase_value ''migrate'' ''none'' False, phase_value ''verify'' ''none'' True]),
     (js ''requiredChecks'', arr (map (\<lambda>s. JStr (js s)) [''install'', ''typecheck'', ''test'', ''lint'', ''runtime'']))]"

definition canonical_digest :: "hash \<Rightarrow> jsval \<Rightarrow> jsstr result" where
  "canonical_digest h v = bindR (canonical_json v) (\<lambda>t. Inr (sha256 h (utf8 t)))"

definition command_scope_digest :: "hash \<Rightarrow> jsstr" where
  "command_scope_digest h = (case canonical_digest h command_scope of Inr d \<Rightarrow> d | Inl _ \<Rightarrow> [])"

definition is_pilot_id :: "jsstr \<Rightarrow> bool" where
  "is_pilot_id s \<longleftrightarrow> starts_with (js ''pilot_'') s \<and> 6 \<le> length (drop 6 s) \<and> length (drop 6 s) \<le> 80
     \<and> list_all (\<lambda>c. is_alnum c \<or> in_class ''_-'' c) (drop 6 s)"

definition is_runner_job_id :: "jsstr \<Rightarrow> bool" where
  "is_runner_job_id s \<longleftrightarrow> starts_with (js ''previewjob_'') s \<and> hex_n 64 (drop 11 s)"

definition validate_subject :: "jsval \<Rightarrow> runner_subject result" where
  "validate_subject v =
     bindR (rn_fields v [''pilotId'', ''repository'', ''base''] ''runner subject'') (\<lambda>root.
     bindR (bounded_string (get root (js ''pilotId'')) ''pilot id'' 86) (\<lambda>pilot_id.
     thenR (throw_if (\<not> is_pilot_id pilot_id) ''Publication runner pilot id is invalid'')
    (bindR (rn_fields (get root (js ''repository'')) [''slug'', ''id'', ''ownerId''] ''runner repository'') (\<lambda>repository.
     bindR (bounded_string (get repository (js ''slug'')) ''runner repository slug'' 140) (\<lambda>text.
     bindR (parse_repository_slug text) (\<lambda>parts.
     thenR (throw_if (sl_slug parts \<noteq> to_lower (sl_slug parts)) ''Publication runner repository slug must be canonical lowercase'')
    (bindR (rn_fields (get root (js ''base'')) [''branch'', ''sha''] ''runner base'') (\<lambda>base.
     bindR (bounded_string (get base (js ''sha'')) ''runner base commit'' 64) (\<lambda>sha.
     thenR (throw_if (\<not> is_git_sha sha) ''Publication runner base commit is invalid'')
    (bindR (rn_positive_integer (get repository (js ''id'')) ''runner repository id'') (\<lambda>i.
     bindR (rn_positive_integer (get repository (js ''ownerId'')) ''runner repository owner id'') (\<lambda>owner_id.
     bindR (bounded_string (get base (js ''branch'')) ''runner base branch'' 240) (\<lambda>name.
     bindR (validate_branch_name name) (\<lambda>branch.
     Inr \<lparr>sj_pilot_id = pilot_id, sj_repository = \<lparr>rs_slug = sl_slug parts, rs_id = i, rs_owner_id = owner_id\<rparr>,
       sj_base = \<lparr>bs_branch = branch, bs_sha = sha\<rparr>\<rparr>))))))))))))))"

definition validate_inputs :: "hash \<Rightarrow> jsval \<Rightarrow> runner_inputs result" where
  "validate_inputs h v =
     bindR (rn_fields v [''sourceArchiveDigest'', ''manifestDigest'', ''commandScopeDigest''] ''runner immutable inputs'') (\<lambda>root.
     bindR (rn_digest (get root (js ''commandScopeDigest'')) ''command scope digest'') (\<lambda>scope.
     thenR (throw_if (scope \<noteq> command_scope_digest h) ''Publication runner command scope is not the code-owned v1 scope'')
    (bindR (rn_digest (get root (js ''sourceArchiveDigest'')) ''source archive digest'') (\<lambda>source.
     bindR (rn_digest (get root (js ''manifestDigest'')) ''manifest digest'') (\<lambda>manifest.
     Inr \<lparr>ri_source_archive_digest = source, ri_manifest_digest = manifest, ri_command_scope_digest = scope\<rparr>)))))"

definition validate_runner_output :: "jsval \<Rightarrow> runner_output result" where
  "validate_runner_output v =
     bindR (rn_fields v [''preflightId'', ''artifactDigest'', ''candidateTreeSha''] ''runner reviewed output'') (\<lambda>root.
     bindR (bounded_string (get root (js ''preflightId'')) ''runner preflight id'' 67) (\<lambda>preflight.
     bindR (bounded_string (get root (js ''candidateTreeSha'')) ''candidate tree commit'' 64) (\<lambda>tree.
     thenR (throw_if (\<not> is_preflight_id preflight \<or> \<not> is_git_sha tree) ''Publication runner reviewed output identity is invalid'')
    (bindR (rn_digest (get root (js ''artifactDigest'')) ''artifact digest'') (\<lambda>artifact.
     Inr \<lparr>ro_preflight_id = preflight, ro_artifact_digest = artifact, ro_candidate_tree_sha = tree\<rparr>)))))"

section \<open>Destinations\<close>

definition migration_hosts :: "jsstr list" where "migration_hosts = [js ''registry.npmjs.org'']"
definition resolution_max_age_ms :: int where "resolution_max_age_ms = 5 * 60 * 1000"
definition resolution_max_ttl_ms :: int where "resolution_max_ttl_ms = 30 * 60 * 1000"
definition plan_min_ttl_ms :: int where "plan_min_ttl_ms = 60 * 1000"
definition plan_max_ttl_ms :: int where "plan_max_ttl_ms = 15 * 60 * 1000"

text \<open>\<open>/^[a-z0-9](?:[a-z0-9.-]{0,251}[a-z0-9])?$/\<close>.\<close>

definition host_char :: "code_unit \<Rightarrow> bool" where
  "host_char c \<longleftrightarrow> is_lower c \<or> is_digit c"

definition is_host :: "jsstr \<Rightarrow> bool" where
  "is_host s \<longleftrightarrow> (case s of [] \<Rightarrow> False | c # cs \<Rightarrow>
     host_char c \<and> (cs = [] \<or> (length cs \<le> 252 \<and> list_all (\<lambda>d. host_char d \<or> in_class ''.-'' d) (butlast cs) \<and> host_char (last cs))))"

definition validate_address :: "jsval \<Rightarrow> jsstr result" where
  "validate_address v = bindR (bounded_string v ''installation egress address'' 64) (\<lambda>s.
     if exact_global_ip s then Inr s else throw ''Publication runner installation egress address must be an exact global-unicast IP'')"

definition validate_destination :: "int \<Rightarrow> int \<Rightarrow> jsval \<Rightarrow> destination result" where
  "validate_destination created_at plan_expires_at v =
     bindR (rn_fields v [''host'', ''protocol'', ''port'', ''tls'', ''addresses'', ''resolutionEvidenceDigest'', ''resolutionObservedAt'', ''resolutionExpiresAt'']
       ''installation egress destination'') (\<lambda>root.
     bindR (bounded_string (get root (js ''host'')) ''installation egress host'' 253) (\<lambda>host.
     thenR (throw_if (host \<noteq> to_lower host \<or> \<not> is_host host \<or> is_ip host \<noteq> 0 \<or> get root (js ''protocol'') \<noteq> JStr (js ''tcp'')
         \<or> get root (js ''port'') \<noteq> jint 443 \<or> get root (js ''tls'') \<noteq> JBool True)
       ''Publication runner installation egress requires a canonical TLS host on TCP 443'')
    (thenR (throw_if (case get root (js ''addresses'') of JArr n _ \<Rightarrow> n < 1 \<or> 32 < n | _ \<Rightarrow> True)
       ''Publication runner installation egress addresses are missing or excessive'')
    (bindR (mapR validate_address (elements (get root (js ''addresses'')))) (\<lambda>literals.
     thenR (throw_if (\<not> distinct literals) ''Publication runner installation egress contains duplicate addresses'')
    (bindR (rn_timestamp (get root (js ''resolutionObservedAt'')) ''resolution observation time'') (\<lambda>observed.
     bindR (rn_timestamp (get root (js ''resolutionExpiresAt'')) ''resolution expiry'') (\<lambda>expires.
     thenR (throw_if (created_at < observed \<or> resolution_max_age_ms < created_at - observed \<or> expires < plan_expires_at
         \<or> expires \<le> observed \<or> resolution_max_ttl_ms < expires - observed)
       ''Publication runner DNS resolution evidence is stale or unbounded'')
    (bindR (rn_digest (get root (js ''resolutionEvidenceDigest'')) ''resolution evidence digest'') (\<lambda>evidence.
     Inr \<lparr>ds_host = host, ds_addresses = sort literals, ds_evidence_digest = evidence, ds_observed_at = observed, ds_expires_at = expires\<rparr>))))))))))"

text \<open>With one host the list has one element, and sorting it by host changes nothing.\<close>

definition normalize_destinations :: "jsval \<Rightarrow> int \<Rightarrow> int \<Rightarrow> destination list result" where
  "normalize_destinations v created_at plan_expires_at = (case v of
     JArr n _ \<Rightarrow>
       (if n \<noteq> length migration_hosts then throw ''Publication runner installation egress must contain the exact destination set''
        else bindR (mapR (validate_destination created_at plan_expires_at) (elements v)) (\<lambda>ds.
          if join [0] (map ds_host ds) \<noteq> join [0] (sort migration_hosts)
          then throw ''Publication runner installation egress destination is not allowlisted'' else Inr ds))
   | _ \<Rightarrow> throw ''Publication runner installation egress must contain the exact destination set'')"

section \<open>The plan as a value\<close>

definition subject_value :: "runner_subject \<Rightarrow> jsval" where
  "subject_value s = obj [(js ''pilotId'', JStr (sj_pilot_id s)), (js ''repository'', repository_value (sj_repository s)), (js ''base'', base_value (sj_base s))]"

definition inputs_value :: "runner_inputs \<Rightarrow> jsval" where
  "inputs_value i = obj [(js ''sourceArchiveDigest'', JStr (ri_source_archive_digest i)), (js ''manifestDigest'', JStr (ri_manifest_digest i)),
     (js ''commandScopeDigest'', JStr (ri_command_scope_digest i))]"

definition output_value :: "runner_output \<Rightarrow> jsval" where
  "output_value r = obj [(js ''preflightId'', JStr (ro_preflight_id r)), (js ''artifactDigest'', JStr (ro_artifact_digest r)),
     (js ''candidateTreeSha'', JStr (ro_candidate_tree_sha r))]"

definition destination_value :: "destination \<Rightarrow> jsval" where
  "destination_value d = obj [(js ''host'', JStr (ds_host d)), (js ''protocol'', JStr (js ''tcp'')), (js ''port'', jint 443), (js ''tls'', JBool True),
     (js ''addresses'', arr (map JStr (ds_addresses d))), (js ''resolutionEvidenceDigest'', JStr (ds_evidence_digest d)),
     (js ''resolutionObservedAt'', jint (ds_observed_at d)), (js ''resolutionExpiresAt'', jint (ds_expires_at d))]"

definition egress_policy_value :: "destination list \<Rightarrow> jsval" where
  "egress_policy_value ds = obj [(js ''schemaVersion'', jint 1), (js ''phase'', JStr (js ''dependency_install'')),
     (js ''enforcement'', JStr (js ''host_nftables_output_exact_ip_tcp443'')), (js ''dnsInsideJob'', JStr (js ''disabled'')),
     (js ''applicationLayerEnforcement'', JStr (js ''external_l7_gateway_required'')), (js ''destinations'', arr (map destination_value ds))]"

definition egress_policy_digest :: "hash \<Rightarrow> destination list \<Rightarrow> jsstr result" where
  "egress_policy_digest h ds = canonical_digest h (egress_policy_value ds)"

text \<open>\<open>deriveJobId\<close>: the id of the job does not enter its own derivation.\<close>

definition job_identity :: "runner_plan \<Rightarrow> jsval" where
  "job_identity p = obj [(js ''nonceDigest'', JStr (rp_nonce_digest p)), (js ''createdAt'', jint (rp_created_at p)), (js ''expiresAt'', jint (rp_expires_at p)),
     (js ''subject'', subject_value (rp_subject p)), (js ''inputs'', inputs_value (rp_inputs p)), (js ''imageDigest'', JStr (rp_image_digest p)),
     (js ''installEgressPolicy'', egress_policy_value (rp_destinations p))]"

definition derive_job_id :: "hash \<Rightarrow> runner_plan \<Rightarrow> jsstr result" where
  "derive_job_id h p = bindR (canonical_json (job_identity p)) (\<lambda>t. Inr (js ''previewjob_'' @ sha256_hex h (utf8 t)))"

definition job_value :: "runner_plan \<Rightarrow> jsval" where
  "job_value p = obj [(js ''id'', JStr (rp_job_id p)), (js ''nonceDigest'', JStr (rp_nonce_digest p)), (js ''createdAt'', jint (rp_created_at p)),
     (js ''expiresAt'', jint (rp_expires_at p)), (js ''disposable'', JBool True)]"

definition egress_value :: "jsstr \<Rightarrow> destination list \<Rightarrow> jsval" where
  "egress_value policy_digest ds = obj [(js ''enforcement'', JStr (js ''host_nftables_output_exact_ip_tcp443'')), (js ''dnsInsideJob'', JStr (js ''disabled'')),
     (js ''install'', obj [(js ''destinations'', arr (map destination_value ds)), (js ''policyDigest'', JStr policy_digest),
        (js ''applicationLayerEnforcement'', JStr (js ''external_l7_gateway_required''))]),
     (js ''checks'', obj [(js ''network'', JStr (js ''none''))])]"

definition storage_value :: jsval where
  "storage_value = obj [(js ''enforcement'', JStr (js ''bounded_tmpfs'')), (js ''workspaceBytes'', jint 1073741824), (js ''workspaceInodes'', jint 200000),
     (js ''maxLogBytesPerPhase'', jint 10485760), (js ''maxRunnerEvidenceBytes'', jint 98304), (js ''maxOutputBytes'', jint 536870912),
     (js ''maxOutputFileBytes'', jint 268435456), (js ''maxOutputEntries'', jint 50000), (js ''maxOutputDepth'', jint 64)]"

definition execution_identity :: "runner_plan \<Rightarrow> jsstr" where
  "execution_identity p = rp_job_id p @ js '':migration''"

definition execution_value :: "jsstr \<Rightarrow> jsstr \<Rightarrow> jsval" where
  "execution_value identity policy_digest = obj [(js ''identity'', JStr identity), (js ''credentials'', JStr (js ''none'')),
     (js ''repositoryCodeExecution'', JBool True), (js ''sourceReadOnly'', JBool True),
     (js ''writableOutput'', JStr (js ''bounded_tmpfs_then_root_sealed_transfer'')), (js ''rootlessContainer'', JBool True), (js ''readOnlyRoot'', JBool True),
     (js ''capabilities'', JStr (js ''none'')), (js ''noNewPrivileges'', JBool True), (js ''proxyEnvironment'', JStr (js ''absent'')),
     (js ''dependencyLifecycleScripts'', JStr (js ''disabled'')), (js ''onlinePhase'', JStr (js ''dependency_install_only'')),
     (js ''phaseOrder'', arr (map (\<lambda>s. JStr (js s)) [''offline_preparation'', ''dependency_install'', ''migration'', ''verification''])),
     (js ''installEgressPolicyDigest'', JStr policy_digest), (js ''checksNetwork'', JStr (js ''none'')),
     (js ''requiredChecks'', arr (map (\<lambda>s. JStr (js s)) [''install'', ''typecheck'', ''test'', ''lint'', ''runtime''])),
     (js ''outputBinding'', JStr (js ''signed_attestation_reviewed_output'')), (js ''storage'', storage_value)]"

definition teardown_value :: jsval where
  "teardown_value = obj [(js ''destroyContainer'', JBool True), (js ''destroyWorkspace'', JBool True), (js ''destroyNetworkNamespace'', JBool True),
     (js ''removeNftablesPolicy'', JBool True), (js ''evidenceRequired'', JBool True)]"

text \<open>\<open>buildPlan\<close>, with the digest of the policy that it calculates.\<close>

definition plan_value :: "runner_plan \<Rightarrow> jsstr \<Rightarrow> jsval" where
  "plan_value p policy_digest = obj [(js ''schemaVersion'', jint 1), (js ''profile'', JStr runner_profile), (js ''job'', job_value p),
     (js ''subject'', subject_value (rp_subject p)), (js ''inputs'', inputs_value (rp_inputs p)), (js ''imageDigest'', JStr (rp_image_digest p)),
     (js ''egress'', egress_value policy_digest (rp_destinations p)), (js ''execution'', execution_value (execution_identity p) policy_digest),
     (js ''teardown'', teardown_value)]"

definition build_plan :: "hash \<Rightarrow> runner_plan \<Rightarrow> jsval result" where
  "build_plan h p = bindR (egress_policy_digest h (rp_destinations p)) (\<lambda>d. Inr (plan_value p d))"

record plan_record =
  pr_plan :: runner_plan
  pr_policy_digest :: jsstr
  pr_canonical_json :: jsstr
  pr_digest :: jsstr

definition record_for_plan :: "hash \<Rightarrow> runner_plan \<Rightarrow> plan_record result" where
  "record_for_plan h p =
     bindR (egress_policy_digest h (rp_destinations p)) (\<lambda>d.
     bindR (canonical_json (plan_value p d)) (\<lambda>t.
     Inr \<lparr>pr_plan = p, pr_policy_digest = d, pr_canonical_json = t, pr_digest = sha256 h (utf8 t)\<rparr>))"

section \<open>Creating and validating plans\<close>

record plan_input =
  pi_pilot_id :: jsval
  pi_repository :: jsval
  pi_base :: jsval
  pi_source_archive_digest :: jsval
  pi_manifest_digest :: jsval
  pi_image_digest :: jsval
  pi_egress :: jsval
  pi_expires_at :: jsval
  pi_now :: jsval

definition assert_plan_lifetime :: "int \<Rightarrow> int \<Rightarrow> unit result" where
  "assert_plan_lifetime created_at expires_at = throw_if (expires_at - created_at < plan_min_ttl_ms \<or> plan_max_ttl_ms < expires_at - created_at)
     ''Publication runner plan lifetime must be between 1 and 15 minutes''"

text \<open>\<open>normalizePublicationRunnerPlanInput\<close>: the plan without its job id and nonce.\<close>

definition normalize_plan_input :: "hash \<Rightarrow> int \<Rightarrow> plan_input \<Rightarrow> runner_plan result" where
  "normalize_plan_input h clock i =
     bindR (rn_timestamp (if pi_now i = JUndef \<or> pi_now i = JNull then jint clock else pi_now i) ''plan creation time'') (\<lambda>created_at.
     bindR (rn_timestamp (pi_expires_at i) ''plan expiry'') (\<lambda>expires_at.
     thenR (assert_plan_lifetime created_at expires_at)
    (bindR (validate_subject (obj [(js ''pilotId'', pi_pilot_id i), (js ''repository'', pi_repository i), (js ''base'', pi_base i)])) (\<lambda>subject.
     bindR (validate_inputs h (obj [(js ''sourceArchiveDigest'', pi_source_archive_digest i), (js ''manifestDigest'', pi_manifest_digest i),
       (js ''commandScopeDigest'', JStr (command_scope_digest h))])) (\<lambda>inputs.
     bindR (rn_digest (pi_image_digest i) ''migration image digest'') (\<lambda>image.
     bindR (normalize_destinations (pi_egress i) created_at expires_at) (\<lambda>destinations.
     Inr \<lparr>rp_job_id = [], rp_nonce_digest = [], rp_created_at = created_at, rp_expires_at = expires_at, rp_subject = subject, rp_inputs = inputs,
       rp_image_digest = image, rp_destinations = destinations\<rparr>)))))))"

definition create_plan :: "hash \<Rightarrow> int \<Rightarrow> byte list \<Rightarrow> plan_input \<Rightarrow> plan_record result" where
  "create_plan h clock random i =
     bindR (normalize_plan_input h clock i) (\<lambda>p.
       let q = p\<lparr>rp_nonce_digest := sha256 h random\<rparr> in
       bindR (derive_job_id h q) (\<lambda>job_id. record_for_plan h (q\<lparr>rp_job_id := job_id\<rparr>)))"

definition plan_keys :: "string list" where
  "plan_keys = [''schemaVersion'', ''profile'', ''job'', ''subject'', ''inputs'', ''imageDigest'', ''egress'', ''execution'', ''teardown'']"

definition validate_plan :: "hash \<Rightarrow> jsval \<Rightarrow> plan_record result" where
  "validate_plan h v =
     bindR (rn_fields v plan_keys ''publication runner plan'') (\<lambda>root.
     thenR (throw_if (get root (js ''schemaVersion'') \<noteq> jint 1 \<or> get root (js ''profile'') \<noteq> JStr runner_profile) ''Publication runner plan profile is unsupported'')
    (bindR (rn_fields (get root (js ''job'')) [''id'', ''nonceDigest'', ''createdAt'', ''expiresAt'', ''disposable''] ''runner job'') (\<lambda>job.
     bindR (bounded_string (get job (js ''id'')) ''runner job id'' 76) (\<lambda>job_id.
     thenR (throw_if (\<not> is_runner_job_id job_id \<or> get job (js ''disposable'') \<noteq> JBool True) ''Publication runner job identity is invalid or not disposable'')
    (bindR (rn_digest (get job (js ''nonceDigest'')) ''runner nonce digest'') (\<lambda>nonce.
     bindR (rn_timestamp (get job (js ''createdAt'')) ''plan creation time'') (\<lambda>created_at.
     bindR (rn_timestamp (get job (js ''expiresAt'')) ''plan expiry'') (\<lambda>expires_at.
     thenR (assert_plan_lifetime created_at expires_at)
    (bindR (validate_subject (get root (js ''subject''))) (\<lambda>subject.
     bindR (validate_inputs h (get root (js ''inputs''))) (\<lambda>inputs.
     bindR (rn_digest (get root (js ''imageDigest'')) ''migration image digest'') (\<lambda>image.
     bindR (rn_fields (get root (js ''egress'')) [''enforcement'', ''dnsInsideJob'', ''install'', ''checks''] ''runner egress policy'') (\<lambda>egress.
     bindR (rn_fields (get egress (js ''install'')) [''destinations'', ''policyDigest'', ''applicationLayerEnforcement''] ''installation egress policy'') (\<lambda>install.
     bindR (normalize_destinations (get install (js ''destinations'')) created_at expires_at) (\<lambda>destinations.
     let p = \<lparr>rp_job_id = job_id, rp_nonce_digest = nonce, rp_created_at = created_at, rp_expires_at = expires_at, rp_subject = subject, rp_inputs = inputs,
       rp_image_digest = image, rp_destinations = destinations\<rparr> in
     bindR (derive_job_id h p) (\<lambda>expected_id.
     thenR (throw_if (job_id \<noteq> expected_id) ''Publication runner job identity does not bind its inputs and installation egress policy'')
    (bindR (build_plan h p) (\<lambda>expected.
     bindR (canonical_json root) (\<lambda>root_text.
     bindR (canonical_json expected) (\<lambda>expected_text.
     thenR (throw_if (root_text \<noteq> expected_text) ''Publication runner plan contains unsupported or weakened controls'')
       (record_for_plan h p)))))))))))))))))))))"

text \<open>A plan record comes from a caller: an object of any shape whose three members are read.\<close>

definition plan_record_value :: "plan_record \<Rightarrow> jsval" where
  "plan_record_value r = obj [(js ''plan'', plan_value (pr_plan r) (pr_policy_digest r)), (js ''canonicalJson'', JStr (pr_canonical_json r)),
     (js ''digest'', JStr (pr_digest r))]"

definition validate_plan_record :: "hash \<Rightarrow> jsval \<Rightarrow> plan_record result" where
  "validate_plan_record h v =
     thenR (throw_if (case v of JObj _ _ \<Rightarrow> False | JArr _ _ \<Rightarrow> False | _ \<Rightarrow> True) ''Publication runner plan record is missing'')
    (bindR (validate_plan h (get v (js ''plan''))) (\<lambda>validated.
       if get v (js ''canonicalJson'') \<noteq> JStr (pr_canonical_json validated) \<or> get v (js ''digest'') \<noteq> JStr (pr_digest validated)
       then throw ''Publication runner plan record digest or canonical bytes do not match'' else Inr validated))"

definition assert_plan_current :: "hash \<Rightarrow> jsval \<Rightarrow> jsval \<Rightarrow> plan_record result" where
  "assert_plan_current h v now =
     bindR (validate_plan_record h v) (\<lambda>current.
     bindR (rn_timestamp now ''runner execution clock'') (\<lambda>observed_at.
     thenR (throw_if (observed_at < rp_created_at (pr_plan current) \<or> rp_expires_at (pr_plan current) \<le> observed_at)
       ''Publication runner plan is not currently valid'') (Inr current)))"

end
