(* ===== verification/RunnerAttestation.thy ===== *)
theory RunnerAttestation
  imports RunnerPlan
begin

text \<open>
  packages/app/src/publication-runner.ts, the attestation of a run: the signed envelope of the control plane, checked against the plan of
  the run, the separately reviewed output and the pinned key, and the in-process capability the check hands out. The functions of
  node:crypto are the fields of \<open>crypto\<close>.
\<close>

section \<open>The attested facts\<close>

record check_evidence =
  ce_reference :: jsstr
  ce_digest :: jsstr

record runner_checks =
  ck_install :: check_evidence
  ck_typecheck :: check_evidence
  ck_test :: check_evidence
  ck_lint :: check_evidence
  ck_runtime :: check_evidence

record attested_execution =
  ae_identity :: jsstr
  ae_image_digest :: jsstr
  ae_instance_digest :: jsstr
  ae_started_at :: int
  ae_finished_at :: int
  ae_policy_digest :: jsstr
  ae_egress_reference :: jsstr
  ae_egress_digest :: jsstr
  ae_checks :: runner_checks
  ae_output_digest :: jsstr
  ae_tree_sha :: jsstr
  ae_reference :: jsstr
  ae_digest :: jsstr

record attested_teardown =
  td_containers_at :: int
  td_network_at :: int
  td_nftables_at :: int
  td_workspace_at :: int
  td_reference :: jsstr
  td_digest :: jsstr

record attestation =
  at_plan_digest :: jsstr
  at_job_id :: jsstr
  at_instance_digest :: jsstr
  at_subject :: runner_subject
  at_inputs :: runner_inputs
  at_output :: runner_output
  at_execution :: attested_execution
  at_teardown :: attested_teardown
  at_observed_at :: int

definition validate_check :: "string \<Rightarrow> jsval \<Rightarrow> check_evidence result" where
  "validate_check name v =
     bindR (rn_fields v [''status'', ''evidenceReference'', ''evidenceDigest''] (name @ '' check'')) (\<lambda>root.
     thenR (throw_if (get root (js ''status'') \<noteq> JStr (js ''passed'')) (''Runner '' @ name @ '' check did not pass''))
    (bindR (evidence_reference (get root (js ''evidenceReference'')) (name @ '' check evidence'')) (\<lambda>reference.
     bindR (rn_digest (get root (js ''evidenceDigest'')) (name @ '' check evidence digest'')) (\<lambda>digest.
     Inr \<lparr>ce_reference = reference, ce_digest = digest\<rparr>))))"

definition validate_checks :: "jsval \<Rightarrow> runner_checks result" where
  "validate_checks v =
     bindR (rn_fields v [''install'', ''typecheck'', ''test'', ''lint'', ''runtime''] ''runner checks'') (\<lambda>root.
     bindR (validate_check ''install'' (get root (js ''install''))) (\<lambda>install.
     bindR (validate_check ''typecheck'' (get root (js ''typecheck''))) (\<lambda>typecheck.
     bindR (validate_check ''test'' (get root (js ''test''))) (\<lambda>test.
     bindR (validate_check ''lint'' (get root (js ''lint''))) (\<lambda>lint.
     bindR (validate_check ''runtime'' (get root (js ''runtime''))) (\<lambda>runtime.
     Inr \<lparr>ck_install = install, ck_typecheck = typecheck, ck_test = test, ck_lint = lint, ck_runtime = runtime\<rparr>))))))"

definition execution_keys :: "string list" where
  "execution_keys = [''identity'', ''imageDigest'', ''executionInstanceDigest'', ''startedAt'', ''finishedAt'', ''credentialsObserved'', ''sourceReadOnly'',
     ''proxyEnvironmentObserved'', ''installEgressPolicyDigest'', ''egressEvidenceReference'', ''egressEvidenceDigest'', ''checksNetwork'', ''checks'',
     ''outputArtifactDigest'', ''candidateTreeSha'', ''status'', ''evidenceReference'', ''evidenceDigest'']"

definition validate_execution_attestation :: "plan_record \<Rightarrow> runner_output \<Rightarrow> jsval \<Rightarrow> attested_execution result" where
  "validate_execution_attestation plan out v =
     bindR (rn_fields v execution_keys ''runner execution attestation'') (\<lambda>root.
     thenR (throw_if (get root (js ''identity'') \<noteq> JStr (execution_identity (pr_plan plan)) \<or> get root (js ''imageDigest'') \<noteq> JStr (rp_image_digest (pr_plan plan))
         \<or> get root (js ''credentialsObserved'') \<noteq> JStr (js ''none'') \<or> get root (js ''sourceReadOnly'') \<noteq> JBool True
         \<or> get root (js ''proxyEnvironmentObserved'') \<noteq> JStr (js ''absent'') \<or> get root (js ''installEgressPolicyDigest'') \<noteq> JStr (pr_policy_digest plan)
         \<or> get root (js ''checksNetwork'') \<noteq> JStr (js ''none'') \<or> get root (js ''outputArtifactDigest'') \<noteq> JStr (ro_artifact_digest out)
         \<or> get root (js ''candidateTreeSha'') \<noteq> JStr (ro_candidate_tree_sha out) \<or> get root (js ''status'') \<noteq> JStr (js ''passed''))
       ''Runner execution attestation does not satisfy the fixed phase policy'')
    (bindR (rn_digest (get root (js ''executionInstanceDigest'')) ''execution instance-set digest'') (\<lambda>instance_digest.
     bindR (rn_timestamp (get root (js ''startedAt'')) ''runner execution start'') (\<lambda>started.
     bindR (rn_timestamp (get root (js ''finishedAt'')) ''runner execution finish'') (\<lambda>finished.
     bindR (evidence_reference (get root (js ''egressEvidenceReference'')) ''egress evidence'') (\<lambda>egress_reference.
     bindR (rn_digest (get root (js ''egressEvidenceDigest'')) ''egress evidence digest'') (\<lambda>egress_digest.
     bindR (validate_checks (get root (js ''checks''))) (\<lambda>checks.
     bindR (evidence_reference (get root (js ''evidenceReference'')) ''execution evidence'') (\<lambda>reference.
     bindR (rn_digest (get root (js ''evidenceDigest'')) ''execution evidence digest'') (\<lambda>digest.
     Inr \<lparr>ae_identity = execution_identity (pr_plan plan), ae_image_digest = rp_image_digest (pr_plan plan), ae_instance_digest = instance_digest,
       ae_started_at = started, ae_finished_at = finished, ae_policy_digest = pr_policy_digest plan, ae_egress_reference = egress_reference,
       ae_egress_digest = egress_digest, ae_checks = checks, ae_output_digest = ro_artifact_digest out, ae_tree_sha = ro_candidate_tree_sha out,
       ae_reference = reference, ae_digest = digest\<rparr>))))))))))"

definition teardown_keys :: "string list" where
  "teardown_keys = [''containersDestroyedAt'', ''networkNamespaceDestroyedAt'', ''nftablesPolicyRemovedAt'', ''workspaceDestroyedAt'', ''complete'',
     ''evidenceReference'', ''evidenceDigest'']"

definition validate_teardown_attestation :: "jsval \<Rightarrow> attested_teardown result" where
  "validate_teardown_attestation v =
     bindR (rn_fields v teardown_keys ''runner teardown attestation'') (\<lambda>root.
     thenR (throw_if (get root (js ''complete'') \<noteq> JBool True) ''Runner teardown is incomplete'')
    (bindR (rn_timestamp (get root (js ''containersDestroyedAt'')) ''container destruction time'') (\<lambda>containers.
     bindR (rn_timestamp (get root (js ''networkNamespaceDestroyedAt'')) ''network namespace destruction time'') (\<lambda>network.
     bindR (rn_timestamp (get root (js ''nftablesPolicyRemovedAt'')) ''nftables removal time'') (\<lambda>nftables.
     bindR (rn_timestamp (get root (js ''workspaceDestroyedAt'')) ''workspace destruction time'') (\<lambda>workspace.
     bindR (evidence_reference (get root (js ''evidenceReference'')) ''teardown evidence'') (\<lambda>reference.
     bindR (rn_digest (get root (js ''evidenceDigest'')) ''teardown evidence digest'') (\<lambda>digest.
     Inr \<lparr>td_containers_at = containers, td_network_at = network, td_nftables_at = nftables, td_workspace_at = workspace,
       td_reference = reference, td_digest = digest\<rparr>))))))))"

text \<open>Comparisons of canonical texts, in order, up to the first that differs.\<close>

fun same_texts :: "(jsval \<times> jsval) list \<Rightarrow> bool result" where
  "same_texts [] = Inr True"
| "same_texts ((v, w) # ps) = bindR (canonical_json v) (\<lambda>s. bindR (canonical_json w) (\<lambda>t. if s = t then same_texts ps else Inr False))"

definition timeline_ok :: "runner_plan \<Rightarrow> attested_execution \<Rightarrow> attested_teardown \<Rightarrow> int \<Rightarrow> bool" where
  "timeline_ok p x d observed \<longleftrightarrow> rp_created_at p \<le> ae_started_at x \<and> ae_started_at x \<le> ae_finished_at x \<and> ae_finished_at x \<le> td_containers_at d
     \<and> td_containers_at d \<le> td_network_at d \<and> td_network_at d \<le> td_nftables_at d \<and> td_containers_at d \<le> td_workspace_at d
     \<and> td_nftables_at d \<le> observed \<and> td_workspace_at d \<le> observed \<and> observed < rp_expires_at p"

definition attestation_keys :: "string list" where
  "attestation_keys = [''schemaVersion'', ''profile'', ''planDigest'', ''jobId'', ''runnerInstanceDigest'', ''subject'', ''inputs'', ''output'', ''execution'',
     ''teardown'', ''observedAt'']"

definition validate_attestation_payload :: "hash \<Rightarrow> plan_record \<Rightarrow> runner_output \<Rightarrow> jsval \<Rightarrow> attestation result" where
  "validate_attestation_payload h plan out v =
     bindR (rn_fields v attestation_keys ''runner attestation'') (\<lambda>root.
     thenR (throw_if (get root (js ''schemaVersion'') \<noteq> jint 1 \<or> get root (js ''profile'') \<noteq> JStr runner_profile) ''Runner attestation profile is unsupported'')
    (bindR (rn_digest (get root (js ''planDigest'')) ''attested plan digest'') (\<lambda>plan_digest.
     bindR (canonical_digest h (plan_value (pr_plan plan) (pr_policy_digest plan))) (\<lambda>expected_digest.
     thenR (throw_if (plan_digest \<noteq> expected_digest) ''Runner attestation does not bind the expected plan'')
    (bindR (bounded_string (get root (js ''jobId'')) ''attested job id'' 76) (\<lambda>job_id.
     thenR (throw_if (job_id \<noteq> rp_job_id (pr_plan plan)) ''Runner attestation job identity does not match'')
    (bindR (rn_digest (get root (js ''runnerInstanceDigest'')) ''runner instance digest'') (\<lambda>instance_digest.
     bindR (validate_subject (get root (js ''subject''))) (\<lambda>subject.
     bindR (validate_inputs h (get root (js ''inputs''))) (\<lambda>inputs.
     bindR (validate_runner_output (get root (js ''output''))) (\<lambda>output.
     bindR (same_texts [(subject_value subject, subject_value (rp_subject (pr_plan plan))), (inputs_value inputs, inputs_value (rp_inputs (pr_plan plan))),
       (output_value output, output_value out)]) (\<lambda>same.
     thenR (throw_if (\<not> same) ''Runner attestation immutable input or output binding does not match'')
    (bindR (validate_execution_attestation plan out (get root (js ''execution''))) (\<lambda>execution.
     bindR (validate_teardown_attestation (get root (js ''teardown''))) (\<lambda>teardown.
     bindR (rn_timestamp (get root (js ''observedAt'')) ''runner attestation observation time'') (\<lambda>observed.
     thenR (throw_if (\<not> timeline_ok (pr_plan plan) execution teardown observed) ''Runner attestation execution or teardown timeline is invalid'')
    (Inr \<lparr>at_plan_digest = plan_digest, at_job_id = job_id, at_instance_digest = instance_digest, at_subject = subject, at_inputs = inputs,
       at_output = output, at_execution = execution, at_teardown = teardown, at_observed_at = observed\<rparr>)))))))))))))))))"

section \<open>The pinned key\<close>

record attestation_trust =
  tr_key_id :: jsstr
  tr_public_key_pem :: jsstr
  tr_fingerprint :: jsstr
  tr_valid_from :: int
  tr_valid_until :: int
  tr_revoked_at :: "int option"

definition import_attestation_key :: "'k crypto \<Rightarrow> jsstr \<Rightarrow> 'k result" where
  "import_attestation_key cr pem = (case cr_import cr pem of
     Some key \<Rightarrow> (case cr_pem cr key of
         Some canonical \<Rightarrow> if pem \<noteq> canonical \<or> cr_type cr key \<noteq> js ''ed25519''
           then throw ''Runner attestation public key must be canonical Ed25519 SPKI PEM'' else Inr key
       | None \<Rightarrow> throw ''Runner attestation public key must be canonical Ed25519 SPKI PEM'')
   | None \<Rightarrow> throw ''Runner attestation public key must be canonical Ed25519 SPKI PEM'')"

definition trust_keys :: "string list" where
  "trust_keys = [''keyId'', ''algorithm'', ''publicKeyPem'', ''fingerprint'', ''validFrom'', ''validUntil'', ''revokedAt'']"

definition validate_attestation_trust :: "'k crypto \<Rightarrow> jsval \<Rightarrow> (attestation_trust \<times> 'k) result" where
  "validate_attestation_trust cr v =
     bindR (rn_fields v trust_keys ''runner attestation trust'') (\<lambda>root.
     thenR (throw_if (get root (js ''algorithm'') \<noteq> JStr (js ''Ed25519'')) ''Runner attestation key algorithm is unsupported'')
    (bindR (rn_timestamp (get root (js ''validFrom'')) ''runner attestation key validFrom'') (\<lambda>valid_from.
     bindR (rn_timestamp (get root (js ''validUntil'')) ''runner attestation key validUntil'') (\<lambda>valid_until.
     thenR (throw_if (valid_until \<le> valid_from) ''Runner attestation key validity window is empty'')
    (bindR (if get root (js ''revokedAt'') = JNull then Inr None
            else bindR (rn_timestamp (get root (js ''revokedAt'')) ''runner attestation key revocation'') (\<lambda>n. Inr (Some n))) (\<lambda>revoked.
     bindR (bounded_multiline_string (get root (js ''publicKeyPem'')) ''runner attestation public key'' (16 * 1024)) (\<lambda>pem.
     bindR (import_attestation_key cr pem) (\<lambda>key.
     bindR (rn_digest (get root (js ''fingerprint'')) ''runner attestation key fingerprint'') (\<lambda>fingerprint.
     thenR (throw_if (fingerprint \<noteq> sha256 (cr_hash cr) (cr_der cr key)) ''Runner attestation key fingerprint does not match'')
    (bindR (rn_identifier (get root (js ''keyId'')) ''runner attestation key id'') (\<lambda>key_id.
     Inr (\<lparr>tr_key_id = key_id, tr_public_key_pem = pem, tr_fingerprint = fingerprint, tr_valid_from = valid_from, tr_valid_until = valid_until,
       tr_revoked_at = revoked\<rparr>, key))))))))))))"

section \<open>Verification\<close>

definition attestation_domain :: jsstr where "attestation_domain = js ''api-migrator:publication-runner-attestation:v1'' @ [0]"
definition max_attestation_envelope_bytes :: nat where "max_attestation_envelope_bytes = 128 * 1024"
definition max_attestation_payload_bytes :: nat where "max_attestation_payload_bytes = 96 * 1024"

definition canonical_base64url :: "jsstr \<Rightarrow> string \<Rightarrow> byte list result" where
  "canonical_base64url v label =
     (if \<not> is_b64_text v then throw (label @ '' is not canonical base64url'')
      else if b64_encode (b64_decode v) \<noteq> v then throw (label @ '' is not canonical base64url'') else Inr (b64_decode v))"

definition exact_utf8 :: "byte list \<Rightarrow> string \<Rightarrow> jsstr result" where
  "exact_utf8 bs label = (if utf8 (utf8_decode bs) \<noteq> bs then throw (label @ '' is not exact UTF-8'') else Inr (utf8_decode bs))"

record attestation_envelope =
  en_key_id :: jsstr
  en_payload :: jsstr
  en_signature :: jsstr

definition parse_attestation_envelope :: "jsstr \<Rightarrow> attestation_envelope result" where
  "parse_attestation_envelope t =
     bindR (parse_canonical_json (RawString t) (int max_attestation_envelope_bytes) (js ''runner attestation envelope'')) (\<lambda>root.
     bindR (rn_fields root [''schemaVersion'', ''keyId'', ''payload'', ''signature''] ''runner attestation envelope'') (\<lambda>envelope.
     thenR (throw_if (get envelope (js ''schemaVersion'') \<noteq> jint 1) ''Runner attestation envelope version is unsupported'')
    (bindR (rn_identifier (get envelope (js ''keyId'')) ''runner attestation key id'') (\<lambda>key_id.
     bindR (bounded_string (get envelope (js ''payload'')) ''runner attestation payload'' max_attestation_envelope_bytes) (\<lambda>payload.
     bindR (bounded_string (get envelope (js ''signature'')) ''runner attestation signature'' 256) (\<lambda>signature.
     Inr \<lparr>en_key_id = key_id, en_payload = payload, en_signature = signature\<rparr>))))))"

record verified_attestation =
  va_attestation :: attestation
  va_canonical_json :: jsstr
  va_payload_digest :: jsstr
  va_envelope_digest :: jsstr
  va_signer :: "jsstr \<times> jsstr"

text \<open>The private map of the module: for each object it handed out, when it was verified and when it expires.\<close>

record runner_capability =
  rc_value :: verified_attestation
  rc_verified_at :: int
  rc_expires_at :: int

record runner_vault =
  rv_next :: nat
  rv_states :: "nat \<Rightarrow> runner_capability option"

definition no_capabilities :: runner_vault where
  "no_capabilities = \<lparr>rv_next = 0, rv_states = (\<lambda>_. None)\<rparr>"

definition check_attestation :: "'k crypto \<Rightarrow> jsstr \<Rightarrow> jsval \<Rightarrow> jsval \<Rightarrow> jsval \<Rightarrow> jsval \<Rightarrow> runner_capability result" where
  "check_attestation cr envelope_json expected_plan expected_output trust now =
     bindR (rn_timestamp now ''runner attestation verification clock'') (\<lambda>verified_at.
     bindR (assert_plan_current (cr_hash cr) expected_plan (jint verified_at)) (\<lambda>plan.
     bindR (validate_runner_output expected_output) (\<lambda>out.
     bindR (parse_attestation_envelope envelope_json) (\<lambda>envelope.
     bindR (validate_attestation_trust cr trust) (\<lambda>(trusted, key).
     thenR (throw_if (en_key_id envelope \<noteq> tr_key_id trusted) ''Runner attestation signer is not pinned'')
    (bindR (canonical_base64url (en_payload envelope) ''runner attestation payload'') (\<lambda>payload_bytes.
     thenR (throw_if (length payload_bytes = 0 \<or> max_attestation_payload_bytes < length payload_bytes) ''Runner attestation payload exceeds the supported size'')
    (bindR (exact_utf8 payload_bytes ''runner attestation payload'') (\<lambda>payload_json.
     bindR (parse_canonical_json (RawString payload_json) (int max_attestation_payload_bytes) (js ''runner attestation payload'')) (\<lambda>payload_root.
     bindR (canonical_base64url (en_signature envelope) ''runner attestation signature'') (\<lambda>signature_bytes.
     thenR (throw_if (length signature_bytes \<noteq> 64) ''Runner attestation signature must be 64 bytes'')
    (thenR (throw_if (\<not> cr_verify cr key (utf8 attestation_domain @ payload_bytes) signature_bytes) ''Runner control-plane signature verification failed'')
    (bindR (validate_attestation_payload (cr_hash cr) plan out payload_root) (\<lambda>attestation.
     thenR (throw_if (tr_revoked_at trusted \<noteq> None) ''Runner attestation key is revoked'')
    (thenR (throw_if (at_observed_at attestation < tr_valid_from trusted \<or> tr_valid_until trusted \<le> at_observed_at attestation)
       ''Runner attestation was observed outside the signing-key validity window'')
    (thenR (throw_if (verified_at < at_observed_at attestation) ''Runner attestation cannot be verified before its observation time'')
    (thenR (throw_if (verified_at < tr_valid_from trusted \<or> tr_valid_until trusted \<le> verified_at) ''Runner attestation key is not currently valid'')
    (Inr \<lparr>rc_value = \<lparr>va_attestation = attestation, va_canonical_json = payload_json, va_payload_digest = sha256 (cr_hash cr) payload_bytes,
         va_envelope_digest = sha256 (cr_hash cr) (utf8 envelope_json), va_signer = (tr_key_id trusted, tr_fingerprint trusted)\<rparr>,
       rc_verified_at = verified_at, rc_expires_at = min (rp_expires_at (pr_plan plan)) (tr_valid_until trusted)\<rparr>))))))))))))))))))"

definition verify_runner_attestation ::
  "'k crypto \<Rightarrow> jsstr \<Rightarrow> jsval \<Rightarrow> jsval \<Rightarrow> jsval \<Rightarrow> jsval \<Rightarrow> runner_vault \<Rightarrow> (nat \<times> runner_vault) result" where
  "verify_runner_attestation cr envelope_json expected_plan expected_output trust now vault =
     bindR (check_attestation cr envelope_json expected_plan expected_output trust now) (\<lambda>c.
       Inr (rv_next vault, \<lparr>rv_next = Suc (rv_next vault), rv_states = (rv_states vault)(rv_next vault := Some c)\<rparr>))"

text \<open>\<open>assertVerifiedPublicationRunnerAttestation\<close>; a handle is an object's identity, or \<open>None\<close> for what is not an object.\<close>

definition assert_verified_attestation :: "runner_vault \<Rightarrow> nat option \<Rightarrow> jsval \<Rightarrow> verified_attestation result" where
  "assert_verified_attestation vault g now =
     (case Option.bind g (rv_states vault) of
        None \<Rightarrow> throw ''Owner publication requires a genuinely verified runner attestation''
      | Some c \<Rightarrow>
          bindR (rn_timestamp now ''runner attestation capability clock'') (\<lambda>observed.
          thenR (throw_if (observed < rc_verified_at c \<or> rc_expires_at c \<le> observed) ''Verified runner attestation capability is expired or not current'')
            (Inr (rc_value c))))"

end
