(* ===== verification/RunnerPlanFacts.thy ===== *)
theory RunnerPlanFacts
  imports RunnerPlan ObjectText
begin

text \<open>
  What the validators of a plan accept, that the values of validated members print, are equal only when the members are, and are
  accepted again.
\<close>

section \<open>What the elementary validators accept\<close>

lemma rn_fields_eq [result_simps]:
  "rn_fields v keys l = Inr w \<longleftrightarrow> w = v \<and> is_obj v \<and> is_ok (canonical_json v) \<and> sort (keys_of v) = sort (map js keys)"
  by (auto simp: rn_fields_def rn_record_def rn_exact_keys_def is_obj_def bindR_eq_Inr thenR_eq_Inr is_ok_iff split: jsval.splits)

lemma rn_digest_eq [result_simps]: "rn_digest v l = Inr s \<longleftrightarrow> v = JStr s \<and> is_digest s"
  by (auto simp: rn_digest_def split: jsval.splits)

definition bounded_text :: "nat \<Rightarrow> jsstr \<Rightarrow> bool" where
  "bounded_text n s \<longleftrightarrow> s \<noteq> [] \<and> s = trim s \<and> byte_length s \<le> n \<and> valid_unicode s"

lemma bounded_string_eq [result_simps]: "bounded_string v l n = Inr s \<longleftrightarrow> v = JStr s \<and> bounded_text n s"
  using canonical_str_ok by (auto simp: bounded_string_def bounded_text_def is_ok_iff bindR_eq_Inr not_less split: jsval.splits if_splits)

lemma bounded_unicode: "bounded_text n s \<Longrightarrow> valid_unicode s"
  by (simp add: bounded_text_def)

lemma slug_same: "parse_repository_slug s = Inr p \<Longrightarrow> sl_slug p = s"
  using validate_slug_string by (auto simp: parse_repository_slug_def)

lemma branch_same: "validate_branch_name s = Inr b \<Longrightarrow> b = s"
  by (simp add: validate_branch_eq)

lemma rn_positive_integer_eq [result_simps]: "rn_positive_integer v l = Inr n \<longleftrightarrow> v = jint n \<and> 0 < n \<and> n \<le> max_safe"
  by (auto simp: rn_positive_integer_def split: jsval.splits jsnum.splits)

lemma rn_timestamp_eq [result_simps]: "rn_timestamp v l = Inr n \<longleftrightarrow> v = jint n \<and> 0 < n \<and> n \<le> max_timestamp"
proof -
  have "n \<le> max_timestamp \<Longrightarrow> n \<le> max_safe" for n by (simp add: max_timestamp_def max_safe_def)
  then show ?thesis by (auto simp: rn_timestamp_def split: jsval.splits jsnum.splits)
qed

section \<open>Values that print\<close>

definition ok_subject :: "runner_subject \<Rightarrow> bool" where
  "ok_subject s \<longleftrightarrow> valid_unicode (sj_pilot_id s) \<and> ok_repository (sj_repository s) \<and> ok_base (sj_base s)"

definition ok_inputs :: "runner_inputs \<Rightarrow> bool" where
  "ok_inputs i \<longleftrightarrow> valid_unicode (ri_source_archive_digest i) \<and> valid_unicode (ri_manifest_digest i) \<and> valid_unicode (ri_command_scope_digest i)"

definition ok_output :: "runner_output \<Rightarrow> bool" where
  "ok_output r \<longleftrightarrow> valid_unicode (ro_preflight_id r) \<and> valid_unicode (ro_artifact_digest r) \<and> valid_unicode (ro_candidate_tree_sha r)"

definition ok_destination :: "destination \<Rightarrow> bool" where
  "ok_destination d \<longleftrightarrow> valid_unicode (ds_host d) \<and> list_all valid_unicode (ds_addresses d) \<and> valid_unicode (ds_evidence_digest d)
     \<and> safe_int (ds_observed_at d) \<and> safe_int (ds_expires_at d)"

definition ok_plan :: "runner_plan \<Rightarrow> bool" where
  "ok_plan p \<longleftrightarrow> valid_unicode (rp_job_id p) \<and> valid_unicode (rp_nonce_digest p) \<and> safe_int (rp_created_at p) \<and> safe_int (rp_expires_at p)
     \<and> ok_subject (rp_subject p) \<and> ok_inputs (rp_inputs p) \<and> valid_unicode (rp_image_digest p) \<and> list_all ok_destination (rp_destinations p)"

lemma wf_member_values [simp]:
  "wf_jsval (subject_value s)" "wf_jsval (inputs_value i)" "wf_jsval (output_value r)" "wf_jsval (destination_value d)" "wf_jsval (egress_policy_value ds)"
  by (auto simp: subject_value_def inputs_value_def output_value_def destination_value_def egress_policy_value_def)

lemma same_subject: "ok_subject s \<Longrightarrow> ok_subject t \<Longrightarrow> same_json (subject_value s) (subject_value t) \<longleftrightarrow> s = t"
  unfolding subject_value_def by (subst same_json_obj_iff) (auto simp: ok_subject_def same_repository same_base)

lemma same_inputs: "ok_inputs i \<Longrightarrow> ok_inputs j \<Longrightarrow> same_json (inputs_value i) (inputs_value j) \<longleftrightarrow> i = j"
  unfolding inputs_value_def by (subst same_json_obj_iff) (auto simp: ok_inputs_def)

lemma same_output: "ok_output i \<Longrightarrow> ok_output j \<Longrightarrow> same_json (output_value i) (output_value j) \<longleftrightarrow> i = j"
  unfolding output_value_def by (subst same_json_obj_iff) (auto simp: ok_output_def)

lemma same_json_bool [simp]: "same_json (JBool b) (JBool c) \<longleftrightarrow> b = c"
  by (auto simp: same_json_denotes)

lemma same_strings:
  "list_all valid_unicode ss \<Longrightarrow> same_json (arr (map JStr ss)) (arr (map JStr ts)) \<longleftrightarrow> ss = ts"
proof -
  assume ss: "list_all valid_unicode ss"
  have "same_json (arr (map JStr ss)) (arr (map JStr ts)) \<longleftrightarrow> list_all2 (\<lambda>s t. same_json (JStr s) (JStr t)) ss ts"
    by (subst same_json_arr) (auto simp: list.rel_map)
  also have "\<dots> \<longleftrightarrow> list_all2 (=) ss ts" using ss by (auto simp: list_all2_conv_all_nth list_all_length)
  finally show ?thesis by (simp add: list.rel_eq)
qed

lemma same_destination: "ok_destination d \<Longrightarrow> ok_destination e \<Longrightarrow> same_json (destination_value d) (destination_value e) \<longleftrightarrow> d = e"
  unfolding destination_value_def by (subst same_json_obj_iff) (auto simp: ok_destination_def same_strings safe_int_def max_safe_def)

lemma same_destinations:
  assumes "list_all ok_destination ds" "list_all ok_destination es"
  shows "same_json (arr (map destination_value ds)) (arr (map destination_value es)) \<longleftrightarrow> ds = es"
proof -
  have "same_json (arr (map destination_value ds)) (arr (map destination_value es)) \<longleftrightarrow> list_all2 (\<lambda>d e. same_json (destination_value d) (destination_value e)) ds es"
    by (subst same_json_arr) (auto simp: list.rel_map)
  also have "\<dots> \<longleftrightarrow> list_all2 (=) ds es" using assms same_destination by (auto simp: list_all2_conv_all_nth list_all_length)
  finally show ?thesis by (simp add: list.rel_eq)
qed

lemma same_policy: "list_all ok_destination ds \<Longrightarrow> list_all ok_destination es \<Longrightarrow> same_json (egress_policy_value ds) (egress_policy_value es) \<longleftrightarrow> ds = es"
  unfolding egress_policy_value_def by (subst same_json_obj_iff) (auto simp: same_destinations max_safe_def)

lemma same_job_identity:
  assumes "ok_plan p" "ok_plan q"
  shows "same_json (job_identity p) (job_identity q) \<longleftrightarrow> p\<lparr>rp_job_id := []\<rparr> = q\<lparr>rp_job_id := []\<rparr>"
proof -
  have "same_json (job_identity p) (job_identity q) \<longleftrightarrow> rp_nonce_digest p = rp_nonce_digest q \<and> rp_created_at p = rp_created_at q \<and> rp_expires_at p = rp_expires_at q
    \<and> rp_subject p = rp_subject q \<and> rp_inputs p = rp_inputs q \<and> rp_image_digest p = rp_image_digest q \<and> rp_destinations p = rp_destinations q"
    using assms unfolding job_identity_def ok_plan_def
    by (subst same_json_obj_iff) (auto simp: same_subject same_inputs same_policy safe_int_def)
  then show ?thesis by (cases p; cases q) auto
qed

section \<open>Members of the values\<close>

text \<open>A value that prints like one of these objects has its fields, and its members print like the object's own.\<close>

lemma rn_fields_alike: "alike (obj kvs) w \<Longrightarrow> map fst kvs = map js keys \<Longrightarrow> rn_fields w keys l = Inr w"
  using alike_obj(1,2) alike_prints by (fastforce simp: rn_fields_eq)

lemma alike_repository:
  assumes "alike (repository_value r) w"
  shows "rn_fields w [''slug'', ''id'', ''ownerId''] l = Inr w"
    "get w (js ''slug'') = JStr (rs_slug r)"
    "get w (js ''id'') = jint (rs_id r)"
    "get w (js ''ownerId'') = jint (rs_owner_id r)"
  using rn_fields_alike [OF assms [unfolded repository_value_def]] alike_obj(3) [OF assms [unfolded repository_value_def]] by simp_all

lemma alike_base:
  assumes "alike (base_value b) w"
  shows "rn_fields w [''branch'', ''sha''] l = Inr w"
    "get w (js ''branch'') = JStr (bs_branch b)"
    "get w (js ''sha'') = JStr (bs_sha b)"
  using rn_fields_alike [OF assms [unfolded base_value_def]] alike_obj(3) [OF assms [unfolded base_value_def]] by simp_all

lemma alike_subject:
  assumes "alike (subject_value s) w"
  shows "rn_fields w [''pilotId'', ''repository'', ''base''] l = Inr w"
    "get w (js ''pilotId'') = JStr (sj_pilot_id s)"
    "alike (repository_value (sj_repository s)) (get w (js ''repository''))"
    "alike (base_value (sj_base s)) (get w (js ''base''))"
  using rn_fields_alike [OF assms [unfolded subject_value_def]] alike_obj(3) [OF assms [unfolded subject_value_def]] by simp_all

lemma alike_inputs:
  assumes "alike (inputs_value i) w"
  shows "rn_fields w [''sourceArchiveDigest'', ''manifestDigest'', ''commandScopeDigest''] l = Inr w"
    "get w (js ''sourceArchiveDigest'') = JStr (ri_source_archive_digest i)"
    "get w (js ''manifestDigest'') = JStr (ri_manifest_digest i)"
    "get w (js ''commandScopeDigest'') = JStr (ri_command_scope_digest i)"
  using rn_fields_alike [OF assms [unfolded inputs_value_def]] alike_obj(3) [OF assms [unfolded inputs_value_def]] by simp_all

lemma alike_output:
  assumes "alike (output_value r) w"
  shows "rn_fields w [''preflightId'', ''artifactDigest'', ''candidateTreeSha''] l = Inr w"
    "get w (js ''preflightId'') = JStr (ro_preflight_id r)"
    "get w (js ''artifactDigest'') = JStr (ro_artifact_digest r)"
    "get w (js ''candidateTreeSha'') = JStr (ro_candidate_tree_sha r)"
  using rn_fields_alike [OF assms [unfolded output_value_def]] alike_obj(3) [OF assms [unfolded output_value_def]] by simp_all

lemma alike_destination:
  assumes "alike (destination_value d) w"
  shows "rn_fields w [''host'', ''protocol'', ''port'', ''tls'', ''addresses'', ''resolutionEvidenceDigest'', ''resolutionObservedAt'', ''resolutionExpiresAt''] l = Inr w"
    "get w (js ''host'') = JStr (ds_host d)"
    "get w (js ''protocol'') = JStr (js ''tcp'')"
    "get w (js ''port'') = jint 443"
    "get w (js ''tls'') = JBool True"
    "alike (arr (map JStr (ds_addresses d))) (get w (js ''addresses''))"
    "get w (js ''resolutionEvidenceDigest'') = JStr (ds_evidence_digest d)"
    "get w (js ''resolutionObservedAt'') = jint (ds_observed_at d)"
    "get w (js ''resolutionExpiresAt'') = jint (ds_expires_at d)"
  using rn_fields_alike [OF assms [unfolded destination_value_def]] alike_obj(3) [OF assms [unfolded destination_value_def]] by simp_all

lemma alike_texts: "alike (arr (map JStr ss)) w \<Longrightarrow> \<exists>ps. w = JArr (length ss) ps \<and> elements w = map JStr ss"
proof -
  assume "alike (arr (map JStr ss)) w"
  from alike_arr [OF this] obtain ps where ps: "w = JArr (length ss) ps" "list_all2 alike (map JStr ss) (elements w)" by auto
  have "elements w = map JStr ss" using ps(2) by (auto simp: list_all2_conv_all_nth intro: nth_equalityI)
  with ps(1) show ?thesis by blast
qed

section \<open>Validated members\<close>

definition good_subject :: "runner_subject \<Rightarrow> bool" where
  "good_subject s \<longleftrightarrow> bounded_text 86 (sj_pilot_id s) \<and> is_pilot_id (sj_pilot_id s) \<and> bounded_text 140 (rs_slug (sj_repository s))
     \<and> is_ok (parse_repository_slug (rs_slug (sj_repository s))) \<and> rs_slug (sj_repository s) = to_lower (rs_slug (sj_repository s))
     \<and> bounded_text 64 (bs_sha (sj_base s)) \<and> is_git_sha (bs_sha (sj_base s))
     \<and> 0 < rs_id (sj_repository s) \<and> rs_id (sj_repository s) \<le> max_safe \<and> 0 < rs_owner_id (sj_repository s) \<and> rs_owner_id (sj_repository s) \<le> max_safe
     \<and> bounded_text 240 (bs_branch (sj_base s)) \<and> is_ok (validate_branch_name (bs_branch (sj_base s)))"

lemma subject_good:
  assumes "validate_subject v = Inr s"
  shows "good_subject s"
proof -
  from assms obtain pilot slug parts sha i j name branch where raw: "bounded_text 86 pilot" "is_pilot_id pilot" "bounded_text 140 slug"
    "parse_repository_slug slug = Inr parts" "sl_slug parts = to_lower (sl_slug parts)" "bounded_text 64 sha" "is_git_sha sha"
    "0 < i" "i \<le> max_safe" "0 < j" "j \<le> max_safe" "bounded_text 240 name" "validate_branch_name name = Inr branch"
    and s: "s = \<lparr>sj_pilot_id = pilot, sj_repository = \<lparr>rs_slug = sl_slug parts, rs_id = i, rs_owner_id = j\<rparr>, sj_base = \<lparr>bs_branch = branch, bs_sha = sha\<rparr>\<rparr>"
    unfolding validate_subject_def result_simps by blast
  note same = slug_same [OF raw(4)] branch_same [OF raw(13)]
  show ?thesis using raw same unfolding s good_subject_def by simp
qed

lemma good_subject_ok:
  assumes "good_subject s"
  shows "ok_subject s"
proof -
  have "valid_unicode (sj_pilot_id s)" "valid_unicode (rs_slug (sj_repository s))" "valid_unicode (bs_sha (sj_base s))" "valid_unicode (bs_branch (sj_base s))"
    "0 < rs_id (sj_repository s)" "rs_id (sj_repository s) \<le> max_safe" "0 < rs_owner_id (sj_repository s)" "rs_owner_id (sj_repository s) \<le> max_safe"
    using assms unfolding good_subject_def by (blast intro: bounded_unicode)+
  then show ?thesis by (simp add: ok_subject_def ok_repository_def ok_base_def safe_int_def)
qed

lemma subject_again:
  assumes good: "good_subject s" and w: "alike (subject_value s) w"
  shows "validate_subject w = Inr s"
proof -
  note c = good [unfolded good_subject_def]
  note fields = alike_subject [OF w] alike_repository [OF alike_subject(3) [OF w]] alike_base [OF alike_subject(4) [OF w]]
  from c obtain parts where parts: "parse_repository_slug (rs_slug (sj_repository s)) = Inr parts" by (auto simp: is_ok_iff)
  note slug = slug_same [OF parts]
  have branch: "validate_branch_name (bs_branch (sj_base s)) = Inr (bs_branch (sj_base s))" using c branch_same by (auto simp: is_ok_iff)
  have texts: "bounded_string (JStr (sj_pilot_id s)) l 86 = Inr (sj_pilot_id s)" "bounded_string (JStr (rs_slug (sj_repository s))) l 140 = Inr (rs_slug (sj_repository s))"
    "bounded_string (JStr (bs_sha (sj_base s))) l 64 = Inr (bs_sha (sj_base s))" "bounded_string (JStr (bs_branch (sj_base s))) l 240 = Inr (bs_branch (sj_base s))"
    "rn_positive_integer (jint (rs_id (sj_repository s))) l = Inr (rs_id (sj_repository s))"
    "rn_positive_integer (jint (rs_owner_id (sj_repository s))) l = Inr (rs_owner_id (sj_repository s))" for l
    using c by (simp_all add: result_simps)
  have lower: "(sl_slug parts \<noteq> to_lower (sl_slug parts)) = False" using c slug by simp
  have checks: "is_pilot_id (sj_pilot_id s)" "is_git_sha (bs_sha (sj_base s))" using c by simp_all
  show "validate_subject w = Inr s" unfolding validate_subject_def fields bindR_simps texts parts branch lower throw_if_simps thenR_simps
    using checks slug by (cases s; cases "sj_repository s"; cases "sj_base s") simp
qed

definition good_inputs :: "hash \<Rightarrow> runner_inputs \<Rightarrow> bool" where
  "good_inputs h i \<longleftrightarrow> ri_command_scope_digest i = command_scope_digest h \<and> is_digest (command_scope_digest h)
     \<and> is_digest (ri_source_archive_digest i) \<and> is_digest (ri_manifest_digest i)"

lemma good_inputs_ok: "good_inputs h i \<Longrightarrow> ok_inputs i"
  by (simp add: good_inputs_def ok_inputs_def digest_unicode)

lemma inputs_good: "validate_inputs h v = Inr i \<Longrightarrow> good_inputs h i"
  unfolding validate_inputs_def result_simps by (auto simp: good_inputs_def)

lemma inputs_again:
  assumes "good_inputs h i" and w: "alike (inputs_value i) w"
  shows "validate_inputs h w = Inr i"
  unfolding validate_inputs_def alike_inputs [OF w] bindR_simps
  using assms(1) [unfolded good_inputs_def] by (cases i) (simp add: result_simps)

definition good_output :: "runner_output \<Rightarrow> bool" where
  "good_output r \<longleftrightarrow> bounded_text 67 (ro_preflight_id r) \<and> bounded_text 64 (ro_candidate_tree_sha r) \<and> is_preflight_id (ro_preflight_id r)
     \<and> is_git_sha (ro_candidate_tree_sha r) \<and> is_digest (ro_artifact_digest r)"

lemma output_good: "validate_runner_output v = Inr r \<Longrightarrow> good_output r"
  unfolding validate_runner_output_def result_simps by (auto simp: good_output_def)

lemma good_output_ok: "good_output r \<Longrightarrow> ok_output r"
  by (auto simp: good_output_def ok_output_def digest_unicode intro: bounded_unicode)

lemma output_again:
  assumes "good_output r" and w: "alike (output_value r) w"
  shows "validate_runner_output w = Inr r"
  unfolding validate_runner_output_def alike_output [OF w] bindR_simps
  using assms(1) [unfolded good_output_def] by (cases r) (simp add: result_simps)

lemma validate_address_eq [result_simps]: "validate_address v = Inr s \<longleftrightarrow> v = JStr s \<and> bounded_text 64 s \<and> exact_global_ip s"
  by (auto simp: validate_address_def result_simps split: if_splits)

text \<open>What is known of a destination of a plan.\<close>

definition good_destination :: "int \<Rightarrow> int \<Rightarrow> destination \<Rightarrow> bool" where
  "good_destination created expires d \<longleftrightarrow> bounded_text 253 (ds_host d) \<and> ds_host d = to_lower (ds_host d) \<and> is_host (ds_host d) \<and> is_ip (ds_host d) = 0
     \<and> 1 \<le> length (ds_addresses d) \<and> length (ds_addresses d) \<le> 32 \<and> list_all (\<lambda>s. bounded_text 64 s \<and> exact_global_ip s) (ds_addresses d)
     \<and> distinct (ds_addresses d) \<and> sorted (ds_addresses d) \<and> is_digest (ds_evidence_digest d)
     \<and> 0 < ds_observed_at d \<and> ds_observed_at d \<le> created \<and> created - ds_observed_at d \<le> resolution_max_age_ms
     \<and> ds_observed_at d < ds_expires_at d \<and> expires \<le> ds_expires_at d \<and> ds_expires_at d - ds_observed_at d \<le> resolution_max_ttl_ms
     \<and> ds_expires_at d \<le> max_timestamp"

lemma good_destination_ok: "good_destination created expires d \<Longrightarrow> ok_destination d"
  by (auto simp: good_destination_def ok_destination_def safe_int_def digest_unicode bounded_unicode list_all_iff max_safe_def max_timestamp_def)

lemma destination_sound:
  assumes "validate_destination created expires v = Inr d"
  shows "good_destination created expires d"
proof -
  from assms obtain host n ps literals observed ends evidence where raw: "bounded_text 253 host" "host = to_lower host" "is_host host" "is_ip host = 0"
    "get v (js ''addresses'') = JArr n ps" "1 \<le> n" "n \<le> 32" "mapR validate_address (elements (get v (js ''addresses''))) = Inr literals" "distinct literals"
    "0 < observed" "0 < ends" "ends \<le> max_timestamp" "observed \<le> created" "created - observed \<le> resolution_max_age_ms" "expires \<le> ends" "observed < ends"
    "ends - observed \<le> resolution_max_ttl_ms" "is_digest evidence"
    and d: "d = \<lparr>ds_host = host, ds_addresses = sort literals, ds_evidence_digest = evidence, ds_observed_at = observed, ds_expires_at = ends\<rparr>"
    unfolding validate_destination_def result_simps by (auto simp: not_less not_le split: jsval.splits)
  have "list_all (\<lambda>s. bounded_text 64 s \<and> exact_global_ip s) literals" using mapR_list_all [OF raw(8)] by (auto simp: result_simps)
  moreover have "length literals = n" using mapR_length [OF raw(8)] raw(5) by simp
  ultimately show ?thesis using raw unfolding good_destination_def d by (simp add: list_all_iff)
qed

lemma destination_again:
  assumes good: "good_destination created expires d" and w: "alike (destination_value d) w"
  shows "validate_destination created expires w = Inr d"
proof -
  note g = good [unfolded good_destination_def]
  from alike_texts [OF alike_destination(6) [OF w]] obtain ps where
    a: "get w (js ''addresses'') = JArr (length (ds_addresses d)) ps" and e: "elements (get w (js ''addresses'')) = map JStr (ds_addresses d)" by auto
  have "\<forall>s \<in> set (ds_addresses d). bounded_text 64 s \<and> exact_global_ip s" using g by (simp add: list_all_iff)
  then have "mapR validate_address (map JStr (ds_addresses d)) = Inr (ds_addresses d)" by (simp add: mapR_eq_Inr list.rel_map list_all2_same result_simps)
  then have addresses: "mapR validate_address (elements (get w (js ''addresses''))) = Inr (ds_addresses d)" by (simp only: e)
  have shape: "(case get w (js ''addresses'') of JArr n _ \<Rightarrow> n < 1 \<or> 32 < n | _ \<Rightarrow> True) = False" using g by (cases "ds_addresses d") (simp_all add: a)
  have host: "bounded_string (JStr (ds_host d)) l 253 = Inr (ds_host d)" for l using g by (simp add: result_simps)
  have times: "rn_timestamp (jint (ds_observed_at d)) l = Inr (ds_observed_at d)" "rn_timestamp (jint (ds_expires_at d)) l = Inr (ds_expires_at d)"
    "rn_digest (JStr (ds_evidence_digest d)) l = Inr (ds_evidence_digest d)" for l
    using g by (simp_all add: result_simps)
  show ?thesis unfolding validate_destination_def alike_destination(1-5,7-9) [OF w] bindR_simps host addresses shape times
    using g by (cases d) (simp add: sorted_sort_id)
qed

section \<open>Plans\<close>

definition good_plan :: "hash \<Rightarrow> runner_plan \<Rightarrow> bool" where
  "good_plan h p \<longleftrightarrow> is_runner_job_id (rp_job_id p) \<and> derive_job_id h p = Inr (rp_job_id p) \<and> is_digest (rp_nonce_digest p)
     \<and> 0 < rp_created_at p \<and> rp_created_at p + plan_min_ttl_ms \<le> rp_expires_at p \<and> rp_expires_at p \<le> rp_created_at p + plan_max_ttl_ms
     \<and> rp_expires_at p \<le> max_timestamp \<and> good_subject (rp_subject p)
     \<and> good_inputs h (rp_inputs p) \<and> is_digest (rp_image_digest p)
     \<and> list_all (good_destination (rp_created_at p) (rp_expires_at p)) (rp_destinations p) \<and> map ds_host (rp_destinations p) = migration_hosts"

lemma ttl_positive: "0 < plan_min_ttl_ms" "0 \<le> plan_max_ttl_ms"
  by (simp_all add: plan_min_ttl_ms_def plan_max_ttl_ms_def)

lemma ascii_unicode: "list_all is_ascii s \<Longrightarrow> valid_unicode s"
  by (rule valid_unicode_basic) (auto simp: list_all_iff is_ascii_def intro: is_basic_less)

lemma job_id_text: "is_runner_job_id s \<Longrightarrow> bounded_text 76 s"
proof -
  assume s: "is_runner_job_id s"
  then have split: "s = js ''previewjob_'' @ drop 11 s" and hex: "length (drop 11 s) = 64" "list_all is_hex (drop 11 s)"
  proof -
    have n: "length (js ''previewjob_'') = 11" by simp
    show "s = js ''previewjob_'' @ drop 11 s" using starts_with_split [of "js ''previewjob_''" s, unfolded n] s by (simp only: is_runner_job_id_def)
    show "length (drop 11 s) = 64" "list_all is_hex (drop 11 s)" using s by (simp_all only: is_runner_job_id_def hex_n_def)
  qed
  have ascii: "list_all is_ascii s"
  proof -
    have "is_ascii c" if "is_hex c" for c using that by (auto simp: is_ascii_def is_hex_def is_digit_def word_le_nat_alt)
    then show ?thesis using hex(2) by (subst split) (auto simp: list_all_iff js_def js_char_def is_ascii_def)
  qed
  have visible: "\<not> is_space c" if "c \<in> set s" for c
  proof -
    have "\<not> is_space c" if "is_hex c" for c
      using that by (auto simp: is_hex_def is_digit_def is_space_def word_le_nat_alt)
    moreover have "\<not> is_space c" if "c \<in> set (js ''previewjob_'')" for c using that by (auto simp: js_def js_char_def is_space_def)
    ultimately show ?thesis using that hex(2) by (subst (asm) split) (auto simp: list_all_iff)
  qed
  have "length s = 75" by (subst split) (simp add: hex(1) del: length_drop)
  then show ?thesis using ascii visible by (auto simp: bounded_text_def byte_length_def ascii_utf8 trim_no_space list_all_iff ascii_unicode)
qed

lemma destinations_sound:
  assumes "normalize_destinations v created expires = Inr ds"
  shows "list_all (good_destination created expires) ds" "map ds_host ds = migration_hosts"
proof -
  from assms obtain n ps where raw: "v = JArr n ps" "n = 1" "mapR (validate_destination created expires) (elements v) = Inr ds" "join [0] (map ds_host ds) = js ''registry.npmjs.org''"
    by (auto simp: normalize_destinations_def result_simps migration_hosts_def split: jsval.splits if_splits)
  show "list_all (good_destination created expires) ds" using mapR_list_all [OF raw(3)] destination_sound by blast
  have "length ds = 1" using mapR_length [OF raw(3)] raw(1,2) by simp
  then obtain d where "ds = [d]" by (cases ds) auto
  with raw(4) show "map ds_host ds = migration_hosts" by (simp add: migration_hosts_def)
qed

lemma destinations_again:
  assumes "list_all (good_destination created expires) ds" "map ds_host ds = migration_hosts" "alike (arr (map destination_value ds)) w"
  shows "normalize_destinations w created expires = Inr ds"
proof -
  from alike_arr [OF assms(3)] obtain ps where w: "w = JArr (length ds) ps" and e: "list_all2 alike (map destination_value ds) (elements w)" by auto
  have len: "length ds = length migration_hosts" using assms(2) by (metis length_map)
  have "list_all2 (\<lambda>v d. validate_destination created expires v = Inr d) (elements w) ds"
    using e assms(1) destination_again by (auto simp: list_all2_conv_all_nth list_all_length)
  then have "mapR (validate_destination created expires) (elements w) = Inr ds" by (simp add: mapR_eq_Inr)
  moreover have "sort migration_hosts = migration_hosts" by (simp add: migration_hosts_def)
  ultimately show ?thesis using assms(2) len by (simp add: normalize_destinations_def w)
qed

lemma normalized_plan:
  assumes "normalize_plan_input h clock i = Inr p"
  shows "0 < rp_created_at p \<and> rp_created_at p + plan_min_ttl_ms \<le> rp_expires_at p \<and> rp_expires_at p \<le> rp_created_at p + plan_max_ttl_ms
     \<and> rp_expires_at p \<le> max_timestamp \<and> good_subject (rp_subject p)
     \<and> good_inputs h (rp_inputs p) \<and> is_digest (rp_image_digest p)
     \<and> list_all (good_destination (rp_created_at p) (rp_expires_at p)) (rp_destinations p) \<and> map ds_host (rp_destinations p) = migration_hosts"
  using assms subject_good inputs_good destinations_sound
  by (auto simp: normalize_plan_input_def result_simps assert_plan_lifetime_def not_less)

end
