(* ===== verification/RunnerPlanClaims.thy ===== *)
theory RunnerPlanClaims
  imports RunnerPlanFacts
begin

text \<open>
  The plan of a run: what a validated plan is, that a created plan is validated again as it was created, and that the id of the job
  identifies every member of the plan.
\<close>

section \<open>The whole plan prints\<close>

lemma good_plan_ok:
  assumes "good_plan h p"
  shows "ok_plan p"
proof -
  note g = assms [unfolded good_plan_def]
  from g have times: "0 < rp_created_at p" "rp_created_at p + plan_min_ttl_ms \<le> rp_expires_at p" "rp_expires_at p \<le> max_timestamp" by simp_all
  have "safe_int (rp_created_at p)" "safe_int (rp_expires_at p)"
    using times by (simp_all add: safe_int_def max_safe_def max_timestamp_def plan_min_ttl_ms_def)
  moreover have "ok_subject (rp_subject p)" "ok_inputs (rp_inputs p)" using g by (auto intro: good_subject_ok good_inputs_ok)
  moreover have "list_all ok_destination (rp_destinations p)" using g by (auto simp: list_all_iff intro: good_destination_ok)
  moreover have "valid_unicode (rp_job_id p)" using g by (metis job_id_text bounded_unicode)
  ultimately show ?thesis using g by (simp add: ok_plan_def digest_unicode)
qed

lemma prints_members:
  "ok_subject s \<Longrightarrow> is_ok (canonical_json (subject_value s))" "ok_inputs i \<Longrightarrow> is_ok (canonical_json (inputs_value i))"
  "ok_output r \<Longrightarrow> is_ok (canonical_json (output_value r))"
  "list_all ok_destination ds \<Longrightarrow> is_ok (canonical_json (arr (map destination_value ds)))"
  "list_all ok_destination ds \<Longrightarrow> is_ok (canonical_json (egress_policy_value ds))"
  "ok_plan p \<Longrightarrow> is_ok (canonical_json (job_identity p))"
  using same_subject [of s s] same_inputs [of i i] same_output [of r r] same_destinations [of ds ds] same_policy [of ds ds] same_job_identity [of p p]
  by (simp_all add: same_json_refl)

lemma bool_prints [simp]: "is_ok (canonical_json (JBool b))"
  using same_json_bool [of b b] by (simp add: same_json_refl)

lemma texts_print: "is_ok (canonical_json (arr (map (\<lambda>s. JStr (js s)) ss)))" if "list_all (\<lambda>s. valid_unicode (js s)) ss"
  using same_strings [of "map js ss" "map js ss"] that by (simp add: same_json_refl comp_def list_all_iff)

lemma storage_prints: "is_ok (canonical_json storage_value)"
  unfolding storage_value_def by (rule canonical_obj_ok) (simp_all add: max_safe_def)

lemma plan_prints:
  assumes p: "ok_plan p" and d: "valid_unicode d"
  shows "is_ok (canonical_json (job_value p))" "is_ok (canonical_json (egress_value d (rp_destinations p)))"
    "is_ok (canonical_json (obj [(js ''destinations'', arr (map destination_value (rp_destinations p))), (js ''policyDigest'', JStr d),
        (js ''applicationLayerEnforcement'', JStr (js ''external_l7_gateway_required''))]))" (is ?install)
    "is_ok (canonical_json (plan_value p d))"
proof -
  have members: "valid_unicode (rp_job_id p)" "valid_unicode (rp_nonce_digest p)" "safe_int (rp_created_at p)" "safe_int (rp_expires_at p)"
    "ok_subject (rp_subject p)" "ok_inputs (rp_inputs p)" "valid_unicode (rp_image_digest p)" "list_all ok_destination (rp_destinations p)"
    using p by (simp_all add: ok_plan_def)
  show job: "is_ok (canonical_json (job_value p))" unfolding job_value_def by (rule canonical_obj_ok) (use members in \<open>simp_all add: safe_int_def\<close>)
  show install: ?install by (rule canonical_obj_ok) (use members d in \<open>simp_all add: prints_members\<close>)
  have checks: "is_ok (canonical_json (obj [(js ''network'', JStr (js ''none''))]))" by (rule canonical_obj_ok) simp_all
  show egress: "is_ok (canonical_json (egress_value d (rp_destinations p)))"
    unfolding egress_value_def by (rule canonical_obj_ok) (use install checks in simp_all)
  have "valid_unicode (execution_identity p)" using members(1) by (simp add: execution_identity_def valid_unicode_append)
  then have execution: "is_ok (canonical_json (execution_value (execution_identity p) d))"
    unfolding execution_value_def using d storage_prints texts_print [of "[''offline_preparation'', ''dependency_install'', ''migration'', ''verification'']"]
      texts_print [of "[''install'', ''typecheck'', ''test'', ''lint'', ''runtime'']"] by (intro canonical_obj_ok) simp_all
  have teardown: "is_ok (canonical_json teardown_value)" unfolding teardown_value_def by (rule canonical_obj_ok) simp_all
  show "is_ok (canonical_json (plan_value p d))" unfolding plan_value_def
    by (rule canonical_obj_ok) (use members job egress execution teardown in \<open>simp_all add: prints_members runner_profile_def max_safe_def\<close>)
qed

lemma sha_hex_unicode: "valid_unicode (sha256_hex h bs)"
proof (rule ascii_unicode)
  have "is_ascii c" if "is_hex c" for c using that by (auto simp: is_ascii_def is_hex_def is_digit_def word_le_nat_alt)
  then show "list_all is_ascii (sha256_hex h bs)" using hex_of_hex by (auto simp: sha256_hex_def list_all_iff)
qed

lemma sha256_unicode: "valid_unicode (sha256 h bs)"
  by (simp add: sha256_def valid_unicode_append sha_hex_unicode)

lemma policy_digest_unicode: "egress_policy_digest h ds = Inr d \<Longrightarrow> valid_unicode d"
  using sha256_unicode by (force simp: egress_policy_digest_def canonical_digest_def result_simps)

lemma canonical_unicode: "wf_jsval v \<Longrightarrow> canonical_json v = Inr t \<Longrightarrow> valid_unicode t"
  using canonical_json_sound denotes_valid_print by blast

section \<open>Validated plans\<close>

lemma alike_job:
  assumes "alike (job_value p) w"
  shows "rn_fields w [''id'', ''nonceDigest'', ''createdAt'', ''expiresAt'', ''disposable''] l = Inr w"
    "get w (js ''id'') = JStr (rp_job_id p)" "get w (js ''nonceDigest'') = JStr (rp_nonce_digest p)" "get w (js ''createdAt'') = jint (rp_created_at p)"
    "get w (js ''expiresAt'') = jint (rp_expires_at p)" "get w (js ''disposable'') = JBool True"
  using rn_fields_alike [OF assms [unfolded job_value_def]] alike_obj(3) [OF assms [unfolded job_value_def]] by simp_all

lemma alike_egress:
  assumes w: "alike (egress_value d ds) w"
  shows "rn_fields w [''enforcement'', ''dnsInsideJob'', ''install'', ''checks''] l = Inr w"
    "rn_fields (get w (js ''install'')) [''destinations'', ''policyDigest'', ''applicationLayerEnforcement''] l = Inr (get w (js ''install''))"
    "alike (arr (map destination_value ds)) (get (get w (js ''install'')) (js ''destinations''))"
proof -
  note o = alike_obj(3) [OF w [unfolded egress_value_def]]
  from o have install: "alike (obj [(js ''destinations'', arr (map destination_value ds)), (js ''policyDigest'', JStr d),
        (js ''applicationLayerEnforcement'', JStr (js ''external_l7_gateway_required''))]) (get w (js ''install''))" by simp
  show "rn_fields w [''enforcement'', ''dnsInsideJob'', ''install'', ''checks''] l = Inr w"
    using rn_fields_alike [OF w [unfolded egress_value_def]] by simp
  show "rn_fields (get w (js ''install'')) [''destinations'', ''policyDigest'', ''applicationLayerEnforcement''] l = Inr (get w (js ''install''))"
    using rn_fields_alike [OF install] by simp
  show "alike (arr (map destination_value ds)) (get (get w (js ''install'')) (js ''destinations''))" using alike_obj(3) [OF install] by simp
qed

lemma alike_plan:
  assumes "alike (plan_value p d) w"
  shows "rn_fields w plan_keys l = Inr w" "get w (js ''schemaVersion'') = jint 1" "get w (js ''profile'') = JStr runner_profile"
    "alike (job_value p) (get w (js ''job''))" "alike (subject_value (rp_subject p)) (get w (js ''subject''))"
    "alike (inputs_value (rp_inputs p)) (get w (js ''inputs''))" "get w (js ''imageDigest'') = JStr (rp_image_digest p)"
    "alike (egress_value d (rp_destinations p)) (get w (js ''egress''))"
  using rn_fields_alike [OF assms [unfolded plan_value_def], of plan_keys] alike_obj(3) [OF assms [unfolded plan_value_def]] by (simp_all add: plan_keys_def)

lemma record_for_plan_eq:
  "record_for_plan h p = Inr r \<longleftrightarrow> pr_plan r = p \<and> egress_policy_digest h (rp_destinations p) = Inr (pr_policy_digest r)
     \<and> canonical_json (plan_value p (pr_policy_digest r)) = Inr (pr_canonical_json r) \<and> pr_digest r = sha256 h (utf8 (pr_canonical_json r))"
  by (cases r) (auto simp: record_for_plan_def result_simps)

lemma plan_sound:
  assumes "validate_plan h v = Inr r"
  shows "good_plan h (pr_plan r) \<and> record_for_plan h (pr_plan r) = Inr r \<and> canonical_json v = Inr (pr_canonical_json r)"
proof -
  from assms obtain job_id nonce created expires subject inputs image ds expected p where raw: "is_runner_job_id job_id" "is_digest nonce"
    "0 < created" "expires \<le> max_timestamp" "assert_plan_lifetime created expires = Inr ()"
    "validate_subject (get v (js ''subject'')) = Inr subject" "validate_inputs h (get v (js ''inputs'')) = Inr inputs" "is_digest image"
    "normalize_destinations (get (get (get v (js ''egress'')) (js ''install'')) (js ''destinations'')) created expires = Inr ds"
    "derive_job_id h p = Inr job_id" "build_plan h p = Inr expected" "canonical_json v = canonical_json expected" "record_for_plan h p = Inr r"
    and p: "p = \<lparr>rp_job_id = job_id, rp_nonce_digest = nonce, rp_created_at = created, rp_expires_at = expires, rp_subject = subject, rp_inputs = inputs,
       rp_image_digest = image, rp_destinations = ds\<rparr>"
    unfolding validate_plan_def Let_def result_simps by (auto simp: is_ok_iff)
  have r: "pr_plan r = p" using raw(13) by (simp add: record_for_plan_eq)
  have "created + plan_min_ttl_ms \<le> expires \<and> expires \<le> created + plan_max_ttl_ms" using raw(5) by (auto simp: assert_plan_lifetime_def not_less)
  then have "good_plan h p" using raw subject_good [OF raw(6)] inputs_good [OF raw(7)] destinations_sound [OF raw(9)]
    unfolding good_plan_def by (simp add: p)
  moreover have "canonical_json v = Inr (pr_canonical_json r)"
    using raw(11,12,13) by (auto simp: record_for_plan_eq build_plan_def result_simps)
  ultimately show ?thesis using r raw(13) by simp
qed

lemma plan_again:
  assumes p: "good_plan h p" and r: "record_for_plan h p = Inr r" and w: "alike (plan_value p (pr_policy_digest r)) w"
  shows "validate_plan h w = Inr r"
proof -
  note g = p [unfolded good_plan_def]
  note e = r [unfolded record_for_plan_eq]
  note fields = alike_plan [OF w] alike_job [OF alike_plan(4) [OF w]] alike_egress(1,2) [OF alike_plan(8) [OF w]]
  have texts: "bounded_string (JStr (rp_job_id p)) l 76 = Inr (rp_job_id p)" "rn_digest (JStr (rp_nonce_digest p)) l = Inr (rp_nonce_digest p)"
    "rn_digest (JStr (rp_image_digest p)) l = Inr (rp_image_digest p)" "rn_timestamp (jint (rp_created_at p)) l = Inr (rp_created_at p)"
    "rn_timestamp (jint (rp_expires_at p)) l = Inr (rp_expires_at p)" for l
    using g by (simp_all add: result_simps job_id_text plan_min_ttl_ms_def)
  have members: "validate_subject (get w (js ''subject'')) = Inr (rp_subject p)" "validate_inputs h (get w (js ''inputs'')) = Inr (rp_inputs p)"
    "normalize_destinations (get (get (get w (js ''egress'')) (js ''install'')) (js ''destinations'')) (rp_created_at p) (rp_expires_at p) = Inr (rp_destinations p)"
    using g alike_plan(5,6) [OF w] alike_egress(3) [OF alike_plan(8) [OF w]] by (auto intro: subject_again inputs_again destinations_again)
  have lifetime: "assert_plan_lifetime (rp_created_at p) (rp_expires_at p) = Inr ()" using g by (simp add: assert_plan_lifetime_def)
  have same: "\<lparr>rp_job_id = rp_job_id p, rp_nonce_digest = rp_nonce_digest p, rp_created_at = rp_created_at p, rp_expires_at = rp_expires_at p,
      rp_subject = rp_subject p, rp_inputs = rp_inputs p, rp_image_digest = rp_image_digest p, rp_destinations = rp_destinations p\<rparr> = p" by simp
  have built: "build_plan h p = Inr (plan_value p (pr_policy_digest r))" using e by (simp add: build_plan_def)
  have printed: "canonical_json w = Inr (pr_canonical_json r)" using alike_prints [OF w] e by simp
  show ?thesis unfolding validate_plan_def fields bindR_simps texts members lifetime thenR_simps printed
    using g e r built by (simp add: same Let_def)
qed

lemma wf_plan_value: "wf_jsval (plan_value p d)"
  by (auto simp: plan_value_def job_value_def egress_value_def execution_value_def storage_value_def teardown_value_def)

lemma plan_validated:
  assumes "good_plan h p" "record_for_plan h p = Inr r"
  shows "validate_plan h (plan_value p (pr_policy_digest r)) = Inr r"
  using plan_again [OF assms alike_refl [OF wf_plan_value]] assms(2) by (simp add: record_for_plan_eq)

lemma created_plan:
  assumes h: "hash32 h" and r: "create_plan h clock random i = Inr r"
  shows "good_plan h (pr_plan r)" "record_for_plan h (pr_plan r) = Inr r"
proof -
  from r obtain p t where n: "normalize_plan_input h clock i = Inr p" and t: "canonical_json (job_identity (p\<lparr>rp_nonce_digest := sha256 h random\<rparr>)) = Inr t"
    and rec: "record_for_plan h (p\<lparr>rp_nonce_digest := sha256 h random, rp_job_id := js ''previewjob_'' @ sha256_hex h (utf8 t)\<rparr>) = Inr r"
    by (auto simp: create_plan_def derive_job_id_def result_simps Let_def)
  let ?p = "p\<lparr>rp_nonce_digest := sha256 h random, rp_job_id := js ''previewjob_'' @ sha256_hex h (utf8 t)\<rparr>"
  have plan: "pr_plan r = ?p" using rec by (simp add: record_for_plan_eq)
  have id: "is_runner_job_id (js ''previewjob_'' @ sha256_hex h (utf8 t))" using sha256_hex_n [OF h] by (simp add: is_runner_job_id_def starts_with_def)
  have identity: "job_identity ?p = job_identity (p\<lparr>rp_nonce_digest := sha256 h random\<rparr>)" by (simp add: job_identity_def)
  have derived: "derive_job_id h ?p = Inr (js ''previewjob_'' @ sha256_hex h (utf8 t))" unfolding derive_job_id_def identity t by simp
  show "good_plan h (pr_plan r)" using normalized_plan [OF n] id derived sha256_is_digest [OF h] unfolding plan by (simp add: good_plan_def)
  show "record_for_plan h (pr_plan r) = Inr r" using rec plan by simp
qed

lemma record_members [simp]:
  "get (plan_record_value r) (js ''plan'') = plan_value (pr_plan r) (pr_policy_digest r)" "get (plan_record_value r) (js ''canonicalJson'') = JStr (pr_canonical_json r)"
  "get (plan_record_value r) (js ''digest'') = JStr (pr_digest r)"
  by (simp_all add: plan_record_value_def get_obj)

lemma record_accepted:
  assumes "good_plan h (pr_plan r)" "record_for_plan h (pr_plan r) = Inr r"
  shows "validate_plan_record h (plan_record_value r) = Inr r"
proof -
  have shape: "(case plan_record_value r of JObj _ _ \<Rightarrow> False | JArr _ _ \<Rightarrow> False | _ \<Rightarrow> True) = False" by (simp add: plan_record_value_def obj_def)
  show ?thesis unfolding validate_plan_record_def shape by (simp add: plan_validated [OF assms])
qed

lemma good_plan_times: "good_plan h p \<Longrightarrow> 0 < rp_created_at p \<and> rp_expires_at p \<le> max_timestamp"
  by (simp add: good_plan_def)

section \<open>A sample plan\<close>

definition sample_subject :: runner_subject where
  "sample_subject = \<lparr>sj_pilot_id = js ''pilot_sample'', sj_repository = \<lparr>rs_slug = js ''acme/app'', rs_id = 7, rs_owner_id = 9\<rparr>,
     sj_base = \<lparr>bs_branch = js ''main'', bs_sha = replicate 40 97\<rparr>\<rparr>"

definition sample_destination :: destination where
  "sample_destination = \<lparr>ds_host = js ''registry.npmjs.org'', ds_addresses = [js ''104.16.0.34''],
     ds_evidence_digest = js ''sha256:'' @ replicate 64 98, ds_observed_at = 1000, ds_expires_at = 900000\<rparr>"

definition sample_plan_input :: plan_input where
  "sample_plan_input = \<lparr>pi_pilot_id = JStr (sj_pilot_id sample_subject), pi_repository = repository_value (sj_repository sample_subject),
     pi_base = base_value (sj_base sample_subject), pi_source_archive_digest = JStr (js ''sha256:'' @ replicate 64 99),
     pi_manifest_digest = JStr (js ''sha256:'' @ replicate 64 100), pi_image_digest = JStr (js ''sha256:'' @ replicate 64 101),
     pi_egress = arr [destination_value sample_destination], pi_expires_at = jint 602000, pi_now = JUndef\<rparr>"

lemma digest_replicate: "is_hex c \<Longrightarrow> is_digest (js ''sha256:'' @ replicate 64 c)"
  by (simp add: is_digest_def starts_with_def hex_n_def list_all_iff)

lemma hex_literals: "is_hex 97" "is_hex 98" "is_hex 99" "is_hex 100" "is_hex 101" "is_hex 102"
  by code_simp+

lemma sample_subject_good: "good_subject sample_subject"
proof -
  have "bounded_text 86 (sj_pilot_id sample_subject)" "is_pilot_id (sj_pilot_id sample_subject)" "bounded_text 140 (rs_slug (sj_repository sample_subject))"
    "is_ok (parse_repository_slug (rs_slug (sj_repository sample_subject)))"
    "rs_slug (sj_repository sample_subject) = to_lower (rs_slug (sj_repository sample_subject))"
    "bounded_text 64 (bs_sha (sj_base sample_subject))" "is_git_sha (bs_sha (sj_base sample_subject))"
    "bounded_text 240 (bs_branch (sj_base sample_subject))" "is_ok (validate_branch_name (bs_branch (sj_base sample_subject)))"
    by code_simp+
  then show ?thesis unfolding good_subject_def by (simp only:) (simp add: sample_subject_def max_safe_def)
qed

lemma scope_digest: "hash32 h \<Longrightarrow> is_digest (command_scope_digest h)"
proof -
  assume h: "hash32 h"
  have "is_ok (canonical_json (phase_value n w b))" for n w b
    unfolding phase_value_def by (rule canonical_obj_ok) simp_all
  then have "is_ok (canonical_json (arr [phase_value ''prepare'' ''none'' False, phase_value ''install'' ''forced_static_sni_gateway'' False,
        phase_value ''migrate'' ''none'' False, phase_value ''verify'' ''none'' True]))"
    by (intro canonical_arr_ok) (simp_all add: phase_value_def)
  then have "is_ok (canonical_json command_scope)" unfolding command_scope_def
    using texts_print [of "[''inngest-v3-to-v4'']"] texts_print [of "[''npm'']"] texts_print [of "[''install'', ''typecheck'', ''test'', ''lint'', ''runtime'']"]
    by (intro canonical_obj_ok) (simp_all add: max_safe_def)
  then show ?thesis using sha256_is_digest [OF h] by (auto simp: command_scope_digest_def canonical_digest_def is_ok_iff)
qed

lemma sample_destination_good: "good_destination 2000 602000 sample_destination"
proof -
  have "bounded_text 253 (ds_host sample_destination)" "ds_host sample_destination = to_lower (ds_host sample_destination)" "is_host (ds_host sample_destination)"
    "is_ip (ds_host sample_destination) = 0" "list_all (\<lambda>s. bounded_text 64 s \<and> exact_global_ip s) (ds_addresses sample_destination)"
    "distinct (ds_addresses sample_destination)" "sorted (ds_addresses sample_destination)"
    by code_simp+
  moreover have "is_digest (ds_evidence_digest sample_destination)" by (simp add: sample_destination_def digest_replicate hex_literals)
  ultimately show ?thesis unfolding good_destination_def
    by (simp only:) (simp add: sample_destination_def resolution_max_age_ms_def resolution_max_ttl_ms_def max_timestamp_def)
qed

lemma sample_plan_created: "\<exists>r. create_plan sample_hash 2000 [1, 2, 3] sample_plan_input = Inr r \<and> rp_created_at (pr_plan r) = 2000 \<and> rp_expires_at (pr_plan r) = 602000
    \<and> rp_subject (pr_plan r) = sample_subject"
proof -
  let ?i = "\<lparr>ri_source_archive_digest = js ''sha256:'' @ replicate 64 99, ri_manifest_digest = js ''sha256:'' @ replicate 64 100,
    ri_command_scope_digest = command_scope_digest sample_hash\<rparr>"
  let ?p = "\<lparr>rp_job_id = [], rp_nonce_digest = [], rp_created_at = 2000, rp_expires_at = 602000, rp_subject = sample_subject, rp_inputs = ?i,
    rp_image_digest = js ''sha256:'' @ replicate 64 101, rp_destinations = [sample_destination]\<rparr>"
  have inputs: "good_inputs sample_hash ?i" by (simp add: good_inputs_def scope_digest hash32_sample digest_replicate hex_literals)
  have ds: "normalize_destinations (arr [destination_value sample_destination]) 2000 602000 = Inr [sample_destination]"
    using destinations_again [OF _ _ alike_refl, of 2000 602000 "[sample_destination]"] sample_destination_good good_destination_ok [OF sample_destination_good]
    prints_members(4) [of "[sample_destination]"] by (simp add: migration_hosts_def sample_destination_def)
  have n: "normalize_plan_input sample_hash 2000 sample_plan_input = Inr ?p"
    unfolding normalize_plan_input_def sample_plan_input_def
    using subject_again [OF sample_subject_good alike_refl] prints_members(1) [OF good_subject_ok [OF sample_subject_good]]
      inputs_again [OF inputs alike_refl] prints_members(2) [OF good_inputs_ok [OF inputs]] ds
    by (simp add: subject_value_def inputs_value_def rn_timestamp_def rn_digest_def digest_replicate hex_literals max_safe_def max_timestamp_def
        assert_plan_lifetime_def plan_min_ttl_ms_def plan_max_ttl_ms_def)
  let ?q = "?p\<lparr>rp_nonce_digest := sha256 sample_hash [1, 2, 3]\<rparr>"
  have ok: "ok_plan (?q\<lparr>rp_job_id := s\<rparr>)" if "valid_unicode s" for s
    using that good_subject_ok [OF sample_subject_good] good_inputs_ok [OF inputs] good_destination_ok [OF sample_destination_good]
    by (simp add: ok_plan_def sha256_unicode digest_unicode digest_replicate hex_literals safe_int_def max_safe_def)
  obtain t where t: "canonical_json (job_identity ?q) = Inr t" using prints_members(6) [OF ok [of "[]"]] by (auto simp: is_ok_iff)
  let ?r = "?q\<lparr>rp_job_id := js ''previewjob_'' @ sha256_hex sample_hash (utf8 t)\<rparr>"
  have okr: "ok_plan ?r" by (rule ok) (simp add: valid_unicode_append sha_hex_unicode)
  obtain d where d: "egress_policy_digest sample_hash (rp_destinations ?r) = Inr d"
    using prints_members(5) [of "rp_destinations ?r"] okr by (auto simp: ok_plan_def egress_policy_digest_def canonical_digest_def is_ok_iff)
  obtain u where u: "canonical_json (plan_value ?r d) = Inr u" using plan_prints(4) [OF okr policy_digest_unicode [OF d]] by (auto simp: is_ok_iff)
  have "record_for_plan sample_hash ?r = Inr \<lparr>pr_plan = ?r, pr_policy_digest = d, pr_canonical_json = u, pr_digest = sha256 sample_hash (utf8 u)\<rparr>"
    unfolding record_for_plan_def d bindR_simps u ..
  then show ?thesis unfolding create_plan_def n bindR_simps Let_def derive_job_id_def t by auto
qed

lemma sample_plan_validated: "\<exists>v r. validate_plan sample_hash v = Inr r"
  using sample_plan_created plan_validated created_plan [OF hash32_sample] by blast

section \<open>Properties\<close>

text \<open>C34: a plan that was created is accepted at every moment from its creation until just before its expiry, as the record it was created
  with, and is refused at every other moment.\<close>

theorem created_plan_current:
  assumes "hash32 h" "create_plan h clock random i = Inr r"
  shows "assert_plan_current h (plan_record_value r) (jint now) =
    (if now \<le> 0 \<or> max_timestamp < now then throw ''runner execution clock is invalid''
     else if now < rp_created_at (pr_plan r) \<or> rp_expires_at (pr_plan r) \<le> now then throw ''Publication runner plan is not currently valid''
     else Inr r)"
proof -
  have accepted: "validate_plan_record h (plan_record_value r) = Inr r" by (rule record_accepted [OF created_plan [OF assms]])
  have "max_timestamp \<le> max_safe" by (simp add: max_timestamp_def max_safe_def)
  then show ?thesis unfolding assert_plan_current_def accepted by (auto simp: rn_timestamp_def not_less)
qed

lemma created_plan_current_witness:
  "\<exists>r. create_plan sample_hash 2000 [1, 2, 3] sample_plan_input = Inr r \<and> assert_plan_current sample_hash (plan_record_value r) (jint 5000) = Inr r
    \<and> assert_plan_current sample_hash (plan_record_value r) (jint 602000) = throw ''Publication runner plan is not currently valid''"
proof -
  obtain r where r: "create_plan sample_hash 2000 [1, 2, 3] sample_plan_input = Inr r" "rp_created_at (pr_plan r) = 2000" "rp_expires_at (pr_plan r) = 602000"
    using sample_plan_created by blast
  show ?thesis using created_plan_current [OF hash32_sample r(1), of 5000] created_plan_current [OF hash32_sample r(1), of 602000] r
    by (auto simp: max_timestamp_def)
qed

text \<open>C33: a value is accepted as a plan exactly when it prints as the plan the code itself builds from good members: no control can be added,
  dropped or weakened.\<close>

theorem plan_exact:
  assumes "wf_jsval v"
  shows "validate_plan h v = Inr r \<longleftrightarrow> good_plan h (pr_plan r) \<and> record_for_plan h (pr_plan r) = Inr r
    \<and> same_json (plan_value (pr_plan r) (pr_policy_digest r)) v"
proof
  assume v: "validate_plan h v = Inr r"
  from plan_sound [OF this] show "good_plan h (pr_plan r) \<and> record_for_plan h (pr_plan r) = Inr r \<and> same_json (plan_value (pr_plan r) (pr_policy_digest r)) v"
    by (auto simp: same_json_def record_for_plan_eq)
next
  assume "good_plan h (pr_plan r) \<and> record_for_plan h (pr_plan r) = Inr r \<and> same_json (plan_value (pr_plan r) (pr_policy_digest r)) v"
  with assms show "validate_plan h v = Inr r" using plan_again [of h "pr_plan r" r v] by (simp add: alike_def wf_plan_value)
qed

lemma plan_exact_witness:
  "\<exists>r. create_plan sample_hash 2000 [1, 2, 3] sample_plan_input = Inr r \<and> validate_plan sample_hash (plan_value (pr_plan r) (pr_policy_digest r)) = Inr r"
proof -
  obtain r where r: "create_plan sample_hash 2000 [1, 2, 3] sample_plan_input = Inr r" using sample_plan_created by blast
  note good = created_plan [OF hash32_sample r]
  then have "same_json (plan_value (pr_plan r) (pr_policy_digest r)) (plan_value (pr_plan r) (pr_policy_digest r))" by (simp add: record_for_plan_eq same_json_refl)
  with plan_exact [OF wf_plan_value] good r show ?thesis by blast
qed

text \<open>Whatever object is accepted as a plan prints as the plan with the code's own isolation controls and the members that were
  validated; it lives between one and fifteen minutes, its job is named by the digest of those members, and its only destination is the
  package registry, at distinct exact global addresses whose resolution evidence is fresh at creation and outlives the plan.\<close>

theorem plan_controls:
  assumes "validate_plan h v = Inr r"
  shows "canonical_json v = canonical_json (plan_value (pr_plan r) (pr_policy_digest r))
    \<and> egress_policy_digest h (rp_destinations (pr_plan r)) = Inr (pr_policy_digest r)
    \<and> derive_job_id h (pr_plan r) = Inr (rp_job_id (pr_plan r))
    \<and> plan_min_ttl_ms \<le> rp_expires_at (pr_plan r) - rp_created_at (pr_plan r) \<and> rp_expires_at (pr_plan r) - rp_created_at (pr_plan r) \<le> plan_max_ttl_ms
    \<and> (\<exists>d. rp_destinations (pr_plan r) = [d] \<and> ds_host d = js ''registry.npmjs.org'' \<and> distinct (ds_addresses d)
        \<and> list_all exact_global_ip (ds_addresses d) \<and> ds_addresses d \<noteq> []
        \<and> rp_created_at (pr_plan r) - resolution_max_age_ms \<le> ds_observed_at d \<and> ds_observed_at d \<le> rp_created_at (pr_plan r)
        \<and> rp_expires_at (pr_plan r) \<le> ds_expires_at d)"
proof -
  note p = plan_sound [OF assms]
  then have g: "good_plan h (pr_plan r)" by simp
  note g' = g [unfolded good_plan_def]
  from g' obtain d where d: "rp_destinations (pr_plan r) = [d]" "ds_host d = js ''registry.npmjs.org''" by (auto simp: migration_hosts_def map_eq_Cons_conv)
  then have "good_destination (rp_created_at (pr_plan r)) (rp_expires_at (pr_plan r)) d" using g' by simp
  then show ?thesis using p g' d by (auto simp: record_for_plan_eq good_destination_def list_all_iff)
qed

lemma plan_controls_witness:
  "\<exists>v r d. validate_plan sample_hash v = Inr r \<and> rp_destinations (pr_plan r) = [d] \<and> ds_host d = js ''registry.npmjs.org'' \<and> distinct (ds_addresses d)"
proof -
  obtain v r where "validate_plan sample_hash v = Inr r" using sample_plan_validated by blast
  with plan_controls [OF this] show ?thesis by blast
qed

text \<open>C35: two plans with one job id are the same plan, unless two different texts were found with the same SHA-256 digest.\<close>

theorem job_id_identifies:
  assumes "validate_plan h v = Inr r" "validate_plan h w = Inr q" "rp_job_id (pr_plan r) = rp_job_id (pr_plan q)"
  shows "pr_plan r = pr_plan q \<or> (\<exists>s t. canonical_json (job_identity (pr_plan r)) = Inr s \<and> canonical_json (job_identity (pr_plan q)) = Inr t
    \<and> utf8 s \<noteq> utf8 t \<and> h (utf8 s) = h (utf8 t))"
proof -
  have g: "good_plan h (pr_plan r)" "good_plan h (pr_plan q)" using plan_sound assms(1,2) by blast+
  note ok = good_plan_ok [OF g(1)] good_plan_ok [OF g(2)]
  from g obtain s t where s: "canonical_json (job_identity (pr_plan r)) = Inr s" "rp_job_id (pr_plan r) = js ''previewjob_'' @ sha256_hex h (utf8 s)"
    and t: "canonical_json (job_identity (pr_plan q)) = Inr t" "rp_job_id (pr_plan q) = js ''previewjob_'' @ sha256_hex h (utf8 t)"
    by (auto simp: good_plan_def derive_job_id_def result_simps)
  have digest: "h (utf8 s) = h (utf8 t)" using assms(3) unfolding s(2) t(2) by (simp add: sha256_hex_def)
  show ?thesis
  proof (cases "utf8 s = utf8 t")
    case True
    have wf: "wf_jsval (job_identity p)" for p by (simp add: job_identity_def)
    have "s = t" using True utf8_inject [OF canonical_unicode [OF wf s(1)] canonical_unicode [OF wf t(1)]] by simp
    then have "same_json (job_identity (pr_plan r)) (job_identity (pr_plan q))" using s t by (simp add: same_json_def)
    then have "(pr_plan r)\<lparr>rp_job_id := []\<rparr> = (pr_plan q)\<lparr>rp_job_id := []\<rparr>" unfolding same_job_identity [OF ok] .
    then have "pr_plan r = pr_plan q" using assms(3) by (cases "pr_plan r"; cases "pr_plan q") simp
    then show ?thesis ..
  qed (use s t digest in blast)
qed

lemma job_id_identifies_witness:
  "\<exists>v r. validate_plan sample_hash v = Inr r \<and> (pr_plan r = pr_plan r \<or> (\<exists>s t. canonical_json (job_identity (pr_plan r)) = Inr s
    \<and> canonical_json (job_identity (pr_plan r)) = Inr t \<and> utf8 s \<noteq> utf8 t \<and> sample_hash (utf8 s) = sample_hash (utf8 t)))"
proof -
  obtain v r where "validate_plan sample_hash v = Inr r" using sample_plan_validated by blast
  with job_id_identifies [OF this this refl] show ?thesis by blast
qed

end
