(* ===== verification/RunnerAttestationFacts.thy ===== *)
theory RunnerAttestationFacts
  imports RunnerAttestation RunnerPlanClaims
begin

text \<open>
  The attestation of a run as a value: what its validators accept, that they accept every value that prints like a good attestation, and
  that what they accept prints like the attestation they return.
\<close>

section \<open>An attestation as a value\<close>

definition check_value :: "check_evidence \<Rightarrow> jsval" where
  "check_value c = obj [(js ''status'', JStr (js ''passed'')), (js ''evidenceReference'', JStr (ce_reference c)), (js ''evidenceDigest'', JStr (ce_digest c))]"

definition checks_value :: "runner_checks \<Rightarrow> jsval" where
  "checks_value c = obj [(js ''install'', check_value (ck_install c)), (js ''typecheck'', check_value (ck_typecheck c)), (js ''test'', check_value (ck_test c)),
     (js ''lint'', check_value (ck_lint c)), (js ''runtime'', check_value (ck_runtime c))]"

definition attested_execution_value :: "attested_execution \<Rightarrow> jsval" where
  "attested_execution_value x = obj [(js ''identity'', JStr (ae_identity x)), (js ''imageDigest'', JStr (ae_image_digest x)),
     (js ''executionInstanceDigest'', JStr (ae_instance_digest x)), (js ''startedAt'', jint (ae_started_at x)), (js ''finishedAt'', jint (ae_finished_at x)),
     (js ''credentialsObserved'', JStr (js ''none'')), (js ''sourceReadOnly'', JBool True), (js ''proxyEnvironmentObserved'', JStr (js ''absent'')),
     (js ''installEgressPolicyDigest'', JStr (ae_policy_digest x)), (js ''egressEvidenceReference'', JStr (ae_egress_reference x)),
     (js ''egressEvidenceDigest'', JStr (ae_egress_digest x)), (js ''checksNetwork'', JStr (js ''none'')), (js ''checks'', checks_value (ae_checks x)),
     (js ''outputArtifactDigest'', JStr (ae_output_digest x)), (js ''candidateTreeSha'', JStr (ae_tree_sha x)), (js ''status'', JStr (js ''passed'')),
     (js ''evidenceReference'', JStr (ae_reference x)), (js ''evidenceDigest'', JStr (ae_digest x))]"

definition attested_teardown_value :: "attested_teardown \<Rightarrow> jsval" where
  "attested_teardown_value t = obj [(js ''containersDestroyedAt'', jint (td_containers_at t)), (js ''networkNamespaceDestroyedAt'', jint (td_network_at t)),
     (js ''nftablesPolicyRemovedAt'', jint (td_nftables_at t)), (js ''workspaceDestroyedAt'', jint (td_workspace_at t)), (js ''complete'', JBool True),
     (js ''evidenceReference'', JStr (td_reference t)), (js ''evidenceDigest'', JStr (td_digest t))]"

definition attestation_value :: "attestation \<Rightarrow> jsval" where
  "attestation_value a = obj [(js ''schemaVersion'', jint 1), (js ''profile'', JStr runner_profile), (js ''planDigest'', JStr (at_plan_digest a)),
     (js ''jobId'', JStr (at_job_id a)), (js ''runnerInstanceDigest'', JStr (at_instance_digest a)), (js ''subject'', subject_value (at_subject a)),
     (js ''inputs'', inputs_value (at_inputs a)), (js ''output'', output_value (at_output a)), (js ''execution'', attested_execution_value (at_execution a)),
     (js ''teardown'', attested_teardown_value (at_teardown a)), (js ''observedAt'', jint (at_observed_at a))]"

section \<open>Good attestations\<close>

definition good_reference :: "jsstr \<Rightarrow> bool" where
  "good_reference s \<longleftrightarrow> bounded_text 500 s \<and> 6 \<le> byte_length s \<and> list_all (\<lambda>c. \<not> is_control c) s"

lemma evidence_reference_eq [result_simps]: "evidence_reference v l = Inr s \<longleftrightarrow> v = JStr s \<and> good_reference s"
  by (auto simp: evidence_reference_def good_reference_def result_simps list_ex_iff list_all_iff not_less split: if_splits)

definition good_check :: "check_evidence \<Rightarrow> bool" where
  "good_check c \<longleftrightarrow> good_reference (ce_reference c) \<and> is_digest (ce_digest c)"

definition good_checks :: "runner_checks \<Rightarrow> bool" where
  "good_checks c \<longleftrightarrow> good_check (ck_install c) \<and> good_check (ck_typecheck c) \<and> good_check (ck_test c) \<and> good_check (ck_lint c) \<and> good_check (ck_runtime c)"

definition good_time :: "int \<Rightarrow> bool" where
  "good_time n \<longleftrightarrow> 0 < n \<and> n \<le> max_timestamp"

lemma rn_time: "rn_timestamp v l = Inr n \<longleftrightarrow> v = jint n \<and> good_time n"
  by (simp add: result_simps good_time_def)

definition good_execution :: "plan_record \<Rightarrow> runner_output \<Rightarrow> attested_execution \<Rightarrow> bool" where
  "good_execution plan out x \<longleftrightarrow> ae_identity x = execution_identity (pr_plan plan) \<and> ae_image_digest x = rp_image_digest (pr_plan plan)
     \<and> ae_policy_digest x = pr_policy_digest plan \<and> ae_output_digest x = ro_artifact_digest out \<and> ae_tree_sha x = ro_candidate_tree_sha out
     \<and> is_digest (ae_instance_digest x) \<and> good_time (ae_started_at x) \<and> good_time (ae_finished_at x) \<and> good_reference (ae_egress_reference x)
     \<and> is_digest (ae_egress_digest x) \<and> good_checks (ae_checks x) \<and> good_reference (ae_reference x) \<and> is_digest (ae_digest x)"

definition good_teardown :: "attested_teardown \<Rightarrow> bool" where
  "good_teardown t \<longleftrightarrow> good_time (td_containers_at t) \<and> good_time (td_network_at t) \<and> good_time (td_nftables_at t) \<and> good_time (td_workspace_at t)
     \<and> good_reference (td_reference t) \<and> is_digest (td_digest t)"

text \<open>The run lies in the plan's lifetime, and the teardown follows it: containers, network, firewall, and the workspace at any time after the containers.\<close>

definition good_timeline :: "runner_plan \<Rightarrow> attested_execution \<Rightarrow> attested_teardown \<Rightarrow> int \<Rightarrow> bool" where
  "good_timeline p x d observed \<longleftrightarrow>
     sorted [rp_created_at p, ae_started_at x, ae_finished_at x, td_containers_at d, td_network_at d, td_nftables_at d, observed]
     \<and> sorted [td_containers_at d, td_workspace_at d, observed] \<and> observed < rp_expires_at p"

lemma timeline_good: "good_timeline p x d observed = timeline_ok p x d observed"
  by (auto simp: good_timeline_def timeline_ok_def)

definition good_attestation :: "hash \<Rightarrow> plan_record \<Rightarrow> runner_output \<Rightarrow> attestation \<Rightarrow> bool" where
  "good_attestation h plan out a \<longleftrightarrow> is_digest (at_plan_digest a) \<and> canonical_digest h (plan_value (pr_plan plan) (pr_policy_digest plan)) = Inr (at_plan_digest a)
     \<and> at_job_id a = rp_job_id (pr_plan plan) \<and> bounded_text 76 (at_job_id a) \<and> is_digest (at_instance_digest a)
     \<and> at_subject a = rp_subject (pr_plan plan) \<and> good_subject (at_subject a) \<and> at_inputs a = rp_inputs (pr_plan plan) \<and> good_inputs h (at_inputs a)
     \<and> at_output a = out \<and> good_output (at_output a) \<and> good_execution plan out (at_execution a) \<and> good_teardown (at_teardown a)
     \<and> good_time (at_observed_at a) \<and> good_timeline (pr_plan plan) (at_execution a) (at_teardown a) (at_observed_at a)"

section \<open>What the validators accept\<close>

lemma check_good: "validate_check name v = Inr c \<Longrightarrow> good_check c"
  by (auto simp: validate_check_def result_simps good_check_def)

lemma checks_good: "validate_checks v = Inr c \<Longrightarrow> good_checks c"
  unfolding validate_checks_def result_simps by (auto simp: good_checks_def dest: check_good)

lemma execution_good: "validate_execution_attestation plan out v = Inr x \<Longrightarrow> good_execution plan out x"
  unfolding validate_execution_attestation_def result_simps by (auto simp: good_execution_def good_time_def dest: checks_good)

lemma teardown_good: "validate_teardown_attestation v = Inr t \<Longrightarrow> good_teardown t"
  unfolding validate_teardown_attestation_def result_simps by (auto simp: good_teardown_def good_time_def)

lemma alike_check:
  assumes "alike (check_value c) w"
  shows "rn_fields w [''status'', ''evidenceReference'', ''evidenceDigest''] l = Inr w" "get w (js ''status'') = JStr (js ''passed'')"
    "get w (js ''evidenceReference'') = JStr (ce_reference c)" "get w (js ''evidenceDigest'') = JStr (ce_digest c)"
  using rn_fields_alike [OF assms [unfolded check_value_def]] alike_obj(3) [OF assms [unfolded check_value_def]] by simp_all

lemma check_again: "good_check c \<Longrightarrow> alike (check_value c) w \<Longrightarrow> validate_check name w = Inr c"
  by (cases c) (simp add: validate_check_def alike_check result_simps good_check_def)

lemma alike_checks:
  assumes "alike (checks_value c) w"
  shows "rn_fields w [''install'', ''typecheck'', ''test'', ''lint'', ''runtime''] l = Inr w" "alike (check_value (ck_install c)) (get w (js ''install''))"
    "alike (check_value (ck_typecheck c)) (get w (js ''typecheck''))" "alike (check_value (ck_test c)) (get w (js ''test''))"
    "alike (check_value (ck_lint c)) (get w (js ''lint''))" "alike (check_value (ck_runtime c)) (get w (js ''runtime''))"
  using rn_fields_alike [OF assms [unfolded checks_value_def]] alike_obj(3) [OF assms [unfolded checks_value_def]] by simp_all

lemma checks_again:
  assumes "good_checks c" and w: "alike (checks_value c) w"
  shows "validate_checks w = Inr c"
proof -
  note g = assms(1) [unfolded good_checks_def]
  have "validate_check ''install'' (get w (js ''install'')) = Inr (ck_install c)" "validate_check ''typecheck'' (get w (js ''typecheck'')) = Inr (ck_typecheck c)"
    "validate_check ''test'' (get w (js ''test'')) = Inr (ck_test c)" "validate_check ''lint'' (get w (js ''lint'')) = Inr (ck_lint c)"
    "validate_check ''runtime'' (get w (js ''runtime'')) = Inr (ck_runtime c)"
    using g alike_checks [OF w] by (auto intro: check_again)
  then show ?thesis unfolding validate_checks_def alike_checks(1) [OF w] bindR_simps by simp
qed

lemma alike_execution:
  assumes "alike (attested_execution_value x) w"
  shows "rn_fields w execution_keys l = Inr w" "get w (js ''identity'') = JStr (ae_identity x)" "get w (js ''imageDigest'') = JStr (ae_image_digest x)"
    "get w (js ''executionInstanceDigest'') = JStr (ae_instance_digest x)" "get w (js ''startedAt'') = jint (ae_started_at x)"
    "get w (js ''finishedAt'') = jint (ae_finished_at x)" "get w (js ''credentialsObserved'') = JStr (js ''none'')" "get w (js ''sourceReadOnly'') = JBool True"
    "get w (js ''proxyEnvironmentObserved'') = JStr (js ''absent'')" "get w (js ''installEgressPolicyDigest'') = JStr (ae_policy_digest x)"
    "get w (js ''egressEvidenceReference'') = JStr (ae_egress_reference x)" "get w (js ''egressEvidenceDigest'') = JStr (ae_egress_digest x)"
    "get w (js ''checksNetwork'') = JStr (js ''none'')" "alike (checks_value (ae_checks x)) (get w (js ''checks''))"
    "get w (js ''outputArtifactDigest'') = JStr (ae_output_digest x)" "get w (js ''candidateTreeSha'') = JStr (ae_tree_sha x)"
    "get w (js ''status'') = JStr (js ''passed'')" "get w (js ''evidenceReference'') = JStr (ae_reference x)" "get w (js ''evidenceDigest'') = JStr (ae_digest x)"
  using rn_fields_alike [OF assms [unfolded attested_execution_value_def], of execution_keys] alike_obj(3) [OF assms [unfolded attested_execution_value_def]]
  by (simp_all add: execution_keys_def)

lemma execution_again:
  assumes g: "good_execution plan out x" and w: "alike (attested_execution_value x) w"
  shows "validate_execution_attestation plan out w = Inr x"
proof -
  note e = g [unfolded good_execution_def]
  have checks: "validate_checks (get w (js ''checks'')) = Inr (ae_checks x)" using e alike_execution(14) [OF w] by (intro checks_again) auto
  have parts: "rn_digest (JStr (ae_instance_digest x)) l = Inr (ae_instance_digest x)" "rn_timestamp (jint (ae_started_at x)) l = Inr (ae_started_at x)"
    "rn_timestamp (jint (ae_finished_at x)) l = Inr (ae_finished_at x)" "evidence_reference (JStr (ae_egress_reference x)) l = Inr (ae_egress_reference x)"
    "rn_digest (JStr (ae_egress_digest x)) l = Inr (ae_egress_digest x)" "evidence_reference (JStr (ae_reference x)) l = Inr (ae_reference x)"
    "rn_digest (JStr (ae_digest x)) l = Inr (ae_digest x)" for l
    using e by (simp_all add: result_simps good_time_def)
  show ?thesis unfolding validate_execution_attestation_def alike_execution(1-13,15-19) [OF w] bindR_simps parts checks
    using e by (cases x) simp
qed

lemma alike_teardown:
  assumes "alike (attested_teardown_value t) w"
  shows "rn_fields w teardown_keys l = Inr w" "get w (js ''containersDestroyedAt'') = jint (td_containers_at t)"
    "get w (js ''networkNamespaceDestroyedAt'') = jint (td_network_at t)" "get w (js ''nftablesPolicyRemovedAt'') = jint (td_nftables_at t)"
    "get w (js ''workspaceDestroyedAt'') = jint (td_workspace_at t)" "get w (js ''complete'') = JBool True"
    "get w (js ''evidenceReference'') = JStr (td_reference t)" "get w (js ''evidenceDigest'') = JStr (td_digest t)"
  using rn_fields_alike [OF assms [unfolded attested_teardown_value_def], of teardown_keys] alike_obj(3) [OF assms [unfolded attested_teardown_value_def]]
  by (simp_all add: teardown_keys_def)

lemma teardown_again: "good_teardown t \<Longrightarrow> alike (attested_teardown_value t) w \<Longrightarrow> validate_teardown_attestation w = Inr t"
  by (cases t) (simp add: validate_teardown_attestation_def alike_teardown result_simps good_teardown_def good_time_def)

section \<open>What is accepted prints like what is returned\<close>

lemma fields_same:
  assumes "rn_fields v keys l = Inr w" "map fst kvs = map js keys" "literal_keys kvs"
    and "list_all (\<lambda>(k, x). canonical_json x = canonical_json (get v k)) kvs"
  shows "canonical_json (obj kvs) = canonical_json v"
proof -
  from assms(1) obtain p ps t where "v = JObj p ps" "canonical_json v = Inr t" "sort (keys_of v) = sort (map js keys)"
    by (auto simp: rn_fields_eq is_obj_def is_ok_iff)
  from canonical_same [OF this(2,1,3) assms(2-4)] this(2) show ?thesis by simp
qed

lemma subject_same:
  assumes "validate_subject v = Inr s"
  shows "canonical_json (subject_value s) = canonical_json v"
proof -
  from assms obtain pilot slug parts sha i j name branch where raw: "is_obj v" "is_ok (canonical_json v)" "sort (keys_of v) = sort (map js [''pilotId'', ''repository'', ''base''])"
    "get v (js ''pilotId'') = JStr pilot"
    "is_obj (get v (js ''repository''))" "is_ok (canonical_json (get v (js ''repository'')))" "sort (keys_of (get v (js ''repository''))) = sort (map js [''slug'', ''id'', ''ownerId''])"
    "get (get v (js ''repository'')) (js ''slug'') = JStr slug" "parse_repository_slug slug = Inr parts"
    "get (get v (js ''repository'')) (js ''id'') = jint i" "get (get v (js ''repository'')) (js ''ownerId'') = jint j"
    "is_obj (get v (js ''base''))" "is_ok (canonical_json (get v (js ''base'')))" "sort (keys_of (get v (js ''base''))) = sort (map js [''branch'', ''sha''])"
    "get (get v (js ''base'')) (js ''sha'') = JStr sha" "get (get v (js ''base'')) (js ''branch'') = JStr name" "validate_branch_name name = Inr branch"
    and s: "s = \<lparr>sj_pilot_id = pilot, sj_repository = \<lparr>rs_slug = sl_slug parts, rs_id = i, rs_owner_id = j\<rparr>, sj_base = \<lparr>bs_branch = branch, bs_sha = sha\<rparr>\<rparr>"
    unfolding validate_subject_def result_simps by blast
  note same = slug_same [OF raw(9)] branch_same [OF raw(17)]
  have f: "rn_fields v [''pilotId'', ''repository'', ''base''] [] = Inr v"
    "rn_fields (get v (js ''repository'')) [''slug'', ''id'', ''ownerId''] [] = Inr (get v (js ''repository''))"
    "rn_fields (get v (js ''base'')) [''branch'', ''sha''] [] = Inr (get v (js ''base''))"
    unfolding rn_fields_eq using raw by blast+
  have r: "canonical_json (repository_value (sj_repository s)) = canonical_json (get v (js ''repository''))"
    unfolding repository_value_def by (rule fields_same [OF f(2)]) (simp_all add: raw(8,10,11) s same)
  have b: "canonical_json (base_value (sj_base s)) = canonical_json (get v (js ''base''))"
    unfolding base_value_def by (rule fields_same [OF f(3)]) (simp_all add: raw(15,16) s same)
  show ?thesis unfolding subject_value_def by (rule fields_same [OF f(1)]) (simp_all add: r b, simp add: raw(4) s)
qed

lemma inputs_same: "validate_inputs h v = Inr i \<Longrightarrow> canonical_json (inputs_value i) = canonical_json v"
  unfolding inputs_value_def by (rule fields_same [of v "[''sourceArchiveDigest'', ''manifestDigest'', ''commandScopeDigest'']" "[]"])
    (auto simp: validate_inputs_def result_simps)

lemma output_same: "validate_runner_output v = Inr r \<Longrightarrow> canonical_json (output_value r) = canonical_json v"
  unfolding output_value_def by (rule fields_same [of v "[''preflightId'', ''artifactDigest'', ''candidateTreeSha'']" "[]"])
    (auto simp: validate_runner_output_def result_simps)

lemma check_same: "validate_check name v = Inr c \<Longrightarrow> canonical_json (check_value c) = canonical_json v"
  unfolding check_value_def by (rule fields_same [of v "[''status'', ''evidenceReference'', ''evidenceDigest'']" "[]"])
    (auto simp: validate_check_def result_simps)

lemma checks_same: "validate_checks v = Inr c \<Longrightarrow> canonical_json (checks_value c) = canonical_json v"
  unfolding checks_value_def by (rule fields_same [of v "[''install'', ''typecheck'', ''test'', ''lint'', ''runtime'']" "[]"])
    (auto simp: validate_checks_def result_simps dest: check_same)

lemma execution_same:
  assumes "validate_execution_attestation plan out v = Inr x"
  shows "canonical_json (attested_execution_value x) = canonical_json v"
proof -
  from assms have f: "rn_fields v execution_keys [] = Inr v" and checks: "validate_checks (get v (js ''checks'')) = Inr (ae_checks x)"
    and m: "get v (js ''identity'') = JStr (ae_identity x)" "get v (js ''imageDigest'') = JStr (ae_image_digest x)"
      "get v (js ''executionInstanceDigest'') = JStr (ae_instance_digest x)" "get v (js ''startedAt'') = jint (ae_started_at x)"
      "get v (js ''finishedAt'') = jint (ae_finished_at x)" "get v (js ''credentialsObserved'') = JStr (js ''none'')" "get v (js ''sourceReadOnly'') = JBool True"
      "get v (js ''proxyEnvironmentObserved'') = JStr (js ''absent'')" "get v (js ''installEgressPolicyDigest'') = JStr (ae_policy_digest x)"
      "get v (js ''egressEvidenceReference'') = JStr (ae_egress_reference x)" "get v (js ''egressEvidenceDigest'') = JStr (ae_egress_digest x)"
      "get v (js ''checksNetwork'') = JStr (js ''none'')" "get v (js ''outputArtifactDigest'') = JStr (ae_output_digest x)"
      "get v (js ''candidateTreeSha'') = JStr (ae_tree_sha x)" "get v (js ''status'') = JStr (js ''passed'')"
      "get v (js ''evidenceReference'') = JStr (ae_reference x)" "get v (js ''evidenceDigest'') = JStr (ae_digest x)"
    unfolding validate_execution_attestation_def result_simps by auto
  show ?thesis unfolding attested_execution_value_def
    by (rule fields_same [OF f], simp add: execution_keys_def, simp, simp only: list.pred_inject prod.case m checks_same [OF checks] HOL.simp_thms)
qed

lemma teardown_same:
  assumes "validate_teardown_attestation v = Inr x"
  shows "canonical_json (attested_teardown_value x) = canonical_json v"
proof -
  from assms have f: "rn_fields v teardown_keys [] = Inr v"
    and m: "get v (js ''containersDestroyedAt'') = jint (td_containers_at x)" "get v (js ''networkNamespaceDestroyedAt'') = jint (td_network_at x)"
      "get v (js ''nftablesPolicyRemovedAt'') = jint (td_nftables_at x)" "get v (js ''workspaceDestroyedAt'') = jint (td_workspace_at x)"
      "get v (js ''complete'') = JBool True" "get v (js ''evidenceReference'') = JStr (td_reference x)" "get v (js ''evidenceDigest'') = JStr (td_digest x)"
    unfolding validate_teardown_attestation_def result_simps by auto
  show ?thesis unfolding attested_teardown_value_def
    by (rule fields_same [OF f], simp add: teardown_keys_def, simp, simp only: list.pred_inject prod.case m HOL.simp_thms)
qed

section \<open>The whole payload\<close>

lemma same_texts_True: "same_texts ps = Inr True \<longleftrightarrow> list_all (\<lambda>(v, w). same_json v w) ps"
  by (induction ps rule: same_texts.induct) (auto simp: result_simps same_json_def)

lemma alike_attestation:
  assumes "alike (attestation_value a) w"
  shows "rn_fields w attestation_keys l = Inr w" "get w (js ''schemaVersion'') = jint 1" "get w (js ''profile'') = JStr runner_profile"
    "get w (js ''planDigest'') = JStr (at_plan_digest a)" "get w (js ''jobId'') = JStr (at_job_id a)" "get w (js ''runnerInstanceDigest'') = JStr (at_instance_digest a)"
    "alike (subject_value (at_subject a)) (get w (js ''subject''))" "alike (inputs_value (at_inputs a)) (get w (js ''inputs''))"
    "alike (output_value (at_output a)) (get w (js ''output''))" "alike (attested_execution_value (at_execution a)) (get w (js ''execution''))"
    "alike (attested_teardown_value (at_teardown a)) (get w (js ''teardown''))" "get w (js ''observedAt'') = jint (at_observed_at a)"
  using rn_fields_alike [OF assms [unfolded attestation_value_def], of attestation_keys] alike_obj(3) [OF assms [unfolded attestation_value_def]]
  by (simp_all add: attestation_keys_def)

lemma attestation_again:
  assumes g: "good_attestation h plan out a" and w: "alike (attestation_value a) w"
  shows "validate_attestation_payload h plan out w = Inr a"
proof -
  note e = g [unfolded good_attestation_def timeline_good]
  have parts: "validate_subject (get w (js ''subject'')) = Inr (at_subject a)" "validate_inputs h (get w (js ''inputs'')) = Inr (at_inputs a)"
    "validate_runner_output (get w (js ''output'')) = Inr (at_output a)" "validate_execution_attestation plan out (get w (js ''execution'')) = Inr (at_execution a)"
    "validate_teardown_attestation (get w (js ''teardown'')) = Inr (at_teardown a)"
    using e alike_attestation [OF w] by (auto intro: subject_again inputs_again output_again execution_again teardown_again)
  have texts: "rn_digest (JStr (at_plan_digest a)) l = Inr (at_plan_digest a)" "rn_digest (JStr (at_instance_digest a)) l = Inr (at_instance_digest a)"
    "bounded_string (JStr (at_job_id a)) l 76 = Inr (at_job_id a)" "rn_timestamp (jint (at_observed_at a)) l = Inr (at_observed_at a)" for l
    using e unfolding result_simps good_time_def by blast+
  have same: "same_texts [(subject_value (at_subject a), subject_value (rp_subject (pr_plan plan))), (inputs_value (at_inputs a), inputs_value (rp_inputs (pr_plan plan))),
      (output_value (at_output a), output_value out)] = Inr True"
    unfolding same_texts_True using e prints_members(1) [OF good_subject_ok] prints_members(2) [OF good_inputs_ok] prints_members(3) [OF good_output_ok]
    by (auto simp: same_json_refl)
  have digest: "canonical_digest h (plan_value (pr_plan plan) (pr_policy_digest plan)) = Inr (at_plan_digest a)" using e by simp
  show ?thesis unfolding validate_attestation_payload_def alike_attestation(1-6,12) [OF w] bindR_simps parts texts same digest
    using e by (cases a) simp
qed

lemma attestation_good:
  assumes v: "validate_attestation_payload h plan out v = Inr a"
    and plan: "good_subject (rp_subject (pr_plan plan))" "good_inputs h (rp_inputs (pr_plan plan))" and out: "good_output out"
  shows "good_attestation h plan out a" "canonical_json (attestation_value a) = canonical_json v"
proof -
  from v have parts: "validate_subject (get v (js ''subject'')) = Inr (at_subject a)" "validate_inputs h (get v (js ''inputs'')) = Inr (at_inputs a)"
    "validate_runner_output (get v (js ''output'')) = Inr (at_output a)" "validate_execution_attestation plan out (get v (js ''execution'')) = Inr (at_execution a)"
    "validate_teardown_attestation (get v (js ''teardown'')) = Inr (at_teardown a)"
    and same: "same_texts [(subject_value (at_subject a), subject_value (rp_subject (pr_plan plan))), (inputs_value (at_inputs a), inputs_value (rp_inputs (pr_plan plan))),
      (output_value (at_output a), output_value out)] = Inr True"
    and rest: "is_digest (at_plan_digest a)" "canonical_digest h (plan_value (pr_plan plan) (pr_policy_digest plan)) = Inr (at_plan_digest a)"
      "at_job_id a = rp_job_id (pr_plan plan)" "bounded_text 76 (at_job_id a)" "is_digest (at_instance_digest a)" "good_time (at_observed_at a)"
      "timeline_ok (pr_plan plan) (at_execution a) (at_teardown a) (at_observed_at a)"
    and members: "get v (js ''schemaVersion'') = jint 1" "get v (js ''profile'') = JStr runner_profile" "get v (js ''planDigest'') = JStr (at_plan_digest a)"
      "get v (js ''jobId'') = JStr (at_job_id a)" "get v (js ''runnerInstanceDigest'') = JStr (at_instance_digest a)"
      "get v (js ''observedAt'') = jint (at_observed_at a)" "rn_fields v attestation_keys [] = Inr v"
    unfolding validate_attestation_payload_def result_simps by (cases a; auto simp: good_time_def)+
  note good = subject_good [OF parts(1)] inputs_good [OF parts(2)] output_good [OF parts(3)]
  have "at_subject a = rp_subject (pr_plan plan)" "at_inputs a = rp_inputs (pr_plan plan)" "at_output a = out"
    using same unfolding same_texts_True
    by (simp_all add: same_subject [OF good_subject_ok [OF good(1)] good_subject_ok [OF plan(1)]] same_inputs [OF good_inputs_ok [OF good(2)] good_inputs_ok [OF plan(2)]]
        same_output [OF good_output_ok [OF good(3)] good_output_ok [OF out]])
  then show "good_attestation h plan out a" unfolding good_attestation_def timeline_good using rest good execution_good [OF parts(4)] teardown_good [OF parts(5)] by simp
  show "canonical_json (attestation_value a) = canonical_json v" unfolding attestation_value_def
    by (rule fields_same [OF members(7)])
      (simp_all add: attestation_keys_def members subject_same [OF parts(1)] inputs_same [OF parts(2)] output_same [OF parts(3)] execution_same [OF parts(4)] teardown_same [OF parts(5)])
qed

end
