(* ===== verification/RunnerAttestationClaims.thy ===== *)
theory RunnerAttestationClaims
  imports RunnerAttestationFacts OwnerSample
begin

text \<open>
  The attestation of a run: what a verified one says, that a genuine one is accepted, and which capabilities the module ever honours.
\<close>

section \<open>The envelope and the key as values\<close>

definition runner_envelope_value :: "jsstr \<Rightarrow> byte list \<Rightarrow> byte list \<Rightarrow> jsval" where
  "runner_envelope_value key_id payload_bytes sig = obj [(js ''schemaVersion'', jint 1), (js ''keyId'', JStr key_id),
     (js ''payload'', JStr (b64_encode payload_bytes)), (js ''signature'', JStr (b64_encode sig))]"

definition trust_value :: "attestation_trust \<Rightarrow> jsval" where
  "trust_value t = obj [(js ''keyId'', JStr (tr_key_id t)), (js ''algorithm'', JStr (js ''Ed25519'')), (js ''publicKeyPem'', JStr (tr_public_key_pem t)),
     (js ''fingerprint'', JStr (tr_fingerprint t)), (js ''validFrom'', jint (tr_valid_from t)), (js ''validUntil'', jint (tr_valid_until t)),
     (js ''revokedAt'', optional_int (tr_revoked_at t))]"

section \<open>Encoded text\<close>

lemma canonical_base64url_eq [result_simps]: "canonical_base64url s l = Inr bs \<longleftrightarrow> s \<noteq> [] \<and> s = b64_encode bs"
proof -
  have "is_b64_text (b64_encode bs)" if "b64_encode bs \<noteq> []" for bs using that b64_encode_alphabet by (simp add: is_b64_text_def)
  then show ?thesis by (auto simp: canonical_base64url_def b64_decode_encode is_b64_text_def split: if_splits)
qed

lemma exact_utf8_eq [result_simps]: "exact_utf8 bs l = Inr t \<longleftrightarrow> t = utf8_decode bs \<and> utf8 t = bs"
  by (auto simp: exact_utf8_def)

lemma exact_utf8_source: "exact_utf8 bs l = Inr t \<Longrightarrow> bs = utf8 t"
  using exact_utf8_eq [of bs l t] by metis

lemma exact_utf8_text: "valid_unicode t \<Longrightarrow> exact_utf8 (utf8 t) l = Inr t"
  by (simp add: exact_utf8_def utf8_decode_encode)

lemma b64_bounded: "bs \<noteq> [] \<Longrightarrow> (4 * length bs + 2) div 3 \<le> n \<Longrightarrow> bounded_text n (b64_encode bs)"
proof -
  assume bs: "bs \<noteq> []" "(4 * length bs + 2) div 3 \<le> n"
  have "\<not> is_space c" if "b64_alphabet c" for c
    using that by (auto simp: b64_alphabet_def is_alnum_def is_digit_def is_lower_def is_upper_def is_space_def word_le_nat_alt)
  then have "trim (b64_encode bs) = b64_encode bs" using b64_encode_alphabet by (intro trim_no_space) (force simp: list_all_iff)
  moreover have "b64_encode bs \<noteq> []" using bs(1) by (cases bs rule: b64_encode.cases) auto
  ultimately show ?thesis using bs(2) by (simp add: bounded_text_def b64_byte_length valid_unicode_b64)
qed

lemma identifier_text: "rn_identifier v l = Inr s \<longleftrightarrow> v = JStr s \<and> bounded_text 128 s \<and> is_identifier s"
  by (auto simp: rn_identifier_def result_simps split: if_splits)

section \<open>What a verified attestation says\<close>

definition good_trust :: "'k crypto \<Rightarrow> attestation_trust \<Rightarrow> 'k \<Rightarrow> bool" where
  "good_trust cr t key \<longleftrightarrow> bounded_text 128 (tr_key_id t) \<and> is_identifier (tr_key_id t) \<and> tr_public_key_pem t \<noteq> [] \<and> valid_unicode (tr_public_key_pem t)
     \<and> byte_length (tr_public_key_pem t) \<le> 16 * 1024 \<and> cr_import cr (tr_public_key_pem t) = Some key \<and> cr_pem cr key = Some (tr_public_key_pem t)
     \<and> cr_type cr key = js ''ed25519'' \<and> is_digest (tr_fingerprint t) \<and> tr_fingerprint t = sha256 (cr_hash cr) (cr_der cr key)
     \<and> good_time (tr_valid_from t) \<and> good_time (tr_valid_until t) \<and> tr_valid_from t < tr_valid_until t
     \<and> (\<forall>n. tr_revoked_at t = Some n \<longrightarrow> good_time n)"

lemma import_key_eq [result_simps]:
  "import_attestation_key cr pem = Inr key \<longleftrightarrow> cr_import cr pem = Some key \<and> cr_pem cr key = Some pem \<and> cr_type cr key = js ''ed25519''"
  by (auto simp: import_attestation_key_def split: option.splits if_splits)

lemma multiline_eq [result_simps]: "bounded_multiline_string v l n = Inr s \<longleftrightarrow> v = JStr s \<and> s \<noteq> [] \<and> byte_length s \<le> n \<and> valid_unicode s"
  using canonical_str_ok by (auto simp: bounded_multiline_string_def is_ok_iff bindR_eq_Inr not_less split: jsval.splits if_splits)

lemma trust_good:
  assumes "validate_attestation_trust cr v = Inr (t, key)"
  shows "good_trust cr t key" "canonical_json (trust_value t) = canonical_json v"
proof -
  from assms have f: "rn_fields v trust_keys [] = Inr v" and k: "tr_revoked_at t = None \<longleftrightarrow> get v (js ''revokedAt'') = JNull"
    "\<And>n. tr_revoked_at t = Some n \<Longrightarrow> get v (js ''revokedAt'') = jint n \<and> good_time n"
    and m: "get v (js ''keyId'') = JStr (tr_key_id t)" "get v (js ''algorithm'') = JStr (js ''Ed25519'')" "get v (js ''publicKeyPem'') = JStr (tr_public_key_pem t)"
      "get v (js ''fingerprint'') = JStr (tr_fingerprint t)" "get v (js ''validFrom'') = jint (tr_valid_from t)" "get v (js ''validUntil'') = jint (tr_valid_until t)"
    and g: "good_trust cr t key"
    unfolding validate_attestation_trust_def result_simps identifier_text good_trust_def by (auto simp: result_simps good_time_def split: if_splits)
  show "good_trust cr t key" by (rule g)
  have revoked: "get v (js ''revokedAt'') = optional_int (tr_revoked_at t)" using k by (cases "tr_revoked_at t") (auto simp: optional_int_def)
  show "canonical_json (trust_value t) = canonical_json v" unfolding trust_value_def
    by (rule fields_same [OF f], simp add: trust_keys_def, simp, simp only: list.pred_inject prod.case m revoked HOL.simp_thms)
qed

text \<open>The facts that a capability stands for.\<close>

definition attested :: "'k crypto \<Rightarrow> runner_capability \<Rightarrow> bool" where
  "attested cr c \<longleftrightarrow> (\<exists>plan out trust key sig.
     good_plan (cr_hash cr) (pr_plan plan) \<and> record_for_plan (cr_hash cr) (pr_plan plan) = Inr plan \<and> good_output out \<and> good_trust cr trust key
     \<and> good_attestation (cr_hash cr) plan out (va_attestation (rc_value c))
     \<and> canonical_json (attestation_value (va_attestation (rc_value c))) = Inr (va_canonical_json (rc_value c))
     \<and> length sig = 64 \<and> cr_verify cr key (utf8 attestation_domain @ utf8 (va_canonical_json (rc_value c))) sig
     \<and> va_payload_digest (rc_value c) = sha256 (cr_hash cr) (utf8 (va_canonical_json (rc_value c)))
     \<and> va_signer (rc_value c) = (tr_key_id trust, tr_fingerprint trust) \<and> tr_revoked_at trust = None
     \<and> tr_valid_from trust \<le> at_observed_at (va_attestation (rc_value c)) \<and> at_observed_at (va_attestation (rc_value c)) \<le> rc_verified_at c
     \<and> rp_created_at (pr_plan plan) \<le> rc_verified_at c \<and> rc_verified_at c < rc_expires_at c
     \<and> rc_expires_at c = min (rp_expires_at (pr_plan plan)) (tr_valid_until trust))"

lemma plan_current_good:
  assumes "assert_plan_current h v now = Inr r"
  shows "good_plan h (pr_plan r) \<and> record_for_plan h (pr_plan r) = Inr r"
  using assms plan_sound by (fastforce simp: assert_plan_current_def validate_plan_record_def result_simps split: if_splits)

lemma check_attestation_sound:
  assumes "check_attestation cr env plan_v out_v trust_v now = Inr c"
  shows "attested cr c"
proof -
  from assms obtain at plan out e trust key payload sig t root a where raw: "rn_timestamp now ''runner attestation verification clock'' = Inr at"
    "assert_plan_current (cr_hash cr) plan_v (jint at) = Inr plan" "validate_runner_output out_v = Inr out"
    "validate_attestation_trust cr trust_v = Inr (trust, key)" "exact_utf8 payload ''runner attestation payload'' = Inr t"
    "parse_canonical_json (RawString t) (int max_attestation_payload_bytes) (js ''runner attestation payload'') = Inr root"
    "length sig = 64" "cr_verify cr key (utf8 attestation_domain @ payload) sig" "validate_attestation_payload (cr_hash cr) plan out root = Inr a"
    "tr_revoked_at trust = None" "tr_valid_from trust \<le> at_observed_at a" "at_observed_at a \<le> at" "at < tr_valid_until trust"
    and c: "c = \<lparr>rc_value = \<lparr>va_attestation = a, va_canonical_json = t, va_payload_digest = sha256 (cr_hash cr) payload,
         va_envelope_digest = sha256 (cr_hash cr) (utf8 env), va_signer = (tr_key_id trust, tr_fingerprint trust)\<rparr>,
       rc_verified_at = at, rc_expires_at = min (rp_expires_at (pr_plan plan)) (tr_valid_until trust)\<rparr>"
    unfolding check_attestation_def by (auto simp: bindR_eq_Inr thenR_eq_Inr not_less not_le split: prod.splits)
  note plan = plan_current_good [OF raw(2)]
  then have members: "good_subject (rp_subject (pr_plan plan))" "good_inputs (cr_hash cr) (rp_inputs (pr_plan plan))" by (simp_all add: good_plan_def)
  note a = attestation_good [OF raw(9) members output_good [OF raw(3)]]
  have payload: "payload = utf8 t" using raw(5) by (rule exact_utf8_source)
  have "canonical_json (attestation_value a) = Inr t" using a(2) parse_canonical_string_sound [OF raw(6)] by simp
  moreover have "rp_created_at (pr_plan plan) \<le> at" "at < rp_expires_at (pr_plan plan)" using raw(2) by (auto simp: assert_plan_current_def result_simps not_less not_le)
  ultimately show ?thesis unfolding attested_def c using plan a(1) raw trust_good(1) [OF raw(4)] output_good [OF raw(3)] payload
    by (intro exI [of _ plan] exI [of _ out] exI [of _ trust] exI [of _ key] exI [of _ sig]) simp
qed

section \<open>A genuine attestation is accepted\<close>

lemma alike_trust:
  assumes "alike (trust_value t) w"
  shows "rn_fields w trust_keys l = Inr w" "get w (js ''keyId'') = JStr (tr_key_id t)" "get w (js ''algorithm'') = JStr (js ''Ed25519'')"
    "get w (js ''publicKeyPem'') = JStr (tr_public_key_pem t)" "get w (js ''fingerprint'') = JStr (tr_fingerprint t)"
    "get w (js ''validFrom'') = jint (tr_valid_from t)" "get w (js ''validUntil'') = jint (tr_valid_until t)"
    "get w (js ''revokedAt'') = optional_int (tr_revoked_at t)"
  using rn_fields_alike [OF assms [unfolded trust_value_def], of trust_keys] alike_obj(3) [OF assms [unfolded trust_value_def]]
  by (auto simp: trust_keys_def optional_int_def split: option.splits)

lemma trust_again:
  assumes g: "good_trust cr t key" and w: "alike (trust_value t) w"
  shows "validate_attestation_trust cr w = Inr (t, key)"
proof -
  note e = g [unfolded good_trust_def]
  have parts: "rn_timestamp (jint (tr_valid_from t)) l = Inr (tr_valid_from t)" "rn_timestamp (jint (tr_valid_until t)) l = Inr (tr_valid_until t)"
    "bounded_multiline_string (JStr (tr_public_key_pem t)) l (16 * 1024) = Inr (tr_public_key_pem t)" "import_attestation_key cr (tr_public_key_pem t) = Inr key"
    "rn_digest (JStr (tr_fingerprint t)) l = Inr (tr_fingerprint t)" "rn_identifier (JStr (tr_key_id t)) l = Inr (tr_key_id t)" for l
    using e unfolding rn_time multiline_eq import_key_eq rn_digest_eq identifier_text by blast+
  have revoked: "(if optional_int (tr_revoked_at t) = JNull then Inr None else bindR (rn_timestamp (optional_int (tr_revoked_at t)) l) (\<lambda>n. Inr (Some n)))
      = Inr (tr_revoked_at t)" for l
    using e by (cases "tr_revoked_at t") (auto simp: optional_int_def rn_time bindR_eq_Inr)
  show ?thesis unfolding validate_attestation_trust_def alike_trust [OF w] bindR_simps parts revoked
    using e by (cases t) simp
qed

lemma envelope_again:
  assumes env: "canonical_json (runner_envelope_value key_id bs sig) = Inr env" "byte_length env \<le> max_attestation_envelope_bytes"
    and key: "bounded_text 128 key_id" "is_identifier key_id" and bs: "bs \<noteq> []" "length bs \<le> max_attestation_payload_bytes" and sig: "length sig = 64"
  shows "parse_attestation_envelope env = Inr \<lparr>en_key_id = key_id, en_payload = b64_encode bs, en_signature = b64_encode sig\<rparr>"
proof -
  have wf: "wf_jsval (runner_envelope_value key_id bs sig)" by (simp add: runner_envelope_value_def)
  have "limit_ok (int max_attestation_envelope_bytes)" by (simp add: limit_ok_def max_attestation_envelope_bytes_def max_safe_def)
  from parse_alike [OF wf env(1) this] env(2) obtain w where p: "\<And>l. parse_canonical_json (RawString env) (int max_attestation_envelope_bytes) l = Inr w"
    and w: "alike (runner_envelope_value key_id bs sig) w" by auto
  have f: "rn_fields w [''schemaVersion'', ''keyId'', ''payload'', ''signature''] l = Inr w" for l
    using rn_fields_alike [OF w [unfolded runner_envelope_value_def]] by simp
  have m: "get w (js ''schemaVersion'') = jint 1" "get w (js ''keyId'') = JStr key_id" "get w (js ''payload'') = JStr (b64_encode bs)"
    "get w (js ''signature'') = JStr (b64_encode sig)"
    using alike_obj(3) [OF w [unfolded runner_envelope_value_def]] by simp_all
  have texts: "bounded_text max_attestation_envelope_bytes (b64_encode bs)" "bounded_text 256 (b64_encode sig)"
    using bs sig by (auto intro!: b64_bounded simp: max_attestation_envelope_bytes_def max_attestation_payload_bytes_def)
  then have strings: "bounded_string (JStr (b64_encode bs)) l max_attestation_envelope_bytes = Inr (b64_encode bs)"
    "bounded_string (JStr (b64_encode sig)) l 256 = Inr (b64_encode sig)" "rn_identifier (JStr key_id) l = Inr key_id" for l
    using key by (simp_all add: bounded_string_eq identifier_text)
  show ?thesis unfolding parse_attestation_envelope_def p bindR_simps f m strings by simp
qed

lemma wf_attestation_value [simp]: "wf_jsval (attestation_value a)"
  by (simp add: attestation_value_def attested_execution_value_def attested_teardown_value_def checks_value_def check_value_def)

lemma check_attestation_complete:
  assumes plan: "good_plan (cr_hash cr) (pr_plan plan)" "record_for_plan (cr_hash cr) (pr_plan plan) = Inr plan"
    and out: "good_output out" and a: "good_attestation (cr_hash cr) plan out a"
    and printed: "canonical_json (attestation_value a) = Inr t" "byte_length t \<le> max_attestation_payload_bytes"
    and trust: "good_trust cr trust key" "tr_revoked_at trust = None"
    and sig: "length sig = 64" "cr_verify cr key (utf8 attestation_domain @ utf8 t) sig"
    and env: "canonical_json (runner_envelope_value (tr_key_id trust) (utf8 t) sig) = Inr env" "byte_length env \<le> max_attestation_envelope_bytes"
    and now: "tr_valid_from trust \<le> at_observed_at a" "at_observed_at a \<le> now" "now < rp_expires_at (pr_plan plan)" "now < tr_valid_until trust"
  shows "check_attestation cr env (plan_record_value plan) (output_value out) (trust_value trust) (jint now) =
    Inr \<lparr>rc_value = \<lparr>va_attestation = a, va_canonical_json = t, va_payload_digest = sha256 (cr_hash cr) (utf8 t),
         va_envelope_digest = sha256 (cr_hash cr) (utf8 env), va_signer = (tr_key_id trust, tr_fingerprint trust)\<rparr>,
       rc_verified_at = now, rc_expires_at = min (rp_expires_at (pr_plan plan)) (tr_valid_until trust)\<rparr>"
proof -
  have created: "rp_created_at (pr_plan plan) \<le> now" "0 < now" "now \<le> max_timestamp"
    using a now good_plan_times [OF plan(1)] by (auto simp: good_attestation_def good_timeline_def good_time_def)
  have clock: "rn_timestamp (jint now) l = Inr now" for l using created by (simp add: rn_timestamp_eq)
  have current: "assert_plan_current (cr_hash cr) (plan_record_value plan) (jint now) = Inr plan"
    unfolding assert_plan_current_def record_accepted [OF plan] clock bindR_simps using created now by simp
  have reviewed: "validate_runner_output (output_value out) = Inr out"
    by (rule output_again [OF out alike_refl]) (simp_all add: prints_members good_output_ok out)
  have wf_trust: "wf_jsval (trust_value trust)" by (simp add: trust_value_def optional_int_def split: option.split)
  have "valid_unicode (tr_key_id trust)" "valid_unicode (tr_fingerprint trust)" using trust(1) unfolding good_trust_def by (blast intro: bounded_unicode digest_unicode)+
  then have "is_ok (canonical_json (trust_value trust))" unfolding trust_value_def
    using trust by (intro canonical_obj_ok) (simp_all add: good_trust_def good_time_def max_timestamp_def max_safe_def optional_int_def)
  note trusted = trust_again [OF trust(1) alike_refl [OF wf_trust this]]
  have t: "valid_unicode t" "t \<noteq> []" using canonical_unicode [OF _ printed(1)] parse_canonical_parses [OF _ printed(1)] by auto
  then have payload: "utf8 t \<noteq> []" "length (utf8 t) \<le> max_attestation_payload_bytes" using printed(2) utf8_inject [of t "[]"] by (auto simp: byte_length_def)
  have envelope: "parse_attestation_envelope env = Inr \<lparr>en_key_id = tr_key_id trust, en_payload = b64_encode (utf8 t), en_signature = b64_encode sig\<rparr>"
    using trust(1) by (intro envelope_again [OF env] payload sig) (simp_all add: good_trust_def)
  have "limit_ok (int max_attestation_payload_bytes)" by (simp add: limit_ok_def max_attestation_payload_bytes_def max_safe_def)
  from parse_alike [OF _ printed(1) this] printed(2) obtain w where
    root: "\<And>l. parse_canonical_json (RawString t) (int max_attestation_payload_bytes) l = Inr w" and w: "alike (attestation_value a) w" by auto
  note facts = attestation_again [OF a w]
  have "sig \<noteq> []" using sig by auto
  then have decoded: "canonical_base64url (b64_encode (utf8 t)) l = Inr (utf8 t)" "canonical_base64url (b64_encode sig) l = Inr sig" for l
    using payload b64_bounded [of "utf8 t" "(4 * length (utf8 t) + 2) div 3"] b64_bounded [of sig "(4 * length sig + 2) div 3"]
    by (simp_all add: canonical_base64url_eq bounded_text_def)
  show ?thesis unfolding check_attestation_def clock current reviewed envelope trusted bindR_simps prod.case attestation_envelope.simps decoded exact_utf8_text [OF t(1)] root facts
    using payload sig trust(2) now created by simp
qed

section \<open>The capabilities of the module\<close>

text \<open>The module's map changes only when a verification succeeds.\<close>

inductive runner_step :: "'k crypto \<Rightarrow> runner_vault \<Rightarrow> runner_vault \<Rightarrow> bool" for cr where
  verify: "verify_runner_attestation cr env plan out trust now v = Inr (g, v') \<Longrightarrow> runner_step cr v v'"

inductive_cases runner_step_cases: "runner_step cr v v'"

definition runner_reachable :: "'k crypto \<Rightarrow> runner_vault \<Rightarrow> bool" where
  "runner_reachable cr v \<longleftrightarrow> (runner_step cr)\<^sup>*\<^sup>* no_capabilities v"

definition capabilities_ok :: "'k crypto \<Rightarrow> runner_vault \<Rightarrow> bool" where
  "capabilities_ok cr v \<longleftrightarrow> (\<forall>i c. rv_states v i = Some c \<longrightarrow> i < rv_next v \<and> attested cr c)"

lemma verify_result:
  "verify_runner_attestation cr env plan out trust now v = Inr (g, v') \<longleftrightarrow> (\<exists>c. check_attestation cr env plan out trust now = Inr c \<and> g = rv_next v
     \<and> v' = \<lparr>rv_next = Suc (rv_next v), rv_states = (rv_states v)(rv_next v := Some c)\<rparr>)"
  by (auto simp: verify_runner_attestation_def bindR_eq_Inr)

lemma runner_reachable_ok: "runner_reachable cr v \<Longrightarrow> capabilities_ok cr v"
  unfolding runner_reachable_def
proof (induction rule: rtranclp_induct)
  case base
  then show ?case by (simp add: capabilities_ok_def no_capabilities_def)
next
  case (step v v')
  from step.hyps(2) obtain env plan out trust now g where "verify_runner_attestation cr env plan out trust now v = Inr (g, v')" by (auto elim: runner_step_cases)
  then obtain c where c: "attested cr c" and v': "v' = \<lparr>rv_next = Suc (rv_next v), rv_states = (rv_states v)(rv_next v := Some c)\<rparr>"
    unfolding verify_result using check_attestation_sound by blast
  show ?case using step.IH c unfolding capabilities_ok_def v' by (auto simp: less_Suc_eq)
qed

lemma assert_verified_eq:
  "assert_verified_attestation v g now = Inr x \<longleftrightarrow> (\<exists>i c n. g = Some i \<and> rv_states v i = Some c \<and> now = jint n \<and> good_time n
     \<and> rc_verified_at c \<le> n \<and> n < rc_expires_at c \<and> x = rc_value c)"
  by (cases g) (auto simp: assert_verified_attestation_def rn_time bindR_eq_Inr thenR_eq_Inr not_less not_le split: option.splits)

section \<open>A sample attestation\<close>

definition sample_output :: runner_output where
  "sample_output = \<lparr>ro_preflight_id = js ''pf_'' @ replicate 64 97, ro_artifact_digest = js ''sha256:'' @ replicate 64 98, ro_candidate_tree_sha = replicate 40 99\<rparr>"

definition sample_check :: check_evidence where
  "sample_check = \<lparr>ce_reference = js ''evidence/1'', ce_digest = js ''sha256:'' @ replicate 64 97\<rparr>"

definition sample_attestation :: "plan_record \<Rightarrow> attestation" where
  "sample_attestation r = \<lparr>at_plan_digest = pr_digest r, at_job_id = rp_job_id (pr_plan r), at_instance_digest = js ''sha256:'' @ replicate 64 97,
     at_subject = rp_subject (pr_plan r), at_inputs = rp_inputs (pr_plan r), at_output = sample_output,
     at_execution = \<lparr>ae_identity = execution_identity (pr_plan r), ae_image_digest = rp_image_digest (pr_plan r),
       ae_instance_digest = js ''sha256:'' @ replicate 64 97, ae_started_at = 3000, ae_finished_at = 4000, ae_policy_digest = pr_policy_digest r,
       ae_egress_reference = js ''evidence/2'', ae_egress_digest = js ''sha256:'' @ replicate 64 97,
       ae_checks = \<lparr>ck_install = sample_check, ck_typecheck = sample_check, ck_test = sample_check, ck_lint = sample_check, ck_runtime = sample_check\<rparr>,
       ae_output_digest = ro_artifact_digest sample_output, ae_tree_sha = ro_candidate_tree_sha sample_output, ae_reference = js ''evidence/3'',
       ae_digest = js ''sha256:'' @ replicate 64 97\<rparr>,
     at_teardown = \<lparr>td_containers_at = 4100, td_network_at = 4200, td_nftables_at = 4300, td_workspace_at = 4400, td_reference = js ''evidence/4'',
       td_digest = js ''sha256:'' @ replicate 64 97\<rparr>,
     at_observed_at = 5000\<rparr>"

definition sample_trust :: attestation_trust where
  "sample_trust = \<lparr>tr_key_id = js ''runner-1'', tr_public_key_pem = js ''pem'', tr_fingerprint = sha256 sample_hash (utf8 (js ''pem'')),
     tr_valid_from = 1000, tr_valid_until = 700000, tr_revoked_at = None\<rparr>"

lemma sample_output_good: "good_output sample_output"
proof -
  have "bounded_text 67 (ro_preflight_id sample_output)" "bounded_text 64 (ro_candidate_tree_sha sample_output)" "is_preflight_id (ro_preflight_id sample_output)"
    "is_git_sha (ro_candidate_tree_sha sample_output)"
    by code_simp+
  then show ?thesis by (simp add: good_output_def) (simp add: sample_output_def digest_replicate hex_literals)
qed

lemma sample_references: "good_reference (js ''evidence/1'')" "good_reference (js ''evidence/2'')" "good_reference (js ''evidence/3'')" "good_reference (js ''evidence/4'')"
proof -
  have "bounded_text 500 (js ''evidence/1'')" "bounded_text 500 (js ''evidence/2'')" "bounded_text 500 (js ''evidence/3'')" "bounded_text 500 (js ''evidence/4'')"
    "6 \<le> byte_length (js ''evidence/1'')" "6 \<le> byte_length (js ''evidence/2'')" "6 \<le> byte_length (js ''evidence/3'')" "6 \<le> byte_length (js ''evidence/4'')"
    "list_all (\<lambda>c. \<not> is_control c) (js ''evidence/1'')" "list_all (\<lambda>c. \<not> is_control c) (js ''evidence/2'')"
    "list_all (\<lambda>c. \<not> is_control c) (js ''evidence/3'')" "list_all (\<lambda>c. \<not> is_control c) (js ''evidence/4'')"
    by code_simp+
  then show "good_reference (js ''evidence/1'')" "good_reference (js ''evidence/2'')" "good_reference (js ''evidence/3'')" "good_reference (js ''evidence/4'')"
    by (simp_all add: good_reference_def)
qed

lemma sample_attestation_good:
  assumes r: "good_plan sample_hash (pr_plan r)" "record_for_plan sample_hash (pr_plan r) = Inr r" "rp_created_at (pr_plan r) = 2000" "rp_expires_at (pr_plan r) = 602000"
  shows "good_attestation sample_hash r sample_output (sample_attestation r)"
proof -
  have d: "is_digest (js ''sha256:'' @ replicate 64 97)" by (simp add: digest_replicate hex_literals)
  have digest: "canonical_digest sample_hash (plan_value (pr_plan r) (pr_policy_digest r)) = Inr (pr_digest r)" "is_digest (pr_digest r)"
    using r(2) by (simp_all add: record_for_plan_eq canonical_digest_def sha256_is_digest hash32_sample)
  have checks: "good_checks \<lparr>ck_install = sample_check, ck_typecheck = sample_check, ck_test = sample_check, ck_lint = sample_check, ck_runtime = sample_check\<rparr>"
    using d by (simp add: good_checks_def good_check_def sample_check_def sample_references)
  have plan: "bounded_text 76 (rp_job_id (pr_plan r))" "good_subject (rp_subject (pr_plan r))" "good_inputs sample_hash (rp_inputs (pr_plan r))"
    using r(1) by (simp_all add: good_plan_def job_id_text)
  have execution: "good_execution r sample_output (at_execution (sample_attestation r))"
    using d checks by (simp add: good_execution_def sample_attestation_def sample_references good_time_def max_timestamp_def)
  have teardown: "good_teardown (at_teardown (sample_attestation r))"
    using d by (simp add: good_teardown_def sample_attestation_def sample_references good_time_def max_timestamp_def)
  have timeline: "timeline_ok (pr_plan r) (at_execution (sample_attestation r)) (at_teardown (sample_attestation r)) 5000"
    using r(3,4) by (simp add: timeline_ok_def sample_attestation_def)
  show ?thesis unfolding good_attestation_def timeline_good using digest plan execution teardown timeline sample_output_good d
    by (simp add: sample_attestation_def good_time_def max_timestamp_def)
qed

lemma sample_trust_good: "good_trust sample_crypto sample_trust (js ''pem'')"
proof -
  have "bounded_text 128 (js ''runner-1'')" "is_identifier (js ''runner-1'')" "byte_length (js ''pem'') = 3" by code_simp+
  then show ?thesis by (simp add: good_trust_def sample_trust_def sample_crypto_def sha256_is_digest hash32_sample good_time_def max_timestamp_def)
qed

lemma digest_width: "is_digest s \<Longrightarrow> quote_width s \<le> 426"
  using quote_width_le [of s] by (auto simp: is_digest_def starts_with_def hex_n_def)

lemma job_id_width: "is_runner_job_id s \<Longrightarrow> quote_width s \<le> 450"
  using quote_width_le [of s] by (auto simp: is_runner_job_id_def starts_with_def hex_n_def)

lemma identity_width: "is_runner_job_id (rp_job_id p) \<Longrightarrow> quote_width (execution_identity p) \<le> 510"
  using quote_width_le [of "execution_identity p"] by (auto simp: execution_identity_def is_runner_job_id_def starts_with_def hex_n_def)

lemma sample_attestation_size:
  assumes r: "good_plan sample_hash (pr_plan r)" "rp_subject (pr_plan r) = sample_subject" "is_digest (pr_digest r)" "is_digest (pr_policy_digest r)"
  shows "text_bound (attestation_value (sample_attestation r)) \<le> 20000"
proof -
  let ?i = "rp_inputs (pr_plan r)"
  have d: "quote_width (js ''sha256:'' @ replicate 64 97) \<le> 426" "quote_width (js ''sha256:'' @ replicate 64 98) \<le> 426"
    by (rule digest_width, simp add: digest_replicate hex_literals)+
  have inputs: "is_digest (ri_source_archive_digest ?i)" "is_digest (ri_manifest_digest ?i)" "is_digest (ri_command_scope_digest ?i)"
    using r(1) by (simp_all add: good_plan_def good_inputs_def)
  have image: "is_digest (rp_image_digest (pr_plan r))" and job: "is_runner_job_id (rp_job_id (pr_plan r))" using r(1) by (simp_all add: good_plan_def)
  have shas: "quote_width (replicate 40 97) \<le> 240" "quote_width (replicate 40 99) \<le> 240" "quote_width (js ''pf_'' @ replicate 64 97) \<le> 402"
    using quote_width_le [of "replicate 40 97"] quote_width_le [of "replicate 40 99"] quote_width_le [of "js ''pf_'' @ replicate 64 97"] by simp_all
  have names: "quote_width (js ''evidence/1'') = 10" "quote_width (js ''evidence/2'') = 10" "quote_width (js ''evidence/3'') = 10" "quote_width (js ''evidence/4'') = 10"
    "quote_width (js ''pilot_sample'') = 12" "quote_width (js ''acme/app'') = 8" "quote_width (js ''main'') = 4"
    by (simp_all add: quote_width_js plain_text)
  show ?thesis
    unfolding attestation_value_def text_bound_obj
    using d shas digest_width [OF r(3)] digest_width [OF r(4)] digest_width [OF image] job_id_width [OF job] identity_width [OF job]
      digest_width [OF inputs(1)] digest_width [OF inputs(2)] digest_width [OF inputs(3)]
    by (simp add: sample_attestation_def subject_value_def inputs_value_def output_value_def attested_execution_value_def attested_teardown_value_def
        checks_value_def check_value_def repository_value_def base_value_def r(2) sample_subject_def sample_output_def sample_check_def names
        runner_profile_def quote_width_js plain_text int_text_def nat_text.simps)
qed

lemma reference_unicode: "good_reference s \<Longrightarrow> valid_unicode s"
  by (auto simp: good_reference_def intro: bounded_unicode)

lemma time_safe: "good_time n \<Longrightarrow> \<bar>n\<bar> \<le> max_safe"
  by (simp add: good_time_def max_timestamp_def max_safe_def)

lemma check_prints: "good_check c \<Longrightarrow> is_ok (canonical_json (check_value c))"
  unfolding check_value_def by (intro canonical_obj_ok) (simp_all add: good_check_def reference_unicode digest_unicode)

lemma attestation_prints:
  assumes p: "good_plan h (pr_plan plan)" "valid_unicode (pr_policy_digest plan)" and a: "good_attestation h plan out a"
  shows "is_ok (canonical_json (attestation_value a))"
proof -
  note e = a [unfolded good_attestation_def timeline_good]
  from e have x: "good_execution plan out (at_execution a)" and t: "good_teardown (at_teardown a)" by simp_all
  have checks: "is_ok (canonical_json (checks_value (ae_checks (at_execution a))))"
    unfolding checks_value_def using x by (intro canonical_obj_ok) (simp_all add: good_execution_def good_checks_def check_prints)
  have out: "valid_unicode (ro_artifact_digest out)" "valid_unicode (ro_candidate_tree_sha out)" using e good_output_ok by (auto simp: ok_output_def)
  have "ok_plan (pr_plan plan)" by (rule good_plan_ok [OF p(1)])
  then have ids: "valid_unicode (execution_identity (pr_plan plan))" "valid_unicode (rp_image_digest (pr_plan plan))"
    by (simp_all add: execution_identity_def valid_unicode_append ok_plan_def)
  have execution: "is_ok (canonical_json (attested_execution_value (at_execution a)))"
    unfolding attested_execution_value_def using x checks ids out p(2)
    by (intro canonical_obj_ok) (simp_all add: good_execution_def reference_unicode digest_unicode time_safe)
  have teardown: "is_ok (canonical_json (attested_teardown_value (at_teardown a)))"
    unfolding attested_teardown_value_def using t by (intro canonical_obj_ok) (simp_all add: good_teardown_def reference_unicode digest_unicode time_safe)
  have job: "valid_unicode (at_job_id a)" using e by (blast intro: bounded_unicode)
  have members: "is_ok (canonical_json (subject_value (at_subject a)))" "is_ok (canonical_json (inputs_value (at_inputs a)))"
    "is_ok (canonical_json (output_value (at_output a)))"
    using e by (blast intro: prints_members good_subject_ok good_inputs_ok good_output_ok)+
  have "1 \<le> max_safe" by (simp add: max_safe_def)
  then show ?thesis unfolding attestation_value_def using e execution teardown job members
    by (intro canonical_obj_ok) (simp_all add: digest_unicode time_safe runner_profile_def)
qed

lemma sample_record: "\<exists>r. good_plan sample_hash (pr_plan r) \<and> record_for_plan sample_hash (pr_plan r) = Inr r \<and> rp_created_at (pr_plan r) = 2000
    \<and> rp_expires_at (pr_plan r) = 602000 \<and> rp_subject (pr_plan r) = sample_subject \<and> is_digest (pr_digest r) \<and> is_digest (pr_policy_digest r)"
proof -
  obtain r where r: "create_plan sample_hash 2000 [1, 2, 3] sample_plan_input = Inr r" "rp_created_at (pr_plan r) = 2000" "rp_expires_at (pr_plan r) = 602000"
    "rp_subject (pr_plan r) = sample_subject" using sample_plan_created by blast
  note good = created_plan [OF hash32_sample r(1)]
  then have "is_digest (pr_digest r)" "is_digest (pr_policy_digest r)"
    using sha256_is_digest [OF hash32_sample] by (auto simp: record_for_plan_eq egress_policy_digest_def canonical_digest_def result_simps) metis
  with good r show ?thesis by blast
qed

text \<open>The sample is signed with the key of the sample crypto, whose signatures are the first bytes of the message.\<close>

lemma sample_signed:
  "\<exists>r t sig env. good_plan sample_hash (pr_plan r) \<and> record_for_plan sample_hash (pr_plan r) = Inr r \<and> rp_expires_at (pr_plan r) = 602000
    \<and> good_attestation sample_hash r sample_output (sample_attestation r)
    \<and> canonical_json (attestation_value (sample_attestation r)) = Inr t \<and> byte_length t \<le> max_attestation_payload_bytes
    \<and> length sig = 64 \<and> cr_verify sample_crypto (js ''pem'') (utf8 attestation_domain @ utf8 t) sig
    \<and> canonical_json (runner_envelope_value (js ''runner-1'') (utf8 t) sig) = Inr env \<and> byte_length env \<le> max_attestation_envelope_bytes"
proof -
  obtain r where r: "good_plan sample_hash (pr_plan r)" "record_for_plan sample_hash (pr_plan r) = Inr r" "rp_created_at (pr_plan r) = 2000"
    "rp_expires_at (pr_plan r) = 602000" "rp_subject (pr_plan r) = sample_subject" "is_digest (pr_digest r)" "is_digest (pr_policy_digest r)" using sample_record by blast
  note good = sample_attestation_good [OF r(1-4)]
  obtain t where t: "canonical_json (attestation_value (sample_attestation r)) = Inr t"
    using attestation_prints [OF r(1) digest_unicode [OF r(7)] good] by (auto simp: is_ok_iff)
  have n: "byte_length t \<le> 60000" using canonical_byte_bound [OF t wf_attestation_value] sample_attestation_size [OF r(1,5,6,7)] by simp
  obtain sig where sig: "length sig = 64" "cr_verify sample_crypto (js ''pem'') (utf8 attestation_domain @ utf8 t) sig"
    by (rule that [of "take 64 (utf8 attestation_domain @ utf8 t @ replicate 64 0)"]) (simp_all add: sample_crypto_def)
  let ?env = "runner_envelope_value (js ''runner-1'') (utf8 t) sig"
  have "1 \<le> max_safe" by (simp add: max_safe_def)
  then have "is_ok (canonical_json ?env)" unfolding runner_envelope_value_def by (intro canonical_obj_ok) (simp_all add: valid_unicode_b64)
  then obtain env where env: "canonical_json ?env = Inr env" by (auto simp: is_ok_iff)
  have "byte_length env \<le> text_bound ?env"
    by (rule canonical_plain_bound [OF env]) (simp_all add: runner_envelope_value_def b64_plain plain_text)
  also have "\<dots> \<le> max_attestation_envelope_bytes" using n
    by (simp add: runner_envelope_value_def b64_width sig(1) quote_width_js plain_text int_text_def nat_text.simps max_attestation_envelope_bytes_def byte_length_def)
  finally have size: "byte_length env \<le> max_attestation_envelope_bytes" .
  have "byte_length t \<le> max_attestation_payload_bytes" using n by (simp add: max_attestation_payload_bytes_def)
  then show ?thesis using r good t env size sig by blast
qed

lemma sample_run_times: "tr_valid_from sample_trust \<le> at_observed_at (sample_attestation r)" "at_observed_at (sample_attestation r) \<le> 6000"
  "6000 < tr_valid_until sample_trust" "tr_revoked_at sample_trust = None" "tr_key_id sample_trust = js ''runner-1''" "tr_valid_until sample_trust = 700000"
  by (simp_all add: sample_trust_def sample_attestation_def)

lemma sample_crypto_hash [simp]: "cr_hash sample_crypto = sample_hash"
  by (simp add: sample_crypto_def)

lemma sample_attested:
  "\<exists>v g x. runner_reachable sample_crypto v \<and> assert_verified_attestation v g (jint 7000) = Inr x"
proof -
  obtain r t sig env where s: "good_plan sample_hash (pr_plan r)" "record_for_plan sample_hash (pr_plan r) = Inr r" "rp_expires_at (pr_plan r) = 602000"
    "good_attestation sample_hash r sample_output (sample_attestation r)" "canonical_json (attestation_value (sample_attestation r)) = Inr t"
    "byte_length t \<le> max_attestation_payload_bytes" "length sig = 64" "cr_verify sample_crypto (js ''pem'') (utf8 attestation_domain @ utf8 t) sig"
    "canonical_json (runner_envelope_value (js ''runner-1'') (utf8 t) sig) = Inr env" "byte_length env \<le> max_attestation_envelope_bytes"
    using sample_signed by blast
  have "6000 < rp_expires_at (pr_plan r)" using s(3) by simp
  note c = check_attestation_complete [of sample_crypto r sample_output "sample_attestation r" t sample_trust "js ''pem''" sig env 6000, unfolded sample_crypto_hash sample_run_times(5),
      OF s(1,2) sample_output_good s(4-6) sample_trust_good sample_run_times(4) s(7-10) sample_run_times(1,2) this sample_run_times(3)]
  then obtain g v where v: "verify_runner_attestation sample_crypto env (plan_record_value r) (output_value sample_output) (trust_value sample_trust) (jint 6000) no_capabilities = Inr (g, v)"
    by (auto simp: verify_runner_attestation_def)
  have "runner_reachable sample_crypto v" unfolding runner_reachable_def using runner_step.verify [OF v] by (rule r_into_rtranclp)
  moreover have "\<exists>x. assert_verified_attestation v (Some g) (jint 7000) = Inr x"
    using v c by (auto simp: verify_result assert_verified_eq s(3) sample_run_times good_time_def max_timestamp_def)
  ultimately show ?thesis by blast
qed

section \<open>Properties\<close>

text \<open>C36: a value is accepted as the attestation of a plan and a reviewed output exactly when it prints as an attestation whose every member is
  good for them: the plan's digest, job, subject, inputs, image and egress policy, the reviewed output, five passed checks, and a teardown
  that follows the execution inside the lifetime of the plan.\<close>

theorem attestation_exact:
  assumes "wf_jsval v" "good_plan h (pr_plan plan)" "good_output out"
  shows "validate_attestation_payload h plan out v = Inr a \<longleftrightarrow> good_attestation h plan out a \<and> same_json (attestation_value a) v"
proof
  assume v: "validate_attestation_payload h plan out v = Inr a"
  have members: "good_subject (rp_subject (pr_plan plan))" "good_inputs h (rp_inputs (pr_plan plan))" using assms(2) by (simp_all add: good_plan_def)
  have "is_ok (canonical_json v)" using v by (auto simp: validate_attestation_payload_def result_simps)
  with attestation_good [OF v members assms(3)] show "good_attestation h plan out a \<and> same_json (attestation_value a) v"
    by (auto simp: same_json_def is_ok_iff)
next
  assume "good_attestation h plan out a \<and> same_json (attestation_value a) v"
  with assms(1) show "validate_attestation_payload h plan out v = Inr a" by (intro attestation_again) (simp_all add: alike_def)
qed

lemma attestation_exact_witness:
  "\<exists>r. good_plan sample_hash (pr_plan r)
    \<and> validate_attestation_payload sample_hash r sample_output (attestation_value (sample_attestation r)) = Inr (sample_attestation r)"
proof -
  obtain r where r: "good_plan sample_hash (pr_plan r)" "record_for_plan sample_hash (pr_plan r) = Inr r" "rp_created_at (pr_plan r) = 2000"
    "rp_expires_at (pr_plan r) = 602000" "is_digest (pr_policy_digest r)" using sample_record by blast
  note good = sample_attestation_good [OF r(1-4)]
  have "same_json (attestation_value (sample_attestation r)) (attestation_value (sample_attestation r))"
    unfolding same_json_refl by (rule attestation_prints [OF r(1) digest_unicode [OF r(5)] good])
  with attestation_exact [OF wf_attestation_value r(1) sample_output_good] good r(1) show ?thesis by blast
qed

text \<open>C37: whatever the module ever accepts as a verified attestation was signed, over exactly its canonical text, by an imported Ed25519 key
  that was pinned, not revoked and valid; it is a good attestation of a plan and a reviewed output, and it is honoured only while both
  the plan and the key are.\<close>

theorem verified_attestation_genuine:
  assumes "runner_reachable cr v" "assert_verified_attestation v g now = Inr x"
  shows "\<exists>plan out trust key sig n. now = jint n \<and> good_plan (cr_hash cr) (pr_plan plan) \<and> good_output out
    \<and> good_attestation (cr_hash cr) plan out (va_attestation x) \<and> canonical_json (attestation_value (va_attestation x)) = Inr (va_canonical_json x)
    \<and> good_trust cr trust key \<and> tr_revoked_at trust = None \<and> va_signer x = (tr_key_id trust, tr_fingerprint trust)
    \<and> length sig = 64 \<and> cr_verify cr key (utf8 attestation_domain @ utf8 (va_canonical_json x)) sig
    \<and> va_payload_digest x = sha256 (cr_hash cr) (utf8 (va_canonical_json x))
    \<and> rp_created_at (pr_plan plan) \<le> n \<and> n < rp_expires_at (pr_plan plan) \<and> tr_valid_from trust \<le> n \<and> n < tr_valid_until trust
    \<and> at_observed_at (va_attestation x) \<le> n"
proof -
  from assms(2) obtain i c n where c: "rv_states v i = Some c" "now = jint n" "rc_verified_at c \<le> n" "n < rc_expires_at c" "x = rc_value c"
    unfolding assert_verified_eq by blast
  have "attested cr c" using runner_reachable_ok [OF assms(1)] c(1) by (simp add: capabilities_ok_def)
  then show ?thesis using c(2-5) unfolding attested_def by (elim exE conjE, intro exI conjI) (assumption | simp)+
qed

lemma verified_attestation_genuine_witness:
  "\<exists>v g x plan out. runner_reachable sample_crypto v \<and> assert_verified_attestation v g (jint 7000) = Inr x
    \<and> good_attestation sample_hash plan out (va_attestation x) \<and> rp_created_at (pr_plan plan) \<le> 7000 \<and> 7000 < rp_expires_at (pr_plan plan)"
proof -
  obtain v g x where v: "runner_reachable sample_crypto v" "assert_verified_attestation v g (jint 7000) = Inr x" using sample_attested by blast
  from verified_attestation_genuine [OF v] obtain plan out n where n: "jint 7000 = jint n" "good_attestation sample_hash plan out (va_attestation x)"
    "rp_created_at (pr_plan plan) \<le> n" "n < rp_expires_at (pr_plan plan)" unfolding sample_crypto_hash by blast
  have "n = 7000" using n(1) by simp
  with n v show ?thesis by blast
qed

text \<open>C38: a good attestation of a good plan and output, signed by the pinned key, is accepted, and its capability is honoured from then on until
  the plan or the key expires.\<close>

theorem signed_attestation_accepted:
  assumes plan: "good_plan (cr_hash cr) (pr_plan plan)" "record_for_plan (cr_hash cr) (pr_plan plan) = Inr plan"
    and out: "good_output out" and a: "good_attestation (cr_hash cr) plan out a"
    and printed: "canonical_json (attestation_value a) = Inr t" "byte_length t \<le> max_attestation_payload_bytes"
    and trust: "good_trust cr trust key" "tr_revoked_at trust = None"
    and sig: "length sig = 64" "cr_verify cr key (utf8 attestation_domain @ utf8 t) sig"
    and env: "canonical_json (runner_envelope_value (tr_key_id trust) (utf8 t) sig) = Inr env" "byte_length env \<le> max_attestation_envelope_bytes"
    and now: "tr_valid_from trust \<le> at_observed_at a" "at_observed_at a \<le> now" "now < rp_expires_at (pr_plan plan)" "now < tr_valid_until trust"
  shows "\<exists>g v' x. verify_runner_attestation cr env (plan_record_value plan) (output_value out) (trust_value trust) (jint now) v = Inr (g, v')
    \<and> va_attestation x = a \<and> va_canonical_json x = t
    \<and> (\<forall>n. assert_verified_attestation v' (Some g) (jint n) =
        (if n \<le> 0 \<or> max_timestamp < n then throw ''runner attestation capability clock is invalid''
         else if n < now \<or> rp_expires_at (pr_plan plan) \<le> n \<or> tr_valid_until trust \<le> n
         then throw ''Verified runner attestation capability is expired or not current'' else Inr x))"
proof -
  have "max_timestamp \<le> max_safe" by (simp add: max_timestamp_def max_safe_def)
  then have time: "rn_timestamp (jint n) l = (if n \<le> 0 \<or> max_timestamp < n then throw (l @ '' is invalid'') else Inr n)" for n l by (auto simp: rn_timestamp_def)
  let ?x = "\<lparr>va_attestation = a, va_canonical_json = t, va_payload_digest = sha256 (cr_hash cr) (utf8 t),
     va_envelope_digest = sha256 (cr_hash cr) (utf8 env), va_signer = (tr_key_id trust, tr_fingerprint trust)\<rparr>"
  show ?thesis unfolding verify_runner_attestation_def check_attestation_complete [OF assms] bindR_simps
    by (rule exI, rule exI, rule exI [of _ ?x]) (auto simp: assert_verified_attestation_def time min_le_iff_disj)
qed

lemma signed_attestation_accepted_witness:
  "\<exists>r env g v' x. verify_runner_attestation sample_crypto env (plan_record_value r) (output_value sample_output) (trust_value sample_trust) (jint 6000) no_capabilities
      = Inr (g, v') \<and> assert_verified_attestation v' (Some g) (jint 601999) = Inr x
    \<and> assert_verified_attestation v' (Some g) (jint 602000) = throw ''Verified runner attestation capability is expired or not current''"
proof -
  obtain r t sig env where s: "good_plan sample_hash (pr_plan r)" "record_for_plan sample_hash (pr_plan r) = Inr r" "rp_expires_at (pr_plan r) = 602000"
    "good_attestation sample_hash r sample_output (sample_attestation r)" "canonical_json (attestation_value (sample_attestation r)) = Inr t"
    "byte_length t \<le> max_attestation_payload_bytes" "length sig = 64" "cr_verify sample_crypto (js ''pem'') (utf8 attestation_domain @ utf8 t) sig"
    "canonical_json (runner_envelope_value (js ''runner-1'') (utf8 t) sig) = Inr env" "byte_length env \<le> max_attestation_envelope_bytes"
    using sample_signed by blast
  have "6000 < rp_expires_at (pr_plan r)" using s(3) by simp
  from signed_attestation_accepted [of sample_crypto r sample_output "sample_attestation r" t sample_trust "js ''pem''" sig env 6000 no_capabilities, unfolded sample_crypto_hash sample_run_times(5),
      OF s(1,2) sample_output_good s(4-6) sample_trust_good sample_run_times(4) s(7-10) sample_run_times(1,2) this sample_run_times(3)]
  obtain g v' x where v: "verify_runner_attestation sample_crypto env (plan_record_value r) (output_value sample_output) (trust_value sample_trust) (jint 6000) no_capabilities = Inr (g, v')"
    and n: "\<And>n. assert_verified_attestation v' (Some g) (jint n) = (if n \<le> 0 \<or> max_timestamp < n then throw ''runner attestation capability clock is invalid''
         else if n < 6000 \<or> rp_expires_at (pr_plan r) \<le> n \<or> tr_valid_until sample_trust \<le> n
         then throw ''Verified runner attestation capability is expired or not current'' else Inr x)" by blast
  have "assert_verified_attestation v' (Some g) (jint 601999) = Inr x"
    "assert_verified_attestation v' (Some g) (jint 602000) = throw ''Verified runner attestation capability is expired or not current''"
    unfolding n by (simp_all add: s(3) sample_run_times max_timestamp_def)
  with v show ?thesis by blast
qed

end
