(* ===== verification/Spec2Isabelle.thy ===== *)
theory Spec2Isabelle
  imports OwnerLifecycle ReplayClaims CampaignClaims BrokerClaims TokenSystem Queue ArtifactClaims JobStoreClaims GitTreeClaims SourceBundleClaims RunnerAttestationClaims
begin

text \<open>
  api-migrator: the authority and publication core of an automated API-migration service.

  The service clones a repository, rewrites its use of a third-party API, verifies the result and,
  when the repository's owner has signed an authorization for exactly that result, publishes it as
  a branch and a pull request. The development models the TypeScript code that decides whether
  something may be published and with which credential: the packages app and db.

  Foundations.
    Prelude holds JavaScript strings as lists of UTF-16 code units, errors as the left side of a sum,
    and the list lemmas the theories share. JsText writes out the operations on text the code uses
    (trim, split, the regular expressions as predicates), JsValue the values of the language with
    property descriptors, Codec UTF-8 and base64url, Digest the textual form of SHA-256 digests.
    SHA-256, Ed25519, localeCompare and the clock are parameters everywhere; what is assumed of them
    (a fixed length of a hash, for example) is a premise of the theorem that needs it.

  canonical-json.ts.
    CanonicalJson models canonicalJson, parseCanonicalJson and decodeInput with the limits on depth and
    size; CanonicalContract states the abstract JSON value a JavaScript value denotes and interprets the
    locale of the round trip; CanonicalSize bounds the printed text. Printing and parsing are inverse,
    printing is injective on denotations, and an input is accepted exactly when it is the printed text of a tree.

  repository-validation.ts and repository.ts.
    Repository models the validation of slugs and branches, the arguments of git clone and the
    content-addressed names of migration branches.

  owner-authorization.ts.
    OwnerPayload: the validators of the signed payload and of the expected bindings. OwnerWire: payloads
    survive the wire format. OwnerRegistry: the key registry, its file checks and the key selection.
    OwnerGrant: the verification of an envelope and the operations on the WeakMap of grants, here a list
    of grant states. Evolution states once, as a locale over the reachability of a system, how an invariant
    and a persistent fact carry along a run; OwnerLifecycle interprets it on the vault: grants are genuine in
    every reachable state, and a consumed grant stays spent. OwnerSample runs everything on a concrete envelope.

  packages/db: client.ts, schema.ts and repo.ts.
    SqliteSchema: the tables, triggers and versions, migrate and resetDb as transactions over an explicit
    database, which keeps the statement that created each table. ReplayStore: the connection of getDb with its
    pragmas, the consumption ledger, the identity row, the external anchor file and the activation ceremony.
    ReplayLedger, ReplayAnchor and ReplayGuarantees hold their lemmas, ReplayClaims the properties, ReplaySample a
    concrete store; ActiveStore says of the files and rows themselves when a store is sound and consumes.
    AuditRepo: campaigns, repositories, runs, rollups and the validation before a consumption. What SQLite enforces
    there is what the table's own statement declares, references only on a connection that enforces them, and a
    missing table is an error. CampaignFacts reads the declarations off SCHEMA_SQL; CampaignClaims: the keys and
    references of every reachable database.

  auth.ts.
    GitHubAuth: the configuration of the GitHub App, the policies on what GitHub reports and appAuth,
    which revokes a token when a check after minting fails. WriteBroker: resolveAuthorizedWriteAuth, which
    consumes the grant in vault and ledger before it asks for a write token. Each call that meets the outside
    world has its own moment, so the clock, the registry and GitHub may change between any two of them.
    GrantLedger connects the grant's receipt with the row of the ledger. BrokerWorld describes an agreeing world by
    the registry file, GitHub's replies, the configuration and the caller's data, independently of the code's checks; BrokerFacts,
    BrokerLiveness, BrokerSample and BrokerClaims hold the properties of one run; TokenSystem lets any number of processes share one ledger,
    crash and restart, and refines a specification that issues at most one token per claim.

  queue.ts.
    Queue: runCampaignJobs as a step relation of a pool of workers over one cursor. The measure of the
    remaining work bounds every run by two steps per job and one per worker.

  artifact.ts.
    Artifact: file trees, the collection of a tree as the code's stack of directories (terminating by the
    weight of the stack), the inspection of a report, its application to a clone and the confirmation.
    ArtifactFacts describes what is visible at a path; ArtifactClaims holds the properties.

  packages/db: runner-job-store-sqlite.ts and runner-job-store-contract.ts.
    JobStore: the one-row-per-run table as typed SQLite cells, its opening, reading, time mark, insertion and
    compare-and-swap, with interference between the moments of an operation and commits that fail or end
    uncertain. JobStoreFacts and JobStoreClaims interpret the locale of Refinement: every run of the processes
    that share a store is a run of a bounded table that only adds rows and replaces them by successors.

  runner-git-tree.ts and runner-source-bundle.ts.
    TextBytes holds the byte strings of paths and modes. GitTree: the trie of directories, the encoding of trees
    and the blob and tree ids in both object formats; GitTreeClaims shows that an id identifies the set of files.
    SourceBundle: the binary bundle of a clean checkout, its creation and its parsing; SourceBundleFacts and
    SourceBundleClaims: what was bundled is parsed back, and only canonical bytes are accepted.
    ObjectText relates a validated object to every value that prints like it.

  publication-runner.ts.
    IpAddress: address literals, their canonical text and the global ranges. RunnerPlan: the plan of an isolated
    run with its fixed controls and the job id derived from its members; RunnerPlanFacts and RunnerPlanClaims: a
    value is accepted exactly when it prints as the plan the code builds itself, and the job id identifies the
    plan. RunnerAttestation: the signed attestation of a run against plan, reviewed output and pinned key, with the
    module's private map of capabilities as a vault; RunnerAttestationFacts and RunnerAttestationClaims: every
    capability the module honours stands for a signed, good attestation, and every such attestation is honoured.

  Executability. All definitions compute; loops over lists are recursion, the stack of collectTree has a
  termination measure, and fuel occurs only where it is the code's own limit on depth.

  Not modelled. The engine (scanner, transforms, verifier, reporter) and the runner package work on syntax
  trees and processes of third-party packages. github.ts drives git and the GitHub API. The consoles, command-line
  tools and the scripts of ops are input, output and deployment. Writing a parsed source bundle to a directory is
  left out, as are the remaining contracts of app (owner challenges and signer, publication requests and policy,
  runner evidence and job records): validators and services in the style of the modelled ones, listed in the
  manifest as not modelled.
\<close>

end
